(* ===== verification/Prelude.thy ===== *)
theory Prelude
  imports Main "HOL-Library.Word"
begin

text \<open>
  What every component shares: bytes as 8-bit words, the outcome of a Go call (a value, an
  error return or a run-time panic), checked indexing and slicing, big-endian integers, and
  the few functions of the standard library's string package the sources use.
\<close>

unbundle bit_operations_syntax

section \<open>Bytes, runes and the outcome of a Go call\<close>

type_synonym byte = "8 word"
type_synonym bytes = "8 word list"
type_synonym rune = nat

named_theorems panic_free "operations that never panic"

text \<open>
  \<open>Ok\<close> is a normal return, \<open>Err\<close> a returned non-nil error (with the fixed part of its
  message), \<open>Panic\<close> a run-time panic: an index or a slice bound out of range.
\<close>

datatype 'a outcome = Ok 'a | Err string | Panic

fun obind :: "'a outcome \<Rightarrow> ('a \<Rightarrow> 'b outcome) \<Rightarrow> 'b outcome" where
  "obind (Ok x) f = f x"
| "obind (Err e) f = Err e"
| "obind Panic f = Panic"

fun omap :: "('a \<Rightarrow> 'b) \<Rightarrow> 'a outcome \<Rightarrow> 'b outcome" where
  "omap f (Ok x) = Ok (f x)"
| "omap f (Err e) = Err e"
| "omap f Panic = Panic"

fun wrap_err :: "string \<Rightarrow> 'a outcome \<Rightarrow> 'a outcome" where
  "wrap_err s (Err e) = Err (s @ '': '' @ e)"
| "wrap_err s r = r"

fun no_panic :: "'a outcome \<Rightarrow> bool" where
  "no_panic Panic = False"
| "no_panic _ = True"

lemma obind_eq_Ok: "obind m f = Ok y \<longleftrightarrow> (\<exists>x. m = Ok x \<and> f x = Ok y)"
  by (cases m) auto

lemma no_panic_obind:
  "no_panic m \<Longrightarrow> (\<And>x. m = Ok x \<Longrightarrow> no_panic (f x)) \<Longrightarrow> no_panic (obind m f)"
  by (cases m) auto

lemma no_panic_wrap_err [simp]: "no_panic (wrap_err s r) = no_panic r"
  by (cases r) auto

lemma wrap_err_eq_Ok [simp]: "wrap_err s r = Ok x \<longleftrightarrow> r = Ok x"
  by (cases r) auto

lemma wrap_err_Ok [simp]: "wrap_err s (Ok x) = Ok x"
  by simp

lemma no_panic_omap [simp]: "no_panic (omap f r) = no_panic r"
  by (cases r) auto

text \<open>Go's \<open>data[i]\<close> and \<open>data[a:b]\<close>, which panic out of range.\<close>

definition at :: "'a list \<Rightarrow> nat \<Rightarrow> 'a outcome" where
  "at xs i = (if i < length xs then Ok (xs ! i) else Panic)"

definition slice :: "'a list \<Rightarrow> nat \<Rightarrow> nat \<Rightarrow> 'a list outcome" where
  "slice xs a b = (if a \<le> b \<and> b \<le> length xs then Ok (take (b - a) (drop a xs)) else Panic)"

lemma at_in [simp]: "i < length xs \<Longrightarrow> at xs i = Ok (xs ! i)"
  by (simp add: at_def)

lemma slice_in [simp]: "a \<le> b \<Longrightarrow> b \<le> length xs \<Longrightarrow> slice xs a b = Ok (take (b - a) (drop a xs))"
  by (simp add: slice_def)

lemma at_eq_Ok: "at xs i = Ok x \<longleftrightarrow> i < length xs \<and> x = xs ! i"
  by (auto simp: at_def)

lemma slice_eq_Ok: "slice xs a b = Ok ys \<longleftrightarrow> a \<le> b \<and> b \<le> length xs \<and> ys = take (b - a) (drop a xs)"
  by (auto simp: slice_def)

section \<open>Integers on the wire\<close>

definition byte_of :: "nat \<Rightarrow> byte" where
  "byte_of n = word_of_nat n"

definition be16 :: "byte \<Rightarrow> byte \<Rightarrow> nat" where
  "be16 a b = unat a * 256 + unat b"

definition be24 :: "byte \<Rightarrow> byte \<Rightarrow> byte \<Rightarrow> nat" where
  "be24 a b c = unat a * 65536 + unat b * 256 + unat c"

definition be32 :: "byte \<Rightarrow> byte \<Rightarrow> byte \<Rightarrow> byte \<Rightarrow> nat" where
  "be32 a b c d = unat a * 16777216 + unat b * 65536 + unat c * 256 + unat d"

definition put16 :: "nat \<Rightarrow> bytes" where
  "put16 n = [byte_of (n div 256), byte_of n]"

definition put24 :: "nat \<Rightarrow> bytes" where
  "put24 n = [byte_of (n div 65536), byte_of (n div 256), byte_of n]"

definition put32 :: "nat \<Rightarrow> bytes" where
  "put32 n = [byte_of (n div 16777216), byte_of (n div 65536), byte_of (n div 256), byte_of n]"

lemma unat_byte_of [simp]: "unat (byte_of n) = n mod 256"
  by (simp add: byte_of_def unat_of_nat)

lemma byte_of_unat [simp]: "byte_of (unat b) = b"
  by (simp add: byte_of_def)

lemma unat_byte_less [simp]: "unat (b :: byte) < 256"
  using unsigned_less [of b] by simp

lemma length_put [simp]: "length (put16 n) = 2" "length (put24 n) = 3" "length (put32 n) = 4"
  by (simp_all add: put16_def put24_def put32_def)

lemma be16_put: "n < 65536 \<Longrightarrow> be16 (byte_of (n div 256)) (byte_of n) = n"
  by (simp add: be16_def)

lemma horner3: "x * 65536 + y * 256 + z = 256 * (256 * x + y) + (z :: nat)"
  by simp

lemma horner4: "w * 16777216 + x * 65536 + y * 256 + z = 256 * (256 * (256 * w + x) + y) + (z :: nat)"
  by simp

lemma be24_put:
  assumes "n < 16777216"
  shows "be24 (byte_of (n div 65536)) (byte_of (n div 256)) (byte_of n) = n"
proof -
  have "n div 65536 = n div 256 div 256" by (simp add: div_mult2_eq [symmetric])
  moreover have "n div 256 div 256 < 256" using assms by (simp add: div_mult2_eq [symmetric])
  ultimately show ?thesis
    unfolding be24_def unat_byte_of horner3 by simp
qed

lemma be32_put:
  assumes "n < 4294967296"
  shows "be32 (byte_of (n div 16777216)) (byte_of (n div 65536)) (byte_of (n div 256)) (byte_of n) = n"
proof -
  have "n div 65536 = n div 256 div 256" "n div 16777216 = n div 256 div 256 div 256"
    by (simp_all add: div_mult2_eq [symmetric])
  moreover have "n div 256 div 256 div 256 < 256" using assms by (simp add: div_mult2_eq [symmetric])
  ultimately show ?thesis
    unfolding be32_def unat_byte_of horner4 by simp
qed

lemma find_append: "find P (xs @ ys) = (case find P xs of None \<Rightarrow> find P ys | r \<Rightarrow> r)"
  by (induction xs) auto

lemma distinct_set_singleton: "distinct xs \<Longrightarrow> set xs = {x} \<Longrightarrow> xs = [x]"
proof (cases xs)
  case (Cons y ys)
  assume "distinct xs" "set xs = {x}"
  then have "y = x" "x \<notin> set ys" "set ys \<subseteq> {x}" using Cons by auto
  then show ?thesis using Cons by (cases ys) auto
qed simp

section \<open>Go strings\<close>

text \<open>A Go string holding identifiers (digits, host names, URIs) is a list of 8-bit characters.\<close>

definition is_digit :: "char \<Rightarrow> bool" where
  "is_digit c \<longleftrightarrow> 48 \<le> (of_char c :: nat) \<and> (of_char c :: nat) \<le> 57"

definition digit_val :: "char \<Rightarrow> nat" where
  "digit_val c = of_char c - 48"

definition digit_char :: "nat \<Rightarrow> char" where
  "digit_char n = char_of (48 + n)"

text \<open>\<open>%d\<close> of a natural number.\<close>

function decimal :: "nat \<Rightarrow> string" where
  "decimal n = (if n < 10 then [digit_char n] else decimal (n div 10) @ [digit_char (n mod 10)])"
  by pat_completeness auto
termination by (relation "measure id") auto

declare decimal.simps [simp del]

fun trim_plus :: "string \<Rightarrow> string" where
  "trim_plus (c # cs) = (if c = CHR ''+'' then cs else c # cs)"
| "trim_plus [] = []"

definition lower_char :: "char \<Rightarrow> char" where
  "lower_char c = (if 65 \<le> (of_char c :: nat) \<and> (of_char c :: nat) \<le> 90
     then char_of ((of_char c :: nat) + 32) else c)"

definition to_lower :: "string \<Rightarrow> string" where
  "to_lower s = map lower_char s"

fun has_prefix :: "'a list \<Rightarrow> 'a list \<Rightarrow> bool" where
  "has_prefix [] ys = True"
| "has_prefix (x # xs) [] = False"
| "has_prefix (x # xs) (y # ys) = (x = y \<and> has_prefix xs ys)"

text \<open>
  \<open>strings.TrimSpace\<close>: the UTF-8 encodings of the white-space code points are cut from both ends.
\<close>

definition space_seqs :: "nat list list" where
  "space_seqs = [[9], [10], [11], [12], [13], [32], [194, 133], [194, 160], [225, 154, 128]]
     @ map (\<lambda>n. [226, 128, 128 + n]) [0, 1, 2, 3, 4, 5, 6, 7, 8, 9, 10]
     @ [[226, 128, 168], [226, 128, 169], [226, 128, 175], [226, 129, 159], [227, 128, 128]]"

function trim_by :: "nat list list \<Rightarrow> nat list \<Rightarrow> nat list" where
  "trim_by seqs s =
     (case find (\<lambda>q. q \<noteq> [] \<and> has_prefix q s) seqs of
        Some q \<Rightarrow> trim_by seqs (drop (length q) s)
      | None \<Rightarrow> s)"
  by pat_completeness auto
termination
proof (relation "measure (\<lambda>(seqs, s). length s)")
  fix seqs :: "nat list list" and s q
  assume "find (\<lambda>q. q \<noteq> [] \<and> has_prefix q s) seqs = Some q"
  then have "q \<noteq> []" "has_prefix q s" by (auto simp: find_Some_iff)
  then show "((seqs, drop (length q) s), seqs, s) \<in> measure (\<lambda>(seqs, s). length s)"
    by (cases s; cases q) auto
qed simp

declare trim_by.simps [simp del]

definition trim_space :: "string \<Rightarrow> string" where
  "trim_space s = map char_of (rev (trim_by (map rev space_seqs) (rev (trim_by space_seqs (map of_char s)))))"

text \<open>\<open>strings.Index\<close>: the position of the first occurrence.\<close>

fun str_index :: "'a list \<Rightarrow> 'a list \<Rightarrow> nat option" where
  "str_index [] sub = (if sub = [] then Some 0 else None)"
| "str_index (x # xs) sub =
     (if has_prefix sub (x # xs) then Some 0 else map_option Suc (str_index xs sub))"

text \<open>Go's \<open><\<close> on strings: bytewise lexicographic order.\<close>

fun str_less :: "string \<Rightarrow> string \<Rightarrow> bool" where
  "str_less xs [] = False"
| "str_less [] (y # ys) = True"
| "str_less (x # xs) (y # ys) =
     ((of_char x :: nat) < of_char y \<or> (x = y \<and> str_less xs ys))"

lemma digit_char_val [simp]: "is_digit c \<Longrightarrow> digit_char (digit_val c) = c"
  by (simp add: is_digit_def digit_char_def digit_val_def)

lemma digit_val_char [simp]: "n \<le> 9 \<Longrightarrow> digit_val (digit_char n) = n"
  by (simp add: digit_char_def digit_val_def)

lemma is_digit_char [simp]: "n \<le> 9 \<Longrightarrow> is_digit (digit_char n)"
  by (simp add: is_digit_def digit_char_def)

lemma digit_val_le: "is_digit c \<Longrightarrow> digit_val c \<le> 9"
  by (auto simp: is_digit_def digit_val_def)

lemma is_digit_not_plus: "is_digit c \<Longrightarrow> c \<noteq> CHR ''+''"
  by (auto simp: is_digit_def)

lemma has_prefix_iff: "has_prefix xs ys \<longleftrightarrow> (\<exists>zs. ys = xs @ zs)"
  by (induction xs ys rule: has_prefix.induct) auto

lemma has_prefix_append [simp]: "has_prefix xs (xs @ ys)"
  by (simp add: has_prefix_iff)

text \<open>A search that first succeeds at the end of a text does so whatever follows.\<close>

lemma has_prefix_shorter: "has_prefix sub (ys @ rest) \<Longrightarrow> length sub \<le> length ys \<Longrightarrow> has_prefix sub ys"
  by (auto simp: has_prefix_iff append_eq_append_conv2)

lemma str_index_append:
  assumes "str_index (xs @ sub) sub = Some (length xs)"
  shows "str_index (xs @ sub @ rest) sub = Some (length xs)"
  using assms
proof (induction xs)
  case Nil
  have "has_prefix sub (sub @ rest)" by (auto simp: has_prefix_iff)
  then show ?case by (cases "sub @ rest") auto
next
  case (Cons x xs)
  have "\<not> has_prefix sub (x # xs @ sub)" "str_index (xs @ sub) sub = Some (length xs)"
    using Cons.prems by (auto split: if_splits)
  moreover from this(1) have "\<not> has_prefix sub (x # xs @ sub @ rest)"
    using has_prefix_shorter [of sub "x # xs @ sub" rest] by auto
  ultimately show ?case using Cons.IH by simp
qed

text \<open>A search for a text whose first character does not occur before it.\<close>

lemma str_index_skip: "\<forall>c \<in> set l. c \<noteq> x \<Longrightarrow> str_index (l @ s) (x # sub) = map_option ((+) (length l)) (str_index s (x # sub))"
proof (induction l)
  case Nil
  then show ?case by (cases "str_index s (x # sub)") auto
next
  case (Cons c l)
  then show ?case by (cases "str_index s (x # sub)") auto
qed

lemma str_index_here: "str_index (sub @ s) sub = Some 0"
proof -
  have "has_prefix sub (sub @ s)" by (auto simp: has_prefix_iff)
  then show ?thesis by (cases "sub @ s") auto
qed

lemma str_index_at: "\<forall>c \<in> set l. c \<noteq> x \<Longrightarrow> str_index (l @ (x # sub) @ s) (x # sub) = Some (length l)"
  by (simp only: str_index_skip str_index_here) simp

lemma str_less_irrefl [simp]: "\<not> str_less s s"
  by (induction s) auto

lemma str_less_append: "str_less (p @ xs) (p @ ys) = str_less xs ys"
  by (induction p) auto

lemma space_seqs_no_digit:
  "\<forall>q \<in> set space_seqs. \<forall>n \<in> set q. n < 48 \<or> 57 < n"
  by (simp add: space_seqs_def)

lemma trim_by_digits:
  assumes "\<forall>q \<in> set seqs. \<forall>n \<in> set q. n < 48 \<or> 57 < n" and "\<forall>n \<in> set s. 48 \<le> n \<and> n \<le> 57"
  shows "trim_by seqs s = s"
proof -
  have "\<not> (q \<noteq> [] \<and> has_prefix q s)" if "q \<in> set seqs" for q
  proof (cases q)
    case (Cons n q')
    then have "n < 48 \<or> 57 < n" using that assms(1) by auto
    moreover have "has_prefix q s \<Longrightarrow> 48 \<le> n \<and> n \<le> 57"
      using assms(2) Cons by (simp add: has_prefix_iff) auto
    ultimately show ?thesis by linarith
  qed simp
  then have "find (\<lambda>q. q \<noteq> [] \<and> has_prefix q s) seqs = None" by (simp add: find_None_iff)
  then show ?thesis by (simp add: trim_by.simps)
qed

lemma trim_space_digits:
  assumes "\<forall>c \<in> set s. is_digit c"
  shows "trim_space s = s"
proof -
  have "\<forall>n \<in> set (map of_char s). 48 \<le> n \<and> n \<le> (57 :: nat)" using assms by (auto simp: is_digit_def)
  moreover have "\<forall>q \<in> set (map rev space_seqs). \<forall>n \<in> set q. n < 48 \<or> 57 < n"
    using space_seqs_no_digit by auto
  ultimately show ?thesis
    using space_seqs_no_digit by (simp add: trim_space_def trim_by_digits comp_def)
qed

lemma trim_plus_digits: "(\<forall>c \<in> set s. is_digit c) \<Longrightarrow> trim_plus s = s"
  by (cases s) (auto dest: is_digit_not_plus)

text \<open>\<open>[]byte(s)\<close> and \<open>string(b)\<close>.\<close>

definition bytes_of_string :: "string \<Rightarrow> bytes" where
  "bytes_of_string s = map of_char s"

definition string_of_bytes :: "bytes \<Rightarrow> string" where
  "string_of_bytes b = map (\<lambda>x. char_of (unat x)) b"

lemma unat_of_char [simp]: "unat (of_char c :: byte) = of_char c"
proof -
  have "(of_char c :: byte) = word_of_nat (of_char c)" by (simp only: of_nat_of_char)
  moreover have "(of_char c :: nat) < 256" by simp
  ultimately show ?thesis by (simp only: unat_of_nat) simp
qed

lemma string_of_bytes_of_string [simp]: "string_of_bytes (bytes_of_string s) = s"
  by (simp add: string_of_bytes_def bytes_of_string_def comp_def)

lemma of_char_char_of_unat [simp]: "(of_char (char_of (unat (b :: byte))) :: byte) = b"
proof -
  have "unat (of_char (char_of (unat b)) :: byte) = unat b"
    by (simp only: unat_of_char of_char_of) simp
  then show ?thesis by (simp only: unsigned_word_eqI)
qed

lemma bytes_of_string_of_bytes [simp]: "bytes_of_string (string_of_bytes b) = b"
  by (simp add: string_of_bytes_def bytes_of_string_def comp_def)

lemma length_bytes_of_string [simp]: "length (bytes_of_string s) = length s"
  "length (string_of_bytes b) = length b"
  by (simp_all add: bytes_of_string_def string_of_bytes_def)

lemma bytes_of_string_simps [simp]: "bytes_of_string [] = []" "string_of_bytes [] = []"
  "bytes_of_string (c # s) = of_char c # bytes_of_string s"
  by (simp_all add: bytes_of_string_def string_of_bytes_def)

end
