(* ===== verification/Utf8.thy ===== *)
theory Utf8
  imports Prelude
begin

text \<open>
  A Go string is a byte sequence; ranging over it decodes UTF-8 (an invalid byte gives U+FFFD
  and one byte of progress) and \<open>string(runes)\<close> encodes it (an invalid code point is written
  as U+FFFD). The message text of the program is such a string, so both directions are needed
  wherever the codecs walk a text rune by rune.
\<close>

definition valid_rune :: "rune \<Rightarrow> bool" where
  "valid_rune r \<longleftrightarrow> r < 55296 \<or> (57344 \<le> r \<and> r < 1114112)"

definition cont_byte :: "nat \<Rightarrow> bool" where
  "cont_byte b \<longleftrightarrow> 128 \<le> b \<and> b < 192"

fun lead2 :: "nat \<Rightarrow> nat list \<Rightarrow> bool" where
  "lead2 b0 (b1 # _) = (194 \<le> b0 \<and> b0 < 224 \<and> cont_byte b1)"
| "lead2 b0 _ = False"

fun lead3 :: "nat \<Rightarrow> nat list \<Rightarrow> bool" where
  "lead3 b0 (b1 # b2 # _) = (224 \<le> b0 \<and> b0 < 240 \<and> cont_byte b1 \<and> cont_byte b2
     \<and> (b0 = 224 \<longrightarrow> 160 \<le> b1) \<and> (b0 = 237 \<longrightarrow> b1 < 160))"
| "lead3 b0 _ = False"

fun lead4 :: "nat \<Rightarrow> nat list \<Rightarrow> bool" where
  "lead4 b0 (b1 # b2 # b3 # _) = (240 \<le> b0 \<and> b0 < 245 \<and> cont_byte b1 \<and> cont_byte b2 \<and> cont_byte b3
     \<and> (b0 = 240 \<longrightarrow> 144 \<le> b1) \<and> (b0 = 244 \<longrightarrow> b1 < 144))"
| "lead4 b0 _ = False"

fun utf8_decode :: "nat list \<Rightarrow> rune list" where
  "utf8_decode [] = []"
| "utf8_decode (b0 # bs) =
     (if b0 < 128 then b0 # utf8_decode bs
      else if lead2 b0 bs then ((b0 - 192) * 64 + (bs ! 0 - 128)) # utf8_decode (drop 1 bs)
      else if lead3 b0 bs then
        ((b0 - 224) * 4096 + (bs ! 0 - 128) * 64 + (bs ! 1 - 128)) # utf8_decode (drop 2 bs)
      else if lead4 b0 bs then
        ((b0 - 240) * 262144 + (bs ! 0 - 128) * 4096 + (bs ! 1 - 128) * 64 + (bs ! 2 - 128))
          # utf8_decode (drop 3 bs)
      else 65533 # utf8_decode bs)"

definition utf8_encode1 :: "rune \<Rightarrow> nat list" where
  "utf8_encode1 r =
     (if r < 128 then [r]
      else if r < 2048 then [192 + r div 64, 128 + r mod 64]
      else if \<not> valid_rune r then [239, 191, 189]
      else if r < 65536 then [224 + r div 4096, 128 + r div 64 mod 64, 128 + r mod 64]
      else [240 + r div 262144, 128 + r div 4096 mod 64, 128 + r div 64 mod 64, 128 + r mod 64])"

definition runes_of :: "string \<Rightarrow> rune list" where
  "runes_of s = utf8_decode (map of_char s)"

definition string_of_runes :: "rune list \<Rightarrow> string" where
  "string_of_runes rs = map char_of (concat (map utf8_encode1 rs))"

lemma utf8_decode1:
  assumes "valid_rune r"
  shows "utf8_decode (utf8_encode1 r @ bs) = r # utf8_decode bs"
proof -
  consider "r < 128" | "128 \<le> r" "r < 2048" | "2048 \<le> r" "r < 65536" | "65536 \<le> r" by linarith
  then show ?thesis
  proof cases
    case 1
    then show ?thesis by (simp add: utf8_encode1_def)
  next
    case 2
    define h l where "h = r div 64" and "l = r mod 64"
    have "r = 64 * h + l" "l < 64" by (simp_all add: h_def l_def)
    moreover have "2 \<le> h" "h < 32" using 2 calculation by linarith+
    moreover have "utf8_encode1 r = [192 + h, 128 + l]"
      using 2 by (simp add: utf8_encode1_def h_def l_def)
    ultimately show ?thesis by (simp add: cont_byte_def)
  next
    case 3
    define q h m l where "q = r div 64" and "h = q div 64" and "m = q mod 64" and "l = r mod 64"
    have r: "r = 64 * q + l" "l < 64" "q = 64 * h + m" "m < 64"
      by (simp_all add: h_def l_def m_def q_def)
    have h: "h = r div 4096" by (simp add: h_def q_def div_mult2_eq [symmetric])
    have "h < 16" "h = 0 \<longrightarrow> 32 \<le> m" using 3 r by linarith+
    moreover have "h = 13 \<longrightarrow> m < 32" using assms 3 r by (auto simp: valid_rune_def)
    moreover have "utf8_encode1 r = [224 + h, 128 + m, 128 + l]"
      using 3 assms by (simp add: utf8_encode1_def h [symmetric] m_def q_def l_def)
    ultimately show ?thesis using r by (simp add: cont_byte_def)
  next
    case 4
    define p q h n m l where "p = r div 64" and "q = p div 64" and "h = q div 64" and
      "n = q mod 64" and "m = p mod 64" and "l = r mod 64"
    have r: "r = 64 * p + l" "l < 64" "p = 64 * q + m" "m < 64" "q = 64 * h + n" "n < 64"
      by (simp_all add: h_def l_def m_def q_def n_def p_def)
    have h: "h = r div 262144" "q = r div 4096"
      by (simp_all add: h_def q_def p_def div_mult2_eq [symmetric])
    have "r < 1114112" using assms 4 by (simp add: valid_rune_def)
    then have "h < 5" "h = 0 \<longrightarrow> 16 \<le> n" "h = 4 \<longrightarrow> n < 16" using 4 r by linarith+
    moreover have "utf8_encode1 r = [240 + h, 128 + n, 128 + m, 128 + l]"
      using 4 assms by (simp add: utf8_encode1_def h [symmetric] n_def m_def p_def l_def)
    ultimately show ?thesis using r by (simp add: cont_byte_def)
  qed
qed

lemma utf8_encode1_less: "valid_rune r \<Longrightarrow> b \<in> set (utf8_encode1 r) \<Longrightarrow> b < 256"
  by (auto simp: utf8_encode1_def valid_rune_def split: if_splits)

lemma utf8_decode_encode:
  "\<forall>r \<in> set rs. valid_rune r \<Longrightarrow> utf8_decode (concat (map utf8_encode1 rs)) = rs"
  by (induction rs) (auto simp: utf8_decode1)

text \<open>\<open>[]rune(string(rs)) = rs\<close> for valid code points.\<close>

lemma runes_of_string [simp]:
  assumes "\<forall>r \<in> set rs. valid_rune r"
  shows "runes_of (string_of_runes rs) = rs"
proof -
  have "map (\<lambda>b. b mod 256) (concat (map utf8_encode1 rs)) = concat (map utf8_encode1 rs)"
    using assms by (intro map_idI) (auto dest!: utf8_encode1_less)
  then show ?thesis
    using utf8_decode_encode [OF assms]
    by (simp add: runes_of_def string_of_runes_def comp_def)
qed

lemma runes_of_ascii: "\<forall>c \<in> set s. (of_char c :: nat) < 128 \<Longrightarrow> runes_of s = map of_char s"
  by (induction s) (auto simp: runes_of_def)

lemma runes_of_Nil [simp]: "runes_of [] = []" "string_of_runes [] = []"
  by (simp_all add: runes_of_def string_of_runes_def)

lemma string_of_runes_ascii:
  assumes "\<forall>c \<in> set s. (of_char c :: nat) < 128"
  shows "string_of_runes (runes_of s) = s"
proof -
  have "concat (map utf8_encode1 (map of_char s)) = map of_char s" using assms
    by (induction s) (auto simp: utf8_encode1_def)
  then show ?thesis using assms
    by (simp add: runes_of_ascii string_of_runes_def comp_def)
qed

end
