(* ===== verification/Msg.thy ===== *)
theory Msg
  imports Utf8
begin

text \<open>
  The canonical message of \<open>internal/codec/message.go\<close>: every codec converts to and from it,
  and the routing engine and the forwarder work on it alone. Also the standard library's
  \<open>time.Time\<close> and \<open>time.Duration\<close> as far as the program uses them.
\<close>

section \<open>Time\<close>

text \<open>
  \<open>time.Duration\<close> is a number of nanoseconds. A \<open>time.Time\<close> is held as its accessors: the
  civil fields in its own zone, the zone's offset in seconds east of UTC and the nanoseconds.
\<close>

type_synonym duration = int

abbreviation Second :: duration where "Second \<equiv> 1000000000"
abbreviation Minute :: duration where "Minute \<equiv> 60000000000"
abbreviation Hour :: duration where "Hour \<equiv> 3600000000000"

record gotime =
  t_year :: int
  t_month :: nat
  t_day :: nat
  t_hour :: nat
  t_minute :: nat
  t_second :: nat
  t_offset :: int
  t_nsec :: nat

definition is_leap :: "int \<Rightarrow> bool" where
  "is_leap y \<longleftrightarrow> y mod 4 = 0 \<and> (y mod 100 \<noteq> 0 \<or> y mod 400 = 0)"

definition days_in_month :: "int \<Rightarrow> nat \<Rightarrow> nat" where
  "days_in_month y m =
     (if m = 2 then (if is_leap y then 29 else 28)
      else if m \<in> {4, 6, 9, 11} then 30 else 31)"

definition valid_civil :: "gotime \<Rightarrow> bool" where
  "valid_civil t \<longleftrightarrow> 1 \<le> t_month t \<and> t_month t \<le> 12 \<and> 1 \<le> t_day t
     \<and> t_day t \<le> days_in_month (t_year t) (t_month t)
     \<and> t_hour t < 24 \<and> t_minute t < 60 \<and> t_second t < 60"

lemma days_in_month_ge: "28 \<le> days_in_month y m"
  by (simp add: days_in_month_def)

text \<open>
  \<open>time.Date\<close> normalises fields out of range by carrying into the next larger one. The only
  call passes BCD octets, so no field is negative: the carry goes upwards, except for month 0
  and day 0, which are the last month of the year before and the last day of the month before.
\<close>

function norm_day :: "int \<Rightarrow> nat \<Rightarrow> nat \<Rightarrow> int \<times> nat \<times> nat" where
  "norm_day y m d =
     (if d \<le> days_in_month y m then (y, m, d)
      else norm_day (if m = 12 then y + 1 else y) (if m = 12 then 1 else Suc m)
             (d - days_in_month y m))"
  by pat_completeness auto
termination
proof (relation "measure (\<lambda>(y, m, d). d)")
  fix y m d
  assume "\<not> d \<le> days_in_month y m"
  then show "((if m = 12 then y + 1 else y, if m = 12 then 1 else Suc m, d - days_in_month y m), y, m, d)
    \<in> measure (\<lambda>(y, m, d). d)"
    using days_in_month_ge [of y m] by simp
qed simp

declare norm_day.simps [simp del]

definition go_date :: "int \<Rightarrow> nat \<Rightarrow> nat \<Rightarrow> nat \<Rightarrow> nat \<Rightarrow> nat \<Rightarrow> int \<Rightarrow> gotime" where
  "go_date y m d h mi s off =
     (let mi' = mi + s div 60; h' = h + mi' div 60; d' = d + h' div 24;
          y1 = (if m = 0 then y - 1 else y + int ((m - 1) div 12));
          m1 = (if m = 0 then 12 else (m - 1) mod 12 + 1);
          (y2, m2, d2) =
            (if d' = 0 then
               (if m1 = 1 then (y1 - 1, 12, 31) else (y1, m1 - 1, days_in_month y1 (m1 - 1)))
             else norm_day y1 m1 d')
      in \<lparr>t_year = y2, t_month = m2, t_day = d2, t_hour = h' mod 24, t_minute = mi' mod 60,
          t_second = s mod 60, t_offset = off, t_nsec = 0\<rparr>)"

lemma go_date_valid:
  assumes "valid_civil t" and "t_nsec t = 0"
  shows "go_date (t_year t) (t_month t) (t_day t) (t_hour t) (t_minute t) (t_second t) (t_offset t) = t"
proof -
  have "t_month t - Suc 0 < 12" using assms by (auto simp: valid_civil_def)
  with assms show ?thesis
    by (simp add: go_date_def valid_civil_def norm_day.simps)
qed

text \<open>Seconds since the Unix epoch, by the day count of the proleptic Gregorian calendar.\<close>

definition days_from_civil :: "int \<Rightarrow> nat \<Rightarrow> nat \<Rightarrow> int" where
  "days_from_civil y m d =
     (let y' = (if m \<le> 2 then y - 1 else y); era = y' div 400; yoe = y' - era * 400;
          mp = (int m + 9) mod 12; doy = (153 * mp + 2) div 5 + int d - 1;
          doe = yoe * 365 + yoe div 4 - yoe div 100 + doy
      in era * 146097 + doe - 719468)"

definition unix_nanos :: "gotime \<Rightarrow> int" where
  "unix_nanos t =
     ((days_from_civil (t_year t) (t_month t) (t_day t) * 86400 + int (t_hour t) * 3600
       + int (t_minute t) * 60 + int (t_second t)) - t_offset t) * 1000000000 + int (t_nsec t)"

lemma unix_nanos_epoch: "unix_nanos \<lparr>t_year = 1970, t_month = 1, t_day = 1, t_hour = 0, t_minute = 0,
    t_second = 0, t_offset = 0, t_nsec = 0\<rparr> = 0"
  by (simp add: unix_nanos_def days_from_civil_def)

section \<open>The canonical message\<close>

text \<open>\<open>InterfaceType\<close> and its four constants.\<close>

abbreviation InterfaceSIP3GPP :: string where "InterfaceSIP3GPP \<equiv> ''sip3gpp''"
abbreviation InterfaceSIPSimple :: string where "InterfaceSIPSimple \<equiv> ''sipsimple''"
abbreviation InterfaceSMPP :: string where "InterfaceSMPP \<equiv> ''smpp''"
abbreviation InterfaceSGd :: string where "InterfaceSGd \<equiv> ''sgd''"

text \<open>\<open>Encoding\<close> is an int with four named values; a stored message may hold another one.\<close>

datatype encoding = EncodingGSM7 | EncodingUCS2 | EncodingUTF8 | EncodingBinary | EncodingOther int

fun encoding_to_int :: "encoding \<Rightarrow> int" where
  "encoding_to_int EncodingGSM7 = 0"
| "encoding_to_int EncodingUCS2 = 1"
| "encoding_to_int EncodingUTF8 = 2"
| "encoding_to_int EncodingBinary = 3"
| "encoding_to_int (EncodingOther n) = n"

definition encoding_of_int :: "int \<Rightarrow> encoding" where
  "encoding_of_int n =
     (if n = 0 then EncodingGSM7 else if n = 1 then EncodingUCS2
      else if n = 2 then EncodingUTF8 else if n = 3 then EncodingBinary else EncodingOther n)"

record address =
  addr_MSISDN :: string
  addr_IMSI :: string
  addr_MMENumber :: string
  addr_SIPURI :: string
  addr_Alpha :: string
  addr_TON :: byte
  addr_NPI :: byte

definition empty_address :: address where
  "empty_address = \<lparr>addr_MSISDN = [], addr_IMSI = [], addr_MMENumber = [], addr_SIPURI = [],
     addr_Alpha = [], addr_TON = 0, addr_NPI = 0\<rparr>"

record concat_info =
  cc_Ref :: "16 word"
  cc_Total :: byte
  cc_Sequence :: byte

record udh =
  udh_Raw :: bytes
  udh_Concat :: "concat_info option"

record message =
  msg_ID :: string
  msg_CorrelationID :: string
  msg_SMPPMsgID :: string
  msg_Source :: address
  msg_Destination :: address
  msg_Text :: string
  msg_Binary :: bytes
  msg_Encoding :: encoding
  msg_DCS :: byte
  msg_UDH :: "udh option"
  msg_Concat :: "concat_info option"
  msg_TPMR :: byte
  msg_RPMR :: byte
  msg_TPSRRequired :: bool
  msg_ValidityPeriod :: "duration option"
  msg_IngressInterface :: string
  msg_EgressInterface :: string
  msg_IngressPeer :: string
  msg_Timestamp :: "gotime option"
  msg_Expiry :: "int option"

text \<open>The zero \<open>Message\<close>; the zero \<open>time.Time\<close> of \<open>Timestamp\<close> is \<open>None\<close>.\<close>

definition empty_message :: message where
  "empty_message = \<lparr>msg_ID = [], msg_CorrelationID = [], msg_SMPPMsgID = [],
     msg_Source = empty_address, msg_Destination = empty_address, msg_Text = [], msg_Binary = [],
     msg_Encoding = EncodingGSM7, msg_DCS = 0, msg_UDH = None, msg_Concat = None, msg_TPMR = 0,
     msg_RPMR = 0, msg_TPSRRequired = False, msg_ValidityPeriod = None, msg_IngressInterface = [],
     msg_EgressInterface = [], msg_IngressPeer = [], msg_Timestamp = None, msg_Expiry = None\<rparr>"

lemma encoding_of_to_int:
  "(\<forall>n. e = EncodingOther n \<longrightarrow> n < 0 \<or> 3 < n) \<Longrightarrow> encoding_of_int (encoding_to_int e) = e"
  by (cases e) (auto simp: encoding_of_int_def)

end
