(* ===== verification/MsgStore.thy ===== *)
theory MsgStore
  imports Msg "HOL-Library.Option_ord" "HOL-Library.Multiset" "HOL-Library.List_Lexorder"
begin

text \<open>
  The storage layer: the model types of \<open>internal/store/store.go\<close> and the message and report
  operations of \<open>internal/store/sqlite/messages.go\<close> and \<open>postgres/messages.go\<close>, each statement
  as a function on the tables; columns that only the administration pages read are left out. An
  instant is a number of nanoseconds since the epoch; what a backend keeps of it is \<open>db_time\<close>.
  Every statement may fail: \<open>db_faults\<close> says for the calls to come which of them do, and a failed
  call changes nothing.
\<close>

section \<open>Model types\<close>

abbreviation MessageStatusQueued :: string where "MessageStatusQueued \<equiv> ''QUEUED''"
abbreviation MessageStatusDispatched :: string where "MessageStatusDispatched \<equiv> ''DISPATCHED''"
abbreviation MessageStatusWaitTimer :: string where "MessageStatusWaitTimer \<equiv> ''WAIT_TIMER''"
abbreviation MessageStatusWaitEvent :: string where "MessageStatusWaitEvent \<equiv> ''WAIT_EVENT''"
abbreviation MessageStatusWaitTimerEvent :: string where "MessageStatusWaitTimerEvent \<equiv> ''WAIT_TIMER_EVENT''"
abbreviation MessageStatusDelivered :: string where "MessageStatusDelivered \<equiv> ''DELIVERED''"
abbreviation MessageStatusFailed :: string where "MessageStatusFailed \<equiv> ''FAILED''"
abbreviation MessageStatusExpired :: string where "MessageStatusExpired \<equiv> ''EXPIRED''"

record smsg =
  sm_ID :: string
  sm_TPMR :: "int option"
  sm_SMPPMsgID :: string
  sm_OriginIface :: string
  sm_OriginPeer :: string
  sm_EgressIface :: string
  sm_EgressPeer :: string
  sm_RouteCursor :: int
  sm_SrcMSISDN :: string
  sm_DstMSISDN :: string
  sm_AlertCorrelationID :: string
  sm_DeferredReason :: string
  sm_DeferredInterface :: string
  sm_ServingNodeAtDeferral :: string
  sm_Payload :: bytes
  sm_UDH :: bytes
  sm_Encoding :: int
  sm_DCS :: int
  sm_Status :: string
  sm_RetryCount :: int
  sm_NextRetryAt :: "int option"
  sm_DRRequired :: bool
  sm_SubmittedAt :: int
  sm_ExpiryAt :: "int option"
  sm_DeliveredAt :: "int option"

record sf_policy =
  pol_ID :: string
  pol_MaxRetries :: int
  pol_RetrySchedule :: "int list"
  pol_MaxTTL :: duration
  pol_VPOverride :: "duration option"

record routing_rule =
  rr_Name :: string
  rr_Priority :: int
  rr_MatchSrcIface :: string
  rr_MatchSrcPeer :: string
  rr_MatchDstPrefix :: string
  rr_MatchMSISDNMin :: string
  rr_MatchMSISDNMax :: string
  rr_EgressIface :: string
  rr_EgressPeer :: string
  rr_SFPolicyID :: string
  rr_Enabled :: bool

record subscriber =
  sub_MSISDN :: string
  sub_IMSI :: string
  sub_IMSRegistered :: bool
  sub_LTEAttached :: bool
  sub_MMENumber :: string
  sub_MMEHost :: string
  sub_MWDSet :: bool
  sub_UpdatedAt :: "int option"

record ims_registration =
  ir_MSISDN :: string
  ir_IMSI :: string
  ir_SIPAOR :: string
  ir_ContactURI :: string
  ir_SCSCF :: string
  ir_Registered :: bool
  ir_Expiry :: int

record sip_peer =
  sp_Name :: string
  sp_Address :: string
  sp_Port :: int
  sp_Transport :: string
  sp_Domain :: string
  sp_Enabled :: bool

record delivery_report =
  dr_ID :: string
  dr_MessageID :: string
  dr_Status :: string
  dr_EgressIface :: string
  dr_RawReceipt :: string
  dr_ReportedAt :: int

record sgd_mme_mapping =
  mm_S6CResult :: string
  mm_SGDHost :: string
  mm_Enabled :: bool

section \<open>The database\<close>

datatype backend = SQLite | Postgres

text \<open>
  \<open>db_accepts\<close> is what the column of message identifiers takes: any text on SQLite, where it is of type TEXT, and the text of
  a UUID on PostgreSQL, where it is of type UUID and the server parses it. The statements below are those of the two stores
  for the identifiers it takes; for any other, which no row bears, PostgreSQL reports an error where they find no row, and the
  engine treats the two alike.
\<close>

record db =
  db_backend :: backend
  db_accepts :: "string \<Rightarrow> bool"
  db_messages :: "smsg list"
  db_reports :: "delivery_report list"
  db_policies :: "sf_policy list"
  db_subscribers :: "subscriber list"
  db_registrations :: "ims_registration list"
  db_sip_peers :: "sip_peer list"
  db_rules :: "routing_rule list"
  db_mappings :: "sgd_mme_mapping list"
  db_faults :: "bool list"

text \<open>One statement: the next entry of the fault schedule decides whether it fails (\<open>None\<close>).\<close>

fun db_call :: "(db \<Rightarrow> 'a \<times> db) \<Rightarrow> db \<Rightarrow> 'a option \<times> db" where
  "db_call f db =
     (case db_faults db of
        [] \<Rightarrow> map_prod Some id (f db)
      | flt # fs \<Rightarrow>
          if flt then (None, db\<lparr>db_faults := fs\<rparr>) else map_prod Some id (f (db\<lparr>db_faults := fs\<rparr>)))"

declare db_call.simps [simp del]

text \<open>A statement that the constraints of the schema may refuse (\<open>None\<close>) fails in that case too.\<close>

definition db_step :: "(db \<Rightarrow> db option) \<Rightarrow> db \<Rightarrow> bool \<times> db" where
  "db_step f d = (case f d of None \<Rightarrow> (False, d) | Some d' \<Rightarrow> (True, d'))"

definition db_try :: "(db \<Rightarrow> db option) \<Rightarrow> db \<Rightarrow> unit option \<times> db" where
  "db_try f d = map_prod (\<lambda>r. if r = Some True then Some () else None) id (db_call (db_step f) d)"

lemma snd_db_try: "snd (db_try f d) = snd (db_call (db_step f) d)"
  by (simp add: db_try_def snd_map_prod)

text \<open>
  The text form of RFC 3339 keeps whole seconds, a Postgres \<open>timestamptz\<close> microseconds.
\<close>

fun db_time :: "backend \<Rightarrow> int \<Rightarrow> int" where
  "db_time SQLite t = t div Second * Second"
| "db_time Postgres t = t div 1000 * 1000"

text \<open>The civil date of a day number, for the text columns of SQLite.\<close>

definition civil_from_days :: "int \<Rightarrow> int \<times> int \<times> int" where
  "civil_from_days z =
     (let z = z + 719468; era = z div 146097; doe = z - era * 146097;
          yoe = (doe - doe div 1460 + doe div 36524 - doe div 146096) div 365;
          doy = doe - (365 * yoe + yoe div 4 - yoe div 100); mp = (5 * doy + 2) div 153;
          d = doy - (153 * mp + 2) div 5 + 1; m = (if mp < 10 then mp + 3 else mp - 9)
      in (yoe + era * 400 + (if m \<le> 2 then 1 else 0), m, d))"

definition dig :: "int \<Rightarrow> char" where
  "dig n = digit_char (nat (n mod 10))"

definition two :: "int \<Rightarrow> string" where
  "two n = [dig (n div 10), dig n]"

definition date_text :: "int \<Rightarrow> string" where
  "date_text day = (let (y, m, d) = civil_from_days day in
     [dig (y div 1000), dig (y div 100), dig (y div 10), dig y] @ ''-'' @ two m @ ''-'' @ two d)"

definition clock_text :: "int \<Rightarrow> string" where
  "clock_text s = two (s div 3600) @ '':'' @ two (s div 60 mod 60) @ '':'' @ two (s mod 60)"

text \<open>\<open>t.UTC().Format(time.RFC3339)\<close>, and SQLite's \<open>datetime('now')\<close>, which has a blank in the middle.\<close>

definition rfc3339 :: "int \<Rightarrow> string" where
  "rfc3339 t = (let s = t div Second in date_text (s div 86400) @ ''T'' @ clock_text (s mod 86400) @ ''Z'')"

definition sqlite_now :: "int \<Rightarrow> string" where
  "sqlite_now t = (let s = t div Second in date_text (s div 86400) @ '' '' @ clock_text (s mod 86400))"

text \<open>\<open>column <= now\<close>: on instants in Postgres, on the two texts in SQLite.\<close>

fun time_due :: "backend \<Rightarrow> int \<Rightarrow> int \<Rightarrow> bool" where
  "time_due Postgres now t = (t \<le> now)"
| "time_due SQLite now t = (\<not> str_less (sqlite_now now) (rfc3339 t))"

section \<open>Messages\<close>

definition upd_message :: "string \<Rightarrow> (smsg \<Rightarrow> smsg) \<Rightarrow> db \<Rightarrow> db" where
  "upd_message mid g d = d\<lparr>db_messages := map (\<lambda>m. if sm_ID m = mid then g m else m) (db_messages d)\<rparr>"

lemma db_messages_upd: "db_messages (upd_message mid g d) = map (\<lambda>m. if sm_ID m = mid then g m else m) (db_messages d)"
  by (simp add: upd_message_def)

definition store_times :: "backend \<Rightarrow> smsg \<Rightarrow> smsg" where
  "store_times b m = m\<lparr>sm_NextRetryAt := map_option (db_time b) (sm_NextRetryAt m),
     sm_SubmittedAt := db_time b (sm_SubmittedAt m), sm_ExpiryAt := map_option (db_time b) (sm_ExpiryAt m),
     sm_DeliveredAt := None\<rparr>"

text \<open>
  A second message with the same primary key is refused, and so is one whose identifier the column does not take; the result
  says whether it was stored.
\<close>

definition SaveMessage :: "smsg \<Rightarrow> db \<Rightarrow> bool option \<times> db" where
  "SaveMessage m = db_call (\<lambda>d.
     if sm_ID m \<in> set (map sm_ID (db_messages d)) \<or> \<not> db_accepts d (sm_ID m) then (False, d)
     else (True, d\<lparr>db_messages := db_messages d @ [store_times (db_backend d) m]\<rparr>))"

definition UpdateMessageRouting :: "string \<Rightarrow> string \<Rightarrow> string \<Rightarrow> db \<Rightarrow> unit option \<times> db" where
  "UpdateMessageRouting mid egressIface egressPeer = db_call (\<lambda>d.
     ((), upd_message mid (\<lambda>m. m\<lparr>sm_EgressIface := egressIface, sm_EgressPeer := egressPeer\<rparr>) d))"

definition UpdateMessageDeferred ::
  "string \<Rightarrow> string \<Rightarrow> string \<Rightarrow> string \<Rightarrow> int \<Rightarrow> db \<Rightarrow> unit option \<times> db" where
  "UpdateMessageDeferred mid reason iface node cursor = db_call (\<lambda>d.
     ((), upd_message mid (\<lambda>m. m\<lparr>sm_DeferredReason := reason, sm_DeferredInterface := iface,
            sm_ServingNodeAtDeferral := node, sm_RouteCursor := cursor\<rparr>) d))"

definition UpdateMessageStatus :: "int \<Rightarrow> string \<Rightarrow> string \<Rightarrow> db \<Rightarrow> unit option \<times> db" where
  "UpdateMessageStatus now mid status = db_call (\<lambda>d.
     ((), upd_message mid (\<lambda>m. if status = MessageStatusDelivered
            then m\<lparr>sm_Status := status, sm_DeliveredAt := Some (db_time (db_backend d) now)\<rparr>
            else m\<lparr>sm_Status := status\<rparr>) d))"

text \<open>The row count of a guarded update, as the flag the callers look at.\<close>

definition guarded :: "string \<Rightarrow> string list \<Rightarrow> db \<Rightarrow> bool" where
  "guarded mid allowed d \<longleftrightarrow> (\<exists>m \<in> set (db_messages d). sm_ID m = mid \<and> sm_Status m \<in> set allowed)"

definition upd_guarded :: "string \<Rightarrow> string list \<Rightarrow> (smsg \<Rightarrow> smsg) \<Rightarrow> db \<Rightarrow> bool \<times> db" where
  "upd_guarded mid allowed g d =
     (guarded mid allowed d, upd_message mid (\<lambda>m. if sm_Status m \<in> set allowed then g m else m) d)"

definition ClaimMessageForDispatch :: "string \<Rightarrow> string list \<Rightarrow> db \<Rightarrow> bool option \<times> db" where
  "ClaimMessageForDispatch mid allowed d =
     (if allowed = [] then (Some False, d)
      else db_call (upd_guarded mid allowed (\<lambda>m. m\<lparr>sm_Status := MessageStatusDispatched\<rparr>)) d)"

definition UpdateMessageRetry :: "string \<Rightarrow> int \<Rightarrow> int \<Rightarrow> int \<Rightarrow> db \<Rightarrow> unit option \<times> db" where
  "UpdateMessageRetry mid retryCount nextRetryAt routeCursor = db_call (\<lambda>d.
     ((), upd_message mid (\<lambda>m. m\<lparr>sm_Status := MessageStatusWaitTimer, sm_RetryCount := retryCount,
            sm_NextRetryAt := Some (db_time (db_backend d) nextRetryAt),
            sm_RouteCursor := routeCursor\<rparr>) d))"

definition UpdateMessageExpiryCap :: "string \<Rightarrow> int \<Rightarrow> db \<Rightarrow> unit option \<times> db" where
  "UpdateMessageExpiryCap mid expiryAt = db_call (\<lambda>d.
     let t = db_time (db_backend d) expiryAt in
     ((), upd_message mid (\<lambda>m. m\<lparr>sm_ExpiryAt :=
            (case sm_ExpiryAt m of None \<Rightarrow> Some t | Some e \<Rightarrow> if t < e then Some t else Some e)\<rparr>) d))"

definition RequeueMessageForAlert ::
  "string \<Rightarrow> int \<Rightarrow> int \<Rightarrow> string \<Rightarrow> string list \<Rightarrow> db \<Rightarrow> bool option \<times> db" where
  "RequeueMessageForAlert mid nextRetryAt routeCursor deferredReason allowed d =
     (if allowed = [] then (Some False, d)
      else db_call (\<lambda>d. upd_guarded mid allowed (\<lambda>m. m\<lparr>sm_Status := MessageStatusWaitTimer,
             sm_NextRetryAt := Some (db_time (db_backend d) nextRetryAt), sm_RouteCursor := routeCursor,
             sm_DeferredReason := (if deferredReason \<noteq> [] then deferredReason else sm_DeferredReason m)\<rparr>) d) d)"

definition retryable_statuses :: "string list" where
  "retryable_statuses = [MessageStatusQueued, MessageStatusWaitTimer, MessageStatusWaitTimerEvent]"

definition waiting_statuses :: "string list" where
  "waiting_statuses = [MessageStatusQueued, MessageStatusWaitTimer, MessageStatusWaitEvent, MessageStatusWaitTimerEvent]"

definition retry_due :: "backend \<Rightarrow> int \<Rightarrow> smsg \<Rightarrow> bool" where
  "retry_due b now m \<longleftrightarrow> sm_Status m \<in> set retryable_statuses \<and>
     (case sm_NextRetryAt m of None \<Rightarrow> True | Some t \<Rightarrow> time_due b now t)"

definition expiry_due :: "backend \<Rightarrow> int \<Rightarrow> smsg \<Rightarrow> bool" where
  "expiry_due b now m \<longleftrightarrow> sm_Status m \<in> set waiting_statuses \<and>
     (case sm_ExpiryAt m of None \<Rightarrow> False | Some t \<Rightarrow> time_due b now t)"

text \<open>\<open>ORDER BY next_retry_at ASC\<close> with the NULLs first; rows that tie stay in insertion order.\<close>

definition ListRetryableMessages :: "int \<Rightarrow> db \<Rightarrow> smsg list option \<times> db" where
  "ListRetryableMessages now = db_call (\<lambda>d.
     (take 100 (sort_key sm_NextRetryAt (filter (retry_due (db_backend d) now) (db_messages d))), d))"

definition ListExpiredMessages :: "int \<Rightarrow> db \<Rightarrow> smsg list option \<times> db" where
  "ListExpiredMessages now = db_call (\<lambda>d.
     (take 100 (filter (expiry_due (db_backend d) now) (db_messages d)), d))"

definition GetMessage :: "string \<Rightarrow> db \<Rightarrow> smsg option option \<times> db" where
  "GetMessage mid = db_call (\<lambda>d. (find (\<lambda>m. sm_ID m = mid) (db_messages d), d))"

text \<open>\<open>delivery_reports.message_id\<close> refers to the message: while there is a report of it, it stays.\<close>

definition DeleteMessage :: "string \<Rightarrow> db \<Rightarrow> unit option \<times> db" where
  "DeleteMessage mid = db_try (\<lambda>d.
     if mid \<in> set (map sm_ID (db_messages d)) \<and> mid \<in> set (map dr_MessageID (db_reports d)) then None
     else Some (d\<lparr>db_messages := filter (\<lambda>m. sm_ID m \<noteq> mid) (db_messages d)\<rparr>))"

definition CountMessagesByStatus :: "db \<Rightarrow> (string \<times> nat) list option \<times> db" where
  "CountMessagesByStatus = db_call (\<lambda>d.
     (map (\<lambda>s. (s, length (filter (\<lambda>m. sm_Status m = s) (db_messages d))))
        (remdups (map sm_Status (db_messages d))), d))"

section \<open>Filtered views\<close>

text \<open>
  SQL \<open>LIKE\<close>: \<open>%\<close> is any text, \<open>_\<close> any character, letters match in either case. The filters
  enclose the value in \<open>%\<close>, so a plain value matches wherever it occurs.
\<close>

fun like_match :: "string \<Rightarrow> string \<Rightarrow> bool" where
  "like_match [] s = (s = [])"
| "like_match (c # cs) [] = (c = CHR ''%'' \<and> like_match cs [])"
| "like_match (c # cs) (x # xs) =
     (if c = CHR ''%'' then like_match cs (x # xs) \<or> like_match (c # cs) xs
      else (c = CHR ''_'' \<or> lower_char c = lower_char x) \<and> like_match cs xs)"

definition like_contains :: "string \<Rightarrow> string \<Rightarrow> bool" where
  "like_contains v s = like_match (''%'' @ v @ ''%'') s"

record message_filter =
  mf_Statuses :: "string list"
  mf_SrcMSISDN :: string
  mf_DstMSISDN :: string
  mf_OriginPeer :: string
  mf_AlertCorrelationID :: string
  mf_DeferredInterface :: string
  mf_Limit :: int

definition filter_matches :: "message_filter \<Rightarrow> smsg \<Rightarrow> bool" where
  "filter_matches f m \<longleftrightarrow>
     (let sts = filter (\<lambda>s. s \<noteq> []) (mf_Statuses f) in sts \<noteq> [] \<longrightarrow> sm_Status m \<in> set sts) \<and>
     (mf_SrcMSISDN f \<noteq> [] \<longrightarrow> like_contains (mf_SrcMSISDN f) (sm_SrcMSISDN m)) \<and>
     (mf_DstMSISDN f \<noteq> [] \<longrightarrow> like_contains (mf_DstMSISDN f) (sm_DstMSISDN m)) \<and>
     (mf_OriginPeer f \<noteq> [] \<longrightarrow> like_contains (mf_OriginPeer f) (sm_OriginPeer m)) \<and>
     (mf_AlertCorrelationID f \<noteq> [] \<longrightarrow> sm_AlertCorrelationID m = mf_AlertCorrelationID f) \<and>
     (mf_DeferredInterface f \<noteq> [] \<longrightarrow> sm_DeferredInterface m = mf_DeferredInterface f)"

definition list_limit :: "int \<Rightarrow> nat" where
  "list_limit n = (if n \<le> 0 then 100 else nat n)"

text \<open>Ascending in the retry or submission time, the later submission first among equals.\<close>

definition filtered_order :: "smsg list \<Rightarrow> smsg list" where
  "filtered_order ms =
     sort_key (\<lambda>m. case sm_NextRetryAt m of Some t \<Rightarrow> t | None \<Rightarrow> sm_SubmittedAt m)
       (sort_key (\<lambda>m. - sm_SubmittedAt m) ms)"

definition ListFilteredMessages :: "message_filter \<Rightarrow> db \<Rightarrow> smsg list option \<times> db" where
  "ListFilteredMessages f = db_call (\<lambda>d.
     (take (list_limit (mf_Limit f)) (filtered_order (filter (filter_matches f) (db_messages d))), d))"

definition ListMessages :: "int \<Rightarrow> db \<Rightarrow> smsg list option \<times> db" where
  "ListMessages limit = db_call (\<lambda>d.
     (take (list_limit limit) (sort_key (\<lambda>m. - sm_SubmittedAt m) (db_messages d)), d))"

section \<open>Reports and the other tables\<close>

definition report_statuses :: "string list" where
  "report_statuses = [''DELIVRD'', ''FAILED'', ''EXPIRED'', ''UNDELIV'']"

text \<open>A new key, a message that is stored, and a status the schema knows.\<close>

definition SaveDeliveryReport :: "delivery_report \<Rightarrow> db \<Rightarrow> unit option \<times> db" where
  "SaveDeliveryReport r = db_try (\<lambda>d.
     if dr_ID r \<in> set (map dr_ID (db_reports d)) \<or> dr_MessageID r \<notin> set (map sm_ID (db_messages d)) \<or>
        dr_Status r \<notin> set report_statuses then None
     else Some (d\<lparr>db_reports := db_reports d @ [r\<lparr>dr_ReportedAt := db_time (db_backend d) (dr_ReportedAt r)\<rparr>]\<rparr>))"

definition GetSFPolicy :: "string \<Rightarrow> db \<Rightarrow> sf_policy option option \<times> db" where
  "GetSFPolicy mid = db_call (\<lambda>d. (find (\<lambda>p. pol_ID p = mid) (db_policies d), d))"

definition GetSIPPeer :: "string \<Rightarrow> db \<Rightarrow> sip_peer option option \<times> db" where
  "GetSIPPeer name = db_call (\<lambda>d. (find (\<lambda>p. sp_Name p = name) (db_sip_peers d), d))"

definition GetSubscriber :: "string \<Rightarrow> db \<Rightarrow> subscriber option option \<times> db" where
  "GetSubscriber msisdn = db_call (\<lambda>d. (find (\<lambda>s. sub_MSISDN s = msisdn) (db_subscribers d), d))"

text \<open>Replace the row with the key, or append one: \<open>INSERT ... ON CONFLICT DO UPDATE\<close>.\<close>

fun upsert_row :: "('a \<Rightarrow> 'k) \<Rightarrow> 'a \<Rightarrow> 'a list \<Rightarrow> 'a list" where
  "upsert_row key x [] = [x]"
| "upsert_row key x (y # ys) = (if key y = key x then x # ys else y # upsert_row key x ys)"

text \<open>
  \<open>updated_at\<close> is what reading the row gives. SQLite writes it with \<open>datetime('now')\<close>, a text
  \<open>time.Parse(time.RFC3339, _)\<close> rejects, and the error is dropped: the zero time.
\<close>

definition UpsertSubscriber :: "int \<Rightarrow> subscriber \<Rightarrow> db \<Rightarrow> unit option \<times> db" where
  "UpsertSubscriber now s = db_call (\<lambda>d.
     let s' = s\<lparr>sub_UpdatedAt :=
           (case db_backend d of SQLite \<Rightarrow> None | Postgres \<Rightarrow> Some (db_time Postgres now))\<rparr>
     in ((), d\<lparr>db_subscribers := upsert_row sub_MSISDN s' (db_subscribers d)\<rparr>))"

text \<open>The table of PostgreSQL has no column for the IMSI.\<close>

definition UpsertIMSRegistration :: "ims_registration \<Rightarrow> db \<Rightarrow> unit option \<times> db" where
  "UpsertIMSRegistration r = db_call (\<lambda>d.
     ((), d\<lparr>db_registrations := upsert_row ir_MSISDN
            (r\<lparr>ir_Expiry := db_time (db_backend d) (ir_Expiry r),
               ir_IMSI := (case db_backend d of SQLite \<Rightarrow> ir_IMSI r | Postgres \<Rightarrow> [])\<rparr>) (db_registrations d)\<rparr>))"

definition DeleteIMSRegistration :: "string \<Rightarrow> db \<Rightarrow> unit option \<times> db" where
  "DeleteIMSRegistration msisdn = db_call (\<lambda>d.
     ((), d\<lparr>db_registrations := filter (\<lambda>r. ir_MSISDN r \<noteq> msisdn) (db_registrations d)\<rparr>))"

definition ListIMSRegistrations :: "db \<Rightarrow> ims_registration list option \<times> db" where
  "ListIMSRegistrations = db_call (\<lambda>d. (db_registrations d, d))"

text \<open>Only enabled rules, in the order of their priority; every mapping, in the order of its key.\<close>

definition ListRoutingRules :: "db \<Rightarrow> routing_rule list option \<times> db" where
  "ListRoutingRules = db_call (\<lambda>d. (sort_key rr_Priority (filter rr_Enabled (db_rules d)), d))"

definition ListSGDMMEMappings :: "db \<Rightarrow> sgd_mme_mapping list option \<times> db" where
  "ListSGDMMEMappings = db_call (\<lambda>d.
     (sort_key (\<lambda>m. map (of_char :: char \<Rightarrow> nat) (mm_S6CResult m)) (db_mappings d), d))"

text \<open>
  At start-up a message the last run left in flight is queued again, due now. Its result is
  ignored by the code. SQLite writes the time with \<open>datetime('now')\<close>, unlike every other
  statement: such a text is due for any later scan, as a missing time is, and that is how the
  row is kept here.
\<close>

definition recover_dispatched :: "int \<Rightarrow> db \<Rightarrow> db" where
  "recover_dispatched now d = d\<lparr>db_messages := map (\<lambda>m.
     if sm_Status m = MessageStatusDispatched
     then m\<lparr>sm_Status := MessageStatusQueued, sm_NextRetryAt :=
            (case db_backend d of Postgres \<Rightarrow> Some (db_time Postgres now) | SQLite \<Rightarrow> None)\<rparr> else m)
     (db_messages d)\<rparr>"

section \<open>The interface the forwarder relies on\<close>

text \<open>Rows found by key: what a lookup returns after an update that leaves the keys alone.\<close>

locale row_store =
  fixes key :: "'v \<Rightarrow> 'k" and lookup :: "'k \<Rightarrow> 's \<Rightarrow> 'v option"
    and update :: "'k \<Rightarrow> ('v \<Rightarrow> 'v) \<Rightarrow> 's \<Rightarrow> 's"
  assumes lookup_key: "lookup k s = Some v \<Longrightarrow> key v = k"
    and lookup_update: "(\<And>v. key (g v) = key v) \<Longrightarrow>
      lookup k' (update k g s) = (if k' = k then map_option g (lookup k s) else lookup k' s)"
begin

lemma lookup_update_same: "(\<And>v. key (g v) = key v) \<Longrightarrow> lookup k (update k g s) = map_option g (lookup k s)"
  by (simp add: lookup_update)

lemma lookup_update_other: "(\<And>v. key (g v) = key v) \<Longrightarrow> k' \<noteq> k \<Longrightarrow> lookup k' (update k g s) = lookup k' s"
  by (simp add: lookup_update)

text \<open>Updates under different keys commute as far as any lookup can tell.\<close>

lemma update_commute:
  "(\<And>v. key (g v) = key v) \<Longrightarrow> (\<And>v. key (h v) = key v) \<Longrightarrow> k \<noteq> k' \<Longrightarrow>
     lookup j (update k g (update k' h s)) = lookup j (update k' h (update k g s))"
  by (simp add: lookup_update)

text \<open>A property every update keeps of the row is kept by any sequence of updates.\<close>

lemma lookup_updates:
  assumes "\<And>k g. (k, g) \<in> set us \<Longrightarrow> (\<forall>v. key (g v) = key v \<and> (P v \<longrightarrow> P (g v)))"
    and "lookup j s = Some v" and "P v"
  shows "\<exists>v'. lookup j (foldl (\<lambda>s (k, g). update k g s) s us) = Some v' \<and> P v'"
  using assms
proof (induction us arbitrary: s v)
  case (Cons u us)
  obtain k g where u: "u = (k, g)" by force
  have g: "\<forall>v. key (g v) = key v \<and> (P v \<longrightarrow> P (g v))" using Cons.prems(1) [of k g] u by simp
  then obtain w where "lookup j (update k g s) = Some w" "P w"
  proof (cases "j = k")
    case True
    then show thesis using that [of "g v"] g Cons.prems(2,3) lookup_update_same [of g k s] by simp
  next
    case False
    then show thesis using that [of v] g Cons.prems(2,3) lookup_update_other [of g j k s] by simp
  qed
  moreover have "\<forall>v. key (g v) = key v \<and> (P v \<longrightarrow> P (g v))" if "(k, g) \<in> set us" for k g
    by (rule Cons.prems(1) [of k g]) (use that in simp)
  ultimately show ?case using Cons.IH [of "update k g s" w] by (simp add: u)
qed simp

end

text \<open>
  Resources that can be claimed by key: a claim that succeeds takes the resource, a taken one
  stays taken through any claim, and a claim leaves the other keys alone. \<open>Some True\<close> is
  success, \<open>None\<close> a failed call. \<open>claim_seq\<close> makes the claims of a list of keys, in that order:
  the interleaving of all the claimants.
\<close>

fun claim_seq :: "('k \<Rightarrow> 's \<Rightarrow> bool option \<times> 's) \<Rightarrow> 'k list \<Rightarrow> 's \<Rightarrow> 'k list \<times> 's" where
  "claim_seq claim [] s = ([], s)"
| "claim_seq claim (k # ks) s =
     (let (r, s) = claim k s; (ws, s) = claim_seq claim ks s
      in (if r = Some True then k # ws else ws, s))"

locale claimable =
  fixes claim :: "'k \<Rightarrow> 's \<Rightarrow> bool option \<times> 's" and free :: "'k \<Rightarrow> 's \<Rightarrow> bool"
  assumes claim_takes: "claim k s = (Some True, s') \<Longrightarrow> free k s \<and> \<not> free k s'"
    and claim_keeps: "\<not> free k s \<Longrightarrow> claim k s = (r, s') \<Longrightarrow> \<not> free k s'"
    and claim_other: "j \<noteq> k \<Longrightarrow> claim k s = (r, s') \<Longrightarrow> free j s' = free j s"
begin

lemma claim_shrinks: "claim k s = (r, s') \<Longrightarrow> free j s' \<Longrightarrow> free j s"
  using claim_keeps claim_other by (cases "j = k") blast+

lemma winners_distinct:
  "claim_seq claim ks s = (ws, s') \<Longrightarrow> distinct ws \<and> (\<forall>k \<in> set ws. free k s)"
proof (induction ks arbitrary: s ws s')
  case (Cons k ks)
  obtain r s1 ws' where c: "claim k s = (r, s1)" "claim_seq claim ks s1 = (ws', s')"
    and ws: "ws = (if r = Some True then k # ws' else ws')"
    using Cons.prems by (auto simp: Let_def split: prod.splits)
  have IH: "distinct ws'" "\<forall>j \<in> set ws'. free j s1" using Cons.IH [OF c(2)] by auto
  then have "\<forall>j \<in> set ws'. free j s" using claim_shrinks [OF c(1)] by blast
  moreover have "r = Some True \<Longrightarrow> free k s \<and> k \<notin> set ws'" using claim_takes c(1) IH(2) by blast
  ultimately show ?case using IH ws by simp
qed simp

lemma winners_asked: "claim_seq claim ks s = (ws, s') \<Longrightarrow> set ws \<subseteq> set ks"
proof (induction ks arbitrary: s ws s')
  case (Cons k ks)
  obtain r s1 ws' where "claim k s = (r, s1)" "claim_seq claim ks s1 = (ws', s')"
    and "ws = (if r = Some True then k # ws' else ws')"
    using Cons.prems by (auto simp: Let_def split: prod.splits)
  then show ?case using Cons.IH [of s1 ws' s'] by auto
qed simp

lemma winners_complete:
  assumes live: "\<And>k s. up s \<Longrightarrow> free k s \<Longrightarrow> \<exists>s'. claim k s = (Some True, s')"
    and up: "\<And>k s r s'. up s \<Longrightarrow> claim k s = (r, s') \<Longrightarrow> up s'"
  shows "up s \<Longrightarrow> claim_seq claim ks s = (ws, s') \<Longrightarrow> k \<in> set ks \<Longrightarrow> free k s \<Longrightarrow> k \<in> set ws"
proof (induction ks arbitrary: s ws s')
  case (Cons j ks)
  obtain r s1 ws' where c: "claim j s = (r, s1)" "claim_seq claim ks s1 = (ws', s')"
    and ws: "ws = (if r = Some True then j # ws' else ws')"
    using Cons.prems(2) by (auto simp: Let_def split: prod.splits)
  show ?case
  proof (cases "j = k")
    case True
    then show ?thesis using live [OF Cons.prems(1,4)] c(1) ws by auto
  next
    case False
    then have "k \<in> set ws'"
      using Cons.IH [OF up [OF Cons.prems(1) c(1)] c(2)] Cons.prems(3,4) claim_other [of k j] c(1) by simp
    then show ?thesis using ws by simp
  qed
qed simp

end

section \<open>The interface holds\<close>

definition lookup_message :: "string \<Rightarrow> db \<Rightarrow> smsg option" where
  "lookup_message mid d = find (\<lambda>m. sm_ID m = mid) (db_messages d)"

lemma find_map_update:
  assumes "\<And>m. key (g m) = key m"
  shows "find (\<lambda>m. key m = j) (map (\<lambda>m. if key m = k then g m else m) xs) =
    (if j = k then map_option g (find (\<lambda>m. key m = k) xs) else find (\<lambda>m. key m = j) xs)"
  by (induction xs) (auto simp: assms)

interpretation msgs: row_store sm_ID lookup_message upd_message
proof unfold_locales
  fix k s v
  show "lookup_message k s = Some v \<Longrightarrow> sm_ID v = k"
    by (auto simp: lookup_message_def find_Some_iff)
next
  fix g :: "smsg \<Rightarrow> smsg" and j k s
  assume "\<And>v. sm_ID (g v) = sm_ID v"
  then show "lookup_message j (upd_message k g s) =
      (if j = k then map_option g (lookup_message k s) else lookup_message j s)"
    by (simp add: lookup_message_def upd_message_def find_map_update)
qed

text \<open>The message table is keyed by \<open>id\<close>, so an update of the other tables is not seen.\<close>

definition wf_db :: "db \<Rightarrow> bool" where
  "wf_db d \<longleftrightarrow> distinct (map sm_ID (db_messages d))"

lemma guarded_iff:
  assumes "wf_db d"
  shows "guarded mid allowed d \<longleftrightarrow> (\<exists>m. lookup_message mid d = Some m \<and> sm_Status m \<in> set allowed)"
proof
  assume "guarded mid allowed d"
  then obtain m where m: "m \<in> set (db_messages d)" "sm_ID m = mid" "sm_Status m \<in> set allowed"
    by (auto simp: guarded_def)
  then obtain m' where m': "lookup_message mid d = Some m'"
    by (metis (mono_tags, lifting) find_None_iff lookup_message_def not_None_eq)
  then have "m' \<in> set (db_messages d)" "sm_ID m' = mid"
    by (auto simp: lookup_message_def find_Some_iff)
  then have "m' = m" using m assms unfolding wf_db_def by (metis inj_on_eq_iff distinct_map)
  then show "\<exists>m. lookup_message mid d = Some m \<and> sm_Status m \<in> set allowed" using m m' by blast
next
  assume "\<exists>m. lookup_message mid d = Some m \<and> sm_Status m \<in> set allowed"
  then show "guarded mid allowed d" by (auto simp: guarded_def lookup_message_def find_Some_iff)
qed

lemma lookup_member:
  assumes "wf_db d" "m \<in> set (db_messages d)"
  shows "lookup_message (sm_ID m) d = Some m"
proof -
  obtain m' where m': "lookup_message (sm_ID m) d = Some m'"
    using assms(2) by (metis (mono_tags, lifting) find_None_iff lookup_message_def not_None_eq)
  then have "m' \<in> set (db_messages d)" "sm_ID m' = sm_ID m" by (auto simp: lookup_message_def find_Some_iff)
  then have "m' = m" using assms unfolding wf_db_def by (metis inj_on_eq_iff distinct_map)
  then show ?thesis using m' by simp
qed

lemma wf_db_upd [simp]: "(\<And>m. sm_ID (g m) = sm_ID m) \<Longrightarrow> wf_db (upd_message mid g d) = wf_db d"
  by (simp add: wf_db_def upd_message_def comp_def if_distrib cong: if_cong)

lemma wf_db_faults [simp]: "wf_db (d\<lparr>db_faults := fs\<rparr>) = wf_db d"
  by (simp add: wf_db_def)

lemma lookup_message_faults [simp]: "lookup_message mid (d\<lparr>db_faults := fs\<rparr>) = lookup_message mid d"
  by (simp add: lookup_message_def)

text \<open>A call either fails and changes only the schedule, or runs on the tables as they are.\<close>

lemma db_call_cases:
  obtains (fail) fs where "db_call f d = (None, d\<lparr>db_faults := fs\<rparr>)"
  | (ok) fs where "db_call f d = map_prod Some id (f (d\<lparr>db_faults := fs\<rparr>))"
proof (cases "db_faults d")
  case Nil
  then have e: "d\<lparr>db_faults := []\<rparr> = d" by (cases d) simp
  show thesis using ok [of "[]"] unfolding e by (simp add: db_call.simps Nil)
next
  case (Cons flt fs)
  then show thesis using fail [of fs] ok [of fs] by (cases flt) (simp_all add: db_call.simps)
qed

lemma db_call_no_fault: "db_faults d = [] \<Longrightarrow> db_call f d = map_prod Some id (f d)"
  by (simp add: db_call.simps)

text \<open>The claim of the retry scheduler and of any other dispatcher is such a claim.\<close>

lemma guarded_after_claim:
  assumes "MessageStatusDispatched \<notin> set allowed"
  shows "\<not> guarded mid allowed (upd_message mid
    (\<lambda>m. if sm_Status m \<in> set allowed then m\<lparr>sm_Status := MessageStatusDispatched\<rparr> else m) d)"
proof
  assume "guarded mid allowed (upd_message mid
    (\<lambda>m. if sm_Status m \<in> set allowed then m\<lparr>sm_Status := MessageStatusDispatched\<rparr> else m) d)"
  then obtain m' where "m' \<in> (\<lambda>m. if sm_ID m = mid then if sm_Status m \<in> set allowed
      then m\<lparr>sm_Status := MessageStatusDispatched\<rparr> else m else m) ` set (db_messages d)"
    and m': "sm_ID m' = mid" "sm_Status m' \<in> set allowed"
    unfolding guarded_def db_messages_upd set_map by blast
  then obtain m where "m' = (if sm_ID m = mid then if sm_Status m \<in> set allowed
      then m\<lparr>sm_Status := MessageStatusDispatched\<rparr> else m else m)"
    by (elim imageE)
  then show False using assms m' by (simp split: if_split_asm)
qed

lemma ClaimMessageForDispatch_cases:
  assumes "allowed \<noteq> []"
  obtains (fail) fs where "ClaimMessageForDispatch mid allowed d = (None, d\<lparr>db_faults := fs\<rparr>)"
  | (ok) fs where "ClaimMessageForDispatch mid allowed d =
      (Some (guarded mid allowed d), upd_message mid
         (\<lambda>m. if sm_Status m \<in> set allowed then m\<lparr>sm_Status := MessageStatusDispatched\<rparr> else m)
         (d\<lparr>db_faults := fs\<rparr>))"
proof -
  let ?f = "upd_guarded mid allowed (\<lambda>m. m\<lparr>sm_Status := MessageStatusDispatched\<rparr>)"
  have "guarded mid allowed (d\<lparr>db_faults := fs\<rparr>) = guarded mid allowed d" for fs by (simp add: guarded_def)
  then show thesis using assms fail ok
    by (cases rule: db_call_cases [of ?f d]) (auto simp: ClaimMessageForDispatch_def upd_guarded_def)
qed

lemma guarded_other:
  assumes "\<And>m. sm_ID (g m) = sm_ID m" and "j \<noteq> mid"
  shows "guarded j allowed (upd_message mid g d) = guarded j allowed d"
  using assms unfolding guarded_def db_messages_upd set_map bex_simps by (intro bex_cong) auto

lemma guarded_faults [simp]: "guarded mid allowed (d\<lparr>db_faults := fs\<rparr>) = guarded mid allowed d"
  by (simp add: guarded_def)

definition claim_retryable :: "string \<Rightarrow> db \<Rightarrow> bool option \<times> db" where
  "claim_retryable mid = ClaimMessageForDispatch mid retryable_statuses"

lemma retryable_facts: "retryable_statuses \<noteq> []" "MessageStatusDispatched \<notin> set retryable_statuses"
  by (simp_all add: retryable_statuses_def)

interpretation dispatch_claim: claimable claim_retryable "\<lambda>mid. guarded mid retryable_statuses"
proof unfold_locales
  fix mid j s s' r
  note cases = ClaimMessageForDispatch_cases [OF retryable_facts(1), of mid s]
  show "claim_retryable mid s = (Some True, s') \<Longrightarrow>
      guarded mid retryable_statuses s \<and> \<not> guarded mid retryable_statuses s'"
    using guarded_after_claim [OF retryable_facts(2)] unfolding claim_retryable_def by (cases rule: cases) auto
  show "\<not> guarded mid retryable_statuses s \<Longrightarrow> claim_retryable mid s = (r, s') \<Longrightarrow>
      \<not> guarded mid retryable_statuses s'"
    using guarded_after_claim [OF retryable_facts(2)] unfolding claim_retryable_def by (cases rule: cases) auto
  show "j \<noteq> mid \<Longrightarrow> claim_retryable mid s = (r, s') \<Longrightarrow>
      guarded j retryable_statuses s' = guarded j retryable_statuses s"
    using guarded_other [of _ j mid] unfolding claim_retryable_def by (cases rule: cases) (auto split: if_split)
qed

section \<open>Properties\<close>

lemma claim_retryable_live:
  assumes "db_faults d = []" and "guarded mid retryable_statuses d"
  shows "\<exists>d'. claim_retryable mid d = (Some True, d')"
  using assms
  by (simp add: claim_retryable_def ClaimMessageForDispatch_def retryable_facts db_call_no_fault upd_guarded_def)

lemma claim_retryable_faults: "db_faults d = [] \<Longrightarrow> claim_retryable mid d = (r, d') \<Longrightarrow> db_faults d' = []"
  by (auto simp: claim_retryable_def ClaimMessageForDispatch_def retryable_facts db_call_no_fault
      upd_guarded_def upd_message_def)

text \<open>
  C10: Dispatch is claimed at most once. However the claims of any number of schedulers and alert
  handlers interleave, and whichever statements fail, every message is won at most once, and
  only when it was queued or waiting; when no statement fails, each such message somebody asks
  for is won.
\<close>

theorem claims_exclusive:
  assumes "claim_seq claim_retryable mids d = (won, d')"
  shows "distinct won \<and> (\<forall>mid \<in> set won. guarded mid retryable_statuses d) \<and>
    (db_faults d = [] \<longrightarrow> set won = {mid \<in> set mids. guarded mid retryable_statuses d})"
proof -
  note w = dispatch_claim.winners_distinct [OF assms]
  have "set won \<subseteq> set mids"
    by (rule dispatch_claim.winners_asked [OF assms])
  moreover have "mid \<in> set won" if "db_faults d = []" "mid \<in> set mids" "guarded mid retryable_statuses d" for mid
    by (rule dispatch_claim.winners_complete [where up = "\<lambda>d. db_faults d = []",
          OF _ _ that(1) assms that(2,3)]) (blast intro: claim_retryable_live claim_retryable_faults)+
  ultimately show ?thesis using w by blast
qed

definition example_message :: "string \<Rightarrow> string \<Rightarrow> int option \<Rightarrow> smsg" where
  "example_message mid status due =
     \<lparr>sm_ID = mid, sm_TPMR = None, sm_SMPPMsgID = [], sm_OriginIface = ''smpp'', sm_OriginPeer = ''esme'',
      sm_EgressIface = [], sm_EgressPeer = [], sm_RouteCursor = 0, sm_SrcMSISDN = ''100'', sm_DstMSISDN = ''200'',
      sm_AlertCorrelationID = [], sm_DeferredReason = [], sm_DeferredInterface = [],
      sm_ServingNodeAtDeferral = [], sm_Payload = [], sm_UDH = [], sm_Encoding = 0, sm_DCS = 0,
      sm_Status = status, sm_RetryCount = 0, sm_NextRetryAt = due, sm_DRRequired = False, sm_SubmittedAt = 0,
      sm_ExpiryAt = None, sm_DeliveredAt = None\<rparr>"

definition example_db :: "backend \<Rightarrow> smsg list \<Rightarrow> db" where
  "example_db b ms = \<lparr>db_backend = b, db_accepts = (\<lambda>_. True), db_messages = ms, db_reports = [], db_policies = [],
     db_subscribers = [], db_registrations = [], db_sip_peers = [], db_rules = [], db_mappings = [],
     db_faults = []\<rparr>"

lemma example_db_fields [simp]:
  "db_faults (example_db b ms) = []" "db_messages (example_db b ms) = ms" "db_backend (example_db b ms) = b"
  "db_accepts (example_db b ms) j"
  by (simp_all add: example_db_def)

theorem claims_exclusive_witness:
  "fst (claim_seq claim_retryable [''a'', ''b'', ''a'']
     (example_db SQLite [example_message ''a'' ''QUEUED'' None, example_message ''b'' ''FAILED'' None])) = [''a'']"
proof -
  let ?d = "example_db SQLite [example_message ''a'' ''QUEUED'' None, example_message ''b'' ''FAILED'' None]"
  obtain won d' where e: "claim_seq claim_retryable [''a'', ''b'', ''a''] ?d = (won, d')" by force
  have g: "guarded ''a'' retryable_statuses ?d" "\<not> guarded ''b'' retryable_statuses ?d"
    by (simp_all add: guarded_def example_message_def retryable_statuses_def)
  have d: "distinct won" and "set won = {mid \<in> set [''a'', ''b'', ''a'']. guarded mid retryable_statuses ?d}"
    using claims_exclusive [OF e] by (simp_all only: example_db_fields simp_thms)
  then have "set won = {''a''}" using g by fastforce
  then have "won = [''a'']" by (rule distinct_set_singleton [OF d])
  then show ?thesis using e by simp
qed

text \<open>
  An alert requeues a message only while it waits: on a table without a second row of the
  same key the flag says exactly whether the row was in an allowed status, such a row becomes a
  waiting one, due at the given instant, and every other row, a dispatched or delivered one
  included, stays as it is.
\<close>

theorem requeue_guarded:
  assumes "wf_db d" "db_faults d = []" "allowed \<noteq> []"
    and "RequeueMessageForAlert mid due cursor reason allowed d = (r, d')"
  shows "r = Some (\<exists>m. lookup_message mid d = Some m \<and> sm_Status m \<in> set allowed) \<and>
    (\<forall>j. lookup_message j d' = (if j = mid then map_option (\<lambda>m.
        if sm_Status m \<in> set allowed
        then m\<lparr>sm_Status := MessageStatusWaitTimer, sm_NextRetryAt := Some (db_time (db_backend d) due),
             sm_RouteCursor := cursor,
             sm_DeferredReason := (if reason \<noteq> [] then reason else sm_DeferredReason m)\<rparr>
        else m) (lookup_message mid d) else lookup_message j d)) \<and> wf_db d'"
proof -
  let ?g = "\<lambda>m. if sm_Status m \<in> set allowed
        then m\<lparr>sm_Status := MessageStatusWaitTimer, sm_NextRetryAt := Some (db_time (db_backend d) due),
             sm_RouteCursor := cursor,
             sm_DeferredReason := (if reason \<noteq> [] then reason else sm_DeferredReason m)\<rparr>
        else m"
  have keeps: "\<And>m. sm_ID (?g m) = sm_ID m" by simp
  have "r = Some (guarded mid allowed d)" "d' = upd_message mid ?g d"
    using assms(2-4) by (simp_all add: RequeueMessageForAlert_def db_call_no_fault upd_guarded_def)
  then show ?thesis
    using guarded_iff [OF assms(1)] msgs.lookup_update [of ?g, OF keeps] wf_db_upd [of ?g, OF keeps] assms(1)
    by blast
qed

theorem requeue_guarded_witness:
  "fst (RequeueMessageForAlert ''a'' 5 0 [] waiting_statuses
      (example_db SQLite [example_message ''a'' ''WAIT_EVENT'' None])) = Some True"
proof -
  let ?d = "example_db SQLite [example_message ''a'' ''WAIT_EVENT'' None]"
  have "wf_db ?d" "waiting_statuses \<noteq> []" "db_faults ?d = []"
    by (simp_all add: wf_db_def waiting_statuses_def)
  from requeue_guarded [OF this(1,3,2) surjective_pairing, of "''a''" 5 0 "[]"] show ?thesis
    by (simp add: lookup_message_def example_message_def waiting_statuses_def)
qed

lemma sorted_key_split:
  assumes "sort_key k xs = ys @ zs" and "m \<in> set ys" and "x \<in> set zs"
  shows "k m \<le> k x"
proof -
  have "sorted (map k ys @ map k zs)" using sorted_sort_key [of k xs] assms(1) by simp
  then show ?thesis using assms(2,3) by (auto simp: sorted_append)
qed

text \<open>
  On Postgres the retry scan is complete, bounded and fair: it returns, earliest retry time
  first, up to a hundred of the messages that are queued or waiting for their timer and whose
  retry time is unset or past; rows are left out only when the hundred are full, and never one
  that is due before a listed one.
\<close>

theorem retryable_listing:
  assumes "db_backend d = Postgres" "db_faults d = []"
  shows "\<exists>ms rest. ListRetryableMessages now d = (Some ms, d) \<and> sorted (map sm_NextRetryAt ms) \<and>
    length ms \<le> 100 \<and> (rest \<noteq> [] \<longrightarrow> length ms = 100) \<and>
    mset (ms @ rest) = mset (filter (\<lambda>m.
      sm_Status m \<in> {MessageStatusQueued, MessageStatusWaitTimer, MessageStatusWaitTimerEvent} \<and>
      (\<forall>t. sm_NextRetryAt m = Some t \<longrightarrow> t \<le> now)) (db_messages d)) \<and>
    (\<forall>m \<in> set ms. \<forall>x \<in> set rest. sm_NextRetryAt m \<le> sm_NextRetryAt x)"
proof -
  let ?due = "\<lambda>m. sm_Status m \<in> {MessageStatusQueued, MessageStatusWaitTimer, MessageStatusWaitTimerEvent} \<and>
      (\<forall>t. sm_NextRetryAt m = Some t \<longrightarrow> t \<le> now)"
  let ?all = "sort_key sm_NextRetryAt (filter ?due (db_messages d))"
  have due: "retry_due Postgres now = ?due"
    by (rule ext) (auto simp: retry_due_def retryable_statuses_def split: option.splits)
  have "ListRetryableMessages now d = (Some (take 100 ?all), d)"
    using assms by (simp add: ListRetryableMessages_def db_call_no_fault due)
  moreover have "sorted (map sm_NextRetryAt (take 100 ?all))"
    unfolding take_map [symmetric] by (rule sorted_wrt_take [OF sorted_sort_key])
  moreover have "mset (take 100 ?all @ drop 100 ?all) = mset (filter ?due (db_messages d))"
    unfolding append_take_drop_id by (rule mset_sort)
  moreover have "\<forall>m \<in> set (take 100 ?all). \<forall>x \<in> set (drop 100 ?all). sm_NextRetryAt m \<le> sm_NextRetryAt x"
    by (intro ballI) (rule sorted_key_split [OF append_take_drop_id [symmetric]])
  moreover have "drop 100 ?all \<noteq> [] \<longrightarrow> length (take 100 ?all) = 100" by auto
  moreover have "length (take 100 ?all) \<le> 100" by simp
  ultimately show ?thesis
    by (intro exI [of _ "take 100 ?all"] exI [of _ "drop 100 ?all"] conjI)
qed

theorem retryable_listing_witness:
  "\<exists>ms. fst (ListRetryableMessages 5 (example_db Postgres [example_message ''a'' ''WAIT_TIMER'' (Some 3)])) = Some ms
    \<and> mset ms = {#example_message ''a'' ''WAIT_TIMER'' (Some 3)#}"
proof -
  let ?d = "example_db Postgres [example_message ''a'' ''WAIT_TIMER'' (Some 3)]"
  obtain ms rest where l: "ListRetryableMessages 5 ?d = (Some ms, ?d)" "rest \<noteq> [] \<longrightarrow> length ms = 100"
    and m: "mset (ms @ rest) = {#example_message ''a'' ''WAIT_TIMER'' (Some 3)#}"
    using retryable_listing [of ?d 5] by (auto simp: example_message_def)
  have "length ms + length rest = 1" using m by (metis length_append size_mset size_single)
  then have "rest = []" using l(2) by auto
  then show ?thesis using l m by simp
qed

lemma str_less_T_space: "\<not> str_less (p @ '' '' @ u) (p @ ''T'' @ v) \<longleftrightarrow> False"
  by (simp add: str_less_append)

text \<open>
  On SQLite the retry and expiry scans compare an RFC 3339 text with \<open>datetime('now')\<close>; the
  two differ at the eleventh character, where \<open>T\<close> is above the blank. So nothing is due on the
  UTC day of its own due time: no message listed for a retry, or as expired, has its time on the
  current day, however long past.
\<close>

theorem sqlite_not_due_today:
  assumes "db_backend d = SQLite" and "t div Second div 86400 = now div Second div 86400"
  shows "(sm_NextRetryAt m = Some t \<longrightarrow> (\<forall>ms d'. ListRetryableMessages now d = (Some ms, d') \<longrightarrow> m \<notin> set ms)) \<and>
    (sm_ExpiryAt m = Some t \<longrightarrow> (\<forall>ms d'. ListExpiredMessages now d = (Some ms, d') \<longrightarrow> m \<notin> set ms))"
proof -
  have n: "\<not> time_due SQLite now t"
    using assms(2) str_less_T_space [of "date_text (now div Second div 86400)"]
    unfolding time_due.simps sqlite_now_def rfc3339_def Let_def by simp
  have "retry_due SQLite now m" if "ListRetryableMessages now d = (Some ms, d')" "m \<in> set ms" for ms d'
    using that assms(1) unfolding ListRetryableMessages_def
    by (cases rule: db_call_cases [of "\<lambda>d. (take 100 (sort_key sm_NextRetryAt
          (filter (retry_due (db_backend d) now) (db_messages d))), d)" d]) (auto dest!: in_set_takeD)
  moreover have "expiry_due SQLite now m" if "ListExpiredMessages now d = (Some ms, d')" "m \<in> set ms" for ms d'
    using that assms(1) unfolding ListExpiredMessages_def
    by (cases rule: db_call_cases [of "\<lambda>d. (take 100
          (filter (expiry_due (db_backend d) now) (db_messages d)), d)" d]) (auto dest!: in_set_takeD)
  ultimately show ?thesis using n by (auto simp: retry_due_def expiry_due_def)
qed

text \<open>Due at one second past midnight, and still not listed a minute to midnight.\<close>

theorem sqlite_not_due_today_witness:
  "fst (ListRetryableMessages (86340 * Second)
     (example_db SQLite [example_message ''a'' ''WAIT_TIMER'' (Some Second)])) = Some []"
proof -
  let ?m = "example_message ''a'' ''WAIT_TIMER'' (Some Second)" and ?d = "\<lambda>m. example_db SQLite [m]"
  obtain ms where l: "ListRetryableMessages (86340 * Second) (?d ?m) = (Some ms, ?d ?m)" and "set ms \<subseteq> {?m}"
    by (simp add: ListRetryableMessages_def db_call_no_fault)
  moreover have "?m \<notin> set ms"
    using sqlite_not_due_today [of "?d ?m" Second "86340 * Second" ?m] l by (simp add: example_message_def)
  ultimately have "ms = []" by (cases ms) auto
  then show ?thesis using l by simp
qed

text \<open>A cap is a minimum of what the row has and the new time.\<close>

definition cap_expiry :: "int option \<Rightarrow> int \<Rightarrow> int option" where
  "cap_expiry e t = (case e of None \<Rightarrow> Some t | Some x \<Rightarrow> if t < x then Some t else Some x)"

lemma cap_expiry_min: "cap_expiry e t = Some (Min (insert t (set_option e)))"
  by (cases e) (auto simp: cap_expiry_def)

lemma UpdateMessageExpiryCap_ok:
  "db_faults d = [] \<Longrightarrow> UpdateMessageExpiryCap mid t d =
     (Some (), upd_message mid (\<lambda>m. m\<lparr>sm_ExpiryAt := cap_expiry (sm_ExpiryAt m) (db_time (db_backend d) t)\<rparr>) d)"
  by (simp add: UpdateMessageExpiryCap_def db_call_no_fault Let_def cap_expiry_def)

lemma upd_message_fields [simp]:
  "db_backend (upd_message mid g d) = db_backend d" "db_faults (upd_message mid g d) = db_faults d"
  "db_reports (upd_message mid g d) = db_reports d" "db_policies (upd_message mid g d) = db_policies d"
  "db_subscribers (upd_message mid g d) = db_subscribers d" "db_registrations (upd_message mid g d) = db_registrations d"
  "db_sip_peers (upd_message mid g d) = db_sip_peers d" "db_rules (upd_message mid g d) = db_rules d"
  "db_mappings (upd_message mid g d) = db_mappings d"
  by (simp_all add: upd_message_def)

definition apply_caps :: "string \<Rightarrow> int list \<Rightarrow> db \<Rightarrow> db" where
  "apply_caps mid caps d = foldl (\<lambda>d t. snd (UpdateMessageExpiryCap mid t d)) d caps"

definition earliest :: "int set \<Rightarrow> int option" where
  "earliest S = (if S = {} then None else Some (Min S))"

lemma earliest_dominated:
  assumes "finite S" "x \<in> S" "x \<le> y"
  shows "earliest (insert y S) = earliest S"
proof -
  have "Min S \<le> y" using Min_le [OF assms(1,2)] assms(3) by simp
  then have "Min (insert y S) = Min S" using assms(1,2) by (subst Min_insert) auto
  then show ?thesis using assms(2) by (auto simp: earliest_def)
qed

lemma earliest_cap:
  assumes "finite S"
  shows "earliest (set_option (cap_expiry e t) \<union> S) = earliest (set_option e \<union> insert t S)"
proof (cases e)
  case (Some x)
  show ?thesis
    using earliest_dominated [of "insert t S" t x] earliest_dominated [of "insert x S" x t] assms
    by (simp add: cap_expiry_def Some insert_commute)
qed (simp add: cap_expiry_def)

text \<open>
  The expiry cap only ever lowers an expiry: after any sequence of caps, in any order, the
  message expires at the earliest of its own expiry and the caps, the rest of its row and every
  other row as they were.
\<close>

theorem expiry_caps_earliest:
  assumes "db_faults d = []"
  shows "lookup_message j (apply_caps mid caps d) = (if j = mid then map_option
      (\<lambda>m. m\<lparr>sm_ExpiryAt := earliest (set_option (sm_ExpiryAt m) \<union> db_time (db_backend d) ` set caps)\<rparr>)
      (lookup_message mid d) else lookup_message j d)"
  using assms
proof (induction caps arbitrary: d)
  case Nil
  have "(\<lambda>m. m\<lparr>sm_ExpiryAt := earliest (set_option (sm_ExpiryAt m))\<rparr>) = (\<lambda>m :: smsg. m)"
  proof
    show "m\<lparr>sm_ExpiryAt := earliest (set_option (sm_ExpiryAt m))\<rparr> = m" for m :: smsg
      by (cases m) (auto simp: earliest_def split: option.splits)
  qed
  then show ?case by (simp add: apply_caps_def option.map_ident)
next
  case (Cons t caps)
  let ?t = "db_time (db_backend d) t"
  let ?g = "\<lambda>m. m\<lparr>sm_ExpiryAt := cap_expiry (sm_ExpiryAt m) ?t\<rparr>"
  have "apply_caps mid (t # caps) d = apply_caps mid caps (upd_message mid ?g d)"
    by (simp add: apply_caps_def UpdateMessageExpiryCap_ok Cons.prems)
  then show ?case
    using Cons.IH [of "upd_message mid ?g d"] Cons.prems msgs.lookup_update [of ?g j mid d] msgs.lookup_update [of ?g mid mid d]
    by (simp add: earliest_cap option.map_comp comp_def)
qed

theorem expiry_caps_earliest_witness:
  "lookup_message ''a'' (apply_caps ''a'' [9000, 4000, 7000]
     (example_db Postgres [example_message ''a'' ''QUEUED'' None]))
   = Some ((example_message ''a'' ''QUEUED'' None)\<lparr>sm_ExpiryAt := Some 4000\<rparr>)"
  using expiry_caps_earliest [of "example_db Postgres [example_message ''a'' ''QUEUED'' None]"
      "''a''" "''a''" "[9000, 4000, 7000]"]
  by (simp add: lookup_message_def example_message_def earliest_def)

end
