(* ===== verification/Routing.thy ===== *)
theory Routing
  imports MsgStore
begin

text \<open>
  The routing decisions of \<open>internal/routing\<close>, the canonical numbers of \<open>internal/numbering\<close>
  and the host translation of \<open>internal/sgdmap\<close>. The rule and mapping tables are read from the
  store at start and on every change event and then looked up in memory.
\<close>

section \<open>Canonical numbers\<close>

abbreviation TONUnknown :: byte where "TONUnknown \<equiv> 0"
abbreviation TONInternational :: byte where "TONInternational \<equiv> 1"
abbreviation TONNational :: byte where "TONNational \<equiv> 2"

definition NormalizeRecipientMSISDN :: "string \<Rightarrow> byte \<Rightarrow> string \<Rightarrow> int \<Rightarrow> string" where
  "NormalizeRecipientMSISDN digits ton defaultCountryCode localNationalLength =
     (let n = trim_plus (trim_space digits); cc = trim_plus (trim_space defaultCountryCode)
      in if ton = TONInternational then n
         else if ton = TONUnknown \<or> ton = TONNational then
           (if localNationalLength > 0 \<and> int (length n) = localNationalLength then cc @ n
            else if cc \<noteq> [] \<and> has_prefix cc n then n
            else n)
         else n)"

section \<open>The rule table\<close>

record decision =
  dec_RuleName :: string
  dec_Priority :: int
  dec_EgressIface :: string
  dec_EgressPeer :: string
  dec_SFPolicyID :: string

definition rule_matches :: "routing_rule \<Rightarrow> message \<Rightarrow> bool" where
  "rule_matches r msg \<longleftrightarrow>
     (let dst = trim_plus (addr_MSISDN (msg_Destination msg)) in
      (rr_MatchSrcIface r \<noteq> [] \<longrightarrow> msg_IngressInterface msg = rr_MatchSrcIface r) \<and>
      \<not> (rr_MatchSrcPeer r \<noteq> [] \<and> msg_IngressPeer msg \<noteq> rr_MatchSrcPeer r) \<and>
      (rr_MatchDstPrefix r \<noteq> [] \<longrightarrow> has_prefix (trim_plus (rr_MatchDstPrefix r)) dst) \<and>
      (rr_MatchMSISDNMin r \<noteq> [] \<or> rr_MatchMSISDNMax r \<noteq> [] \<longrightarrow>
         \<not> (rr_MatchMSISDNMin r \<noteq> [] \<and> str_less dst (trim_plus (rr_MatchMSISDNMin r))) \<and>
         \<not> (rr_MatchMSISDNMax r \<noteq> [] \<and> str_less (trim_plus (rr_MatchMSISDNMax r)) dst)))"

definition decision_of :: "routing_rule \<Rightarrow> decision" where
  "decision_of r = \<lparr>dec_RuleName = rr_Name r, dec_Priority = rr_Priority r,
     dec_EgressIface = rr_EgressIface r, dec_EgressPeer = rr_EgressPeer r, dec_SFPolicyID = rr_SFPolicyID r\<rparr>"

type_synonym engine = "routing_rule list"

definition NewEngine :: engine where
  "NewEngine = []"

definition engine_Reload :: "routing_rule list \<Rightarrow> engine \<Rightarrow> engine" where
  "engine_Reload rules e = rules"

text \<open>The loop over the rules, with the decisions found so far.\<close>

fun collect_decisions :: "routing_rule list \<Rightarrow> message \<Rightarrow> decision list \<Rightarrow> decision list" where
  "collect_decisions [] msg ds = ds"
| "collect_decisions (r # rs) msg ds =
     (if rule_matches r msg then collect_decisions rs msg (ds @ [decision_of r])
      else collect_decisions rs msg ds)"

definition RouteAll :: "engine \<Rightarrow> message \<Rightarrow> decision list outcome" where
  "RouteAll e msg =
     (let decisions = collect_decisions e msg [] in
      if decisions = [] then
        Err (''routing: no matching rule for dst='' @ addr_MSISDN (msg_Destination msg)
             @ '' src_iface='' @ msg_IngressInterface msg)
      else Ok decisions)"

definition Route :: "engine \<Rightarrow> message \<Rightarrow> decision outcome" where
  "Route e msg = obind (RouteAll e msg) (\<lambda>ds. at ds 0)"

definition RouteWithContext :: "engine \<Rightarrow> message \<Rightarrow> decision outcome" where
  "RouteWithContext e msg = Route e msg"

text \<open>Loading: the table is replaced only when the query succeeds.\<close>

definition loader_load :: "db \<Rightarrow> engine \<Rightarrow> engine outcome \<times> db" where
  "loader_load d e =
     (case ListRoutingRules d of
        (None, d) \<Rightarrow> (Err ''list routing_rules'', d)
      | (Some rules, d) \<Rightarrow> (Ok (engine_Reload rules e), d))"

text \<open>
  A change event reloads; a failed reload keeps the table in force. \<open>ds\<close> is the store at each event.
\<close>

fun watch_events :: "('d \<Rightarrow> 'e \<Rightarrow> 'e outcome \<times> 'd) \<Rightarrow> 'd list \<Rightarrow> 'e \<Rightarrow> 'e" where
  "watch_events load [] e = e"
| "watch_events load (d # ds) e =
     (case load d e of (Ok e', _) \<Rightarrow> watch_events load ds e' | (_, _) \<Rightarrow> watch_events load ds e)"

definition loader_watch :: "db list \<Rightarrow> engine \<Rightarrow> engine" where
  "loader_watch = watch_events loader_load"

section \<open>MME host translation\<close>

type_synonym mapper = "string \<rightharpoonup> string"

fun mapper_rows :: "sgd_mme_mapping list \<Rightarrow> mapper \<Rightarrow> mapper" where
  "mapper_rows [] m = m"
| "mapper_rows (r # rs) m =
     mapper_rows rs (if mm_Enabled r then m(to_lower (mm_S6CResult r) \<mapsto> mm_SGDHost r) else m)"

definition mapper_Reload :: "sgd_mme_mapping list \<Rightarrow> mapper \<Rightarrow> mapper" where
  "mapper_Reload rows mp = mapper_rows rows (\<lambda>_. None)"

definition mapper_Map :: "mapper \<Rightarrow> string \<Rightarrow> string" where
  "mapper_Map mp mmeHost = (case mp (to_lower mmeHost) of Some mapped \<Rightarrow> mapped | None \<Rightarrow> mmeHost)"

definition mapper_load :: "db \<Rightarrow> mapper \<Rightarrow> mapper outcome \<times> db" where
  "mapper_load d mp =
     (case ListSGDMMEMappings d of
        (None, d) \<Rightarrow> (Err ''list sgd_mme_mappings'', d)
      | (Some rows, d) \<Rightarrow> (Ok (mapper_Reload rows mp), d))"

definition mapper_watch :: "db list \<Rightarrow> mapper \<Rightarrow> mapper" where
  "mapper_watch = watch_events mapper_load"

section \<open>Hot reload\<close>

text \<open>A table that is rebuilt from the store: a load that succeeds does not depend on the old table.\<close>

locale reloading =
  fixes load :: "'d \<Rightarrow> 'e \<Rightarrow> 'e outcome \<times> 'd" and table :: "'d \<Rightarrow> 'e option"
  assumes load_table: "table d = Some t \<Longrightarrow> fst (load d e) = Ok t"
    and load_fails: "table d = None \<Longrightarrow> \<forall>t. fst (load d e) \<noteq> Ok t"
begin

lemma watch_step: "watch_events load (d # ds) e = watch_events load ds (case table d of Some t \<Rightarrow> t | None \<Rightarrow> e)"
  using load_table [of d _ e] load_fails [of d e]
  by (cases "table d") (auto split: prod.splits outcome.splits)

text \<open>The table in force is the last one that could be read.\<close>

lemma watch_last: "watch_events load ds e = (case rev (List.map_filter table ds) of [] \<Rightarrow> e | t # _ \<Rightarrow> t)"
proof (induction ds arbitrary: e)
  case (Cons d ds)
  show ?case unfolding watch_step Cons.IH
    by (cases "table d") (auto simp: List.map_filter_def split: list.splits)
qed (simp add: List.map_filter_def)

end

definition readable_rules :: "db \<Rightarrow> engine option" where
  "readable_rules d = fst (ListRoutingRules d)"

definition readable_mappings :: "db \<Rightarrow> mapper option" where
  "readable_mappings d = map_option (\<lambda>rows. mapper_rows rows (\<lambda>_. None)) (fst (ListSGDMMEMappings d))"

interpretation rules: reloading loader_load readable_rules
  by unfold_locales (auto simp: loader_load_def readable_rules_def engine_Reload_def split: prod.splits option.splits)

interpretation mappings: reloading mapper_load readable_mappings
  by unfold_locales (auto simp: mapper_load_def readable_mappings_def mapper_Reload_def split: prod.splits option.splits)

section \<open>Lemmas\<close>

lemma collect_decisions_eq: "collect_decisions rs msg ds = ds @ map decision_of (filter (\<lambda>r. rule_matches r msg) rs)"
  by (induction rs arbitrary: ds) auto

lemma RouteAll_eq_Ok:
  "RouteAll e msg = Ok ds \<longleftrightarrow> ds = map decision_of (filter (\<lambda>r. rule_matches r msg) e) \<and> ds \<noteq> []"
  by (auto simp: RouteAll_def collect_decisions_eq Let_def)

lemma RouteAll_not_Panic [simp]: "RouteAll e msg \<noteq> Panic"
  by (auto simp: RouteAll_def Let_def)

lemma Route_eq_Ok: "Route e msg = Ok x \<longleftrightarrow> (\<exists>ds. RouteAll e msg = Ok (x # ds))"
  by (auto simp: Route_def obind_eq_Ok RouteAll_eq_Ok at_eq_Ok neq_Nil_conv)

lemma mapper_rows_find:
  "mapper_rows rows m k =
     (case find (\<lambda>r. mm_Enabled r \<and> to_lower (mm_S6CResult r) = k) (rev rows) of
        Some r \<Rightarrow> Some (mm_SGDHost r) | None \<Rightarrow> m k)"
proof (induction rows arbitrary: m)
  case (Cons r rows)
  show ?case by (simp add: Cons.IH find_append split: option.splits)
qed simp

lemma trim_plus_digit_head: "(\<forall>c \<in> set ds. is_digit c) \<Longrightarrow> trim_plus (CHR ''+'' # ds) = ds"
  by simp

lemma trim_space_plus_digits:
  assumes "\<forall>c \<in> set ds. is_digit c"
  shows "trim_space (CHR ''+'' # ds) = CHR ''+'' # ds"
proof -
  have n: "trim_by seqs s = s" if "\<forall>q \<in> set seqs. \<forall>n \<in> set q. n < 43 \<or> n = 47 \<or> 57 < n" "\<forall>n \<in> set s. 48 \<le> n \<and> n \<le> 57 \<or> n = 43"
    for seqs :: "nat list list" and s
  proof -
    have "find (\<lambda>q. q \<noteq> [] \<and> has_prefix q s) seqs = None"
      using that unfolding find_None_iff has_prefix_iff by (fastforce simp: neq_Nil_conv)
    then show ?thesis by (simp add: trim_by.simps)
  qed
  have "\<forall>n \<in> set (map of_char (CHR ''+'' # ds)). 48 \<le> n \<and> n \<le> (57 :: nat) \<or> n = 43"
    using assms by (auto simp: is_digit_def)
  moreover have "\<forall>q \<in> set space_seqs. \<forall>n \<in> set q. n < 43 \<or> n = 47 \<or> 57 < n"
    by (simp add: space_seqs_def)
  moreover from this have "\<forall>q \<in> set (map rev space_seqs). \<forall>n \<in> set q. n < 43 \<or> n = 47 \<or> 57 < n" by auto
  ultimately show ?thesis
    unfolding trim_space_def by (simp only: n set_rev map_map rev_rev_ident comp_def char_of_char map_ident)
qed

definition matching_rules :: "message \<Rightarrow> db \<Rightarrow> routing_rule list" where
  "matching_rules msg d = filter (\<lambda>r. rule_matches r msg) (filter rr_Enabled (db_rules d))"

lemma loaded_rules: "loader_load d e = (Ok e', d') \<Longrightarrow> e' = sort_key rr_Priority (filter rr_Enabled (db_rules d))"
  unfolding loader_load_def ListRoutingRules_def
  by (cases rule: db_call_cases [of "\<lambda>d. (sort_key rr_Priority (filter rr_Enabled (db_rules d)), d)" d])
    (auto simp: engine_Reload_def)

lemma decision_of_fields [simp]: "dec_Priority (decision_of r) = rr_Priority r"
  "map dec_Priority (map decision_of rs) = map rr_Priority rs"
  "dec_Priority \<circ> decision_of = rr_Priority"
  by (auto simp: decision_of_def)

lemma no_panic_RouteAll [panic_free]: "no_panic (RouteAll e msg)"
  by (simp add: RouteAll_def Let_def)

section \<open>Properties\<close>

text \<open>
  C24: A routing decision is the enabled matching rule of the lowest priority number. After a
  load that succeeds, \<open>RouteAll\<close> gives the decisions of exactly the enabled rules that match, in
  ascending priority, \<open>Route\<close> one that no enabled matching rule of the database precedes, and
  both report an error, never a panic, just when no enabled rule matches.
\<close>

theorem routing_by_priority:
  assumes "loader_load d e = (Ok e', d')"
  shows "(\<forall>ds. RouteAll e' msg = Ok ds \<longrightarrow> sorted (map dec_Priority ds) \<and>
      mset ds = mset (map decision_of (matching_rules msg d))) \<and>
    (\<forall>x. Route e' msg = Ok x \<longrightarrow> x \<in> decision_of ` set (matching_rules msg d) \<and>
      (\<forall>r \<in> set (matching_rules msg d). dec_Priority x \<le> rr_Priority r)) \<and>
    ((\<exists>ds. RouteAll e' msg = Ok ds) \<longleftrightarrow> matching_rules msg d \<noteq> []) \<and>
    ((\<exists>x. Route e' msg = Ok x) \<longleftrightarrow> matching_rules msg d \<noteq> []) \<and>
    no_panic (RouteAll e' msg) \<and> no_panic (Route e' msg)"
proof -
  let ?rs = "filter (\<lambda>r. rule_matches r msg) (sort_key rr_Priority (filter rr_Enabled (db_rules d)))"
  have e': "e' = sort_key rr_Priority (filter rr_Enabled (db_rules d))"
    using assms by (rule loaded_rules)
  have sorted: "sorted (map rr_Priority ?rs)" by (intro sorted_filter sorted_sort_key)
  have mset: "mset ?rs = mset (matching_rules msg d)" by (simp add: matching_rules_def filter_filter_mset)
  then have set: "set ?rs = set (matching_rules msg d)" by (rule mset_eq_setD)
  have all: "RouteAll e' msg = Ok ds \<longleftrightarrow> ds = map decision_of ?rs \<and> ?rs \<noteq> []" for ds
    unfolding e' RouteAll_eq_Ok by auto
  have one: "Route e' msg = Ok x \<longleftrightarrow> ?rs \<noteq> [] \<and> x = decision_of (hd ?rs)" for x
    unfolding Route_eq_Ok all by (cases ?rs) auto
  have ne: "?rs \<noteq> [] \<longleftrightarrow> matching_rules msg d \<noteq> []" using mset by (metis mset_zero_iff)
  have least: "\<forall>r \<in> set ?rs. rr_Priority (hd ?rs) \<le> rr_Priority r" if "?rs \<noteq> []"
    using sorted that by (cases ?rs) auto
  have "no_panic (Route e' msg)" unfolding Route_def
    by (rule no_panic_obind) (auto simp: RouteAll_eq_Ok no_panic_RouteAll)
  then show ?thesis
    using all one ne least sorted set mset no_panic_RouteAll hd_in_set [of ?rs]
    by (auto simp: decision_of_fields mset_map)
qed

definition example_rule :: "string \<Rightarrow> int \<Rightarrow> string \<Rightarrow> routing_rule" where
  "example_rule name prio prefix = \<lparr>rr_Name = name, rr_Priority = prio, rr_MatchSrcIface = [],
     rr_MatchSrcPeer = [], rr_MatchDstPrefix = prefix, rr_MatchMSISDNMin = [], rr_MatchMSISDNMax = [],
     rr_EgressIface = ''smpp'', rr_EgressPeer = name, rr_SFPolicyID = [], rr_Enabled = True\<rparr>"

definition example_rules_db :: db where
  "example_rules_db = (example_db SQLite [])\<lparr>db_rules := [example_rule ''any'' 9 [], example_rule ''de'' 5 ''49'']\<rparr>"

definition message_to :: "string \<Rightarrow> message" where
  "message_to dst = empty_message\<lparr>msg_Destination := empty_address\<lparr>addr_MSISDN := dst\<rparr>\<rparr>"

theorem routing_by_priority_witness:
  "\<exists>e x. fst (loader_load example_rules_db []) = Ok e \<and> Route e (message_to ''+49151'') = Ok x \<and> dec_Priority x = 5"
proof -
  let ?m = "message_to ''+49151''"
  have d: "db_faults example_rules_db = []"
    "db_rules example_rules_db = [example_rule ''any'' 9 [], example_rule ''de'' 5 ''49'']"
    by (simp_all add: example_rules_db_def)
  then obtain e where l: "loader_load example_rules_db [] = (Ok e, example_rules_db)"
    by (simp add: loader_load_def ListRoutingRules_def db_call_no_fault)
  have m: "matching_rules ?m example_rules_db = [example_rule ''any'' 9 [], example_rule ''de'' 5 ''49'']"
    by (simp add: matching_rules_def d rule_matches_def example_rule_def message_to_def)
  note r = routing_by_priority [OF l, of ?m]
  then obtain x where x: "Route e ?m = Ok x" using m by auto
  with r have "x \<in> decision_of ` set (matching_rules ?m example_rules_db)"
    "\<forall>r \<in> set (matching_rules ?m example_rules_db). dec_Priority x \<le> rr_Priority r" by blast+
  then have "dec_Priority x = 5" unfolding m by (auto simp: example_rule_def)
  then show ?thesis using l x by (intro exI) auto
qed

text \<open>
  The canonical form of a recipient's number: national and international notations of one
  number agree, a leading plus never matters, and normalising again changes nothing.
\<close>

theorem recipient_number_canonical:
  assumes "\<forall>c \<in> set n. is_digit c" "\<forall>c \<in> set cc. is_digit c" "int (length n) = len" "0 < len"
    and "ton = TONUnknown \<or> ton = TONNational" and "cc' = cc \<or> cc' = CHR ''+'' # cc"
  shows "NormalizeRecipientMSISDN n ton cc' len = cc @ n \<and>
    NormalizeRecipientMSISDN (cc @ n) TONInternational cc' len = cc @ n \<and>
    NormalizeRecipientMSISDN (CHR ''+'' # cc @ n) TONInternational cc' len = cc @ n \<and>
    NormalizeRecipientMSISDN (CHR ''+'' # n) ton cc' len = cc @ n \<and>
    NormalizeRecipientMSISDN (cc @ n) ton cc' len = cc @ n"
proof -
  have cc: "trim_plus (trim_space cc') = cc"
    using assms(2,6) by (auto simp: trim_space_digits trim_plus_digits trim_space_plus_digits)
  have d: "trim_plus (trim_space ds) = ds \<and> trim_plus (trim_space (CHR ''+'' # ds)) = ds"
    if "\<forall>c \<in> set ds. is_digit c" for ds
    using that by (simp add: trim_space_digits trim_plus_digits trim_space_plus_digits)
  have "\<forall>c \<in> set (cc @ n). is_digit c" using assms(1,2) by auto
  note d [OF this] d [OF assms(1)]
  then show ?thesis using assms(3-5) by (auto simp: NormalizeRecipientMSISDN_def Let_def cc)
qed

theorem recipient_number_canonical_witness:
  "NormalizeRecipientMSISDN ''6752012860'' TONUnknown ''+1'' 10 = ''16752012860''"
  using recipient_number_canonical [of "''6752012860''" "''1''" 10 TONUnknown "''+1''"]
  by (simp add: is_digit_def)

text \<open>
  An MME name is translated by the enabled entry for it in any spelling of its case, the last
  of them where there are several, and passed on unchanged where there is none; two spellings of
  one name that has an entry get the same host. The table in force is the last one that could be read.
\<close>

theorem mme_host_translation:
  "mapper_Map (mapper_watch ds mp) h =
     (let table = (case rev (List.map_filter (\<lambda>d. fst (ListSGDMMEMappings d)) ds) of
          [] \<Rightarrow> mp | rows # _ \<Rightarrow> (\<lambda>k. map_option mm_SGDHost
             (find (\<lambda>r. mm_Enabled r \<and> to_lower (mm_S6CResult r) = k) (rev rows))))
      in case table (to_lower h) of Some host \<Rightarrow> host | None \<Rightarrow> h)"
proof -
  have "List.map_filter readable_mappings ds =
      map (\<lambda>rows. mapper_rows rows (\<lambda>_. None)) (List.map_filter (\<lambda>d. fst (ListSGDMMEMappings d)) ds)"
    by (induction ds) (auto simp: List.map_filter_def readable_mappings_def)
  then show ?thesis
    by (auto simp: mapper_watch_def mappings.watch_last mapper_Map_def mapper_rows_find rev_map [symmetric] Let_def
        split: list.splits option.splits)
qed

end
