(* ===== verification/SmppPdu.thy ===== *)
theory SmppPdu
  imports Prelude "HOL-Library.AList"
begin

text \<open>
  The SMPP v3.4 wire protocol of \<open>internal/smpp/pdu.go\<close> and \<open>codec.go\<close>. The TLV map of a PDU
  is an association list with distinct tags: the order of the list is the order in which a
  \<open>range\<close> over the Go map happens to visit it, so a statement about every such list covers
  every iteration order.
\<close>

section \<open>The PDU\<close>

abbreviation CmdBindReceiver :: "32 word" where "CmdBindReceiver \<equiv> 0x00000001"
abbreviation CmdBindTransmitter :: "32 word" where "CmdBindTransmitter \<equiv> 0x00000002"
abbreviation CmdSubmitSM :: "32 word" where "CmdSubmitSM \<equiv> 0x00000004"
abbreviation CmdDeliverSM :: "32 word" where "CmdDeliverSM \<equiv> 0x00000005"
abbreviation CmdUnbind :: "32 word" where "CmdUnbind \<equiv> 0x00000006"
abbreviation CmdBindTransceiver :: "32 word" where "CmdBindTransceiver \<equiv> 0x00000009"
abbreviation CmdEnquireLink :: "32 word" where "CmdEnquireLink \<equiv> 0x00000015"
abbreviation CmdSubmitSMResp :: "32 word" where "CmdSubmitSMResp \<equiv> 0x80000004"
abbreviation CmdDeliverSMResp :: "32 word" where "CmdDeliverSMResp \<equiv> 0x80000005"
abbreviation CmdBindReceiverResp :: "32 word" where "CmdBindReceiverResp \<equiv> 0x80000001"
abbreviation CmdBindTransmitterResp :: "32 word" where "CmdBindTransmitterResp \<equiv> 0x80000002"
abbreviation CmdBindTransceiverResp :: "32 word" where "CmdBindTransceiverResp \<equiv> 0x80000009"
abbreviation CmdEnquireLinkResp :: "32 word" where "CmdEnquireLinkResp \<equiv> 0x80000015"
abbreviation CmdUnbindResp :: "32 word" where "CmdUnbindResp \<equiv> 0x80000006"
abbreviation CmdGenericNack :: "32 word" where "CmdGenericNack \<equiv> 0x80000000"

abbreviation TLVReceiptedMessageID :: "16 word" where "TLVReceiptedMessageID \<equiv> 0x001E"
abbreviation TLVSARMsgRefNum :: "16 word" where "TLVSARMsgRefNum \<equiv> 0x020C"
abbreviation TLVSARTotalSegments :: "16 word" where "TLVSARTotalSegments \<equiv> 0x020E"
abbreviation TLVSARSegmentSeqnum :: "16 word" where "TLVSARSegmentSeqnum \<equiv> 0x020F"
abbreviation TLVMessagePayload :: "16 word" where "TLVMessagePayload \<equiv> 0x0424"

record pdu =
  pdu_CommandLength :: "32 word"
  pdu_CommandID :: "32 word"
  pdu_CommandStatus :: "32 word"
  pdu_SequenceNumber :: "32 word"
  pdu_SystemID :: string
  pdu_Password :: string
  pdu_SystemType :: string
  pdu_InterfaceVersion :: byte
  pdu_AddrTON :: byte
  pdu_AddrNPI :: byte
  pdu_AddressRange :: string
  pdu_ServiceType :: string
  pdu_SourceAddrTON :: byte
  pdu_SourceAddrNPI :: byte
  pdu_SourceAddr :: string
  pdu_DestAddrTON :: byte
  pdu_DestAddrNPI :: byte
  pdu_DestinationAddr :: string
  pdu_ESMClass :: byte
  pdu_ProtocolID :: byte
  pdu_PriorityFlag :: byte
  pdu_ScheduleDeliveryTime :: string
  pdu_ValidityPeriod :: string
  pdu_RegisteredDelivery :: byte
  pdu_ReplaceIfPresentFlag :: byte
  pdu_DataCoding :: byte
  pdu_SMDefaultMsgID :: byte
  pdu_SMLength :: byte
  pdu_ShortMessage :: bytes
  pdu_MessageID :: string
  pdu_TLVs :: "(16 word \<times> bytes) list"

definition empty_pdu :: pdu where
  "empty_pdu = \<lparr>pdu_CommandLength = 0, pdu_CommandID = 0, pdu_CommandStatus = 0,
     pdu_SequenceNumber = 0, pdu_SystemID = [], pdu_Password = [], pdu_SystemType = [],
     pdu_InterfaceVersion = 0, pdu_AddrTON = 0, pdu_AddrNPI = 0, pdu_AddressRange = [],
     pdu_ServiceType = [], pdu_SourceAddrTON = 0, pdu_SourceAddrNPI = 0, pdu_SourceAddr = [],
     pdu_DestAddrTON = 0, pdu_DestAddrNPI = 0, pdu_DestinationAddr = [], pdu_ESMClass = 0,
     pdu_ProtocolID = 0, pdu_PriorityFlag = 0, pdu_ScheduleDeliveryTime = [],
     pdu_ValidityPeriod = [], pdu_RegisteredDelivery = 0, pdu_ReplaceIfPresentFlag = 0,
     pdu_DataCoding = 0, pdu_SMDefaultMsgID = 0, pdu_SMLength = 0, pdu_ShortMessage = [],
     pdu_MessageID = [], pdu_TLVs = []\<rparr>"

definition TLV :: "pdu \<Rightarrow> 16 word \<Rightarrow> bytes option" where
  "TLV p tag = map_of (pdu_TLVs p) tag"

definition TLVString :: "pdu \<Rightarrow> 16 word \<Rightarrow> string" where
  "TLVString p tag =
     (case TLV p tag of
        None \<Rightarrow> []
      | Some v \<Rightarrow> if v \<noteq> [] \<and> last v = 0 then string_of_bytes (butlast v) else string_of_bytes v)"

definition SetTLV :: "pdu \<Rightarrow> 16 word \<Rightarrow> bytes \<Rightarrow> pdu" where
  "SetTLV p tag val = p\<lparr>pdu_TLVs := AList.update tag val (pdu_TLVs p)\<rparr>"

definition SetTLVString :: "pdu \<Rightarrow> 16 word \<Rightarrow> string \<Rightarrow> pdu" where
  "SetTLVString p tag s = SetTLV p tag (bytes_of_string s @ [0])"

definition Payload :: "pdu \<Rightarrow> bytes" where
  "Payload p = (case TLV p TLVMessagePayload of
     Some v \<Rightarrow> if v \<noteq> [] then v else pdu_ShortMessage p | None \<Rightarrow> pdu_ShortMessage p)"

section \<open>Encoding\<close>

abbreviation HeaderLen :: nat where "HeaderLen \<equiv> 16"
abbreviation MaxPDULen :: nat where "MaxPDULen \<equiv> 16777216"

definition writeCStr :: "string \<Rightarrow> bytes" where
  "writeCStr s = bytes_of_string s @ [0]"

definition bind_cmd :: "32 word \<Rightarrow> bool" where
  "bind_cmd c \<longleftrightarrow> c \<in> {CmdBindReceiver, CmdBindTransmitter, CmdBindTransceiver}"

definition bind_resp_cmd :: "32 word \<Rightarrow> bool" where
  "bind_resp_cmd c \<longleftrightarrow> c \<in> {CmdBindReceiverResp, CmdBindTransmitterResp, CmdBindTransceiverResp}"

definition sm_cmd :: "32 word \<Rightarrow> bool" where
  "sm_cmd c \<longleftrightarrow> c \<in> {CmdSubmitSM, CmdDeliverSM}"

definition sm_resp_cmd :: "32 word \<Rightarrow> bool" where
  "sm_resp_cmd c \<longleftrightarrow> c \<in> {CmdSubmitSMResp, CmdDeliverSMResp}"

fun encodeTLVs :: "(16 word \<times> bytes) list \<Rightarrow> bytes outcome" where
  "encodeTLVs [] = Ok []"
| "encodeTLVs ((tag, val) # tlvs) =
     (if 65535 < length val then Err ''smpp: TLV length exceeds 65535''
      else obind (encodeTLVs tlvs)
        (\<lambda>rest. Ok (put16 (unat tag) @ put16 (length val) @ val @ rest)))"

definition sm_body :: "pdu \<Rightarrow> bytes" where
  "sm_body p =
     writeCStr (pdu_ServiceType p) @ [pdu_SourceAddrTON p, pdu_SourceAddrNPI p] @
     writeCStr (pdu_SourceAddr p) @ [pdu_DestAddrTON p, pdu_DestAddrNPI p] @
     writeCStr (pdu_DestinationAddr p) @ [pdu_ESMClass p, pdu_ProtocolID p, pdu_PriorityFlag p] @
     writeCStr (pdu_ScheduleDeliveryTime p) @ writeCStr (pdu_ValidityPeriod p) @
     [pdu_RegisteredDelivery p, pdu_ReplaceIfPresentFlag p, pdu_DataCoding p,
      pdu_SMDefaultMsgID p, byte_of (length (pdu_ShortMessage p))] @ pdu_ShortMessage p"

definition encodeBody :: "pdu \<Rightarrow> bytes outcome" where
  "encodeBody p =
     (let c = pdu_CommandID p in
      if bind_cmd c then
        Ok (writeCStr (pdu_SystemID p) @ writeCStr (pdu_Password p) @ writeCStr (pdu_SystemType p) @
            [pdu_InterfaceVersion p, pdu_AddrTON p, pdu_AddrNPI p] @ writeCStr (pdu_AddressRange p))
      else if bind_resp_cmd c then Ok (writeCStr (pdu_SystemID p))
      else if sm_cmd c then
        (if 255 < length (pdu_ShortMessage p) then Err ''smpp: short_message length exceeds 255''
         else obind (encodeTLVs (pdu_TLVs p)) (\<lambda>tlvs. Ok (sm_body p @ tlvs)))
      else if sm_resp_cmd c then Ok (writeCStr (pdu_MessageID p))
      else Ok [])"

definition Encode_pdu :: "pdu \<Rightarrow> bytes outcome" where
  "Encode_pdu p =
     obind (encodeBody p) (\<lambda>body.
       let len = (word_of_nat (HeaderLen + length body) :: 32 word) in
       if MaxPDULen < unat len then Err ''smpp: command_length exceeds maximum''
       else Ok (put32 (unat len) @ put32 (unat (pdu_CommandID p)) @ put32 (unat (pdu_CommandStatus p)) @
                put32 (unat (pdu_SequenceNumber p)) @ body))"

section \<open>Decoding\<close>

text \<open>A \<open>bytes.Reader\<close> is the list of the octets not read yet.\<close>

fun readCStr :: "bytes \<Rightarrow> (string \<times> bytes) outcome" where
  "readCStr [] = Err ''smpp: unterminated C-octet string: EOF''"
| "readCStr (b # r) =
     (if b = 0 then Ok ([], r)
      else obind (readCStr r) (\<lambda>(s, r'). Ok (char_of (unat b) # s, r')))"

fun readByte :: "bytes \<Rightarrow> (byte \<times> bytes) outcome" where
  "readByte [] = Err ''EOF''"
| "readByte (b # r) = Ok (b, r)"

definition readFull :: "nat \<Rightarrow> bytes \<Rightarrow> (bytes \<times> bytes) outcome" where
  "readFull n r = (if length r < n then Err ''unexpected EOF'' else Ok (take n r, drop n r))"

function decodeTLVs :: "(16 word \<times> bytes) list \<Rightarrow> bytes \<Rightarrow> (16 word \<times> bytes) list outcome" where
  "decodeTLVs tlvs r =
     (case r of
        t0 # t1 # l0 # l1 # r' \<Rightarrow>
          (let n = be16 l0 l1 in
           if length r' < n then Err ''unexpected EOF''
           else decodeTLVs (AList.update (word_of_nat (be16 t0 t1)) (take n r') tlvs) (drop n r'))
      | [] \<Rightarrow> Ok tlvs
      | _ \<Rightarrow> Err ''smpp: trailing bytes after TLVs'')"
  by pat_completeness auto
termination by (relation "measure (\<lambda>(tlvs, r). length r)") auto

declare decodeTLVs.simps [simp del]

definition decode_bind :: "pdu \<Rightarrow> bytes \<Rightarrow> pdu outcome" where
  "decode_bind p r =
     obind (readCStr r) (\<lambda>(sysid, r). obind (readCStr r) (\<lambda>(pw, r). obind (readCStr r) (\<lambda>(st, r).
     obind (readByte r) (\<lambda>(iv, r). obind (readByte r) (\<lambda>(ton, r). obind (readByte r) (\<lambda>(npi, r).
     obind (readCStr r) (\<lambda>(range, r).
       Ok (p\<lparr>pdu_SystemID := sysid, pdu_Password := pw, pdu_SystemType := st,
             pdu_InterfaceVersion := iv, pdu_AddrTON := ton, pdu_AddrNPI := npi,
             pdu_AddressRange := range\<rparr>))))))))"

definition decode_sm :: "pdu \<Rightarrow> bytes \<Rightarrow> pdu outcome" where
  "decode_sm p r =
     obind (readCStr r) (\<lambda>(st, r).
     obind (readByte r) (\<lambda>(ston, r). obind (readByte r) (\<lambda>(snpi, r). obind (readCStr r) (\<lambda>(src, r).
     obind (readByte r) (\<lambda>(dton, r). obind (readByte r) (\<lambda>(dnpi, r). obind (readCStr r) (\<lambda>(dst, r).
     obind (readByte r) (\<lambda>(esm, r). obind (readByte r) (\<lambda>(pid, r). obind (readByte r) (\<lambda>(prio, r).
     obind (readCStr r) (\<lambda>(sched, r). obind (readCStr r) (\<lambda>(vp, r).
     obind (readByte r) (\<lambda>(regd, r). obind (readByte r) (\<lambda>(repl, r). obind (readByte r) (\<lambda>(dcs, r).
     obind (readByte r) (\<lambda>(dmid, r). obind (readByte r) (\<lambda>(sml, r). obind (readFull (unat sml) r) (\<lambda>(sm, r).
     obind (decodeTLVs [] r) (\<lambda>tlvs.
       Ok (p\<lparr>pdu_ServiceType := st, pdu_SourceAddrTON := ston, pdu_SourceAddrNPI := snpi,
             pdu_SourceAddr := src, pdu_DestAddrTON := dton, pdu_DestAddrNPI := dnpi,
             pdu_DestinationAddr := dst, pdu_ESMClass := esm, pdu_ProtocolID := pid,
             pdu_PriorityFlag := prio, pdu_ScheduleDeliveryTime := sched, pdu_ValidityPeriod := vp,
             pdu_RegisteredDelivery := regd, pdu_ReplaceIfPresentFlag := repl,
             pdu_DataCoding := dcs, pdu_SMDefaultMsgID := dmid, pdu_SMLength := sml,
             pdu_ShortMessage := sm, pdu_TLVs := tlvs\<rparr>))))))))))))))))))))"

text \<open>
  The error of \<open>readCStr\<close> wraps \<open>io.EOF\<close>, so the comparison with \<open>io.EOF\<close> that should
  tolerate an empty body never holds: a response with an unterminated body is an error.
\<close>

definition decodeBody :: "pdu \<Rightarrow> bytes \<Rightarrow> pdu outcome" where
  "decodeBody p body =
     (let c = pdu_CommandID p in
      if bind_cmd c then decode_bind p body
      else if bind_resp_cmd c then obind (readCStr body) (\<lambda>(s, r). Ok (p\<lparr>pdu_SystemID := s\<rparr>))
      else if sm_cmd c then decode_sm p body
      else if sm_resp_cmd c then obind (readCStr body) (\<lambda>(s, r). Ok (p\<lparr>pdu_MessageID := s\<rparr>))
      else Ok p)"

text \<open>\<open>Decode\<close> reads one PDU from a stream and leaves the rest of it.\<close>

fun word32_at :: "bytes \<Rightarrow> 32 word" where
  "word32_at (a # b # c # d # _) = word_of_nat (be32 a b c d)"
| "word32_at _ = 0"

definition Decode_pdu :: "bytes \<Rightarrow> (pdu \<times> bytes) outcome" where
  "Decode_pdu s =
     obind (readFull HeaderLen s) (\<lambda>(hdr, s).
       let p = empty_pdu\<lparr>pdu_CommandLength := word32_at hdr, pdu_CommandID := word32_at (drop 4 hdr),
                 pdu_CommandStatus := word32_at (drop 8 hdr), pdu_SequenceNumber := word32_at (drop 12 hdr)\<rparr>;
           len = unat (pdu_CommandLength p)
       in if len < HeaderLen then Err ''smpp: invalid command_length''
          else if MaxPDULen < len then Err ''smpp: command_length exceeds maximum''
          else if len = HeaderLen then Ok (p, s)
          else obind (readFull (len - HeaderLen) s) (\<lambda>(body, s).
                 obind (decodeBody p body) (\<lambda>p. Ok (p, s))))"

section \<open>Round trip\<close>

definition nul_free :: "string \<Rightarrow> bool" where
  "nul_free s \<longleftrightarrow> CHR 0x00 \<notin> set s"

lemma of_char_eq_0: "(of_char c :: byte) = 0 \<longleftrightarrow> c = CHR 0x00"
proof -
  have "(of_char c :: byte) = 0 \<longleftrightarrow> unat (of_char c :: byte) = 0" by (simp only: unsigned_eq_0_iff)
  also have "\<dots> \<longleftrightarrow> (of_char c :: nat) = of_char (CHR 0x00)" by (simp only: unat_of_char) simp
  finally show ?thesis by (simp only: of_char_eq_iff)
qed

lemma readCStr_writeCStr [simp]: "nul_free s \<Longrightarrow> readCStr (writeCStr s @ r) = Ok (s, r)"
  by (induction s) (auto simp: writeCStr_def nul_free_def of_char_eq_0)

lemma readFull_append [simp]: "length b = n \<Longrightarrow> readFull n (b @ r) = Ok (b, r)"
  by (auto simp: readFull_def)

lemma unat_16 [simp]: "unat (t :: 16 word) < 65536"
  using unsigned_less [of t] by simp

lemma unat_32: "unat (t :: 32 word) < 4294967296"
  using unsigned_less [of t] by simp

lemma update_new: "k \<notin> fst ` set xs \<Longrightarrow> AList.update k v xs = xs @ [(k, v)]"
  by (induction xs) auto

lemma decodeTLVs_encodeTLVs:
  assumes "encodeTLVs tlvs = Ok b" and "distinct (map fst (acc @ tlvs))"
  shows "decodeTLVs acc b = Ok (acc @ tlvs)"
  using assms
proof (induction tlvs arbitrary: acc b rule: encodeTLVs.induct)
  case 1
  then show ?case by (simp add: decodeTLVs.simps)
next
  case (2 tag val tlvs)
  then obtain rest where r: "encodeTLVs tlvs = Ok rest" and val: "length val < 65536"
    and b: "b = put16 (unat tag) @ put16 (length val) @ val @ rest"
    by (auto simp: obind_eq_Ok split: if_splits)
  have "decodeTLVs acc b = decodeTLVs (AList.update tag val acc) rest"
    using val by (simp add: b put16_def decodeTLVs.simps [of acc] be16_put)
  also have "\<dots> = Ok ((acc @ [(tag, val)]) @ tlvs)"
    using 2 r val by (simp add: update_new)
  finally show ?case by simp
qed

text \<open>The PDU that comes back: the header and the fields its command carries.\<close>

definition wire_pdu :: "pdu \<Rightarrow> nat \<Rightarrow> pdu" where
  "wire_pdu p len =
     (let h = empty_pdu\<lparr>pdu_CommandLength := word_of_nat len, pdu_CommandID := pdu_CommandID p,
                pdu_CommandStatus := pdu_CommandStatus p, pdu_SequenceNumber := pdu_SequenceNumber p\<rparr>;
          c = pdu_CommandID p
      in if bind_cmd c then
           h\<lparr>pdu_SystemID := pdu_SystemID p, pdu_Password := pdu_Password p,
             pdu_SystemType := pdu_SystemType p, pdu_InterfaceVersion := pdu_InterfaceVersion p,
             pdu_AddrTON := pdu_AddrTON p, pdu_AddrNPI := pdu_AddrNPI p,
             pdu_AddressRange := pdu_AddressRange p\<rparr>
         else if bind_resp_cmd c then h\<lparr>pdu_SystemID := pdu_SystemID p\<rparr>
         else if sm_cmd c then
           p\<lparr>pdu_CommandLength := word_of_nat len, pdu_SMLength := byte_of (length (pdu_ShortMessage p)),
             pdu_SystemID := [], pdu_Password := [], pdu_SystemType := [], pdu_InterfaceVersion := 0,
             pdu_AddrTON := 0, pdu_AddrNPI := 0, pdu_AddressRange := [], pdu_MessageID := []\<rparr>
         else if sm_resp_cmd c then h\<lparr>pdu_MessageID := pdu_MessageID p\<rparr>
         else h)"

text \<open>No NUL inside the strings, no tag twice in the map.\<close>

definition wf_pdu :: "pdu \<Rightarrow> bool" where
  "wf_pdu p \<longleftrightarrow> list_all nul_free [pdu_SystemID p, pdu_Password p, pdu_SystemType p,
     pdu_AddressRange p, pdu_ServiceType p, pdu_SourceAddr p, pdu_DestinationAddr p,
     pdu_ScheduleDeliveryTime p, pdu_ValidityPeriod p, pdu_MessageID p] \<and>
     distinct (map fst (pdu_TLVs p))"

lemma readByte_Cons [simp]: "readByte ([b] @ r) = Ok (b, r)"
  by simp

lemma decode_bind_encodeBody:
  assumes "wf_pdu p" and "bind_cmd (pdu_CommandID p)" and "encodeBody p = Ok b"
  shows "decode_bind h b = Ok (h\<lparr>pdu_SystemID := pdu_SystemID p, pdu_Password := pdu_Password p,
    pdu_SystemType := pdu_SystemType p, pdu_InterfaceVersion := pdu_InterfaceVersion p,
    pdu_AddrTON := pdu_AddrTON p, pdu_AddrNPI := pdu_AddrNPI p, pdu_AddressRange := pdu_AddressRange p\<rparr>)"
proof -
  have "readCStr (writeCStr (pdu_AddressRange p)) = Ok (pdu_AddressRange p, [])"
    using assms(1) readCStr_writeCStr [of "pdu_AddressRange p" "[]"] by (simp add: wf_pdu_def)
  then show ?thesis
    using assms by (auto simp: encodeBody_def decode_bind_def wf_pdu_def Let_def)
qed

lemma decode_sm_encodeBody:
  assumes "wf_pdu p" and "sm_cmd (pdu_CommandID p)" and "encodeBody p = Ok b"
    and "\<not> bind_cmd (pdu_CommandID p)" and "\<not> bind_resp_cmd (pdu_CommandID p)"
  shows "decode_sm h b = Ok (p\<lparr>pdu_CommandLength := pdu_CommandLength h,
    pdu_CommandID := pdu_CommandID h, pdu_CommandStatus := pdu_CommandStatus h,
    pdu_SequenceNumber := pdu_SequenceNumber h, pdu_SMLength := byte_of (length (pdu_ShortMessage p)),
    pdu_SystemID := pdu_SystemID h, pdu_Password := pdu_Password h,
    pdu_SystemType := pdu_SystemType h, pdu_InterfaceVersion := pdu_InterfaceVersion h,
    pdu_AddrTON := pdu_AddrTON h, pdu_AddrNPI := pdu_AddrNPI h,
    pdu_AddressRange := pdu_AddressRange h, pdu_MessageID := pdu_MessageID h\<rparr>)"
proof -
  obtain tlvs where t: "encodeTLVs (pdu_TLVs p) = Ok tlvs" and b: "b = sm_body p @ tlvs"
    and len: "length (pdu_ShortMessage p) < 256"
    using assms by (auto simp: encodeBody_def Let_def obind_eq_Ok split: if_splits)
  have "decodeTLVs [] tlvs = Ok (pdu_TLVs p)"
    using decodeTLVs_encodeTLVs [OF t, of "[]"] assms(1) by (simp add: wf_pdu_def)
  then show ?thesis
    using assms(1) len by (simp add: b sm_body_def decode_sm_def wf_pdu_def)
qed

lemma cmd_classes:
  "sm_cmd c \<Longrightarrow> \<not> bind_cmd c" "sm_cmd c \<Longrightarrow> \<not> bind_resp_cmd c" "bind_resp_cmd c \<Longrightarrow> \<not> bind_cmd c"
  "sm_resp_cmd c \<Longrightarrow> \<not> bind_cmd c \<and> \<not> bind_resp_cmd c \<and> \<not> sm_cmd c"
  by (auto simp: sm_cmd_def bind_cmd_def bind_resp_cmd_def sm_resp_cmd_def)

lemma readCStr_writeCStr_end [simp]: "nul_free s \<Longrightarrow> readCStr (writeCStr s) = Ok (s, [])"
  using readCStr_writeCStr [of s "[]"] by simp

lemma decodeBody_encodeBody:
  assumes "wf_pdu p" and "encodeBody p = Ok b" and "b \<noteq> []"
    and "h = empty_pdu\<lparr>pdu_CommandLength := word_of_nat len, pdu_CommandID := pdu_CommandID p,
           pdu_CommandStatus := pdu_CommandStatus p, pdu_SequenceNumber := pdu_SequenceNumber p\<rparr>"
  shows "decodeBody h b = Ok (wire_pdu p len)"
proof -
  let ?c = "pdu_CommandID p"
  have c: "pdu_CommandID h = ?c" by (simp add: assms(4))
  consider (bind) "bind_cmd ?c" | (resp) "bind_resp_cmd ?c" | (sm) "sm_cmd ?c" | (smr) "sm_resp_cmd ?c"
    | (other) "\<not> bind_cmd ?c" "\<not> bind_resp_cmd ?c" "\<not> sm_cmd ?c" "\<not> sm_resp_cmd ?c" by blast
  then show ?thesis
  proof cases
    case bind
    then show ?thesis using decode_bind_encodeBody [OF assms(1) bind assms(2), of h] assms(4)
      by (simp add: decodeBody_def c wire_pdu_def)
  next
    case sm
    then have "decodeBody h b = decode_sm h b" by (simp add: decodeBody_def c cmd_classes)
    then show ?thesis using decode_sm_encodeBody [OF assms(1) sm assms(2), of h] sm assms(4)
      by (simp add: cmd_classes wire_pdu_def) (simp add: empty_pdu_def)
  next
    case resp
    then show ?thesis using assms
      by (auto simp: decodeBody_def encodeBody_def wire_pdu_def cmd_classes wf_pdu_def Let_def)
  next
    case smr
    then show ?thesis using assms cmd_classes(4) [OF smr]
      by (auto simp: decodeBody_def encodeBody_def wire_pdu_def wf_pdu_def Let_def)
  next
    case other
    then show ?thesis using assms by (simp add: encodeBody_def)
  qed
qed

lemma word32_at_put32: "word32_at (put32 (unat w) @ r) = w"
  using be32_put [of "unat w"] unat_32 [of w] by (simp add: put32_def)

lemma Encode_pdu_Nil_body:
  assumes "encodeBody p = Ok []"
  shows "wire_pdu p 16 = empty_pdu\<lparr>pdu_CommandLength := 16, pdu_CommandID := pdu_CommandID p,
    pdu_CommandStatus := pdu_CommandStatus p, pdu_SequenceNumber := pdu_SequenceNumber p\<rparr>"
proof -
  have "writeCStr x \<noteq> []" "writeCStr x @ y \<noteq> []" for x y by (simp_all add: writeCStr_def)
  then have "\<not> bind_cmd (pdu_CommandID p) \<and> \<not> bind_resp_cmd (pdu_CommandID p) \<and>
      \<not> sm_cmd (pdu_CommandID p) \<and> \<not> sm_resp_cmd (pdu_CommandID p)"
    using assms by (auto simp: encodeBody_def sm_body_def obind_eq_Ok Let_def split: if_splits)
  then show ?thesis by (simp add: wire_pdu_def)
qed

text \<open>The guard of \<open>Encode\<close> is on the wrapped 32-bit length, so the body is assumed to fit it.\<close>

lemma Decode_Encode_pdu:
  assumes "wf_pdu p" and "Encode_pdu p = Ok bs" and "length bs < 4294967296"
  shows "Decode_pdu (bs @ rest) = Ok (wire_pdu p (length bs), rest)"
    and "16 \<le> length bs" and "length bs \<le> MaxPDULen"
proof -
  obtain body where body: "encodeBody p = Ok body" and
    bs: "bs = put32 (unat (word_of_nat (HeaderLen + length body) :: 32 word)) @ put32 (unat (pdu_CommandID p)) @
      put32 (unat (pdu_CommandStatus p)) @ put32 (unat (pdu_SequenceNumber p)) @ body" and
    small: "unat (word_of_nat (HeaderLen + length body) :: 32 word) \<le> MaxPDULen"
    using assms(2) by (auto simp: Encode_pdu_def Let_def obind_eq_Ok split: if_splits)
  have len: "length bs = HeaderLen + length body" by (simp add: bs)
  have "(HeaderLen + length body) mod 4294967296 = HeaderLen + length body" using assms(3) len by simp
  then have u: "unat (word_of_nat (HeaderLen + length body) :: 32 word) = length bs"
    by (simp only: unat_of_nat len) simp
  show "16 \<le> length bs" "length bs \<le> MaxPDULen" using len small u by simp_all
  let ?h = "empty_pdu\<lparr>pdu_CommandLength := word_of_nat (length bs), pdu_CommandID := pdu_CommandID p,
    pdu_CommandStatus := pdu_CommandStatus p, pdu_SequenceNumber := pdu_SequenceNumber p\<rparr>"
  let ?hdr = "put32 (unat (word_of_nat (length bs) :: 32 word)) @ put32 (unat (pdu_CommandID p)) @
      put32 (unat (pdu_CommandStatus p)) @ put32 (unat (pdu_SequenceNumber p))"
  have "bs @ rest = ?hdr @ (body @ rest)" using len by (simp add: bs)
  then have hdr: "readFull HeaderLen (bs @ rest) = Ok (?hdr, body @ rest)"
    using readFull_append [of ?hdr HeaderLen "body @ rest"] by (simp only:) simp
  have fields: "word32_at ?hdr = word_of_nat (length bs)" "word32_at (drop 4 ?hdr) = pdu_CommandID p"
    "word32_at (drop 8 ?hdr) = pdu_CommandStatus p" "word32_at (drop 12 ?hdr) = pdu_SequenceNumber p"
    using word32_at_put32 [of "word_of_nat (length bs)"] word32_at_put32 [of "pdu_CommandID p"]
      word32_at_put32 [of "pdu_CommandStatus p"] word32_at_put32 [of "pdu_SequenceNumber p" "[]"]
    by simp_all
  obtain hd where hd: "readFull HeaderLen (bs @ rest) = Ok (hd, body @ rest)"
    "word32_at hd = word_of_nat (length bs)" "word32_at (drop 4 hd) = pdu_CommandID p"
    "word32_at (drop 8 hd) = pdu_CommandStatus p" "word32_at (drop 12 hd) = pdu_SequenceNumber p"
    using hdr fields by blast
  have ul: "unat (word_of_nat (length bs) :: 32 word) = length bs" using u len by simp
  show "Decode_pdu (bs @ rest) = Ok (wire_pdu p (length bs), rest)"
  proof (cases "body = []")
    case True
    then have "length bs = 16" using len by simp
    then show ?thesis using True Encode_pdu_Nil_body [of p] body hd
      by (simp add: Decode_pdu_def)
  next
    case False
    then have "decodeBody ?h body = Ok (wire_pdu p (length bs))"
      using decodeBody_encodeBody [OF assms(1) body] by simp
    moreover have "length bs > HeaderLen" "length bs - HeaderLen = length body" "length bs \<le> MaxPDULen"
      using False len small u by simp_all
    ultimately show ?thesis using hd ul by (simp add: Decode_pdu_def)
  qed
qed

lemma word32_at_take [simp]:
  assumes "4 \<le> n"
  shows "word32_at (take n s) = word32_at s"
proof -
  obtain m where "n = Suc (Suc (Suc (Suc m)))"
    using le_Suc_ex [OF assms] by (auto simp: numeral_eq_Suc)
  then show ?thesis by (cases s rule: word32_at.cases) simp_all
qed

text \<open>A decoded PDU takes exactly the octets its length field announces, within the limits.\<close>

lemma Decode_pdu_framing:
  assumes "Decode_pdu s = Ok (p, rest)"
  shows "\<exists>bs. s = bs @ rest \<and> 16 \<le> length bs \<and> length bs \<le> MaxPDULen \<and>
    word32_at s = word_of_nat (length bs)"
proof -
  define len where "len = unat (word32_at s)"
  have s16: "\<not> length s < HeaderLen" and len: "HeaderLen \<le> len" "len \<le> MaxPDULen"
    using assms by (auto simp: Decode_pdu_def readFull_def Let_def len_def split: if_splits)
  have w: "word32_at s = word_of_nat len" by (simp add: len_def)
  have "len \<le> length s \<and> rest = drop len s"
    using assms s16 len
    by (auto simp: Decode_pdu_def readFull_def Let_def len_def [symmetric] obind_eq_Ok add.commute
        split: if_splits)
  then have "s = take len s @ rest" "length (take len s) = len" by simp_all
  then show ?thesis using w len by metis
qed

section \<open>Properties\<close>

text \<open>
  C35: A PDU without embedded NUL characters that \<open>Encode\<close> accepts is read back from the stream
  by \<open>Decode\<close>, whatever follows it and in whatever order its TLVs were written.
\<close>

theorem smpp_pdu_roundtrip:
  assumes "wf_pdu p" and "Encode_pdu p = Ok bs" and "length bs < 4294967296"
  shows "Decode_pdu (bs @ rest) = Ok (wire_pdu p (length bs), rest)"
  by (rule Decode_Encode_pdu [OF assms])

definition pdu_sample :: pdu where
  "pdu_sample = empty_pdu\<lparr>pdu_CommandID := CmdDeliverSM, pdu_SequenceNumber := 7,
     pdu_DestinationAddr := ''12'', pdu_ShortMessage := [1, 2], pdu_TLVs := [(0x0424, [9]), (0x001E, [])]\<rparr>"

theorem smpp_pdu_roundtrip_witness:
  "\<exists>bs. Encode_pdu pdu_sample = Ok bs \<and>
     Decode_pdu (bs @ [0xFF]) = Ok (wire_pdu pdu_sample (length bs), [0xFF])"
proof -
  obtain bs where "Encode_pdu pdu_sample = Ok bs" "length bs = 46"
    by (simp add: pdu_sample_def empty_pdu_def Encode_pdu_def encodeBody_def bind_cmd_def
        bind_resp_cmd_def sm_cmd_def sm_body_def writeCStr_def)
  moreover have "wf_pdu pdu_sample"
    by (simp add: pdu_sample_def empty_pdu_def wf_pdu_def nul_free_def)
  ultimately show ?thesis using smpp_pdu_roundtrip [of pdu_sample bs "[0xFF]"] by auto
qed

text \<open>
  C40: A PDU is cut from the stream at exactly the length its header announces, which is at least
  the header and at most 16 MiB: nothing larger is ever allocated or consumed.
\<close>

theorem smpp_framing_bounds:
  assumes "Decode_pdu s = Ok (p, rest)"
  shows "\<exists>bs. s = bs @ rest \<and> 16 \<le> length bs \<and> length bs \<le> MaxPDULen \<and>
    word32_at s = word_of_nat (length bs)"
  by (rule Decode_pdu_framing [OF assms])

theorem smpp_framing_bounds_witness:
  "\<exists>bs :: bytes. [0, 0, 0, 16, 0, 0, 0, 0x15, 0, 0, 0, 0, 0, 0, 0, 1, 5] = bs @ [5] \<and> 16 \<le> length bs \<and>
     length bs \<le> MaxPDULen \<and>
     word32_at [0, 0, 0, 16, 0, 0, 0, 0x15, 0, 0, 0, 0, 0, 0, 0, 1, 5] = word_of_nat (length bs)"
proof -
  have "Decode_pdu [0, 0, 0, 16, 0, 0, 0, 0x15, 0, 0, 0, 0, 0, 0, 0, 1, 5] =
    Ok (empty_pdu\<lparr>pdu_CommandLength := 16, pdu_CommandID := 0x15, pdu_SequenceNumber := 1\<rparr>, [5])"
    by (simp add: Decode_pdu_def readFull_def be32_def empty_pdu_def)
  then show ?thesis by (rule smpp_framing_bounds)
qed

end
