(* ===== verification/Gsm7.thy ===== *)
theory Gsm7
  imports Msg
begin

text \<open>
  \<open>internal/codec/tpdu/dcs.go\<close>: the data coding scheme, the GSM 7-bit default alphabet with
  its extension table, the packing of septets into octets and UCS-2/UTF-16. The packed octets
  are reasoned about as a stream of bits: \<open>sbit bs q\<close> is bit \<open>q\<close>, least significant first.
\<close>

section \<open>Data coding scheme\<close>

definition charsetBits :: "byte \<Rightarrow> encoding" where
  "charsetBits b =
     (if b AND 3 = 1 then EncodingBinary else if b AND 3 = 2 then EncodingUCS2 else EncodingGSM7)"

definition ParseDCS :: "byte \<Rightarrow> encoding" where
  "ParseDCS dcs =
     (let upper = drop_bit 4 dcs in
      if upper \<le> 3 then charsetBits (drop_bit 2 dcs AND 3)
      else if 4 \<le> upper \<and> upper \<le> 11 then charsetBits (drop_bit 2 dcs AND 3)
      else if upper = 12 then EncodingGSM7
      else if upper = 13 then EncodingGSM7
      else if upper = 14 then EncodingUCS2
      else if upper = 15 then (if dcs AND 4 \<noteq> 0 then EncodingBinary else EncodingGSM7)
      else EncodingGSM7)"

fun BuildDCS :: "encoding \<Rightarrow> byte" where
  "BuildDCS EncodingGSM7 = 0"
| "BuildDCS EncodingBinary = 4"
| "BuildDCS EncodingUCS2 = 8"
| "BuildDCS _ = 0"

lemma ParseDCS_never_UTF8: "ParseDCS dcs \<in> {EncodingGSM7, EncodingUCS2, EncodingBinary}"
  by (simp add: ParseDCS_def charsetBits_def Let_def)

lemma ParseDCS_BuildDCS:
  "e \<in> {EncodingGSM7, EncodingUCS2, EncodingBinary} \<Longrightarrow> ParseDCS (BuildDCS e) = e"
  by (auto simp: ParseDCS_def charsetBits_def)

section \<open>The default alphabet and its extension table\<close>

definition gsm7Basic :: "rune list" where
  "gsm7Basic =
    [64, 163, 36, 165, 232, 233, 249, 236, 242, 199, 10, 216, 248, 13, 197, 229,
     916, 95, 934, 915, 923, 937, 928, 936, 931, 920, 926, 27, 198, 230, 223, 201,
     32, 33, 34, 35, 164, 37, 38, 39, 40, 41, 42, 43, 44, 45, 46, 47,
     48, 49, 50, 51, 52, 53, 54, 55, 56, 57, 58, 59, 60, 61, 62, 63,
     161, 65, 66, 67, 68, 69, 70, 71, 72, 73, 74, 75, 76, 77, 78, 79,
     80, 81, 82, 83, 84, 85, 86, 87, 88, 89, 90, 196, 214, 209, 220, 167,
     191, 97, 98, 99, 100, 101, 102, 103, 104, 105, 106, 107, 108, 109, 110, 111,
     112, 113, 114, 115, 116, 117, 118, 119, 120, 121, 122, 228, 246, 241, 252, 224]"

text \<open>The populated positions of the extension table; every other position holds 0.\<close>

definition gsm7Ext_entries :: "(nat \<times> rune) list" where
  "gsm7Ext_entries = [(10, 12), (20, 94), (40, 123), (41, 125), (47, 92), (60, 91), (61, 126),
     (62, 93), (64, 124), (101, 8364)]"

definition gsm7Ext :: "nat \<Rightarrow> rune" where
  "gsm7Ext i = (case map_of gsm7Ext_entries i of Some r \<Rightarrow> r | None \<Rightarrow> 0)"

text \<open>The reverse maps that \<open>init\<close> builds: a later position overwrites an earlier one.\<close>

definition runeToGSM7 :: "rune \<Rightarrow> byte option" where
  "runeToGSM7 r =
     map_option byte_of
       (map_of (rev (filter (\<lambda>(r', i). r' \<noteq> 0 \<and> r' \<noteq> 27) (zip gsm7Basic [0..<128]))) r)"

definition runeToGSM7Ext :: "rune \<Rightarrow> byte option" where
  "runeToGSM7Ext r =
     map_option byte_of (map_of (rev (map (\<lambda>(i, r'). (r', i)) gsm7Ext_entries)) r)"

text \<open>
  \<open>runeToGSM7['?']\<close> is the replacement of a rune in neither table; the map holds it at 0x3F.
\<close>

fun septets_of :: "rune list \<Rightarrow> bytes" where
  "septets_of [] = []"
| "septets_of (r # rs) =
     (case runeToGSM7 r of
        Some b \<Rightarrow> [b]
      | None \<Rightarrow> (case runeToGSM7Ext r of
          Some b \<Rightarrow> [0x1B, b]
        | None \<Rightarrow> [0x3F])) @ septets_of rs"

text \<open>The rune loop of \<open>DecodeGSM7\<close>.\<close>

fun runes_of_septets :: "bytes \<Rightarrow> rune list" where
  "runes_of_septets [] = []"
| "runes_of_septets (b # bs) =
     (if b = 0x1B then
        (case bs of
           [] \<Rightarrow> []
         | e # bs' \<Rightarrow>
             (if unat e < 128 \<and> gsm7Ext (unat e) \<noteq> 0 then gsm7Ext (unat e) else 32)
               # runes_of_septets bs')
      else if unat b < 128 then gsm7Basic ! unat b # runes_of_septets bs
      else runes_of_septets bs)"

section \<open>Packing septets\<close>

text \<open>
  One round of the packing loops of \<open>packGSM7\<close> and \<open>packGSM7WithUDH\<close>: the septet \<open>s\<close> is
  written at bit \<open>p\<close>. Both shifts act on bytes, so bits shifted past the octet are lost.
\<close>

definition pack_step :: "nat \<Rightarrow> byte \<Rightarrow> bytes \<Rightarrow> bytes" where
  "pack_step p s out =
     (let j = p div 8; k = p mod 8; out1 = out[j := (out ! j) OR push_bit k s]
      in if 1 < k \<and> j + 1 < length out1
         then out1[j + 1 := (out1 ! (j + 1)) OR drop_bit (8 - k) s] else out1)"

fun pack_from :: "nat \<Rightarrow> bytes \<Rightarrow> bytes \<Rightarrow> bytes" where
  "pack_from p [] out = out"
| "pack_from p (s # ss) out = pack_from (p + 7) ss (pack_step p s out)"

definition packGSM7 :: "bytes \<Rightarrow> bytes" where
  "packGSM7 septets =
     (if septets = [] then []
      else pack_from 0 septets (replicate ((length septets * 7 + 7) div 8) 0))"

definition unpack_septet :: "bytes \<Rightarrow> nat \<Rightarrow> byte" where
  "unpack_septet packed p =
     (let j = p div 8; k = p mod 8; s = drop_bit k (packed ! j) AND 0x7F
      in if 1 < k \<and> j + 1 < length packed
         then s OR (push_bit (8 - k) (packed ! (j + 1)) AND 0x7F) else s)"

fun unpack_from :: "bytes \<Rightarrow> nat \<Rightarrow> nat \<Rightarrow> bytes" where
  "unpack_from packed p 0 = []"
| "unpack_from packed p (Suc n) =
     (if length packed \<le> p div 8 then []
      else unpack_septet packed p # unpack_from packed (p + 7) n)"

text \<open>The alignment bits between a header of \<open>n\<close> octets and the first septet of the text.\<close>

definition fill_bits :: "nat \<Rightarrow> nat" where
  "fill_bits n = (7 - (n * 8) mod 7) mod 7"

definition unpackGSM7 :: "bytes \<Rightarrow> nat \<Rightarrow> nat \<Rightarrow> bytes" where
  "unpackGSM7 packed septets udhOctets =
     (let fillBits = (if 0 < udhOctets then fill_bits udhOctets else 0)
      in unpack_from packed (udhOctets * 8 + fillBits) septets)"

definition DecodeGSM7 :: "bytes \<Rightarrow> nat \<Rightarrow> nat \<Rightarrow> string" where
  "DecodeGSM7 packed udlSeptets udhOctets =
     string_of_runes (runes_of_septets (unpackGSM7 packed udlSeptets udhOctets))"

definition EncodeGSM7 :: "string \<Rightarrow> bytes \<times> nat" where
  "EncodeGSM7 text = (let raw = septets_of (runes_of text) in (packGSM7 raw, length raw))"

section \<open>UCS-2\<close>

fun ucs2_words :: "bytes \<Rightarrow> nat list" where
  "ucs2_words (a # b # bs) = be16 a b # ucs2_words bs"
| "ucs2_words _ = []"

fun ucs2_runes :: "nat list \<Rightarrow> rune list" where
  "ucs2_runes [] = []"
| "ucs2_runes (w # ws) =
     (if 0xD800 \<le> w \<and> w \<le> 0xDBFF then
        (case ws of
           lo # ws' \<Rightarrow>
             if 0xDC00 \<le> lo \<and> lo \<le> 0xDFFF
             then (0x10000 + (w - 0xD800) * 1024 + (lo - 0xDC00)) # ucs2_runes ws'
             else 0xFFFD # ucs2_runes ws
         | [] \<Rightarrow> 0xFFFD # ucs2_runes ws)
      else if 0xDC00 \<le> w \<and> w \<le> 0xDFFF then 0xFFFD # ucs2_runes ws
      else w # ucs2_runes ws)"

definition DecodeUCS2 :: "bytes \<Rightarrow> string" where
  "DecodeUCS2 b = string_of_runes (ucs2_runes (ucs2_words b))"

definition ucs2_encode1 :: "rune \<Rightarrow> bytes" where
  "ucs2_encode1 r =
     (if r < 0x10000 then put16 r
      else put16 (0xD800 + (r - 0x10000) div 1024) @ put16 (0xDC00 + (r - 0x10000) mod 1024))"

definition EncodeUCS2 :: "string \<Rightarrow> bytes" where
  "EncodeUCS2 text = concat (map ucs2_encode1 (runes_of text))"

section \<open>The octets as a stream of bits\<close>

definition sbit :: "bytes \<Rightarrow> nat \<Rightarrow> bool" where
  "sbit bs q \<longleftrightarrow> q div 8 < length bs \<and> bit (bs ! (q div 8)) (q mod 8)"

definition septet :: "byte \<Rightarrow> bool" where
  "septet s \<longleftrightarrow> (\<forall>n. bit s n \<longrightarrow> n < 7)"

lemma length_pack_step [simp]: "length (pack_step p s out) = length out"
  by (simp add: pack_step_def Let_def)

lemma length_pack_from [simp]: "length (pack_from p ss out) = length out"
  by (induction p ss out rule: pack_from.induct) simp_all

lemma bit_byte_less: "bit (b :: byte) n \<Longrightarrow> n < 8"
  using bit_imp_le_length [of b n] by simp

lemma sbit_pack_step:
  assumes "septet s" and "p + 7 \<le> 8 * length out"
  shows "sbit (pack_step p s out) q \<longleftrightarrow> sbit out q \<or> (p \<le> q \<and> q < p + 7 \<and> bit s (q - p))"
proof -
  define j k where "j = p div 8" and "k = p mod 8"
  define i b where "i = q div 8" and "b = q mod 8"
  have p: "p = 8 * j + k" "k < 8" and q: "q = 8 * i + b" "b < 8"
    by (simp_all add: j_def k_def i_def b_def)
  have s: "bit s n \<Longrightarrow> n < 7" for n using assms(1) by (simp add: septet_def)
  have j: "j < length out" and j1: "1 < k \<Longrightarrow> j + 1 < length out"
    using assms(2) p by linarith+
  consider "i < j" | "i = j" | "i = j + 1" | "j + 1 < i" by linarith
  then show ?thesis
  proof cases
    case 1
    then have "\<not> p \<le> q" using p q by linarith
    with 1 show ?thesis
      by (simp add: sbit_def pack_step_def Let_def j_def [symmetric] k_def [symmetric]
          i_def [symmetric] b_def [symmetric])
  next
    case 2
    then have e: "p \<le> q \<longleftrightarrow> k \<le> b" "k \<le> b \<Longrightarrow> q - p = b - k" using p q by auto
    have "k \<le> b \<and> bit s (b - k) \<Longrightarrow> q < p + 7" using s [of "b - k"] p q 2 by auto
    with 2 e j q show ?thesis
      by (auto simp: sbit_def pack_step_def Let_def j_def [symmetric] k_def [symmetric]
          i_def [symmetric] b_def [symmetric] bit_simps)
  next
    case 3
    then have e: "p \<le> q" "q - p = b + (8 - k)" using p q by auto
    have "bit s (b + (8 - k)) \<Longrightarrow> 1 < k" using s [of "b + (8 - k)"] p by linarith
    moreover have "bit s (b + (8 - k)) \<Longrightarrow> q < p + 7" using s [of "b + (8 - k)"] e by linarith
    ultimately show ?thesis using 3 e j j1
      by (auto simp: sbit_def pack_step_def Let_def j_def [symmetric] k_def [symmetric]
          i_def [symmetric] b_def [symmetric] bit_simps add.commute)
  next
    case 4
    then have "\<not> q < p + 7" using p q by linarith
    with 4 show ?thesis
      by (simp add: sbit_def pack_step_def Let_def j_def [symmetric] k_def [symmetric]
          i_def [symmetric] b_def [symmetric])
  qed
qed

lemma sbit_pack_from:
  assumes "\<forall>s \<in> set ss. septet s" and "p + 7 * length ss \<le> 8 * length out"
  shows "sbit (pack_from p ss out) q \<longleftrightarrow>
    sbit out q \<or> (p \<le> q \<and> q < p + 7 * length ss \<and> bit (ss ! ((q - p) div 7)) ((q - p) mod 7))"
  using assms
proof (induction p ss out rule: pack_from.induct)
  case (1 p out)
  then show ?case by auto
next
  case (2 p s ss out)
  have step: "sbit (pack_step p s out) q \<longleftrightarrow> sbit out q \<or> (p \<le> q \<and> q < p + 7 \<and> bit s (q - p))"
    using 2 by (intro sbit_pack_step) auto
  have IH: "sbit (pack_from (p + 7) ss (pack_step p s out)) q \<longleftrightarrow> sbit (pack_step p s out) q \<or>
    (p + 7 \<le> q \<and> q < p + 7 + 7 * length ss \<and> bit (ss ! ((q - (p + 7)) div 7)) ((q - (p + 7)) mod 7))"
    using 2 by (intro "2.IH") auto
  show ?case
  proof (cases "p + 7 \<le> q")
    case True
    define d where "d = q - (p + 7)"
    have "q - p = d + 7" using True by (simp add: d_def)
    then have "(q - p) div 7 = Suc (d div 7)" "(q - p) mod 7 = d mod 7" by simp_all
    then have e: "(s # ss) ! ((q - p) div 7) = ss ! (d div 7)" "(q - p) mod 7 = d mod 7" by simp_all
    have m: "p \<le> q \<and> q < p + 7 \<longleftrightarrow> False" "q < p + 7 + 7 * length ss \<longleftrightarrow> q < p + 7 * length (s # ss)"
      using True by auto
    show ?thesis
      using True by (simp only: pack_from.simps IH step e d_def [symmetric] m) (simp add: m)
  next
    case False
    then have "p \<le> q \<Longrightarrow> (q - p) div 7 = 0 \<and> (q - p) mod 7 = q - p" by auto
    with False show ?thesis by (auto simp: IH step)
  qed
qed

lemma div_mod_block: "d < m \<Longrightarrow> (d + j * m) div m = j \<and> (d + j * m) mod m = (d :: nat)"
  by simp

lemma bit_and_7F: "bit (x AND 0x7F :: byte) n \<longleftrightarrow> n < 7 \<and> bit x n"
proof -
  have "(0x7F :: byte) = mask 7" by (simp add: mask_eq_exp_minus_1)
  then show ?thesis by (simp only: bit_and_iff bit_mask_iff possible_bit_word) auto
qed

lemma bit_unpack_septet:
  assumes "p div 8 < length packed"
  shows "bit (unpack_septet packed p) n \<longleftrightarrow> n < 7 \<and> sbit packed (p + n)"
proof -
  define j k where "j = p div 8" and "k = p mod 8"
  have p: "p = 8 * j + k" "k < 8" by (simp_all add: j_def k_def)
  show ?thesis
  proof (cases "k + n < 8")
    case True
    then have "p + n = k + n + j * 8" using p by simp
    with True have "(p + n) div 8 = j" "(p + n) mod 8 = k + n" by (simp_all only:) simp_all
    with assms True show ?thesis
      by (auto simp: unpack_septet_def Let_def j_def [symmetric] k_def [symmetric] sbit_def bit_and_7F
          bit_or_iff bit_drop_bit_eq bit_push_bit_iff dest: bit_byte_less)
  next
    case False
    show ?thesis
    proof (cases "n < 7")
      case True
      define d where "d = k + n - 8"
      have "p + n = d + (j + 1) * 8" "d < 8" using p False True by (simp_all add: d_def)
      then have e: "(p + n) div 8 = j + 1" "(p + n) mod 8 = k + n - 8"
        using div_mod_block [of d 8 "j + 1"] by (simp_all only: d_def [symmetric])
      have "1 < k" using True False by linarith
      moreover have "\<not> bit (packed ! j) (k + n)" using False bit_byte_less by blast
      moreover have "n - (8 - k) = k + n - 8" "8 - k \<le> n" using False p by linarith+
      ultimately show ?thesis using True e p
        by (auto simp: unpack_septet_def Let_def j_def [symmetric] k_def [symmetric] sbit_def bit_and_7F
            bit_or_iff bit_drop_bit_eq bit_push_bit_iff dest: bit_byte_less)
    next
      case False
      then show ?thesis
        by (simp add: unpack_septet_def Let_def bit_and_7F bit_or_iff)
    qed
  qed
qed

text \<open>Septets packed at bit \<open>p\<close> into octets that are clear from there on come back.\<close>

lemma unpack_pack_from:
  assumes "\<forall>s \<in> set ss. septet s" and "p + 7 * length ss \<le> 8 * length out"
    and "\<forall>q \<ge> p. \<not> sbit out q" and "n \<le> length ss"
  shows "unpack_from (pack_from p ss out) (p + 7 * (length ss - n)) n = drop (length ss - n) ss"
  using assms(4)
proof (induction n)
  case 0
  then show ?case by simp
next
  case (Suc n)
  define i where "i = length ss - Suc n"
  have i: "i < length ss" "length ss - n = Suc i" using Suc.prems by (auto simp: i_def)
  let ?out = "pack_from p ss out"
  have lt: "(p + 7 * i) div 8 < length ?out" using assms(2) i by simp
  have "unpack_septet ?out (p + 7 * i) = ss ! i"
  proof (rule bit_eqI)
    fix b
    have "septet (ss ! i)" using assms(1) i by simp
    then have "bit (ss ! i) b \<Longrightarrow> b < 7" by (simp add: septet_def)
    moreover have "b < 7 \<Longrightarrow> (p + 7 * i + b - p) div 7 = i \<and> (p + 7 * i + b - p) mod 7 = b
        \<and> p + 7 * i + b < p + 7 * length ss" using i by simp
    ultimately show "bit (unpack_septet ?out (p + 7 * i)) b = bit (ss ! i) b"
      using assms(3) by (auto simp: bit_unpack_septet [OF lt] sbit_pack_from [OF assms(1,2)])
  qed
  moreover have "drop i ss = ss ! i # drop (Suc i) ss" using i by (simp add: Cons_nth_drop_Suc)
  ultimately show ?case
    using Suc i lt by (simp add: i_def [symmetric] ac_simps)
qed

lemma sbit_replicate_0 [simp]: "\<not> sbit (replicate n 0) q"
  by (auto simp: sbit_def)

lemma unpack_packGSM7:
  assumes "\<forall>s \<in> set ss. septet s"
  shows "unpackGSM7 (packGSM7 ss) (length ss) 0 = ss"
proof (cases "ss = []")
  case False
  have "7 * length ss \<le> 8 * ((length ss * 7 + 7) div 8)" by linarith
  with False show ?thesis
    using unpack_pack_from [of ss 0 "replicate ((length ss * 7 + 7) div 8) 0" "length ss"] assms
    by (simp add: unpackGSM7_def packGSM7_def)
qed (simp add: unpackGSM7_def packGSM7_def)

text \<open>Packing at bit \<open>p\<close> leaves the octets that end at or before \<open>p\<close> alone.\<close>

lemma take_pack_from:
  assumes "\<forall>s \<in> set ss. septet s" and "p + 7 * length ss \<le> 8 * length out" and "8 * n \<le> p"
  shows "take n (pack_from p ss out) = take n out"
proof (rule nth_equalityI)
  fix i
  assume "i < length (take n (pack_from p ss out))"
  then have i: "i < n" "i < length out" by simp_all
  have "bit (pack_from p ss out ! i) b = bit (out ! i) b" for b
  proof (cases "b < 8")
    case True
    have "8 * i + b < p" using i True assms(3) by linarith
    moreover have "(8 * i + b) div 8 = i" "(8 * i + b) mod 8 = b" using True by simp_all
    ultimately show ?thesis
      using sbit_pack_from [OF assms(1,2), of "8 * i + b"] i by (simp add: sbit_def)
  qed (use bit_byte_less in blast)
  then show "take n (pack_from p ss out) ! i = take n out ! i"
    using i by (simp add: bit_eqI)
qed simp

section \<open>Texts of the default alphabet\<close>

definition gsm7_rune :: "rune \<Rightarrow> bool" where
  "gsm7_rune r \<longleftrightarrow> runeToGSM7 r \<noteq> None \<or> runeToGSM7Ext r \<noteq> None"

definition gsm7_text :: "string \<Rightarrow> bool" where
  "gsm7_text t \<longleftrightarrow> string_of_runes (runes_of t) = t \<and> list_all gsm7_rune (runes_of t)"

lemma gsm7Basic_facts: "length gsm7Basic = 128" "gsm7Basic ! 27 = 27"
  by (simp_all add: gsm7Basic_def)

lemma runeToGSM7_Some:
  assumes "runeToGSM7 r = Some b"
  shows "unat b < 128 \<and> b \<noteq> 0x1B \<and> gsm7Basic ! unat b = r"
proof -
  obtain i where b: "b = byte_of i" and "(r, i) \<in> set (zip gsm7Basic [0..<128])" "r \<noteq> 27"
    using assms by (auto simp: runeToGSM7_def dest!: map_of_SomeD)
  then have i: "i < 128" "gsm7Basic ! i = r" "i \<noteq> 27"
    using gsm7Basic_facts by (auto simp: set_zip)
  then have "unat b = i" by (simp add: b)
  moreover have "b \<noteq> 0x1B" using i \<open>unat b = i\<close> by auto
  ultimately show ?thesis using i by simp
qed

lemma runeToGSM7Ext_Some:
  assumes "runeToGSM7Ext r = Some b"
  shows "unat b < 128 \<and> gsm7Ext (unat b) = r \<and> r \<noteq> 0"
proof -
  obtain i where "b = byte_of i" "(i, r) \<in> set gsm7Ext_entries"
    using assms by (auto simp: runeToGSM7Ext_def dest!: map_of_SomeD)
  then show ?thesis by (auto simp: gsm7Ext_entries_def gsm7Ext_def)
qed

lemma gsm7_rune_iff:
  "gsm7_rune r \<longleftrightarrow> (r \<in> set gsm7Basic \<and> r \<notin> {0, 27}) \<or> r \<in> snd ` set gsm7Ext_entries"
proof -
  have "r \<in> set gsm7Basic \<longleftrightarrow> (\<exists>i < 128. gsm7Basic ! i = r)"
    using gsm7Basic_facts(1) by (auto simp: in_set_conv_nth)
  then have "runeToGSM7 r \<noteq> None \<longleftrightarrow> r \<in> set gsm7Basic \<and> r \<notin> {0, 27}"
    by (force simp: runeToGSM7_def map_of_eq_None_iff set_zip gsm7Basic_facts(1))
  moreover have "runeToGSM7Ext r \<noteq> None \<longleftrightarrow> r \<in> snd ` set gsm7Ext_entries"
    by (force simp: runeToGSM7Ext_def map_of_eq_None_iff)
  ultimately show ?thesis by (simp add: gsm7_rune_def)
qed

lemma length_septets_of: "length (septets_of rs) \<le> 2 * length rs"
  by (induction rs) (auto split: option.split)

text \<open>The characters ASCII and the default alphabet share, in either table.\<close>

definition gsm7_ascii :: "char \<Rightarrow> bool" where
  "gsm7_ascii c \<longleftrightarrow> c \<noteq> CHR 0x60 \<and> (c = CHR 0x0A \<or> (32 \<le> (of_char c :: nat) \<and> (of_char c :: nat) < 127))"

lemma gsm7_ascii_less: "gsm7_ascii c \<Longrightarrow> (of_char c :: nat) < 128"
  by (elim gsm7_ascii_def [THEN iffD1, THEN conjunct2, THEN disjE]) simp_all

lemma gsm7_text_ascii:
  assumes "list_all gsm7_ascii t"
  shows "gsm7_text t"
proof -
  have tab: "\<forall>n \<in> set ([10] @ [32..<96] @ [97..<127]). (n \<in> set gsm7Basic \<and> n \<notin> {0, 27})
      \<or> n \<in> snd ` set gsm7Ext_entries"
    by (simp add: gsm7Basic_def gsm7Ext_entries_def upt_rec_numeral)
  have "gsm7_rune (of_char c)" if "c \<in> set t" for c
  proof -
    define n where "n = (of_char c :: nat)"
    have c: "c \<noteq> CHR 0x60" "c = CHR 0x0A \<or> (32 \<le> n \<and> n < 127)"
      using that assms by (auto simp: list_all_iff gsm7_ascii_def n_def)
    have "n \<noteq> of_char (CHR 0x60)" using c(1) unfolding n_def by (simp only: of_char_eq_iff not_False_eq_True)
    moreover have "c = CHR 0x0A \<Longrightarrow> n = 10" by (simp add: n_def)
    ultimately have "n = 10 \<or> 32 \<le> n \<and> n < 96 \<or> 97 \<le> n \<and> n < 127" using c(2) by simp linarith
    then have "of_char c \<in> set ([10] @ [32..<96] @ [97..<127])" unfolding n_def
      by (simp only: set_append set_upt Un_iff atLeastLessThan_iff list.set insert_iff empty_iff) blast
    then show ?thesis using tab gsm7_rune_iff by blast
  qed
  moreover have asc: "\<forall>c \<in> set t. (of_char c :: nat) < 128"
    using assms gsm7_ascii_less by (simp add: list_all_iff)
  ultimately show ?thesis
    using string_of_runes_ascii [OF asc] runes_of_ascii [OF asc]
    by (simp add: gsm7_text_def list_all_iff)
qed

lemma runes_of_septets_of:
  "list_all gsm7_rune rs \<Longrightarrow> runes_of_septets (septets_of rs) = rs"
proof (induction rs)
  case (Cons r rs)
  show ?case
  proof (cases "runeToGSM7 r")
    case None
    then obtain b where "runeToGSM7Ext r = Some b" using Cons by (auto simp: gsm7_rune_def)
    then show ?thesis using Cons None runeToGSM7Ext_Some by auto
  next
    case (Some b)
    then show ?thesis using Cons runeToGSM7_Some by simp
  qed
qed simp

lemma septet_iff: "unat s < 128 \<Longrightarrow> septet s"
proof -
  assume "unat s < 128"
  then have "take_bit 7 (unat s) = unat s" by (simp add: take_bit_nat_eq_self)
  then have "bit (unat s) n \<Longrightarrow> n < 7" for n by (metis bit_take_bit_iff)
  then show ?thesis by (simp add: septet_def bit_unsigned_iff)
qed

lemma septets_of_septet: "\<forall>s \<in> set (septets_of rs). septet s"
  by (induction rs) (auto simp: septet_iff dest: runeToGSM7_Some runeToGSM7Ext_Some split: option.splits)

lemma DecodeGSM7_EncodeGSM7:
  "gsm7_text t \<Longrightarrow> DecodeGSM7 (fst (EncodeGSM7 t)) (snd (EncodeGSM7 t)) 0 = t"
  by (simp add: DecodeGSM7_def EncodeGSM7_def Let_def unpack_packGSM7 septets_of_septet
      runes_of_septets_of gsm7_text_def)

lemma length_EncodeGSM7: "length (fst (EncodeGSM7 t)) = (snd (EncodeGSM7 t) * 7 + 7) div 8"
  by (simp add: EncodeGSM7_def Let_def packGSM7_def)

section \<open>UCS-2 texts\<close>

lemma ucs2_words_put16: "n < 65536 \<Longrightarrow> ucs2_words (put16 n @ bs) = n # ucs2_words bs"
  by (simp add: put16_def be16_put)

lemma ucs2_runes_encode1:
  assumes "valid_rune r"
  shows "ucs2_runes (ucs2_words (ucs2_encode1 r @ bs)) = r # ucs2_runes (ucs2_words bs)"
proof (cases "r < 65536")
  case True
  then show ?thesis using assms
    by (auto simp: ucs2_encode1_def ucs2_words_put16 valid_rune_def)
next
  case False
  define d where "d = r - 65536"
  have d: "r = 65536 + d" "d < 1048576" using False assms by (auto simp: d_def valid_rune_def)
  have "d div 1024 \<le> 1023" "d mod 1024 \<le> 1023" using d by auto
  moreover have "d div 1024 * 1024 + d mod 1024 = d" by simp
  ultimately show ?thesis using False d
    by (simp add: ucs2_encode1_def ucs2_words_put16)
qed

definition utf8_text :: "string \<Rightarrow> bool" where
  "utf8_text t \<longleftrightarrow> string_of_runes (runes_of t) = t \<and> list_all valid_rune (runes_of t)"

lemma ucs2_runes_concat:
  "list_all valid_rune rs \<Longrightarrow> ucs2_runes (ucs2_words (concat (map ucs2_encode1 rs))) = rs"
  by (induction rs) (auto simp: ucs2_runes_encode1)

lemma DecodeUCS2_EncodeUCS2: "utf8_text t \<Longrightarrow> DecodeUCS2 (EncodeUCS2 t) = t"
  by (simp add: DecodeUCS2_def EncodeUCS2_def ucs2_runes_concat utf8_text_def)

section \<open>Properties\<close>

text \<open>
  A text over the GSM 7-bit default alphabet and its extension table survives packing into
  septets and unpacking, whatever its length.
\<close>

theorem gsm7_text_roundtrip:
  assumes "gsm7_text t" and "EncodeGSM7 t = (packed, n)"
  shows "DecodeGSM7 packed n 0 = t \<and> length packed = (n * 7 + 7) div 8"
  using DecodeGSM7_EncodeGSM7 [OF assms(1)] length_EncodeGSM7 [of t] assms(2) by simp_all

theorem gsm7_text_roundtrip_witness:
  "DecodeGSM7 (fst (EncodeGSM7 ''a{b}'')) (snd (EncodeGSM7 ''a{b}'')) 0 = ''a{b}''"
  by (rule gsm7_text_roundtrip [THEN conjunct1]) (simp_all add: gsm7_text_ascii gsm7_ascii_def)

text \<open>A UTF-8 text survives UTF-16 encoding and decoding, surrogate pairs included.\<close>

theorem ucs2_text_roundtrip:
  assumes "utf8_text t"
  shows "DecodeUCS2 (EncodeUCS2 t) = t"
  using DecodeUCS2_EncodeUCS2 [OF assms] .

theorem ucs2_text_roundtrip_witness:
  "DecodeUCS2 (EncodeUCS2 (string_of_runes [72, 8364, 128512])) = string_of_runes [72, 8364, 128512]"
  by (rule ucs2_text_roundtrip) (simp add: utf8_text_def valid_rune_def)

end
