(* ===== verification/Tpdu.thy ===== *)
theory Tpdu
  imports Gsm7
begin

text \<open>
  \<open>internal/codec/tpdu/decode.go\<close> and \<open>encode.go\<close>: the TP layer. Decoding reads a byte slice
  by position, so every index and slice is checked (\<open>at\<close>, \<open>slice\<close>) and a panic of the code is
  a \<open>Panic\<close> here. The clock the code reads (\<open>time.Now\<close>) is an argument.
\<close>

section \<open>Semi-octet digits and addresses\<close>

text \<open>The loop of \<open>encodeBCD\<close>: a character that is no decimal digit ends it with an error.\<close>

fun pack_bcd :: "string \<Rightarrow> bytes" where
  "pack_bcd [] = []"
| "pack_bcd [c] = [byte_of (digit_val c) OR 0xF0]"
| "pack_bcd (c # c' # cs) =
     (byte_of (digit_val c) OR push_bit 4 (byte_of (digit_val c'))) # pack_bcd cs"

definition encodeBCD :: "string \<Rightarrow> bytes outcome" where
  "encodeBCD digits =
     (if list_all is_digit digits then Ok (pack_bcd digits) else Err ''non-digit character in address'')"

fun decodeBCD_from :: "bytes \<Rightarrow> nat \<Rightarrow> string \<Rightarrow> string" where
  "decodeBCD_from [] numDigits digits = digits"
| "decodeBCD_from (b # bs) numDigits digits =
     (let lo = b AND 0x0F; hi = drop_bit 4 b AND 0x0F;
          digits1 = (if lo \<le> 9 then digits @ [digit_char (unat lo)] else digits);
          digits2 = (if hi \<le> 9 \<and> length digits1 < numDigits
                     then digits1 @ [digit_char (unat hi)] else digits1)
      in decodeBCD_from bs numDigits digits2)"

definition decodeBCD :: "bytes \<Rightarrow> nat \<Rightarrow> string" where
  "decodeBCD data numDigits = decodeBCD_from data numDigits []"

definition encodeAlphaAddress :: "string \<Rightarrow> bytes outcome" where
  "encodeAlphaAddress alpha =
     (let (packed, septets) = EncodeGSM7 alpha in Ok (byte_of septets # 0xD0 # packed))"

definition encodeAddress :: "address \<Rightarrow> bytes outcome" where
  "encodeAddress addr =
     (if addr_Alpha addr \<noteq> [] then encodeAlphaAddress (addr_Alpha addr)
      else if addr_MSISDN addr = [] then Ok [0x00, 0x80]
      else
        let dflt = addr_TON addr = 0 \<and> addr_NPI addr = 0;
            ton = (if dflt then 1 else addr_TON addr);
            npi = (if dflt then 1 else addr_NPI addr);
            toa = 0x80 OR push_bit 4 ton OR npi
        in obind (encodeBCD (addr_MSISDN addr))
             (\<lambda>bcd. Ok (byte_of (length (addr_MSISDN addr)) # toa # bcd)))"

definition decodeAddress :: "bytes \<Rightarrow> nat \<Rightarrow> (address \<times> nat) outcome" where
  "decodeAddress data pos =
     (if length data \<le> pos then Err ''address out of bounds''
      else obind (at data pos) (\<lambda>nd.
        let numDigits = unat nd in
        if length data \<le> pos + 1 then Err ''address TOA out of bounds''
        else obind (at data (pos + 1)) (\<lambda>toa.
          let numOctets = (numDigits + 1) div 2 in
          if length data < pos + 2 + numOctets then Err ''address digits out of bounds''
          else
            let ton = drop_bit 4 toa AND 0x07; npi = toa AND 0x0F in
            obind (slice data (pos + 2) (pos + 2 + numOctets)) (\<lambda>digits.
              let msisdn =
                    (if ton = 5 then DecodeGSM7 digits ((numDigits * 4) div 7) 0
                     else if ton = 1 then trim_plus (decodeBCD digits numDigits)
                     else decodeBCD digits numDigits)
              in Ok (empty_address
                       \<lparr>addr_MSISDN := (if ton = 5 then [] else msisdn),
                        addr_Alpha := (if ton = 5 then msisdn else []),
                        addr_TON := ton, addr_NPI := npi\<rparr>,
                     2 + numOctets)))))"

section \<open>Validity period and time stamps\<close>

text \<open>Go's integer division truncates towards zero.\<close>

definition quot :: "int \<Rightarrow> int \<Rightarrow> int" where
  "quot a b = (if a < 0 then - ((- a) div b) else a div b)"

definition decodeVPRelative :: "byte \<Rightarrow> duration" where
  "decodeVPRelative vp =
     (if vp \<le> 143 then int (unat (vp + 1)) * 5 * Minute
      else if vp \<le> 167 then 12 * Hour + int (unat (vp - 143)) * 30 * Minute
      else if vp \<le> 196 then int (unat (vp - 166)) * 24 * Hour
      else int (unat (vp - 192)) * 7 * 24 * Hour)"

text \<open>\<open>int(d.Minutes())\<close>: the whole minutes of the duration, rounded towards zero.\<close>

definition encodeVPRelative :: "duration \<Rightarrow> byte" where
  "encodeVPRelative d =
     (let mins = quot d Minute in
      if mins \<le> 720 then word_of_int (max 0 (quot mins 5 - 1))
      else if mins \<le> 1440 then word_of_int (min 167 (143 + quot (mins - 720) 30))
      else if mins \<le> 30240 then word_of_int (min 196 (166 + quot mins 1440))
      else word_of_int (min 255 (192 + quot mins 10080)))"

definition bcdByte :: "byte \<Rightarrow> byte" where
  "bcdByte b = (b AND 0x0F) * 10 + (drop_bit 4 b AND 0x0F)"

definition encodeBCDByte :: "byte \<Rightarrow> byte" where
  "encodeBCDByte v = push_bit 4 (v mod 10) OR (v div 10)"

fun decodeSCTS :: "bytes \<Rightarrow> gotime option" where
  "decodeSCTS (b0 # b1 # b2 # b3 # b4 # b5 # tz # _) =
     (let quarters = int (unat (bcdByte (tz AND 0xF7)));
          minutes = (if tz AND 0x08 \<noteq> 0 then - (quarters * 15) else quarters * 15)
      in Some (go_date (int (unat (bcdByte b0)) + 2000) (unat (bcdByte b1)) (unat (bcdByte b2))
                (unat (bcdByte b3)) (unat (bcdByte b4)) (unat (bcdByte b5)) (minutes * 60)))"
| "decodeSCTS _ = None"

definition encodeSCTS :: "gotime \<Rightarrow> bytes" where
  "encodeSCTS t =
     (let quarters = quot (t_offset t) 900;
          tz = encodeBCDByte (word_of_int (if quarters < 0 then - quarters else quarters))
      in [encodeBCDByte (word_of_int (t_year t - 100 * quot (t_year t) 100)),
          encodeBCDByte (byte_of (t_month t)), encodeBCDByte (byte_of (t_day t)),
          encodeBCDByte (byte_of (t_hour t)), encodeBCDByte (byte_of (t_minute t)),
          encodeBCDByte (byte_of (t_second t)), if quarters < 0 then tz OR 0x08 else tz])"

text \<open>\<open>time.Until\<close> saturates at the range of a 64-bit duration; the zero time is far in the past.\<close>

definition time_until :: "gotime \<Rightarrow> gotime option \<Rightarrow> duration" where
  "time_until now t =
     (case t of
        None \<Rightarrow> - (2 ^ 63)
      | Some u \<Rightarrow> max (- (2 ^ 63)) (min (2 ^ 63 - 1) (unix_nanos u - unix_nanos now)))"

definition decodeVP :: "gotime \<Rightarrow> bytes \<Rightarrow> nat \<Rightarrow> byte \<Rightarrow> (duration option \<times> nat) outcome" where
  "decodeVP now data pos vpf =
     (if vpf = 0 then Ok (None, 0)
      else if vpf = 2 then
        (if length data \<le> pos then Err ''VP relative out of bounds''
         else obind (at data pos) (\<lambda>b. Ok (Some (decodeVPRelative b), 1)))
      else if vpf = 3 then
        (if length data < pos + 7 then Err ''VP absolute out of bounds''
         else obind (slice data pos (pos + 7)) (\<lambda>b.
           Ok (Some (max 0 (time_until now (decodeSCTS b))), 7)))
      else if vpf = 1 then
        (if length data < pos + 7 then Err ''VP enhanced out of bounds''
         else obind (at data (pos + 1)) (\<lambda>b. Ok (Some (decodeVPRelative b), 7)))
      else Err ''unknown VPF'')"

section \<open>User data\<close>

text \<open>The walk over the information elements of a header: a later concatenation element wins.\<close>

function udh_elements :: "bytes \<Rightarrow> concat_info option \<Rightarrow> concat_info option" where
  "udh_elements ie acc =
     (case ie of
        iei # iel # rest \<Rightarrow>
          (if length rest < unat iel then acc
           else
             let val = take (unat iel) rest;
                 acc' = (if iei = 0x00 \<and> unat iel = 3 then
                           Some \<lparr>cc_Ref = ucast (val ! 0), cc_Total = val ! 1, cc_Sequence = val ! 2\<rparr>
                         else if iei = 0x08 \<and> unat iel = 4 then
                           Some \<lparr>cc_Ref = push_bit 8 (ucast (val ! 0)) OR ucast (val ! 1),
                                 cc_Total = val ! 2, cc_Sequence = val ! 3\<rparr>
                         else acc)
             in udh_elements (drop (unat iel) rest) acc')
      | _ \<Rightarrow> acc)"
  by pat_completeness auto
termination by (relation "measure (\<lambda>(ie, acc). length ie)") auto

declare udh_elements.simps [simp del]

definition decodeUDH :: "bytes \<Rightarrow> udh outcome" where
  "decodeUDH raw =
     (case raw of
        [] \<Rightarrow> Ok \<lparr>udh_Raw = raw, udh_Concat = None\<rparr>
      | udhl # ie \<Rightarrow>
          if length ie < unat udhl then Err ''UDH IEI data truncated''
          else obind (slice ie 0 (unat udhl)) (\<lambda>ie.
            Ok \<lparr>udh_Raw = raw, udh_Concat = udh_elements ie None\<rparr>))"

text \<open>The payload part of \<open>decodeUD\<close>: \<open>pos\<close> is the first octet of the user data.\<close>

definition decodeUD_payload :: "bytes \<Rightarrow> nat \<Rightarrow> nat \<Rightarrow> nat \<Rightarrow> message \<Rightarrow> message outcome" where
  "decodeUD_payload data pos udl udhOctets msg =
     (case msg_Encoding msg of
        EncodingGSM7 \<Rightarrow>
          (let requiredOctets = (udl * 7 + 7) div 8; udhSeptets = (udhOctets * 8 + 6) div 7 in
           if int requiredOctets > int (length data) - int pos then Err ''GSM7 user data truncated''
           else if udhSeptets > udl then Err ''UDH exceeds UDL''
           else obind (slice data pos (pos + requiredOctets)) (\<lambda>ud.
             Ok (msg\<lparr>msg_Text := DecodeGSM7 ud (udl - udhSeptets) udhOctets\<rparr>)))
      | EncodingUCS2 \<Rightarrow>
          (if int udl > int (length data) - int pos then Err ''UCS2 user data truncated''
           else if udhOctets > udl then Err ''UDH length exceeds UDL''
           else obind (slice data (pos + udhOctets) (pos + udl)) (\<lambda>ud.
             Ok (msg\<lparr>msg_Text := DecodeUCS2 ud\<rparr>)))
      | EncodingBinary \<Rightarrow>
          (if int udl > int (length data) - int pos then Err ''binary user data truncated''
           else if udhOctets > udl then Err ''UDH length exceeds UDL''
           else obind (slice data (pos + udhOctets) (pos + udl)) (\<lambda>ud.
             Ok (msg\<lparr>msg_Binary := ud\<rparr>)))
      | _ \<Rightarrow>
          (if int udl > int (length data) - int pos then Err ''user data truncated''
           else if udhOctets > udl then Err ''UDH length exceeds UDL''
           else obind (slice data (pos + udhOctets) (pos + udl)) (\<lambda>ud.
             Ok (msg\<lparr>msg_Text := string_of_bytes ud\<rparr>))))"

definition decodeUD :: "bytes \<Rightarrow> nat \<Rightarrow> byte \<Rightarrow> bool \<Rightarrow> message outcome" where
  "decodeUD data pos dcs hasUDHI =
     (if length data \<le> pos then Err ''UDL out of bounds''
      else obind (at data pos) (\<lambda>udl.
        let pos1 = pos + 1;
            msg = empty_message\<lparr>msg_DCS := dcs, msg_Encoding := ParseDCS dcs\<rparr>
        in if hasUDHI \<and> pos1 < length data then
             obind (at data pos1) (\<lambda>b.
               let udhLen = unat b in
               if length data < pos1 + 1 + udhLen then Err ''UDH extends beyond UD''
               else obind (slice data pos1 (pos1 + 1 + udhLen)) (\<lambda>raw.
                 obind (wrap_err ''decode UDH'' (decodeUDH raw)) (\<lambda>udh.
                   decodeUD_payload data pos1 (unat udl) (1 + udhLen)
                     (msg\<lparr>msg_UDH := Some udh, msg_Concat := udh_Concat udh\<rparr>))))
           else decodeUD_payload data pos1 (unat udl) 0 msg))"

section \<open>The three message types\<close>

definition decodeSubmit :: "gotime \<Rightarrow> bytes \<Rightarrow> message outcome" where
  "decodeSubmit now data =
     obind (at data 0) (\<lambda>b0.
       let hasUDHI = (b0 AND 0x40 \<noteq> 0); srr = (b0 AND 0x20 \<noteq> 0); vpf = drop_bit 3 b0 AND 0x03 in
       if length data < 2 then Err ''submit too short''
       else obind (at data 1) (\<lambda>tpmr.
         obind (wrap_err ''decode TP-DA'' (decodeAddress data 2)) (\<lambda>(da, n).
           let pos = 2 + n in
           if length data < pos + 2 then Err ''submit truncated before PID/DCS''
           else obind (at data (pos + 1)) (\<lambda>dcs.
             obind (wrap_err ''decode TP-VP'' (decodeVP now data (pos + 2) vpf)) (\<lambda>(vp, n).
               obind (wrap_err ''decode TP-UD'' (decodeUD data (pos + 2 + n) dcs hasUDHI)) (\<lambda>msg.
                 Ok (msg\<lparr>msg_TPMR := tpmr, msg_TPSRRequired := srr, msg_ValidityPeriod := vp,
                        msg_Destination := da, msg_DCS := dcs, msg_Timestamp := Some now\<rparr>)))))))"

definition decodeDeliver :: "bytes \<Rightarrow> message outcome" where
  "decodeDeliver data =
     obind (at data 0) (\<lambda>b0.
       let hasUDHI = (b0 AND 0x40 \<noteq> 0); srr = (b0 AND 0x20 \<noteq> 0) in
       obind (wrap_err ''decode TP-OA'' (decodeAddress data 1)) (\<lambda>(oa, n).
         let pos = 1 + n in
         if length data < pos + 2 then Err ''deliver truncated before PID/DCS''
         else obind (at data (pos + 1)) (\<lambda>dcs.
           let pos = pos + 2 in
           if length data < pos + 7 then Err ''deliver truncated before SCTS''
           else obind (slice data pos (pos + 7)) (\<lambda>scts.
             obind (wrap_err ''decode TP-UD'' (decodeUD data (pos + 7) dcs hasUDHI)) (\<lambda>msg.
               Ok (msg\<lparr>msg_Source := oa, msg_DCS := dcs, msg_TPSRRequired := srr,
                      msg_Timestamp := decodeSCTS scts\<rparr>))))))"

definition decodeStatusReport :: "gotime \<Rightarrow> bytes \<Rightarrow> message outcome" where
  "decodeStatusReport now data =
     (if length data < 14 then Err ''status report too short''
      else obind (at data 1) (\<lambda>tpmr.
        obind (wrap_err ''decode TP-RA'' (decodeAddress data 2)) (\<lambda>(ra, n).
          let pos = 2 + n in
          if length data < pos + 15 then Err ''status report truncated''
          else obind (at data (pos + 14)) (\<lambda>tpST.
            Ok (empty_message\<lparr>msg_TPMR := tpmr, msg_Source := ra, msg_Timestamp := Some now\<rparr>)))))"

definition Decode :: "gotime \<Rightarrow> bytes \<Rightarrow> message outcome" where
  "Decode now data =
     (if length data < 2 then Err ''tpdu too short''
      else obind (at data 0) (\<lambda>b0.
        let mti = b0 AND 0x03 in
        if mti = 1 then decodeSubmit now data
        else if mti = 0 then decodeDeliver data
        else if mti = 2 then decodeStatusReport now data
        else Err ''unsupported TP-MTI''))"

section \<open>Encoding\<close>

fun buildConcatUDH :: "concat_info \<Rightarrow> bytes" where
  "buildConcatUDH c =
     [0x06, 0x08, 0x04, ucast (drop_bit 8 (cc_Ref c)), ucast (cc_Ref c), cc_Total c, cc_Sequence c]"

definition encodeUDH :: "message \<Rightarrow> bytes" where
  "encodeUDH msg =
     (case msg_UDH msg of
        Some u \<Rightarrow> if udh_Raw u \<noteq> [] then udh_Raw u
                  else (case msg_Concat msg of Some c \<Rightarrow> buildConcatUDH c | None \<Rightarrow> [])
      | None \<Rightarrow> (case msg_Concat msg of Some c \<Rightarrow> buildConcatUDH c | None \<Rightarrow> []))"

definition packGSM7WithUDH :: "bytes \<Rightarrow> string \<Rightarrow> bytes \<times> nat" where
  "packGSM7WithUDH udh text =
     (let udhLen = length udh; fillBits = fill_bits udhLen;
          udhSeptets = (udhLen * 8 + fillBits) div 7;
          textSeptets = septets_of (runes_of text);
          totalBits = udhLen * 8 + fillBits + length textSeptets * 7;
          out = udh @ replicate ((totalBits + 7) div 8 - udhLen) 0
      in (pack_from (udhLen * 8 + fillBits) textSeptets out, udhSeptets + length textSeptets))"

definition encodeUD :: "message \<Rightarrow> bytes \<Rightarrow> (bytes \<times> nat) outcome" where
  "encodeUD msg udh =
     (case msg_Encoding msg of
        EncodingGSM7 \<Rightarrow>
          Ok (if udh \<noteq> [] then packGSM7WithUDH udh (msg_Text msg) else EncodeGSM7 (msg_Text msg))
      | EncodingUCS2 \<Rightarrow>
          (let ud = udh @ EncodeUCS2 (msg_Text msg) in Ok (ud, length ud))
      | EncodingBinary \<Rightarrow> (let ud = udh @ msg_Binary msg in Ok (ud, length ud))
      | _ \<Rightarrow> Err ''unsupported encoding'')"

definition dcsForEgress :: "message \<Rightarrow> byte" where
  "dcsForEgress msg = (if msg_DCS msg \<noteq> 0 then msg_DCS msg else BuildDCS (msg_Encoding msg))"

definition EncodeDeliver :: "gotime \<Rightarrow> message \<Rightarrow> bytes outcome" where
  "EncodeDeliver now msg =
     obind (wrap_err ''encode TP-OA'' (encodeAddress (msg_Source msg))) (\<lambda>oa.
       let udh = encodeUDH msg in
       obind (wrap_err ''encode TP-UD'' (encodeUD msg udh)) (\<lambda>(ud, udl).
         let b0 = 0x04 OR (if msg_TPSRRequired msg then 0x20 else 0) OR (if udh \<noteq> [] then 0x40 else 0);
             ts = (case msg_Timestamp msg of Some t \<Rightarrow> t | None \<Rightarrow> now)
         in Ok (b0 # oa @ [0x00, dcsForEgress msg] @ encodeSCTS ts @ [byte_of udl] @ ud)))"

definition EncodeSubmit :: "message \<Rightarrow> bytes outcome" where
  "EncodeSubmit msg =
     obind (wrap_err ''encode TP-DA'' (encodeAddress (msg_Destination msg))) (\<lambda>da.
       let udh = encodeUDH msg in
       obind (wrap_err ''encode TP-UD'' (encodeUD msg udh)) (\<lambda>(ud, udl).
         let b0 = 0x01 OR (if msg_TPSRRequired msg then 0x20 else 0) OR (if udh \<noteq> [] then 0x40 else 0)
                    OR (if msg_ValidityPeriod msg \<noteq> None then push_bit 3 2 else 0);
             vp = (case msg_ValidityPeriod msg of Some d \<Rightarrow> [encodeVPRelative d] | None \<Rightarrow> [])
         in Ok (b0 # msg_TPMR msg # da @ [0x00, dcsForEgress msg] @ vp @ [byte_of udl] @ ud)))"

section \<open>No input makes a decoder panic\<close>

lemma no_panic_Ok [simp]: "no_panic (Ok x)" "no_panic (Err e)"
  by simp_all

lemma no_panic_decodeAddress: "no_panic (decodeAddress data pos)"
  by (simp add: decodeAddress_def Let_def)

lemma no_panic_decodeVP: "no_panic (decodeVP now data pos vpf)"
  by (simp add: decodeVP_def)

lemma no_panic_decodeUDH: "no_panic (decodeUDH raw)"
  by (simp add: decodeUDH_def split: list.split)

lemma no_panic_decodeUD_payload:
  "pos \<le> length data \<Longrightarrow> no_panic (decodeUD_payload data pos udl udhOctets msg)"
  by (auto simp: decodeUD_payload_def Let_def split: encoding.split)

lemma no_panic_decodeUD: "no_panic (decodeUD data pos dcs hasUDHI)"
  by (auto simp: decodeUD_def Let_def no_panic_decodeUDH no_panic_decodeUD_payload
      intro!: no_panic_obind)

lemma no_panic_decodeSubmit: "data \<noteq> [] \<Longrightarrow> no_panic (decodeSubmit now data)"
  by (auto simp: decodeSubmit_def Let_def no_panic_decodeUD no_panic_decodeAddress no_panic_decodeVP
      intro!: no_panic_obind)

lemma no_panic_decodeDeliver: "data \<noteq> [] \<Longrightarrow> no_panic (decodeDeliver data)"
  by (auto simp: decodeDeliver_def Let_def no_panic_decodeUD no_panic_decodeAddress
      intro!: no_panic_obind)

lemma no_panic_decodeStatusReport: "no_panic (decodeStatusReport now data)"
  by (auto simp: decodeStatusReport_def Let_def no_panic_decodeAddress intro!: no_panic_obind)

section \<open>Digits, addresses, periods and time stamps come back\<close>

lemma nibble_pairs:
  "\<forall>d \<in> set [0..<10]. \<forall>e \<in> set [0..<16].
     (byte_of d OR push_bit 4 (byte_of e)) AND 0x0F = byte_of d \<and>
     drop_bit 4 (byte_of d OR push_bit 4 (byte_of e)) AND 0x0F = byte_of e"
  by code_simp

lemma nibbles:
  assumes "d \<le> 9" and "e \<le> 15"
  shows "(byte_of d OR push_bit 4 (byte_of e)) AND 0x0F = byte_of d"
    and "drop_bit 4 (byte_of d OR push_bit 4 (byte_of e)) AND 0x0F = byte_of e"
  using nibble_pairs assms by auto

lemma nibbles_F:
  assumes "d \<le> 9"
  shows "(byte_of d OR 0xF0) AND 0x0F = byte_of d" and "drop_bit 4 (byte_of d OR 0xF0) AND 0x0F = 15"
proof -
  have "push_bit 4 (byte_of 15) = 0xF0" "byte_of 15 = 15" by (simp_all add: byte_of_def)
  then show "(byte_of d OR 0xF0) AND 0x0F = byte_of d" "drop_bit 4 (byte_of d OR 0xF0) AND 0x0F = 15"
    using nibbles [of d 15] assms by simp_all
qed

lemma byte_of_le_9: "d \<le> 9 \<Longrightarrow> byte_of d \<le> 9"
  by (simp add: word_le_nat_alt)

lemma decodeBCD_from_pack:
  "list_all is_digit ds \<Longrightarrow> n = length acc + length ds \<Longrightarrow>
     decodeBCD_from (pack_bcd ds) n acc = acc @ ds"
proof (induction ds arbitrary: acc rule: pack_bcd.induct)
  case (2 c)
  then have "digit_val c \<le> 9" by (auto dest: digit_val_le)
  with 2 show ?case
    by (simp add: nibbles_F byte_of_le_9 Let_def word_le_nat_alt)
next
  case (3 c c' cs)
  then have d: "digit_val c \<le> 9" "digit_val c' \<le> 9" by (auto dest: digit_val_le)
  obtain b where b: "b = byte_of (digit_val c) OR push_bit 4 (byte_of (digit_val c'))"
    "b AND 0x0F = byte_of (digit_val c)" "drop_bit 4 b AND 0x0F = byte_of (digit_val c')"
    using nibbles d by simp
  have "decodeBCD_from (pack_bcd cs) n (acc @ [c, c']) = (acc @ [c, c']) @ cs"
    using 3 by (intro "3.IH") auto
  then show ?case
    using 3 d by (simp add: b(1) [symmetric]) (simp add: b(2,3) Let_def word_le_nat_alt)
qed simp

lemma length_pack_bcd [simp]: "length (pack_bcd ds) = (length ds + 1) div 2"
  by (induction ds rule: pack_bcd.induct) auto

lemma decodeBCD_encodeBCD: "encodeBCD ds = Ok b \<Longrightarrow> decodeBCD b (length ds) = ds"
  by (auto simp: encodeBCD_def decodeBCD_def decodeBCD_from_pack split: if_splits)

text \<open>The address field an address is read back from, and the address that comes back.\<close>

definition bcd_address :: "address \<Rightarrow> bool" where
  "bcd_address a \<longleftrightarrow> addr_Alpha a = [] \<and> list_all is_digit (addr_MSISDN a)
     \<and> length (addr_MSISDN a) < 256 \<and> addr_TON a < 8 \<and> addr_TON a \<noteq> 5 \<and> addr_NPI a < 16"

definition wire_address :: "address \<Rightarrow> address" where
  "wire_address a =
     (if addr_MSISDN a = [] then empty_address
      else empty_address\<lparr>addr_MSISDN := addr_MSISDN a,
        addr_TON := (if addr_TON a = 0 \<and> addr_NPI a = 0 then 1 else addr_TON a),
        addr_NPI := (if addr_TON a = 0 \<and> addr_NPI a = 0 then 1 else addr_NPI a)\<rparr>)"

lemma toa_pairs:
  "\<forall>t \<in> set [0..<8]. \<forall>n \<in> set [0..<16].
     drop_bit 4 (0x80 OR push_bit 4 (byte_of t) OR byte_of n) AND 0x07 = byte_of t \<and>
     (0x80 OR push_bit 4 (byte_of t) OR byte_of n) AND 0x0F = byte_of n"
  by code_simp

lemma toa_fields:
  assumes "t < 8" and "n < 16"
  shows "drop_bit 4 (0x80 OR push_bit 4 t OR n) AND 0x07 = (t :: byte)"
    and "(0x80 OR push_bit 4 t OR n) AND 0x0F = (n :: byte)"
proof -
  have "unat t \<in> set [0..<8]" "unat n \<in> set [0..<16]" using assms by (simp_all add: word_less_nat_alt)
  with toa_pairs show "drop_bit 4 (0x80 OR push_bit 4 t OR n) AND 0x07 = t"
    "(0x80 OR push_bit 4 t OR n) AND 0x0F = n" by fastforce+
qed

lemma decodeAddress_encodeAddress:
  assumes "bcd_address a" and "encodeAddress a = Ok enc"
  shows "decodeAddress (pre @ enc @ post) (length pre) = Ok (wire_address a, length enc)"
proof (cases "addr_MSISDN a = []")
  case True
  then have "enc = [0x00, 0x80]" using assms by (simp add: bcd_address_def encodeAddress_def)
  with True show ?thesis
    by (simp add: decodeAddress_def nth_append Let_def wire_address_def decodeBCD_def empty_address_def)
next
  case False
  define t n where "t = (if addr_TON a = 0 \<and> addr_NPI a = 0 then 1 else addr_TON a)" and
    "n = (if addr_TON a = 0 \<and> addr_NPI a = 0 then 1 else addr_NPI a)"
  have tn: "t < 8" "t \<noteq> 5" "n < 16" using assms by (auto simp: t_def n_def bcd_address_def)
  let ?ds = "addr_MSISDN a"
  have ds: "list_all is_digit ?ds" "length ?ds < 256" using assms by (auto simp: bcd_address_def)
  have enc: "enc = byte_of (length ?ds) # (0x80 OR push_bit 4 t OR n) # pack_bcd ?ds"
    using assms False ds
    by (simp add: bcd_address_def encodeAddress_def encodeBCD_def t_def n_def Let_def)
  then obtain toa where enc: "enc = byte_of (length ?ds) # toa # pack_bcd ?ds"
    and toa: "drop_bit 4 toa AND 0x07 = t" "toa AND 0x0F = n"
    using toa_fields [OF tn(1,3)] by blast
  have "trim_plus ?ds = ?ds" using ds by (simp add: trim_plus_digits list_all_iff)
  with enc tn ds False toa show ?thesis
    by (simp add: decodeAddress_def nth_append Let_def wire_address_def decodeBCD_def
        decodeBCD_from_pack t_def [symmetric] n_def [symmetric]) (simp add: empty_address_def)
qed

text \<open>Validity periods: every octet but 188--195 is a fixed point of decoding and encoding.\<close>

definition vp_minutes :: "nat \<Rightarrow> nat" where
  "vp_minutes v =
     (if v \<le> 143 then 5 * (v + 1) else if v \<le> 167 then 720 + 30 * (v - 143)
      else if v \<le> 196 then 1440 * (v - 166) else 10080 * (v - 192))"

lemma decodeVPRelative_minutes: "decodeVPRelative vp = int (vp_minutes (unat vp)) * Minute"
proof -
  have "unat (vp + 1) = unat vp + 1" if "unat vp \<le> 143"
    using that by (intro unat_add_lem [THEN iffD1, THEN trans]) auto
  moreover have "unat (vp - k) = unat vp - unat k" if "unat k \<le> unat vp" for k :: byte
    using that by (intro unat_sub) (simp add: word_le_nat_alt)
  moreover obtain v where "unat vp = v" "uint vp = int v" by simp
  ultimately show ?thesis
    by (simp add: decodeVPRelative_def vp_minutes_def word_le_nat_alt of_nat_diff)
qed

lemma quot_of_nat: "quot (int a) (int b) = int (a div b)"
  by (simp add: quot_def zdiv_int)

lemma encode_decodeVPRelative:
  "encodeVPRelative (decodeVPRelative vp) =
     (if vp < 188 \<or> 195 < vp then vp else if vp < 194 then 195 else 196)"
proof -
  define v where "v = unat vp"
  have v: "v < 256" and vp: "word_of_nat v = vp" by (simp_all add: v_def)
  have q: "quot (m * Minute) Minute = m" for m by (simp add: quot_def minus_mult_left del: mult_minus_left)
  have cmp: "vp < 188 \<longleftrightarrow> v < 188" "195 < vp \<longleftrightarrow> 195 < v" "vp < 194 \<longleftrightarrow> v < 194"
    by (simp_all add: v_def word_less_nat_alt)
  have weeks: "188 \<le> v \<Longrightarrow> v < 194 \<Longrightarrow> (1440 * int v - 239040) div 10080 = 3"
    "194 \<le> v \<Longrightarrow> v \<le> 195 \<Longrightarrow> (1440 * int v - 239040) div 10080 = 4" by linarith+
  have lit: "v = 167 \<Longrightarrow> vp = 167" "v = 196 \<Longrightarrow> vp = 196" "v = 255 \<Longrightarrow> vp = 255"
    using vp by auto
  consider "v \<le> 143" | "143 < v" "v \<le> 167" | "167 < v" "v < 188" | "188 \<le> v" "v < 194"
    | "194 \<le> v" "v \<le> 195" | "v = 196" | "196 < v" by linarith
  then show ?thesis
    by cases (use v in \<open>auto simp: encodeVPRelative_def decodeVPRelative_minutes q vp_minutes_def
      Let_def v_def [symmetric] cmp quot_def vp min_def max_def of_nat_diff weeks lit\<close>)
qed

lemma bcdByte_table: "\<forall>v \<in> set [0..<100]. unat (bcdByte (encodeBCDByte (byte_of v))) = v"
  by code_simp

lemma bcdByte_encodeBCDByte: "v < 100 \<Longrightarrow> unat (bcdByte (encodeBCDByte (byte_of v))) = v"
  using bcdByte_table by simp

lemma tz_table:
  "\<forall>v \<in> set [0..<80].
     unat (bcdByte (encodeBCDByte (byte_of v) AND 0xF7)) = v \<and>
     encodeBCDByte (byte_of v) AND 0x08 = 0 \<and>
     unat (bcdByte ((encodeBCDByte (byte_of v) OR 0x08) AND 0xF7)) = v \<and>
     (encodeBCDByte (byte_of v) OR 0x08) AND 0x08 \<noteq> 0"
  by code_simp

text \<open>The time stamps a time-stamp field can hold: this century, whole seconds, quarter hours.\<close>

definition scts_time :: "gotime \<Rightarrow> bool" where
  "scts_time t \<longleftrightarrow> valid_civil t \<and> 2000 \<le> t_year t \<and> t_year t < 2100 \<and> t_nsec t = 0
     \<and> t_offset t mod 900 = 0 \<and> \<bar>t_offset t\<bar> < 72000"

lemma length_encodeSCTS [simp]: "length (encodeSCTS t) = 7"
  by (simp add: encodeSCTS_def Let_def)

lemma decodeSCTS_encodeSCTS:
  assumes "scts_time t"
  shows "decodeSCTS (encodeSCTS t) = Some t"
proof -
  define q where "q = quot (t_offset t) 900"
  obtain z where z: "t_offset t = 900 * z"
    using assms by (auto simp: scts_time_def)
  then have off: "t_offset t = 900 * q" "\<bar>q\<bar> < 80"
    using assms by (auto simp: q_def quot_def scts_time_def)
  define y where "y = nat (t_year t - 2000)"
  have "t_year t div 100 = 20" using assms by (auto simp: scts_time_def)
  then have y: "word_of_int (t_year t - 100 * quot (t_year t) 100) = byte_of y"
    "int y + 2000 = t_year t" "y < 100"
    using assms by (auto simp: quot_def scts_time_def y_def byte_of_def nat_diff_distrib)
  have civ: "t_month t < 100" "t_day t < 100" "t_hour t < 100" "t_minute t < 100" "t_second t < 100"
    using assms by (auto simp: scts_time_def valid_civil_def days_in_month_def split: if_splits)
  have goal: "int (unat (bcdByte (encodeBCDByte (byte_of y)))) + 2000 = t_year t"
    using y by (simp add: bcdByte_encodeBCDByte)
  define m where "m = nat \<bar>q\<bar>"
  have m: "m \<in> set [0..<80]" "word_of_int (if q < 0 then - q else q) = byte_of m"
    using off by (auto simp: m_def byte_of_def)
  define tz where "tz = (if q < 0 then encodeBCDByte (byte_of m) OR 0x08 else encodeBCDByte (byte_of m))"
  have "unat (bcdByte (tz AND 0xF7)) = m" "tz AND 0x08 \<noteq> 0 \<longleftrightarrow> q < 0"
    using bspec [OF tz_table m(1)] by (simp_all only: tz_def split: if_splits) auto
  moreover have "t_offset t = (if q < 0 then - (int m * 15) else int m * 15) * 60"
    using off by (simp add: m_def)
  moreover have "encodeSCTS t = [encodeBCDByte (byte_of y), encodeBCDByte (byte_of (t_month t)),
      encodeBCDByte (byte_of (t_day t)), encodeBCDByte (byte_of (t_hour t)),
      encodeBCDByte (byte_of (t_minute t)), encodeBCDByte (byte_of (t_second t)), tz]"
    by (simp only: encodeSCTS_def Let_def q_def [symmetric] m(2) y(1) tz_def)
  ultimately show ?thesis
    using go_date_valid [of t] assms goal
    by (cases "q < 0") (simp_all add: Let_def bcdByte_encodeBCDByte civ scts_time_def)
qed

text \<open>The concatenation header.\<close>

lemma concat_ref_bytes: "push_bit 8 (ucast (ucast (drop_bit 8 r) :: byte)) OR ucast (ucast r :: byte) = (r :: 16 word)"
  by (rule bit_word_eqI) (auto simp: bit_simps)

lemma decodeUDH_buildConcatUDH:
  "decodeUDH (buildConcatUDH c) = Ok \<lparr>udh_Raw = buildConcatUDH c, udh_Concat = Some c\<rparr>"
  by (simp add: decodeUDH_def udh_elements.simps concat_ref_bytes)

section \<open>User data and whole PDUs come back\<close>

lemma sbit_append_zeros: "8 * length h \<le> q \<Longrightarrow> \<not> sbit (h @ replicate n 0) q"
  by (auto simp: sbit_def nth_append)

lemma fill_bits_septets:
  "(n * 8 + fill_bits n) div 7 = (n * 8 + 6) div 7 \<and> (n * 8 + fill_bits n) mod 7 = 0"
proof -
  define q r where "q = n * 8 div 7" and "r = n * 8 mod 7"
  have "n * 8 = 7 * q + r" "r < 7" by (simp_all add: q_def r_def)
  moreover have "fill_bits n = (7 - r) mod 7" by (simp add: fill_bits_def r_def)
  ultimately show ?thesis by (cases "r = 0") auto
qed

lemma packGSM7WithUDH:
  assumes "gsm7_text t" and "h \<noteq> []" and "packGSM7WithUDH h t = (ud, udl)"
  shows "length ud = (udl * 7 + 7) div 8" and "take (length h) ud = h"
    and "(length h * 8 + 6) div 7 \<le> udl"
    and "DecodeGSM7 ud (udl - (length h * 8 + 6) div 7) (length h) = t"
proof -
  define ss p where "ss = septets_of (runes_of t)" and "p = length h * 8 + fill_bits (length h)"
  define out where "out = h @ replicate ((p + length ss * 7 + 7) div 8 - length h) 0"
  have p: "p = 7 * ((length h * 8 + 6) div 7)" "8 * length h \<le> p"
    using fill_bits_septets [of "length h"] mult_div_mod_eq [of 7 p] by (simp_all add: p_def)
  have ud: "ud = pack_from p ss out" and udl: "udl = (length h * 8 + 6) div 7 + length ss"
    using assms(3) fill_bits_septets [of "length h"]
    by (auto simp: packGSM7WithUDH_def Let_def out_def ss_def p_def ac_simps)
  have len: "length out = (p + length ss * 7 + 7) div 8"
    using p(2) by (simp add: out_def)
  have sept: "\<forall>s \<in> set ss. septet s" by (simp add: ss_def septets_of_septet)
  have fit: "p + 7 * length ss \<le> 8 * length out" unfolding len by linarith
  have "p + length ss * 7 = udl * 7" using p(1) udl by simp
  then show "length ud = (udl * 7 + 7) div 8" by (simp add: ud len)
  show "(length h * 8 + 6) div 7 \<le> udl" by (simp add: udl)
  show "take (length h) ud = h"
    using take_pack_from [OF sept fit p(2)] by (simp add: ud) (simp add: out_def)
  have "\<forall>q \<ge> p. \<not> sbit out q"
    using p(2) sbit_append_zeros by (auto simp: out_def)
  then have "unpackGSM7 ud (length ss) (length h) = ss"
    using unpack_pack_from [OF sept fit _ order_refl] assms(2)
    by (simp add: unpackGSM7_def ud p_def [symmetric])
  then show "DecodeGSM7 ud (udl - (length h * 8 + 6) div 7) (length h) = t"
    using assms(1) by (simp add: DecodeGSM7_def udl ss_def runes_of_septets_of gsm7_text_def)
qed

text \<open>
  The user data a PDU carries unchanged: a header whose length octet is right, a text of the
  alphabet (or octets), and a length the UDL octet can hold.
\<close>

definition wf_udh :: "message \<Rightarrow> bool" where
  "wf_udh m \<longleftrightarrow> (case encodeUDH m of [] \<Rightarrow> msg_UDH m = None \<and> msg_Concat m = None
     | l # ie \<Rightarrow> length ie = unat l)"

definition wf_payload :: "message \<Rightarrow> bool" where
  "wf_payload m \<longleftrightarrow> ParseDCS (dcsForEgress m) = msg_Encoding m \<and>
     (case msg_Encoding m of
        EncodingGSM7 \<Rightarrow> gsm7_text (msg_Text m) \<and> msg_Binary m = []
      | EncodingUCS2 \<Rightarrow> utf8_text (msg_Text m) \<and> msg_Binary m = []
      | EncodingBinary \<Rightarrow> msg_Text m = []
      | _ \<Rightarrow> False) \<and>
     (case encodeUD m (encodeUDH m) of Ok (ud, udl) \<Rightarrow> udl < 256 | _ \<Rightarrow> False)"

definition wire_udh :: "message \<Rightarrow> udh option" where
  "wire_udh m = (case encodeUDH m of [] \<Rightarrow> None
     | l # ie \<Rightarrow> Some \<lparr>udh_Raw = l # ie, udh_Concat = udh_elements ie None\<rparr>)"

definition wire_payload :: "message \<Rightarrow> message" where
  "wire_payload m = empty_message\<lparr>msg_DCS := dcsForEgress m, msg_Encoding := msg_Encoding m,
     msg_Text := msg_Text m, msg_Binary := msg_Binary m, msg_UDH := wire_udh m,
     msg_Concat := (case wire_udh m of None \<Rightarrow> None | Some u \<Rightarrow> udh_Concat u)\<rparr>"

lemma encodeUD_facts:
  assumes "wf_payload m" and "encodeUD m h = Ok (ud, udl)"
  shows "take (length h) ud = h"
    and "msg_Encoding m = EncodingGSM7 \<Longrightarrow> length ud = (udl * 7 + 7) div 8"
    and "msg_Encoding m \<noteq> EncodingGSM7 \<Longrightarrow> length ud = udl"
    and "length h \<le> length ud"
proof -
  have g: "length h \<le> length ud \<and> take (length h) ud = h" if "h \<noteq> []" "gsm7_text (msg_Text m)"
    "packGSM7WithUDH h (msg_Text m) = (ud, udl)"
  proof -
    have "take (length h) ud = h" using packGSM7WithUDH(2) that by blast
    then show ?thesis by (metis length_take min.absorb_iff2 nle_le)
  qed
  have all: "take (length h) ud = h \<and> length h \<le> length ud \<and>
    (msg_Encoding m = EncodingGSM7 \<longrightarrow> length ud = (udl * 7 + 7) div 8) \<and>
    (msg_Encoding m \<noteq> EncodingGSM7 \<longrightarrow> length ud = udl)"
  proof (cases "msg_Encoding m = EncodingGSM7")
    case True
    then have t: "gsm7_text (msg_Text m)" using assms(1) by (simp add: wf_payload_def)
    show ?thesis
    proof (cases "h = []")
      case h: True
      then have "EncodeGSM7 (msg_Text m) = (ud, udl)" using assms(2) True by (simp add: encodeUD_def)
      then show ?thesis using h True length_EncodeGSM7 [of "msg_Text m"] by simp
    next
      case h: False
      then have "packGSM7WithUDH h (msg_Text m) = (ud, udl)" using assms(2) True by (simp add: encodeUD_def)
      then show ?thesis using h t True g packGSM7WithUDH(1) by simp
    qed
  qed (use assms(2) in \<open>auto simp: encodeUD_def Let_def split: encoding.splits\<close>)
  then show "take (length h) ud = h" "length h \<le> length ud"
    "msg_Encoding m = EncodingGSM7 \<Longrightarrow> length ud = (udl * 7 + 7) div 8"
    "msg_Encoding m \<noteq> EncodingGSM7 \<Longrightarrow> length ud = udl" by simp_all
qed

lemma decodeUD_payload_encodeUD:
  assumes "wf_payload m" and "encodeUD m h = Ok (ud, udl)"
    and "msg_Encoding b = msg_Encoding m" and "msg_Text b = []" and "msg_Binary b = []"
  shows "decodeUD_payload (pre @ ud) (length pre) udl (length h) b =
    Ok (b\<lparr>msg_Text := msg_Text m, msg_Binary := msg_Binary m\<rparr>)"
proof (cases "msg_Encoding m")
  case EncodingGSM7
  then have t: "gsm7_text (msg_Text m)" "msg_Binary m = []" using assms(1) by (simp_all add: wf_payload_def)
  have len: "length ud = (udl * 7 + 7) div 8" using encodeUD_facts(2) assms(1,2) EncodingGSM7 by blast
  have "(length h * 8 + 6) div 7 \<le> udl \<and>
      DecodeGSM7 ud (udl - (length h * 8 + 6) div 7) (length h) = msg_Text m"
  proof (cases "h = []")
    case True
    then have "EncodeGSM7 (msg_Text m) = (ud, udl)" using assms(2) EncodingGSM7 by (simp add: encodeUD_def)
    then show ?thesis using DecodeGSM7_EncodeGSM7 [OF t(1)] True by simp
  next
    case False
    then have "packGSM7WithUDH h (msg_Text m) = (ud, udl)"
      using assms(2) EncodingGSM7 by (simp add: encodeUD_def)
    then show ?thesis using packGSM7WithUDH [OF t(1) False] by simp
  qed
  then show ?thesis using EncodingGSM7 assms t len by (simp add: decodeUD_payload_def Let_def)
next
  case EncodingUCS2
  then show ?thesis using assms
    by (auto simp: decodeUD_payload_def encodeUD_def wf_payload_def Let_def DecodeUCS2_EncodeUCS2)
next
  case EncodingBinary
  then show ?thesis using assms
    by (auto simp: decodeUD_payload_def encodeUD_def wf_payload_def Let_def)
qed (use assms in \<open>auto simp: wf_payload_def\<close>)

lemma decodeUD_encodeUD:
  assumes "wf_payload m" and "wf_udh m" and "encodeUD m (encodeUDH m) = Ok (ud, udl)"
  shows "decodeUD (pre @ byte_of udl # ud) (length pre) (dcsForEgress m) (encodeUDH m \<noteq> []) =
    Ok (wire_payload m)"
proof -
  have udl: "udl < 256" and enc: "ParseDCS (dcsForEgress m) = msg_Encoding m"
    using assms(1,3) by (auto simp: wf_payload_def)
  let ?pre = "pre @ [byte_of udl]"
  show ?thesis
  proof (cases "encodeUDH m")
    case Nil
    have "decodeUD (pre @ byte_of udl # ud) (length pre) (dcsForEgress m) False =
        decodeUD_payload (?pre @ ud) (length ?pre) udl 0
          (empty_message\<lparr>msg_DCS := dcsForEgress m, msg_Encoding := msg_Encoding m\<rparr>)"
      using udl by (simp add: decodeUD_def nth_append enc Let_def)
    also have "\<dots> = Ok (wire_payload m)"
      using decodeUD_payload_encodeUD [OF assms(1,3), of _ ?pre] Nil
      by (simp add: empty_message_def wire_payload_def wire_udh_def)
    finally show ?thesis by (simp add: Nil)
  next
    case (Cons l ie)
    have ie: "length ie = unat l" using assms(2) Cons by (simp add: wf_udh_def)
    obtain rest where ud: "ud = l # ie @ rest"
      using encodeUD_facts(1) [OF assms(1,3)] Cons append_take_drop_id [of "length (encodeUDH m)" ud]
      by (metis append_Cons)
    have w: "wire_udh m = Some \<lparr>udh_Raw = l # ie, udh_Concat = udh_elements ie None\<rparr>"
      by (simp add: wire_udh_def Cons)
    have "decodeUD (pre @ byte_of udl # ud) (length pre) (dcsForEgress m) True =
        decodeUD_payload (?pre @ ud) (length ?pre) udl (length (encodeUDH m))
          (empty_message\<lparr>msg_DCS := dcsForEgress m, msg_Encoding := msg_Encoding m,
            msg_UDH := wire_udh m, msg_Concat := udh_elements ie None\<rparr>)"
      using udl by (simp add: decodeUD_def nth_append enc Let_def ud ie [symmetric] decodeUDH_def w Cons)
    also have "\<dots> = Ok (wire_payload m)"
      using decodeUD_payload_encodeUD [OF assms(1,3), of _ ?pre] w
      by (simp add: empty_message_def wire_payload_def)
    finally show ?thesis by (simp add: Cons)
  qed
qed

text \<open>The flag bits of the first octet.\<close>

definition flag_octet :: "byte \<Rightarrow> bool \<Rightarrow> bool \<Rightarrow> byte \<Rightarrow> byte" where
  "flag_octet mti sr udhi vpf =
     mti OR (if sr then 0x20 else 0) OR (if udhi then 0x40 else 0) OR vpf"

lemma flag_octet_fields:
  assumes "(mti, vpf) \<in> {(0x04, 0), (0x01, 0), (0x01, 16)}"
  shows "flag_octet mti sr udhi vpf AND 0x03 = mti AND 0x03"
    and "flag_octet mti sr udhi vpf AND 0x40 \<noteq> 0 \<longleftrightarrow> udhi"
    and "flag_octet mti sr udhi vpf AND 0x20 \<noteq> 0 \<longleftrightarrow> sr"
    and "mti = 1 \<Longrightarrow> drop_bit 3 (flag_octet mti sr udhi vpf) AND 0x03 = (if vpf = 0 then 0 else 2)"
  using assms by (cases sr; cases udhi; auto simp: flag_octet_def)+

text \<open>What a DELIVER and a SUBMIT say of a message.\<close>

definition wire_deliver :: "message \<Rightarrow> gotime \<Rightarrow> message" where
  "wire_deliver m ts = (wire_payload m)\<lparr>msg_Source := wire_address (msg_Source m),
     msg_TPSRRequired := msg_TPSRRequired m, msg_Timestamp := Some ts\<rparr>"

definition wire_submit :: "message \<Rightarrow> gotime \<Rightarrow> message" where
  "wire_submit m now = (wire_payload m)\<lparr>msg_Destination := wire_address (msg_Destination m),
     msg_TPMR := msg_TPMR m, msg_TPSRRequired := msg_TPSRRequired m,
     msg_ValidityPeriod := map_option (\<lambda>d. decodeVPRelative (encodeVPRelative d)) (msg_ValidityPeriod m),
     msg_Timestamp := Some now\<rparr>"

lemma encodeAddress_bcd: "bcd_address a \<Longrightarrow> \<exists>enc. encodeAddress a = Ok enc"
  by (simp add: bcd_address_def encodeAddress_def encodeBCD_def Let_def)

lemma encodeUD_wf: "wf_payload m \<Longrightarrow> \<exists>ud udl. encodeUD m h = Ok (ud, udl)"
  by (auto simp: wf_payload_def encodeUD_def Let_def split: encoding.splits)

lemma Decode_EncodeDeliver:
  assumes "bcd_address (msg_Source m)" and "wf_payload m" and "wf_udh m"
    and "msg_Timestamp m = Some t" and "scts_time t"
  obtains pdu where "EncodeDeliver now m = Ok pdu" and "Decode now' pdu = Ok (wire_deliver m t)"
proof -
  obtain oa where oa: "encodeAddress (msg_Source m) = Ok oa" using encodeAddress_bcd assms(1) by blast
  obtain ud udl where ud: "encodeUD m (encodeUDH m) = Ok (ud, udl)" using encodeUD_wf assms(2) by blast
  define b0 where "b0 = flag_octet 0x04 (msg_TPSRRequired m) (encodeUDH m \<noteq> []) 0"
  have f: "b0 AND 0x03 = 0" "b0 AND 0x40 \<noteq> 0 \<longleftrightarrow> encodeUDH m \<noteq> []"
    "b0 AND 0x20 \<noteq> 0 \<longleftrightarrow> msg_TPSRRequired m"
    using flag_octet_fields [of 4 0] by (simp_all add: b0_def)
  define dcs where "dcs = dcsForEgress m"
  let ?tail = "[0x00, dcs] @ encodeSCTS t @ byte_of udl # ud"
  let ?pdu = "b0 # oa @ ?tail"
  have e: "EncodeDeliver now m = Ok ?pdu"
    using assms by (simp add: EncodeDeliver_def oa ud b0_def flag_octet_def Let_def dcs_def)
  have a: "decodeAddress ?pdu 1 = Ok (wire_address (msg_Source m), length oa)"
    using decodeAddress_encodeAddress [OF assms(1) oa, of "[b0]" ?tail] by simp
  have u: "decodeUD ?pdu (10 + length oa) dcs (encodeUDH m \<noteq> []) = Ok (wire_payload m)"
    using decodeUD_encodeUD [OF assms(2,3) ud, of "b0 # oa @ [0x00, dcs] @ encodeSCTS t"]
    by (simp add: dcs_def add.commute)
  have "Decode now' ?pdu = decodeDeliver ?pdu" by (simp add: Decode_def f Let_def)
  also have "\<dots> = Ok (wire_deliver m t)"
    using a u f by (simp add: decodeDeliver_def Let_def nth_append decodeSCTS_encodeSCTS assms(5)
        wire_deliver_def numeral_eq_Suc) (simp add: wire_payload_def dcs_def)
  finally show thesis using e that by blast
qed

lemma Decode_EncodeSubmit:
  assumes "bcd_address (msg_Destination m)" and "wf_payload m" and "wf_udh m"
  obtains pdu where "EncodeSubmit m = Ok pdu" and "Decode now pdu = Ok (wire_submit m now)"
proof -
  obtain da where da: "encodeAddress (msg_Destination m) = Ok da" using encodeAddress_bcd assms(1) by blast
  obtain ud udl where ud: "encodeUD m (encodeUDH m) = Ok (ud, udl)" using encodeUD_wf assms(2) by blast
  define vpf :: byte where "vpf = (if msg_ValidityPeriod m = None then 0 else 16)"
  define b0 where "b0 = flag_octet 0x01 (msg_TPSRRequired m) (encodeUDH m \<noteq> []) vpf"
  have f: "b0 AND 0x03 = 1" "b0 AND 0x40 \<noteq> 0 \<longleftrightarrow> encodeUDH m \<noteq> []"
    "b0 AND 0x20 \<noteq> 0 \<longleftrightarrow> msg_TPSRRequired m"
    "drop_bit 3 b0 AND 0x03 = (if msg_ValidityPeriod m = None then 0 else 2)"
    using flag_octet_fields [of 1 vpf] by (simp_all add: b0_def vpf_def)
  define dcs where "dcs = dcsForEgress m"
  define vp where "vp = (case msg_ValidityPeriod m of Some d \<Rightarrow> [encodeVPRelative d] | None \<Rightarrow> [])"
  let ?tail = "[0x00, dcs] @ vp @ byte_of udl # ud"
  let ?pdu = "b0 # msg_TPMR m # da @ ?tail"
  have e: "EncodeSubmit m = Ok ?pdu"
    using assms by (simp add: EncodeSubmit_def da ud b0_def flag_octet_def Let_def dcs_def vpf_def vp_def)
  have a: "decodeAddress ?pdu 2 = Ok (wire_address (msg_Destination m), length da)"
    using decodeAddress_encodeAddress [OF assms(1) da, of "[b0, msg_TPMR m]" ?tail] by (simp add: numeral_2_eq_2)
  have v: "decodeVP now ?pdu (4 + length da) (drop_bit 3 b0 AND 0x03) =
      Ok (map_option (\<lambda>d. decodeVPRelative (encodeVPRelative d)) (msg_ValidityPeriod m), length vp)"
  proof (cases "msg_ValidityPeriod m")
    case (Some d)
    then have "?pdu = (b0 # msg_TPMR m # da @ [0x00, dcs]) @ encodeVPRelative d # byte_of udl # ud"
      by (simp add: vp_def)
    moreover have "4 + length da = length (b0 # msg_TPMR m # da @ [0x00, dcs])" by simp
    ultimately have "?pdu ! (4 + length da) = encodeVPRelative d" by (simp only: nth_append_length)
    then show ?thesis using Some by (simp only: f) (simp add: decodeVP_def vp_def)
  qed (simp only: f, simp add: decodeVP_def vp_def)
  have u: "decodeUD ?pdu (4 + length da + length vp) dcs (encodeUDH m \<noteq> []) = Ok (wire_payload m)"
    using decodeUD_encodeUD [OF assms(2,3) ud, of "b0 # msg_TPMR m # da @ [0x00, dcs] @ vp"]
    by (simp add: dcs_def numeral_eq_Suc)
  have "Decode now ?pdu = decodeSubmit now ?pdu" by (simp add: Decode_def f Let_def)
  also have "\<dots> = Ok (wire_submit m now)"
    using a u f(2,3) v by (simp add: decodeSubmit_def Let_def nth_append wire_submit_def numeral_eq_Suc)
      (simp add: wire_payload_def dcs_def)
  finally show thesis using e that by blast
qed

lemma no_panic_Decode: "no_panic (Decode now data)"
  by (simp add: Decode_def Let_def no_panic_decodeSubmit no_panic_decodeDeliver
      no_panic_decodeStatusReport length_greater_0_conv [symmetric] del: length_greater_0_conv)

section \<open>Properties\<close>

text \<open>C39: No octet string makes the TP decoder panic: every index and slice is guarded.\<close>

theorem tpdu_decode_no_panic: "no_panic (Decode now data)"
  by (rule no_panic_Decode)


definition sample_message :: message where
  "sample_message = empty_message\<lparr>msg_Source := empty_address\<lparr>addr_MSISDN := ''3342012832''\<rparr>,
     msg_Destination := empty_address\<lparr>addr_MSISDN := ''12345'', addr_TON := 2, addr_NPI := 1\<rparr>,
     msg_Text := ''Hi {x}'', msg_Concat := Some \<lparr>cc_Ref = 513, cc_Total = 2, cc_Sequence = 1\<rparr>,
     msg_ValidityPeriod := Some (3 * Hour), msg_Timestamp := Some (go_date 2024 2 29 23 59 58 (- 18000))\<rparr>"

lemma sample_message_wf:
  "bcd_address (msg_Source sample_message)" "bcd_address (msg_Destination sample_message)"
  "wf_payload sample_message" "wf_udh sample_message"
  "msg_Timestamp sample_message = Some (go_date 2024 2 29 23 59 58 (- 18000))"
  "scts_time (go_date 2024 2 29 23 59 58 (- 18000))"
proof -
  have "length (septets_of (runes_of ''Hi {x}'')) \<le> 14"
    using length_septets_of [of "runes_of ''Hi {x}''"] by (simp add: runes_of_ascii)
  moreover have "gsm7_text ''Hi {x}''" by (simp add: gsm7_text_ascii gsm7_ascii_def)
  ultimately show "wf_payload sample_message"
    by (simp add: sample_message_def empty_message_def wf_payload_def dcsForEgress_def ParseDCS_def
        charsetBits_def encodeUD_def encodeUDH_def packGSM7WithUDH_def fill_bits_def Let_def)
qed (simp_all add: sample_message_def empty_message_def empty_address_def bcd_address_def is_digit_def
    wf_udh_def encodeUDH_def scts_time_def valid_civil_def go_date_def norm_day.simps
    days_in_month_def is_leap_def)


text \<open>
  Decoding what \<open>EncodeSubmit\<close> made of a message gives back its destination, reference,
  flags, header, payload and, up to the granularity of the relative format, its validity period.
\<close>

theorem tpdu_submit_roundtrip:
  assumes "bcd_address (msg_Destination m)" and "wf_payload m" and "wf_udh m"
  shows "obind (EncodeSubmit m) (Decode now) = Ok (wire_submit m now)"
  using Decode_EncodeSubmit [OF assms] by (metis obind.simps(1))

theorem tpdu_submit_roundtrip_witness:
  "obind (EncodeSubmit sample_message) (Decode (go_date 2025 1 1 0 0 0 0))
     = Ok (wire_submit sample_message (go_date 2025 1 1 0 0 0 0))"
  using tpdu_submit_roundtrip [OF sample_message_wf(2-4)] .

text \<open>
  Re-encoding a relative validity period is the identity on every octet except 188 to 195,
  the periods of 22 to 29 days: the encoder leaves the day range at 30240 minutes (21 days) and
  sends them as 195 (29 days) or 196 (30 days).
\<close>

theorem tpdu_vp_reencode:
  "encodeVPRelative (decodeVPRelative vp) =
     (if vp < 188 \<or> 195 < vp then vp else if vp < 194 then 195 else 196)"
  by (rule encode_decodeVPRelative)

text \<open>The header built for a concatenated part is parsed back to the part it was built for.\<close>

theorem tpdu_concat_header_roundtrip:
  "decodeUDH (buildConcatUDH c) = Ok \<lparr>udh_Raw = buildConcatUDH c, udh_Concat = Some c\<rparr>"
  by (rule decodeUDH_buildConcatUDH)

end
