(* ===== verification/SmppCodec.thy ===== *)
theory SmppCodec
  imports SmppPdu Tpdu
begin

text \<open>
  \<open>internal/codec/smpp/decode.go\<close> and \<open>encode.go\<close>: the conversion between SMPP PDUs and the
  canonical message, delivery receipts and SMPP validity periods.
\<close>

section \<open>Decoding\<close>

definition smpp_decodeAddress :: "string \<Rightarrow> byte \<Rightarrow> byte \<Rightarrow> address" where
  "smpp_decodeAddress addr ton npi =
     (let a = empty_address\<lparr>addr_TON := ton, addr_NPI := npi\<rparr> in
      if ton = 5 then a\<lparr>addr_Alpha := addr\<rparr> else a\<lparr>addr_MSISDN := trim_plus addr\<rparr>)"

definition smpp_decodeUDH :: "bytes \<Rightarrow> udh outcome" where
  "smpp_decodeUDH raw =
     (case raw of
        [] \<Rightarrow> Ok \<lparr>udh_Raw = raw, udh_Concat = None\<rparr>
      | udhl # ie \<Rightarrow>
          if length ie < unat udhl then Err ''UDH truncated''
          else Ok \<lparr>udh_Raw = raw, udh_Concat = udh_elements (take (unat udhl) ie) None\<rparr>)"

text \<open>\<open>s[i] - '0'\<close> is a byte, so it wraps; the sum is a 64-bit duration.\<close>

definition parse_field :: "string \<Rightarrow> nat \<Rightarrow> int" where
  "parse_field s i =
     int ((of_char (s ! i) + 208) mod 256) * 10 + int ((of_char (s ! (i + 1)) + 208) mod 256)"

definition parseDuration :: "string \<Rightarrow> duration" where
  "parseDuration s =
     (if length s < 12 then 0
      else sint (word_of_int
        (parse_field s 0 * 365 * 24 * Hour + parse_field s 2 * 30 * 24 * Hour + parse_field s 4 * 24 * Hour
         + parse_field s 6 * Hour + parse_field s 8 * Minute + parse_field s 10 * Second) :: 64 word))"

definition parseVP :: "string \<Rightarrow> duration option" where
  "parseVP vp =
     (if vp \<noteq> [] \<and> last vp = CHR ''R'' \<and> 13 \<le> length vp then
        (let d = parseDuration (take 12 vp) in if 0 < d then Some d else None)
      else None)"

text \<open>The concatenation of the SAR parameters, consulted when the header has none.\<close>

definition sar_concat :: "pdu \<Rightarrow> concat_info option" where
  "sar_concat p =
     (case TLV p TLVSARMsgRefNum of
        Some (r0 # r1 # _) \<Rightarrow>
          (case (TLV p TLVSARTotalSegments, TLV p TLVSARSegmentSeqnum) of
             (Some (t # _), Some (s # _)) \<Rightarrow>
               Some \<lparr>cc_Ref = push_bit 8 (ucast r0) OR ucast r1, cc_Total = t, cc_Sequence = s\<rparr>
           | _ \<Rightarrow> None)
      | _ \<Rightarrow> None)"

definition sm_gsm7_septets :: "nat \<Rightarrow> nat \<Rightarrow> nat" where
  "sm_gsm7_septets len udhOctets =
     (if 0 < udhOctets then (len * 8 - udhOctets * 8 - fill_bits udhOctets) div 7
      else (len * 8 - udhOctets * 8) div 7)"

definition decodeSM_payload :: "bytes \<Rightarrow> nat \<Rightarrow> message \<Rightarrow> message outcome" where
  "decodeSM_payload payload udhOctets msg =
     (case msg_Encoding msg of
        EncodingGSM7 \<Rightarrow>
          Ok (msg\<lparr>msg_Text := DecodeGSM7 payload (sm_gsm7_septets (length payload) udhOctets) udhOctets\<rparr>)
      | EncodingUCS2 \<Rightarrow>
          (if length payload < udhOctets then Err ''smppcodec: UDH exceeds payload''
           else obind (slice payload udhOctets (length payload)) (\<lambda>b. Ok (msg\<lparr>msg_Text := DecodeUCS2 b\<rparr>)))
      | EncodingBinary \<Rightarrow>
          (if length payload < udhOctets then Err ''smppcodec: UDH exceeds payload''
           else obind (slice payload udhOctets (length payload)) (\<lambda>b. Ok (msg\<lparr>msg_Binary := b\<rparr>)))
      | _ \<Rightarrow>
          (if length payload < udhOctets then Err ''smppcodec: UDH exceeds payload''
           else obind (slice payload udhOctets (length payload)) (\<lambda>b.
             Ok (msg\<lparr>msg_Text := string_of_bytes b\<rparr>))))"

definition DecodeSM :: "gotime \<Rightarrow> pdu \<Rightarrow> message outcome" where
  "DecodeSM now p =
     (if pdu_CommandID p \<noteq> CmdSubmitSM \<and> pdu_CommandID p \<noteq> CmdDeliverSM
      then Err ''smppcodec: expected submit_sm or deliver_sm''
      else
        let msg = empty_message\<lparr>msg_Timestamp := Some now, msg_DCS := pdu_DataCoding p,
                    msg_Encoding := ParseDCS (pdu_DataCoding p),
                    msg_Source := smpp_decodeAddress (pdu_SourceAddr p) (pdu_SourceAddrTON p) (pdu_SourceAddrNPI p),
                    msg_Destination :=
                      smpp_decodeAddress (pdu_DestinationAddr p) (pdu_DestAddrTON p) (pdu_DestAddrNPI p)\<rparr>;
            payload = Payload p
        in obind
             (if pdu_ESMClass p AND 0x40 \<noteq> 0 \<and> payload \<noteq> [] then
                obind (at payload 0) (\<lambda>b.
                  let udhl = unat b in
                  if length payload < 1 + udhl then Err ''smppcodec: UDHI payload truncated''
                  else obind (slice payload 0 (1 + udhl)) (\<lambda>raw.
                    Ok (case smpp_decodeUDH raw of
                          Ok u \<Rightarrow> msg\<lparr>msg_UDH := Some u, msg_Concat := udh_Concat u\<rparr>
                        | _ \<Rightarrow> msg, 1 + udhl)))
              else Ok (msg, 0))
             (\<lambda>(msg, udhOctets).
               let msg = (if msg_Concat msg = None then msg\<lparr>msg_Concat := sar_concat p\<rparr> else msg) in
               obind (decodeSM_payload payload udhOctets msg) (\<lambda>msg.
                 Ok (msg\<lparr>msg_TPSRRequired := (pdu_RegisteredDelivery p AND 0x01 \<noteq> 0),
                        msg_ValidityPeriod := parseVP (pdu_ValidityPeriod p)\<rparr>))))"

definition parseReceiptField :: "string \<Rightarrow> string \<Rightarrow> string" where
  "parseReceiptField body field =
     (let needle = field @ '':'' in
      case str_index body needle of
        None \<Rightarrow> []
      | Some idx \<Rightarrow>
          (let rest = drop (idx + length needle) body in
           case str_index rest '' '' of Some sp \<Rightarrow> take sp rest | None \<Rightarrow> rest))"

definition DecodeDeliveryReceipt :: "gotime \<Rightarrow> pdu \<Rightarrow> message outcome" where
  "DecodeDeliveryReceipt now p =
     (let msg = empty_message\<lparr>msg_Timestamp := Some now,
                  msg_Source := smpp_decodeAddress (pdu_SourceAddr p) (pdu_SourceAddrTON p) (pdu_SourceAddrNPI p),
                  msg_Destination :=
                    smpp_decodeAddress (pdu_DestinationAddr p) (pdu_DestAddrTON p) (pdu_DestAddrNPI p)\<rparr>;
          id = TLVString p TLVReceiptedMessageID
      in Ok (msg\<lparr>msg_ID :=
           (if id \<noteq> [] then id else parseReceiptField (string_of_bytes (Payload p)) ''id'')\<rparr>))"

section \<open>Encoding\<close>

definition smpp_encodeAddress :: "address \<Rightarrow> byte \<times> byte \<times> string" where
  "smpp_encodeAddress a =
     (if addr_Alpha a \<noteq> [] then (5, 0, addr_Alpha a)
      else let dflt = addr_TON a = 0 \<and> addr_NPI a = 0 in
        (if dflt then 1 else addr_TON a, if dflt then 1 else addr_NPI a, trim_plus (addr_MSISDN a)))"

definition sm_payload :: "message \<Rightarrow> (byte \<times> bytes) outcome" where
  "sm_payload msg =
     (case msg_Encoding msg of
        EncodingGSM7 \<Rightarrow>
          (case msg_Concat msg of
             Some c \<Rightarrow> Ok (0x40, buildConcatUDH c @ fst (EncodeGSM7 (msg_Text msg)))
           | None \<Rightarrow> Ok (0, fst (EncodeGSM7 (msg_Text msg))))
      | EncodingUCS2 \<Rightarrow>
          (case msg_Concat msg of
             Some c \<Rightarrow> Ok (0x40, buildConcatUDH c @ EncodeUCS2 (msg_Text msg))
           | None \<Rightarrow> Ok (0, EncodeUCS2 (msg_Text msg)))
      | EncodingBinary \<Rightarrow> Ok (0, msg_Binary msg)
      | _ \<Rightarrow> Err ''smppcodec: unsupported encoding'')"

definition encodeSM :: "message \<Rightarrow> 32 word \<Rightarrow> pdu outcome" where
  "encodeSM msg cmdID =
     (let (ston, snpi, src) = smpp_encodeAddress (msg_Source msg);
          (dton, dnpi, dst) = smpp_encodeAddress (msg_Destination msg)
      in obind (sm_payload msg) (\<lambda>(esm, payload).
           let p = empty_pdu\<lparr>pdu_CommandID := cmdID, pdu_CommandStatus := 0,
                     pdu_SourceAddrTON := ston, pdu_SourceAddrNPI := snpi, pdu_SourceAddr := src,
                     pdu_DestAddrTON := dton, pdu_DestAddrNPI := dnpi, pdu_DestinationAddr := dst,
                     pdu_RegisteredDelivery := (if msg_TPSRRequired msg then 0x03 else 0),
                     pdu_DataCoding := dcsForEgress msg, pdu_ESMClass := esm,
                     pdu_ShortMessage := payload\<rparr>;
               p = (if 254 < length payload
                    then (SetTLV p TLVMessagePayload payload)\<lparr>pdu_ShortMessage := []\<rparr> else p)
           in Ok (p\<lparr>pdu_SMLength := byte_of (length (pdu_ShortMessage p))\<rparr>)))"

definition EncodeDeliverSM :: "message \<Rightarrow> pdu outcome" where
  "EncodeDeliverSM msg = encodeSM msg CmdDeliverSM"

definition EncodeSubmitSM :: "message \<Rightarrow> pdu outcome" where
  "EncodeSubmitSM msg = encodeSM msg CmdSubmitSM"

definition EncodeDeliveryReceipt :: "string \<Rightarrow> string \<Rightarrow> string \<Rightarrow> string \<Rightarrow> string \<Rightarrow> pdu" where
  "EncodeDeliveryReceipt origMsgID srcAddr dstAddr status errCode =
     (let body = bytes_of_string (''id:'' @ origMsgID @
            '' sub:001 dlvrd:001 submit date:0001010000 done date:0001010000 stat:'' @ status @
            '' err:'' @ errCode);
          p = empty_pdu\<lparr>pdu_CommandID := CmdDeliverSM, pdu_CommandStatus := 0,
                pdu_SourceAddrTON := 1, pdu_SourceAddrNPI := 1, pdu_SourceAddr := srcAddr,
                pdu_DestAddrTON := 1, pdu_DestAddrNPI := 1, pdu_DestinationAddr := dstAddr,
                pdu_ESMClass := 0x04, pdu_ShortMessage := body,
                pdu_SMLength := byte_of (length body)\<rparr>
      in SetTLVString p TLVReceiptedMessageID origMsgID)"

section \<open>Lemmas\<close>

lemma no_panic_decodeSM_payload: "no_panic (decodeSM_payload payload n msg)"
  by (auto simp: decodeSM_payload_def split: encoding.split)

lemma no_panic_DecodeSM: "no_panic (DecodeSM now p)"
  by (auto simp: DecodeSM_def Let_def no_panic_decodeSM_payload intro!: no_panic_obind)

lemma Payload_encodeSM:
  assumes "encodeSM msg cmd = Ok p" and "sm_payload msg = Ok (esm, payload)"
  shows "Payload p = payload" and "pdu_ESMClass p = esm"
  using assms by (auto simp: encodeSM_def Let_def Payload_def TLV_def SetTLV_def update_conv
      empty_pdu_def split: prod.splits option.splits if_splits)

text \<open>The octets of a packed text are read as one septet too many when they leave room for it.\<close>

lemma sm_septets:
  fixes n :: nat
  shows "(8 * ((n * 7 + 7) div 8)) div 7 = (if n mod 8 = 7 then n + 1 else n)"
proof -
  have "(8 * (((8 * q + r) * 7 + 7) div 8)) div 7 = (if r = 7 then 8 * q + r + 1 else 8 * q + r)"
    if "r < 8" for q r :: nat
  proof -
    have "((8 * q + r) * 7 + 7) div 8 = 7 * q + (7 * r + 7) div 8" by (simp add: algebra_simps)
    moreover have "r \<in> {0, 1, 2, 3, 4, 5, 6, 7}" using that by auto
    ultimately show ?thesis by auto
  qed
  from this [of "n mod 8" "n div 8"] show ?thesis by (simp only: mult_div_mod_eq)
qed

lemma unpack_septet_prefix: "unpack_septet (h @ xs) (8 * length h + p) = unpack_septet xs p"
  by (simp add: unpack_septet_def Let_def nth_append)

lemma unpack_from_prefix: "unpack_from (h @ xs) (8 * length h + p) n = unpack_from xs p n"
proof (induction n arbitrary: p)
  case (Suc n)
  have "length h + length xs \<le> (8 * length h + p) div 8 \<longleftrightarrow> length xs \<le> p div 8" by simp
  then show ?case using Suc [of "p + 7"] by (simp add: unpack_septet_prefix add.assoc)
qed simp

lemma unpack_from_snoc:
  assumes "length (unpack_from xs p n) = n" and "(p + 7 * n) div 8 < length xs"
  shows "unpack_from xs p (Suc n) = unpack_from xs p n @ [unpack_septet xs (p + 7 * n)]"
  using assms
proof (induction n arbitrary: p)
  case (Suc n)
  then have a: "\<not> length xs \<le> p div 8" "length (unpack_from xs (p + 7) n) = n"
    by (auto split: if_splits)
  have "unpack_from xs (p + 7) (Suc n) = unpack_from xs (p + 7) n @ [unpack_septet xs (p + 7 + 7 * n)]"
    using Suc.prems a by (intro Suc.IH) (simp_all add: ac_simps)
  then show ?case using a by (simp add: ac_simps)
qed simp

lemma runes_of_septets_snoc:
  assumes "list_all gsm7_rune rs"
  shows "runes_of_septets (septets_of rs @ [0]) = rs @ [64]"
  using assms
proof (induction rs)
  case Nil
  then show ?case by (simp add: gsm7Basic_def)
next
  case (Cons r rs)
  show ?case
  proof (cases "runeToGSM7 r")
    case None
    then obtain b where "runeToGSM7Ext r = Some b" using Cons by (auto simp: gsm7_rune_def)
    then show ?thesis using Cons None runeToGSM7Ext_Some by auto
  next
    case (Some b)
    then show ?thesis using Cons runeToGSM7_Some by simp
  qed
qed

text \<open>The text a peer reads from a packed text, and from one behind a header of whole octets.\<close>

definition sm_text :: "string \<Rightarrow> string" where
  "sm_text t = (if length (septets_of (runes_of t)) mod 8 = 7
     then string_of_runes (runes_of t @ [64]) else t)"

lemma DecodeGSM7_sm:
  assumes "gsm7_text t"
  shows "string_of_runes (runes_of_septets (unpack_from (fst (EncodeGSM7 t)) 0
    (8 * length (fst (EncodeGSM7 t)) div 7))) = sm_text t"
proof -
  define ss n where "ss = septets_of (runes_of t)" and "n = length ss"
  have e: "EncodeGSM7 t = (packGSM7 ss, n)" by (simp add: EncodeGSM7_def Let_def ss_def n_def)
  have len: "length (packGSM7 ss) = (n * 7 + 7) div 8" by (simp add: packGSM7_def n_def)
  have sept: "\<forall>s \<in> set ss. septet s" by (simp add: ss_def septets_of_septet)
  have u: "unpack_from (packGSM7 ss) 0 n = ss"
    using unpack_packGSM7 [OF sept] by (simp add: unpackGSM7_def n_def)
  have rs: "list_all gsm7_rune (runes_of t)" "string_of_runes (runes_of t) = t"
    using assms by (simp_all add: gsm7_text_def)
  show ?thesis
  proof (cases "n mod 8 = 7")
    case True
    then obtain q where q: "n = 8 * q + 7" by (metis mult_div_mod_eq)
    then have lt: "7 * n div 8 < length (packGSM7 ss)" by (simp add: len)
    have "unpack_septet (packGSM7 ss) (7 * n) = 0"
    proof (rule bit_eqI)
      fix b
      have "ss \<noteq> []" using q n_def by auto
      then have "packGSM7 ss = pack_from 0 ss (replicate ((n * 7 + 7) div 8) 0)"
        by (simp add: packGSM7_def n_def)
      moreover have "\<not> sbit (pack_from 0 ss (replicate ((n * 7 + 7) div 8) 0)) (7 * n + b)"
        using sept by (subst sbit_pack_from) (auto simp: n_def)
      ultimately show "bit (unpack_septet (packGSM7 ss) (7 * n)) b = bit 0 b"
        using lt by (simp add: bit_unpack_septet)
    qed
    then have "unpack_from (packGSM7 ss) 0 (Suc n) = ss @ [0]"
      using unpack_from_snoc [of "packGSM7 ss" 0 n] u lt n_def by simp
    then show ?thesis using True sm_septets [of n] rs runes_of_septets_snoc
      by (simp add: e len sm_text_def ss_def [symmetric] n_def [symmetric]) (simp add: ss_def)
  next
    case False
    then show ?thesis using sm_septets [of n] u rs runes_of_septets_of
      by (simp add: e len sm_text_def ss_def [symmetric] n_def [symmetric]) (simp add: ss_def)
  qed
qed

text \<open>What a peer that decodes the encoded PDU sees of the message.\<close>

definition sm_address :: "address \<Rightarrow> bool" where
  "sm_address a \<longleftrightarrow> addr_IMSI a = [] \<and> addr_MMENumber a = [] \<and> addr_SIPURI a = [] \<and>
     (if addr_Alpha a \<noteq> [] then addr_MSISDN a = [] \<and> addr_TON a = 5 \<and> addr_NPI a = 0
      else list_all is_digit (addr_MSISDN a) \<and> addr_TON a \<noteq> 5)"

definition sm_wire_address :: "address \<Rightarrow> address" where
  "sm_wire_address a = (if addr_Alpha a = [] \<and> addr_TON a = 0 \<and> addr_NPI a = 0
     then a\<lparr>addr_TON := 1, addr_NPI := 1\<rparr> else a)"

definition sm_message :: "message \<Rightarrow> bool" where
  "sm_message m \<longleftrightarrow> sm_address (msg_Source m) \<and> sm_address (msg_Destination m) \<and>
     ParseDCS (dcsForEgress m) = msg_Encoding m \<and>
     (case msg_Encoding m of
        EncodingGSM7 \<Rightarrow> gsm7_text (msg_Text m)
      | EncodingUCS2 \<Rightarrow> utf8_text (msg_Text m)
      | EncodingBinary \<Rightarrow> True
      | _ \<Rightarrow> False)"

definition sm_udh :: "message \<Rightarrow> udh option" where
  "sm_udh m = (if msg_Encoding m = EncodingBinary then None
     else map_option (\<lambda>c. \<lparr>udh_Raw = buildConcatUDH c, udh_Concat = Some c\<rparr>) (msg_Concat m))"

definition sm_wire :: "gotime \<Rightarrow> message \<Rightarrow> message" where
  "sm_wire now m = empty_message\<lparr>msg_Timestamp := Some now, msg_DCS := dcsForEgress m,
     msg_Encoding := msg_Encoding m, msg_Source := sm_wire_address (msg_Source m),
     msg_Destination := sm_wire_address (msg_Destination m), msg_UDH := sm_udh m,
     msg_Concat := (case sm_udh m of None \<Rightarrow> None | Some u \<Rightarrow> udh_Concat u),
     msg_Text := (case msg_Encoding m of EncodingGSM7 \<Rightarrow> sm_text (msg_Text m)
       | EncodingUCS2 \<Rightarrow> msg_Text m | _ \<Rightarrow> []),
     msg_Binary := (if msg_Encoding m = EncodingBinary then msg_Binary m else []),
     msg_TPSRRequired := msg_TPSRRequired m\<rparr>"

lemma smpp_decodeAddress_encodeAddress:
  assumes "sm_address a" and "smpp_encodeAddress a = (ton, npi, s)"
  shows "smpp_decodeAddress s ton npi = sm_wire_address a"
  using assms trim_plus_digits [of "addr_MSISDN a"]
  by (cases a) (auto simp: smpp_encodeAddress_def smpp_decodeAddress_def sm_address_def
      sm_wire_address_def empty_address_def list_all_iff Let_def split: if_splits)

lemma smpp_decodeUDH_build:
  "smpp_decodeUDH (buildConcatUDH c) = Ok \<lparr>udh_Raw = buildConcatUDH c, udh_Concat = Some c\<rparr>"
  by (simp add: smpp_decodeUDH_def udh_elements.simps concat_ref_bytes)

lemma length_buildConcatUDH [simp]: "length (buildConcatUDH c) = 7"
  by simp

lemma decode_sm_gsm7:
  assumes "gsm7_text t"
  shows "DecodeGSM7 (fst (EncodeGSM7 t)) (sm_gsm7_septets (length (fst (EncodeGSM7 t))) 0) 0 = sm_text t"
    and "DecodeGSM7 (buildConcatUDH c @ fst (EncodeGSM7 t))
           (sm_gsm7_septets (7 + length (fst (EncodeGSM7 t))) 7) 7 = sm_text t"
proof -
  let ?p = "fst (EncodeGSM7 t)"
  show "DecodeGSM7 ?p (sm_gsm7_septets (length ?p) 0) 0 = sm_text t"
    using DecodeGSM7_sm [OF assms]
    by (simp add: DecodeGSM7_def unpackGSM7_def sm_gsm7_septets_def mult.commute)
  have "unpack_from (buildConcatUDH c @ ?p) 56 n = unpack_from ?p 0 n" for n
    using unpack_from_prefix [of "buildConcatUDH c" ?p 0 n] by simp
  moreover have "(7 + length ?p) * 8 - 7 * 8 - fill_bits 7 = 8 * length ?p"
    by (simp add: fill_bits_def)
  ultimately show "DecodeGSM7 (buildConcatUDH c @ ?p) (sm_gsm7_septets (7 + length ?p) 7) 7 = sm_text t"
    using DecodeGSM7_sm [OF assms]
    by (simp add: DecodeGSM7_def unpackGSM7_def sm_gsm7_septets_def fill_bits_def mult.commute
        del: buildConcatUDH.simps)
qed

lemma sm_payload_ok: "sm_message m \<Longrightarrow> \<exists>esm payload. sm_payload m = Ok (esm, payload)"
  by (auto simp: sm_message_def sm_payload_def split: encoding.splits option.split)

lemma encodeSM_fields:
  assumes "encodeSM m cmd = Ok p" and "sm_address (msg_Source m)" and "sm_address (msg_Destination m)"
  shows "smpp_decodeAddress (pdu_SourceAddr p) (pdu_SourceAddrTON p) (pdu_SourceAddrNPI p) =
      sm_wire_address (msg_Source m)"
    and "smpp_decodeAddress (pdu_DestinationAddr p) (pdu_DestAddrTON p) (pdu_DestAddrNPI p) =
      sm_wire_address (msg_Destination m)"
    and "pdu_CommandID p = cmd" and "pdu_DataCoding p = dcsForEgress m" and "pdu_ValidityPeriod p = []"
    and "pdu_RegisteredDelivery p = (if msg_TPSRRequired m then 3 else 0)"
    and "sar_concat p = None"
proof -
  obtain a b c where s: "smpp_encodeAddress (msg_Source m) = (a, b, c)" by (metis prod_cases3)
  obtain d e f where d: "smpp_encodeAddress (msg_Destination m) = (d, e, f)" by (metis prod_cases3)
  obtain esm payload where pl: "sm_payload m = Ok (esm, payload)"
    using assms(1) by (auto simp: encodeSM_def s d obind_eq_Ok)
  note p = assms(1) [unfolded encodeSM_def s d pl prod.case Let_def obind.simps]
  show "smpp_decodeAddress (pdu_SourceAddr p) (pdu_SourceAddrTON p) (pdu_SourceAddrNPI p) =
      sm_wire_address (msg_Source m)"
    using p smpp_decodeAddress_encodeAddress [OF assms(2) s] by (auto simp: SetTLV_def split: if_splits)
  show "smpp_decodeAddress (pdu_DestinationAddr p) (pdu_DestAddrTON p) (pdu_DestAddrNPI p) =
      sm_wire_address (msg_Destination m)"
    using p smpp_decodeAddress_encodeAddress [OF assms(3) d] by (auto simp: SetTLV_def split: if_splits)
  show "pdu_CommandID p = cmd" "pdu_DataCoding p = dcsForEgress m" "pdu_ValidityPeriod p = []"
    "pdu_RegisteredDelivery p = (if msg_TPSRRequired m then 3 else 0)"
    using p by (auto simp: SetTLV_def empty_pdu_def split: if_splits)
  show "sar_concat p = None"
    using p by (auto simp: SetTLV_def empty_pdu_def sar_concat_def TLV_def update_conv split: if_splits)
qed

lemma sm_payload_concat:
  assumes "sm_udh m = Some u" and "sm_payload m = Ok (esm, payload)"
  obtains c where "msg_Concat m = Some c" and "u = \<lparr>udh_Raw = buildConcatUDH c, udh_Concat = Some c\<rparr>"
    and "esm = 0x40" and "take 7 payload = buildConcatUDH c" and "7 \<le> length payload"
  using assms by (auto simp: sm_udh_def sm_payload_def split: encoding.splits option.splits if_splits)

lemma decodeSM_payload_sm:
  assumes "sm_message m" and "sm_payload m = Ok (esm, payload)"
    and "n = (if sm_udh m = None then 0 else 7)" and "msg_Encoding b = msg_Encoding m"
    and "msg_Text b = []" and "msg_Binary b = []"
  shows "decodeSM_payload payload n b = Ok (b\<lparr>msg_Text := msg_Text (sm_wire now m),
    msg_Binary := msg_Binary (sm_wire now m)\<rparr>)"
proof -
  consider (G) "msg_Encoding m = EncodingGSM7" "gsm7_text (msg_Text m)"
    | (U) "msg_Encoding m = EncodingUCS2" "utf8_text (msg_Text m)" | (B) "msg_Encoding m = EncodingBinary"
    using assms(1) by (auto simp: sm_message_def split: encoding.splits)
  then show ?thesis
  proof cases
    case G
    then show ?thesis using assms(2-6) decode_sm_gsm7 [OF G(2)]
      by (cases "msg_Concat m") (auto simp: decodeSM_payload_def sm_payload_def sm_wire_def sm_udh_def
          simp del: buildConcatUDH.simps)
  next
    case U
    then show ?thesis using assms(2-6) DecodeUCS2_EncodeUCS2 [OF U(2)]
      by (cases "msg_Concat m") (auto simp: decodeSM_payload_def sm_payload_def sm_wire_def sm_udh_def
          simp del: buildConcatUDH.simps)
  next
    case B
    then show ?thesis using assms(2-6)
      by (auto simp: decodeSM_payload_def sm_payload_def sm_wire_def sm_udh_def)
  qed
qed

lemma encodeSM_ok: "sm_payload m = Ok x \<Longrightarrow> \<exists>p. encodeSM m cmd = Ok p"
  by (cases "smpp_encodeAddress (msg_Source m)"; cases "smpp_encodeAddress (msg_Destination m)"; cases x)
    (simp add: encodeSM_def Let_def)

lemma DecodeSM_encodeSM:
  assumes "sm_message m" and "cmd = CmdSubmitSM \<or> cmd = CmdDeliverSM"
  obtains p where "encodeSM m cmd = Ok p" and "DecodeSM now p = Ok (sm_wire now m)"
proof -
  obtain esm payload where pl: "sm_payload m = Ok (esm, payload)"
    using sm_payload_ok assms(1) by blast
  then obtain p where p: "encodeSM m cmd = Ok p" using encodeSM_ok by blast
  have adr: "sm_address (msg_Source m)" "sm_address (msg_Destination m)"
    and dcs: "ParseDCS (dcsForEgress m) = msg_Encoding m" using assms(1) by (simp_all add: sm_message_def)
  note f = encodeSM_fields [OF p adr]
  note pp = Payload_encodeSM [OF p pl]
  have rd: "(if msg_TPSRRequired m then 3 else 0 :: byte) AND 1 \<noteq> 0 \<longleftrightarrow> msg_TPSRRequired m" by simp
  let ?b = "empty_message\<lparr>msg_Timestamp := Some now, msg_DCS := dcsForEgress m,
      msg_Encoding := msg_Encoding m, msg_Source := sm_wire_address (msg_Source m),
      msg_Destination := sm_wire_address (msg_Destination m)\<rparr>"
  show thesis
  proof (cases "sm_udh m")
    case None
    then have "esm = 0" using pl
      by (auto simp: sm_udh_def sm_payload_def split: encoding.splits option.splits if_splits)
    moreover have "decodeSM_payload payload 0 ?b =
        Ok (?b\<lparr>msg_Text := msg_Text (sm_wire now m), msg_Binary := msg_Binary (sm_wire now m)\<rparr>)"
      using decodeSM_payload_sm [OF assms(1) pl, of 0 ?b now] None by (simp add: empty_message_def)
    ultimately have "DecodeSM now p = Ok (sm_wire now m)"
      using assms(2) None by (simp add: DecodeSM_def f pp dcs parseVP_def rd)
        (auto simp: sm_wire_def empty_message_def f rd Let_def)
    then show thesis using p that by blast
  next
    case (Some u)
    then obtain c where c: "msg_Concat m = Some c" "u = \<lparr>udh_Raw = buildConcatUDH c, udh_Concat = Some c\<rparr>"
      "esm = 0x40" "take 7 payload = buildConcatUDH c" "7 \<le> length payload"
      using sm_payload_concat pl by blast
    then have "payload \<noteq> []" "payload ! 0 = 6"
      by (auto simp: take_eq_Nil2 nth_take [of 0 7 payload, symmetric] simp del: nth_take)
    moreover have "decodeSM_payload payload 7 (?b\<lparr>msg_UDH := Some u, msg_Concat := Some c\<rparr>) =
        Ok (?b\<lparr>msg_UDH := Some u, msg_Concat := Some c, msg_Text := msg_Text (sm_wire now m),
          msg_Binary := msg_Binary (sm_wire now m)\<rparr>)"
      using decodeSM_payload_sm [OF assms(1) pl, of 7 "?b\<lparr>msg_UDH := Some u, msg_Concat := Some c\<rparr>" now] Some
      by (simp add: empty_message_def)
    ultimately have "DecodeSM now p = Ok (sm_wire now m)"
      using assms(2) c smpp_decodeUDH_build [of c]
      by (simp add: DecodeSM_def f pp dcs parseVP_def rd del: buildConcatUDH.simps)
        (simp add: sm_wire_def empty_message_def Some)
    then show thesis using p that by blast
  qed
qed

section \<open>Properties\<close>

text \<open>
  C34: Decoding the submit_sm or deliver_sm made of a message gives back its addresses, scheme,
  flags and payload, with two losses the code has: a packed text of 8k+7 septets comes back with
  an extra commercial at, and a binary message comes back without its concatenation header.
\<close>

theorem smpp_sm_roundtrip:
  assumes "sm_message m" and "cmd = CmdSubmitSM \<or> cmd = CmdDeliverSM"
  shows "obind (encodeSM m cmd) (DecodeSM now) = Ok (sm_wire now m)"
  using DecodeSM_encodeSM [OF assms] by (metis obind.simps(1))

definition sm_sample :: message where
  "sm_sample = empty_message\<lparr>msg_Source := empty_address\<lparr>addr_Alpha := ''Bank'', addr_TON := 5\<rparr>,
     msg_Destination := empty_address\<lparr>addr_MSISDN := ''3342012832''\<rparr>, msg_Text := ''Hello!!'',
     msg_TPSRRequired := True\<rparr>"

lemma sm_sample_ok: "sm_message sm_sample"
  by (simp add: sm_message_def sm_sample_def empty_message_def empty_address_def sm_address_def
      is_digit_def dcsForEgress_def ParseDCS_def charsetBits_def gsm7_text_ascii gsm7_ascii_def)

theorem smpp_sm_roundtrip_witness:
  "obind (encodeSM sm_sample CmdSubmitSM) (DecodeSM (go_date 2025 1 1 0 0 0 0))
     = Ok (sm_wire (go_date 2025 1 1 0 0 0 0) sm_sample)"
  by (rule smpp_sm_roundtrip [OF sm_sample_ok]) simp

text \<open>No PDU makes the short-message decoder panic.\<close>

theorem smpp_decode_no_panic: "no_panic (DecodeSM now p)"
  by (rule no_panic_DecodeSM)

end
