(* ===== verification/DiamCodec.thy ===== *)
theory DiamCodec
  imports Prelude
begin

text \<open>
  The Diameter wire format of \<open>internal/diameter/codec/avp.go\<close> and \<open>message.go\<close>. The message
  layer uses the AVP layer through one interface, the locale \<open>item_codec\<close>: what encoding and
  decoding a single item promise, and what follows for a sequence of them. \<open>Children\<close>, a cache
  of the decoded group in the Go struct, is not a field here: \<open>DecodeGrouped\<close> returns the list.
\<close>

section \<open>Sequences of self-delimiting items\<close>

locale item_codec =
  fixes enc :: "'a \<Rightarrow> bytes"
    and dec :: "bytes \<Rightarrow> ('b \<times> nat) outcome"
    and dec_all :: "bytes \<Rightarrow> 'b list outcome"
    and wf_item :: "'a \<Rightarrow> bool"
    and wire :: "'a \<Rightarrow> 'b"
  assumes dec_enc: "wf_item a \<Longrightarrow> dec (enc a @ rest) = Ok (wire a, length (enc a))"
    and enc_size: "8 \<le> length (enc a)"
    and dec_consumes: "dec b = Ok (x, n) \<Longrightarrow> 8 \<le> n \<and> n \<le> length b"
    and dec_no_panic: "no_panic (dec b)"
    and dec_all_Nil: "dec_all [] = Ok []"
    and dec_all_step: "b \<noteq> [] \<Longrightarrow> dec_all b =
      (if length b < 8 then Err ''avp: trailing bytes too short''
       else obind (dec b) (\<lambda>(x, n). obind (slice b n (length b)) (\<lambda>r. omap ((#) x) (dec_all r))))"
begin

lemma dec_all_enc:
  "list_all wf_item xs \<Longrightarrow> dec_all (concat (map enc xs)) = Ok (map wire xs)"
proof (induction xs)
  case Nil
  then show ?case by (simp add: dec_all_Nil)
next
  case (Cons x xs)
  have "enc x @ concat (map enc xs) \<noteq> []" using enc_size [of x] by auto
  then show ?case using Cons dec_enc [of x] enc_size [of x]
    by (simp add: dec_all_step)
qed

lemma dec_all_no_panic: "no_panic (dec_all b)"
proof (induction "length b" arbitrary: b rule: less_induct)
  case less
  show ?case
  proof (cases "b = []")
    case False
    have "no_panic (obind (slice b n (length b)) (\<lambda>r. omap ((#) x) (dec_all r)))"
      if "dec b = Ok (x, n)" for x n
    proof -
      have n: "8 \<le> n" "n \<le> length b" using dec_consumes [OF that] by auto
      then have "length (drop n b) < length b" by simp
      then show ?thesis using less n by simp
    qed
    then show ?thesis using False dec_no_panic [of b]
      by (cases "dec b") (auto simp: dec_all_step)
  qed (simp add: dec_all_Nil)
qed

text \<open>However a sequence is cut, every item takes at least eight octets of it.\<close>

lemma dec_all_length: "dec_all b = Ok xs \<Longrightarrow> 8 * length xs \<le> length b"
proof (induction "length b" arbitrary: b xs rule: less_induct)
  case less
  show ?case
  proof (cases "b = []")
    case True
    then show ?thesis using less.prems by (simp add: dec_all_Nil)
  next
    case False
    then obtain x n ys where d: "dec b = Ok (x, n)" and r: "dec_all (drop n b) = Ok ys" and xs: "xs = x # ys"
      using less.prems dec_consumes [of b]
      by (cases "dec b"; cases "dec_all (drop (snd (case dec b of Ok p \<Rightarrow> p)) b)")
        (auto simp: dec_all_step split: if_splits)
    have n: "8 \<le> n" "n \<le> length b" using dec_consumes [OF d] by auto
    then have "length (drop n b) < length b" by simp
    then have "8 * length ys \<le> length (drop n b)" using less.hyps r by blast
    then show ?thesis using n xs by simp
  qed
qed

end

section \<open>AVPs\<close>

record avp =
  avp_Code :: "32 word"
  avp_VendorID :: "32 word"
  avp_Flags :: byte
  avp_Data :: bytes

abbreviation FlagVendorSpecific :: byte where "FlagVendorSpecific \<equiv> 0x80"
abbreviation FlagMandatory :: byte where "FlagMandatory \<equiv> 0x40"

definition w32 :: "bytes \<Rightarrow> 32 word" where
  "w32 b = word_of_nat (be32 (b ! 0) (b ! 1) (b ! 2) (b ! 3))"

text \<open>\<open>(n + 3) &^ 3\<close>: the next multiple of four.\<close>

definition pad4 :: "nat \<Rightarrow> nat" where
  "pad4 n = (n + 3) div 4 * 4"

definition avp_hdrSize :: "avp \<Rightarrow> nat" where
  "avp_hdrSize a = (if avp_VendorID a \<noteq> 0 then 12 else 8)"

definition avp_wire_flags :: "avp \<Rightarrow> byte" where
  "avp_wire_flags a =
     (if avp_VendorID a \<noteq> 0 then avp_Flags a OR FlagVendorSpecific
      else avp_Flags a AND NOT FlagVendorSpecific)"

definition avp_Encode :: "avp \<Rightarrow> bytes" where
  "avp_Encode a =
     (let totalLen = avp_hdrSize a + length (avp_Data a) in
      put32 (unat (avp_Code a)) @ [avp_wire_flags a] @ put24 totalLen @
      (if avp_VendorID a \<noteq> 0 then put32 (unat (avp_VendorID a)) else []) @
      avp_Data a @ replicate (pad4 totalLen - totalLen) 0)"

definition avp_Decode :: "bytes \<Rightarrow> (avp \<times> nat) outcome" where
  "avp_Decode b =
     (if length b < 8 then Err ''avp: buffer too short''
      else
        let code = w32 b; flags = b ! 4; len = be24 (b ! 5) (b ! 6) (b ! 7) in
        if len < 8 then Err ''avp: invalid length''
        else
          let vendor = flags AND FlagVendorSpecific \<noteq> 0 in
          if vendor \<and> length b < 12 then Err ''avp: buffer too short for vendor header''
          else
            let vid = (if vendor then w32 (drop 8 b) else 0); hdrSize = (if vendor then 12 else 8) in
            if vendor \<and> vid = 0 then Err ''avp: vendor-specific flag set with zero vendor ID''
            else if len < hdrSize \<or> length b < len then Err ''avp: buffer too short for data''
            else obind (slice b hdrSize len) (\<lambda>d.
              if length b < pad4 len then Err ''avp: buffer too short for padding''
              else Ok (\<lparr>avp_Code = code, avp_VendorID = vid, avp_Flags = flags, avp_Data = d\<rparr>, pad4 len)))"

function avp_DecodeAll :: "bytes \<Rightarrow> avp list outcome" where
  "avp_DecodeAll b =
     (if b = [] then Ok []
      else if length b < 8 then Err ''avp: trailing bytes too short''
      else (case avp_Decode b of
              Ok (a, n) \<Rightarrow>
                (if 8 \<le> n \<and> n \<le> length b then omap ((#) a) (avp_DecodeAll (drop n b)) else Panic)
            | Err e \<Rightarrow> Err e
            | Panic \<Rightarrow> Panic))"
  by pat_completeness auto
termination by (relation "measure length") auto

declare avp_DecodeAll.simps [simp del]

definition DecodeGrouped :: "avp \<Rightarrow> avp list outcome" where
  "DecodeGrouped a = wrap_err ''avp: grouped'' (avp_DecodeAll (avp_Data a))"

definition avp_mk :: "32 word \<Rightarrow> 32 word \<Rightarrow> byte \<Rightarrow> bytes \<Rightarrow> avp" where
  "avp_mk code vendorID flags data =
     \<lparr>avp_Code = code, avp_VendorID = vendorID,
      avp_Flags = (if vendorID \<noteq> 0 then flags OR FlagVendorSpecific else flags), avp_Data = data\<rparr>"

definition NewUint32 :: "32 word \<Rightarrow> 32 word \<Rightarrow> byte \<Rightarrow> 32 word \<Rightarrow> avp" where
  "NewUint32 code vendorID flags val = avp_mk code vendorID flags (put32 (unat val))"

definition NewString :: "32 word \<Rightarrow> 32 word \<Rightarrow> byte \<Rightarrow> string \<Rightarrow> avp" where
  "NewString code vendorID flags val = avp_mk code vendorID flags (bytes_of_string val)"

definition NewOctetString :: "32 word \<Rightarrow> 32 word \<Rightarrow> byte \<Rightarrow> bytes \<Rightarrow> avp" where
  "NewOctetString code vendorID flags val = avp_mk code vendorID flags val"

definition NewGrouped :: "32 word \<Rightarrow> 32 word \<Rightarrow> byte \<Rightarrow> avp list \<Rightarrow> avp" where
  "NewGrouped code vendorID flags children =
     avp_mk code vendorID flags (concat (map avp_Encode children))"

definition avp_Uint32 :: "avp \<Rightarrow> 32 word outcome" where
  "avp_Uint32 a = (if length (avp_Data a) \<noteq> 4 then Err ''avp: expected 4 bytes'' else Ok (w32 (avp_Data a)))"

definition avp_String :: "avp \<Rightarrow> string" where
  "avp_String a = string_of_bytes (avp_Data a)"

section \<open>Messages\<close>

record dheader =
  dh_Version :: byte
  dh_Length :: nat
  dh_Flags :: byte
  dh_CommandCode :: nat
  dh_AppID :: "32 word"
  dh_HopByHop :: "32 word"
  dh_EndToEnd :: "32 word"

record dmsg =
  dm_Header :: dheader
  dm_AVPs :: "avp list"

abbreviation FlagRequest :: byte where "FlagRequest \<equiv> 0x80"
abbreviation FlagProxiable :: byte where "FlagProxiable \<equiv> 0x40"
abbreviation FlagRetransmit :: byte where "FlagRetransmit \<equiv> 0x10"

definition IsRequest :: "dmsg \<Rightarrow> bool" where
  "IsRequest m \<longleftrightarrow> dh_Flags (dm_Header m) AND FlagRequest \<noteq> 0"

definition dmsg_Encode :: "dmsg \<Rightarrow> bytes" where
  "dmsg_Encode m =
     (let avpBytes = concat (map avp_Encode (dm_AVPs m)); h = dm_Header m;
          totalLen = 20 + length avpBytes
      in [1] @ put24 totalLen @ [dh_Flags h] @ put24 (dh_CommandCode h) @ put32 (unat (dh_AppID h)) @
         put32 (unat (dh_HopByHop h)) @ put32 (unat (dh_EndToEnd h)) @ avpBytes)"

definition decodeBytes :: "bytes \<Rightarrow> dmsg outcome" where
  "decodeBytes b =
     (if length b < 20 then Err ''message: buffer too short''
      else
        let len = be24 (b ! 1) (b ! 2) (b ! 3) in
        if length b < len then Err ''message: declared length > buffer''
        else obind (slice b 20 len) (\<lambda>body.
          obind (wrap_err ''message: AVP decode'' (avp_DecodeAll body)) (\<lambda>avps.
            Ok \<lparr>dm_Header = \<lparr>dh_Version = b ! 0, dh_Length = len, dh_Flags = b ! 4,
                   dh_CommandCode = be24 (b ! 5) (b ! 6) (b ! 7), dh_AppID = w32 (drop 8 b),
                   dh_HopByHop = w32 (drop 12 b), dh_EndToEnd = w32 (drop 16 b)\<rparr>,
                dm_AVPs = avps\<rparr>)))"

text \<open>\<open>DecodeMessage\<close> reads one message from a stream and leaves the rest of it.\<close>

definition DecodeMessage :: "bytes \<Rightarrow> (dmsg \<times> bytes) outcome" where
  "DecodeMessage s =
     (if length s < 4 then Err ''message: reading header''
      else if s ! 0 \<noteq> 1 then Err ''message: unsupported version''
      else
        let totalLen = be24 (s ! 1) (s ! 2) (s ! 3) in
        if totalLen < 20 then Err ''message: length too short''
        else if length s < totalLen then Err ''message: reading body''
        else omap (\<lambda>m. (m, drop totalLen s)) (decodeBytes (take totalLen s)))"

definition FindAVP :: "dmsg \<Rightarrow> 32 word \<Rightarrow> 32 word \<Rightarrow> avp option" where
  "FindAVP m code vendorID = find (\<lambda>a. avp_Code a = code \<and> avp_VendorID a = vendorID) (dm_AVPs m)"

definition FindAVPs :: "dmsg \<Rightarrow> 32 word \<Rightarrow> 32 word \<Rightarrow> avp list" where
  "FindAVPs m code vendorID = filter (\<lambda>a. avp_Code a = code \<and> avp_VendorID a = vendorID) (dm_AVPs m)"

section \<open>Identifiers and the builder\<close>

text \<open>The package-level counters that number requests.\<close>

record id_state =
  ids_hopByHopCounter :: "32 word"
  ids_endToEndBase :: "32 word"
  ids_endToEndCounter :: "32 word"

definition NextHopByHop :: "id_state \<Rightarrow> 32 word \<times> id_state" where
  "NextHopByHop g = (let n = ids_hopByHopCounter g + 1 in (n, g\<lparr>ids_hopByHopCounter := n\<rparr>))"

definition NextEndToEnd :: "id_state \<Rightarrow> 32 word \<times> id_state" where
  "NextEndToEnd g =
     (let n = ids_endToEndCounter g + 1 in
      (ids_endToEndBase g OR (n AND 0xFF), g\<lparr>ids_endToEndCounter := n\<rparr>))"

definition NewRequest :: "nat \<Rightarrow> 32 word \<Rightarrow> id_state \<Rightarrow> dmsg \<times> id_state" where
  "NewRequest commandCode appID g =
     (let (hbh, g) = NextHopByHop g; (ete, g) = NextEndToEnd g in
      (\<lparr>dm_Header = \<lparr>dh_Version = 1, dh_Length = 0, dh_Flags = FlagRequest OR FlagProxiable,
          dh_CommandCode = commandCode, dh_AppID = appID, dh_HopByHop = hbh, dh_EndToEnd = ete\<rparr>,
        dm_AVPs = []\<rparr>, g))"

definition NewAnswer :: "dmsg \<Rightarrow> dmsg" where
  "NewAnswer req =
     (let h = dm_Header req in
      \<lparr>dm_Header = h\<lparr>dh_Version := 1, dh_Length := 0,
          dh_Flags := dh_Flags h AND NOT FlagRequest AND NOT FlagRetransmit\<rparr>, dm_AVPs = []\<rparr>)"

definition Add_AVPs :: "avp list \<Rightarrow> dmsg \<Rightarrow> dmsg" where
  "Add_AVPs avps m = m\<lparr>dm_AVPs := dm_AVPs m @ avps\<rparr>"

definition NonProxiable :: "dmsg \<Rightarrow> dmsg" where
  "NonProxiable m =
     m\<lparr>dm_Header := (dm_Header m)\<lparr>dh_Flags := dh_Flags (dm_Header m) AND NOT FlagProxiable\<rparr>\<rparr>"

section \<open>Round trips\<close>

lemma pad4_ge: "n \<le> pad4 n" "pad4 n < n + 4"
proof -
  have "(n + 3) div 4 * 4 + (n + 3) mod 4 = n + 3" "(n + 3) mod 4 < 4" by simp_all
  then show "n \<le> pad4 n" "pad4 n < n + 4" unfolding pad4_def by linarith+
qed

definition avp_wf :: "avp \<Rightarrow> bool" where
  "avp_wf a \<longleftrightarrow> avp_hdrSize a + length (avp_Data a) < 16777216"

definition avp_wire :: "avp \<Rightarrow> avp" where
  "avp_wire a = a\<lparr>avp_Flags := avp_wire_flags a\<rparr>"

lemma w32_put32 [simp]: "w32 (put32 (unat w) @ r) = w"
proof -
  have "unat w < 4294967296" using unsigned_less [of w] by simp
  then show ?thesis using be32_put [of "unat w"] by (simp add: w32_def put32_def)
qed

lemma avp_wire_flags_vendor: "avp_wire_flags a AND 0x80 \<noteq> 0 \<longleftrightarrow> avp_VendorID a \<noteq> 0"
proof -
  have set: "(x OR y) AND y = y" for x y :: byte
    by (rule bit_word_eqI) (auto simp: bit_simps)
  have clear: "(x AND NOT y) AND y = 0" for x y :: byte
    by (rule bit_word_eqI) (auto simp: bit_simps)
  show ?thesis
    using set [of "avp_Flags a" "0x80"] clear [of "avp_Flags a" "0x80"] by (simp add: avp_wire_flags_def)
qed

lemma length_avp_Encode [simp]: "length (avp_Encode a) = pad4 (avp_hdrSize a + length (avp_Data a))"
  using pad4_ge(1) [of "12 + length (avp_Data a)"] pad4_ge(1) [of "8 + length (avp_Data a)"]
  by (cases "avp_VendorID a = 0") (simp_all add: avp_Encode_def Let_def avp_hdrSize_def)

lemma avp_Decode_Encode:
  assumes "avp_wf a"
  shows "avp_Decode (avp_Encode a @ rest) = Ok (avp_wire a, length (avp_Encode a))"
proof -
  define t where "t = avp_hdrSize a + length (avp_Data a)"
  define v where "v = (if avp_VendorID a \<noteq> 0 then put32 (unat (avp_VendorID a)) else [])"
  define tail where "tail = v @ avp_Data a @ replicate (pad4 t - t) 0 @ rest"
  define B where "B = avp_Encode a @ rest"
  have b: "B = put32 (unat (avp_Code a)) @ avp_wire_flags a # put24 t @ tail"
    by (simp add: B_def avp_Encode_def Let_def t_def v_def tail_def)
  have len: "length B = pad4 t + length rest" by (simp add: B_def t_def)
  have t: "t < 16777216" "8 \<le> t" "t \<le> pad4 t" using assms pad4_ge [of t]
    by (auto simp: avp_wf_def t_def avp_hdrSize_def)
  have code: "w32 B = avp_Code a" by (simp only: b w32_put32)
  have nth: "B ! 4 = avp_wire_flags a" "be24 (B ! 5) (B ! 6) (B ! 7) = t"
    unfolding b using be24_put [OF t(1)] by (simp_all add: put32_def put24_def)
  have d8: "drop 8 B = tail" unfolding b by (simp add: put32_def put24_def)
  have ge: "8 \<le> length B" "t \<le> length B" "pad4 t \<le> length B" using len t by simp_all
  have "avp_Decode B = Ok (avp_wire a, pad4 t)"
  proof (cases "avp_VendorID a = 0")
    case True
    then have tail: "tail = avp_Data a @ replicate (pad4 t - t) 0 @ rest" "t - 8 = length (avp_Data a)"
      by (simp_all add: tail_def v_def t_def avp_hdrSize_def)
    have "slice B 8 t = Ok (avp_Data a)" using ge t by (simp add: d8) (simp add: tail)
    moreover have "avp_wire_flags a AND 0x80 = 0" using True avp_wire_flags_vendor by blast
    ultimately show ?thesis using True t(2) ge
      unfolding avp_Decode_def Let_def nth code by (simp add: avp_wire_def not_less)
  next
    case False
    then have tail: "tail = put32 (unat (avp_VendorID a)) @ avp_Data a @ replicate (pad4 t - t) 0 @ rest"
      "t - 12 = length (avp_Data a)" "12 \<le> t" by (simp_all add: tail_def v_def t_def avp_hdrSize_def)
    then have "w32 (drop 8 B) = avp_VendorID a" by (simp add: d8)
    moreover have "drop 12 B = drop 4 (drop 8 B)" by simp
    then have "drop 12 B = avp_Data a @ replicate (pad4 t - t) 0 @ rest" by (simp only: d8) (simp add: tail)
    then have "slice B 12 t = Ok (avp_Data a)" using ge tail(2,3) by simp
    moreover have "avp_wire_flags a AND 0x80 \<noteq> 0" using False avp_wire_flags_vendor by blast
    ultimately show ?thesis using False t(2) ge tail(3)
      unfolding avp_Decode_def Let_def nth code by (simp add: avp_wire_def not_less)
  qed
  then show ?thesis by (simp add: B_def t_def)
qed

lemma avp_Decode_consumes: "avp_Decode b = Ok (a, n) \<Longrightarrow> 8 \<le> n \<and> n \<le> length b"
proof -
  assume d: "avp_Decode b = Ok (a, n)"
  define len where "len = be24 (b ! 5) (b ! 6) (b ! 7)"
  have "n = pad4 len" "\<not> len < 8" "\<not> length b < pad4 len"
    using d by (auto simp: avp_Decode_def Let_def len_def [symmetric] obind_eq_Ok split: if_splits)
  then show ?thesis using pad4_ge(1) [of len] by simp
qed

lemma no_panic_avp_Decode: "no_panic (avp_Decode b)"
  by (auto simp: avp_Decode_def Let_def)

text \<open>The AVP codec keeps the promises the message codec relies on.\<close>

interpretation avps: item_codec avp_Encode avp_Decode avp_DecodeAll avp_wf avp_wire
proof unfold_locales
  fix a :: avp and rest
  show "avp_wf a \<Longrightarrow> avp_Decode (avp_Encode a @ rest) = Ok (avp_wire a, length (avp_Encode a))"
    by (rule avp_Decode_Encode)
  show "8 \<le> length (avp_Encode a)"
    using pad4_ge(1) [of "avp_hdrSize a + length (avp_Data a)"] by (auto simp: avp_hdrSize_def split: if_splits)
next
  fix b x n
  show "avp_Decode b = Ok (x, n) \<Longrightarrow> 8 \<le> n \<and> n \<le> length b" by (rule avp_Decode_consumes)
  show "no_panic (avp_Decode b)" by (rule no_panic_avp_Decode)
  show "avp_DecodeAll [] = Ok []" by (simp add: avp_DecodeAll.simps)
  show "b \<noteq> [] \<Longrightarrow> avp_DecodeAll b =
    (if length b < 8 then Err ''avp: trailing bytes too short''
     else obind (avp_Decode b) (\<lambda>(x, n). obind (slice b n (length b)) (\<lambda>r. omap ((#) x) (avp_DecodeAll r))))"
    using avp_Decode_consumes [of b]
    by (cases "avp_Decode b") (auto simp: avp_DecodeAll.simps [of b])
qed

lemma DecodeGrouped_NewGrouped:
  "list_all avp_wf cs \<Longrightarrow> DecodeGrouped (NewGrouped code vid flags cs) = Ok (map avp_wire cs)"
  by (simp add: DecodeGrouped_def NewGrouped_def avp_mk_def avps.dec_all_enc)

lemma no_panic_DecodeGrouped: "no_panic (DecodeGrouped a)"
  by (simp add: DecodeGrouped_def avps.dec_all_no_panic)

definition dmsg_body :: "dmsg \<Rightarrow> bytes" where
  "dmsg_body m = concat (map avp_Encode (dm_AVPs m))"

definition dmsg_wf :: "dmsg \<Rightarrow> bool" where
  "dmsg_wf m \<longleftrightarrow> list_all avp_wf (dm_AVPs m) \<and> 20 + length (dmsg_body m) < 16777216 \<and>
     dh_CommandCode (dm_Header m) < 16777216"

definition dmsg_wire :: "dmsg \<Rightarrow> dmsg" where
  "dmsg_wire m = m\<lparr>dm_Header := (dm_Header m)\<lparr>dh_Version := 1, dh_Length := 20 + length (dmsg_body m)\<rparr>,
     dm_AVPs := map avp_wire (dm_AVPs m)\<rparr>"

lemma w32_put32_end [simp]: "w32 (put32 (unat w)) = w"
  using w32_put32 [of w "[]"] by simp

lemma decodeBytes_dmsg_Encode:
  assumes "dmsg_wf m"
  shows "decodeBytes (dmsg_Encode m) = Ok (dmsg_wire m)"
proof -
  define h t where "h = dm_Header m" and "t = 20 + length (dmsg_body m)"
  define B where "B = dmsg_Encode m"
  have b: "B = [1] @ put24 t @ [dh_Flags h] @ put24 (dh_CommandCode h) @ put32 (unat (dh_AppID h)) @
      put32 (unat (dh_HopByHop h)) @ put32 (unat (dh_EndToEnd h)) @ dmsg_body m"
    by (simp add: B_def dmsg_Encode_def Let_def h_def t_def dmsg_body_def)
  have wf: "t < 16777216" "dh_CommandCode h < 16777216" "list_all avp_wf (dm_AVPs m)"
    using assms by (simp_all add: dmsg_wf_def t_def h_def)
  have len: "length B = t" by (simp add: b t_def)
  have t: "20 \<le> t" "t - 20 = length (dmsg_body m)" by (simp_all add: t_def)
  have nth: "B ! 0 = 1" "be24 (B ! 1) (B ! 2) (B ! 3) = t" "B ! 4 = dh_Flags h"
    "be24 (B ! 5) (B ! 6) (B ! 7) = dh_CommandCode h"
    unfolding b using be24_put [OF wf(1)] be24_put [OF wf(2)] by (simp_all add: put24_def)
  have "drop 8 B = put32 (unat (dh_AppID h)) @ put32 (unat (dh_HopByHop h)) @ put32 (unat (dh_EndToEnd h)) @
      dmsg_body m" unfolding b by (simp add: put24_def)
  moreover have "drop 12 B = drop 4 (drop 8 B)" "drop 16 B = drop 8 (drop 8 B)" "drop 20 B = drop 12 (drop 8 B)"
    by simp_all
  ultimately have d: "w32 (drop 8 B) = dh_AppID h" "w32 (drop 12 B) = dh_HopByHop h"
    "w32 (drop 16 B) = dh_EndToEnd h" "drop 20 B = dmsg_body m" by simp_all
  have "slice B 20 t = Ok (dmsg_body m)" using len t by (simp add: d)
  moreover have "avp_DecodeAll (dmsg_body m) = Ok (map avp_wire (dm_AVPs m))"
    using wf(3) by (simp add: dmsg_body_def avps.dec_all_enc)
  ultimately have "decodeBytes B = Ok (dmsg_wire m)"
    using t(1) unfolding decodeBytes_def Let_def nth len d
    by (simp add: dmsg_wire_def h_def [symmetric] t_def [symmetric])
  then show ?thesis by (simp add: B_def)
qed

lemma length_dmsg_Encode: "length (dmsg_Encode m) = 20 + length (dmsg_body m)"
  by (simp add: dmsg_Encode_def Let_def dmsg_body_def)

lemma DecodeMessage_dmsg_Encode:
  assumes "dmsg_wf m"
  shows "DecodeMessage (dmsg_Encode m @ rest) = Ok (dmsg_wire m, rest)"
proof -
  define t where "t = 20 + length (dmsg_body m)"
  have t: "t < 16777216" "\<not> t < 20" using assms by (simp_all add: dmsg_wf_def t_def)
  have len: "length (dmsg_Encode m) = t" by (simp add: length_dmsg_Encode t_def)
  define S where "S = dmsg_Encode m @ rest"
  have S: "S = 1 # put24 t @ drop 4 (dmsg_Encode m) @ rest"
    by (simp add: S_def dmsg_Encode_def Let_def t_def dmsg_body_def put24_def)
  have nth: "S ! 0 = 1" "be24 (S ! 1) (S ! 2) (S ! 3) = t"
    unfolding S using be24_put [OF t(1)] by (simp_all add: put24_def)
  have lenS: "length S = t + length rest" by (simp add: S_def len)
  have "take t S = dmsg_Encode m" "drop t S = rest" using len by (simp_all add: S_def)
  then have "DecodeMessage S = Ok (dmsg_wire m, rest)"
    using t(2) lenS decodeBytes_dmsg_Encode [OF assms]
    unfolding DecodeMessage_def Let_def nth by simp
  then show ?thesis by (simp add: S_def)
qed

lemma no_panic_DecodeMessage: "no_panic (DecodeMessage s)"
proof -
  have "no_panic (decodeBytes (take t s))" if "20 \<le> t" "be24 (s ! 1) (s ! 2) (s ! 3) = t" for t
  proof -
    have "be24 (take t s ! 1) (take t s ! 2) (take t s ! 3) = t" using that by simp
    then show ?thesis using that(1)
      by (auto simp: decodeBytes_def Let_def avps.dec_all_no_panic intro!: no_panic_obind)
  qed
  then show ?thesis by (simp add: DecodeMessage_def Let_def)
qed

lemma mask_add_256: "(c + 257) AND 0xFF = (c + 1) AND (0xFF :: 32 word)"
proof -
  have "(0xFF :: 32 word) = mask 8" by (simp add: mask_eq_exp_minus_1)
  then have "x AND 0xFF = take_bit 8 x" for x :: "32 word" by (simp only: take_bit_eq_mask)
  moreover have "take_bit 8 (c + 257) = take_bit 8 (c + 1)"
  proof -
    have "unat (take_bit 8 (c + k)) = (unat c + unat k) mod 256" for k :: "32 word"
    proof -
      have "unat (take_bit 8 (c + k)) = unat (c + k) mod 256"
        by (simp only: unsigned_take_bit_eq) (simp add: take_bit_eq_mod)
      also have "\<dots> = ((unat c + unat k) mod 2 ^ 32) mod 256" by (simp only: unat_word_ariths) simp
      also have "\<dots> = (unat c + unat k) mod 256" by (rule mod_mod_cancel) simp
      finally show ?thesis .
    qed
    from this [of 257] this [of 1]
    have "unat (take_bit 8 (c + 257)) = (unat c + 257) mod 256"
      "unat (take_bit 8 (c + 1)) = (unat c + 1) mod 256" by simp_all
    moreover have "unat c + 257 = (unat c + 1) + 256" by simp
    then have "(unat c + 257) mod 256 = (unat c + 1) mod 256" by (simp only: mod_add_self2)
    ultimately have "unat (take_bit 8 (c + 257)) = unat (take_bit 8 (c + 1))" by (simp only:)
    then show ?thesis by (simp only: unsigned_word_eqI)
  qed
  ultimately show ?thesis by simp
qed

text \<open>End-to-end identifiers repeat after 256 requests: only the low octet counts.\<close>

lemma NextEndToEnd_repeats:
  "fst (NextEndToEnd (g\<lparr>ids_endToEndCounter := ids_endToEndCounter g + 256\<rparr>)) = fst (NextEndToEnd g)"
  using mask_add_256 [of "ids_endToEndCounter g"] by (simp add: NextEndToEnd_def Let_def add.assoc)

section \<open>Properties\<close>

text \<open>
  C36: A Diameter message whose lengths fit their 24-bit fields is read back from the stream,
  whatever follows it: the header, the order of the AVPs, their vendor flags and their data.
\<close>

theorem diameter_message_roundtrip:
  assumes "dmsg_wf m"
  shows "DecodeMessage (dmsg_Encode m @ rest) = Ok (dmsg_wire m, rest)"
  by (rule DecodeMessage_dmsg_Encode [OF assms])

definition dmsg_sample :: dmsg where
  "dmsg_sample = Add_AVPs [NewString 263 0 FlagMandatory ''a;1;2'', NewUint32 268 0 FlagMandatory 2001,
     NewGrouped 3102 10415 FlagMandatory [NewString 1 0 FlagMandatory ''001010'']]
     (fst (NewRequest 8388646 16777313
        \<lparr>ids_hopByHopCounter = 5, ids_endToEndBase = 0x100, ids_endToEndCounter = 0\<rparr>))"

theorem diameter_message_roundtrip_witness:
  "DecodeMessage (dmsg_Encode dmsg_sample @ [1, 2]) = Ok (dmsg_wire dmsg_sample, [1, 2])"
  by (rule diameter_message_roundtrip)
    (simp add: dmsg_sample_def Add_AVPs_def NewRequest_def NextHopByHop_def NextEndToEnd_def
      dmsg_wf_def dmsg_body_def avp_wf_def avp_hdrSize_def NewString_def NewUint32_def
      NewGrouped_def avp_mk_def pad4_def Let_def)

text \<open>No octet stream makes the Diameter message decoder panic.\<close>

theorem diameter_decode_no_panic: "no_panic (DecodeMessage s)"
  by (rule no_panic_DecodeMessage)

end
