(* ===== verification/S6cCodec.thy ===== *)
theory S6cCodec
  imports DiamCodec Tpdu
begin

text \<open>
  \<open>internal/diameter/s6c/codec.go\<close>: the answers and requests of the S6c interface to the HSS,
  TBCD digit strings and the normalisation of E.164 addresses.
\<close>

section \<open>Telephony BCD and E.164 addresses\<close>

definition digitNibble :: "char \<Rightarrow> byte" where
  "digitNibble d = (if is_digit d then byte_of (digit_val d) else 0x0F)"

definition appendDigit :: "string \<Rightarrow> byte \<Rightarrow> string" where
  "appendDigit out nibble = (if nibble \<le> 9 then out @ [digit_char (unat nibble)] else out)"

fun tbcd_octets :: "string \<Rightarrow> bytes" where
  "tbcd_octets (c # c' # cs) = (push_bit 4 (digitNibble c') OR digitNibble c) # tbcd_octets cs"
| "tbcd_octets _ = []"

definition encodeTBCD :: "string \<Rightarrow> bytes" where
  "encodeTBCD msisdn =
     (let s = trim_plus msisdn in tbcd_octets (if odd (length s) then s @ ''F'' else s))"

fun decodeTBCD_from :: "string \<Rightarrow> bytes \<Rightarrow> string" where
  "decodeTBCD_from out [] = out"
| "decodeTBCD_from out (octet # rest) =
     decodeTBCD_from (appendDigit (appendDigit out (octet AND 0x0F)) (drop_bit 4 octet AND 0x0F)) rest"

definition decodeTBCD :: "bytes \<Rightarrow> string" where
  "decodeTBCD data = decodeTBCD_from [] data"

definition decodeE164Digits :: "bytes \<Rightarrow> string" where
  "decodeE164Digits data =
     (if data = [] then []
      else if 2 \<le> length data \<and> data ! 0 < byte_of (length data) \<and> data ! 1 AND 0x80 \<noteq> 0
      then decodeTBCD (drop 2 data) else decodeTBCD data)"

definition isDigitString :: "string \<Rightarrow> bool" where
  "isDigitString s \<longleftrightarrow> s \<noteq> [] \<and> list_all is_digit s"

definition hex_val :: "char \<Rightarrow> nat option" where
  "hex_val c = (let n = (of_char c :: nat) in
     if 48 \<le> n \<and> n \<le> 57 then Some (n - 48)
     else if 97 \<le> n \<and> n \<le> 102 then Some (n - 87)
     else if 65 \<le> n \<and> n \<le> 70 then Some (n - 55) else None)"

definition isHexAddress :: "string \<Rightarrow> bool" where
  "isHexAddress s \<longleftrightarrow> s \<noteq> [] \<and> even (length s) \<and> list_all (\<lambda>c. hex_val c \<noteq> None) s \<and>
     list_ex (\<lambda>c. \<not> is_digit c) s"

text \<open>\<open>encoding/hex.DecodeString\<close>.\<close>

fun hex_decode :: "string \<Rightarrow> bytes option" where
  "hex_decode [] = Some []"
| "hex_decode [c] = None"
| "hex_decode (a # b # s) =
     (case (hex_val a, hex_val b, hex_decode s) of
        (Some x, Some y, Some r) \<Rightarrow> Some (byte_of (16 * x + y) # r)
      | _ \<Rightarrow> None)"

definition NormalizeE164Address :: "string \<Rightarrow> string" where
  "NormalizeE164Address raw =
     (let raw = trim_space raw in
      if raw = [] then []
      else if isDigitString raw then raw
      else if has_prefix ''+'' raw \<and> isDigitString (tl raw) then tl raw
      else (case (if isHexAddress raw then hex_decode raw else None) of
              Some decoded \<Rightarrow> decodeE164Digits decoded
            | None \<Rightarrow> decodeE164Digits (bytes_of_string raw)))"

section \<open>Answers and requests\<close>

abbreviation Vendor3GPP :: "32 word" where "Vendor3GPP \<equiv> 10415"
abbreviation DiameterSuccess :: "32 word" where "DiameterSuccess \<equiv> 2001"
abbreviation DiameterUnableToDeliver :: "32 word" where "DiameterUnableToDeliver \<equiv> 3002"
abbreviation DiameterUnableToComply :: "32 word" where "DiameterUnableToComply \<equiv> 5012"

text \<open>An error of the S6c client: \<open>ErrUnknownUser\<close> is the one the registry tells apart.\<close>

datatype s6c_error = ErrUnknownUser "32 word" | S6cFailure string

record routing_info =
  ri_IMSI :: string
  ri_MSISDN :: string
  ri_Attached :: bool
  ri_MMEName :: string
  ri_MMENumber :: string
  ri_MMERealm :: string
  ri_MWDStatus :: "32 word"
  ri_SessionID :: string
  ri_ResultCode :: "32 word"

definition parseResultCode :: "dmsg \<Rightarrow> 32 word" where
  "parseResultCode m =
     (case FindAVP m 268 0 of
        None \<Rightarrow> DiameterUnableToComply
      | Some rc \<Rightarrow> (case avp_Uint32 rc of Ok v \<Rightarrow> v | _ \<Rightarrow> DiameterUnableToComply))"

definition parseStringAVP :: "dmsg \<Rightarrow> 32 word \<Rightarrow> 32 word \<Rightarrow> string" where
  "parseStringAVP m code vendorID = (case FindAVP m code vendorID of None \<Rightarrow> [] | Some a \<Rightarrow> avp_String a)"

text \<open>\<open>v, _ := a.Uint32()\<close>: the value, 0 when the length is wrong.\<close>

definition uint32_or_0 :: "avp option \<Rightarrow> 32 word" where
  "uint32_or_0 a = (case a of None \<Rightarrow> 0 | Some a \<Rightarrow> (case avp_Uint32 a of Ok v \<Rightarrow> v | _ \<Rightarrow> 0))"

definition serving_node_child :: "routing_info \<Rightarrow> avp \<Rightarrow> routing_info" where
  "serving_node_child info child =
     (if avp_Code child = 2402 \<and> avp_VendorID child = Vendor3GPP
      then info\<lparr>ri_MMEName := avp_String child\<rparr>
      else if (avp_Code child = 2403 \<or> avp_Code child = 1645) \<and> avp_VendorID child = Vendor3GPP
      then info\<lparr>ri_MMENumber := NormalizeE164Address (avp_String child)\<rparr>
      else if avp_Code child = 2408 \<and> avp_VendorID child = Vendor3GPP
      then info\<lparr>ri_MMERealm := avp_String child\<rparr>
      else info)"

definition parseSRIAnswer :: "dmsg \<Rightarrow> s6c_error + routing_info" where
  "parseSRIAnswer m =
     (let rc = parseResultCode m in
      if rc \<noteq> DiameterSuccess then Inl (ErrUnknownUser rc)
      else
        let info = \<lparr>ri_IMSI = parseStringAVP m 1 0,
              ri_MSISDN = (case FindAVP m 701 Vendor3GPP of Some a \<Rightarrow> decodeTBCD (avp_Data a) | None \<Rightarrow> []),
              ri_Attached = False, ri_MMEName = [], ri_MMENumber = [], ri_MMERealm = [],
              ri_MWDStatus = uint32_or_0 (FindAVP m 3312 Vendor3GPP),
              ri_SessionID = parseStringAVP m 263 0, ri_ResultCode = rc\<rparr>
        in (case FindAVP m 2401 Vendor3GPP of
              None \<Rightarrow> Inr info
            | Some node \<Rightarrow>
                (case DecodeGrouped node of
                   Ok children \<Rightarrow>
                     (let info = foldl serving_node_child info children
                      in Inr (info\<lparr>ri_Attached := (ri_MMEName info \<noteq> [])\<rparr>))
                 | _ \<Rightarrow> Inl (S6cFailure ''s6c: decode Serving-Node''))))"

definition parseRSDSAnswer :: "dmsg \<Rightarrow> s6c_error + (string \<times> 32 word \<times> 32 word)" where
  "parseRSDSAnswer m =
     (let rc = parseResultCode m in
      if rc \<noteq> DiameterSuccess then Inl (ErrUnknownUser rc)
      else Inr (parseStringAVP m 263 0, rc, uint32_or_0 (FindAVP m 3312 Vendor3GPP)))"

fun user_identifier_child :: "string \<times> string \<Rightarrow> avp \<Rightarrow> string \<times> string" where
  "user_identifier_child (imsi, msisdn) child =
     (if avp_Code child = 1 \<and> avp_VendorID child = 0 then (avp_String child, msisdn)
      else if avp_Code child = 701 \<and> avp_VendorID child = Vendor3GPP
      then (imsi, decodeTBCD (avp_Data child))
      else (imsi, msisdn))"

definition parseUserIdentifier :: "dmsg \<Rightarrow> string \<times> string" where
  "parseUserIdentifier m =
     (case FindAVP m 3102 Vendor3GPP of
        None \<Rightarrow> ([], [])
      | Some uid \<Rightarrow>
          (case DecodeGrouped uid of
             Ok children \<Rightarrow> foldl user_identifier_child ([], []) children
           | _ \<Rightarrow> ([], [])))"

definition buildUserIdentifier :: "string \<Rightarrow> string \<Rightarrow> avp option" where
  "buildUserIdentifier imsi msisdn =
     (let children = (if imsi \<noteq> [] then [NewString 1 0 FlagMandatory imsi] else []) @
            (if msisdn \<noteq> [] then [NewOctetString 701 Vendor3GPP 0xC0 (encodeTBCD msisdn)] else [])
      in if children = [] then None else Some (NewGrouped 3102 Vendor3GPP 0xC0 children))"

definition parseServingNodeMME :: "avp \<Rightarrow> string" where
  "parseServingNodeMME a =
     (case DecodeGrouped a of
        Ok children \<Rightarrow>
          (case find (\<lambda>c. avp_Code c = 2402 \<and> avp_VendorID c = Vendor3GPP) children of
             Some c \<Rightarrow> avp_String c
           | None \<Rightarrow> [])
      | _ \<Rightarrow> [])"

text \<open>\<open>encoding/base64.StdEncoding\<close>: six bits a character, padded to groups of four.\<close>

definition b64_char :: "nat \<Rightarrow> char" where
  "b64_char n = ''ABCDEFGHIJKLMNOPQRSTUVWXYZabcdefghijklmnopqrstuvwxyz0123456789+/'' ! (n mod 64)"

fun base64 :: "bytes \<Rightarrow> string" where
  "base64 [] = []"
| "base64 [a] = [b64_char (unat a div 4), b64_char (unat a mod 4 * 16), CHR ''='', CHR ''='']"
| "base64 [a, b] = [b64_char (unat a div 4), b64_char (unat a mod 4 * 16 + unat b div 16),
     b64_char (unat b mod 16 * 4), CHR ''='']"
| "base64 (a # b # c # r) = b64_char (unat a div 4) # b64_char (unat a mod 4 * 16 + unat b div 16) #
     b64_char (unat b mod 16 * 4 + unat c div 64) # b64_char (unat c mod 64) # base64 r"

record alert_request =
  al_SessionID :: string
  al_OriginHost :: string
  al_OriginRealm :: string
  al_MSISDN :: string
  al_IMSI :: string
  al_SCAddress :: string
  al_AlertCorrelationID :: string
  al_AlertReason :: "32 word"
  al_ServingNode :: string
  al_MaximumUEAvailabilityTime :: "int option"
  al_SMSGMSCAlertEvent :: "32 word"
  al_AbsentUserDiagnosticSM :: "32 word"

text \<open>The Unix time, in nanoseconds, of a Diameter time stamp.\<close>

definition decodeDiameterTime :: "32 word \<Rightarrow> int" where
  "decodeDiameterTime v = (if v \<le> 2208988800 then 0 else int (unat (v - 2208988800)) * Second)"

definition parseAlertServiceCentre :: "dmsg \<Rightarrow> alert_request outcome" where
  "parseAlertServiceCentre m =
     (if parseStringAVP m 263 0 = [] then Err ''missing Session-Id''
      else
        let (imsi, msisdn) = parseUserIdentifier m in
        Ok \<lparr>al_SessionID = parseStringAVP m 263 0, al_OriginHost = parseStringAVP m 264 0,
            al_OriginRealm = parseStringAVP m 296 0,
            al_MSISDN = (if msisdn = [] then
                (case FindAVP m 701 Vendor3GPP of Some a \<Rightarrow> decodeTBCD (avp_Data a) | None \<Rightarrow> []) else msisdn),
            al_IMSI = (if imsi = [] then parseStringAVP m 1 0 else imsi),
            al_SCAddress = (case FindAVP m 3300 Vendor3GPP of Some a \<Rightarrow> decodeTBCD (avp_Data a) | None \<Rightarrow> []),
            al_AlertCorrelationID = (case FindAVP m 3324 Vendor3GPP of
                Some a \<Rightarrow> if avp_Data a \<noteq> [] then base64 (avp_Data a) else [] | None \<Rightarrow> []),
            al_AlertReason = uint32_or_0 (FindAVP m 1434 Vendor3GPP),
            al_ServingNode = (case FindAVP m 2401 Vendor3GPP of Some a \<Rightarrow> parseServingNodeMME a | None \<Rightarrow> []),
            al_MaximumUEAvailabilityTime = (case FindAVP m 3329 Vendor3GPP of
                Some a \<Rightarrow> (case avp_Uint32 a of Ok v \<Rightarrow> Some (decodeDiameterTime v) | _ \<Rightarrow> None)
              | None \<Rightarrow> None),
            al_SMSGMSCAlertEvent = uint32_or_0 (FindAVP m 3333 Vendor3GPP),
            al_AbsentUserDiagnosticSM = uint32_or_0 (FindAVP m 3322 Vendor3GPP)\<rparr>)"

section \<open>Lemmas\<close>

lemma appendDigit_nibble: "is_digit d \<Longrightarrow> appendDigit out (byte_of (digit_val d)) = out @ [d]"
  using digit_val_le [of d] by (simp add: appendDigit_def word_le_nat_alt)

lemma decodeTBCD_octets:
  "list_all is_digit s \<Longrightarrow> even (length s) \<Longrightarrow> decodeTBCD_from out (tbcd_octets s) = out @ s"
proof (induction s arbitrary: out rule: tbcd_octets.induct)
  case (1 c c' cs)
  then have d: "digit_val c \<le> 9" "digit_val c' \<le> 9" by (auto dest: digit_val_le)
  obtain b where b: "b = push_bit 4 (digitNibble c') OR digitNibble c"
    "b AND 0x0F = byte_of (digit_val c)" "drop_bit 4 b AND 0x0F = byte_of (digit_val c')"
    using nibbles [of "digit_val c" "digit_val c'"] d 1 by (simp add: digitNibble_def or.commute)
  have "decodeTBCD_from (out @ [c, c']) (tbcd_octets cs) = (out @ [c, c']) @ cs"
    using 1 by (intro "1.IH") auto
  then show ?case using 1 by (simp add: b(1) [symmetric]) (simp add: b(2,3) appendDigit_nibble)
qed auto

lemma decodeTBCD_octets_odd:
  "list_all is_digit s \<Longrightarrow> odd (length s) \<Longrightarrow> decodeTBCD_from out (tbcd_octets (s @ ''F'')) = out @ s"
proof (induction s arbitrary: out rule: induct_list012)
  case (2 c)
  then have d: "digit_val c \<le> 9" by (auto dest: digit_val_le)
  have F: "\<not> is_digit (CHR ''F'')" by (simp add: is_digit_def)
  obtain b where b: "b = push_bit 4 (byte_of 15) OR byte_of (digit_val c)"
    "b AND 0x0F = byte_of (digit_val c)" "drop_bit 4 b AND 0x0F = byte_of 15"
    using nibbles [of "digit_val c" 15] d by (simp add: or.commute)
  have "tbcd_octets ([c] @ ''F'') = [b]" using 2 F by (simp add: digitNibble_def b(1) byte_of_def)
  then show ?case using 2 b(2,3)
    by (simp add: appendDigit_nibble) (simp add: appendDigit_def word_le_nat_alt)
next
  case (3 c c' cs)
  then have d: "digit_val c \<le> 9" "digit_val c' \<le> 9" by (auto dest: digit_val_le)
  obtain b where b: "b = push_bit 4 (digitNibble c') OR digitNibble c"
    "b AND 0x0F = byte_of (digit_val c)" "drop_bit 4 b AND 0x0F = byte_of (digit_val c')"
    using nibbles [of "digit_val c" "digit_val c'"] d 3 by (simp add: digitNibble_def or.commute)
  have "decodeTBCD_from (out @ [c, c']) (tbcd_octets (cs @ ''F'')) = (out @ [c, c']) @ cs"
    using 3 by (intro "3.IH"(1)) auto
  then show ?case using 3 by (simp add: b(1) [symmetric]) (simp add: b(2,3) appendDigit_nibble)
qed simp

lemma decodeTBCD_encodeTBCD: "list_all is_digit s \<Longrightarrow> decodeTBCD (encodeTBCD s) = s"
  using trim_plus_digits [of s] decodeTBCD_octets [of s "[]"] decodeTBCD_octets_odd [of s "[]"]
  by (simp add: decodeTBCD_def encodeTBCD_def Let_def list_all_iff)

lemma appendDigit_digits: "list_all is_digit out \<Longrightarrow> list_all is_digit (appendDigit out n)"
  by (simp add: appendDigit_def word_le_nat_alt)

lemma decodeTBCD_digits: "list_all is_digit out \<Longrightarrow> list_all is_digit (decodeTBCD_from out b)"
  by (induction out b rule: decodeTBCD_from.induct) (simp_all add: appendDigit_digits)

lemma NormalizeE164Address_digits: "list_all is_digit (NormalizeE164Address raw)"
  by (auto simp: NormalizeE164Address_def Let_def decodeE164Digits_def decodeTBCD_def decodeTBCD_digits
      isDigitString_def split: option.split)

lemma NormalizeE164Address_id: "list_all is_digit s \<Longrightarrow> NormalizeE164Address s = s"
  by (cases "s = []") (auto simp: NormalizeE164Address_def trim_space_digits list_all_iff isDigitString_def Let_def)

section \<open>Properties\<close>

text \<open>
  Normalising an E.164 address always gives a digit string, leaves digit strings alone and is
  therefore idempotent: an address read back from the subscriber table is not decoded twice.
\<close>

theorem s6c_normalize_idempotent:
  "list_all is_digit (NormalizeE164Address raw) \<and>
     NormalizeE164Address (NormalizeE164Address raw) = NormalizeE164Address raw"
  using NormalizeE164Address_digits NormalizeE164Address_id by blast

text \<open>A digit string survives TBCD encoding and decoding, of even and of odd length.\<close>

theorem s6c_tbcd_roundtrip:
  assumes "list_all is_digit s"
  shows "decodeTBCD (encodeTBCD s) = s"
  by (rule decodeTBCD_encodeTBCD [OF assms])

theorem s6c_tbcd_roundtrip_witness: "decodeTBCD (encodeTBCD ''33420'') = ''33420''"
  by (rule s6c_tbcd_roundtrip) (simp add: is_digit_def)

end
