(* ===== verification/World.thy ===== *)
theory World
  imports Routing SmppCodec S6cCodec "HOL-Library.State_Monad"
begin

text \<open>
  What the delivery engine acts on and what acts on it. \<open>world\<close> is the state of the process (the
  store, the registration cache, the rule and mapping tables) with the trace of the messages and
  queries it has sent out; \<open>env\<close> is everything outside: the clock, the random source and the
  far ends, whose answers may depend on all that was sent before. An operation of the engine is
  a computation in the state monad over \<open>world\<close>. Far ends that are not configured are \<open>None\<close>.
\<close>

section \<open>State\<close>

record registration =
  reg_MSISDN :: string
  reg_IMSI :: string
  reg_SIPAOR :: string
  reg_ContactURI :: string
  reg_SCSCF :: string
  reg_Registered :: bool
  reg_Expiry :: int

datatype event =
    SentISC message "registration option"
  | SentSimple message sip_peer
  | SentSMPP string pdu
  | SentLink string pdu
  | SentSGd message string string
  | QueriedSh string
  | QueriedS6c string
  | ReportedS6c string string string "32 word"

type_synonym trace = "event list"

record world =
  w_db :: db
  w_cache :: "string \<rightharpoonup> registration"
  w_s6cTTL :: duration
  w_engine :: engine
  w_mapper :: "mapper option"
  w_trace :: trace
  w_ticks :: nat

type_synonym 'a process = "(world, 'a) state"

section \<open>The outside\<close>

text \<open>An error of a sender: one with a text, or the \<open>OFAResultError\<close> of the SGd server.\<close>

datatype send_error = SendError string | OFAResultError "32 word"

record sh_data =
  ud_SIPAoR :: string
  ud_SCSCFName :: string
  ud_Registered :: bool

datatype sh_reply = ShData sh_data | ShUnknownUser | ShUnsupportedUserData string | ShError string

datatype s6c_reply = S6cInfo routing_info | S6cUnknownUser | S6cError string

record smpp_manager =
  sm_HasPeer :: "trace \<Rightarrow> string \<Rightarrow> bool"
  sm_SendViaPeer :: "trace \<Rightarrow> string \<Rightarrow> pdu \<Rightarrow> pdu outcome"

record sgd_sender =
  sgd_SendOFR :: "trace \<Rightarrow> message \<Rightarrow> string \<Rightarrow> string \<Rightarrow> send_error option"
  sgd_HasPeerForMME :: "(trace \<Rightarrow> string \<Rightarrow> bool) option"

text \<open>
  The far ends of the report correlator: the S6c reporter (\<open>False\<close> is an error) and the links of
  the SMPP server, where \<open>None\<close> is no link by that name and \<open>Some False\<close> a link that failed.
\<close>

record correlator =
  co_s6c :: "(trace \<Rightarrow> string \<Rightarrow> string \<Rightarrow> string \<Rightarrow> string \<Rightarrow> 32 word \<Rightarrow> bool) option"
  co_smppMgr :: "smpp_manager option"
  co_smppReg :: "(trace \<Rightarrow> string \<Rightarrow> pdu \<Rightarrow> bool option) option"
  co_scAddr :: string

record env =
  ev_clock :: "nat \<Rightarrow> int"
  ev_random :: "nat \<Rightarrow> bytes"
  ev_sh :: "(trace \<Rightarrow> string \<Rightarrow> sh_reply) option"
  ev_s6c :: "(trace \<Rightarrow> string \<Rightarrow> s6c_reply) option"
  ev_isc :: "(trace \<Rightarrow> message \<Rightarrow> registration option \<Rightarrow> send_error option) option"
  ev_simple :: "(trace \<Rightarrow> message \<Rightarrow> sip_peer \<Rightarrow> send_error option) option"
  ev_smpp :: "smpp_manager option"
  ev_sgd :: "sgd_sender option"
  ev_reporter :: "correlator option"
  ev_scAddr :: string
  ev_maxQueueLifetime :: duration
  ev_defaultCountryCode :: string
  ev_localNationalLength :: int

section \<open>Primitive steps\<close>

text \<open>Reading the clock or the random source: every reading is a new one.\<close>

definition now_of :: "env \<Rightarrow> int process" where
  "now_of E = State (\<lambda>w. (ev_clock E (w_ticks w), w\<lparr>w_ticks := Suc (w_ticks w)\<rparr>))"

definition random_of :: "env \<Rightarrow> bytes process" where
  "random_of E = State (\<lambda>w. (ev_random E (w_ticks w), w\<lparr>w_ticks := Suc (w_ticks w)\<rparr>))"

definition gets :: "(world \<Rightarrow> 'a) \<Rightarrow> 'a process" where
  "gets f = State (\<lambda>w. (f w, w))"

definition store :: "(db \<Rightarrow> 'a option \<times> db) \<Rightarrow> 'a option process" where
  "store f = State (\<lambda>w. let (r, d) = f (w_db w) in (r, w\<lparr>w_db := d\<rparr>))"

text \<open>Something sent to a far end: its answer, decided by the trace so far, and the longer trace.\<close>

definition send_out :: "event \<Rightarrow> (trace \<Rightarrow> 'a) \<Rightarrow> 'a process" where
  "send_out ev answer = State (\<lambda>w. (answer (w_trace w), w\<lparr>w_trace := w_trace w @ [ev]\<rparr>))"

definition cache_put :: "registration \<Rightarrow> unit process" where
  "cache_put reg = State (\<lambda>w. ((), w\<lparr>w_cache := (w_cache w)(reg_MSISDN reg \<mapsto> reg)\<rparr>))"

definition cache_delete :: "string \<Rightarrow> unit process" where
  "cache_delete msisdn = State (\<lambda>w. ((), w\<lparr>w_cache := (w_cache w)(msisdn := None)\<rparr>))"

named_theorems steps "what a primitive step does to the world"

lemma run_primitive [simp, steps]:
  "run_state (now_of E) w = (ev_clock E (w_ticks w), w\<lparr>w_ticks := Suc (w_ticks w)\<rparr>)"
  "run_state (random_of E) w = (ev_random E (w_ticks w), w\<lparr>w_ticks := Suc (w_ticks w)\<rparr>)"
  "run_state (gets f) w = (f w, w)"
  "run_state (store op) w = (fst (op (w_db w)), w\<lparr>w_db := snd (op (w_db w))\<rparr>)"
  "run_state (send_out ev answer) w = (answer (w_trace w), w\<lparr>w_trace := w_trace w @ [ev]\<rparr>)"
  "run_state (cache_put reg) w = ((), w\<lparr>w_cache := (w_cache w)(reg_MSISDN reg \<mapsto> reg)\<rparr>)"
  "run_state (cache_delete msisdn) w = ((), w\<lparr>w_cache := (w_cache w)(msisdn := None)\<rparr>)"
  by (simp_all add: now_of_def random_of_def gets_def store_def send_out_def cache_put_def cache_delete_def
      split: prod.splits)

lemma run_if [simp]: "run_state (if b then p else q) w = (if b then run_state p w else run_state q w)"
  by simp

section \<open>What a process leaves alone\<close>

text \<open>
  \<open>stays f p\<close>: the part \<open>f\<close> of the world is the same after \<open>p\<close>. It passes through every way of
  composing processes, so a component's frame conditions follow from those of its steps.
\<close>

definition stays :: "(world \<Rightarrow> 'b) \<Rightarrow> 'a process \<Rightarrow> bool" where
  "stays f p \<longleftrightarrow> (\<forall>w. f (snd (run_state p w)) = f w)"

named_theorems frame "what a process leaves alone"

lemma staysD: "stays f p \<Longrightarrow> f (snd (run_state p w)) = f w"
  by (simp add: stays_def)

lemma stays_return [frame, simp]: "stays f (State_Monad.return x)"
  by (simp add: stays_def)

lemma stays_bind [frame]: "stays f p \<Longrightarrow> (\<And>x. stays f (q x)) \<Longrightarrow> stays f (State_Monad.bind p q)"
  by (simp add: stays_def split: prod.splits) (metis snd_conv)

lemma stays_if [frame]: "(b \<Longrightarrow> stays f p) \<Longrightarrow> (\<not> b \<Longrightarrow> stays f q) \<Longrightarrow> stays f (if b then p else q)"
  by simp

lemma stays_option [frame]:
  "(x = None \<Longrightarrow> stays f p) \<Longrightarrow> (\<And>y. x = Some y \<Longrightarrow> stays f (q y)) \<Longrightarrow> stays f (case x of None \<Rightarrow> p | Some y \<Rightarrow> q y)"
  by (cases x) auto

lemma stays_primitive [frame, simp]:
  "(\<And>w n. f (w\<lparr>w_ticks := n\<rparr>) = f w) \<Longrightarrow> stays f (now_of E)"
  "(\<And>w n. f (w\<lparr>w_ticks := n\<rparr>) = f w) \<Longrightarrow> stays f (random_of E)"
  "stays f (gets g)"
  "(\<And>w d. f (w\<lparr>w_db := d\<rparr>) = f w) \<Longrightarrow> stays f (store op)"
  "(\<And>w t. f (w\<lparr>w_trace := t\<rparr>) = f w) \<Longrightarrow> stays f (send_out ev answer)"
  "(\<And>w c. f (w\<lparr>w_cache := c\<rparr>) = f w) \<Longrightarrow> stays f (cache_put reg)"
  "(\<And>w c. f (w\<lparr>w_cache := c\<rparr>) = f w) \<Longrightarrow> stays f (cache_delete msisdn)"
  by (simp_all add: stays_def)

lemma stays_store [frame]: "(\<And>d. g (snd (op d)) = g d) \<Longrightarrow> stays (\<lambda>w. g (w_db w)) (store op)"
  by (simp add: stays_def)

lemma db_call_frame: "(\<And>d. g (snd (f d)) = g d) \<Longrightarrow> (\<And>d fs. g (d\<lparr>db_faults := fs\<rparr>) = g d) \<Longrightarrow> g (snd (db_call f d)) = g d"
  by (cases rule: db_call_cases [of f d]) (auto simp: snd_map_prod)

lemma stays_Let [frame]: "(\<And>x. stays f (p x)) \<Longrightarrow> stays f (Let v p)"
  by simp

lemma stays_prod [frame]: "(\<And>a b. stays f (p a b)) \<Longrightarrow> stays f (case x of (a, b) \<Rightarrow> p a b)"
  by (cases x) simp

lemma stays_sum [frame]:
  "(\<And>a. x = Inl a \<Longrightarrow> stays f (p a)) \<Longrightarrow> (\<And>b. x = Inr b \<Longrightarrow> stays f (q b)) \<Longrightarrow>
     stays f (case x of Inl a \<Rightarrow> p a | Inr b \<Rightarrow> q b)"
  by (cases x) auto

lemma stays_list [frame]: "(xs = [] \<Longrightarrow> stays f p) \<Longrightarrow> (\<And>y ys. xs = y # ys \<Longrightarrow> stays f (q y ys)) \<Longrightarrow>
    stays f (case xs of [] \<Rightarrow> p | y # ys \<Rightarrow> q y ys)"
  by (cases xs) auto

text \<open>\<open>keeps P p\<close>: what held before \<open>p\<close> holds after it.\<close>

definition keeps :: "(world \<Rightarrow> bool) \<Rightarrow> 'a process \<Rightarrow> bool" where
  "keeps P p \<longleftrightarrow> (\<forall>w. P w \<longrightarrow> P (snd (run_state p w)))"

named_theorems kept "what a process keeps true"

lemma keepsD: "keeps P p \<Longrightarrow> P w \<Longrightarrow> P (snd (run_state p w))"
  by (simp add: keeps_def)

lemma keeps_run: "keeps P p \<Longrightarrow> run_state p w = (x, w') \<Longrightarrow> P w \<Longrightarrow> P w'"
  by (metis keepsD snd_conv)

lemma keeps_return [kept, simp]: "keeps P (State_Monad.return x)"
  by (simp add: keeps_def)

lemma keeps_bind [kept]: "keeps P p \<Longrightarrow> (\<And>x. keeps P (q x)) \<Longrightarrow> keeps P (State_Monad.bind p q)"
  by (simp add: keeps_def split: prod.splits) (metis snd_conv)

lemma keeps_if [kept]: "(b \<Longrightarrow> keeps P p) \<Longrightarrow> (\<not> b \<Longrightarrow> keeps P q) \<Longrightarrow> keeps P (if b then p else q)"
  by simp

lemma keeps_option [kept]:
  "(x = None \<Longrightarrow> keeps P p) \<Longrightarrow> (\<And>y. x = Some y \<Longrightarrow> keeps P (q y)) \<Longrightarrow> keeps P (case x of None \<Rightarrow> p | Some y \<Rightarrow> q y)"
  by (cases x) auto

lemma keeps_list [kept]: "(xs = [] \<Longrightarrow> keeps P p) \<Longrightarrow> (\<And>y ys. xs = y # ys \<Longrightarrow> keeps P (q y ys)) \<Longrightarrow>
    keeps P (case xs of [] \<Rightarrow> p | y # ys \<Rightarrow> q y ys)"
  by (cases xs) auto

lemma keeps_Let [kept]: "(\<And>x. keeps P (p x)) \<Longrightarrow> keeps P (Let v p)"
  by simp

lemma keeps_prod [kept]: "(\<And>a b. keeps P (p a b)) \<Longrightarrow> keeps P (case x of (a, b) \<Rightarrow> p a b)"
  by (cases x) simp

lemma keeps_sum [kept]:
  "(\<And>a. x = Inl a \<Longrightarrow> keeps P (p a)) \<Longrightarrow> (\<And>b. x = Inr b \<Longrightarrow> keeps P (q b)) \<Longrightarrow>
     keeps P (case x of Inl a \<Rightarrow> p a | Inr b \<Rightarrow> q b)"
  by (cases x) auto

lemma prod_arg: "stays f (case x of (a, b) \<Rightarrow> p a b c) \<Longrightarrow> stays f ((case x of (a, b) \<Rightarrow> p a b) c)"
  "keeps P (case x of (a, b) \<Rightarrow> p a b c) \<Longrightarrow> keeps P ((case x of (a, b) \<Rightarrow> p a b) c)"
  by (cases x; simp)+

declare prod_arg(1) [frame] prod_arg(2) [kept]

text \<open>A calm world: no statement is going to fail.\<close>

definition calm :: "world \<Rightarrow> bool" where
  "calm w \<longleftrightarrow> db_faults (w_db w) = []"

lemma calm_updates [simp]:
  "calm (w\<lparr>w_ticks := n\<rparr>) = calm w" "calm (w\<lparr>w_trace := t\<rparr>) = calm w" "calm (w\<lparr>w_cache := c\<rparr>) = calm w"
  "calm (w\<lparr>w_db := d\<rparr>) \<longleftrightarrow> db_faults d = []"
  by (simp_all add: calm_def)

lemma calm_primitive [kept, simp]:
  "keeps calm (now_of E)" "keeps calm (random_of E)" "keeps calm (gets g)" "keeps calm (send_out ev answer)"
  "keeps calm (cache_put reg)" "keeps calm (cache_delete msisdn)"
  by (simp_all add: keeps_def)

lemma calm_store [kept]:
  "(\<And>d. db_faults d = [] \<Longrightarrow> db_faults (snd (op d)) = []) \<Longrightarrow> keeps calm (store op)"
  by (simp add: keeps_def calm_def)

lemma db_call_calm:
  "(\<And>d. db_faults (snd (f d)) = db_faults d) \<Longrightarrow> db_faults d = [] \<Longrightarrow> db_faults (snd (db_call f d)) = []"
  by (simp add: db_call_no_fault snd_map_prod)

lemma statement_faults [simp]:
  assumes "db_faults d = []"
  shows "db_faults (snd (SaveMessage m d)) = []" "db_faults (snd (UpdateMessageRouting mid a b d)) = []"
    "db_faults (snd (UpdateMessageDeferred mid a b c n d)) = []" "db_faults (snd (UpdateMessageStatus now mid st d)) = []"
    "db_faults (snd (UpdateMessageRetry mid k t n d)) = []" "db_faults (snd (UpdateMessageExpiryCap mid t d)) = []"
    "db_faults (snd (GetMessage mid d)) = []" "db_faults (snd (GetSFPolicy pid d)) = []"
    "db_faults (snd (GetSIPPeer a d)) = []" "db_faults (snd (GetSubscriber a d)) = []"
    "db_faults (snd (UpsertSubscriber now s d)) = []" "db_faults (snd (UpsertIMSRegistration r d)) = []"
    "db_faults (snd (DeleteIMSRegistration a d)) = []" "db_faults (snd (SaveDeliveryReport rep d)) = []"
  unfolding SaveMessage_def UpdateMessageRouting_def UpdateMessageDeferred_def UpdateMessageStatus_def
    UpdateMessageRetry_def UpdateMessageExpiryCap_def GetMessage_def GetSFPolicy_def GetSIPPeer_def
    GetSubscriber_def UpsertSubscriber_def UpsertIMSRegistration_def DeleteIMSRegistration_def SaveDeliveryReport_def snd_db_try
  using assms by (intro db_call_calm; simp add: Let_def db_step_def)+

text \<open>The statements that do not touch the message table.\<close>

lemma statement_messages [simp]:
  "db_messages (snd (GetMessage mid d)) = db_messages d" "db_messages (snd (GetSFPolicy pid d)) = db_messages d"
  "db_messages (snd (GetSIPPeer a d)) = db_messages d" "db_messages (snd (GetSubscriber a d)) = db_messages d"
  "db_messages (snd (UpsertSubscriber now s d)) = db_messages d"
  "db_messages (snd (UpsertIMSRegistration r d)) = db_messages d"
  "db_messages (snd (DeleteIMSRegistration a d)) = db_messages d"
  "db_messages (snd (SaveDeliveryReport rep d)) = db_messages d"
  unfolding GetMessage_def GetSFPolicy_def GetSIPPeer_def GetSubscriber_def UpsertSubscriber_def
    UpsertIMSRegistration_def DeleteIMSRegistration_def SaveDeliveryReport_def snd_db_try
  by (rule db_call_frame; simp add: Let_def db_step_def)+

lemma statement_backend [simp]:
  "db_backend (snd (GetMessage mid d)) = db_backend d" "db_backend (snd (GetSFPolicy pid d)) = db_backend d"
  "db_backend (snd (GetSIPPeer a d)) = db_backend d" "db_backend (snd (GetSubscriber a d)) = db_backend d"
  "db_backend (snd (UpsertSubscriber now s d)) = db_backend d"
  "db_backend (snd (UpsertIMSRegistration r d)) = db_backend d"
  "db_backend (snd (DeleteIMSRegistration a d)) = db_backend d"
  "db_backend (snd (SaveDeliveryReport rep d)) = db_backend d"
  unfolding GetMessage_def GetSFPolicy_def GetSIPPeer_def GetSubscriber_def UpsertSubscriber_def
    UpsertIMSRegistration_def DeleteIMSRegistration_def SaveDeliveryReport_def snd_db_try
  by (rule db_call_frame; simp add: Let_def db_step_def)+

text \<open>Nor do they touch the policies.\<close>

lemma statement_policies [simp]:
  "db_policies (snd (GetMessage mid d)) = db_policies d" "db_policies (snd (GetSFPolicy pid d)) = db_policies d"
  "db_policies (snd (GetSIPPeer a d)) = db_policies d" "db_policies (snd (GetSubscriber a d)) = db_policies d"
  "db_policies (snd (UpsertSubscriber now s d)) = db_policies d"
  "db_policies (snd (UpsertIMSRegistration r d)) = db_policies d"
  "db_policies (snd (DeleteIMSRegistration a d)) = db_policies d"
  "db_policies (snd (SaveDeliveryReport rep d)) = db_policies d"
  unfolding GetMessage_def GetSFPolicy_def GetSIPPeer_def GetSubscriber_def UpsertSubscriber_def
    UpsertIMSRegistration_def DeleteIMSRegistration_def SaveDeliveryReport_def snd_db_try
  by (rule db_call_frame; simp add: Let_def db_step_def)+

abbreviation policies_of :: "world \<Rightarrow> sf_policy list" where "policies_of w \<equiv> db_policies (w_db w)"
abbreviation backend_of :: "world \<Rightarrow> backend" where "backend_of w \<equiv> db_backend (w_db w)"
abbreviation messages_of :: "world \<Rightarrow> smsg list" where "messages_of w \<equiv> db_messages (w_db w)"

end
