(* ===== verification/Registry.thy ===== *)
theory Registry
  imports World
begin

text \<open>
  The subscriber registry of \<open>internal/registry\<close>: the IMS registrations cached in memory and
  kept in the store, refreshed over Sh, and the LTE routing data, which only the subscriber table
  holds, refreshed over S6c when it is older than the configured time to live.
\<close>

section \<open>Registrations\<close>

definition storeToReg :: "ims_registration \<Rightarrow> registration" where
  "storeToReg s = \<lparr>reg_MSISDN = ir_MSISDN s, reg_IMSI = ir_IMSI s, reg_SIPAOR = ir_SIPAOR s,
     reg_ContactURI = ir_ContactURI s, reg_SCSCF = ir_SCSCF s, reg_Registered = ir_Registered s,
     reg_Expiry = ir_Expiry s\<rparr>"

definition regToStore :: "registration \<Rightarrow> ims_registration" where
  "regToStore r = \<lparr>ir_MSISDN = reg_MSISDN r, ir_IMSI = reg_IMSI r, ir_SIPAOR = reg_SIPAOR r,
     ir_ContactURI = reg_ContactURI r, ir_SCSCF = reg_SCSCF r, ir_Registered = reg_Registered r,
     ir_Expiry = reg_Expiry r\<rparr>"

text \<open>An entry past its expiry is treated as absent; the registered flag is for the caller to check.\<close>

definition registry_Lookup :: "env \<Rightarrow> string \<Rightarrow> registration option process" where
  "registry_Lookup E msisdn = do {
     cache \<leftarrow> gets w_cache;
     (case cache msisdn of
        None \<Rightarrow> State_Monad.return None
      | Some reg \<Rightarrow> do {
          now \<leftarrow> now_of E;
          State_Monad.return (if now > reg_Expiry reg then None else Some reg) })
   }"

text \<open>The cache is written whether or not the store takes the row; the result is the store's.\<close>

definition registry_Upsert :: "registration \<Rightarrow> unit option process" where
  "registry_Upsert reg = do {
     cache_put reg;
     store (UpsertIMSRegistration (regToStore reg))
   }"

definition registry_Delete :: "string \<Rightarrow> unit option process" where
  "registry_Delete msisdn = do {
     cache_delete msisdn;
     store (DeleteIMSRegistration msisdn)
   }"

fun cache_rows :: "ims_registration list \<Rightarrow> (string \<rightharpoonup> registration) \<Rightarrow> string \<rightharpoonup> registration" where
  "cache_rows [] c = c"
| "cache_rows (s # rows) c = cache_rows rows (let reg = storeToReg s in c(reg_MSISDN reg \<mapsto> reg))"

definition registry_loadAll :: "bool process" where
  "registry_loadAll = do {
     regs \<leftarrow> store ListIMSRegistrations;
     (case regs of
        None \<Rightarrow> State_Monad.return False
      | Some rows \<Rightarrow> State (\<lambda>w. (True, w\<lparr>w_cache := cache_rows rows (w_cache w)\<rparr>)))
   }"

definition registry_New :: "bool process" where
  "registry_New = do {
     State (\<lambda>w. ((), w\<lparr>w_cache := (\<lambda>_. None), w_s6cTTL := 300 * Second\<rparr>));
     registry_loadAll
   }"

text \<open>\<open>watchChanges\<close>: one reload per change event, a failed one ignored.\<close>

fun registry_watchChanges :: "nat \<Rightarrow> unit process" where
  "registry_watchChanges 0 = State_Monad.return ()"
| "registry_watchChanges (Suc n) = do { registry_loadAll; registry_watchChanges n }"

definition SetS6cCacheTTL :: "duration \<Rightarrow> unit process" where
  "SetS6cCacheTTL ttl = State (\<lambda>w. ((), w\<lparr>w_s6cTTL := (if ttl \<le> 0 then 0 else ttl)\<rparr>))"

section \<open>Sh\<close>

abbreviation shCacheTTL :: duration where "shCacheTTL \<equiv> 5 * Minute"

definition sh_registration :: "string \<Rightarrow> sh_data \<Rightarrow> int \<Rightarrow> registration" where
  "sh_registration msisdn result now = \<lparr>reg_MSISDN = msisdn, reg_IMSI = [], reg_SIPAOR = ud_SIPAoR result,
     reg_ContactURI = ud_SIPAoR result, reg_SCSCF = ud_SCSCFName result, reg_Registered = True,
     reg_Expiry = now + shCacheTTL\<rparr>"

definition forget_if :: "bool \<Rightarrow> string \<Rightarrow> unit process" where
  "forget_if force msisdn = (if force then do { registry_Delete msisdn; State_Monad.return () }
     else State_Monad.return ())"

definition sh_query :: "env \<Rightarrow> string \<Rightarrow> bool \<Rightarrow> registration option outcome process" where
  "sh_query E msisdn force =
     (case ev_sh E of
        None \<Rightarrow> State_Monad.return (Ok None)
      | Some client \<Rightarrow> do {
          reply \<leftarrow> send_out (QueriedSh msisdn) (\<lambda>tr. client tr msisdn);
          (case reply of
             ShUnknownUser \<Rightarrow> do { forget_if force msisdn; State_Monad.return (Ok None) }
           | ShUnsupportedUserData e \<Rightarrow> State_Monad.return (Err e)
           | ShError e \<Rightarrow> State_Monad.return (Err e)
           | ShData result \<Rightarrow>
               if \<not> ud_Registered result then do { forget_if force msisdn; State_Monad.return (Ok None) }
               else do {
                 now \<leftarrow> now_of E;
                 let reg = sh_registration msisdn result now;
                 registry_Upsert reg;
                 State_Monad.return (Ok (Some reg)) }) })"

definition shLookup :: "env \<Rightarrow> string \<Rightarrow> bool \<Rightarrow> registration option outcome process" where
  "shLookup E msisdn force =
     (if force then sh_query E msisdn force
      else do {
        hit \<leftarrow> registry_Lookup E msisdn;
        (case hit of
           Some reg \<Rightarrow> State_Monad.return (Ok (Some reg))
         | None \<Rightarrow> sh_query E msisdn force) })"

definition ShLookup :: "env \<Rightarrow> string \<Rightarrow> registration option outcome process" where
  "ShLookup E msisdn = shLookup E msisdn False"

definition ShRefresh :: "env \<Rightarrow> string \<Rightarrow> registration option outcome process" where
  "ShRefresh E msisdn = shLookup E msisdn True"

section \<open>S6c\<close>

definition cacheAge :: "int \<Rightarrow> subscriber \<Rightarrow> duration" where
  "cacheAge now sub = (case sub_UpdatedAt sub of None \<Rightarrow> 0 | Some t \<Rightarrow> now - t)"

definition s6cCacheFresh :: "int \<Rightarrow> subscriber \<Rightarrow> duration \<Rightarrow> bool" where
  "s6cCacheFresh now sub ttl \<longleftrightarrow> \<not> (ttl \<le> 0 \<or> sub_UpdatedAt sub = None) \<and> cacheAge now sub \<le> ttl"

definition s6c_usable :: "subscriber \<Rightarrow> bool" where
  "s6c_usable sub \<longleftrightarrow> sub_LTEAttached sub \<and> sub_MMEHost sub \<noteq> [] \<and> sub_IMSI sub \<noteq> []"

definition new_subscriber :: "string \<Rightarrow> subscriber" where
  "new_subscriber msisdn = \<lparr>sub_MSISDN = msisdn, sub_IMSI = [], sub_IMSRegistered = False,
     sub_LTEAttached = False, sub_MMENumber = [], sub_MMEHost = [], sub_MWDSet = False, sub_UpdatedAt = None\<rparr>"

definition s6c_refreshed :: "string \<Rightarrow> subscriber option \<Rightarrow> routing_info \<Rightarrow> subscriber" where
  "s6c_refreshed msisdn sub info =
     (case sub of None \<Rightarrow> new_subscriber msisdn | Some s \<Rightarrow> s)
       \<lparr>sub_MSISDN := msisdn, sub_IMSI := ri_IMSI info, sub_LTEAttached := ri_Attached info,
        sub_MMEHost := ri_MMEName info, sub_MMENumber := NormalizeE164Address (ri_MMENumber info),
        sub_MWDSet := ri_MWDStatus info \<noteq> 0\<rparr>"

definition s6c_query :: "env \<Rightarrow> string \<Rightarrow> subscriber option \<Rightarrow> subscriber option outcome process" where
  "s6c_query E msisdn sub =
     (case ev_s6c E of
        None \<Rightarrow> State_Monad.return (Ok sub)
      | Some client \<Rightarrow> do {
          reply \<leftarrow> send_out (QueriedS6c msisdn) (\<lambda>tr. client tr msisdn);
          (case reply of
             S6cUnknownUser \<Rightarrow> State_Monad.return (Ok sub)
           | S6cError e \<Rightarrow> State_Monad.return (Err e)
           | S6cInfo info \<Rightarrow> do {
               let refreshed = s6c_refreshed msisdn sub info;
               now \<leftarrow> now_of E;
               store (UpsertSubscriber now refreshed);
               State_Monad.return (Ok (Some refreshed)) }) })"

definition S6cLookup :: "env \<Rightarrow> string \<Rightarrow> subscriber option outcome process" where
  "S6cLookup E msisdn = do {
     row \<leftarrow> store (GetSubscriber msisdn);
     (case row of
        None \<Rightarrow> State_Monad.return (Err ''get subscriber'')
      | Some sub \<Rightarrow> do {
          ttl \<leftarrow> gets w_s6cTTL;
          now \<leftarrow> now_of E;
          (case sub of
             Some s \<Rightarrow>
               if s6c_usable s \<and> s6cCacheFresh now s ttl
               then State_Monad.return (Ok (Some (s\<lparr>sub_MMENumber := NormalizeE164Address (sub_MMENumber s)\<rparr>)))
               else s6c_query E msisdn sub
           | None \<Rightarrow> s6c_query E msisdn sub) }) }"

section \<open>A cache in front of a table\<close>

text \<open>
  What the callers of the registry rely on: the last write of a key decides what is looked up,
  whatever became of the writes in the table behind.
\<close>

datatype ('k, 'v) cache_write = Put 'v | Drop 'k

fun last_write :: "('v \<Rightarrow> 'k) \<Rightarrow> ('k, 'v) cache_write list \<Rightarrow> 'k \<Rightarrow> ('k, 'v) cache_write option" where
  "last_write key [] k = None"
| "last_write key (op # ops) k =
     (case last_write key ops k of
        Some op' \<Rightarrow> Some op'
      | None \<Rightarrow> if (case op of Put v \<Rightarrow> key v | Drop j \<Rightarrow> j) = k then Some op else None)"

locale write_cache =
  fixes key :: "'v \<Rightarrow> 'k" and put :: "('k, 'v) cache_write \<Rightarrow> 's \<Rightarrow> 's" and cached :: "'s \<Rightarrow> 'k \<Rightarrow> 'v option"
  assumes cached_put: "cached (put (Put v) s) = (cached s)(key v \<mapsto> v)"
    and cached_drop: "cached (put (Drop k) s) = (cached s)(k := None)"
begin

definition writes :: "('k, 'v) cache_write list \<Rightarrow> 's \<Rightarrow> 's" where
  "writes ops s = fold put ops s"

lemma cached_writes:
  "cached (writes ops s) k =
     (case last_write key ops k of Some (Put v) \<Rightarrow> Some v | Some (Drop _) \<Rightarrow> None | None \<Rightarrow> cached s k)"
proof (induction ops arbitrary: s)
  case (Cons op ops)
  have "cached (writes (op # ops) s) k = cached (writes ops (put op s)) k" by (simp add: writes_def)
  also have "\<dots> = (case last_write key ops k of Some (Put v) \<Rightarrow> Some v | Some (Drop _) \<Rightarrow> None
      | None \<Rightarrow> cached (put op s) k)" by (rule Cons.IH)
  finally show ?case
    by (cases op) (auto simp: cached_put cached_drop split: option.splits cache_write.splits)
qed (simp add: writes_def)

end

definition registry_write :: "(string, registration) cache_write \<Rightarrow> world \<Rightarrow> world" where
  "registry_write op w = (case op of
     Put reg \<Rightarrow> snd (run_state (registry_Upsert reg) w)
   | Drop msisdn \<Rightarrow> snd (run_state (registry_Delete msisdn) w))"

interpretation registry: write_cache reg_MSISDN registry_write w_cache
  by unfold_locales (simp_all add: registry_write_def registry_Upsert_def registry_Delete_def)

section \<open>Lemmas\<close>

lemma cache_rows_find:
  "cache_rows rows c k =
     (case find (\<lambda>s. ir_MSISDN s = k) (rev rows) of Some s \<Rightarrow> Some (storeToReg s) | None \<Rightarrow> c k)"
proof (induction rows arbitrary: c)
  case (Cons s rows)
  show ?case by (simp add: Cons.IH find_append storeToReg_def Let_def split: option.splits)
qed simp

lemma run_Lookup:
  "fst (run_state (registry_Lookup E k) w) =
     (case w_cache w k of None \<Rightarrow> None
      | Some reg \<Rightarrow> if ev_clock E (w_ticks w) > reg_Expiry reg then None else Some reg)"
  by (simp add: registry_Lookup_def split: option.splits)

lemma Lookup_frame [frame]:
  "stays w_db (registry_Lookup E k)" "stays w_cache (registry_Lookup E k)" "stays w_trace (registry_Lookup E k)"
  "stays messages_of (registry_Lookup E k)" "stays backend_of (registry_Lookup E k)" "stays policies_of (registry_Lookup E k)" "stays w_engine (registry_Lookup E k)"
  by (simp_all add: stays_def registry_Lookup_def split: option.splits)

lemma write_ticks [simp]: "w_ticks (registry_write op w) = w_ticks w"
  by (cases op) (simp_all add: registry_write_def registry_Upsert_def registry_Delete_def)

lemma writes_ticks [simp]: "w_ticks (registry.writes ops w) = w_ticks w"
  by (induction ops arbitrary: w) (simp_all add: registry.writes_def)

lemma S6cLookup_frame [frame]: "stays messages_of (S6cLookup E m)" "stays backend_of (S6cLookup E m)" "stays policies_of (S6cLookup E m)" "stays w_engine (S6cLookup E m)"
  unfolding S6cLookup_def s6c_query_def
  by (intro frame; simp split: s6c_reply.splits; intro frame impI allI; simp?)+

lemma ShRefresh_frame [frame]: "stays messages_of (ShRefresh E m)" "stays backend_of (ShRefresh E m)" "stays policies_of (ShRefresh E m)" "stays w_engine (ShRefresh E m)"
  unfolding ShRefresh_def shLookup_def sh_query_def forget_if_def registry_Delete_def registry_Upsert_def
  by (intro frame; simp split: sh_reply.splits; intro frame conjI impI allI; simp?)+

lemma registry_calm [kept]:
  "keeps calm (S6cLookup E m)" "keeps calm (ShRefresh E m)" "keeps calm (registry_Lookup E m)"
  unfolding S6cLookup_def s6c_query_def ShRefresh_def shLookup_def sh_query_def forget_if_def registry_Delete_def
    registry_Upsert_def registry_Lookup_def
  by (intro kept calm_store; simp split: s6c_reply.splits sh_reply.splits; intro kept calm_store conjI impI allI; simp?)+

section \<open>Properties\<close>

text \<open>
  Whatever happens to the writes in the database, a lookup sees the last write of its number:
  the registration last upserted unless it has expired by then, nothing after a delete, and the
  old entry for a number that was not written.
\<close>

theorem registry_last_write:
  "fst (run_state (registry_Lookup E k) (fold registry_write ops w)) =
     (case last_write reg_MSISDN ops k of
        Some (Put reg) \<Rightarrow> if ev_clock E (w_ticks w) > reg_Expiry reg then None else Some reg
      | Some (Drop _) \<Rightarrow> None
      | None \<Rightarrow> fst (run_state (registry_Lookup E k) w))"
  using registry.cached_writes [of ops w k] writes_ticks [of ops w]
  by (auto simp: run_Lookup registry.writes_def split: option.splits cache_write.splits)

text \<open>
  A change event merges the table into the cache and removes nothing: afterwards a number
  with a row has that row's registration, a number without one keeps whatever was cached, so a
  registration deleted from the table by another instance is still used until it expires.
\<close>

theorem registry_reload_merges:
  assumes "db_faults (w_db w) = []"
  shows "run_state registry_loadAll w = (True, w\<lparr>w_cache := (\<lambda>k.
    case find (\<lambda>s. ir_MSISDN s = k) (rev (db_registrations (w_db w))) of
      Some s \<Rightarrow> Some (storeToReg s) | None \<Rightarrow> w_cache w k)\<rparr>)"
proof -
  have "cache_rows (db_registrations (w_db w)) (w_cache w) = (\<lambda>k.
    case find (\<lambda>s. ir_MSISDN s = k) (rev (db_registrations (w_db w))) of
      Some s \<Rightarrow> Some (storeToReg s) | None \<Rightarrow> w_cache w k)"
    by (rule ext) (rule cache_rows_find)
  then show ?thesis
    using assms by (simp add: registry_loadAll_def ListIMSRegistrations_def db_call_no_fault)
qed

theorem registry_reload_merges_witness:
  "fst (run_state registry_loadAll \<lparr>w_db = example_db Postgres [], w_cache = (\<lambda>_. None), w_s6cTTL = 0,
     w_engine = [], w_mapper = None, w_trace = [], w_ticks = 0\<rparr>)"
  by (simp add: registry_reload_merges)

text \<open>
  A refresh over Sh and the cache agree: unless the query fails, the cache holds for the
  number exactly what the refresh returns (a registration good for five minutes, or nothing when
  the HSS knows none, so a stale entry is dropped) and is as before for every other number; a
  failed query changes nothing.
\<close>

theorem sh_refresh_agrees:
  assumes "ev_sh E = Some client" and "run_state (ShRefresh E m) w = (r, w')"
  shows "(\<forall>res. r = Ok res \<longrightarrow> w_cache w' = (w_cache w)(m := res)) \<and>
    (\<forall>reg. r = Ok (Some reg) \<longrightarrow> reg_MSISDN reg = m \<and> reg_Registered reg \<and>
       reg_Expiry reg = ev_clock E (w_ticks w) + 5 * Minute) \<and>
    (\<forall>e. r = Err e \<longrightarrow> w_cache w' = w_cache w \<and> w_db w' = w_db w) \<and>
    no_panic r \<and> w_trace w' = w_trace w @ [QueriedSh m]"
  using assms
  by (auto simp: ShRefresh_def shLookup_def sh_query_def forget_if_def registry_Delete_def registry_Upsert_def
      sh_registration_def Let_def split: sh_reply.splits if_splits)

definition example_env :: env where
  "example_env = \<lparr>ev_clock = int, ev_random = (\<lambda>_. replicate 16 0), ev_sh = None, ev_s6c = None,
     ev_isc = None, ev_simple = None, ev_smpp = None, ev_sgd = None, ev_reporter = None, ev_scAddr = ''100'',
     ev_maxQueueLifetime = 0, ev_defaultCountryCode = [], ev_localNationalLength = 0\<rparr>"

definition example_world :: "backend \<Rightarrow> smsg list \<Rightarrow> world" where
  "example_world b ms = \<lparr>w_db = example_db b ms, w_cache = (\<lambda>_. None), w_s6cTTL = 300 * Second,
     w_engine = [], w_mapper = None, w_trace = [], w_ticks = 0\<rparr>"

lemma example_world_fields [simp]:
  "w_db (example_world b ms) = example_db b ms" "w_cache (example_world b ms) = (\<lambda>_. None)"
  "w_trace (example_world b ms) = []" "w_ticks (example_world b ms) = 0" "w_engine (example_world b ms) = []"
  "w_mapper (example_world b ms) = None" "w_s6cTTL (example_world b ms) = 300 * Second"
  by (simp_all add: example_world_def)

definition example_registration :: registration where
  "example_registration = \<lparr>reg_MSISDN = ''49151'', reg_IMSI = [], reg_SIPAOR = [], reg_ContactURI = [],
     reg_SCSCF = ''scscf'', reg_Registered = True, reg_Expiry = 60\<rparr>"

theorem sh_refresh_agrees_witness:
  "\<exists>w'. run_state (ShRefresh (example_env\<lparr>ev_sh := Some (\<lambda>_ _. ShUnknownUser)\<rparr>) ''49'')
     ((example_world Postgres [])\<lparr>w_cache := [''49'' \<mapsto> example_registration]\<rparr>) = (Ok None, w') \<and> w_cache w' ''49'' = None"
proof -
  let ?E = "example_env\<lparr>ev_sh := Some (\<lambda>_ _. ShUnknownUser)\<rparr>"
  let ?w = "(example_world Postgres [])\<lparr>w_cache := [''49'' \<mapsto> example_registration]\<rparr>"
  obtain w' where w': "run_state (ShRefresh ?E ''49'') ?w = (Ok None, w')"
    by (simp add: ShRefresh_def shLookup_def sh_query_def forget_if_def registry_Delete_def)
  moreover have "ev_sh ?E = Some (\<lambda>_ _. ShUnknownUser)" by simp
  ultimately show ?thesis using sh_refresh_agrees [of ?E _ "''49''" ?w "Ok None" w'] by auto
qed

lemma find_upsert_row: "find (\<lambda>y. key y = key x) (upsert_row key x ys) = Some x"
  by (induction ys) auto

lemma set_upsert_row: "set (upsert_row key x ys) \<subseteq> insert x (set ys)"
  by (induction ys) auto

lemma s6c_refreshed_fields [simp]:
  "sub_MSISDN (s6c_refreshed m sub info) = m" "sub_IMSI (s6c_refreshed m sub info) = ri_IMSI info"
  "sub_MMENumber (s6c_refreshed m sub info) = NormalizeE164Address (ri_MMENumber info)"
  by (simp_all add: s6c_refreshed_def split: option.splits)

lemma run_S6cLookup:
  assumes "db_faults (w_db w) = []"
  shows "run_state (S6cLookup E m) w =
    (let sub = find (\<lambda>s. sub_MSISDN s = m) (db_subscribers (w_db w)); w' = w\<lparr>w_ticks := Suc (w_ticks w)\<rparr>
     in case sub of
          Some s \<Rightarrow> if s6c_usable s \<and> s6cCacheFresh (ev_clock E (w_ticks w)) s (w_s6cTTL w)
                    then (Ok (Some (s\<lparr>sub_MMENumber := NormalizeE164Address (sub_MMENumber s)\<rparr>)), w')
                    else run_state (s6c_query E m sub) w'
        | None \<Rightarrow> run_state (s6c_query E m sub) w')"
  using assms by (simp add: S6cLookup_def GetSubscriber_def db_call_no_fault Let_def split: option.splits)

lemma run_s6c_info:
  assumes "ev_s6c E = Some client" "client (w_trace w) m = S6cInfo info" "db_faults (w_db w) = []"
  shows "run_state (s6c_query E m sub) w =
    (Ok (Some (s6c_refreshed m sub info)), w\<lparr>w_trace := w_trace w @ [QueriedS6c m], w_ticks := Suc (w_ticks w),
       w_db := snd (UpsertSubscriber (ev_clock E (w_ticks w)) (s6c_refreshed m sub info) (w_db w))\<rparr>)"
  using assms by (simp add: s6c_query_def Let_def)

lemma UpsertSubscriber_ok:
  "db_faults d = [] \<Longrightarrow> UpsertSubscriber now s d = (Some (), d\<lparr>db_subscribers := upsert_row sub_MSISDN
     (s\<lparr>sub_UpdatedAt := (case db_backend d of SQLite \<Rightarrow> None | Postgres \<Rightarrow> Some (db_time Postgres now))\<rparr>)
     (db_subscribers d)\<rparr>)"
  by (simp add: UpsertSubscriber_def db_call_no_fault Let_def)

text \<open>
  On Postgres the S6c cache works: after a lookup that asked the HSS and found the subscriber
  attached, a lookup within the time to live asks nobody, whatever is connected by then, and
  gives the same identity, MME and number.
\<close>

theorem s6c_cache_hit:
  assumes "db_backend (w_db w) = Postgres" "db_faults (w_db w) = []"
    and "ev_s6c E = Some client" "client (w_trace w) m = S6cInfo info"
    and first: "run_state (S6cLookup E m) w = (Ok (Some s), w1)" "w_trace w1 \<noteq> w_trace w" "s6c_usable s"
    and second: "ev_clock E2 (w_ticks w1) - db_time Postgres (ev_clock E (Suc (w_ticks w))) \<le> w_s6cTTL w"
      "0 < w_s6cTTL w"
  shows "\<exists>s' w2. run_state (S6cLookup E2 m) w1 = (Ok (Some s'), w2) \<and> w_trace w2 = w_trace w1 \<and>
    w_db w2 = w_db w1 \<and> sub_IMSI s' = sub_IMSI s \<and> sub_MMEHost s' = sub_MMEHost s \<and> sub_MMENumber s' = sub_MMENumber s"
proof -
  let ?w = "w\<lparr>w_ticks := Suc (w_ticks w)\<rparr>"
  let ?sub = "find (\<lambda>s. sub_MSISDN s = m) (db_subscribers (w_db w))"
  have "(Ok (Some s), w1) = run_state (s6c_query E m ?sub) ?w"
    using first(1,2) unfolding run_S6cLookup [OF assms(2)] Let_def
    by (cases ?sub) (auto split: if_splits)
  also have "\<dots> = (Ok (Some (s6c_refreshed m ?sub info)), ?w\<lparr>w_trace := w_trace w @ [QueriedS6c m],
      w_ticks := Suc (Suc (w_ticks w)),
      w_db := snd (UpsertSubscriber (ev_clock E (Suc (w_ticks w))) (s6c_refreshed m ?sub info) (w_db w))\<rparr>)"
    using run_s6c_info [of E client ?w m info ?sub] assms(2-4) by simp
  finally have s: "s = s6c_refreshed m ?sub info"
    and w1: "w_s6cTTL w1 = w_s6cTTL w" "db_faults (w_db w1) = []" "db_subscribers (w_db w1) = upsert_row sub_MSISDN
      (s\<lparr>sub_UpdatedAt := Some (db_time Postgres (ev_clock E (Suc (w_ticks w))))\<rparr>) (db_subscribers (w_db w))"
    using assms(1,2) by (auto simp: UpsertSubscriber_ok)
  let ?s = "s\<lparr>sub_UpdatedAt := Some (db_time Postgres (ev_clock E (Suc (w_ticks w))))\<rparr>"
  have "find (\<lambda>x. sub_MSISDN x = m) (db_subscribers (w_db w1)) = Some ?s"
    using find_upsert_row [of sub_MSISDN ?s "db_subscribers (w_db w)"] by (simp add: w1(3) s)
  moreover have "s6c_usable ?s \<and> s6cCacheFresh (ev_clock E2 (w_ticks w1)) ?s (w_s6cTTL w1)"
    using first(3) second by (simp add: s6c_usable_def s6cCacheFresh_def cacheAge_def w1(1))
  moreover have "NormalizeE164Address (sub_MMENumber s) = sub_MMENumber s"
    unfolding s s6c_refreshed_fields by (rule NormalizeE164Address_id [OF NormalizeE164Address_digits])
  ultimately show ?thesis by (simp add: run_S6cLookup [OF w1(2)])
qed

definition example_info :: routing_info where
  "example_info = \<lparr>ri_IMSI = ''262011'', ri_MSISDN = ''49151'', ri_Attached = True, ri_MMEName = ''mme1'',
     ri_MMENumber = ''4917'', ri_MMERealm = [], ri_MWDStatus = 0, ri_SessionID = [], ri_ResultCode = 2001\<rparr>"

definition example_s6c_env :: env where
  "example_s6c_env = example_env\<lparr>ev_s6c := Some (\<lambda>_ _. S6cInfo example_info)\<rparr>"

lemma example_s6c_first:
  assumes "b = Postgres \<or> b = SQLite"
  shows "\<exists>s w1. run_state (S6cLookup example_s6c_env ''49151'') (example_world b []) = (Ok (Some s), w1) \<and>
    w_trace w1 = [QueriedS6c ''49151''] \<and> s6c_usable s \<and> w_ticks w1 = 2"
proof -
  let ?w = "example_world b []"
  have e: "run_state (S6cLookup example_s6c_env ''49151'') ?w =
      run_state (s6c_query example_s6c_env ''49151'' None) (?w\<lparr>w_ticks := 1\<rparr>)"
    by (simp add: run_S6cLookup Let_def example_db_def)
  show ?thesis
    unfolding e using run_s6c_info [of example_s6c_env "\<lambda>_ _. S6cInfo example_info" "?w\<lparr>w_ticks := 1\<rparr>"
      "''49151''" example_info None]
    by (simp add: example_s6c_env_def s6c_usable_def s6c_refreshed_def example_info_def)
qed

theorem s6c_cache_hit_witness:
  "\<exists>s w1 s' w2. run_state (S6cLookup example_s6c_env ''49151'') (example_world Postgres []) = (Ok (Some s), w1) \<and>
     run_state (S6cLookup example_env ''49151'') w1 = (Ok (Some s'), w2) \<and> w_trace w2 = w_trace w1"
proof -
  obtain s w1 where f: "run_state (S6cLookup example_s6c_env ''49151'') (example_world Postgres []) = (Ok (Some s), w1)"
    "w_trace w1 = [QueriedS6c ''49151'']" "s6c_usable s" "w_ticks w1 = 2"
    using example_s6c_first by blast
  then show ?thesis
    using s6c_cache_hit [of "example_world Postgres []" example_s6c_env "\<lambda>_ _. S6cInfo example_info" "''49151''"
        example_info s w1 example_env]
    by (auto simp: example_s6c_env_def example_env_def)
qed

text \<open>
  On SQLite the S6c cache never hits: every subscriber row is without an update time (the
  text that is written is not one that is read), every lookup of a connected registry therefore
  asks the HSS again, and leaves a table of which the same is true.
\<close>

theorem s6c_cache_never_hits_sqlite:
  assumes "db_backend (w_db w) = SQLite" "db_faults (w_db w) = []"
    and "\<forall>s \<in> set (db_subscribers (w_db w)). sub_UpdatedAt s = None"
    and "ev_s6c E = Some client" "run_state (S6cLookup E m) w = (r, w')"
  shows "w_trace w' = w_trace w @ [QueriedS6c m] \<and> (\<forall>s \<in> set (db_subscribers (w_db w')). sub_UpdatedAt s = None)"
proof -
  let ?w = "w\<lparr>w_ticks := Suc (w_ticks w)\<rparr>"
  let ?sub = "find (\<lambda>s. sub_MSISDN s = m) (db_subscribers (w_db w))"
  have "\<not> s6cCacheFresh now s ttl" if "?sub = Some s" for s now ttl
    using that assms(3) by (auto simp: s6cCacheFresh_def find_Some_iff)
  then have q: "(r, w') = run_state (s6c_query E m ?sub) ?w"
    using assms(5) unfolding run_S6cLookup [OF assms(2)] Let_def by (cases ?sub) auto
  show ?thesis
  proof (cases "client (w_trace w) m")
    case (S6cInfo info)
    then show ?thesis
      using q run_s6c_info [of E client ?w m info ?sub] assms(1-4)
        set_upsert_row [of sub_MSISDN "(s6c_refreshed m ?sub info)\<lparr>sub_UpdatedAt := None\<rparr>" "db_subscribers (w_db w)"]
      by (auto simp: UpsertSubscriber_ok)
  qed (use q assms(3,4) in \<open>simp_all add: s6c_query_def\<close>)
qed

theorem s6c_cache_never_hits_sqlite_witness:
  "w_trace (snd (run_state (S6cLookup example_s6c_env ''49151'') (example_world SQLite []))) = [QueriedS6c ''49151'']"
  using s6c_cache_never_hits_sqlite [of "example_world SQLite []" example_s6c_env "\<lambda>_ _. S6cInfo example_info"
      "''49151''", OF _ _ _ _ surjective_pairing]
  by (simp add: example_s6c_env_def example_db_def)

end
