(* ===== verification/Reports.thy ===== *)
theory Reports
  imports Registry
begin

text \<open>
  The delivery report correlator of \<open>internal/dr/correlator.go\<close>: it stores a report of every
  terminal outcome, tells the HSS over S6c about messages that went out over SGd, and sends a
  receipt to the SMPP peer a message came from.
\<close>

section \<open>Identifiers\<close>

definition hex_char :: "nat \<Rightarrow> char" where
  "hex_char n = (if n < 10 then digit_char n else char_of (87 + n))"

definition hex_of :: "bytes \<Rightarrow> string" where
  "hex_of b = concat (map (\<lambda>x. [hex_char (unat x div 16), hex_char (unat x mod 16)]) b)"

text \<open>Version 4 UUID of sixteen random octets.\<close>

definition newUUID :: "bytes \<Rightarrow> string" where
  "newUUID b =
     (let b = b[6 := (b ! 6 AND 0x0f) OR 0x40]; b = b[8 := (b ! 8 AND 0x3f) OR 0x80]
      in hex_of (take 4 b) @ ''-'' @ hex_of (take 2 (drop 4 b)) @ ''-'' @ hex_of (take 2 (drop 6 b)) @ ''-'' @
         hex_of (take 2 (drop 8 b)) @ ''-'' @ hex_of (take 6 (drop 10 b)))"

section \<open>The correlator\<close>

abbreviation StatusDelivered :: string where "StatusDelivered \<equiv> ''DELIVRD''"
abbreviation StatusFailed :: string where "StatusFailed \<equiv> ''FAILED''"
abbreviation StatusExpired :: string where "StatusExpired \<equiv> ''EXPIRED''"
abbreviation StatusUndeliv :: string where "StatusUndeliv \<equiv> ''UNDELIV''"

abbreviation SMDeliveryCauseAbsentUser :: "32 word" where "SMDeliveryCauseAbsentUser \<equiv> 1"
abbreviation SMDeliveryCauseSuccessfulTransfer :: "32 word" where "SMDeliveryCauseSuccessfulTransfer \<equiv> 2"

definition s6cCauseForStatus :: "string \<Rightarrow> 32 word" where
  "s6cCauseForStatus status =
     (if status = StatusDelivered then SMDeliveryCauseSuccessfulTransfer else SMDeliveryCauseAbsentUser)"

definition reportS6c :: "correlator \<Rightarrow> smsg \<Rightarrow> string \<Rightarrow> unit process" where
  "reportS6c c m status =
     (case co_s6c c of
        None \<Rightarrow> State_Monad.return ()
      | Some client \<Rightarrow>
          if co_scAddr c = [] \<or> sm_EgressIface m \<noteq> ''sgd'' then State_Monad.return ()
          else do {
            let cause = s6cCauseForStatus status;
            row \<leftarrow> store (GetSubscriber (sm_DstMSISDN m));
            (case row of
               None \<Rightarrow> State_Monad.return ()
             | Some sub \<Rightarrow> do {
                 let imsi = (case sub of None \<Rightarrow> [] | Some s \<Rightarrow> sub_IMSI s);
                 send_out (ReportedS6c (sm_DstMSISDN m) imsi (sm_AlertCorrelationID m) cause)
                   (\<lambda>tr. client tr (sm_DstMSISDN m) imsi (co_scAddr c) (sm_AlertCorrelationID m) cause);
                 State_Monad.return () }) })"

definition receipt_id :: "smsg \<Rightarrow> string" where
  "receipt_id m = (if sm_SMPPMsgID m = [] then sm_ID m else sm_SMPPMsgID m)"

text \<open>The outbound link of that name is tried first, then the ESME's own link.\<close>

definition reportSMPP :: "correlator \<Rightarrow> smsg \<Rightarrow> string \<Rightarrow> unit process" where
  "reportSMPP c m status =
     (if co_smppMgr c = None \<and> co_smppReg c = None then State_Monad.return ()
      else if sm_OriginPeer m = [] then State_Monad.return ()
      else do {
        let p = (EncodeDeliveryReceipt (receipt_id m) (sm_SrcMSISDN m) (sm_DstMSISDN m) status ''000'')
                  \<lparr>pdu_SequenceNumber := 0\<rparr>;
        sent \<leftarrow> (case co_smppMgr c of
          None \<Rightarrow> State_Monad.return False
        | Some mgr \<Rightarrow> do {
            r \<leftarrow> send_out (SentSMPP (sm_OriginPeer m) p) (\<lambda>tr. sm_SendViaPeer mgr tr (sm_OriginPeer m) p);
            State_Monad.return (case r of Ok _ \<Rightarrow> True | _ \<Rightarrow> False) });
        (if sent then State_Monad.return ()
         else (case co_smppReg c of
           None \<Rightarrow> State_Monad.return ()
         | Some link \<Rightarrow> do {
             send_out (SentLink (sm_OriginPeer m) p) (\<lambda>tr. link tr (sm_OriginPeer m) p);
             State_Monad.return () })) })"

definition Report :: "env \<Rightarrow> correlator \<Rightarrow> smsg \<Rightarrow> string \<Rightarrow> unit process" where
  "Report E c m status = do {
     b \<leftarrow> random_of E;
     now \<leftarrow> now_of E;
     store (SaveDeliveryReport \<lparr>dr_ID = newUUID b, dr_MessageID = sm_ID m, dr_Status = status,
       dr_EgressIface = sm_EgressIface m, dr_RawReceipt = ''id:'' @ sm_ID m @ '' stat:'' @ status,
       dr_ReportedAt = now\<rparr>);
     reportS6c c m status;
     (if sm_OriginIface m = ''smpp'' then reportSMPP c m status else State_Monad.return ())
   }"

text \<open>The reporter interface of the forwarder, absent when no reporter is wired in.\<close>

definition report_of :: "env \<Rightarrow> smsg \<Rightarrow> string \<Rightarrow> unit process" where
  "report_of E m status = (case ev_reporter E of None \<Rightarrow> State_Monad.return () | Some c \<Rightarrow> Report E c m status)"

section \<open>What a report leaves alone\<close>

lemma Report_frame [frame]:
  "stays messages_of (Report E c m status)" "stays backend_of (Report E c m status)" "stays policies_of (Report E c m status)" "stays w_cache (Report E c m status)"
  "stays w_engine (Report E c m status)"
  unfolding Report_def reportS6c_def reportSMPP_def by (intro frame; simp)+

lemma report_of_frame [frame]:
  "stays messages_of (report_of E m status)" "stays backend_of (report_of E m status)" "stays policies_of (report_of E m status)" "stays w_cache (report_of E m status)"
  "stays w_engine (report_of E m status)"
  unfolding report_of_def by (intro frame)+

lemma Report_calm [kept]: "keeps calm (Report E c m status)" "keeps calm (report_of E m status)"
  unfolding report_of_def Report_def reportS6c_def reportSMPP_def by (intro kept; simp)+

end
