(* ===== verification/Forwarder.thy ===== *)
theory Forwarder
  imports Reports "HOL-Library.Signed_Division"
begin

text \<open>
  The forwarder of \<open>internal/forwarder/forwarder.go\<close>: the candidate routes of a message, one
  routing pass over them, and what becomes of the message after it. The message is a pointer in
  the code and is changed on the way (egress interface, SGd identity, validity period), so the
  operations return it.
\<close>

section \<open>Routes and outcomes\<close>

record selected_route =
  rt_routeIndex :: int
  rt_egressIface :: string
  rt_egressPeer :: string
  rt_sgdIMSI :: string
  rt_sgdMMENum :: string
  rt_imsReg :: "registration option"
  rt_sfPolicyID :: string
  rt_ruleName :: string
  rt_priority :: int

datatype route_outcome = RouteDelivered | RouteTryNext | RouteWaitTimer | RouteWaitEvent | RoutePermanent

datatype pass_outcome = PassDelivered | PassWaitTimer | PassWaitEvent | PassWaitTimerEvent | PassFailed

record pass_result =
  pr_outcome :: pass_outcome
  pr_deliveredRoute :: "selected_route option"
  pr_lastAttempted :: "selected_route option"
  pr_eventRoute :: "selected_route option"
  pr_timerRoute :: "selected_route option"
  pr_lastErr :: "send_error option"

definition new_route :: "int \<Rightarrow> string \<Rightarrow> string \<Rightarrow> string \<Rightarrow> string \<Rightarrow> int \<Rightarrow> selected_route" where
  "new_route index iface peer policy rule priority = \<lparr>rt_routeIndex = index, rt_egressIface = iface,
     rt_egressPeer = peer, rt_sgdIMSI = [], rt_sgdMMENum = [], rt_imsReg = None, rt_sfPolicyID = policy,
     rt_ruleName = rule, rt_priority = priority\<rparr>"

definition nextRouteCursor :: "selected_route \<Rightarrow> int" where
  "nextRouteCursor r = rt_routeIndex r + 1"

definition deferredRouteCursor :: "selected_route option \<Rightarrow> int" where
  "deferredRouteCursor route =
     (case route of
        None \<Rightarrow> 0
      | Some r \<Rightarrow> if rt_egressIface r = InterfaceSGd then rt_routeIndex r else nextRouteCursor r)"

text \<open>Go's \<open>%\<close> truncates; the remainder is made non-negative.\<close>

definition route_modulo :: "int \<Rightarrow> int \<Rightarrow> int" where
  "route_modulo v sz = (if sz \<le> 0 then 0 else let r = v smod sz in if r < 0 then r + sz else r)"

section \<open>Candidates\<close>

text \<open>Only rules towards SMPP and SIP SIMPLE peers are fallback routes.\<close>

definition fallbackDecisions :: "engine \<Rightarrow> message \<Rightarrow> decision list" where
  "fallbackDecisions e msg =
     (case RouteAll e msg of
        Ok decisions \<Rightarrow> filter (\<lambda>d. dec_EgressIface d = InterfaceSMPP \<or> dec_EgressIface d = InterfaceSIPSimple) decisions
      | _ \<Rightarrow> [])"

definition candidateCount :: "engine \<Rightarrow> message \<Rightarrow> int" where
  "candidateCount e msg = int (length (fallbackDecisions e msg)) + 3"

definition plannedRouteAt :: "engine \<Rightarrow> message \<Rightarrow> int \<Rightarrow> selected_route option" where
  "plannedRouteAt e msg startCursor =
     (let decisions = fallbackDecisions e msg; totalCandidates = int (length decisions) + 3 in
      if totalCandidates = 0 then None
      else let routeIndex = route_modulo startCursor totalCandidates in
        if routeIndex = 0 then Some (new_route routeIndex InterfaceSIP3GPP [] [] ''ims-local'' (-2))
        else if routeIndex = 1 then Some (new_route routeIndex InterfaceSIP3GPP [] [] ''ims-sh'' (-1))
        else if routeIndex = 2 then Some (new_route routeIndex InterfaceSGd [] [] ''sgd-built-in'' 0)
        else let decisionIdx = routeIndex - 3 in
          if decisionIdx < 0 \<or> int (length decisions) \<le> decisionIdx then None
          else let d = decisions ! nat decisionIdx in
            Some (new_route routeIndex (dec_EgressIface d) (dec_EgressPeer d) (dec_SFPolicyID d)
                    (dec_RuleName d) (dec_Priority d)))"

definition applyMMEMapping :: "mapper option \<Rightarrow> string \<Rightarrow> string" where
  "applyMMEMapping mp mmeHost = (case mp of None \<Rightarrow> mmeHost | Some m \<Rightarrow> mapper_Map m mmeHost)"

definition resolveSGdTarget :: "env \<Rightarrow> string \<Rightarrow> (string + string \<times> string \<times> string) process" where
  "resolveSGdTarget E msisdn =
     (if ev_sgd E = None then State_Monad.return (Inl ''SGd sender not configured'')
      else do {
        r \<leftarrow> S6cLookup E msisdn;
        mp \<leftarrow> gets w_mapper;
        State_Monad.return (case r of
          Ok None \<Rightarrow> Inl ''S6c did not return a serving MME''
        | Ok (Some sub) \<Rightarrow>
            if \<not> sub_LTEAttached sub \<or> sub_MMEHost sub = [] then Inl ''S6c did not return a serving MME''
            else if sub_IMSI sub = [] then Inl ''S6c did not return an IMSI''
            else if sub_MMENumber sub = [] then Inl ''S6c did not return MME-Number-for-MT-SMS''
            else Inr (applyMMEMapping mp (sub_MMEHost sub), sub_IMSI sub, sub_MMENumber sub)
        | Err e \<Rightarrow> Inl (''S6c lookup failed: '' @ e)
        | Panic \<Rightarrow> Inl ''S6c lookup failed: '') })"

text \<open>\<open>%q\<close> of a plain text.\<close>

definition quoted :: "string \<Rightarrow> string" where
  "quoted s = CHR 0x22 # s @ [CHR 0x22]"

text \<open>A registration is a usable route when it is registered and has a serving CSCF.\<close>

definition ims_usable :: "registration \<Rightarrow> bool" where
  "ims_usable reg \<longleftrightarrow> reg_Registered reg \<and> reg_SCSCF reg \<noteq> []"

definition ims_route :: "int \<Rightarrow> string \<Rightarrow> int \<Rightarrow> registration \<Rightarrow> selected_route" where
  "ims_route index rule priority reg =
     (new_route index InterfaceSIP3GPP (reg_SCSCF reg) [] rule priority)\<lparr>rt_imsReg := Some reg\<rparr>"

definition sgd_destination :: "string \<Rightarrow> string \<Rightarrow> message \<Rightarrow> message" where
  "sgd_destination imsi mmeNumber msg = msg\<lparr>msg_Destination :=
     (msg_Destination msg)\<lparr>addr_IMSI := imsi, addr_MMENumber := mmeNumber\<rparr>\<rparr>"

type_synonym candidate = "string + selected_route"

definition resolveCandidate ::
  "env \<Rightarrow> message \<Rightarrow> decision \<Rightarrow> int \<Rightarrow> (candidate \<times> message) process" where
  "resolveCandidate E msg d routeIndex =
     (let route = new_route routeIndex (dec_EgressIface d) (dec_EgressPeer d) (dec_SFPolicyID d)
                    (dec_RuleName d) (dec_Priority d);
          peer = dec_EgressPeer d
      in if dec_EgressIface d = InterfaceSIP3GPP then do {
           reg \<leftarrow> registry_Lookup E (addr_MSISDN (msg_Destination msg));
           State_Monad.return (case reg of
             None \<Rightarrow> Inl ''subscriber not locally IMS registered''
           | Some reg \<Rightarrow> if \<not> ims_usable reg then Inl ''subscriber not IMS registered''
               else Inr (route\<lparr>rt_egressPeer := reg_SCSCF reg, rt_imsReg := Some reg\<rparr>), msg) }
         else if dec_EgressIface d = InterfaceSIPSimple then
           (if ev_simple E = None then State_Monad.return (Inl ''SIP SIMPLE sender not configured'', msg)
            else if peer = [] then State_Monad.return (Inl ''SIP SIMPLE peer not specified'', msg)
            else do {
              p \<leftarrow> store (GetSIPPeer peer);
              State_Monad.return (case p of
                Some (Some _) \<Rightarrow> Inr route
              | _ \<Rightarrow> Inl (''SIP SIMPLE peer '' @ quoted peer @ '' not found''), msg) })
         else if dec_EgressIface d = InterfaceSMPP then
           (case ev_smpp E of
              None \<Rightarrow> State_Monad.return (Inl ''SMPP manager not configured'', msg)
            | Some mgr \<Rightarrow>
                if peer = [] then State_Monad.return (Inl ''SMPP peer not specified'', msg)
                else do {
                  tr \<leftarrow> gets w_trace;
                  State_Monad.return (if sm_HasPeer mgr tr peer then Inr route
                    else Inl (''SMPP peer '' @ quoted peer @ '' not active''), msg) })
         else if dec_EgressIface d = InterfaceSGd then do {
           target \<leftarrow> resolveSGdTarget E (addr_MSISDN (msg_Destination msg));
           tr \<leftarrow> gets w_trace;
           State_Monad.return (case target of
             Inl reason \<Rightarrow> (Inl reason, msg)
           | Inr (mmeHost, imsi, mmeNumber) \<Rightarrow>
               if (case ev_sgd E of Some s \<Rightarrow>
                     (case sgd_HasPeerForMME s of Some has \<Rightarrow> \<not> has tr mmeHost | None \<Rightarrow> False) | None \<Rightarrow> False)
               then (Inl (''no active SGd peer for MME '' @ quoted mmeHost), msg)
               else (Inr (route\<lparr>rt_egressPeer := mmeHost, rt_sgdIMSI := imsi, rt_sgdMMENum := mmeNumber\<rparr>),
                     sgd_destination imsi mmeNumber msg)) }
         else State_Monad.return (Inl (''unsupported egress interface '' @ quoted (dec_EgressIface d)), msg))"

definition sgd_built_in :: decision where
  "sgd_built_in = \<lparr>dec_RuleName = ''sgd-built-in'', dec_Priority = 0, dec_EgressIface = InterfaceSGd,
     dec_EgressPeer = [], dec_SFPolicyID = []\<rparr>"

definition resolveCandidateAt ::
  "env \<Rightarrow> message \<Rightarrow> decision list \<Rightarrow> int \<Rightarrow> (candidate \<times> message) process" where
  "resolveCandidateAt E msg decisions routeIndex =
     (if routeIndex = 0 then do {
        reg \<leftarrow> registry_Lookup E (addr_MSISDN (msg_Destination msg));
        State_Monad.return (case reg of
          Some reg \<Rightarrow> if ims_usable reg then Inr (ims_route routeIndex ''ims-local'' (-2) reg)
            else Inl ''subscriber not locally IMS registered''
        | None \<Rightarrow> Inl ''subscriber not locally IMS registered'', msg) }
      else if routeIndex = 1 then do {
        r \<leftarrow> ShRefresh E (addr_MSISDN (msg_Destination msg));
        State_Monad.return (case r of
          Ok (Some reg) \<Rightarrow> if ims_usable reg then Inr (ims_route routeIndex ''ims-sh'' (-1) reg)
            else Inl ''subscriber not IMS registered via Sh''
        | Ok None \<Rightarrow> Inl ''subscriber not IMS registered via Sh''
        | Err e \<Rightarrow> Inl (''Sh lookup failed: '' @ e)
        | Panic \<Rightarrow> Inl ''Sh lookup failed: '', msg) }
      else if routeIndex = 2 then resolveCandidate E msg sgd_built_in routeIndex
      else let decisionIdx = routeIndex - 3 in
        if decisionIdx < 0 \<or> int (length decisions) \<le> decisionIdx
        then State_Monad.return (Inl ''no routing rule at index'', msg)
        else resolveCandidate E msg (decisions ! nat decisionIdx) routeIndex)"

section \<open>Delivery\<close>

text \<open>\<open>routePolicy\<close>: no policy, a failed query and a missing policy are the same.\<close>

definition routePolicy :: "selected_route option \<Rightarrow> sf_policy option process" where
  "routePolicy route =
     (case route of
        None \<Rightarrow> State_Monad.return None
      | Some r \<Rightarrow>
          if rt_sfPolicyID r = [] then State_Monad.return None
          else do {
            p \<leftarrow> store (GetSFPolicy (rt_sfPolicyID r));
            State_Monad.return (case p of Some pol \<Rightarrow> pol | None \<Rightarrow> None) })"

definition deliverISC :: "env \<Rightarrow> message \<Rightarrow> registration option \<Rightarrow> send_error option process" where
  "deliverISC E msg reg =
     (case ev_isc E of
        None \<Rightarrow> State_Monad.return (Some (SendError ''ISC sender not configured''))
      | Some send \<Rightarrow> send_out (SentISC msg reg) (\<lambda>tr. send tr msg reg))"

definition deliverSimple :: "env \<Rightarrow> message \<Rightarrow> string \<Rightarrow> send_error option process" where
  "deliverSimple E msg peerName =
     (case ev_simple E of
        None \<Rightarrow> State_Monad.return (Some (SendError ''SIP SIMPLE sender not configured''))
      | Some send \<Rightarrow> do {
          p \<leftarrow> store (GetSIPPeer peerName);
          (case p of
             Some (Some peer) \<Rightarrow> send_out (SentSimple msg peer) (\<lambda>tr. send tr msg peer)
           | _ \<Rightarrow> State_Monad.return (Some (SendError (''SIP SIMPLE peer '' @ quoted peerName @ '' not found'')))) })"

definition hex_upper :: "32 word \<Rightarrow> string" where
  "hex_upper w = map (\<lambda>c. if is_digit c then c else char_of (of_char c - 32 :: nat)) (hex_of (put32 (unat w)))"

text \<open>Encoding a message never panics, so the third case does not arise.\<close>

definition deliverSMPP :: "env \<Rightarrow> message \<Rightarrow> string \<Rightarrow> send_error option process" where
  "deliverSMPP E msg peerName =
     (case ev_smpp E of
        None \<Rightarrow> State_Monad.return (Some (SendError ''SMPP manager not configured''))
      | Some mgr \<Rightarrow>
          (case EncodeDeliverSM msg of
             Err e \<Rightarrow> State_Monad.return (Some (SendError (''encode deliver_sm: '' @ e)))
           | Panic \<Rightarrow> State_Monad.return (Some (SendError ''panic''))
           | Ok p \<Rightarrow> do {
               let p = p\<lparr>pdu_SequenceNumber := 0\<rparr>;
               r \<leftarrow> send_out (SentSMPP peerName p) (\<lambda>tr. sm_SendViaPeer mgr tr peerName p);
               State_Monad.return (case r of
                 Ok resp \<Rightarrow> if pdu_CommandStatus resp \<noteq> 0
                   then Some (SendError (''SMPP peer '' @ peerName @ '' returned status 0x'' @ hex_upper (pdu_CommandStatus resp)))
                   else None
               | Err e \<Rightarrow> Some (SendError e)
               | Panic \<Rightarrow> Some (SendError ''panic'')) }))"

definition deliverSGd :: "env \<Rightarrow> message \<Rightarrow> string \<Rightarrow> send_error option process" where
  "deliverSGd E msg mmeHost =
     (case ev_sgd E of
        None \<Rightarrow> State_Monad.return (Some (SendError ''SGd sender not configured''))
      | Some s \<Rightarrow> send_out (SentSGd msg mmeHost (ev_scAddr E)) (\<lambda>tr. sgd_SendOFR s tr msg mmeHost (ev_scAddr E)))"

definition deliverSelectedRoute ::
  "env \<Rightarrow> message \<Rightarrow> selected_route \<Rightarrow> (send_error option \<times> message) process" where
  "deliverSelectedRoute E msg route =
     (let msg = msg\<lparr>msg_EgressInterface := rt_egressIface route\<rparr> in
      if rt_egressIface route = InterfaceSIP3GPP then do {
        e \<leftarrow> deliverISC E msg (rt_imsReg route); State_Monad.return (e, msg) }
      else if rt_egressIface route = InterfaceSIPSimple then do {
        e \<leftarrow> deliverSimple E msg (rt_egressPeer route); State_Monad.return (e, msg) }
      else if rt_egressIface route = InterfaceSMPP then do {
        e \<leftarrow> deliverSMPP E msg (rt_egressPeer route); State_Monad.return (e, msg) }
      else if rt_egressIface route = InterfaceSGd then
        (let msg = sgd_destination (rt_sgdIMSI route) (rt_sgdMMENum route) msg in do {
           e \<leftarrow> deliverSGd E msg (rt_egressPeer route); State_Monad.return (e, msg) })
      else State_Monad.return
        (Some (SendError (''unknown egress interface '' @ quoted (rt_egressIface route))), msg))"

text \<open>
  \<open>fmt.Sscanf(s, "%d", _)\<close>: leading blanks are skipped (a line feed is an error), then an
  optional sign and at least one digit, in the range of a 64-bit integer.
\<close>

fun scan_digits :: "string \<Rightarrow> int \<Rightarrow> int" where
  "scan_digits [] n = n"
| "scan_digits (c # cs) n = (if is_digit c then scan_digits cs (10 * n + int (digit_val c)) else n)"

fun scan_int :: "string \<Rightarrow> int option" where
  "scan_int [] = None"
| "scan_int (c # cs) =
     (if c \<in> {CHR '' '', CHR 0x09, CHR 0x0B, CHR 0x0C, CHR 0x0D} then scan_int cs
      else
        let neg = (c = CHR ''-''); ds = (if c = CHR ''+'' \<or> c = CHR ''-'' then cs else c # cs) in
        if ds = [] \<or> \<not> is_digit (hd ds) then None
        else let n = (if neg then - scan_digits ds 0 else scan_digits ds 0) in
          if - (2 ^ 63) \<le> n \<and> n < 2 ^ 63 then Some n else None)"

fun error_text :: "send_error \<Rightarrow> string" where
  "error_text (SendError s) = s"
| "error_text (OFAResultError code) = ''sgd: OFA returned result-code '' @ decimal (unat code)"

definition sipResponseCodeFromError :: "send_error \<Rightarrow> int option" where
  "sipResponseCodeFromError e =
     (case str_index (error_text e) '' returned '' of
        None \<Rightarrow> None
      | Some idx \<Rightarrow> scan_int (drop (idx + 10) (error_text e)))"

abbreviation DiameterUnableToDeliver :: "32 word" where "DiameterUnableToDeliver \<equiv> 3002"

definition classifyRouteError :: "selected_route \<Rightarrow> send_error \<Rightarrow> route_outcome" where
  "classifyRouteError route e =
     (if rt_egressIface route = InterfaceSIP3GPP \<or> rt_egressIface route = InterfaceSIPSimple then
        (if sipResponseCodeFromError e = Some 404 then RoutePermanent else RouteWaitTimer)
      else if rt_egressIface route = InterfaceSGd then
        (case e of
           OFAResultError code \<Rightarrow> if code = DiameterUnableToDeliver then RouteWaitEvent else RouteWaitTimer
         | SendError _ \<Rightarrow> RouteWaitTimer)
      else RouteWaitTimer)"

text \<open>The policy's validity period is put in for the attempt and the original one put back.\<close>

definition attemptRoute ::
  "env \<Rightarrow> message \<Rightarrow> selected_route \<Rightarrow> ((route_outcome \<times> send_error option) \<times> message) process" where
  "attemptRoute E msg route = do {
     let msg = msg\<lparr>msg_EgressInterface := rt_egressIface route\<rparr>;
     let original = msg_ValidityPeriod msg;
     pol \<leftarrow> routePolicy (Some route);
     let override = (case pol of Some p \<Rightarrow> pol_VPOverride p | None \<Rightarrow> None);
     let msg = (case override of Some v \<Rightarrow> msg\<lparr>msg_ValidityPeriod := Some v\<rparr> | None \<Rightarrow> msg);
     (e, msg) \<leftarrow> deliverSelectedRoute E msg route;
     let msg = (case override of Some v \<Rightarrow> msg\<lparr>msg_ValidityPeriod := original\<rparr> | None \<Rightarrow> msg);
     State_Monad.return
       ((case e of Some err \<Rightarrow> (classifyRouteError route err, Some err) | None \<Rightarrow> (RouteDelivered, None)), msg)
   }"

section \<open>A routing pass\<close>

record pass_state =
  ps_sawRetry :: bool
  ps_sawPermanent :: bool
  ps_lastErr :: "send_error option"
  ps_lastAttempted :: "selected_route option"

definition pass_start :: pass_state where
  "pass_start = \<lparr>ps_sawRetry = False, ps_sawPermanent = False, ps_lastErr = None, ps_lastAttempted = None\<rparr>"

definition empty_result :: "pass_outcome \<Rightarrow> pass_result" where
  "empty_result out = \<lparr>pr_outcome = out, pr_deliveredRoute = None, pr_lastAttempted = None,
     pr_eventRoute = None, pr_timerRoute = None, pr_lastErr = None\<rparr>"

definition exhausted_result :: "message \<Rightarrow> pass_state \<Rightarrow> pass_result" where
  "exhausted_result msg st =
     (if ps_sawRetry st then (empty_result PassWaitTimer)\<lparr>pr_timerRoute := ps_lastAttempted st,
         pr_lastAttempted := ps_lastAttempted st, pr_lastErr := ps_lastErr st\<rparr>
      else if ps_sawPermanent st then (empty_result PassFailed)\<lparr>pr_lastAttempted := ps_lastAttempted st,
         pr_lastErr := ps_lastErr st\<rparr>
      else (empty_result PassFailed)\<lparr>pr_lastErr :=
         Some (SendError (''no usable route for dst='' @ addr_MSISDN (msg_Destination msg)))\<rparr>)"

fun route_loop ::
  "env \<Rightarrow> decision list \<Rightarrow> int list \<Rightarrow> message \<Rightarrow> pass_state \<Rightarrow> (pass_result \<times> message) process" where
  "route_loop E decisions [] msg st = State_Monad.return (exhausted_result msg st, msg)"
| "route_loop E decisions (routeIndex # rest) msg st = do {
     (candidate, msg) \<leftarrow> resolveCandidateAt E msg decisions routeIndex;
     (case candidate of
        Inl reason \<Rightarrow> do {
          engine \<leftarrow> gets w_engine;
          route_loop E decisions rest msg
            (case plannedRouteAt engine msg routeIndex of
               Some planned \<Rightarrow> st\<lparr>ps_lastAttempted := Some planned, ps_lastErr := Some (SendError reason),
                                  ps_sawRetry := True\<rparr>
             | None \<Rightarrow> st\<lparr>ps_sawRetry := True\<rparr>) }
      | Inr route \<Rightarrow> do {
          ((outcome, err), msg) \<leftarrow> attemptRoute E msg route;
          let tried = st\<lparr>ps_lastAttempted := Some route, ps_lastErr := err\<rparr>;
          (case outcome of
             RouteDelivered \<Rightarrow> State_Monad.return
               ((empty_result PassDelivered)\<lparr>pr_deliveredRoute := Some route, pr_lastAttempted := Some route\<rparr>, msg)
           | RouteWaitEvent \<Rightarrow> State_Monad.return
               ((empty_result (if ps_sawRetry st \<or> ps_sawPermanent st then PassWaitTimerEvent else PassWaitEvent))
                  \<lparr>pr_eventRoute := Some route, pr_lastAttempted := Some route, pr_lastErr := err\<rparr>, msg)
           | RouteWaitTimer \<Rightarrow> route_loop E decisions rest msg (tried\<lparr>ps_sawRetry := True\<rparr>)
           | RoutePermanent \<Rightarrow> route_loop E decisions rest msg (tried\<lparr>ps_sawPermanent := True\<rparr>)
           | RouteTryNext \<Rightarrow> route_loop E decisions rest msg (tried\<lparr>ps_sawRetry := True\<rparr>)) })
   }"

text \<open>The indices of a pass: every candidate once, from the cursor on and around.\<close>

definition route_order :: "int \<Rightarrow> int \<Rightarrow> int list" where
  "route_order startCursor n =
     map (\<lambda>offset. (route_modulo startCursor n + int offset) smod n) [0..<nat n]"

definition runRoutingPass :: "env \<Rightarrow> message \<Rightarrow> int \<Rightarrow> (pass_result \<times> message) process" where
  "runRoutingPass E msg startCursor = do {
     engine \<leftarrow> gets w_engine;
     let n = candidateCount engine msg;
     (if n \<le> 0 then State_Monad.return (empty_result PassWaitTimer, msg)
      else route_loop E (fallbackDecisions engine msg) (route_order startCursor n) msg pass_start) }"

section \<open>After the pass\<close>

definition persistDeliveredRoute :: "string \<Rightarrow> string \<Rightarrow> string \<Rightarrow> unit option process" where
  "persistDeliveredRoute mid egress peer =
     (if mid = [] \<or> egress = [] then State_Monad.return (Some ())
      else store (UpdateMessageRouting mid egress peer))"

text \<open>A status update reads the clock, for the delivery time.\<close>

definition set_status :: "env \<Rightarrow> string \<Rightarrow> string \<Rightarrow> unit option process" where
  "set_status E mid status = do { now \<leftarrow> now_of E; store (UpdateMessageStatus now mid status) }"

text \<open>The terminal outcomes: the status, then a report of the row as it is stored now.\<close>

definition set_terminal :: "env \<Rightarrow> string \<Rightarrow> string \<Rightarrow> string \<Rightarrow> unit process" where
  "set_terminal E mid status report = do {
     set_status E mid status;
     (if ev_reporter E = None then State_Monad.return ()
      else do {
        stored \<leftarrow> store (GetMessage mid);
        (case stored of Some (Some m) \<Rightarrow> report_of E m report | _ \<Rightarrow> State_Monad.return ()) }) }"

text \<open>What a deferred message's row says about its deferral: reason, interface, serving node, cursor.\<close>

definition deferral_of :: "selected_route option \<Rightarrow> string \<times> string \<times> string \<times> int" where
  "deferral_of route =
     (case route of
        None \<Rightarrow> (''route_lookup'', [], [], 0)
      | Some r \<Rightarrow>
          if rt_egressIface r = InterfaceSGd then
            (if rt_egressPeer r \<noteq> [] then (''sgd_delivery'', rt_egressIface r, rt_egressPeer r, deferredRouteCursor route)
             else (''sgd_lookup'', rt_egressIface r, [], deferredRouteCursor route))
          else (''route_lookup'', [], [], deferredRouteCursor route))"

definition markDeferred :: "string \<Rightarrow> message \<Rightarrow> int \<Rightarrow> selected_route option \<Rightarrow> unit process" where
  "markDeferred mid msg startCursor route =
     (if mid = [] then State_Monad.return ()
      else do {
        engine \<leftarrow> gets w_engine;
        let route = (case route of Some r \<Rightarrow> Some r | None \<Rightarrow> plannedRouteAt engine msg startCursor);
        let (reason, iface, node, cursor) = deferral_of route;
        store (UpdateMessageDeferred mid reason iface node cursor);
        State_Monad.return () })"

definition deferredLifetimeForRoute :: "env \<Rightarrow> selected_route option \<Rightarrow> duration process" where
  "deferredLifetimeForRoute E route = do {
     pol \<leftarrow> routePolicy route;
     State_Monad.return (case pol of
       Some p \<Rightarrow> if pol_MaxTTL p > 0 then pol_MaxTTL p else ev_maxQueueLifetime E
     | None \<Rightarrow> ev_maxQueueLifetime E) }"

definition applyDeferredExpiryCap :: "env \<Rightarrow> string \<Rightarrow> int \<Rightarrow> selected_route option \<Rightarrow> unit process" where
  "applyDeferredExpiryCap E mid submittedAt route =
     (if mid = [] then State_Monad.return ()
      else do {
        lifetime \<leftarrow> deferredLifetimeForRoute E route;
        let expiryAt = (if lifetime > 0 then Some (submittedAt + lifetime) else None);
        pol \<leftarrow> routePolicy route;
        let expiryAt = (case pol of
          Some p \<Rightarrow> (case pol_VPOverride p of
              Some v \<Rightarrow> if v > 0 then
                  (let t = submittedAt + v in
                   case expiryAt of None \<Rightarrow> Some t | Some e \<Rightarrow> if t < e then Some t else Some e)
                else expiryAt
            | None \<Rightarrow> expiryAt)
        | None \<Rightarrow> expiryAt);
        (case expiryAt of
           None \<Rightarrow> State_Monad.return ()
         | Some t \<Rightarrow> do { store (UpdateMessageExpiryCap mid t); State_Monad.return () }) })"

definition finalizeRoutingPass ::
  "env \<Rightarrow> message \<Rightarrow> int \<Rightarrow> int \<Rightarrow> int \<Rightarrow> pass_result \<Rightarrow> unit process" where
  "finalizeRoutingPass E msg now startCursor nextRetryCount result =
     (let mid = msg_ID msg in
      case pr_outcome result of
        PassDelivered \<Rightarrow> do {
          (case (case pr_deliveredRoute result of Some r \<Rightarrow> Some r | None \<Rightarrow> pr_lastAttempted result) of
             Some r \<Rightarrow> do { persistDeliveredRoute mid (msg_EgressInterface msg) (rt_egressPeer r); State_Monad.return () }
           | None \<Rightarrow> State_Monad.return ());
          set_terminal E mid MessageStatusDelivered StatusDelivered }
      | PassWaitTimer \<Rightarrow> do {
          markDeferred mid msg startCursor (pr_lastAttempted result);
          applyDeferredExpiryCap E mid now (pr_lastAttempted result);
          store (UpdateMessageRetry mid nextRetryCount (now + 30 * Second) (deferredRouteCursor (pr_lastAttempted result)));
          State_Monad.return () }
      | PassWaitEvent \<Rightarrow> do {
          markDeferred mid msg startCursor (pr_eventRoute result);
          applyDeferredExpiryCap E mid now (pr_eventRoute result);
          set_status E mid MessageStatusWaitEvent;
          State_Monad.return () }
      | PassWaitTimerEvent \<Rightarrow> do {
          markDeferred mid msg startCursor (pr_eventRoute result);
          applyDeferredExpiryCap E mid now (pr_eventRoute result);
          r \<leftarrow> store (UpdateMessageRetry mid nextRetryCount (now + 30 * Second) (deferredRouteCursor (pr_eventRoute result)));
          (case r of
             None \<Rightarrow> State_Monad.return ()
           | Some _ \<Rightarrow> do { set_status E mid MessageStatusWaitTimerEvent; State_Monad.return () }) }
      | PassFailed \<Rightarrow> set_terminal E mid MessageStatusFailed StatusFailed)"

section \<open>Dispatch\<close>

definition message_payload :: "message \<Rightarrow> bytes" where
  "message_payload msg =
     (let p = (if msg_Encoding msg = EncodingBinary then msg_Binary msg else bytes_of_string (msg_Text msg))
      in if msg_Binary msg \<noteq> [] \<and> p = [] then msg_Binary msg else p)"

definition message_row :: "message \<Rightarrow> string \<Rightarrow> string \<Rightarrow> string \<Rightarrow> int \<Rightarrow> smsg" where
  "message_row msg egressIface egressPeer status now =
     \<lparr>sm_ID = msg_ID msg, sm_TPMR = None, sm_SMPPMsgID = msg_SMPPMsgID msg,
      sm_OriginIface = msg_IngressInterface msg, sm_OriginPeer = msg_IngressPeer msg,
      sm_EgressIface = egressIface, sm_EgressPeer = egressPeer, sm_RouteCursor = 0,
      sm_SrcMSISDN = addr_MSISDN (msg_Source msg), sm_DstMSISDN = addr_MSISDN (msg_Destination msg),
      sm_AlertCorrelationID = msg_CorrelationID msg, sm_DeferredReason = [], sm_DeferredInterface = [],
      sm_ServingNodeAtDeferral = [], sm_Payload = message_payload msg,
      sm_UDH = (case msg_UDH msg of Some u \<Rightarrow> udh_Raw u | None \<Rightarrow> []),
      sm_Encoding = encoding_to_int (msg_Encoding msg), sm_DCS = uint (msg_DCS msg), sm_Status = status,
      sm_RetryCount = 0, sm_NextRetryAt = None, sm_DRRequired = msg_TPSRRequired msg, sm_SubmittedAt = now,
      sm_ExpiryAt = map_option (\<lambda>v. now + v) (msg_ValidityPeriod msg), sm_DeliveredAt = None\<rparr>"

definition persistMessage :: "message \<Rightarrow> string \<Rightarrow> string \<Rightarrow> string \<Rightarrow> int \<Rightarrow> unit process" where
  "persistMessage msg egressIface egressPeer status now = do {
     store (SaveMessage (message_row msg egressIface egressPeer status now));
     State_Monad.return () }"

definition defaultAlertCorrelationID :: "string \<Rightarrow> string" where
  "defaultAlertCorrelationID messageID = base64 (bytes_of_string (''smsc:'' @ messageID))"

definition normalizeIngressRecipient :: "env \<Rightarrow> message \<Rightarrow> message" where
  "normalizeIngressRecipient E msg = msg\<lparr>msg_Destination := (msg_Destination msg)\<lparr>addr_MSISDN :=
     NormalizeRecipientMSISDN (addr_MSISDN (msg_Destination msg)) (addr_TON (msg_Destination msg))
       (ev_defaultCountryCode E) (ev_localNationalLength E)\<rparr>\<rparr>"

definition with_identity :: "env \<Rightarrow> message \<Rightarrow> message process" where
  "with_identity E msg = do {
     msg \<leftarrow> (if msg_ID msg = [] then do { b \<leftarrow> random_of E; State_Monad.return (msg\<lparr>msg_ID := newUUID b\<rparr>) }
            else State_Monad.return msg);
     State_Monad.return (if msg_CorrelationID msg = []
       then msg\<lparr>msg_CorrelationID := defaultAlertCorrelationID (msg_ID msg)\<rparr> else msg) }"

definition Dispatch :: "env \<Rightarrow> message \<Rightarrow> message process" where
  "Dispatch E msg = do {
     msg \<leftarrow> with_identity E msg;
     let msg = normalizeIngressRecipient E msg;
     now \<leftarrow> now_of E;
     persistMessage msg [] [] MessageStatusDispatched now;
     (result, msg) \<leftarrow> runRoutingPass E msg 0;
     finalizeRoutingPass E msg now 0 1 result;
     State_Monad.return msg }"

section \<open>One route\<close>

text \<open>Some error and no route: the candidate is not available; an error and a route: the delivery failed.\<close>

definition tryRouteAt ::
  "env \<Rightarrow> message \<Rightarrow> int \<Rightarrow> ((selected_route option \<times> send_error option) \<times> message) process" where
  "tryRouteAt E msg routeCursor = do {
     engine \<leftarrow> gets w_engine;
     let decisions = fallbackDecisions engine msg;
     let routeIndex = route_modulo routeCursor (int (length decisions) + 3);
     (candidate, msg) \<leftarrow> resolveCandidateAt E msg decisions routeIndex;
     (case candidate of
        Inl reason \<Rightarrow> State_Monad.return ((None, Some (SendError
          (''route['' @ decimal (nat routeIndex) @ ''] unavailable: '' @ reason))), msg)
      | Inr route \<Rightarrow> do {
          (e, msg) \<leftarrow> deliverSelectedRoute E (msg\<lparr>msg_EgressInterface := rt_egressIface route\<rparr>) route;
          State_Monad.return ((Some route, e), msg) }) }"

fun select_loop :: "env \<Rightarrow> decision list \<Rightarrow> int list \<Rightarrow> message \<Rightarrow> (selected_route option \<times> message) process" where
  "select_loop E decisions [] msg = State_Monad.return (None, msg)"
| "select_loop E decisions (routeIndex # rest) msg = do {
     (candidate, msg) \<leftarrow> resolveCandidateAt E msg decisions routeIndex;
     (case candidate of
        Inl reason \<Rightarrow> select_loop E decisions rest msg
      | Inr route \<Rightarrow> State_Monad.return (Some route, msg)) }"

definition selectRoute :: "env \<Rightarrow> message \<Rightarrow> int \<Rightarrow> (selected_route option \<times> message) process" where
  "selectRoute E msg startCursor = do {
     engine \<leftarrow> gets w_engine;
     let decisions = fallbackDecisions engine msg;
     select_loop E decisions (route_order startCursor (int (length decisions) + 3)) msg }"

fun outcome_number :: "pass_outcome \<Rightarrow> nat" where
  "outcome_number PassDelivered = 0"
| "outcome_number PassWaitTimer = 1"
| "outcome_number PassWaitEvent = 2"
| "outcome_number PassWaitTimerEvent = 3"
| "outcome_number PassFailed = 4"

definition tryRoutes ::
  "env \<Rightarrow> message \<Rightarrow> int \<Rightarrow> ((selected_route option \<times> selected_route option \<times> send_error option) \<times> message) process" where
  "tryRoutes E msg startCursor = do {
     (result, msg) \<leftarrow> runRoutingPass E msg startCursor;
     State_Monad.return
       ((if pr_outcome result = PassDelivered then (pr_deliveredRoute result, pr_deliveredRoute result, None)
         else case pr_lastErr result of
           Some e \<Rightarrow> (None, pr_lastAttempted result, Some e)
         | None \<Rightarrow> (None, pr_lastAttempted result, Some (SendError
             (''routing pass ended with outcome '' @ decimal (outcome_number (pr_outcome result)))))), msg) }"

section \<open>What the routing leaves alone\<close>

lemmas candidate_defs = resolveCandidateAt_def resolveCandidate_def resolveSGdTarget_def

lemmas delivery_defs = attemptRoute_def deliverSelectedRoute_def deliverISC_def deliverSimple_def deliverSMPP_def
  deliverSGd_def routePolicy_def

lemma resolveCandidateAt_frame [frame]:
  "stays messages_of (resolveCandidateAt E msg ds i)" "stays backend_of (resolveCandidateAt E msg ds i)" "stays policies_of (resolveCandidateAt E msg ds i)" "stays w_engine (resolveCandidateAt E msg ds i)"
  unfolding candidate_defs by (intro frame; simp)+

lemma resolveCandidateAt_calm [kept]: "keeps calm (resolveCandidateAt E msg ds i)"
  unfolding candidate_defs by (intro kept; simp)+

lemma attemptRoute_frame [frame]:
  "stays messages_of (attemptRoute E msg r)" "stays backend_of (attemptRoute E msg r)" "stays policies_of (attemptRoute E msg r)" "stays w_engine (attemptRoute E msg r)"
  "stays messages_of (deliverSelectedRoute E msg r)" "stays backend_of (deliverSelectedRoute E msg r)" "stays policies_of (deliverSelectedRoute E msg r)" "stays w_engine (deliverSelectedRoute E msg r)"
  unfolding delivery_defs by (intro frame; simp split: outcome.split option.split; intro frame conjI impI allI; simp?)+

lemma attemptRoute_calm [kept]: "keeps calm (attemptRoute E msg r)" "keeps calm (deliverSelectedRoute E msg r)"
  unfolding delivery_defs by (intro kept; simp split: outcome.split option.split; intro kept conjI impI allI; simp?)+

lemma route_loop_frame [frame]:
  "stays messages_of (route_loop E ds is msg st)" "stays backend_of (route_loop E ds is msg st)" "stays policies_of (route_loop E ds is msg st)" "stays w_engine (route_loop E ds is msg st)"
  by (induction "is" arbitrary: msg st)
    (auto intro!: frame split: route_outcome.splits)

lemma route_loop_calm [kept]: "keeps calm (route_loop E ds is msg st)"
  by (induction "is" arbitrary: msg st) (auto intro!: kept split: route_outcome.splits)

lemma runRoutingPass_frame [frame]:
  "stays messages_of (runRoutingPass E msg c)" "stays backend_of (runRoutingPass E msg c)" "stays policies_of (runRoutingPass E msg c)" "stays w_engine (runRoutingPass E msg c)"
  unfolding runRoutingPass_def by (intro frame)+

lemma runRoutingPass_calm [kept]: "keeps calm (runRoutingPass E msg c)"
  unfolding runRoutingPass_def by (intro kept)+

section \<open>The order of a pass\<close>

lemma route_modulo_mod:
  assumes "0 < n"
  shows "route_modulo v n = v mod n"
proof (cases "0 \<le> v")
  case True
  then have "v smod n = v mod n" using assms by (cases "v = 0") (simp_all add: signed_modulo_int_def sgn_if)
  moreover have "\<not> v mod n < 0" using assms by (simp add: not_less)
  ultimately show ?thesis using assms by (simp add: route_modulo_def Let_def)
next
  case False
  then have r: "v smod n = - (- v mod n)" using assms by (simp add: signed_modulo_int_def sgn_if)
  have "0 \<le> - v mod n" using assms by simp
  then show ?thesis
    using zmod_zminus1_eq_if [of "- v" n] assms by (cases "- v mod n = 0") (simp_all add: route_modulo_def r Let_def less_le)
qed

lemma route_order_mod:
  assumes "0 < n"
  shows "route_order c n = map (\<lambda>k. (c + int k) mod n) [0..<nat n]"
proof -
  have "(c mod n + int k) smod n = (c + int k) mod n" for k
  proof -
    have "0 \<le> c mod n + int k" using assms by simp
    then have "(c mod n + int k) smod n = (c mod n + int k) mod n"
      using assms by (simp add: signed_modulo_int_def sgn_if abs_of_nonneg less_le)
    then show ?thesis by (simp add: mod_add_left_eq)
  qed
  then show ?thesis by (simp add: route_order_def route_modulo_mod [OF assms])
qed

lemma route_order_set:
  assumes "0 < n"
  shows "distinct (route_order c n)" and "set (route_order c n) = {0..<n}"
proof -
  have "i = j" if "(c + int i) mod n = (c + int j) mod n" "i < nat n" "j < nat n" for i j
  proof -
    have "n dvd int i - int j" using that(1) by (simp add: mod_eq_dvd_iff)
    moreover have "\<bar>int i - int j\<bar> < n" using that(2,3) by linarith
    ultimately have "int i - int j = 0" by (metis zdvd_not_zless zero_less_abs_iff dvd_abs_iff)
    then show ?thesis by simp
  qed
  then show d: "distinct (route_order c n)"
    unfolding route_order_mod [OF assms] by (auto simp: distinct_map inj_on_def)
  have "set (route_order c n) \<subseteq> {0..<n}" using assms by (auto simp: route_order_mod)
  moreover have "card (set (route_order c n)) = card {0..<n}"
    using distinct_card [OF d] by (simp add: route_order_mod [OF assms])
  ultimately show "set (route_order c n) = {0..<n}" by (simp add: card_subset_eq)
qed

section \<open>What a pass did\<close>

text \<open>The log of a pass: what came of each candidate, in the order of the pass.\<close>

datatype attempt = Skipped | Tried route_outcome

fun route_log :: "env \<Rightarrow> decision list \<Rightarrow> int list \<Rightarrow> message \<Rightarrow> (int \<times> attempt) list process" where
  "route_log E ds [] msg = State_Monad.return []"
| "route_log E ds (i # rest) msg = do {
     (candidate, msg) \<leftarrow> resolveCandidateAt E msg ds i;
     (case candidate of
        Inl _ \<Rightarrow> do { xs \<leftarrow> route_log E ds rest msg; State_Monad.return ((i, Skipped) # xs) }
      | Inr route \<Rightarrow> do {
          ((outcome, _), msg) \<leftarrow> attemptRoute E msg route;
          (if outcome = RouteDelivered \<or> outcome = RouteWaitEvent then State_Monad.return [(i, Tried outcome)]
           else do { xs \<leftarrow> route_log E ds rest msg; State_Monad.return ((i, Tried outcome) # xs) }) }) }"

definition pass_log :: "env \<Rightarrow> message \<Rightarrow> int \<Rightarrow> (int \<times> attempt) list process" where
  "pass_log E msg startCursor = do {
     engine \<leftarrow> gets w_engine;
     route_log E (fallbackDecisions engine msg) (route_order startCursor (candidateCount engine msg)) msg }"

definition stops :: "attempt \<Rightarrow> bool" where
  "stops a \<longleftrightarrow> a = Tried RouteDelivered \<or> a = Tried RouteWaitEvent"

text \<open>The abstract outcome of a log, with what was seen before it.\<close>

definition verdict :: "bool \<Rightarrow> bool \<Rightarrow> attempt list \<Rightarrow> pass_outcome" where
  "verdict retry perm xs =
     (if xs \<noteq> [] \<and> last xs = Tried RouteDelivered then PassDelivered
      else if xs \<noteq> [] \<and> last xs = Tried RouteWaitEvent then
        (if retry \<or> perm \<or> 1 < length xs then PassWaitTimerEvent else PassWaitEvent)
      else if retry \<or> (\<exists>x \<in> set xs. x \<noteq> Tried RoutePermanent) then PassWaitTimer
      else PassFailed)"

lemma verdict_Cons_skip: "verdict r p (Skipped # xs) = verdict True p xs"
  by (auto simp: verdict_def)

lemma verdict_Cons_perm: "verdict r p (Tried RoutePermanent # xs) = verdict r True xs"
  by (auto simp: verdict_def)

lemma verdict_Cons_timer:
  "a = RouteWaitTimer \<or> a = RouteTryNext \<Longrightarrow> verdict r p (Tried a # xs) = verdict True p xs"
  by (auto simp: verdict_def)

lemma route_loop_log:
  assumes "run_state (route_log E ds is msg) w = (log, w')"
  shows "\<exists>res msg'. run_state (route_loop E ds is msg st) w = ((res, msg'), w') \<and>
    pr_outcome res = verdict (ps_sawRetry st) (ps_sawPermanent st) (map snd log)"
  using assms
proof (induction "is" arbitrary: msg st w log)
  case Nil
  then show ?case by (simp add: verdict_def exhausted_result_def empty_result_def)
next
  case (Cons i rest)
  obtain cand msg1 w1 where c: "run_state (resolveCandidateAt E msg ds i) w = ((cand, msg1), w1)"
    by (metis surj_pair)
  show ?case
  proof (cases cand)
    case (Inl reason)
    obtain xs where xs: "run_state (route_log E ds rest msg1) w1 = (xs, w')" "log = (i, Skipped) # xs"
      using Cons.prems c Inl by (auto split: prod.splits)
    define st' where "st' = (case plannedRouteAt (w_engine w1) msg1 i of
        Some planned \<Rightarrow> st\<lparr>ps_lastAttempted := Some planned, ps_lastErr := Some (SendError reason), ps_sawRetry := True\<rparr>
      | None \<Rightarrow> st\<lparr>ps_sawRetry := True\<rparr>)"
    then have "ps_sawRetry st'" "ps_sawPermanent st' = ps_sawPermanent st" by (simp_all split: option.split)
    then show ?thesis
      using Cons.IH [OF xs(1), of st'] c Inl xs(2) by (simp add: verdict_Cons_skip st'_def [symmetric])
  next
    case (Inr route)
    obtain out err msg2 w2 where a: "run_state (attemptRoute E msg1 route) w1 = (((out, err), msg2), w2)"
      by (metis surj_pair)
    show ?thesis
    proof (cases "out = RouteDelivered \<or> out = RouteWaitEvent")
      case True
      then show ?thesis using Cons.prems c a Inr by (auto simp: verdict_def empty_result_def)
    next
      case False
      then obtain xs where xs: "run_state (route_log E ds rest msg2) w2 = (xs, w')" "log = (i, Tried out) # xs"
        using Cons.prems c a Inr by (auto split: prod.splits)
      let ?tried = "st\<lparr>ps_lastAttempted := Some route, ps_lastErr := err\<rparr>"
      show ?thesis
        using Cons.IH [OF xs(1), of "?tried\<lparr>ps_sawRetry := True\<rparr>"]
          Cons.IH [OF xs(1), of "?tried\<lparr>ps_sawPermanent := True\<rparr>"] c a Inr False xs(2)
        by (cases out) (simp_all add: verdict_Cons_perm verdict_Cons_timer Let_def)
    qed
  qed
qed

section \<open>Status codes in error texts\<close>

lemma scan_digits_decimal:
  "rest = [] \<or> \<not> is_digit (hd rest) \<Longrightarrow> scan_digits (decimal n @ rest) 0 = int n"
proof -
  have *: "scan_digits (decimal n @ rest) k = scan_digits rest (k * 10 ^ length (decimal n) + int n)" for k rest
  proof (induction n arbitrary: rest rule: decimal.induct)
    case (1 n)
    show ?case
    proof (cases "n < 10")
      case True
      then show ?thesis by (subst (1 2) decimal.simps) (simp add: mult.commute)
    next
      case False
      let ?q = "decimal (n div 10)"
      have d: "decimal n = ?q @ [digit_char (n mod 10)]" using False by (subst decimal.simps) simp
      have "n = 10 * (n div 10) + n mod 10" by simp
      then have "int n = 10 * int (n div 10) + int (n mod 10)" by linarith
      then show ?thesis using 1 [OF False, of "digit_char (n mod 10) # rest"] by (simp add: d algebra_simps)
    qed
  qed
  assume "rest = [] \<or> \<not> is_digit (hd rest)"
  then have "scan_digits rest k = k" for k by (cases rest) auto
  then show ?thesis by (simp add: *)
qed

lemma decimal_head: "\<exists>c cs. decimal n = c # cs \<and> is_digit c"
proof (induction n rule: decimal.induct)
  case (1 n)
  show ?case
  proof (cases "n < 10")
    case False
    then show ?thesis using 1 by (subst decimal.simps) auto
  qed (subst decimal.simps, simp)
qed

lemma scan_int_decimal:
  assumes "rest = [] \<or> \<not> is_digit (hd rest)" "n < 2 ^ 63"
  shows "scan_int (decimal n @ rest) = Some (int n)"
proof -
  obtain c cs where d: "decimal n = c # cs" "is_digit c" using decimal_head by blast
  have c: "c \<noteq> CHR '' ''" "c \<noteq> CHR 0x09" "c \<noteq> CHR 0x0B" "c \<noteq> CHR 0x0C" "c \<noteq> CHR 0x0D" "c \<noteq> CHR ''+''" "c \<noteq> CHR ''-''"
    using d(2) by (auto simp: is_digit_def)
  have "scan_digits (c # cs @ rest) 0 = int n" using scan_digits_decimal [OF assms(1), of n] d(1) by simp
  moreover have "int n < 2 ^ 63" using assms(2) by simp
  ultimately show ?thesis using c d by (simp add: Let_def)
qed

lemma sip_code_of:
  assumes "str_index (peer @ '' returned '') '' returned '' = Some (length peer)" "n < 2 ^ 63"
  shows "sipResponseCodeFromError (SendError (peer @ '' returned '' @ decimal n @ '' '' @ reason)) = Some (int n)"
proof -
  have "str_index (peer @ '' returned '' @ decimal n @ '' '' @ reason) '' returned '' = Some (length peer)"
    using str_index_append [OF assms(1)] by simp
  moreover have "\<not> is_digit (hd ('' '' @ reason))" by (simp add: is_digit_def)
  ultimately show ?thesis
    using scan_int_decimal [of "'' '' @ reason" n] assms(2) by (simp add: sipResponseCodeFromError_def)
qed

section \<open>Which outcomes are possible\<close>

lemma fallback_iface:
  "d \<in> set (fallbackDecisions e msg) \<Longrightarrow> dec_EgressIface d = InterfaceSMPP \<or> dec_EgressIface d = InterfaceSIPSimple"
  by (auto simp: fallbackDecisions_def split: outcome.splits)

text \<open>The interface of a candidate that is available is decided by its index.\<close>

definition index_iface :: "decision list \<Rightarrow> int \<Rightarrow> string" where
  "index_iface ds i = (if i = 0 \<or> i = 1 then InterfaceSIP3GPP else if i = 2 then InterfaceSGd
     else dec_EgressIface (ds ! nat (i - 3)))"

lemma resolveCandidate_route:
  assumes "run_state (resolveCandidate E msg d i) w = ((Inr route, msg'), w')"
  shows "rt_routeIndex route = i \<and> rt_egressIface route = dec_EgressIface d"
  using assms unfolding resolveCandidate_def
  by (auto simp: new_route_def Let_def split: if_splits option.splits prod.splits sum.splits)

lemma resolveCandidateAt_route:
  assumes "run_state (resolveCandidateAt E msg ds i) w = ((Inr route, msg'), w')"
  shows "rt_routeIndex route = i \<and> rt_egressIface route = index_iface ds i \<and>
    (i \<noteq> 0 \<and> i \<noteq> 1 \<and> i \<noteq> 2 \<longrightarrow> 3 \<le> i \<and> i < int (length ds) + 3)"
  using assms resolveCandidate_route [of E msg _ i w route msg' w'] unfolding resolveCandidateAt_def index_iface_def
  by (auto simp: ims_route_def new_route_def sgd_built_in_def Let_def
      split: if_splits option.splits prod.splits outcome.splits)

lemma attemptRoute_outcome:
  assumes "run_state (attemptRoute E msg route) w = (((out, err), msg'), w')"
  shows "out \<noteq> RouteTryNext" "out = RouteWaitEvent \<longrightarrow> rt_egressIface route = InterfaceSGd"
    "out = RoutePermanent \<longrightarrow> rt_egressIface route = InterfaceSIP3GPP \<or> rt_egressIface route = InterfaceSIPSimple"
  using assms unfolding attemptRoute_def
  by (auto simp: classifyRouteError_def Let_def split: prod.splits option.splits if_splits send_error.splits)

definition step_possible :: "decision list \<Rightarrow> int \<times> attempt \<Rightarrow> bool" where
  "step_possible ds x \<longleftrightarrow> snd x \<noteq> Tried RouteTryNext \<and>
     (snd x = Tried RouteWaitEvent \<longrightarrow> index_iface ds (fst x) = InterfaceSGd) \<and>
     (snd x = Tried RoutePermanent \<longrightarrow>
        index_iface ds (fst x) = InterfaceSIP3GPP \<or> index_iface ds (fst x) = InterfaceSIPSimple)"

lemma route_log_spec:
  assumes "run_state (route_log E ds is msg) w = (log, w')"
  shows "map fst log = take (length log) is \<and> (\<forall>x \<in> set (butlast log). \<not> stops (snd x)) \<and>
    (length log = length is \<or> log \<noteq> [] \<and> stops (snd (last log))) \<and> (\<forall>x \<in> set log. step_possible ds x)"
  using assms
proof (induction "is" arbitrary: msg w log)
  case (Cons i rest)
  obtain cand msg1 w1 where c: "run_state (resolveCandidateAt E msg ds i) w = ((cand, msg1), w1)"
    by (metis surj_pair)
  show ?case
  proof (cases cand)
    case (Inl reason)
    obtain xs where xs: "run_state (route_log E ds rest msg1) w1 = (xs, w')" "log = (i, Skipped) # xs"
      using Cons.prems c Inl by (auto split: prod.splits)
    show ?thesis using Cons.IH [OF xs(1)] xs(2) by (auto simp: stops_def step_possible_def)
  next
    case (Inr route)
    obtain out err msg2 w2 where a: "run_state (attemptRoute E msg1 route) w1 = (((out, err), msg2), w2)"
      by (metis surj_pair)
    have possible: "step_possible ds (i, Tried out)"
      using attemptRoute_outcome [OF a] resolveCandidateAt_route c Inr by (auto simp: step_possible_def)
    show ?thesis
    proof (cases "out = RouteDelivered \<or> out = RouteWaitEvent")
      case True
      then have "log = [(i, Tried out)]" using Cons.prems c a Inr by auto
      then show ?thesis using True possible by (auto simp: stops_def)
    next
      case False
      then obtain xs where xs: "run_state (route_log E ds rest msg2) w2 = (xs, w')" "log = (i, Tried out) # xs"
        using Cons.prems c a Inr by (auto split: prod.splits)
      show ?thesis using Cons.IH [OF xs(1)] xs(2) possible False by (auto simp: stops_def)
    qed
  qed
qed simp

lemma candidateCount_pos [simp]: "3 \<le> candidateCount e msg"
  by (simp add: candidateCount_def)

lemma run_pass_log:
  assumes "run_state (runRoutingPass E msg c) w = ((res, msg'), w')"
  obtains log where "run_state (pass_log E msg c) w = (log, w')"
    and "pr_outcome res = verdict False False (map snd log)"
    and "run_state (route_log E (fallbackDecisions (w_engine w) msg)
      (route_order c (candidateCount (w_engine w) msg)) msg) w = (log, w')"
proof -
  obtain log w1 where l: "run_state (route_log E (fallbackDecisions (w_engine w) msg)
      (route_order c (candidateCount (w_engine w) msg)) msg) w = (log, w1)" by force
  have "\<not> candidateCount (w_engine w) msg \<le> 0" using candidateCount_pos [of "w_engine w" msg] by linarith
  then have "run_state (route_loop E (fallbackDecisions (w_engine w) msg)
      (route_order c (candidateCount (w_engine w) msg)) msg pass_start) w = ((res, msg'), w')"
    using assms by (simp add: runRoutingPass_def)
  then have "w1 = w'" "pr_outcome res = verdict False False (map snd log)"
    using route_loop_log [OF l, of pass_start] by (auto simp: pass_start_def)
  then show thesis using l that by (simp add: pass_log_def)
qed

lemma route_order_length [simp]: "0 < n \<Longrightarrow> length (route_order c n) = nat n"
  by (simp add: route_order_mod)

lemma pass_never_fails:
  assumes "run_state (runRoutingPass E msg c) w = ((res, msg'), w')"
  shows "pr_outcome res \<noteq> PassFailed \<and>
    (pr_outcome res = PassWaitEvent \<longrightarrow> c mod candidateCount (w_engine w) msg = 2)"
proof -
  let ?ds = "fallbackDecisions (w_engine w) msg" and ?n = "candidateCount (w_engine w) msg"
  obtain log where out: "pr_outcome res = verdict False False (map snd log)"
    and l: "run_state (route_log E ?ds (route_order c ?n) msg) w = (log, w')"
    by (rule run_pass_log [OF assms])
  note spec = route_log_spec [OF l]
  have n: "0 < ?n" using candidateCount_pos [of "w_engine w" msg] by linarith
  have "pr_outcome res \<noteq> PassFailed"
  proof
    assume "pr_outcome res = PassFailed"
    then have perm: "\<forall>x \<in> set log. snd x = Tried RoutePermanent" and "log = [] \<or> \<not> stops (snd (last log))"
      unfolding out verdict_def by (auto simp: stops_def last_map split: if_splits)
    then have "length log = nat ?n" using spec n by auto
    then have "map fst log = route_order c ?n" using spec n by simp
    then have "2 \<in> set (map fst log)" using route_order_set(2) [OF n, of c]
      by (simp add: candidateCount_def)
    then obtain a where "(2, a) \<in> set log" by auto
    then show False using perm spec by (force simp: step_possible_def index_iface_def)
  qed
  moreover have "c mod ?n = 2" if "pr_outcome res = PassWaitEvent"
  proof -
    have "log \<noteq> []" "snd (last log) = Tried RouteWaitEvent" "\<not> 1 < length log"
      using that unfolding out verdict_def by (auto simp: last_map split: if_splits)
    then obtain i where log: "log = [(i, Tried RouteWaitEvent)]" by (cases log) (auto simp: prod_eq_iff)
    have i: "i = hd (route_order c ?n)" using spec log by (cases "route_order c ?n") auto
    also have "\<dots> = c mod ?n" using n by (simp add: route_order_mod hd_map)
    finally have ic: "i = c mod ?n" .
    have "index_iface ?ds i = InterfaceSGd" using spec log by (simp add: step_possible_def)
    moreover have "i < int (length ?ds) + 3" using pos_mod_bound [OF n, of c] unfolding ic candidateCount_def .
    then have "?ds ! nat (i - 3) \<in> set ?ds" if "3 \<le> i" using that by (intro nth_mem) (simp add: nat_less_iff)
    moreover have "0 \<le> i" using n ic by simp
    ultimately have "i = 2" using fallback_iface [of _ "w_engine w" msg]
      by (cases "3 \<le> i") (fastforce simp: index_iface_def split: if_splits)+
    then show ?thesis using ic by simp
  qed
  ultimately show ?thesis by blast
qed

section \<open>Properties\<close>

text \<open>
  C8: A routing pass tries the candidates in turn, each once, from the cursor on and around, and
  stops at the first that delivers or asks to wait for an event. Its outcome is decided by the
  log alone: delivered or waiting for the event as the last step says (with a timer as well, if
  anything came before), otherwise waiting for the timer if any candidate was skipped or may be
  tried again, and failed only when every single candidate was refused for good.
\<close>

theorem routing_pass_outcome:
  assumes "run_state (runRoutingPass E msg c) w = ((res, msg'), w')"
  shows "\<exists>log n. run_state (pass_log E msg c) w = (log, w') \<and>
    n = length (fallbackDecisions (w_engine w) msg) + 3 \<and>
    map fst log = take (length log) (map (\<lambda>k. (c + int k) mod int n) [0..<n]) \<and>
    (\<forall>x \<in> set (butlast log). \<not> stops (snd x)) \<and>
    (length log = n \<or> log \<noteq> [] \<and> stops (snd (last log))) \<and>
    pr_outcome res = verdict False False (map snd log)"
proof -
  obtain log where l: "run_state (pass_log E msg c) w = (log, w')"
    "pr_outcome res = verdict False False (map snd log)"
    "run_state (route_log E (fallbackDecisions (w_engine w) msg)
      (route_order c (candidateCount (w_engine w) msg)) msg) w = (log, w')"
    by (rule run_pass_log [OF assms])
  define n where "n = length (fallbackDecisions (w_engine w) msg) + 3"
  have n: "candidateCount (w_engine w) msg = int n" "0 < int n" by (simp_all add: n_def candidateCount_def)
  then have "route_order c (candidateCount (w_engine w) msg) = map (\<lambda>k. (c + int k) mod int n) [0..<n]"
    by (simp add: route_order_mod)
  then show ?thesis using l route_log_spec [OF l(3)] n_def by (intro exI [of _ log] exI [of _ n]) simp
qed

text \<open>A registered subscriber whose serving CSCF answers 404, on an otherwise bare centre.\<close>

definition isc_env :: "send_error option \<Rightarrow> env" where
  "isc_env e = example_env\<lparr>ev_isc := Some (\<lambda>_ _ _. e)\<rparr>"

definition isc_world :: world where
  "isc_world = (example_world Postgres [])\<lparr>w_cache := [''49151'' \<mapsto> example_registration]\<rparr>"

definition isc_message :: message where
  "isc_message = empty_message\<lparr>msg_ID := ''m1'', msg_Destination := empty_address\<lparr>addr_MSISDN := ''49151''\<rparr>\<rparr>"

abbreviation not_found :: send_error where
  "not_found \<equiv> SendError ''S-CSCF returned 404 Not Found''"

lemma isc_404_code: "sipResponseCodeFromError not_found = Some 404"
proof -
  have "decimal 404 = ''404''" by (simp add: decimal.simps digit_char_def char_of_def bit_Suc_0_iff)
  then show ?thesis using sip_code_of [of "''S-CSCF''" 404 "''Not Found''"] by simp
qed

lemmas isc_defs = isc_message_def isc_env_def isc_world_def example_env_def example_world_def example_db_def
  example_registration_def ims_usable_def ims_route_def new_route_def

lemma isc_resolve:
  "run_state (resolveCandidateAt (isc_env e) isc_message [] 0) isc_world =
     ((Inr (ims_route 0 ''ims-local'' (-2) example_registration), isc_message), isc_world\<lparr>w_ticks := 1\<rparr>)"
  by (simp add: resolveCandidateAt_def registry_Lookup_def isc_defs)

lemma isc_404_log:
  "fst (run_state (pass_log (isc_env (Some not_found)) isc_message 0) isc_world) = [(0, Tried RoutePermanent), (1, Skipped), (2, Skipped)]"
proof -
  have ds: "fallbackDecisions (w_engine isc_world) isc_message = []"
    by (simp add: isc_world_def fallbackDecisions_def RouteAll_def)
  have order: "route_order 0 3 = [0, 1, 2]"
    by (simp add: route_order_mod upt_rec)
  show ?thesis
    by (simp add: pass_log_def ds candidateCount_def order isc_resolve)
      (simp add: delivery_defs classifyRouteError_def isc_404_code isc_defs Let_def
        resolveCandidateAt_def ShRefresh_def shLookup_def sh_query_def resolveCandidate_def resolveSGdTarget_def sgd_built_in_def)
qed

theorem routing_pass_outcome_witness:
  "pr_outcome (fst (fst (run_state (runRoutingPass (isc_env (Some not_found)) isc_message 0) isc_world))) = PassWaitTimer"
proof -
  obtain res msg' w' where r: "run_state (runRoutingPass (isc_env (Some not_found)) isc_message 0) isc_world = ((res, msg'), w')"
    by (metis surj_pair)
  obtain log where "run_state (pass_log (isc_env (Some not_found)) isc_message 0) isc_world = (log, w')"
    "pr_outcome res = verdict False False (map snd log)"
    using routing_pass_outcome [OF r] by blast
  then show ?thesis using isc_404_log r by (simp add: verdict_def)
qed

text \<open>
  C16: A pass never ends in permanent failure, and waits for an event alone only when it starts at
  the built-in SGd candidate: that candidate is part of every pass and is never refused for good,
  and only it can ask to wait for an event. So a 404 from the IMS does not fail a message, and a
  message dispatched for the first time is delivered or waits with a timer.
\<close>

theorem routing_pass_never_fails:
  assumes "run_state (runRoutingPass E msg c) w = ((res, msg'), w')"
  shows "pr_outcome res \<noteq> PassFailed \<and>
    (pr_outcome res = PassWaitEvent \<longrightarrow> c mod candidateCount (w_engine w) msg = 2)"
  by (rule pass_never_fails [OF assms])

theorem routing_pass_never_fails_witness:
  "pr_outcome (fst (fst (run_state (runRoutingPass (isc_env (Some not_found)) isc_message 5) isc_world))) \<noteq> PassFailed"
proof -
  obtain res msg' w' where "run_state (runRoutingPass (isc_env (Some not_found)) isc_message 5) isc_world = ((res, msg'), w')"
    by (metis surj_pair)
  with routing_pass_never_fails [OF this] show ?thesis by simp
qed

text \<open>
  How a refusal by the IMS or a SIP peer is classified: the senders report a final response as
  "S-CSCF returned" or "peer ... returned" with the code and the reason, the forwarder reads the
  code back from that text, and 404, whatever reason follows, and nothing else is permanent. (A
  peer's name must not itself contain the word the text is searched for.)
\<close>

theorem sip_404_is_permanent:
  assumes "peer = ''S-CSCF'' \<or> str_index (peer @ '' returned '') '' returned '' = Some (length peer)"
    and "code < 2 ^ 63" and "rt_egressIface route = InterfaceSIP3GPP \<or> rt_egressIface route = InterfaceSIPSimple"
  shows "classifyRouteError route (SendError (peer @ '' returned '' @ decimal code @ '' '' @ reason)) =
    (if code = 404 then RoutePermanent else RouteWaitTimer)"
proof -
  have "str_index (peer @ '' returned '') '' returned '' = Some (length peer)" using assms(1) by auto
  from sip_code_of [OF this assms(2)] assms(3) show ?thesis
    unfolding classifyRouteError_def by simp
qed

theorem sip_404_is_permanent_witness:
  "classifyRouteError (new_route 3 InterfaceSIPSimple ''gw1'' [] [] 0)
     (SendError (''peer gw1'' @ '' returned '' @ decimal 404 @ '' '' @ ''Gone'')) = RoutePermanent"
  using sip_404_is_permanent [of "''peer gw1''" 404 "new_route 3 InterfaceSIPSimple ''gw1'' [] [] 0" "''Gone''"]
  by (simp add: new_route_def)

end
