(* ===== verification/Retry.thy ===== *)
theory Retry
  imports Forwarder
begin

text \<open>
  Store and forward: the retry scheduler (\<open>internal/forwarder/retry.go\<close>), the expiry sweeper
  (\<open>expiry.go\<close>) and the alert handler that wakes up deferred messages (\<open>triggerAlertRetry\<close> of
  \<open>cmd/smsc/main.go\<close>). A scheduler tick can panic, on a policy with an empty schedule, so its
  operations return an outcome.
\<close>

section \<open>From the stored row back to a message\<close>

definition storeToCodecMessage :: "env \<Rightarrow> smsg \<Rightarrow> message process" where
  "storeToCodecMessage E m = do {
     let enc = (if sm_Encoding m \<noteq> 0 then encoding_of_int (sm_Encoding m)
                else ParseDCS (word_of_int (sm_DCS m)));
     let msg = empty_message\<lparr>msg_ID := sm_ID m, msg_IngressInterface := sm_OriginIface m,
           msg_EgressInterface := sm_EgressIface m, msg_IngressPeer := sm_OriginPeer m,
           msg_CorrelationID := sm_AlertCorrelationID m, msg_Encoding := enc,
           msg_DCS := word_of_int (sm_DCS m),
           msg_Source := empty_address\<lparr>addr_MSISDN := sm_SrcMSISDN m\<rparr>,
           msg_Destination := empty_address\<lparr>addr_MSISDN := sm_DstMSISDN m\<rparr>,
           msg_Binary := (if enc = EncodingBinary then sm_Payload m else []),
           msg_Text := (if enc = EncodingBinary then [] else string_of_bytes (sm_Payload m)),
           msg_UDH := (if sm_UDH m = [] then None else Some \<lparr>udh_Raw = sm_UDH m, udh_Concat = None\<rparr>),
           msg_TPMR := (case sm_TPMR m of Some n \<Rightarrow> word_of_int n | None \<Rightarrow> 0)\<rparr>;
     (case sm_ExpiryAt m of
        None \<Rightarrow> State_Monad.return msg
      | Some t \<Rightarrow> do {
          now \<leftarrow> now_of E;
          State_Monad.return (msg\<lparr>msg_Expiry := Some t,
            msg_ValidityPeriod := (if t - now > 0 then Some (t - now) else None)\<rparr>) }) }"

section \<open>The next retry\<close>

text \<open>
  The policy of the route that failed; without one, that of the route planned at the cursor;
  without one, that of the first usable candidate, which is resolved again for it.
\<close>

definition planned_policy :: "env \<Rightarrow> smsg \<Rightarrow> string process" where
  "planned_policy E m = do {
     msg \<leftarrow> storeToCodecMessage E m;
     engine \<leftarrow> gets w_engine;
     let planned = (case plannedRouteAt engine msg (sm_RouteCursor m) of Some r \<Rightarrow> rt_sfPolicyID r | None \<Rightarrow> []);
     (if planned \<noteq> [] then State_Monad.return planned
      else do {
        (selected, _) \<leftarrow> selectRoute E msg (sm_RouteCursor m);
        State_Monad.return (case selected of Some r \<Rightarrow> rt_sfPolicyID r | None \<Rightarrow> []) }) }"

definition sfPolicyForMessage :: "env \<Rightarrow> smsg \<Rightarrow> selected_route option \<Rightarrow> string process" where
  "sfPolicyForMessage E m route =
     (let own = (case route of Some r \<Rightarrow> rt_sfPolicyID r | None \<Rightarrow> []) in
      if own \<noteq> [] then State_Monad.return own else planned_policy E m)"

definition defaultSchedule :: "int list" where
  "defaultSchedule = [30, 300, 1800, 3600, 3600, 3600, 3600, 3600]"

text \<open>The delay before attempt \<open>retryCount + 1\<close>: beyond the schedule its last entry is used.\<close>

definition retry_delay :: "int list \<Rightarrow> int \<Rightarrow> int \<Rightarrow> int option outcome" where
  "retry_delay schedule maxRetries retryCount =
     (let attempt = retryCount + 1 in
      if attempt > maxRetries then Ok None
      else let idx = attempt - 1;
               idx = (if idx \<ge> int (length schedule) then int (length schedule) - 1 else idx)
        in if idx < 0 then Panic else omap Some (at schedule (nat idx)))"

definition nextRetry :: "env \<Rightarrow> smsg \<Rightarrow> selected_route option \<Rightarrow> int option outcome process" where
  "nextRetry E m route = do {
     policyID \<leftarrow> sfPolicyForMessage E m route;
     pol \<leftarrow> (if policyID = [] then State_Monad.return None
            else do { p \<leftarrow> store (GetSFPolicy policyID); State_Monad.return (case p of Some p \<Rightarrow> p | None \<Rightarrow> None) });
     let (schedule, maxRetries) = (case pol of
           Some p \<Rightarrow> (pol_RetrySchedule p, pol_MaxRetries p)
         | None \<Rightarrow> (defaultSchedule, int (length defaultSchedule)));
     (case retry_delay schedule maxRetries (sm_RetryCount m) of
        Ok (Some delay) \<Rightarrow> do { now \<leftarrow> now_of E; State_Monad.return (Ok (Some (now + delay * Second))) }
      | r \<Rightarrow> State_Monad.return r) }"

definition scheduleOrFail :: "env \<Rightarrow> smsg \<Rightarrow> selected_route option \<Rightarrow> unit outcome process" where
  "scheduleOrFail E m route = do {
     r \<leftarrow> nextRetry E m route;
     (case r of
        Ok None \<Rightarrow> do { set_terminal E (sm_ID m) MessageStatusFailed StatusFailed; State_Monad.return (Ok ()) }
      | Ok (Some t) \<Rightarrow> do {
          store (UpdateMessageRetry (sm_ID m) (sm_RetryCount m + 1) t (deferredRouteCursor route));
          State_Monad.return (Ok ()) }
      | Err e \<Rightarrow> State_Monad.return (Err e)
      | Panic \<Rightarrow> State_Monad.return Panic) }"

section \<open>A retry\<close>

definition finalizeNonDelivered :: "env \<Rightarrow> smsg \<Rightarrow> message \<Rightarrow> pass_result \<Rightarrow> unit outcome process" where
  "finalizeNonDelivered E m msg result =
     (case pr_outcome result of
        PassWaitTimer \<Rightarrow> do {
          markDeferred (sm_ID m) msg (sm_RouteCursor m) (pr_lastAttempted result);
          applyDeferredExpiryCap E (sm_ID m) (sm_SubmittedAt m) (pr_lastAttempted result);
          scheduleOrFail E m (pr_lastAttempted result) }
      | PassWaitEvent \<Rightarrow> do {
          markDeferred (sm_ID m) msg (sm_RouteCursor m) (pr_eventRoute result);
          applyDeferredExpiryCap E (sm_ID m) (sm_SubmittedAt m) (pr_eventRoute result);
          set_status E (sm_ID m) MessageStatusWaitEvent;
          State_Monad.return (Ok ()) }
      | PassWaitTimerEvent \<Rightarrow> do {
          markDeferred (sm_ID m) msg (sm_RouteCursor m) (pr_eventRoute result);
          applyDeferredExpiryCap E (sm_ID m) (sm_SubmittedAt m) (pr_eventRoute result);
          r \<leftarrow> scheduleOrFail E m (pr_eventRoute result);
          (case r of
             Ok _ \<Rightarrow> do { set_status E (sm_ID m) MessageStatusWaitTimerEvent; State_Monad.return (Ok ()) }
           | _ \<Rightarrow> State_Monad.return r) }
      | PassFailed \<Rightarrow> do { set_terminal E (sm_ID m) MessageStatusFailed StatusFailed; State_Monad.return (Ok ()) }
      | PassDelivered \<Rightarrow> State_Monad.return (Ok ()))"

text \<open>A message an SGd alert woke up tries the route at its cursor alone.\<close>

definition retryMessage :: "env \<Rightarrow> smsg \<Rightarrow> message \<Rightarrow> (pass_result \<times> message) process" where
  "retryMessage E m msg =
     (if sm_DeferredReason m = ''sgd_alert_retry'' \<and> sm_DeferredInterface m = InterfaceSGd then do {
        ((route, e), msg) \<leftarrow> tryRouteAt E msg (sm_RouteCursor m);
        State_Monad.return
          ((case e of
              Some err \<Rightarrow> (empty_result PassWaitTimer)\<lparr>pr_lastAttempted := route, pr_timerRoute := route,
                             pr_lastErr := Some err\<rparr>
            | None \<Rightarrow> (empty_result PassDelivered)\<lparr>pr_deliveredRoute := route, pr_lastAttempted := route\<rparr>), msg) }
      else runRoutingPass E msg (sm_RouteCursor m))"

definition retry_dispatch :: "env \<Rightarrow> smsg \<Rightarrow> unit outcome process" where
  "retry_dispatch E m = do {
     claimed \<leftarrow> store (ClaimMessageForDispatch (sm_ID m) retryable_statuses);
     (if claimed \<noteq> Some True then State_Monad.return (Ok ())
      else do {
        msg \<leftarrow> storeToCodecMessage E m;
        (result, msg) \<leftarrow> retryMessage E m msg;
        (if pr_outcome result \<noteq> PassDelivered then finalizeNonDelivered E m msg result
         else (case pr_deliveredRoute result of
           None \<Rightarrow> State_Monad.return Panic
         | Some route \<Rightarrow> do {
             persistDeliveredRoute (sm_ID m) (msg_EgressInterface msg) (rt_egressPeer route);
             set_terminal E (sm_ID m) MessageStatusDelivered StatusDelivered;
             State_Monad.return (Ok ()) })) }) }"

fun dispatch_all :: "env \<Rightarrow> smsg list \<Rightarrow> unit outcome process" where
  "dispatch_all E [] = State_Monad.return (Ok ())"
| "dispatch_all E (m # ms) = do {
     r \<leftarrow> retry_dispatch E m;
     (case r of Panic \<Rightarrow> State_Monad.return Panic | _ \<Rightarrow> dispatch_all E ms) }"

definition retry_tick :: "env \<Rightarrow> unit outcome process" where
  "retry_tick E = do {
     now \<leftarrow> now_of E;
     msgs \<leftarrow> store (ListRetryableMessages now);
     (case msgs of None \<Rightarrow> State_Monad.return (Ok ()) | Some ms \<Rightarrow> dispatch_all E ms) }"

section \<open>Expiry\<close>

fun expire_all :: "env \<Rightarrow> (smsg \<Rightarrow> unit process) option \<Rightarrow> smsg list \<Rightarrow> unit process" where
  "expire_all E onExpiry [] = State_Monad.return ()"
| "expire_all E onExpiry (m # ms) = do {
     r \<leftarrow> set_status E (sm_ID m) MessageStatusExpired;
     (case r of
        None \<Rightarrow> State_Monad.return ()
      | Some _ \<Rightarrow> (case onExpiry of
          Some f \<Rightarrow> if sm_DRRequired m then f m else State_Monad.return ()
        | None \<Rightarrow> State_Monad.return ()));
     expire_all E onExpiry ms }"

definition expiry_sweep :: "env \<Rightarrow> (smsg \<Rightarrow> unit process) option \<Rightarrow> unit process" where
  "expiry_sweep E onExpiry = do {
     now \<leftarrow> now_of E;
     msgs \<leftarrow> store (ListExpiredMessages now);
     (case msgs of None \<Rightarrow> State_Monad.return () | Some ms \<Rightarrow> expire_all E onExpiry ms) }"

section \<open>Alerts\<close>

definition alert_filter :: "string \<Rightarrow> string \<Rightarrow> string \<Rightarrow> message_filter" where
  "alert_filter msisdn correlationID deferredInterface =
     \<lparr>mf_Statuses = waiting_statuses, mf_SrcMSISDN = [],
      mf_DstMSISDN = (if correlationID \<noteq> [] then [] else msisdn), mf_OriginPeer = [],
      mf_AlertCorrelationID = correlationID, mf_DeferredInterface = deferredInterface, mf_Limit = 1000\<rparr>"

text \<open>The requeue loop; the number requeued is logged.\<close>

fun requeue_all :: "string \<Rightarrow> int \<Rightarrow> smsg list \<Rightarrow> nat process" where
  "requeue_all reason now [] = State_Monad.return 0"
| "requeue_all reason now (m # ms) = do {
     ok \<leftarrow> store (RequeueMessageForAlert (sm_ID m) now (sm_RouteCursor m) reason waiting_statuses);
     n \<leftarrow> requeue_all reason now ms;
     State_Monad.return (if ok = Some True then Suc n else n) }"

definition wake_all :: "env \<Rightarrow> string \<Rightarrow> string \<Rightarrow> smsg list \<Rightarrow> nat outcome process" where
  "wake_all E source deferredInterface ms = do {
     now \<leftarrow> now_of E;
     n \<leftarrow> requeue_all (if source = ''sgd'' \<and> deferredInterface = InterfaceSGd then ''sgd_alert_retry'' else [])
            now ms;
     State_Monad.return (Ok n) }"

text \<open>The texts of the errors end with that of the database.\<close>

definition triggerAlertRetry :: "env \<Rightarrow> string \<Rightarrow> string \<Rightarrow> string \<Rightarrow> string \<Rightarrow> nat outcome process" where
  "triggerAlertRetry E source msisdn correlationID deferredInterface =
     (if correlationID = [] \<and> msisdn = [] then State_Monad.return (Err (source @ '' ALR missing subscriber identity''))
      else do {
        first \<leftarrow> store (ListFilteredMessages (alert_filter msisdn correlationID deferredInterface));
        (case first of
          None \<Rightarrow> State_Monad.return (Err (''list deferred messages for '' @ msisdn))
        | Some [] \<Rightarrow>
            if correlationID \<noteq> [] \<and> msisdn \<noteq> [] then do {
              second \<leftarrow> store (ListFilteredMessages (alert_filter msisdn [] deferredInterface));
              (case second of
                 None \<Rightarrow> State_Monad.return (Err (''list deferred fallback messages for '' @ msisdn))
               | Some ms \<Rightarrow> wake_all E source deferredInterface ms) }
            else wake_all E source deferredInterface []
        | Some (m # ms) \<Rightarrow> wake_all E source deferredInterface (m # ms)) })"

end
