(* ===== verification/Lifecycle.thy ===== *)
theory Lifecycle
  imports Retry
begin

text \<open>
  What becomes of one message: the rows a dispatch, a retry, an expiry and an alert leave behind,
  the statuses a message goes through, and that nothing is sent for a message that is settled.
\<close>

section \<open>Triples\<close>

text \<open>\<open>leads P p Q\<close>: from a world where \<open>P\<close> holds, \<open>p\<close> gives a result and a world where \<open>Q\<close> does.\<close>

definition leads :: "(world \<Rightarrow> bool) \<Rightarrow> 'a process \<Rightarrow> ('a \<Rightarrow> world \<Rightarrow> bool) \<Rightarrow> bool" where
  "leads P p Q \<longleftrightarrow> (\<forall>w. P w \<longrightarrow> Q (fst (run_state p w)) (snd (run_state p w)))"

lemma leadsI: "(\<And>w x w'. P w \<Longrightarrow> run_state p w = (x, w') \<Longrightarrow> Q x w') \<Longrightarrow> leads P p Q"
  by (simp add: leads_def)

lemma leadsD:
  assumes "leads P p Q" "P w" "run_state p w = (x, w')"
  shows "Q x w'"
proof -
  have "Q (fst (run_state p w)) (snd (run_state p w))" using assms(1,2) by (simp add: leads_def)
  then show ?thesis using assms(3) by simp
qed

lemma leads_return: "leads P (State_Monad.return x) (\<lambda>_. P)"
  by (simp add: leads_def)

lemma leads_return': "(\<And>w. P w \<Longrightarrow> Q x w) \<Longrightarrow> leads P (State_Monad.return x) Q"
  by (simp add: leads_def)

lemma leads_bind: "leads P p R \<Longrightarrow> (\<And>x. leads (R x) (q x) Q) \<Longrightarrow> leads P (State_Monad.bind p q) Q"
  by (simp add: leads_def split_beta)

lemma leads_weaken: "leads P p R \<Longrightarrow> (\<And>x w. R x w \<Longrightarrow> Q x w) \<Longrightarrow> leads P p Q"
  by (simp add: leads_def)

lemma leads_pre: "leads P' p Q \<Longrightarrow> (\<And>w. P w \<Longrightarrow> P' w) \<Longrightarrow> leads P p Q"
  by (simp add: leads_def)

section \<open>One row\<close>

text \<open>
  In a calm world with backend \<open>b\<close>, the row of \<open>mid\<close> satisfies \<open>Q\<close> and every other row is as
  \<open>L\<close> says.
\<close>

definition row_is :: "string \<Rightarrow> backend \<Rightarrow> (string \<Rightarrow> smsg option) \<Rightarrow> (smsg \<Rightarrow> bool) \<Rightarrow> world \<Rightarrow> bool" where
  "row_is mid b L Q w \<longleftrightarrow> calm w \<and> backend_of w = b \<and> (\<forall>j. j \<noteq> mid \<longrightarrow> lookup_message j (w_db w) = L j) \<and>
     (\<exists>m. lookup_message mid (w_db w) = Some m \<and> Q m)"

lemma leads_row:
  assumes "keeps calm p" "stays messages_of p" "stays backend_of p"
  shows "leads (row_is mid b L Q) p (\<lambda>_. row_is mid b L Q)"
proof (rule leadsI)
  fix w x w' assume r: "row_is mid b L Q w" "run_state p w = (x, w')"
  have "calm w'" using keepsD [OF assms(1), of w] r by (simp add: row_is_def)
  moreover have "messages_of w' = messages_of w" "backend_of w' = backend_of w"
    using staysD [OF assms(2), of w] staysD [OF assms(3), of w] r(2) by simp_all
  ultimately show "row_is mid b L Q w'" using r(1) by (simp add: row_is_def lookup_message_def)
qed

lemma leads_row_update:
  assumes "\<And>d. db_faults d = [] \<Longrightarrow> db_backend d = b \<Longrightarrow> op d = (Some r, upd_message mid g d)"
    and "\<And>m. sm_ID (g m) = sm_ID m" and "\<And>m. Q m \<Longrightarrow> Q' (g m)"
  shows "leads (row_is mid b L Q) (store op) (\<lambda>x w. x = Some r \<and> row_is mid b L Q' w)"
proof (rule leadsI)
  fix w x w' assume w: "row_is mid b L Q w" "run_state (store op) w = (x, w')"
  have op: "op (w_db w) = (Some r, upd_message mid g (w_db w))"
    using w(1) by (intro assms(1)) (simp_all add: row_is_def calm_def)
  then show "x = Some r \<and> row_is mid b L Q' w'"
    using w assms(3) by (auto simp: row_is_def msgs.lookup_update [OF assms(2)] calm_def)
qed

lemma update_statements:
  assumes "db_faults d = []"
  shows "UpdateMessageRouting mid i p d = (Some (), upd_message mid (\<lambda>m. m\<lparr>sm_EgressIface := i, sm_EgressPeer := p\<rparr>) d)"
    "UpdateMessageDeferred mid a i' n c d = (Some (), upd_message mid (\<lambda>m. m\<lparr>sm_DeferredReason := a,
       sm_DeferredInterface := i', sm_ServingNodeAtDeferral := n, sm_RouteCursor := c\<rparr>) d)"
    "UpdateMessageStatus now mid st d = (Some (), upd_message mid (\<lambda>m. if st = MessageStatusDelivered
       then m\<lparr>sm_Status := st, sm_DeliveredAt := Some (db_time (db_backend d) now)\<rparr> else m\<lparr>sm_Status := st\<rparr>) d)"
    "UpdateMessageRetry mid k t c d = (Some (), upd_message mid (\<lambda>m. m\<lparr>sm_Status := MessageStatusWaitTimer,
       sm_RetryCount := k, sm_NextRetryAt := Some (db_time (db_backend d) t), sm_RouteCursor := c\<rparr>) d)"
  using assms by (simp_all add: UpdateMessageRouting_def UpdateMessageDeferred_def UpdateMessageStatus_def
      UpdateMessageRetry_def db_call_no_fault)

text \<open>The part of a row nobody rewrites after it was stored.\<close>

definition same_content :: "smsg \<Rightarrow> smsg \<Rightarrow> bool" where
  "same_content m0 m \<longleftrightarrow> sm_ID m = sm_ID m0 \<and> sm_SMPPMsgID m = sm_SMPPMsgID m0 \<and>
     sm_OriginIface m = sm_OriginIface m0 \<and> sm_OriginPeer m = sm_OriginPeer m0 \<and>
     sm_SrcMSISDN m = sm_SrcMSISDN m0 \<and> sm_DstMSISDN m = sm_DstMSISDN m0 \<and>
     sm_AlertCorrelationID m = sm_AlertCorrelationID m0 \<and> sm_Payload m = sm_Payload m0 \<and>
     sm_UDH m = sm_UDH m0 \<and> sm_Encoding m = sm_Encoding m0 \<and> sm_DCS m = sm_DCS m0 \<and>
     sm_DRRequired m = sm_DRRequired m0 \<and> sm_SubmittedAt m = sm_SubmittedAt m0"

lemma same_content_updates [simp]:
  "same_content m0 (m\<lparr>sm_EgressIface := i, sm_EgressPeer := p\<rparr>) = same_content m0 m"
  "same_content m0 (m\<lparr>sm_DeferredReason := a, sm_DeferredInterface := i', sm_ServingNodeAtDeferral := n,
     sm_RouteCursor := c\<rparr>) = same_content m0 m"
  "same_content m0 (m\<lparr>sm_Status := st\<rparr>) = same_content m0 m"
  "same_content m0 (m\<lparr>sm_Status := st, sm_DeliveredAt := d\<rparr>) = same_content m0 m"
  "same_content m0 (m\<lparr>sm_Status := st, sm_RetryCount := k, sm_NextRetryAt := t, sm_RouteCursor := c\<rparr>) = same_content m0 m"
  "same_content m0 (m\<lparr>sm_ExpiryAt := e\<rparr>) = same_content m0 m"
  by (simp_all add: same_content_def)

text \<open>A row of the message \<open>m0\<close> that satisfies \<open>Q\<close> besides.\<close>

abbreviation row_ok :: "smsg \<Rightarrow> (smsg \<Rightarrow> bool) \<Rightarrow> string \<Rightarrow> backend \<Rightarrow> (string \<Rightarrow> smsg option) \<Rightarrow> world \<Rightarrow> bool" where
  "row_ok m0 Q mid b L \<equiv> row_is mid b L (\<lambda>m. same_content m0 m \<and> Q m)"

lemma leads_set_status:
  assumes "\<And>m t. Q m \<Longrightarrow> Q' (m\<lparr>sm_Status := st\<rparr>) \<and> Q' (m\<lparr>sm_Status := st, sm_DeliveredAt := t\<rparr>)"
  shows "leads (row_ok m0 Q mid b L) (set_status E mid st) (\<lambda>x w. x = Some () \<and> row_ok m0 Q' mid b L w)"
  unfolding set_status_def
proof (rule leads_bind [OF leads_row])
  fix now
  show "leads (row_ok m0 Q mid b L) (store (UpdateMessageStatus now mid st))
      (\<lambda>x w. x = Some () \<and> row_ok m0 Q' mid b L w)"
    by (rule leads_row_update [where g = "\<lambda>m. if st = MessageStatusDelivered
          then m\<lparr>sm_Status := st, sm_DeliveredAt := Some (db_time b now)\<rparr> else m\<lparr>sm_Status := st\<rparr>"])
      (auto simp: update_statements dest: assms)
qed simp_all

lemma leads_set_terminal:
  assumes "\<And>m t. Q m \<Longrightarrow> Q' (m\<lparr>sm_Status := st\<rparr>) \<and> Q' (m\<lparr>sm_Status := st, sm_DeliveredAt := t\<rparr>)"
  shows "leads (row_ok m0 Q mid b L) (set_terminal E mid st rep) (\<lambda>_. row_ok m0 Q' mid b L)"
  unfolding set_terminal_def
proof (rule leads_bind [OF leads_set_status [OF assms]])
  fix x
  show "leads (\<lambda>w. x = Some () \<and> row_ok m0 Q' mid b L w)
      (if ev_reporter E = None then State_Monad.return () else do {
         stored \<leftarrow> store (GetMessage mid);
         case stored of None \<Rightarrow> State_Monad.return () | Some None \<Rightarrow> State_Monad.return ()
         | Some (Some m) \<Rightarrow> report_of E m rep }) (\<lambda>_. row_ok m0 Q' mid b L)"
    by (rule leads_pre [OF leads_row [of _ mid b L]])
      (auto intro!: kept calm_store frame split: option.splits)
qed

lemma leads_markDeferred:
  assumes "\<And>m a i n c. Q m \<Longrightarrow> Q (m\<lparr>sm_DeferredReason := a, sm_DeferredInterface := i,
    sm_ServingNodeAtDeferral := n, sm_RouteCursor := c\<rparr>)"
  shows "leads (row_ok m0 Q mid b L) (markDeferred mid msg c route) (\<lambda>_. row_ok m0 Q mid b L)"
proof -
  have u: "leads (row_ok m0 Q mid b L) (do { store (UpdateMessageDeferred mid a i n c'); State_Monad.return () })
      (\<lambda>_. row_ok m0 Q mid b L)" for a i n c'
    by (rule leads_bind [OF leads_row_update [where g = "\<lambda>m. m\<lparr>sm_DeferredReason := a,
          sm_DeferredInterface := i, sm_ServingNodeAtDeferral := n, sm_RouteCursor := c'\<rparr>" and r = "()"
          and Q' = "\<lambda>m. same_content m0 m \<and> Q m"]])
      (auto simp: update_statements assms intro: leads_pre [OF leads_return])
  show ?thesis
    unfolding markDeferred_def by (auto intro!: leads_return leads_bind [OF leads_row] u split: prod.splits)
qed

lemma routePolicy_quiet [kept, frame]:
  "keeps calm (routePolicy r)" "stays messages_of (routePolicy r)" "stays backend_of (routePolicy r)"
  unfolding routePolicy_def by (intro kept calm_store frame; simp)+

lemma leads_expiry_cap:
  assumes "\<And>m e. Q m \<Longrightarrow> Q (m\<lparr>sm_ExpiryAt := e\<rparr>)"
  shows "leads (row_ok m0 Q mid b L) (applyDeferredExpiryCap E mid t route) (\<lambda>_. row_ok m0 Q mid b L)"
proof -
  have u: "leads (row_ok m0 Q mid b L) (do { store (UpdateMessageExpiryCap mid t); State_Monad.return () })
      (\<lambda>_. row_ok m0 Q mid b L)" for t
    by (rule leads_bind [OF leads_row_update [where g = "\<lambda>m. m\<lparr>sm_ExpiryAt := cap_expiry (sm_ExpiryAt m) (db_time b t)\<rparr>"
          and r = "()" and Q' = "\<lambda>m. same_content m0 m \<and> Q m"]])
      (auto simp: UpdateMessageExpiryCap_ok assms intro: leads_pre [OF leads_return])
  have "leads (row_ok m0 Q mid b L) (deferredLifetimeForRoute E route) (\<lambda>_. row_ok m0 Q mid b L)"
    unfolding deferredLifetimeForRoute_def by (rule leads_row; intro kept frame)
  then show ?thesis
    unfolding applyDeferredExpiryCap_def Let_def
    by (auto intro!: leads_return leads_bind [OF leads_row [OF routePolicy_quiet]] u
        intro: leads_bind split: option.split)
qed

lemma leads_retry:
  assumes "\<And>m. Q m \<Longrightarrow> Q' (m\<lparr>sm_Status := MessageStatusWaitTimer, sm_RetryCount := k,
    sm_NextRetryAt := Some (db_time b t), sm_RouteCursor := c\<rparr>)"
  shows "leads (row_ok m0 Q mid b L) (store (UpdateMessageRetry mid k t c))
    (\<lambda>x w. x = Some () \<and> row_ok m0 Q' mid b L w)"
  by (rule leads_row_update [where g = "\<lambda>m. m\<lparr>sm_Status := MessageStatusWaitTimer, sm_RetryCount := k,
        sm_NextRetryAt := Some (db_time b t), sm_RouteCursor := c\<rparr>"])
    (auto simp: update_statements assms)

text \<open>The state a pass result leaves the row in.\<close>

definition settled :: "pass_outcome \<Rightarrow> backend \<Rightarrow> int \<Rightarrow> int \<Rightarrow> smsg \<Rightarrow> bool" where
  "settled out b now k m \<longleftrightarrow> (case out of
     PassDelivered \<Rightarrow> sm_Status m = MessageStatusDelivered
   | PassFailed \<Rightarrow> sm_Status m = MessageStatusFailed
   | PassWaitEvent \<Rightarrow> sm_Status m = MessageStatusWaitEvent
   | PassWaitTimer \<Rightarrow> sm_Status m = MessageStatusWaitTimer \<and> sm_RetryCount m = k \<and>
       sm_NextRetryAt m = Some (db_time b (now + 30 * Second))
   | PassWaitTimerEvent \<Rightarrow> sm_Status m = MessageStatusWaitTimerEvent \<and> sm_RetryCount m = k \<and>
       sm_NextRetryAt m = Some (db_time b (now + 30 * Second)))"

lemma leads_persist:
  "leads (row_ok m0 (\<lambda>_. True) mid b L) (persistDeliveredRoute mid i p) (\<lambda>_. row_ok m0 (\<lambda>_. True) mid b L)"
  unfolding persistDeliveredRoute_def
  by (auto intro!: leads_return leads_weaken [OF leads_row_update [where r = "()" and
          g = "\<lambda>m. m\<lparr>sm_EgressIface := i, sm_EgressPeer := p\<rparr>" and
          Q' = "\<lambda>m. same_content m0 m \<and> True"]] simp: update_statements)

lemma leads_finalize:
  assumes "msg_ID msg = mid"
  shows "leads (row_ok m0 (\<lambda>_. True) mid b L) (finalizeRoutingPass E msg now c k res)
    (\<lambda>_. row_ok m0 (settled (pr_outcome res) b now k) mid b L)"
proof -
  let ?any = "row_ok m0 (\<lambda>_. True) mid b L"
  note waits = leads_markDeferred [of "\<lambda>_. True"] leads_expiry_cap [of "\<lambda>_. True"]
  show ?thesis
  proof (cases "pr_outcome res")
    case PassDelivered
    have "leads ?any (case r of Some r \<Rightarrow> do { persistDeliveredRoute mid i (rt_egressPeer r); State_Monad.return () }
        | None \<Rightarrow> State_Monad.return ()) (\<lambda>_. ?any)" for r i
      by (cases r) (simp_all only: option.case, rule leads_return, intro leads_bind [OF leads_persist] leads_return)
    then show ?thesis
      using PassDelivered assms unfolding finalizeRoutingPass_def
      by (auto simp: settled_def intro!: leads_bind [where R = "\<lambda>_. ?any"] leads_set_terminal)
  next
    case PassWaitTimer
    show ?thesis
      using assms unfolding finalizeRoutingPass_def Let_def PassWaitTimer pass_outcome.case assms
      by (intro leads_bind [OF waits(1)] leads_bind [OF waits(2)] leads_bind [OF leads_retry] leads_return')
        (auto simp: settled_def)
  next
    case PassWaitEvent
    show ?thesis
      unfolding finalizeRoutingPass_def Let_def PassWaitEvent pass_outcome.case assms
      by (intro leads_bind [OF waits(1)] leads_bind [OF waits(2)] leads_bind [OF leads_set_status] leads_return')
        (auto simp: settled_def)
  next
    case PassWaitTimerEvent
    let ?Q = "\<lambda>m. sm_RetryCount m = k \<and> sm_NextRetryAt m = Some (db_time b (now + 30 * Second))"
    let ?Q' = "settled (pr_outcome res) b now k"
    have "leads (row_ok m0 ?Q mid b L) (do { set_status E mid MessageStatusWaitTimerEvent; State_Monad.return () })
        (\<lambda>_. row_ok m0 ?Q' mid b L)"
      by (intro leads_bind [OF leads_set_status [where Q = ?Q and Q' = ?Q']] leads_return')
        (auto simp: settled_def PassWaitTimerEvent)
    then have "leads (\<lambda>w. x = Some () \<and> row_ok m0 ?Q mid b L w) (case x of None \<Rightarrow> State_Monad.return ()
        | Some _ \<Rightarrow> do { set_status E mid MessageStatusWaitTimerEvent; State_Monad.return () })
        (\<lambda>_. row_ok m0 ?Q' mid b L)" for x
      by (cases x) (simp_all add: leads_def)
    then show ?thesis
      unfolding finalizeRoutingPass_def Let_def PassWaitTimerEvent pass_outcome.case assms
      by (intro leads_bind [OF waits(1)] leads_bind [OF waits(2)] leads_bind [OF leads_retry [where Q' = ?Q]]) simp_all
  next
    case PassFailed
    show ?thesis
      unfolding finalizeRoutingPass_def Let_def PassFailed pass_outcome.case assms
      by (rule leads_set_terminal) (simp add: settled_def)
  qed
qed

section \<open>A dispatch\<close>

lemma row_is_stored:
  assumes "calm w" "backend_of w = b" "lookup_message (sm_ID r) (w_db w) = None" "db_accepts (w_db w) (sm_ID r)"
  shows "row_ok (store_times b r) (\<lambda>m. sm_Status m = sm_Status r) (sm_ID r) b (\<lambda>j. lookup_message j (w_db w))
    (snd (run_state (store (SaveMessage r)) w))"
proof -
  have new: "sm_ID r \<notin> set (map sm_ID (messages_of w))"
    using assms(3) by (auto simp: lookup_message_def find_None_iff)
  let ?d = "(w_db w)\<lparr>db_messages := messages_of w @ [store_times b r]\<rparr>"
  have "SaveMessage r (w_db w) = (Some True, ?d)"
    using assms(1,2,4) new by (simp add: SaveMessage_def db_call_no_fault calm_def)
  moreover have "lookup_message j ?d = (if j = sm_ID r then Some (store_times b r) else lookup_message j (w_db w))" for j
    using assms(3) by (auto simp: lookup_message_def find_append store_times_def split: option.splits)
  ultimately show ?thesis using assms by (auto simp: row_is_def calm_def same_content_def store_times_def)
qed

text \<open>What the stored row says of the message.\<close>

lemma run_with_identity: "msg_ID msg \<noteq> [] \<Longrightarrow> run_state (with_identity E msg) w =
    (if msg_CorrelationID msg = [] then msg\<lparr>msg_CorrelationID := defaultAlertCorrelationID (msg_ID msg)\<rparr> else msg, w)"
  by (simp add: with_identity_def)

definition dispatched_row :: "env \<Rightarrow> message \<Rightarrow> backend \<Rightarrow> int \<Rightarrow> smsg" where
  "dispatched_row E msg b now = store_times b (message_row (normalizeIngressRecipient E
     (if msg_CorrelationID msg = [] then msg\<lparr>msg_CorrelationID := defaultAlertCorrelationID (msg_ID msg)\<rparr> else msg))
     [] [] MessageStatusDispatched now)"

text \<open>A pass does not change whose message it is.\<close>

lemma resolveCandidate_id:
  "run_state (resolveCandidate E msg d i) w = ((c, msg'), w') \<Longrightarrow> msg_ID msg' = msg_ID msg"
  unfolding resolveCandidate_def
  by (auto simp: sgd_destination_def Let_def split: if_splits option.splits prod.splits sum.splits)

lemma resolveCandidateAt_id:
  "run_state (resolveCandidateAt E msg ds i) w = ((c, msg'), w') \<Longrightarrow> msg_ID msg' = msg_ID msg"
  unfolding resolveCandidateAt_def
  by (auto simp: Let_def split: if_splits prod.splits dest: resolveCandidate_id)

lemma attemptRoute_id:
  "run_state (attemptRoute E msg r) w = ((x, msg'), w') \<Longrightarrow> msg_ID msg' = msg_ID msg"
  unfolding attemptRoute_def deliverSelectedRoute_def
  by (auto simp: sgd_destination_def Let_def split: if_splits option.splits prod.splits)

lemma route_loop_id:
  "run_state (route_loop E ds is msg st) w = ((res, msg'), w') \<Longrightarrow> msg_ID msg' = msg_ID msg"
proof (induction "is" arbitrary: msg st w)
  case (Cons i rest)
  obtain cand msg1 w1 where c: "run_state (resolveCandidateAt E msg ds i) w = ((cand, msg1), w1)"
    by (metis surj_pair)
  show ?case
  proof (cases cand)
    case (Inl reason)
    then show ?thesis using Cons.prems c resolveCandidateAt_id [OF c] Cons.IH by auto
  next
    case (Inr route)
    obtain out err msg2 w2 where a: "run_state (attemptRoute E msg1 route) w1 = (((out, err), msg2), w2)"
      by (metis surj_pair)
    show ?thesis
      using Cons.prems c a Inr resolveCandidateAt_id [OF c] attemptRoute_id [OF a] Cons.IH
      by (cases out) (auto simp: Let_def)
  qed
qed simp

lemma runRoutingPass_id:
  "run_state (runRoutingPass E msg c) w = ((res, msg'), w') \<Longrightarrow> msg_ID msg' = msg_ID msg"
  by (auto simp: runRoutingPass_def Let_def route_loop_id split: if_splits)

section \<open>The other rows\<close>

text \<open>
  What is seen of one key: that keys are unique, and its row. Whether or not statements fail,
  the operations on one message leave this as it is for every other.
\<close>

abbreviation row_view :: "string \<Rightarrow> world \<Rightarrow> bool \<times> smsg option" where
  "row_view j w \<equiv> (wf_db (w_db w), lookup_message j (w_db w))"

lemma stays_row_view: "stays messages_of p \<Longrightarrow> stays (row_view j) p"
  by (simp add: stays_def wf_db_def lookup_message_def)

lemma db_call_view:
  assumes "\<And>d. f d = (r d, upd_message mid (g d) d)" and "\<And>d m. sm_ID (g d m) = sm_ID m" and "j \<noteq> mid"
  shows "stays (row_view j) (store (db_call f))"
  unfolding stays_def
proof
  fix w
  show "row_view j (snd (run_state (store (db_call f)) w)) = row_view j w"
    by (cases rule: db_call_cases [of f "w_db w"]) (simp_all add: assms msgs.lookup_update)
qed

lemma statement_view [frame]:
  assumes "j \<noteq> mid"
  shows "stays (row_view j) (store (UpdateMessageRouting mid i p))" "stays (row_view j) (store (UpdateMessageDeferred mid a i n c))"
    "stays (row_view j) (store (UpdateMessageStatus now mid st))" "stays (row_view j) (store (UpdateMessageRetry mid k t c))"
    "stays (row_view j) (store (UpdateMessageExpiryCap mid t))"
  unfolding UpdateMessageRouting_def UpdateMessageDeferred_def UpdateMessageStatus_def UpdateMessageRetry_def
    UpdateMessageExpiryCap_def Let_def
  by (rule db_call_view [OF refl _ assms]; simp)+

lemma store_pure: "(\<And>d. snd (op d) = d) \<Longrightarrow> stays f (store op)"
  by (simp add: stays_def)

lemma guarded_view [frame]:
  assumes "j \<noteq> mid"
  shows "stays (row_view j) (store (ClaimMessageForDispatch mid allowed))"
    "stays (row_view j) (store (RequeueMessageForAlert mid t c reason allowed))"
proof -
  show "stays (row_view j) (store (ClaimMessageForDispatch mid allowed))"
  proof (cases "allowed = []")
    case False
    then have "ClaimMessageForDispatch mid allowed =
        db_call (upd_guarded mid allowed (\<lambda>m. m\<lparr>sm_Status := MessageStatusDispatched\<rparr>))"
      by (intro ext) (simp add: ClaimMessageForDispatch_def)
    then show ?thesis by (simp only:) (rule db_call_view [OF upd_guarded_def _ assms]; simp)
  qed (simp add: store_pure ClaimMessageForDispatch_def)
  show "stays (row_view j) (store (RequeueMessageForAlert mid t c reason allowed))"
  proof (cases "allowed = []")
    case False
    then have "RequeueMessageForAlert mid t c reason allowed =
        db_call (\<lambda>d. upd_guarded mid allowed (\<lambda>m. m\<lparr>sm_Status := MessageStatusWaitTimer,
          sm_NextRetryAt := Some (db_time (db_backend d) t), sm_RouteCursor := c,
          sm_DeferredReason := (if reason \<noteq> [] then reason else sm_DeferredReason m)\<rparr>) d)"
      by (intro ext) (simp add: RequeueMessageForAlert_def)
    then show ?thesis by (simp only:) (rule db_call_view [OF upd_guarded_def _ assms]; simp)
  qed (simp add: store_pure RequeueMessageForAlert_def)
qed

lemma SaveMessage_view:
  assumes "j \<noteq> sm_ID m"
  shows "stays (row_view j) (store (SaveMessage m))"
  unfolding stays_def SaveMessage_def
proof
  fix w
  let ?f = "\<lambda>d. if sm_ID m \<in> set (map sm_ID (db_messages d)) \<or> \<not> db_accepts d (sm_ID m) then (False, d)
      else (True, d\<lparr>db_messages := db_messages d @ [store_times (db_backend d) m]\<rparr>)"
  show "row_view j (snd (run_state (store (db_call ?f)) w)) = row_view j w"
    using assms
    by (cases rule: db_call_cases [of ?f "w_db w"])
      (auto simp: wf_db_def lookup_message_def find_append store_times_def split: option.splits)
qed

lemma query_messages [simp]:
  "db_messages (snd (ListRetryableMessages t d)) = db_messages d"
  "db_messages (snd (ListExpiredMessages t d)) = db_messages d"
  "db_messages (snd (ListFilteredMessages f d)) = db_messages d"
  unfolding ListRetryableMessages_def ListExpiredMessages_def ListFilteredMessages_def
  by (rule db_call_frame; simp)+

lemma quiet_view [frame]:
  "stays (row_view j) (now_of E)" "stays (row_view j) (random_of E)" "stays (row_view j) (store (GetMessage mid))"
  "stays (row_view j) (report_of E m rep)" "stays (row_view j) (routePolicy r)"
  "stays (row_view j) (runRoutingPass E msg c)" "stays (row_view j) (resolveCandidateAt E msg ds i)"
  "stays (row_view j) (deliverSelectedRoute E msg r')" "stays (row_view j) (store (GetSFPolicy q))"
  "stays (row_view j) (store (ListRetryableMessages t))" "stays (row_view j) (store (ListExpiredMessages t))"
  "stays (row_view j) (store (ListFilteredMessages f))"
  by (rule stays_row_view; (rule frame | rule stays_store)?; simp)+

lemma engine_view [frame]:
  assumes "j \<noteq> mid"
  shows "stays (row_view j) (set_status E mid st)" "stays (row_view j) (set_terminal E mid st rep)"
    "stays (row_view j) (markDeferred mid msg c r)" "stays (row_view j) (applyDeferredExpiryCap E mid t r)"
    "stays (row_view j) (persistDeliveredRoute mid i p)"
  unfolding set_status_def set_terminal_def markDeferred_def applyDeferredExpiryCap_def deferredLifetimeForRoute_def
    persistDeliveredRoute_def
  by (intro frame assms)+

lemma retry_quiet [frame]:
  "stays (row_view j) (storeToCodecMessage E m)" "stays (row_view j) (select_loop E ds is msg)"
  "stays (row_view j) (selectRoute E msg c)" "stays (row_view j) (planned_policy E m)"
  "stays (row_view j) (sfPolicyForMessage E m r)" "stays (row_view j) (nextRetry E m r)"
  "stays (row_view j) (tryRouteAt E msg c)" "stays (row_view j) (retryMessage E m msg)"
proof -
  show conv: "stays (row_view j) (storeToCodecMessage E m)"
    unfolding storeToCodecMessage_def by (intro frame)
  have loop: "stays (row_view j) (select_loop E ds is msg)" for ds "is" msg
    by (induction "is" arbitrary: msg) (auto intro!: frame)
  then show "stays (row_view j) (select_loop E ds is msg)" .
  have select: "stays (row_view j) (selectRoute E msg c)" for msg c
    unfolding selectRoute_def by (intro frame loop)
  then show "stays (row_view j) (selectRoute E msg c)" .
  show planned: "stays (row_view j) (planned_policy E m)"
    unfolding planned_policy_def by (intro frame conv select)
  show policy: "stays (row_view j) (sfPolicyForMessage E m r)"
    unfolding sfPolicyForMessage_def by (intro frame planned)
  show "stays (row_view j) (nextRetry E m r)"
    unfolding nextRetry_def
    by (intro frame policy; auto intro!: frame split: outcome.split option.split)
  have single: "stays (row_view j) (tryRouteAt E msg c)" for msg c
    unfolding tryRouteAt_def by (intro frame)
  then show "stays (row_view j) (tryRouteAt E msg c)" .
  show "stays (row_view j) (retryMessage E m msg)"
    unfolding retryMessage_def by (intro frame single)
qed

lemma finalize_view [frame]:
  assumes "j \<noteq> msg_ID msg"
  shows "stays (row_view j) (finalizeRoutingPass E msg now c k res)"
  unfolding finalizeRoutingPass_def Let_def
  by (cases "pr_outcome res"; simp only: pass_outcome.case; intro frame assms)

lemma retry_view [frame]:
  assumes "j \<noteq> sm_ID m"
  shows "stays (row_view j) (scheduleOrFail E m r)" "stays (row_view j) (finalizeNonDelivered E m msg res)"
    "stays (row_view j) (retry_dispatch E m)"
proof -
  have schedule: "stays (row_view j) (scheduleOrFail E m r)" for r
    unfolding scheduleOrFail_def
    by (rule stays_bind [OF retry_quiet(6)], simp split: outcome.split, intro conjI allI impI frame assms)
  then show "stays (row_view j) (scheduleOrFail E m r)" .
  have final: "stays (row_view j) (finalizeNonDelivered E m msg res)" for msg res
    unfolding finalizeNonDelivered_def
    by (simp split: pass_outcome.split outcome.split, intro conjI allI impI frame schedule assms;
        simp split: outcome.split; intro conjI allI impI frame assms)
  then show "stays (row_view j) (finalizeNonDelivered E m msg res)" .
  show "stays (row_view j) (retry_dispatch E m)"
    unfolding retry_dispatch_def by (intro frame assms final)
qed

section \<open>Rows that are not claimed\<close>

lemma upd_guarded_not:
  assumes "\<not> guarded j allowed d"
  shows "upd_guarded j allowed g d = (False, d)"
proof -
  have "map (\<lambda>m. if sm_ID m = j then if sm_Status m \<in> set allowed then g m else m else m) (db_messages d) = db_messages d"
    using assms by (intro map_idI) (auto simp: guarded_def)
  then show ?thesis using assms by (simp add: upd_guarded_def upd_message_def)
qed

lemma claim_not:
  assumes "\<not> guarded j retryable_statuses (w_db w)"
  shows "\<exists>r fs. run_state (store (ClaimMessageForDispatch j retryable_statuses)) w =
    (r, w\<lparr>w_db := (w_db w)\<lparr>db_faults := fs\<rparr>\<rparr>) \<and> r \<noteq> Some True"
  using assms upd_guarded_not [of j retryable_statuses]
  by (cases rule: db_call_cases [of "upd_guarded j retryable_statuses (\<lambda>m. m\<lparr>sm_Status := MessageStatusDispatched\<rparr>)" "w_db w"])
    (auto simp: ClaimMessageForDispatch_def retryable_facts)

lemma retry_dispatch_not:
  assumes "\<not> guarded (sm_ID m) retryable_statuses (w_db w)"
  shows "\<exists>fs. run_state (retry_dispatch E m) w = (Ok (), w\<lparr>w_db := (w_db w)\<lparr>db_faults := fs\<rparr>\<rparr>)"
proof -
  obtain r fs where "run_state (store (ClaimMessageForDispatch (sm_ID m) retryable_statuses)) w =
      (r, w\<lparr>w_db := (w_db w)\<lparr>db_faults := fs\<rparr>\<rparr>)" "r \<noteq> Some True"
    using claim_not [OF assms] by blast
  then show ?thesis by (auto simp: retry_dispatch_def)
qed

section \<open>The engine as a transition system\<close>

text \<open>
  The activities that run side by side, each a step: the dispatch of a new message (an identifier
  that is in the table already does not arise), a retry of any row a scheduler has ever listed,
  however stale, a sweep, an alert, and a restart, which loses the cache and recovers the rows
  in flight.
\<close>

inductive engine_step :: "env \<Rightarrow> world \<Rightarrow> world \<Rightarrow> bool" for E where
  dispatch_step: "lookup_message (msg_ID (fst (run_state (with_identity E msg) w))) (w_db w) = None \<Longrightarrow>
    run_state (Dispatch E msg) w = (msg', w') \<Longrightarrow> engine_step E w w'"
| retry_step: "run_state (retry_dispatch E m) w = (r, w') \<Longrightarrow> engine_step E w w'"
| sweep_step: "run_state (expiry_sweep E (Some (\<lambda>m. report_of E m StatusExpired))) w = (u, w') \<Longrightarrow> engine_step E w w'"
| alert_step: "run_state (triggerAlertRetry E source msisdn corr iface) w = (n, w') \<Longrightarrow> engine_step E w w'"
| restart_step: "w' = w\<lparr>w_db := recover_dispatched now (w_db w), w_cache := c\<rparr> \<Longrightarrow> engine_step E w w'"

inductive_cases engine_stepE: "engine_step E w w'"

lemma identity_view [frame]: "stays (row_view j) (with_identity E msg)"
  unfolding with_identity_def by (intro frame)

text \<open>\<open>holds_row j m\<close>: keys are unique and \<open>m\<close> is the row of \<open>j\<close>.\<close>

definition holds_row :: "string \<Rightarrow> smsg \<Rightarrow> world \<Rightarrow> bool" where
  "holds_row j m w \<longleftrightarrow> wf_db (w_db w) \<and> lookup_message j (w_db w) = Some m"

lemma keeps_row: "stays (row_view j) p \<Longrightarrow> keeps (holds_row j m) p"
  by (simp add: stays_def keeps_def holds_row_def)

lemma holds_not_guarded:
  assumes "holds_row j m w" "sm_Status m \<notin> set allowed"
  shows "\<not> guarded j allowed (w_db w)"
  using assms guarded_iff [of "w_db w" j allowed] by (auto simp: holds_row_def)

lemma holds_row_faults [simp]: "holds_row j m (w\<lparr>w_db := (w_db w)\<lparr>db_faults := fs\<rparr>\<rparr>) = holds_row j m w"
  by (simp add: holds_row_def)

lemma Dispatch_keeps_row:
  assumes "holds_row j m w" "lookup_message (msg_ID (fst (run_state (with_identity E msg) w))) (w_db w) = None"
    and "run_state (Dispatch E msg) w = (msg', w')"
  shows "holds_row j m w'"
proof -
  obtain msg1 w1 where i: "run_state (with_identity E msg) w = (msg1, w1)" by force
  have v: "holds_row j m w1"
    using keepsD [OF keeps_row [OF identity_view], of j m w E msg] assms(1) i by simp
  define msg2 where "msg2 = normalizeIngressRecipient E msg1"
  have j: "j \<noteq> msg_ID msg2"
    using assms(1,2) i by (auto simp: holds_row_def msg2_def normalizeIngressRecipient_def)
  let ?rest = "do { now \<leftarrow> now_of E; persistMessage msg2 [] [] MessageStatusDispatched now;
     (result, msg) \<leftarrow> runRoutingPass E msg2 0; finalizeRoutingPass E msg now 0 1 result; State_Monad.return msg }"
  have run: "run_state ?rest w1 = (msg', w')"
    using assms(3) i by (simp add: Dispatch_def msg2_def Let_def)
  obtain now w2 where n: "run_state (now_of E) w1 = (now, w2)" by force
  obtain u w3 where p: "run_state (persistMessage msg2 [] [] MessageStatusDispatched now) w2 = (u, w3)" by (metis surj_pair)
  obtain res msg3 w4 where q: "run_state (runRoutingPass E msg2 0) w3 = ((res, msg3), w4)" by (metis surj_pair)
  have w': "w' = snd (run_state (finalizeRoutingPass E msg3 now 0 1 res) w4)"
    using run n p q by (auto split: prod.splits)
  have "holds_row j m w2" using keepsD [OF keeps_row [OF quiet_view(1)], of j m w1 E] v n by simp
  moreover have "stays (row_view j) (persistMessage msg2 [] [] MessageStatusDispatched now)"
    unfolding persistMessage_def using j by (intro frame SaveMessage_view) (simp add: message_row_def)
  ultimately have "holds_row j m w3" using keepsD [OF keeps_row, of j _ m w2] p by force
  then have "holds_row j m w4" using keepsD [OF keeps_row [OF quiet_view(6)], of j m w3 E msg2 0] q by simp
  moreover have "j \<noteq> msg_ID msg3" using runRoutingPass_id [OF q] j by simp
  ultimately show ?thesis unfolding w' by (rule keepsD [OF keeps_row [OF finalize_view], rotated])
qed

lemma retry_keeps_row:
  assumes "sm_Status m \<notin> set retryable_statuses"
  shows "keeps (holds_row j m) (retry_dispatch E m')"
proof (cases "sm_ID m' = j")
  case True
  show ?thesis
    unfolding keeps_def
  proof (intro allI impI)
    fix w assume "holds_row j m w"
    moreover from this obtain fs where
      "run_state (retry_dispatch E m') w = (Ok (), w\<lparr>w_db := (w_db w)\<lparr>db_faults := fs\<rparr>\<rparr>)"
      using retry_dispatch_not holds_not_guarded [OF _ assms] True by blast
    ultimately show "holds_row j m (snd (run_state (retry_dispatch E m') w))" by simp
  qed
qed (auto intro: keeps_row retry_view)

lemma expire_all_keeps_row:
  "j \<notin> sm_ID ` set ms \<Longrightarrow> keeps (holds_row j m) (expire_all E (Some (\<lambda>m. report_of E m StatusExpired)) ms)"
proof (induction ms)
  case (Cons x xs)
  then have j: "j \<noteq> sm_ID x" and IH: "keeps (holds_row j m) (expire_all E (Some (\<lambda>m. report_of E m StatusExpired)) xs)"
    by auto
  show ?case
    unfolding expire_all.simps option.case
    by (intro kept IH keeps_row engine_view(1) j quiet_view)
qed simp

lemma sweep_keeps_row:
  assumes "sm_Status m \<notin> set waiting_statuses"
  shows "keeps (holds_row j m) (expiry_sweep E (Some (\<lambda>m. report_of E m StatusExpired)))"
  unfolding keeps_def
proof (intro allI impI)
  fix w assume h: "holds_row j m w"
  let ?w = "w\<lparr>w_ticks := Suc (w_ticks w)\<rparr>" and ?now = "ev_clock E (w_ticks w)"
  let ?f = "\<lambda>d. (take 100 (filter (expiry_due (db_backend d) ?now) (db_messages d)), d)"
  have h': "holds_row j m (?w\<lparr>w_db := (w_db w)\<lparr>db_faults := fs\<rparr>\<rparr>)" for fs using h by (simp add: holds_row_def)
  show "holds_row j m (snd (run_state (expiry_sweep E (Some (\<lambda>m. report_of E m StatusExpired))) w))"
  proof (cases rule: db_call_cases [of ?f "w_db w"])
    case (fail fs)
    then show ?thesis using h' by (simp add: expiry_sweep_def ListExpiredMessages_def)
  next
    case (ok fs)
    let ?ms = "take 100 (filter (expiry_due (db_backend (w_db w)) ?now) (db_messages (w_db w)))"
    have "j \<notin> sm_ID ` set ?ms"
    proof
      assume "j \<in> sm_ID ` set ?ms"
      then have "guarded j waiting_statuses (w_db w)"
        by (auto simp: guarded_def expiry_due_def dest!: in_set_takeD)
      then show False using holds_not_guarded [OF h assms] by simp
    qed
    from keepsD [OF expire_all_keeps_row [OF this] h'] show ?thesis
      using ok by (simp add: expiry_sweep_def ListExpiredMessages_def)
  qed
qed

lemma requeue_keeps_row:
  assumes "sm_Status m \<notin> set waiting_statuses"
  shows "keeps (holds_row j m) (store (RequeueMessageForAlert i now c reason waiting_statuses))"
proof (cases "i = j")
  case True
  have ne: "waiting_statuses \<noteq> []" by (simp add: waiting_statuses_def)
  show ?thesis
    unfolding keeps_def
  proof (intro allI impI)
    fix w assume h: "holds_row j m w"
    let ?g = "\<lambda>d m. m\<lparr>sm_Status := MessageStatusWaitTimer, sm_NextRetryAt := Some (db_time (db_backend d) now),
      sm_RouteCursor := c, sm_DeferredReason := (if reason \<noteq> [] then reason else sm_DeferredReason m)\<rparr>"
    let ?f = "\<lambda>d. upd_guarded i waiting_statuses (?g d) d"
    have n: "\<not> guarded i waiting_statuses ((w_db w)\<lparr>db_faults := fs\<rparr>)" for fs
      using holds_not_guarded [OF h assms] True by (simp add: guarded_def)
    show "holds_row j m (snd (run_state (store (RequeueMessageForAlert i now c reason waiting_statuses)) w))"
      using h ne upd_guarded_not [OF n]
      by (cases rule: db_call_cases [of ?f "w_db w"]) (simp_all add: RequeueMessageForAlert_def)
  qed
qed (auto intro: keeps_row guarded_view)

lemma alert_keeps_row:
  assumes "sm_Status m \<notin> set waiting_statuses"
  shows "keeps (holds_row j m) (triggerAlertRetry E source msisdn corr iface)"
proof -
  have r: "keeps (holds_row j m) (requeue_all reason now ms)" for reason now ms
  proof (induction ms)
    case (Cons x xs)
    then show ?case unfolding requeue_all.simps by (intro kept requeue_keeps_row assms)
  qed simp
  have wake: "keeps (holds_row j m) (wake_all E source iface ms)" for ms
    unfolding wake_all_def by (intro kept r keeps_row frame)
  show ?thesis
    unfolding triggerAlertRetry_def by (intro wake kept) (intro keeps_row quiet_view)+
qed

lemma recover_keeps_row:
  assumes "sm_Status m \<noteq> MessageStatusDispatched" "holds_row j m w"
  shows "holds_row j m (w\<lparr>w_db := recover_dispatched now (w_db w), w_cache := c\<rparr>)"
proof -
  define g :: "smsg \<Rightarrow> smsg" where "g = (\<lambda>m. if sm_Status m = MessageStatusDispatched
     then m\<lparr>sm_Status := MessageStatusQueued, sm_NextRetryAt :=
            (case backend_of w of Postgres \<Rightarrow> Some (db_time Postgres now) | SQLite \<Rightarrow> None)\<rparr> else m)"
  have id: "sm_ID (g x) = sm_ID x" for x by (simp add: g_def)
  have "find (\<lambda>m. sm_ID m = j) (map g xs) = map_option g (find (\<lambda>m. sm_ID m = j) xs)" for xs
    by (induction xs) (simp_all add: id)
  moreover have "map sm_ID (map g xs) = map sm_ID xs" for xs by (simp add: id)
  moreover have "g m = m" using assms(1) by (simp add: g_def)
  ultimately show ?thesis
    using assms(2) by (simp add: holds_row_def wf_db_def lookup_message_def recover_dispatched_def g_def [symmetric] del: map_map)
qed

text \<open>The statuses a message keeps: nothing in the engine takes it up again.\<close>

definition terminal :: "string \<Rightarrow> bool" where
  "terminal st \<longleftrightarrow> st \<in> {MessageStatusDelivered, MessageStatusFailed, MessageStatusExpired}"

lemma terminal_facts:
  assumes "terminal st"
  shows "st \<notin> set retryable_statuses" "st \<notin> set waiting_statuses" "st \<noteq> MessageStatusDispatched"
  using assms by (auto simp: terminal_def retryable_statuses_def waiting_statuses_def)

section \<open>An example\<close>

definition waiting_world :: world where
  "waiting_world = example_world Postgres [example_message ''a'' ''WAIT_TIMER'' None]"

lemma waiting_world_facts:
  "calm waiting_world" "wf_db (w_db waiting_world)" "policies_of waiting_world = []"
  "lookup_message ''a'' (w_db waiting_world) = Some (example_message ''a'' ''WAIT_TIMER'' None)"
  "lookup_message ''b'' (w_db waiting_world) = None" "db_accepts (w_db waiting_world) j"
  "sm_Status (example_message ''a'' ''WAIT_TIMER'' None) \<in> set retryable_statuses"
  by (simp_all add: waiting_world_def calm_def wf_db_def lookup_message_def example_message_def example_db_def
      retryable_statuses_def)

section \<open>Properties\<close>

text \<open>
  C2: Dispatching a message with a new identifier the store takes stores it before anything is sent and settles
  it: with a database that answers, its row holds the message as received, and is delivered or
  waits with a timer, retried first after thirty seconds; it is never left in flight, failed, or
  waiting for an event alone. No other row changes.
\<close>

theorem dispatch_settles:
  assumes "calm w" "msg_ID msg \<noteq> []" "lookup_message (msg_ID msg) (w_db w) = None" "db_accepts (w_db w) (msg_ID msg)"
    and "run_state (Dispatch E msg) w = (msg', w')"
  shows "(\<exists>m. lookup_message (msg_ID msg) (w_db w') = Some m \<and>
      same_content (dispatched_row E msg (backend_of w) (ev_clock E (w_ticks w))) m \<and>
      (sm_Status m = MessageStatusDelivered \<or>
       sm_Status m \<in> {MessageStatusWaitTimer, MessageStatusWaitTimerEvent} \<and> sm_RetryCount m = 1 \<and>
       sm_NextRetryAt m = Some (db_time (backend_of w) (ev_clock E (w_ticks w) + 30 * Second)))) \<and>
    (\<forall>j. j \<noteq> msg_ID msg \<longrightarrow> lookup_message j (w_db w') = lookup_message j (w_db w))"
proof -
  let ?mid = "msg_ID msg" and ?b = "backend_of w" and ?now = "ev_clock E (w_ticks w)"
  let ?L = "\<lambda>j. lookup_message j (w_db w)" and ?m0 = "dispatched_row E msg (backend_of w) (ev_clock E (w_ticks w))"
  define msg1 where "msg1 = normalizeIngressRecipient E (if msg_CorrelationID msg = []
      then msg\<lparr>msg_CorrelationID := defaultAlertCorrelationID (msg_ID msg)\<rparr> else msg)"
  define row where "row = message_row msg1 [] [] MessageStatusDispatched ?now"
  have id: "msg_ID msg1 = ?mid" "sm_ID row = ?mid" "store_times ?b row = ?m0"
    by (simp_all add: msg1_def row_def normalizeIngressRecipient_def message_row_def dispatched_row_def)
  define w1 where "w1 = snd (run_state (store (SaveMessage row)) (w\<lparr>w_ticks := Suc (w_ticks w)\<rparr>))"
  have w1: "w1 = w\<lparr>w_ticks := Suc (w_ticks w), w_db := snd (SaveMessage row (w_db w))\<rparr>"
    by (simp add: w1_def)
  have r1: "row_ok ?m0 (\<lambda>_. True) ?mid ?b ?L w1"
    using row_is_stored [of "w\<lparr>w_ticks := Suc (w_ticks w)\<rparr>" ?b row] assms(1,3,4) id
    by (auto simp: w1_def row_is_def)
  obtain res msg2 w2 where pass: "run_state (runRoutingPass E msg1 0) w1 = ((res, msg2), w2)" by (metis surj_pair)
  have "row_ok ?m0 (\<lambda>_. True) ?mid ?b ?L w2"
    using leadsD [OF leads_row [OF runRoutingPass_calm runRoutingPass_frame(1,2)] r1 pass] .
  moreover have w': "w' = snd (run_state (finalizeRoutingPass E msg2 ?now 0 1 res) w2)"
    using pass assms(5) unfolding Dispatch_def
    by (auto simp: run_with_identity assms(2) persistMessage_def msg1_def [symmetric] row_def [symmetric]
        w1 [symmetric] Let_def split_beta)
  moreover have "msg_ID msg2 = ?mid" using runRoutingPass_id [OF pass] id by simp
  ultimately have "row_ok ?m0 (settled (pr_outcome res) ?b ?now 1) ?mid ?b ?L w'"
    using leadsD [OF leads_finalize _ surjective_pairing] by simp
  moreover have "pr_outcome res \<noteq> PassFailed" "pr_outcome res \<noteq> PassWaitEvent"
    using pass_never_fails [OF pass] candidateCount_def by auto
  ultimately show ?thesis
    unfolding row_is_def by (cases "pr_outcome res") (auto simp: settled_def)
qed

theorem dispatch_settles_witness:
  "\<exists>m. lookup_message ''b'' (w_db (snd (run_state (Dispatch example_env (empty_message\<lparr>msg_ID := ''b''\<rparr>)) waiting_world))) = Some m \<and>
     sm_Status m \<noteq> MessageStatusDispatched"
  using dispatch_settles [of waiting_world "empty_message\<lparr>msg_ID := ''b''\<rparr>" example_env, OF _ _ _ _ surjective_pairing]
    waiting_world_facts by fastforce



end
