(* ===== verification/Redelivery.thy ===== *)
theory Redelivery
  imports Lifecycle
begin

text \<open>
  What becomes of a message after its first pass: the retries of the scheduler, the rows a sweep
  and an alert change, and what the stored row still says of the message that was received.
\<close>

section \<open>A retry\<close>

lemma leads_row_both:
  assumes "keeps calm p" "stays messages_of p" "stays backend_of p" "leads P p R" "\<And>w. row_is mid b L Q w \<Longrightarrow> P w"
  shows "leads (row_is mid b L Q) p (\<lambda>x w. row_is mid b L Q w \<and> R x w)"
  using leads_row [OF assms(1-3), of mid b L Q] assms(4,5) by (simp add: leads_def)

text \<open>Every policy says when to retry.\<close>

definition schedules_ok :: "world \<Rightarrow> bool" where
  "schedules_ok w \<longleftrightarrow> (\<forall>p \<in> set (policies_of w). pol_RetrySchedule p \<noteq> [])"

lemma keeps_schedules: "stays policies_of p \<Longrightarrow> keeps schedules_ok p"
  by (simp add: stays_def keeps_def schedules_ok_def)

text \<open>What a finished retry of the listed row \<open>m\<close> leaves in the table.\<close>

definition retried :: "smsg \<Rightarrow> unit outcome \<Rightarrow> smsg \<Rightarrow> bool" where
  "retried m r x \<longleftrightarrow> (case r of
     Ok _ \<Rightarrow> sm_Status x \<in> {MessageStatusDelivered, MessageStatusFailed, MessageStatusWaitEvent, MessageStatusWaitTimerEvent} \<or>
       sm_Status x = MessageStatusWaitTimer \<and> sm_RetryCount x = sm_RetryCount m + 1 \<and> sm_NextRetryAt x \<noteq> None
   | Err _ \<Rightarrow> False
   | Panic \<Rightarrow> sm_Status x = MessageStatusDispatched)"

lemma retry_delay_cases:
  "retry_delay sched maxR k = (if maxR \<le> k then Ok None
     else if sched = [] \<or> k < 0 then Panic else Ok (Some (sched ! nat (min k (int (length sched) - 1)))))"
proof -
  have "nat (int (length sched) - 1) < length sched" if "sched \<noteq> []" using that by (cases sched) auto
  then show ?thesis by (auto simp: retry_delay_def Let_def at_def min_def)
qed

lemma codec_quiet [kept, frame]:
  "keeps calm (storeToCodecMessage E m)" "stays messages_of (storeToCodecMessage E m)"
  "stays backend_of (storeToCodecMessage E m)" "stays policies_of (storeToCodecMessage E m)"
  unfolding storeToCodecMessage_def by (intro kept frame; simp)+

lemma select_quiet [kept, frame]:
  "keeps calm (selectRoute E msg c)" "stays messages_of (selectRoute E msg c)"
  "stays backend_of (selectRoute E msg c)" "stays policies_of (selectRoute E msg c)"
proof -
  have "keeps calm (select_loop E ds is msg)" "stays messages_of (select_loop E ds is msg)"
    "stays backend_of (select_loop E ds is msg)" "stays policies_of (select_loop E ds is msg)" for ds "is" msg
    by (induction "is" arbitrary: msg) (auto intro!: kept frame)
  then show "keeps calm (selectRoute E msg c)" "stays messages_of (selectRoute E msg c)"
    "stays backend_of (selectRoute E msg c)" "stays policies_of (selectRoute E msg c)"
    unfolding selectRoute_def by (intro kept frame; simp)+
qed

lemma retryMessage_quiet [kept, frame]:
  "keeps calm (retryMessage E m msg)" "stays messages_of (retryMessage E m msg)"
  "stays backend_of (retryMessage E m msg)" "stays policies_of (retryMessage E m msg)"
  unfolding retryMessage_def tryRouteAt_def
  by (intro kept frame)+

lemma nextRetry_quiet [kept, frame]:
  "keeps calm (nextRetry E m r)" "stays messages_of (nextRetry E m r)"
  "stays backend_of (nextRetry E m r)" "stays policies_of (nextRetry E m r)"
  unfolding nextRetry_def sfPolicyForMessage_def planned_policy_def
  by (intro kept calm_store frame; auto intro!: kept frame split: outcome.split option.split)+


lemma nextRetry_cases:
  assumes "run_state (nextRetry E m r) w = (x, w')"
  obtains "x = Ok None" | t where "x = Ok (Some t)" | "x = Panic"
proof -
  have "\<exists>v. fst (run_state (nextRetry E m r) w) = Ok v \<or> fst (run_state (nextRetry E m r) w) = Panic"
    unfolding nextRetry_def by (auto simp: retry_delay_cases split: prod.split)
  then show thesis using assms that by (metis fst_conv option.exhaust)
qed

lemma scheduleOrFail_row:
  assumes "sm_ID m = mid"
  shows "leads (row_ok m0 (\<lambda>x. sm_Status x = MessageStatusDispatched) mid b L) (scheduleOrFail E m r)
    (\<lambda>y. row_ok m0 (retried m y) mid b L)"
proof -
  let ?in = "row_ok m0 (\<lambda>x. sm_Status x = MessageStatusDispatched) mid b L"
  have delay: "leads ?in (nextRetry E m r) (\<lambda>x w. ?in w \<and> (\<exists>v. x = Ok v \<or> x = Panic))"
    by (rule leads_row_both [OF nextRetry_quiet(1-3), where P = "\<lambda>_. True"])
      (auto intro!: leadsI elim: nextRetry_cases)
  have fail: "leads ?in (do { set_terminal E mid MessageStatusFailed StatusFailed; State_Monad.return (Ok ()) })
      (\<lambda>y. row_ok m0 (retried m y) mid b L)"
    by (rule leads_bind [OF leads_set_terminal [where Q' = "retried m (Ok ())"]])
      (auto simp: retried_def intro: leads_return')
  have again: "leads ?in (do { store (UpdateMessageRetry mid (sm_RetryCount m + 1) t c); State_Monad.return (Ok ()) })
      (\<lambda>y. row_ok m0 (retried m y) mid b L)" for t c
    by (rule leads_bind [OF leads_retry [where Q' = "retried m (Ok ())"]])
      (auto simp: retried_def intro: leads_return')
  have panic: "leads ?in (State_Monad.return Panic) (\<lambda>y. row_ok m0 (retried m y) mid b L)"
    by (rule leads_return') (simp add: retried_def)
  show ?thesis
    unfolding scheduleOrFail_def assms
  proof (rule leads_bind [OF delay])
    fix x :: "int option outcome"
    show "leads (\<lambda>w. ?in w \<and> (\<exists>v. x = Ok v \<or> x = Panic)) (case x of
        Ok None \<Rightarrow> do { set_terminal E mid MessageStatusFailed StatusFailed; State_Monad.return (Ok ()) }
      | Ok (Some t) \<Rightarrow> do {
          store (UpdateMessageRetry mid (sm_RetryCount m + 1) t (deferredRouteCursor r));
          State_Monad.return (Ok ()) }
      | Err e \<Rightarrow> State_Monad.return (Err e)
      | Panic \<Rightarrow> State_Monad.return Panic) (\<lambda>y. row_ok m0 (retried m y) mid b L)"
      using fail again panic by (cases x) (auto simp: leads_def split: option.split)
  qed
qed


lemma finalizeNonDelivered_row:
  assumes "sm_ID m = mid" "pr_outcome res \<noteq> PassDelivered"
  shows "leads (row_ok m0 (\<lambda>x. sm_Status x = MessageStatusDispatched) mid b L) (finalizeNonDelivered E m msg res)
    (\<lambda>y. row_ok m0 (retried m y) mid b L)"
proof -
  let ?Q = "\<lambda>x. sm_Status x = MessageStatusDispatched"
  note waits = leads_markDeferred [of ?Q] leads_expiry_cap [of ?Q]
  have over: "leads (row_ok m0 Q mid b L) (do { set_status E mid st; State_Monad.return (Ok ()) })
      (\<lambda>y. row_ok m0 (retried m y) mid b L)" if "st = MessageStatusWaitEvent \<or> st = MessageStatusWaitTimerEvent" for Q st
    by (rule leads_bind [OF leads_set_status [where Q' = "retried m (Ok ())"]])
      (use that in \<open>auto simp: retried_def intro: leads_return'\<close>)
  show ?thesis
  proof (cases "pr_outcome res")
    case PassDelivered
    then show ?thesis using assms(2) by simp
  next
    case PassWaitTimer
    show ?thesis
      unfolding finalizeNonDelivered_def PassWaitTimer pass_outcome.case assms(1)
      by (intro leads_bind [OF waits(1)] leads_bind [OF waits(2)] scheduleOrFail_row assms(1)) simp_all
  next
    case PassWaitEvent
    show ?thesis
      unfolding finalizeNonDelivered_def PassWaitEvent pass_outcome.case assms(1)
      by (intro leads_bind [OF waits(1)] leads_bind [OF waits(2)] over) simp_all
  next
    case PassWaitTimerEvent
    have after: "leads (row_ok m0 (retried m y) mid b L) (case y of
        Ok _ \<Rightarrow> do { set_status E mid MessageStatusWaitTimerEvent; State_Monad.return (Ok ()) }
      | _ \<Rightarrow> State_Monad.return y) (\<lambda>y. row_ok m0 (retried m y) mid b L)" for y
      by (cases y) (auto intro!: over leads_return')
    show ?thesis
      unfolding finalizeNonDelivered_def PassWaitTimerEvent pass_outcome.case assms(1)
      by (intro leads_bind [OF waits(1)] leads_bind [OF waits(2)] leads_bind [OF scheduleOrFail_row] after assms(1)) simp_all
  next
    case PassFailed
    show ?thesis
      unfolding finalizeNonDelivered_def PassFailed pass_outcome.case assms(1)
      by (rule leads_bind [OF leads_set_terminal [where Q' = "retried m (Ok ())"]])
        (auto simp: retried_def intro: leads_return')
  qed
qed

text \<open>A pass, or the single try of a woken message, that delivers says over which route.\<close>

lemma route_loop_delivered:
  "run_state (route_loop E ds is msg st) w = ((res, msg'), w') \<Longrightarrow> pr_outcome res = PassDelivered \<Longrightarrow>
   pr_deliveredRoute res \<noteq> None"
proof (induction "is" arbitrary: msg st w)
  case Nil
  then show ?case by (auto simp: exhausted_result_def empty_result_def split: if_splits)
next
  case (Cons i rest)
  obtain cand msg1 w1 where c: "run_state (resolveCandidateAt E msg ds i) w = ((cand, msg1), w1)"
    by (metis surj_pair)
  show ?case
  proof (cases cand)
    case (Inl reason)
    then show ?thesis using Cons c by auto
  next
    case (Inr route)
    obtain out err msg2 w2 where a: "run_state (attemptRoute E msg1 route) w1 = (((out, err), msg2), w2)"
      by (metis surj_pair)
    show ?thesis
      using Cons c a Inr by (cases out) (auto simp: Let_def empty_result_def split: if_splits)
  qed
qed

lemma retryMessage_delivered:
  assumes "run_state (retryMessage E m msg) w = ((res, msg'), w')" "pr_outcome res = PassDelivered"
  shows "pr_deliveredRoute res \<noteq> None"
  using assms unfolding retryMessage_def runRoutingPass_def tryRouteAt_def
  by (auto simp: empty_result_def Let_def dest: route_loop_delivered
      split: if_splits option.splits prod.splits sum.splits)


lemma claim_row:
  assumes "calm w" "lookup_message mid (w_db w) = Some row" "sm_Status row \<in> set retryable_statuses"
    and "run_state (store (ClaimMessageForDispatch mid retryable_statuses)) w = (r, w')"
  shows "r = Some True" and "row_ok row (\<lambda>x. sm_Status x = MessageStatusDispatched) mid (backend_of w)
    (\<lambda>j. lookup_message j (w_db w)) w'"
proof -
  let ?g = "\<lambda>m. if sm_Status m \<in> set retryable_statuses then m\<lparr>sm_Status := MessageStatusDispatched\<rparr> else m"
  have g: "guarded mid retryable_statuses (w_db w)"
    using assms(2,3) by (auto simp: guarded_def lookup_message_def find_Some_iff)
  have id: "\<And>m. sm_ID (?g m) = sm_ID m" by simp
  have "ClaimMessageForDispatch mid retryable_statuses (w_db w) = (Some True, upd_message mid ?g (w_db w))"
    using assms(1) g by (simp add: ClaimMessageForDispatch_def retryable_facts db_call_no_fault upd_guarded_def calm_def)
  then show "r = Some True" and "row_ok row (\<lambda>x. sm_Status x = MessageStatusDispatched) mid (backend_of w)
      (\<lambda>j. lookup_message j (w_db w)) w'"
    using assms msgs.lookup_update [of ?g, OF id]
    by (auto simp: row_is_def calm_def same_content_def)
qed

lemma update_policies [simp]:
  "db_policies (snd (UpdateMessageRouting mid a c d)) = db_policies d"
  "db_policies (snd (UpdateMessageDeferred mid a i n k d)) = db_policies d"
  "db_policies (snd (UpdateMessageExpiryCap mid t d)) = db_policies d"
  "db_policies (snd (ClaimMessageForDispatch mid allowed d)) = db_policies d"
  unfolding UpdateMessageRouting_def UpdateMessageDeferred_def UpdateMessageExpiryCap_def ClaimMessageForDispatch_def
  by (auto intro!: db_call_frame simp: upd_guarded_def upd_message_def Let_def)

lemma deferral_schedules:
  "keeps schedules_ok (markDeferred mid msg c r)" "keeps schedules_ok (applyDeferredExpiryCap E mid t r)"
  unfolding markDeferred_def applyDeferredExpiryCap_def deferredLifetimeForRoute_def routePolicy_def
  by (rule keeps_schedules, intro frame; simp)+

lemma nextRetry_scheduled:
  assumes "schedules_ok w" "0 \<le> sm_RetryCount m"
  shows "fst (run_state (nextRetry E m r) w) \<noteq> Panic"
proof -
  have policy: "stays policies_of (sfPolicyForMessage E m r)"
    unfolding sfPolicyForMessage_def planned_policy_def by (intro frame; simp)
  obtain pid w1 where p: "run_state (sfPolicyForMessage E m r) w = (pid, w1)" by force
  have ok: "schedules_ok w1" using keepsD [OF keeps_schedules [OF policy] assms(1)] p by simp
  have found: "fst (GetSFPolicy pid (w_db w1)) = Some (Some q) \<Longrightarrow> pol_RetrySchedule q \<noteq> []" for q
    using ok by (cases rule: db_call_cases [of "\<lambda>d. (find (\<lambda>p. pol_ID p = pid) (db_policies d), d)" "w_db w1"])
      (auto simp: GetSFPolicy_def schedules_ok_def find_Some_iff)
  show ?thesis
    using p assms(2) found
    by (auto simp: nextRetry_def retry_delay_cases defaultSchedule_def split: option.splits if_splits)
qed

lemma schedule_ok:
  assumes "0 \<le> sm_RetryCount m"
  shows "leads schedules_ok (scheduleOrFail E m r) (\<lambda>y _. y = Ok ())"
proof (rule leadsI)
  fix w y w' assume w: "schedules_ok w" "run_state (scheduleOrFail E m r) w = (y, w')"
  obtain x w1 where x: "run_state (nextRetry E m r) w = (x, w1)" by force
  then show "y = Ok ()"
    using w nextRetry_scheduled [OF w(1) assms, of E r]
    by (cases rule: nextRetry_cases [OF x]) (auto simp: scheduleOrFail_def split: prod.splits)
qed

lemma finalize_ok:
  assumes "0 \<le> sm_RetryCount m"
  shows "leads schedules_ok (finalizeNonDelivered E m msg res) (\<lambda>y _. y = Ok ())"
proof -
  have mark: "leads schedules_ok (markDeferred mid msg c r) (\<lambda>_. schedules_ok)"
    "leads schedules_ok (applyDeferredExpiryCap E mid t r) (\<lambda>_. schedules_ok)" for mid msg c r t
    using deferral_schedules by (auto simp: leads_def keeps_def)
  have any: "leads P (do { p; State_Monad.return (Ok ()) }) (\<lambda>y _. y = Ok ())" for P and p :: "'a process"
    by (simp add: leads_def split_beta)
  show ?thesis
    unfolding finalizeNonDelivered_def
    by (cases "pr_outcome res"; simp only: pass_outcome.case; intro leads_bind [OF mark(1)] leads_bind [OF mark(2)]
        leads_bind [OF schedule_ok [OF assms]] schedule_ok [OF assms] any leads_return';
        simp add: leads_def split_beta)
qed


section \<open>A sweep and an alert\<close>

text \<open>\<open>rows_are b L w\<close>: a calm world with backend \<open>b\<close> whose rows are as \<open>L\<close> says.\<close>

definition rows_are :: "backend \<Rightarrow> (string \<Rightarrow> smsg option) \<Rightarrow> world \<Rightarrow> bool" where
  "rows_are b L w \<longleftrightarrow> calm w \<and> backend_of w = b \<and> wf_db (w_db w) \<and> (\<lambda>j. lookup_message j (w_db w)) = L"

lemma leads_rows:
  assumes "keeps calm p" "stays messages_of p" "stays backend_of p"
  shows "leads (rows_are b L) p (\<lambda>_. rows_are b L)"
  using assms by (simp add: leads_def rows_are_def keeps_def stays_def lookup_message_def wf_db_def)

lemma leads_rows_update:
  assumes "\<And>d. db_faults d = [] \<Longrightarrow> db_backend d = b \<Longrightarrow> op d = (Some r, upd_message mid g d)"
    and "\<And>m. sm_ID (g m) = sm_ID m"
  shows "leads (rows_are b L) (store op) (\<lambda>x w. x = Some r \<and> rows_are b (L(mid := map_option g (L mid))) w)"
proof (rule leadsI)
  fix w x w' assume w: "rows_are b L w" "run_state (store op) w = (x, w')"
  have op: "op (w_db w) = (Some r, upd_message mid g (w_db w))"
    using w(1) by (intro assms(1)) (simp_all add: rows_are_def calm_def)
  then show "x = Some r \<and> rows_are b (L(mid := map_option g (L mid))) w'"
    using w by (auto simp: rows_are_def msgs.lookup_update [OF assms(2)] assms(2) calm_def fun_eq_iff)
qed

definition expired :: "smsg \<Rightarrow> smsg" where
  "expired m = m\<lparr>sm_Status := MessageStatusExpired\<rparr>"

lemma expire_all_rows:
  assumes "\<And>m. keeps calm (f m)" "\<And>m. stays messages_of (f m)" "\<And>m. stays backend_of (f m)"
  shows "leads (rows_are b L) (expire_all E (Some f) ms)
    (\<lambda>_. rows_are b (\<lambda>j. if j \<in> sm_ID ` set ms then map_option expired (L j) else L j))"
proof (induction ms arbitrary: L)
  case Nil
  then show ?case by (simp add: leads_def)
next
  case (Cons m ms)
  let ?L = "L(sm_ID m := map_option expired (L (sm_ID m)))"
  have status: "leads (rows_are b L) (set_status E (sm_ID m) MessageStatusExpired) (\<lambda>x w. x = Some () \<and> rows_are b ?L w)"
    unfolding set_status_def
    by (rule leads_bind [OF leads_rows]; (rule leads_rows_update)?) (simp_all add: update_statements expired_def [abs_def])
  have report: "leads (rows_are b ?L) (f m) (\<lambda>_. rows_are b ?L)"
    by (rule leads_rows [OF assms])
  have tail: "(\<lambda>j. if j \<in> sm_ID ` set ms then map_option expired (?L j) else ?L j) =
      (\<lambda>j. if j \<in> sm_ID ` set (m # ms) then map_option expired (L j) else L j)"
    by (auto simp: fun_eq_iff option.map_comp comp_def expired_def cong: option.map_cong)
  show ?case
    unfolding expire_all.simps option.case
  proof (rule leads_bind [OF status], rule leads_bind [where R = "\<lambda>_. rows_are b ?L"])
    fix x :: "unit option"
    show "leads (\<lambda>w. x = Some () \<and> rows_are b ?L w)
        (case x of None \<Rightarrow> State_Monad.return () | Some _ \<Rightarrow> if sm_DRRequired m then f m else State_Monad.return ())
        (\<lambda>_. rows_are b ?L)"
      using report by (auto simp: leads_def split: option.split)
    show "leads (rows_are b ?L) (expire_all E (Some f) ms)
        (\<lambda>_. rows_are b (\<lambda>j. if j \<in> sm_ID ` set (m # ms) then map_option expired (L j) else L j))"
      using Cons.IH [of ?L] unfolding tail .
  qed
qed

definition woken :: "backend \<Rightarrow> int \<Rightarrow> string \<Rightarrow> smsg \<Rightarrow> smsg" where
  "woken b now reason m = m\<lparr>sm_Status := MessageStatusWaitTimer, sm_NextRetryAt := Some (db_time b now),
     sm_DeferredReason := (if reason \<noteq> [] then reason else sm_DeferredReason m)\<rparr>"

lemma requeue_all_rows:
  assumes "distinct (map sm_ID ms)" "\<And>m. m \<in> set ms \<Longrightarrow> L (sm_ID m) = Some m \<and> sm_Status m \<in> set waiting_statuses"
  shows "leads (rows_are b L) (requeue_all reason now ms)
    (\<lambda>n w. n = length ms \<and> rows_are b (\<lambda>j. if j \<in> sm_ID ` set ms then map_option (woken b now reason) (L j) else L j) w)"
  using assms
proof (induction ms arbitrary: L)
  case Nil
  then show ?case by (simp add: leads_def)
next
  case (Cons m ms)
  let ?L = "L(sm_ID m := map_option (woken b now reason) (L (sm_ID m)))"
  have one: "leads (rows_are b L)
      (store (RequeueMessageForAlert (sm_ID m) now (sm_RouteCursor m) reason waiting_statuses))
      (\<lambda>x w. x = Some True \<and> rows_are b ?L w)"
  proof (rule leadsI)
    let ?op = "RequeueMessageForAlert (sm_ID m) now (sm_RouteCursor m) reason waiting_statuses"
    fix w x w' assume w: "rows_are b L w" "run_state (store ?op) w = (x, w')"
    let ?g = "\<lambda>x. if sm_Status x \<in> set waiting_statuses then x\<lparr>sm_Status := MessageStatusWaitTimer,
        sm_NextRetryAt := Some (db_time (backend_of w) now), sm_RouteCursor := sm_RouteCursor m,
        sm_DeferredReason := (if reason \<noteq> [] then reason else sm_DeferredReason x)\<rparr> else x"
    have id: "\<And>m. sm_ID (?g m) = sm_ID m" by simp
    have b: "backend_of w = b" "db_faults (w_db w) = []" "waiting_statuses \<noteq> []"
      using w(1) by (simp_all add: rows_are_def calm_def waiting_statuses_def)
    have m: "L (sm_ID m) = Some m" "sm_Status m \<in> set waiting_statuses" using Cons.prems(2) [of m] by auto
    then have "guarded (sm_ID m) waiting_statuses (w_db w)"
      using w(1) guarded_iff [of "w_db w"] by (auto simp: rows_are_def fun_eq_iff)
    then have op: "?op (w_db w) = (Some True, upd_message (sm_ID m) ?g (w_db w))"
      using b by (simp add: RequeueMessageForAlert_def db_call_no_fault upd_guarded_def)
    have "?g m = woken b now reason m" using m(2) b(1) by (cases m) (simp add: woken_def)
    then show "x = Some True \<and> rows_are b ?L w'"
      using w op m(1) msgs.lookup_update [of ?g, OF id] wf_db_upd [of ?g, OF id]
      by (auto simp: rows_are_def calm_def fun_eq_iff)
  qed
  have "L' (sm_ID x) = Some x \<and> sm_Status x \<in> set waiting_statuses" if "L' = ?L" "x \<in> set ms" for x L'
    using Cons.prems that by (auto simp: image_iff)
  note IH = Cons.IH [OF _ this [OF refl]]
  have tail: "(\<lambda>j. if j \<in> sm_ID ` set ms then map_option (woken b now reason) (?L j) else ?L j) =
      (\<lambda>j. if j \<in> sm_ID ` set (m # ms) then map_option (woken b now reason) (L j) else L j)"
    using Cons.prems(1) by (auto simp: fun_eq_iff)
  have "leads (rows_are b ?L) (requeue_all reason now ms)
      (\<lambda>n w. n = length ms \<and> rows_are b (\<lambda>j. if j \<in> sm_ID ` set (m # ms) then map_option (woken b now reason) (L j) else L j) w)"
    using IH Cons.prems(1) unfolding tail list.map distinct.simps by blast
  then show ?case
    unfolding requeue_all.simps by (intro leads_bind [OF one]) (auto simp: leads_def split_beta)
qed


text \<open>What an alert listing finds: only waiting messages that match, and all of them up to the limit.\<close>

definition hits :: "message_filter \<Rightarrow> world \<Rightarrow> smsg list" where
  "hits f w = filter (filter_matches f) (messages_of w)"

definition lists_hits :: "message_filter \<Rightarrow> world \<Rightarrow> smsg list \<Rightarrow> bool" where
  "lists_hits f w ms \<longleftrightarrow> set ms \<subseteq> set (hits f w) \<and> (length (hits f w) \<le> 1000 \<longrightarrow> set ms = set (hits f w)) \<and>
     length ms = min 1000 (length (hits f w)) \<and> distinct (map sm_ID ms)"

lemma listing_hits:
  assumes "calm w" "wf_db (w_db w)" "mf_Limit f = 1000"
  shows "\<exists>ms. run_state (store (ListFilteredMessages f)) w = (Some ms, w) \<and> lists_hits f w ms"
proof -
  let ?all = "filtered_order (hits f w)"
  have m: "mset ?all = mset (hits f w)" by (simp add: filtered_order_def)
  have "mset (map sm_ID ?all) = mset (map sm_ID (hits f w))" using m by (simp only: mset_map)
  moreover have "distinct (map sm_ID (hits f w))"
    using assms(2) by (simp add: wf_db_def hits_def distinct_map_filter)
  ultimately have d: "distinct (map sm_ID ?all)" using mset_eq_imp_distinct_iff by blast
  have "lists_hits f w (take 1000 ?all)"
    using d mset_eq_setD [OF m] mset_eq_length [OF m]
    by (auto simp: lists_hits_def take_map [symmetric] distinct_take dest: in_set_takeD)
  moreover have "run_state (store (ListFilteredMessages f)) w = (Some (take 1000 ?all), w)"
    using assms by (simp add: ListFilteredMessages_def db_call_no_fault calm_def list_limit_def hits_def)
  ultimately show ?thesis by blast
qed

lemma hit_waiting: "filter_matches (alert_filter a c i) m \<Longrightarrow> sm_Status m \<in> set waiting_statuses"
  by (simp add: filter_matches_def alert_filter_def waiting_statuses_def)


section \<open>The stored row\<close>

text \<open>
  What a retry still knows of the message: its numbers without type and plan, no alphanumeric
  sender, the user data header as octets without the parsed concatenation, no report request and
  no references of the lower layers.
\<close>

definition remembered :: "message \<Rightarrow> string \<Rightarrow> message" where
  "remembered msg egress = msg\<lparr>msg_SMPPMsgID := [],
     msg_Source := empty_address\<lparr>addr_MSISDN := addr_MSISDN (msg_Source msg)\<rparr>,
     msg_Destination := empty_address\<lparr>addr_MSISDN := addr_MSISDN (msg_Destination msg)\<rparr>,
     msg_UDH := (case msg_UDH msg of Some u \<Rightarrow> if udh_Raw u = [] then None else Some \<lparr>udh_Raw = udh_Raw u, udh_Concat = None\<rparr>
       | None \<Rightarrow> None),
     msg_Concat := None, msg_TPMR := 0, msg_RPMR := 0, msg_TPSRRequired := False,
     msg_EgressInterface := egress, msg_Timestamp := None, msg_Expiry := None\<rparr>"

text \<open>
  A message whose alphabet the coding scheme says, with a text or octets as it says.
\<close>

definition storable :: "message \<Rightarrow> bool" where
  "storable msg \<longleftrightarrow> (msg_Encoding msg = EncodingGSM7 \<longrightarrow> ParseDCS (msg_DCS msg) = EncodingGSM7) \<and>
     (\<forall>n. msg_Encoding msg = EncodingOther n \<longrightarrow> n < 0 \<or> 3 < n) \<and>
     (if msg_Encoding msg = EncodingBinary then msg_Text msg = [] else msg_Binary msg = [])"

lemma restored_message:
  assumes "storable msg"
  shows "fst (run_state (storeToCodecMessage E (store_times b (message_row msg egress peer st now))) w) =
    (remembered msg egress)\<lparr>msg_Expiry := map_option (\<lambda>v. db_time b (now + v)) (msg_ValidityPeriod msg),
      msg_ValidityPeriod := (case msg_ValidityPeriod msg of None \<Rightarrow> None
        | Some v \<Rightarrow> let left = db_time b (now + v) - ev_clock E (w_ticks w) in if left > 0 then Some left else None)\<rparr>"
proof -
  define e where "e = encoding_to_int (msg_Encoding msg)"
  have enc: "(if e \<noteq> 0 then encoding_of_int e else ParseDCS (msg_DCS msg)) = msg_Encoding msg"
    using assms encoding_of_to_int [of "msg_Encoding msg"]
    by (cases "msg_Encoding msg") (auto simp: storable_def e_def)
  have plain: "msg_Encoding msg = EncodingBinary \<Longrightarrow> msg_Text msg = []" "msg_Encoding msg \<noteq> EncodingBinary \<Longrightarrow> msg_Binary msg = []"
    using assms by (auto simp: storable_def split: if_splits)
  define row where "row = store_times b (message_row msg egress peer st now)"
  have payload: "sm_Payload row = (if msg_Encoding msg = EncodingBinary then msg_Binary msg else bytes_of_string (msg_Text msg))"
    using plain by (auto simp: row_def store_times_def message_row_def message_payload_def Let_def)
  have row: "sm_ID row = msg_ID msg" "sm_OriginIface row = msg_IngressInterface msg" "sm_EgressIface row = egress"
    "sm_OriginPeer row = msg_IngressPeer msg" "sm_AlertCorrelationID row = msg_CorrelationID msg"
    "sm_Encoding row = e" "sm_DCS row = uint (msg_DCS msg)" "sm_SrcMSISDN row = addr_MSISDN (msg_Source msg)"
    "sm_DstMSISDN row = addr_MSISDN (msg_Destination msg)" "sm_TPMR row = None"
    "sm_UDH row = (case msg_UDH msg of Some u \<Rightarrow> udh_Raw u | None \<Rightarrow> [])"
    "sm_ExpiryAt row = map_option (\<lambda>v. db_time b (now + v)) (msg_ValidityPeriod msg)"
    by (simp_all add: row_def e_def store_times_def message_row_def option.map_comp comp_def)
  have "fst (run_state (storeToCodecMessage E row) w) = (remembered msg egress)\<lparr>msg_Expiry := sm_ExpiryAt row,
      msg_ValidityPeriod := (case sm_ExpiryAt row of None \<Rightarrow> None
        | Some t \<Rightarrow> let left = t - ev_clock E (w_ticks w) in if left > 0 then Some left else None)\<rparr>"
    unfolding storeToCodecMessage_def Let_def row(1-11) word_of_int_uint enc payload
    by (rule message.equality) (simp_all add: remembered_def plain empty_message_def Let_def split: option.split)
  then show ?thesis unfolding row(12) unfolding row_def by (cases "msg_ValidityPeriod msg") simp_all
qed

lemma encodeSM_class: "sm_payload msg = Ok (esm, q) \<Longrightarrow> \<exists>p. EncodeDeliverSM msg = Ok p \<and> pdu_ESMClass p = esm"
  by (simp add: EncodeDeliverSM_def encodeSM_def Let_def SetTLV_def split: prod.split)


text \<open>A retry, from the claim to the row it leaves.\<close>

lemma retry_row:
  assumes "calm w" "lookup_message (sm_ID m) (w_db w) = Some row" "sm_Status row \<in> set retryable_statuses"
    and "run_state (retry_dispatch E m) w = (r, w')"
  shows "row_ok row (retried m r) (sm_ID m) (backend_of w) (\<lambda>j. lookup_message j (w_db w)) w'"
proof -
  let ?mid = "sm_ID m" and ?b = "backend_of w" and ?L = "\<lambda>j. lookup_message j (w_db w)"
  let ?claimed = "row_ok row (\<lambda>x. sm_Status x = MessageStatusDispatched) ?mid ?b ?L"
  obtain c w1 where c: "run_state (store (ClaimMessageForDispatch ?mid retryable_statuses)) w = (c, w1)" by force
  note claim = claim_row [OF assms(1-3) c]
  obtain msg w2 where msg: "run_state (storeToCodecMessage E m) w1 = (msg, w2)" by force
  obtain res msg' w3 where res: "run_state (retryMessage E m msg) w2 = ((res, msg'), w3)" by (metis surj_pair)
  have "?claimed w2" by (rule leadsD [OF leads_row [OF codec_quiet(1-3)] claim(2) msg])
  then have w3: "?claimed w3" by (rule leadsD [OF leads_row [OF retryMessage_quiet(1-3)] _ res])
  have run: "run_state (retry_dispatch E m) w = run_state
      (if pr_outcome res \<noteq> PassDelivered then finalizeNonDelivered E m msg' res
       else (case pr_deliveredRoute res of None \<Rightarrow> State_Monad.return Panic
         | Some route \<Rightarrow> do {
             persistDeliveredRoute ?mid (msg_EgressInterface msg') (rt_egressPeer route);
             set_terminal E ?mid MessageStatusDelivered StatusDelivered;
             State_Monad.return (Ok ()) })) w3"
    using c claim(1) msg res by (simp add: retry_dispatch_def)
  show ?thesis
  proof (cases "pr_outcome res = PassDelivered")
    case False
    then show ?thesis
      using leadsD [OF finalizeNonDelivered_row [OF refl False] w3] run assms(4) by simp
  next
    case True
    then obtain route where route: "pr_deliveredRoute res = Some route"
      using retryMessage_delivered [OF res] by auto
    let ?any = "row_ok row (\<lambda>_. True) ?mid ?b ?L"
    have "leads ?any (do { persistDeliveredRoute ?mid (msg_EgressInterface msg') (rt_egressPeer route);
        set_terminal E ?mid MessageStatusDelivered StatusDelivered; State_Monad.return (Ok ()) })
        (\<lambda>y. row_ok row (retried m y) ?mid ?b ?L)"
      by (intro leads_bind [OF leads_persist] leads_bind [OF leads_set_terminal [where Q' = "retried m (Ok ())"]])
        (auto simp: retried_def intro: leads_return')
    moreover have "?any w3" using w3 by (auto simp: row_is_def)
    moreover have "run_state (do { persistDeliveredRoute ?mid (msg_EgressInterface msg') (rt_egressPeer route);
        set_terminal E ?mid MessageStatusDelivered StatusDelivered; State_Monad.return (Ok ()) }) w3 = (r, w')"
      using run assms(4) True route by simp
    ultimately show ?thesis by (rule leadsD)
  qed
qed

section \<open>Properties\<close>



text \<open>
  A retry does not panic as long as every policy in the database has a retry schedule and the
  attempts are not counted below zero, whatever the routes, the far ends and the database do. (The
  policies are entered by an operator and their schedules are not checked.)
\<close>

theorem retry_never_crashes:
  assumes "\<forall>p \<in> set (policies_of w). pol_RetrySchedule p \<noteq> []" "0 \<le> sm_RetryCount m"
    and "run_state (retry_dispatch E m) w = (r, w')"
  shows "r = Ok ()"
proof -
  obtain c w1 where c: "run_state (store (ClaimMessageForDispatch (sm_ID m) retryable_statuses)) w = (c, w1)" by force
  obtain msg w2 where msg: "run_state (storeToCodecMessage E m) w1 = (msg, w2)" by force
  obtain res msg' w3 where res: "run_state (retryMessage E m msg) w2 = ((res, msg'), w3)" by (metis surj_pair)
  have "schedules_ok w" using assms(1) by (simp add: schedules_ok_def)
  then have "schedules_ok w1" using c by (auto simp: schedules_ok_def)
  then have "schedules_ok w2" by (rule keeps_run [OF keeps_schedules [OF codec_quiet(4)] msg])
  then have "schedules_ok w3" by (rule keeps_run [OF keeps_schedules [OF retryMessage_quiet(4)] res])
  then have "fst (run_state (finalizeNonDelivered E m msg' res) w3) = Ok ()"
    using finalize_ok [OF assms(2)] by (simp add: leads_def)
  then show ?thesis
    using assms(3) c msg res retryMessage_delivered [OF res]
    by (auto simp: retry_dispatch_def split: if_splits option.splits prod.splits)
qed

theorem retry_never_crashes_witness:
  "fst (run_state (retry_dispatch example_env (example_message ''a'' ''WAIT_TIMER'' None)) waiting_world) = Ok ()"
  using retry_never_crashes [of waiting_world "example_message ''a'' ''WAIT_TIMER'' None" example_env,
      OF _ _ surjective_pairing] waiting_world_facts by (simp add: example_message_def)

text \<open>
  C9: An alert with a correlation identifier or a number wakes the waiting messages it names: those
  that match the identifier or, when there are none and a number is given too, the number; all of
  them up to a thousand. Each becomes due at once at the route it was deferred on, the answer is
  how many there were, and every other row stays as it is. (The number matches as a part of the
  destination, so the alert for one subscriber wakes messages for others.)
\<close>

theorem alert_wakes_waiting:
  assumes "calm w" "wf_db (w_db w)" "corr \<noteq> [] \<or> msisdn \<noteq> []"
    and "run_state (triggerAlertRetry E source msisdn corr iface) w = (r, w')"
    and "f = alert_filter msisdn (if corr \<noteq> [] \<and> msisdn \<noteq> [] \<and> hits (alert_filter msisdn corr iface) w = []
      then [] else corr) iface"
  shows "\<exists>ms. lists_hits f w ms \<and> r = Ok (length ms) \<and>
    (\<forall>j. lookup_message j (w_db w') = (if j \<in> sm_ID ` set ms
       then map_option (woken (backend_of w) (ev_clock E (w_ticks w))
         (if source = ''sgd'' \<and> iface = InterfaceSGd then ''sgd_alert_retry'' else [])) (lookup_message j (w_db w))
       else lookup_message j (w_db w)))"
proof -
  have limit: "mf_Limit (alert_filter a b c) = 1000" for a b c by (simp add: alert_filter_def)
  obtain ms0 where ms0: "run_state (store (ListFilteredMessages (alert_filter msisdn corr iface))) w = (Some ms0, w)"
    "lists_hits (alert_filter msisdn corr iface) w ms0"
    using listing_hits [OF assms(1,2) limit] by blast
  obtain ms where ms: "run_state (store (ListFilteredMessages f)) w = (Some ms, w)" "lists_hits f w ms"
    using listing_hits [OF assms(1,2)] limit assms(5) by blast
  have empty: "ms0 = [] \<longleftrightarrow> hits (alert_filter msisdn corr iface) w = []"
    using ms0(2) by (auto simp: lists_hits_def)
  let ?reason = "if source = ''sgd'' \<and> iface = InterfaceSGd then ''sgd_alert_retry'' else []"
  let ?now = "ev_clock E (w_ticks w)" and ?w = "w\<lparr>w_ticks := Suc (w_ticks w)\<rparr>"
  obtain n w2 where n: "run_state (requeue_all ?reason ?now ms) ?w = (n, w2)" by force
  have some: "(corr = [] \<and> msisdn = []) = False" using assms(3) by simp
  have n': "run_state (wake_all E source iface ms) w = (Ok n, w2)"
    using n by (simp add: wake_all_def)
  have run: "r = Ok n \<and> w' = w2"
  proof (cases ms0)
    case Nil
    then have "hits (alert_filter msisdn corr iface) w = []" using empty by simp
    then have "if corr \<noteq> [] \<and> msisdn \<noteq> [] then f = alert_filter msisdn [] iface else ms = []"
      using assms(5) ms(2) by (auto simp: lists_hits_def)
    then show ?thesis
      using Nil ms(1) ms0(1) n' assms(4) unfolding triggerAlertRetry_def some if_False
      by (auto simp del: run_primitive(4) split: if_splits)
  next
    case (Cons a as)
    then have "f = alert_filter msisdn corr iface" using assms(5) empty by auto
    then have "ms = ms0" using ms(1) ms0(1) by simp
    then show ?thesis
      using Cons ms0(1) n' assms(4) unfolding triggerAlertRetry_def some if_False
      by (simp del: run_primitive(4))
  qed
  have members: "m \<in> set ms \<Longrightarrow> lookup_message (sm_ID m) (w_db w) = Some m \<and> sm_Status m \<in> set waiting_statuses" for m
    using ms(2) lookup_member [OF assms(2)] hit_waiting [of msisdn _ iface m] assms(5)
    by (auto simp: lists_hits_def hits_def)
  have "distinct (map sm_ID ms)" using ms(2) by (simp add: lists_hits_def)
  note woke = requeue_all_rows [OF this members, of "backend_of w" ?reason ?now]
  have "rows_are (backend_of w) (\<lambda>j. lookup_message j (w_db w)) ?w" using assms(1,2) by (simp add: rows_are_def)
  from leadsD [OF woke this n] have "n = length ms" and rows: "(\<lambda>j. lookup_message j (w_db w2)) =
      (\<lambda>j. if j \<in> sm_ID ` set ms then map_option (woken (backend_of w) ?now ?reason) (lookup_message j (w_db w))
        else lookup_message j (w_db w))"
    by (simp_all only: rows_are_def)
  then show ?thesis using run ms(2) fun_cong [OF rows] by (intro exI [of _ ms] conjI allI) simp_all
qed

theorem alert_wakes_waiting_witness:
  "\<exists>x. lookup_message ''a'' (w_db (snd (run_state (triggerAlertRetry example_env ''s6c'' ''20'' [] []) waiting_world))) = Some x \<and>
     sm_NextRetryAt x = Some (db_time Postgres 0)"
proof -
  let ?f = "alert_filter ''20'' [] []"
  have h: "hits ?f waiting_world = [example_message ''a'' ''WAIT_TIMER'' None]"
    by (simp add: hits_def waiting_world_def filter_matches_def alert_filter_def waiting_statuses_def
        example_message_def like_contains_def)
  then have s: "lists_hits ?f waiting_world ms \<Longrightarrow> ''a'' \<in> sm_ID ` set ms" for ms
    by (simp add: lists_hits_def example_message_def)
  show ?thesis
    using alert_wakes_waiting [of waiting_world "[]" "''20''" example_env "''s6c''" "[]", OF _ _ _ surjective_pairing]
      s waiting_world_facts by (fastforce simp: woken_def waiting_world_def example_env_def)
qed

text \<open>
  C23: The sweep expires every row that was listed, whatever its status has become since, and only
  those: a message that is delivered between the listing and its turn ends as expired.
\<close>

theorem sweep_marks_listed:
  assumes "calm w" "wf_db (w_db w)"
    and "run_state (expire_all E (Some (\<lambda>m. report_of E m StatusExpired)) ms) w = (u, w')"
  shows "lookup_message j (w_db w') = (if j \<in> sm_ID ` set ms then map_option expired (lookup_message j (w_db w))
    else lookup_message j (w_db w))"
proof -
  have "rows_are (backend_of w) (\<lambda>j. lookup_message j (w_db w)) w" using assms(1,2) by (simp add: rows_are_def)
  from leadsD [OF expire_all_rows [OF Report_calm(2) report_of_frame(1,2)] this assms(3)] show ?thesis
    by (simp add: rows_are_def fun_eq_iff)
qed

theorem sweep_marks_listed_witness:
  "lookup_message ''a'' (w_db (snd (run_state (expire_all example_env (Some (\<lambda>m. report_of example_env m StatusExpired))
      [example_message ''a'' ''WAIT_TIMER'' None]) (example_world Postgres [example_message ''a'' ''DELIVERED'' None]))))
    = Some (expired (example_message ''a'' ''DELIVERED'' None))"
proof -
  let ?w = "example_world Postgres [example_message ''a'' ''DELIVERED'' None]"
  have "calm ?w" "wf_db (w_db ?w)" "lookup_message ''a'' (w_db ?w) = Some (example_message ''a'' ''DELIVERED'' None)"
    by (simp_all add: calm_def wf_db_def lookup_message_def example_message_def)
  then show ?thesis
    using sweep_marks_listed [of ?w example_env "[example_message ''a'' ''WAIT_TIMER'' None]", OF _ _ surjective_pairing]
    by (simp add: example_message_def)
qed

text \<open>
  The message of a retry is the message that was received up to what the row does not hold:
  \<open>remembered\<close> says what is lost, and its validity period is what is left of it.
\<close>

theorem stored_message_restored:
  assumes "storable msg"
  shows "fst (run_state (storeToCodecMessage E (store_times b (message_row msg egress peer st now))) w) =
    (remembered msg egress)\<lparr>msg_Expiry := map_option (\<lambda>v. db_time b (now + v)) (msg_ValidityPeriod msg),
      msg_ValidityPeriod := (case msg_ValidityPeriod msg of None \<Rightarrow> None
        | Some v \<Rightarrow> let left = db_time b (now + v) - ev_clock E (w_ticks w) in if left > 0 then Some left else None)\<rparr>"
  by (rule restored_message [OF assms])

theorem stored_message_restored_witness:
  "msg_Text (fst (run_state (storeToCodecMessage example_env (store_times Postgres
     (message_row (empty_message\<lparr>msg_Text := ''hi'', msg_DCS := 8, msg_Encoding := EncodingUCS2\<rparr>) [] [] [] 0))) waiting_world)) = ''hi''"
  using stored_message_restored [of "empty_message\<lparr>msg_Text := ''hi'', msg_DCS := 8, msg_Encoding := EncodingUCS2\<rparr>"]
  by (simp add: storable_def remembered_def empty_message_def)

text \<open>
  A part of a concatenated text that is retried over SMPP goes out as a message of its own: the
  first attempt carries the concatenation header and the flag for it, a retry carries neither.
\<close>

theorem retry_forgets_concatenation:
  assumes "storable msg" "msg_Encoding msg = EncodingGSM7 \<or> msg_Encoding msg = EncodingUCS2" "msg_Concat msg = Some c"
    and "msg' = fst (run_state (storeToCodecMessage E (store_times b (message_row msg egress peer st now))) w)"
  shows "\<exists>p p'. EncodeDeliverSM msg = Ok p \<and> pdu_ESMClass p = 0x40 \<and>
    EncodeDeliverSM msg' = Ok p' \<and> pdu_ESMClass p' = 0"
proof -
  have restored: "msg_Encoding msg' = msg_Encoding msg" "msg_Concat msg' = None"
    unfolding assms(4) restored_message [OF assms(1)] by (simp_all add: remembered_def)
  have "\<exists>q. sm_payload msg = Ok (0x40, q)" using assms(2,3) by (auto simp: sm_payload_def)
  moreover have "\<exists>q. sm_payload msg' = Ok (0, q)" using assms(2) restored by (auto simp: sm_payload_def)
  ultimately show ?thesis using encodeSM_class by blast
qed

theorem retry_forgets_concatenation_witness:
  "\<exists>p. EncodeDeliverSM (fst (run_state (storeToCodecMessage example_env (store_times Postgres
     (message_row (empty_message\<lparr>msg_Text := ''hi'', msg_DCS := 8, msg_Encoding := EncodingUCS2,
        msg_Concat := Some \<lparr>cc_Ref = 1, cc_Total = 2, cc_Sequence = 1\<rparr>\<rparr>) [] [] [] 0))) waiting_world)) = Ok p \<and>
     pdu_ESMClass p = 0"
  using retry_forgets_concatenation [OF _ _ _ refl, of "empty_message\<lparr>msg_Text := ''hi'', msg_DCS := 8,
      msg_Encoding := EncodingUCS2, msg_Concat := Some \<lparr>cc_Ref = 1, cc_Total = 2, cc_Sequence = 1\<rparr>\<rparr>"]
  by (fastforce simp: storable_def empty_message_def)

end
