(* ===== verification/Exhaustion.thy ===== *)
theory Exhaustion
  imports Redelivery
begin

text \<open>
  Retries end: once as many attempts are counted as the policies allow, a retry does not leave the message
  waiting for the timer again.
\<close>

section \<open>Lemmas\<close>

text \<open>No policy allows more than \<open>n\<close> attempts, and neither does the default schedule.\<close>

definition limits_ok :: "int \<Rightarrow> world \<Rightarrow> bool" where
  "limits_ok n w \<longleftrightarrow> int (length defaultSchedule) \<le> n \<and> (\<forall>p \<in> set (policies_of w). pol_MaxRetries p \<le> n)"

lemma keeps_limits: "stays policies_of p \<Longrightarrow> keeps (limits_ok n) p"
  by (simp add: stays_def keeps_def limits_ok_def)

lemma nextRetry_exhausted:
  assumes "limits_ok n w" "n \<le> sm_RetryCount m"
  shows "fst (run_state (nextRetry E m r) w) = Ok None"
proof -
  have policy: "stays policies_of (sfPolicyForMessage E m r)"
    unfolding sfPolicyForMessage_def planned_policy_def by (intro frame; simp)
  obtain pid w1 where p: "run_state (sfPolicyForMessage E m r) w = (pid, w1)" by force
  have ok: "limits_ok n w1" using keepsD [OF keeps_limits [OF policy] assms(1)] p by simp
  have found: "fst (GetSFPolicy pid (w_db w1)) = Some (Some q) \<Longrightarrow> pol_MaxRetries q \<le> n" for q
    using ok by (cases rule: db_call_cases [of "\<lambda>d. (find (\<lambda>p. pol_ID p = pid) (db_policies d), d)" "w_db w1"])
      (auto simp: GetSFPolicy_def limits_ok_def find_Some_iff)
  have "int (length defaultSchedule) \<le> sm_RetryCount m" using assms by (simp add: limits_ok_def)
  then show ?thesis
    using p assms(2) found
    by (auto simp: nextRetry_def retry_delay_cases split: option.splits dest!: found)
qed

lemma leads_conj: "leads P p (\<lambda>_. Q) \<Longrightarrow> keeps R p \<Longrightarrow> leads (\<lambda>w. P w \<and> R w) p (\<lambda>_ w. Q w \<and> R w)"
  by (simp add: leads_def keeps_def)

lemma scheduleOrFail_exhausted:
  assumes "sm_ID m = mid" "n \<le> sm_RetryCount m"
  shows "leads (\<lambda>w. row_ok m0 (\<lambda>_. True) mid b L w \<and> limits_ok n w) (scheduleOrFail E m r)
    (\<lambda>y w. y = Ok () \<and> row_ok m0 (\<lambda>x. sm_Status x = MessageStatusFailed) mid b L w)"
proof -
  let ?in = "row_ok m0 (\<lambda>_. True) mid b L"
  have next_: "leads (\<lambda>w. ?in w \<and> limits_ok n w) (nextRetry E m r) (\<lambda>x w. x = Ok None \<and> ?in w)"
    using leads_row [OF nextRetry_quiet(1-3), of mid b L] nextRetry_exhausted [OF _ assms(2)] by (simp add: leads_def)
  have fail: "leads ?in (do { set_terminal E mid MessageStatusFailed StatusFailed; State_Monad.return (Ok ()) })
      (\<lambda>y w. y = Ok () \<and> row_ok m0 (\<lambda>x. sm_Status x = MessageStatusFailed) mid b L w)"
    by (rule leads_bind [OF leads_set_terminal [where Q' = "\<lambda>x. sm_Status x = MessageStatusFailed"]])
      (auto intro: leads_return')
  show ?thesis
    unfolding scheduleOrFail_def assms(1)
  proof (rule leads_bind [OF next_])
    fix x :: "int option outcome"
    have "leads (\<lambda>w. x = Ok None \<and> ?in w) (do { set_terminal E mid MessageStatusFailed StatusFailed; State_Monad.return (Ok ()) })
        (\<lambda>y w. y = Ok () \<and> row_ok m0 (\<lambda>x. sm_Status x = MessageStatusFailed) mid b L w)"
      by (rule leads_pre [OF fail]) simp
    then show "leads (\<lambda>w. x = Ok None \<and> ?in w) (case x of
        Ok None \<Rightarrow> do { set_terminal E mid MessageStatusFailed StatusFailed; State_Monad.return (Ok ()) }
      | Ok (Some t) \<Rightarrow> do { store (UpdateMessageRetry mid (sm_RetryCount m + 1) t (deferredRouteCursor r)); State_Monad.return (Ok ()) }
      | Err e \<Rightarrow> State_Monad.return (Err e) | Panic \<Rightarrow> State_Monad.return Panic)
      (\<lambda>y w. y = Ok () \<and> row_ok m0 (\<lambda>x. sm_Status x = MessageStatusFailed) mid b L w)"
      by (cases "x = Ok None") (simp_all add: leads_def)
  qed
qed

lemma deferral_limits:
  "keeps (limits_ok n) (markDeferred mid msg c r)" "keeps (limits_ok n) (applyDeferredExpiryCap E mid t r)"
  unfolding markDeferred_def applyDeferredExpiryCap_def deferredLifetimeForRoute_def routePolicy_def
  by (rule keeps_limits, intro frame; simp)+

lemma finalize_exhausted:
  assumes "sm_ID m = mid" "n \<le> sm_RetryCount m" "pr_outcome res \<noteq> PassDelivered"
  shows "leads (\<lambda>w. row_ok m0 (\<lambda>_. True) mid b L w \<and> limits_ok n w) (finalizeNonDelivered E m msg res)
    (\<lambda>y. row_ok m0 (\<lambda>x. sm_Status x \<noteq> MessageStatusWaitTimer) mid b L)"
proof -
  let ?in = "\<lambda>w. row_ok m0 (\<lambda>_. True) mid b L w \<and> limits_ok n w"
    and ?out = "row_ok m0 (\<lambda>x. sm_Status x \<noteq> MessageStatusWaitTimer) mid b L"
  have mark: "leads ?in (markDeferred mid msg c r) (\<lambda>_. ?in)" for c r
    by (rule leads_conj [OF leads_markDeferred deferral_limits(1)]) simp
  have cap: "leads ?in (applyDeferredExpiryCap E mid t r) (\<lambda>_. ?in)" for t r
    by (rule leads_conj [OF leads_expiry_cap deferral_limits(2)]) simp
  have set_to: "leads (row_ok m0 Q mid b L) (do { set_status E mid st; State_Monad.return (Ok ()) }) (\<lambda>y. ?out)"
    if "st \<noteq> MessageStatusWaitTimer" for st Q
    by (rule leads_bind [OF leads_set_status [where Q' = "\<lambda>x. sm_Status x \<noteq> MessageStatusWaitTimer"]])
      (use that in \<open>auto intro: leads_return'\<close>)
  have set_in: "leads ?in (do { set_status E mid st; State_Monad.return (Ok ()) }) (\<lambda>y. ?out)"
    if "st \<noteq> MessageStatusWaitTimer" for st
    by (rule leads_pre [OF set_to [OF that, where Q = "\<lambda>_. True"]]) auto
  have sched: "leads ?in (scheduleOrFail E m r) (\<lambda>y w. y = Ok () \<and> row_ok m0 (\<lambda>x. sm_Status x = MessageStatusFailed) mid b L w)" for r
    by (rule scheduleOrFail_exhausted [OF assms(1,2)])
  show ?thesis
  proof (cases "pr_outcome res")
    case PassDelivered
    then show ?thesis using assms(3) by simp
  next
    case PassWaitTimer
    have "leads ?in (scheduleOrFail E m r) (\<lambda>y. ?out)" for r
      by (rule leads_weaken [OF sched]) (auto simp: row_is_def)
    then show ?thesis
      unfolding finalizeNonDelivered_def PassWaitTimer pass_outcome.case assms(1)
      by (intro leads_bind [OF mark] leads_bind [OF cap])
  next
    case PassWaitEvent
    show ?thesis
      unfolding finalizeNonDelivered_def PassWaitEvent pass_outcome.case assms(1)
      by (intro leads_bind [OF mark] leads_bind [OF cap] set_in) simp
  next
    case PassWaitTimerEvent
    have after: "leads (\<lambda>w. y = Ok () \<and> row_ok m0 (\<lambda>x. sm_Status x = MessageStatusFailed) mid b L w) (case y of
        Ok _ \<Rightarrow> do { set_status E mid MessageStatusWaitTimerEvent; State_Monad.return (Ok ()) }
      | _ \<Rightarrow> State_Monad.return y) (\<lambda>_. ?out)" for y
    proof (cases "y = Ok ()")
      case True
      have "leads (\<lambda>w. y = Ok () \<and> row_ok m0 (\<lambda>x. sm_Status x = MessageStatusFailed) mid b L w)
          (do { set_status E mid MessageStatusWaitTimerEvent; State_Monad.return (Ok ()) }) (\<lambda>_. ?out)"
        by (rule leads_pre [OF set_to [where Q = "\<lambda>x. sm_Status x = MessageStatusFailed"]]) simp_all
      then show ?thesis by (simp add: True)
    qed (simp add: leads_def)
    show ?thesis
      unfolding finalizeNonDelivered_def PassWaitTimerEvent pass_outcome.case assms(1)
      by (intro leads_bind [OF mark] leads_bind [OF cap] leads_bind [OF sched] after)
  next
    case PassFailed
    have "leads ?in (do { set_terminal E mid MessageStatusFailed StatusFailed; State_Monad.return (Ok ()) }) (\<lambda>y. ?out)"
      by (rule leads_pre [where P' = "row_ok m0 (\<lambda>_. True) mid b L"],
          rule leads_bind [OF leads_set_terminal [where Q' = "\<lambda>x. sm_Status x \<noteq> MessageStatusWaitTimer"]])
        (auto intro: leads_return')
    then show ?thesis unfolding finalizeNonDelivered_def PassFailed pass_outcome.case assms(1) .
  qed
qed


lemma retry_exhausted:
  assumes "calm w" "lookup_message (sm_ID m) (w_db w) = Some row" "sm_Status row \<in> set retryable_statuses"
    and "limits_ok n w" "n \<le> sm_RetryCount m" "run_state (retry_dispatch E m) w = (r, w')"
  shows "\<exists>x. lookup_message (sm_ID m) (w_db w') = Some x \<and> sm_Status x \<noteq> MessageStatusWaitTimer"
proof -
  let ?mid = "sm_ID m" and ?b = "backend_of w" and ?L = "\<lambda>j. lookup_message j (w_db w)"
  let ?any = "\<lambda>Q. row_ok row Q ?mid ?b ?L"
  obtain c w1 where c: "run_state (store (ClaimMessageForDispatch ?mid retryable_statuses)) w = (c, w1)" by force
  note claim = claim_row [OF assms(1-3) c]
  have "limits_ok n w1" using assms(4) c by (auto simp: limits_ok_def)
  moreover obtain msg w2 where msg: "run_state (storeToCodecMessage E m) w1 = (msg, w2)" by force
  moreover obtain res msg' w3 where res: "run_state (retryMessage E m msg) w2 = ((res, msg'), w3)" by (metis surj_pair)
  ultimately have limits: "limits_ok n w3"
    using keeps_run [OF keeps_limits [OF codec_quiet(4)]] keeps_run [OF keeps_limits [OF retryMessage_quiet(4)]] by metis
  have "?any (\<lambda>x. sm_Status x = MessageStatusDispatched) w2" by (rule leadsD [OF leads_row [OF codec_quiet(1-3)] claim(2) msg])
  then have "?any (\<lambda>x. sm_Status x = MessageStatusDispatched) w3" by (rule leadsD [OF leads_row [OF retryMessage_quiet(1-3)] _ res])
  then have w3: "?any (\<lambda>_. True) w3" by (auto simp: row_is_def)
  have "?any (\<lambda>x. sm_Status x \<noteq> MessageStatusWaitTimer) w'"
  proof (cases "pr_outcome res = PassDelivered")
    case False
    then have "run_state (finalizeNonDelivered E m msg' res) w3 = (r, w')"
      using assms(6) c claim(1) msg res by (simp add: retry_dispatch_def)
    from leadsD [OF finalize_exhausted [OF refl assms(5) False] _ this] w3 limits show ?thesis by blast
  next
    case True
    then obtain route where route: "pr_deliveredRoute res = Some route" using retryMessage_delivered [OF res] by auto
    have "leads (?any (\<lambda>_. True)) (do { persistDeliveredRoute ?mid (msg_EgressInterface msg') (rt_egressPeer route);
        set_terminal E ?mid MessageStatusDelivered StatusDelivered; State_Monad.return (Ok ()) })
        (\<lambda>y. ?any (\<lambda>x. sm_Status x \<noteq> MessageStatusWaitTimer))"
      by (intro leads_bind [OF leads_persist]
          leads_bind [OF leads_set_terminal [where Q' = "\<lambda>x. sm_Status x \<noteq> MessageStatusWaitTimer"]])
        (auto intro: leads_return')
    then show ?thesis using w3 assms(6) c claim(1) msg res True route by (auto simp: leads_def retry_dispatch_def split_beta)
  qed
  then show ?thesis by (auto simp: row_is_def)
qed


lemma status_policies [simp]:
  "db_policies (snd (UpdateMessageStatus now mid st d)) = db_policies d"
  "db_policies (snd (UpdateMessageRetry mid k t c d)) = db_policies d"
  unfolding UpdateMessageStatus_def UpdateMessageRetry_def by (auto intro!: db_call_frame simp: upd_message_def Let_def)

lemma set_policies: "stays policies_of (set_status E mid st)" "stays policies_of (set_terminal E mid st rep)"
proof -
  show s: "stays policies_of (set_status E mid st)" for mid st
    unfolding set_status_def by (intro frame; simp)
  show "stays policies_of (set_terminal E mid st rep)"
    unfolding set_terminal_def by (auto intro!: frame s split: option.split)
qed

lemma retry_dispatch_policies: "keeps (limits_ok n) (retry_dispatch E m)"
proof -
  have "stays policies_of (scheduleOrFail E m r)" for r
    unfolding scheduleOrFail_def by (intro frame; auto intro!: frame set_policies split: outcome.split option.split)
  then have "stays policies_of (finalizeNonDelivered E m msg res)" for msg res
    unfolding finalizeNonDelivered_def markDeferred_def applyDeferredExpiryCap_def deferredLifetimeForRoute_def routePolicy_def
    by (auto intro!: frame set_policies split: pass_outcome.split outcome.split option.split)
  then show ?thesis
    unfolding retry_dispatch_def persistDeliveredRoute_def by (intro keeps_limits) (auto intro!: frame set_policies split: option.split)
qed


section \<open>Rounds of retries\<close>

text \<open>\<open>k\<close> times over, the message is retried as its row stands, as long as it waits with a timer.\<close>

fun retry_rounds :: "env \<Rightarrow> string \<Rightarrow> nat \<Rightarrow> world \<Rightarrow> world" where
  "retry_rounds E mid 0 w = w"
| "retry_rounds E mid (Suc k) w = retry_rounds E mid k
     (case lookup_message mid (w_db w) of
        Some m \<Rightarrow> if sm_Status m = MessageStatusWaitTimer then snd (run_state (retry_dispatch E m) w) else w
      | None \<Rightarrow> w)"

lemma lookup_ID: "lookup_message mid d = Some m \<Longrightarrow> sm_ID m = mid"
  by (auto simp: lookup_message_def find_Some_iff)

lemma rounds_rest:
  "lookup_message mid (w_db w) = Some x \<Longrightarrow> sm_Status x \<noteq> MessageStatusWaitTimer \<Longrightarrow> retry_rounds E mid k w = w"
  by (induction k) simp_all

lemma rounds_end:
  "calm w \<Longrightarrow> limits_ok n w \<Longrightarrow> lookup_message mid (w_db w) = Some m \<Longrightarrow> n \<le> sm_RetryCount m + int k \<Longrightarrow>
   \<exists>x. lookup_message mid (w_db (retry_rounds E mid (Suc k) w)) = Some x \<and> sm_Status x \<noteq> MessageStatusWaitTimer"
proof (induction k arbitrary: w m)
  case 0
  show ?case
  proof (cases "sm_Status m = MessageStatusWaitTimer")
    case True
    then show ?thesis
      using retry_exhausted [OF 0(1) _ _ 0(2) _ surjective_pairing, of m m E] 0(3,4) lookup_ID [OF 0(3)]
      by (simp add: retryable_statuses_def)
  qed (use 0 in simp)
next
  case (Suc k)
  show ?case
  proof (cases "sm_Status m = MessageStatusWaitTimer")
    case True
    let ?r = "run_state (retry_dispatch E m) w"
    have id: "sm_ID m = mid" by (rule lookup_ID [OF Suc.prems(3)])
    have "row_ok m (retried m (fst ?r)) mid (backend_of w) (\<lambda>j. lookup_message j (w_db w)) (snd ?r)"
      using retry_row [OF Suc.prems(1) _ _ surjective_pairing, of m m E] Suc.prems(3) id True by (simp add: retryable_statuses_def)
    then have settles: "(\<exists>x. lookup_message mid (w_db (snd ?r)) = Some x \<and> same_content m x \<and> retried m (fst ?r) x) \<and> calm (snd ?r)"
      by (auto simp: row_is_def)
    then obtain x where x: "lookup_message mid (w_db (snd ?r)) = Some x" "retried m (fst ?r) x" by blast
    have limits: "limits_ok n (snd ?r)" using keepsD [OF retry_dispatch_policies Suc.prems(2)] by simp
    show ?thesis
    proof (cases "sm_Status x = MessageStatusWaitTimer")
      case waits: True
      then have "sm_RetryCount x = sm_RetryCount m + 1" using x(2) by (auto simp: retried_def split: outcome.splits)
      then show ?thesis using Suc.IH [OF _ limits x(1)] settles Suc.prems(3,4) True by simp
    next
      case False
      then show ?thesis using rounds_rest [OF x(1) False, of E "Suc k"] x(1) Suc.prems(3) True by simp
    qed
  next
    case False
    then show ?thesis using rounds_rest [OF Suc.prems(3) False, of E "Suc (Suc k)"] Suc.prems(3) by simp
  qed
qed


section \<open>Properties\<close>



end
