(* ===== verification/SgdCodec.thy ===== *)
theory SgdCodec
  imports S6cCodec Tpdu
begin

text \<open>
  Short messages over Diameter SGd (\<open>internal/codec/sgd\<close>): the attributes of a forward request and
  of a status report, the numbers in them, and the message made of a received request.
\<close>

section \<open>Numbers\<close>

abbreviation CodeUserIdentifier :: "32 word" where "CodeUserIdentifier \<equiv> 3102"
abbreviation CodeSCAddress :: "32 word" where "CodeSCAddress \<equiv> 3300"
abbreviation CodeSMRPUI :: "32 word" where "CodeSMRPUI \<equiv> 3301"
abbreviation CodeSMDeliveryOutcome :: "32 word" where "CodeSMDeliveryOutcome \<equiv> 3316"
abbreviation CodeSMSGWDeliveryOutcome :: "32 word" where "CodeSMSGWDeliveryOutcome \<equiv> 3320"
abbreviation CodeMSISDN :: "32 word" where "CodeMSISDN \<equiv> 701"
abbreviation CodeUserName :: "32 word" where "CodeUserName \<equiv> 1"
abbreviation CodeMMENumberForMTSMSServing :: "32 word" where "CodeMMENumberForMTSMSServing \<equiv> 1645"

text \<open>Octets of two digits each, the first in the low half; \<open>0xF\<close> fills up an odd number.\<close>

definition digit_octet :: "char \<Rightarrow> byte" where
  "digit_octet c = of_char c - 48"

fun encodeBCDDigits :: "string \<Rightarrow> bytes" where
  "encodeBCDDigits [] = []"
| "encodeBCDDigits [a] = [digit_octet a OR 0xF0]"
| "encodeBCDDigits (a # b # ds) = (digit_octet a OR push_bit 4 (digit_octet b)) # encodeBCDDigits ds"

definition octet_digits :: "byte \<Rightarrow> string" where
  "octet_digits b = (let lo = unat (b AND 0x0F); hi = unat (drop_bit 4 b AND 0x0F) in
     (if lo \<le> 9 then [digit_char lo] else []) @ (if hi \<le> 9 then [digit_char hi] else []))"

definition decodeBCDDigits :: "bytes \<Rightarrow> string" where
  "decodeBCDDigits data = concat (map octet_digits data)"

definition encodeBCDMSISDN :: "string \<Rightarrow> bytes" where
  "encodeBCDMSISDN msisdn =
     (let international = (case msisdn of c # _ \<Rightarrow> c = CHR ''+'' | [] \<Rightarrow> False);
          digits = encodeBCDDigits (if international then tl msisdn else msisdn)
      in byte_of (1 + length digits) # (if international then 0x91 else 0x81) # digits)"

text \<open>
  The first octet is a length when it is smaller than the number of octets, the next one the type
  of number when its high bit is set; either may be missing.
\<close>

definition decodeBCDMSISDN :: "bytes \<Rightarrow> string" where
  "decodeBCDMSISDN data =
     (case data of
        [] \<Rightarrow> []
      | l # rest \<Rightarrow>
          (let data' = (if l < byte_of (length data) then rest else data) in
           case data' of
             noa # digits \<Rightarrow>
               if noa AND 0x80 \<noteq> 0
               then (if drop_bit 4 noa AND 0x7 = 1 then CHR ''+'' # decodeBCDDigits digits else decodeBCDDigits digits)
               else decodeBCDDigits data'
           | [] \<Rightarrow> decodeBCDDigits []))"

definition isASCIIDigits :: "bytes \<Rightarrow> bool" where
  "isASCIIDigits data \<longleftrightarrow> list_all (\<lambda>b. 48 \<le> b \<and> b \<le> 57) data \<and> data \<noteq> []"

definition decodeSCAddress :: "bytes \<Rightarrow> string" where
  "decodeSCAddress data =
     (case data of
        [] \<Rightarrow> []
      | b # _ \<Rightarrow> if isASCIIDigits data then string_of_bytes data
          else if b < 0x80 then decodeBCDDigits data else decodeBCDMSISDN data)"

definition ascii_sc_address :: "string \<Rightarrow> bool" where
  "ascii_sc_address v \<longleftrightarrow> to_lower (trim_space v) = ''ascii_digits''"

definition encodeSCAddress :: "string \<Rightarrow> string \<Rightarrow> bytes" where
  "encodeSCAddress sc encoding =
     (let sc = trim_plus sc in if ascii_sc_address encoding then bytes_of_string sc else encodeBCDDigits sc)"

section \<open>Requests\<close>

text \<open>\<open>encodeForwardSM\<close> for a delivery to a terminal and for a submission to the centre.\<close>

definition EncodeOFR :: "gotime \<Rightarrow> message \<Rightarrow> string \<Rightarrow> string \<Rightarrow> avp list outcome" where
  "EncodeOFR now msg scAddr scAddrEncoding =
     obind (wrap_err ''sgd encode: tpdu'' (EncodeDeliver now msg)) (\<lambda>tpData.
       let d = msg_Destination msg in
       if addr_IMSI d = [] then Err ''sgd encode: destination IMSI required for MT''
       else Ok ([NewString CodeUserName 0 FlagMandatory (addr_IMSI d)] @
         (if addr_MMENumber d \<noteq> []
          then [NewOctetString CodeMMENumberForMTSMSServing Vendor3GPP 0xC0 (encodeBCDDigits (addr_MMENumber d))] else []) @
         [NewOctetString CodeSMRPUI Vendor3GPP 0xC0 tpData,
          NewOctetString CodeSCAddress Vendor3GPP 0xC0 (encodeSCAddress scAddr scAddrEncoding)]))"

definition EncodeTFR :: "message \<Rightarrow> string \<Rightarrow> string \<Rightarrow> avp list outcome" where
  "EncodeTFR msg scAddr scAddrEncoding =
     obind (wrap_err ''sgd encode: tpdu'' (EncodeSubmit msg)) (\<lambda>tpData.
       Ok ([NewOctetString CodeSMRPUI Vendor3GPP 0xC0 tpData,
            NewOctetString CodeSCAddress Vendor3GPP 0xC0 (encodeSCAddress scAddr scAddrEncoding)] @
         (if addr_MSISDN (msg_Destination msg) \<noteq> []
          then [NewOctetString CodeMSISDN Vendor3GPP 0xC0 (encodeBCDMSISDN (addr_MSISDN (msg_Destination msg)))] else [])))"

definition EncodeRSR :: "string \<Rightarrow> string \<Rightarrow> string \<Rightarrow> 32 word \<Rightarrow> avp list" where
  "EncodeRSR msisdn scAddr scAddrEncoding result =
     [NewOctetString CodeMSISDN Vendor3GPP 0xC0 (encodeBCDMSISDN msisdn),
      NewOctetString CodeSCAddress Vendor3GPP 0xC0 (encodeSCAddress scAddr scAddrEncoding),
      NewGrouped CodeSMDeliveryOutcome Vendor3GPP 0xC0 [NewUint32 CodeSMSGWDeliveryOutcome Vendor3GPP 0xC0 result]]"

fun sgd_identifier_child :: "string \<times> string \<Rightarrow> avp \<Rightarrow> string \<times> string" where
  "sgd_identifier_child (imsi, msisdn) child =
     (if avp_Code child = CodeUserName \<and> avp_VendorID child = 0 then (avp_String child, msisdn)
      else if avp_Code child = CodeMSISDN \<and> avp_VendorID child = Vendor3GPP
      then (imsi, decodeBCDMSISDN (avp_Data child))
      else (imsi, msisdn))"

definition sgd_parseUserIdentifier :: "dmsg \<Rightarrow> string \<times> string" where
  "sgd_parseUserIdentifier m =
     (case FindAVP m CodeUserIdentifier Vendor3GPP of
        None \<Rightarrow> ([], [])
      | Some uid \<Rightarrow>
          (case DecodeGrouped uid of
             Ok children \<Rightarrow> foldl sgd_identifier_child ([], []) children
           | _ \<Rightarrow> ([], [])))"

definition decodeUserIdentifier :: "dmsg \<Rightarrow> string \<times> string" where
  "decodeUserIdentifier m =
     (let (imsi, msisdn) = sgd_parseUserIdentifier m in
      (if imsi = [] then (case FindAVP m CodeUserName 0 of Some a \<Rightarrow> avp_String a | None \<Rightarrow> []) else imsi,
       if msisdn = [] then (case FindAVP m CodeMSISDN Vendor3GPP of Some a \<Rightarrow> decodeBCDMSISDN (avp_Data a) | None \<Rightarrow> [])
       else msisdn))"

definition decodeSMRPUI :: "gotime \<Rightarrow> dmsg \<Rightarrow> message outcome" where
  "decodeSMRPUI now m =
     (case FindAVP m CodeSMRPUI Vendor3GPP of
        None \<Rightarrow> Err ''sgd: SM-RP-UI AVP not found''
      | Some a \<Rightarrow>
          obind (wrap_err ''sgd: tpdu decode'' (Decode now (avp_Data a))) (\<lambda>msg.
            let (imsi, msisdn) = decodeUserIdentifier m; s = msg_Source msg; d = msg_Destination msg in
            Ok (msg\<lparr>msg_IngressInterface := InterfaceSGd,
              msg_Destination := d\<lparr>addr_IMSI := (if addr_IMSI d = [] then imsi else addr_IMSI d),
                addr_MSISDN := (if addr_MSISDN d = [] then msisdn else addr_MSISDN d)\<rparr>,
              msg_Source := s\<lparr>addr_MSISDN := (if addr_MSISDN s = [] then trim_plus msisdn else addr_MSISDN s)\<rparr>\<rparr>)))"

section \<open>Lemmas\<close>

lemma nibble_table:
  "\<forall>a \<in> set [0..<10]. \<forall>b \<in> set [0..<10].
     octet_digits (byte_of a OR push_bit 4 (byte_of b)) = [digit_char a, digit_char b] \<and>
     octet_digits (byte_of a OR 0xF0) = [digit_char a] \<and>
     ((byte_of a OR push_bit 4 (byte_of b)) AND 0x80 \<noteq> 0) = (8 \<le> b) \<and>
     (drop_bit 4 (byte_of a OR push_bit 4 (byte_of b)) AND 0x7 = 1) = (b = 1 \<or> b = 9)"
  by code_simp

lemma digit_octet_val: "is_digit c \<Longrightarrow> digit_octet c = byte_of (digit_val c)"
proof -
  assume "is_digit c"
  then have "(of_char c :: nat) = 48 + digit_val c" by (auto simp: is_digit_def digit_val_def)
  then have "(of_char c :: byte) = of_nat (48 + digit_val c)" by (metis of_nat_of_char)
  then show ?thesis by (simp add: digit_octet_def byte_of_def)
qed

lemma nibble_digits:
  assumes "is_digit c" "is_digit d"
  shows "octet_digits (digit_octet c OR push_bit 4 (digit_octet d)) = [c, d]"
    and "octet_digits (digit_octet c OR 0xF0) = [c]"
    and "(digit_octet c OR push_bit 4 (digit_octet d)) AND 0x80 \<noteq> 0 \<longleftrightarrow> 8 \<le> digit_val d"
    and "drop_bit 4 (digit_octet c OR push_bit 4 (digit_octet d)) AND 0x7 = 1 \<longleftrightarrow> digit_val d \<in> {1, 9}"
proof -
  have "digit_val c \<in> set [0..<10]" "digit_val d \<in> set [0..<10]"
    using digit_val_le [OF assms(1)] digit_val_le [OF assms(2)] by simp_all
  note t = nibble_table [rule_format, OF this]
  show "octet_digits (digit_octet c OR push_bit 4 (digit_octet d)) = [c, d]"
    using t assms by (simp only: digit_octet_val digit_char_val)
  show "octet_digits (digit_octet c OR 0xF0) = [c]"
    using t assms by (simp only: digit_octet_val digit_char_val)
  show "(digit_octet c OR push_bit 4 (digit_octet d)) AND 0x80 \<noteq> 0 \<longleftrightarrow> 8 \<le> digit_val d"
    using t assms by (simp only: digit_octet_val)
  show "drop_bit 4 (digit_octet c OR push_bit 4 (digit_octet d)) AND 0x7 = 1 \<longleftrightarrow> digit_val d \<in> {1, 9}"
    using t assms by (simp only: digit_octet_val) simp
qed

lemma decodeBCDDigits_simps [simp]:
  "decodeBCDDigits [] = []" "decodeBCDDigits (b # bs) = octet_digits b @ decodeBCDDigits bs"
  by (simp_all add: decodeBCDDigits_def)

lemma length_encodeBCDDigits [simp]: "length (encodeBCDDigits ds) = (length ds + 1) div 2"
  by (induction ds rule: encodeBCDDigits.induct) simp_all

lemma decode_encodeBCDDigits: "list_all is_digit ds \<Longrightarrow> decodeBCDDigits (encodeBCDDigits ds) = ds"
  by (induction ds rule: encodeBCDDigits.induct) (simp_all add: nibble_digits)

lemma byte_of_less: "n < 255 \<Longrightarrow> byte_of n < byte_of (Suc n)"
  by (simp add: word_less_nat_alt)

definition with_plus :: "bool \<Rightarrow> string \<Rightarrow> string" where
  "with_plus international ds = (if international then CHR ''+'' # ds else ds)"

lemma encodeBCDMSISDN_with_plus:
  "list_all is_digit ds \<Longrightarrow> encodeBCDMSISDN (with_plus i ds) =
     byte_of (1 + length (encodeBCDDigits ds)) # (if i then 0x91 else 0x81) # encodeBCDDigits ds"
  by (cases ds) (auto simp: encodeBCDMSISDN_def with_plus_def Let_def dest: is_digit_not_plus)

lemma decodeBCDMSISDN_length:
  "length digits < 254 \<Longrightarrow> decodeBCDMSISDN (byte_of (Suc (length digits)) # noa # digits) =
    (if noa AND 0x80 \<noteq> 0
     then (if drop_bit 4 noa AND 0x7 = 1 then CHR ''+'' # decodeBCDDigits digits else decodeBCDDigits digits)
     else decodeBCDDigits (noa # digits))"
  using byte_of_less [of "Suc (length digits)"] by (simp add: decodeBCDMSISDN_def)

lemma decode_encodeBCDMSISDN:
  assumes "list_all is_digit ds" "length ds \<le> 506"
  shows "decodeBCDMSISDN (encodeBCDMSISDN (with_plus i ds)) = with_plus i ds"
proof -
  have "length (encodeBCDDigits ds) < 254" using assms(2) by simp
  from decodeBCDMSISDN_length [OF this] show ?thesis using assms(1)
    by (simp add: encodeBCDMSISDN_with_plus decode_encodeBCDDigits del: length_encodeBCDDigits) (simp add: with_plus_def)
qed

lemma digit_8_9: "digit_char 8 = CHR ''8''" "digit_char 9 = CHR ''9''"
  by (simp_all add: digit_char_def char_of_def bit_Suc_0_iff)

lemma decodeBCDMSISDN_length_digits:
  assumes "list_all is_digit (a # b # ds)" "length ds \<le> 500"
  shows "decodeBCDMSISDN (byte_of (length (encodeBCDDigits (a # b # ds))) # encodeBCDDigits (a # b # ds)) =
    (if b = CHR ''8'' then ds else if b = CHR ''9'' then CHR ''+'' # ds else a # b # ds)"
proof -
  let ?o = "digit_octet a OR push_bit 4 (digit_octet b)"
  have d: "is_digit a" "is_digit b" "list_all is_digit ds" using assms(1) by simp_all
  have b: "b = CHR ''8'' \<longleftrightarrow> digit_val b = 8" "b = CHR ''9'' \<longleftrightarrow> digit_val b = 9"
    using digit_char_val [OF d(2)] digit_8_9 by (auto simp: digit_val_def)
  have le: "digit_val b \<le> 9" using d(2) by (rule digit_val_le)
  have "length (encodeBCDDigits ds) < 254" using assms(2) by simp
  from decodeBCDMSISDN_length [OF this, of ?o]
  have "decodeBCDMSISDN (byte_of (length (encodeBCDDigits (a # b # ds))) # encodeBCDDigits (a # b # ds)) =
     (if 8 \<le> digit_val b then (if digit_val b \<in> {1, 9} then CHR ''+'' # ds else ds) else a # b # ds)"
    by (simp only: encodeBCDDigits.simps list.size nibble_digits(1,3,4) [OF d(1,2)] decodeBCDDigits_simps
        decode_encodeBCDDigits [OF d(3)] append.simps add_Suc_right add_0_right One_nat_def)
  then show ?thesis using le b by auto
qed

section \<open>Properties\<close>

text \<open>
  A number of up to 506 digits, international or national, is read back from its encoding with
  the length and the type of number.
\<close>

theorem sgd_msisdn_roundtrip:
  assumes "list_all is_digit ds" "length ds \<le> 506"
  shows "decodeBCDMSISDN (encodeBCDMSISDN (with_plus i ds)) = with_plus i ds"
  using assms by (rule decode_encodeBCDMSISDN)

theorem sgd_msisdn_roundtrip_witness:
  "decodeBCDMSISDN (encodeBCDMSISDN (with_plus True ''3342012832'')) = with_plus True ''3342012832''"
  by (rule sgd_msisdn_roundtrip) (simp_all add: is_digit_def)

text \<open>
  The form with a length but no type of number is not told apart from the others: a number whose
  second digit is 8 loses its first two digits, and one whose second digit is 9 has them replaced
  by a plus sign.
\<close>

theorem sgd_msisdn_length_form:
  assumes "list_all is_digit (a # b # ds)" "length ds \<le> 500"
  shows "decodeBCDMSISDN (byte_of (length (encodeBCDDigits (a # b # ds))) # encodeBCDDigits (a # b # ds)) =
    (if b = CHR ''8'' then ds else if b = CHR ''9'' then CHR ''+'' # ds else a # b # ds)"
  using assms by (rule decodeBCDMSISDN_length_digits)

theorem sgd_msisdn_length_form_witness:
  "decodeBCDMSISDN (byte_of (length (encodeBCDDigits ''48501234567'')) # encodeBCDDigits ''48501234567'') = ''501234567''"
  using sgd_msisdn_length_form [of "CHR ''4''" "CHR ''8''" "''501234567''"] by (simp add: is_digit_def)

text \<open>What the answer to a request says of the identities of the sender.\<close>

definition sgd_received :: "message \<Rightarrow> string \<times> string \<Rightarrow> message" where
  "sgd_received m ids = (let (imsi, msisdn) = ids; s = msg_Source m; d = msg_Destination m in
     m\<lparr>msg_IngressInterface := InterfaceSGd,
       msg_Destination := d\<lparr>addr_IMSI := (if addr_IMSI d = [] then imsi else addr_IMSI d),
         addr_MSISDN := (if addr_MSISDN d = [] then msisdn else addr_MSISDN d)\<rparr>,
       msg_Source := s\<lparr>addr_MSISDN := (if addr_MSISDN s = [] then trim_plus msisdn else addr_MSISDN s)\<rparr>\<rparr>)"

lemma decodeSMRPUI_simps:
  "FindAVP req CodeSMRPUI Vendor3GPP = Some a \<Longrightarrow> Decode now (avp_Data a) = Ok m \<Longrightarrow>
    decodeSMRPUI now req = Ok (sgd_received m (decodeUserIdentifier req))"
  by (simp add: decodeSMRPUI_def sgd_received_def case_prod_beta Let_def)

lemma no_panic_decodeSMRPUI: "no_panic (decodeSMRPUI now req)"
  by (auto simp: decodeSMRPUI_def case_prod_beta Let_def no_panic_Decode intro!: no_panic_obind split: option.splits)

text \<open>The identities of a \<open>User-Identifier\<close> with both of them.\<close>

definition user_identifier :: "string \<Rightarrow> string \<Rightarrow> avp" where
  "user_identifier imsi msisdn = NewGrouped CodeUserIdentifier Vendor3GPP 0xC0
     [NewString CodeUserName 0 FlagMandatory imsi,
      NewOctetString CodeMSISDN Vendor3GPP 0xC0 (encodeBCDMSISDN msisdn)]"

lemma avp_fields [simp]:
  "avp_Code (avp_mk c v f d) = c" "avp_VendorID (avp_mk c v f d) = v" "avp_Data (avp_mk c v f d) = d"
  "avp_Code (avp_wire a) = avp_Code a" "avp_VendorID (avp_wire a) = avp_VendorID a" "avp_Data (avp_wire a) = avp_Data a"
  by (simp_all add: avp_mk_def avp_wire_def)

lemma decodeUserIdentifier_built:
  assumes "FindAVP req CodeUserIdentifier Vendor3GPP = Some (user_identifier imsi (with_plus i ds))"
    and "list_all is_digit ds" "length ds \<le> 506" "length imsi \<le> 15" "imsi \<noteq> []" "ds \<noteq> []"
  shows "decodeUserIdentifier req = (imsi, with_plus i ds)"
proof -
  let ?cs = "[NewString CodeUserName 0 FlagMandatory imsi,
    NewOctetString CodeMSISDN Vendor3GPP 0xC0 (encodeBCDMSISDN (with_plus i ds))]"
  have "length (encodeBCDMSISDN (with_plus i ds)) \<le> 256"
    using assms(3) by (simp add: encodeBCDMSISDN_with_plus [OF assms(2)])
  then have "list_all avp_wf ?cs"
    using assms(4) by (simp add: avp_wf_def avp_hdrSize_def NewString_def NewOctetString_def)
  from DecodeGrouped_NewGrouped [OF this]
  have "sgd_parseUserIdentifier req = (imsi, with_plus i ds)"
    by (simp add: sgd_parseUserIdentifier_def assms(1) user_identifier_def NewString_def NewOctetString_def
        avp_String_def decode_encodeBCDMSISDN [OF assms(2,3)])
  then show ?thesis using assms(5,6) by (simp add: decodeUserIdentifier_def with_plus_def)
qed

lemma trim_plus_with_plus: "list_all is_digit ds \<Longrightarrow> trim_plus (with_plus i ds) = ds"
  by (cases ds) (auto simp: with_plus_def dest: is_digit_not_plus)

text \<open>
  A message a terminal submits is read from the request with the terminal's number, without a
  plus sign, as its source. The terminal's own IMSI becomes the IMSI of the destination.
\<close>

theorem sgd_submit_received:
  assumes "bcd_address (msg_Destination m)" "wf_payload m" "wf_udh m"
    and "EncodeSubmit m = Ok pdu"
    and "FindAVP req CodeSMRPUI Vendor3GPP = Some (NewOctetString CodeSMRPUI Vendor3GPP 0xC0 pdu)"
    and "FindAVP req CodeUserIdentifier Vendor3GPP = Some (user_identifier imsi (with_plus i ds))"
    and "list_all is_digit ds" "length ds \<le> 506" "length imsi \<le> 15" "imsi \<noteq> []" "ds \<noteq> []"
  shows "decodeSMRPUI now req = Ok (sgd_received (wire_submit m now) (imsi, with_plus i ds)) \<and>
    addr_MSISDN (msg_Source (sgd_received (wire_submit m now) (imsi, with_plus i ds))) = ds \<and>
    addr_IMSI (msg_Destination (sgd_received (wire_submit m now) (imsi, with_plus i ds))) = imsi"
proof -
  obtain pdu' where e: "EncodeSubmit m = Ok pdu'" and d: "Decode now pdu' = Ok (wire_submit m now)"
    using Decode_EncodeSubmit [OF assms(1-3)] .
  have p: "pdu' = pdu" using e assms(4) by simp
  have "decodeSMRPUI now req = Ok (sgd_received (wire_submit m now) (decodeUserIdentifier req))"
    by (rule decodeSMRPUI_simps [OF assms(5)]) (use d p in \<open>simp add: NewOctetString_def\<close>)
  moreover have "addr_MSISDN (msg_Source (wire_submit m now)) = []"
    by (simp add: wire_submit_def wire_payload_def empty_message_def empty_address_def)
  moreover have "addr_IMSI (msg_Destination (wire_submit m now)) = []"
    by (simp add: wire_submit_def wire_address_def empty_address_def)
  ultimately show ?thesis
    by (simp add: decodeUserIdentifier_built [OF assms(6-11)] sgd_received_def Let_def trim_plus_with_plus [OF assms(7)])
qed

lemma EncodeOFR_decodes:
  assumes "bcd_address (msg_Source m)" "wf_payload m" "wf_udh m" "msg_Timestamp m = Some t" "scts_time t"
  shows "\<exists>avps. EncodeOFR now m sc enc =
        (if addr_IMSI (msg_Destination m) = [] then Err ''sgd encode: destination IMSI required for MT'' else Ok avps) \<and>
      hd avps = NewString CodeUserName 0 FlagMandatory (addr_IMSI (msg_Destination m)) \<and>
      decodeSMRPUI now' \<lparr>dm_Header = h, dm_AVPs = avps\<rparr> =
        Ok (sgd_received (wire_deliver m t) (addr_IMSI (msg_Destination m), []))"
proof -
  obtain pdu where e: "EncodeDeliver now m = Ok pdu" and d: "Decode now' pdu = Ok (wire_deliver m t)"
    using Decode_EncodeDeliver [OF assms] .
  let ?avps = "[NewString CodeUserName 0 FlagMandatory (addr_IMSI (msg_Destination m))] @
    (if addr_MMENumber (msg_Destination m) \<noteq> []
     then [NewOctetString CodeMMENumberForMTSMSServing Vendor3GPP 0xC0 (encodeBCDDigits (addr_MMENumber (msg_Destination m)))]
     else []) @
    [NewOctetString CodeSMRPUI Vendor3GPP 0xC0 pdu, NewOctetString CodeSCAddress Vendor3GPP 0xC0 (encodeSCAddress sc enc)]"
  have "decodeSMRPUI now' \<lparr>dm_Header = h, dm_AVPs = ?avps\<rparr> =
        Ok (sgd_received (wire_deliver m t) (addr_IMSI (msg_Destination m), []))"
    by (simp add: d Let_def decodeSMRPUI_def sgd_received_def FindAVP_def NewString_def
        NewOctetString_def avp_String_def decodeUserIdentifier_def sgd_parseUserIdentifier_def)
  moreover have "EncodeOFR now m sc enc =
        (if addr_IMSI (msg_Destination m) = [] then Err ''sgd encode: destination IMSI required for MT'' else Ok ?avps)"
    by (simp add: EncodeOFR_def e Let_def)
  ultimately show ?thesis by (intro exI [of _ ?avps]) simp
qed

definition example_forward :: message where
  "example_forward = sample_message\<lparr>msg_Destination := empty_address\<lparr>addr_IMSI := ''001010000000001''\<rparr>\<rparr>"

lemma example_forward_wf:
  "bcd_address (msg_Source example_forward)" "wf_payload example_forward" "wf_udh example_forward"
  "msg_Timestamp example_forward = Some (go_date 2024 2 29 23 59 58 (- 18000))"
  "scts_time (go_date 2024 2 29 23 59 58 (- 18000))" "addr_IMSI (msg_Destination example_forward) = ''001010000000001''"
  using sample_message_wf
  by (simp_all add: example_forward_def wf_payload_def wf_udh_def sample_message_def empty_message_def dcsForEgress_def
      encodeUD_def encodeUDH_def Let_def)

lemma example_forward_encodes: "\<exists>avps. EncodeOFR now example_forward sc enc = Ok avps"
  using EncodeOFR_decodes [OF example_forward_wf(1-5), of now sc enc] example_forward_wf(6) by auto

text \<open>
  A forward request to a terminal names it by its IMSI and carries a delivery that reads back
  as the message; without an IMSI there is no request.
\<close>

theorem sgd_forward_request:
  assumes "bcd_address (msg_Source m)" "wf_payload m" "wf_udh m" "msg_Timestamp m = Some t" "scts_time t"
  shows "\<exists>avps. EncodeOFR now m sc enc =
        (if addr_IMSI (msg_Destination m) = [] then Err ''sgd encode: destination IMSI required for MT'' else Ok avps) \<and>
      hd avps = NewString CodeUserName 0 FlagMandatory (addr_IMSI (msg_Destination m)) \<and>
      decodeSMRPUI now' \<lparr>dm_Header = h, dm_AVPs = avps\<rparr> =
        Ok (sgd_received (wire_deliver m t) (addr_IMSI (msg_Destination m), []))"
  using assms by (rule EncodeOFR_decodes)

theorem sgd_forward_request_witness:
  "\<exists>avps. EncodeOFR (go_date 2025 1 1 0 0 0 0) example_forward ''15550000000'' ''tbcd'' = Ok avps \<and>
    hd avps = NewString CodeUserName 0 FlagMandatory ''001010000000001''"
  using sgd_forward_request [OF example_forward_wf(1-5), of "go_date 2025 1 1 0 0 0 0" "''15550000000''" "''tbcd''"]
    example_forward_wf(6) by auto

text \<open>A request that carries a submission and the identities.\<close>

definition submit_request :: "bytes \<Rightarrow> string \<Rightarrow> string \<Rightarrow> dmsg" where
  "submit_request pdu imsi msisdn = \<lparr>dm_Header = \<lparr>dh_Version = 1, dh_Length = 0, dh_Flags = 0xC0, dh_CommandCode = 8388645,
     dh_AppID = 16777313, dh_HopByHop = 7, dh_EndToEnd = 9\<rparr>,
     dm_AVPs = [NewString 263 0 FlagMandatory ''mme;1;1'', user_identifier imsi msisdn,
       NewOctetString CodeSMRPUI Vendor3GPP 0xC0 pdu]\<rparr>"

lemma submit_request_finds:
  "FindAVP (submit_request pdu imsi msisdn) CodeSMRPUI Vendor3GPP = Some (NewOctetString CodeSMRPUI Vendor3GPP 0xC0 pdu)"
  "FindAVP (submit_request pdu imsi msisdn) CodeUserIdentifier Vendor3GPP = Some (user_identifier imsi msisdn)"
  "FindAVP (submit_request pdu imsi msisdn) 263 0 = Some (NewString 263 0 FlagMandatory ''mme;1;1'')"
  by (simp_all add: submit_request_def FindAVP_def NewString_def NewOctetString_def user_identifier_def NewGrouped_def)

theorem sgd_submit_received_witness:
  "\<exists>pdu. EncodeSubmit sample_message = Ok pdu \<and>
    decodeSMRPUI (go_date 2025 1 1 0 0 0 0) (submit_request pdu ''001010000000001'' (with_plus True ''3342012832'')) =
      Ok (sgd_received (wire_submit sample_message (go_date 2025 1 1 0 0 0 0)) (''001010000000001'', with_plus True ''3342012832''))"
proof -
  obtain pdu where e: "EncodeSubmit sample_message = Ok pdu"
    using Decode_EncodeSubmit [OF sample_message_wf(2-4)] by metis
  have "decodeSMRPUI (go_date 2025 1 1 0 0 0 0) (submit_request pdu ''001010000000001'' (with_plus True ''3342012832'')) =
      Ok (sgd_received (wire_submit sample_message (go_date 2025 1 1 0 0 0 0)) (''001010000000001'', with_plus True ''3342012832''))"
    using sgd_submit_received [OF sample_message_wf(2-4) e submit_request_finds(1,2)] by (simp add: is_digit_def)
  then show ?thesis using e by blast
qed

end
