(* ===== verification/DiamPeer.thy ===== *)
theory DiamPeer
  imports S6cCodec
begin

text \<open>
  A Diameter peer connection (\<open>internal/diameter/peer.go\<close>): the messages of the base protocol it
  builds and answers, the state its goroutines share, and a session as a transition system whose
  rules are the actions of the reader, the writer, the watchdog and the session itself.
\<close>

section \<open>Configuration and the base protocol\<close>

abbreviation CmdCapabilitiesExchange :: nat where "CmdCapabilitiesExchange \<equiv> 257"
abbreviation CmdDeviceWatchdog :: nat where "CmdDeviceWatchdog \<equiv> 280"
abbreviation CmdDisconnectPeer :: nat where "CmdDisconnectPeer \<equiv> 282"
abbreviation AppDiameterCommon :: "32 word" where "AppDiameterCommon \<equiv> 0"

abbreviation CodeHostIPAddress :: "32 word" where "CodeHostIPAddress \<equiv> 257"
abbreviation CodeAuthApplicationID :: "32 word" where "CodeAuthApplicationID \<equiv> 258"
abbreviation CodeVendorSpecificApplicationID :: "32 word" where "CodeVendorSpecificApplicationID \<equiv> 260"
abbreviation CodeOriginHost :: "32 word" where "CodeOriginHost \<equiv> 264"
abbreviation CodeSupportedVendorID :: "32 word" where "CodeSupportedVendorID \<equiv> 265"
abbreviation CodeVendorID :: "32 word" where "CodeVendorID \<equiv> 266"
abbreviation CodeFirmwareRevision :: "32 word" where "CodeFirmwareRevision \<equiv> 267"
abbreviation CodeResultCode :: "32 word" where "CodeResultCode \<equiv> 268"
abbreviation CodeProductName :: "32 word" where "CodeProductName \<equiv> 269"
abbreviation CodeDisconnectCause :: "32 word" where "CodeDisconnectCause \<equiv> 273"
abbreviation CodeOriginStateID :: "32 word" where "CodeOriginStateID \<equiv> 278"
abbreviation CodeOriginRealm :: "32 word" where "CodeOriginRealm \<equiv> 296"

text \<open>The local side; \<open>pc_OriginStateID\<close> is drawn once per process, \<open>pc_HostIPs\<close> are the addresses of the connection.\<close>

record peer_cfg =
  pc_Name :: string
  pc_AppID :: "32 word"
  pc_AppIDs :: "32 word list"
  pc_LocalFQDN :: string
  pc_LocalRealm :: string
  pc_OriginStateID :: "32 word"
  pc_HostIPs :: "bytes list"

text \<open>An address of four octets, or of sixteen that map one of four.\<close>

definition ip_to4 :: "bytes \<Rightarrow> bytes option" where
  "ip_to4 ip = (if length ip = 4 then Some ip
     else if length ip = 16 \<and> take 12 ip = replicate 10 0 @ [0xff, 0xff] then Some (drop 12 ip) else None)"

definition NewAddress :: "32 word \<Rightarrow> 32 word \<Rightarrow> byte \<Rightarrow> bytes \<Rightarrow> avp" where
  "NewAddress code vendorID flags ip = avp_mk code vendorID flags
     (case ip_to4 ip of
        Some ip4 \<Rightarrow> put16 1 @ ip4
      | None \<Rightarrow> put16 2 @ (if length ip = 16 then ip else replicate 16 0))"

fun add_app_ids :: "32 word list \<Rightarrow> 32 word list \<Rightarrow> 32 word list" where
  "add_app_ids seen [] = seen"
| "add_app_ids seen (a # as) = (if a = 0 \<or> a \<in> set seen then add_app_ids seen as else add_app_ids (seen @ [a]) as)"

definition advertisedAppIDs :: "peer_cfg \<Rightarrow> 32 word list" where
  "advertisedAppIDs cfg = add_app_ids (if pc_AppID cfg \<noteq> 0 then [pc_AppID cfg] else []) (pc_AppIDs cfg)"

definition application_avps :: "32 word list \<Rightarrow> avp list" where
  "application_avps appIDs =
     (if appIDs \<noteq> [] then NewUint32 CodeSupportedVendorID 0 FlagMandatory Vendor3GPP #
        map (\<lambda>a. NewGrouped CodeVendorSpecificApplicationID 0 FlagMandatory
          [NewUint32 CodeVendorID 0 FlagMandatory Vendor3GPP, NewUint32 CodeAuthApplicationID 0 FlagMandatory a]) appIDs
      else [NewUint32 CodeAuthApplicationID 0 FlagMandatory 0])"

definition origin_avps :: "peer_cfg \<Rightarrow> avp list" where
  "origin_avps cfg = [NewString CodeOriginHost 0 FlagMandatory (pc_LocalFQDN cfg),
     NewString CodeOriginRealm 0 FlagMandatory (pc_LocalRealm cfg)]"

definition cer_message :: "peer_cfg \<Rightarrow> id_state \<Rightarrow> dmsg \<times> id_state" where
  "cer_message cfg g =
     (let (req, g) = NewRequest CmdCapabilitiesExchange AppDiameterCommon g in
      (Add_AVPs (origin_avps cfg @
         [NewUint32 CodeOriginStateID 0 FlagMandatory (pc_OriginStateID cfg), NewUint32 CodeVendorID 0 FlagMandatory 0,
          NewString CodeProductName 0 0 ''VectorCore SMSC'', NewUint32 CodeFirmwareRevision 0 0 1] @
         map (NewAddress CodeHostIPAddress 0 FlagMandatory) (pc_HostIPs cfg) @
         application_avps (advertisedAppIDs cfg)) (NonProxiable req), g))"

definition dwr_message :: "peer_cfg \<Rightarrow> id_state \<Rightarrow> dmsg \<times> id_state" where
  "dwr_message cfg g =
     (let (req, g) = NewRequest CmdDeviceWatchdog AppDiameterCommon g in
      (Add_AVPs (origin_avps cfg @ [NewUint32 CodeOriginStateID 0 FlagMandatory (pc_OriginStateID cfg)])
         (NonProxiable req), g))"

definition dpr_message :: "peer_cfg \<Rightarrow> id_state \<Rightarrow> dmsg \<times> id_state" where
  "dpr_message cfg g =
     (let (req, g) = NewRequest CmdDisconnectPeer AppDiameterCommon g in
      (Add_AVPs (origin_avps cfg @ [NewUint32 CodeDisconnectCause 0 FlagMandatory 0]) (NonProxiable req), g))"

definition success_answer :: "peer_cfg \<Rightarrow> dmsg \<Rightarrow> dmsg" where
  "success_answer cfg req = Add_AVPs (NewUint32 CodeResultCode 0 FlagMandatory DiameterSuccess # origin_avps cfg)
     (NonProxiable (NewAnswer req))"

definition cea_message :: "peer_cfg \<Rightarrow> dmsg \<Rightarrow> dmsg" where
  "cea_message cfg req = Add_AVPs (NewUint32 CodeOriginStateID 0 FlagMandatory (pc_OriginStateID cfg) #
     application_avps (advertisedAppIDs cfg)) (success_answer cfg req)"

section \<open>What the goroutines share\<close>

datatype peer_state = StateClosed | StateWaitCEA | StateOpen | StateClosing

text \<open>What the capability exchange reports on its channel: \<open>nil\<close> or an error.\<close>

datatype exchange = Granted | Refused string

datatype peer_event =
    Wrote dmsg
  | Got dmsg
  | ClosedConn
  | FiredOpen
  | FiredMessage dmsg

text \<open>
  The reader is about to look whether to stop, or waits for a message, or waits for room in the
  channel of the capability exchange, or has returned. The two signal channels and that of the
  capability exchange hold one value, the queue of the writer sixty-four.
\<close>

datatype reader = Looking | Reading | Stuck exchange | Returned

datatype phase = Exchanging | Opening | Running | Disconnecting | Ended

record peer =
  pe_inbound :: bool
  pe_state :: peer_state
  pe_stopped :: bool
  pe_writeCh :: "dmsg list"
  pe_ceaCh :: "exchange list"
  pe_dprDone :: bool
  pe_wdReply :: bool
  pe_RemoteFQDN :: string
  pe_RemoteRealm :: string
  pe_connOpen :: bool
  pe_phase :: phase
  pe_cerSent :: bool
  pe_reader :: reader
  pe_writing :: bool
  pe_readErr :: bool
  pe_writeErr :: bool
  pe_lingering :: "exchange option"
  pe_log :: "peer_event list"

definition note_event :: "peer_event \<Rightarrow> peer \<Rightarrow> peer" where
  "note_event e p = p\<lparr>pe_log := pe_log p @ [e]\<rparr>"

text \<open>A write to the connection: it fails when the connection is closed, or as \<open>ok\<close> says.\<close>

definition conn_write :: "bool \<Rightarrow> dmsg \<Rightarrow> peer \<Rightarrow> bool \<times> peer" where
  "conn_write ok m p = (if ok \<and> pe_connOpen p then (True, note_event (Wrote m) p) else (False, p))"

definition conn_close :: "peer \<Rightarrow> peer" where
  "conn_close p = (if pe_connOpen p then note_event ClosedConn (p\<lparr>pe_connOpen := False\<rparr>) else p)"

text \<open>\<open>Send\<close> refuses a message unless the peer is open and the queue has room.\<close>

definition peer_Send :: "dmsg \<Rightarrow> peer \<Rightarrow> bool \<times> peer" where
  "peer_Send m p = (if pe_state p \<noteq> StateOpen then (False, p)
     else if length (pe_writeCh p) < 64 then (True, p\<lparr>pe_writeCh := pe_writeCh p @ [m]\<rparr>) else (False, p))"

definition peer_Stop :: "peer \<Rightarrow> peer" where
  "peer_Stop p = p\<lparr>pe_stopped := True\<rparr>"

section \<open>Dispatching a received message\<close>

definition origin_of :: "dmsg \<Rightarrow> 32 word \<Rightarrow> string \<Rightarrow> string" where
  "origin_of msg code old = (case FindAVP msg code 0 of Some a \<Rightarrow> avp_String a | None \<Rightarrow> old)"

definition extractPeerCaps :: "dmsg \<Rightarrow> peer \<Rightarrow> peer" where
  "extractPeerCaps msg p = p\<lparr>pe_RemoteFQDN := origin_of msg CodeOriginHost (pe_RemoteFQDN p),
     pe_RemoteRealm := origin_of msg CodeOriginRealm (pe_RemoteRealm p)\<rparr>"

text \<open>Reporting the exchange blocks the reader while a report nobody has taken is in the channel.\<close>

definition report_exchange :: "exchange \<Rightarrow> peer \<Rightarrow> peer" where
  "report_exchange x p = (if pe_ceaCh p = [] then p\<lparr>pe_ceaCh := [x], pe_reader := Looking\<rparr> else p\<lparr>pe_reader := Stuck x\<rparr>)"

definition handleCER :: "peer_cfg \<Rightarrow> bool \<Rightarrow> dmsg \<Rightarrow> peer \<Rightarrow> peer" where
  "handleCER cfg ok req p =
     (let (done, p) = conn_write ok (cea_message cfg req) (extractPeerCaps req p)
      in report_exchange (if done then Granted else Refused ''write CEA'') p)"

definition cea_succeeds :: "dmsg \<Rightarrow> bool" where
  "cea_succeeds cea \<longleftrightarrow> (case FindAVP cea CodeResultCode 0 of
     Some a \<Rightarrow> avp_Uint32 a = Ok DiameterSuccess | None \<Rightarrow> False)"

definition handleCEA :: "dmsg \<Rightarrow> peer \<Rightarrow> peer" where
  "handleCEA cea p =
     (case FindAVP cea CodeResultCode 0 of
        None \<Rightarrow> report_exchange (Refused ''CEA missing Result-Code'') p
      | Some a \<Rightarrow>
          if avp_Uint32 a \<noteq> Ok DiameterSuccess
          then report_exchange (Refused (''CEA result '' @
            decimal (case avp_Uint32 a of Ok rc \<Rightarrow> unat rc | _ \<Rightarrow> 0))) p
          else report_exchange Granted (extractPeerCaps cea p))"

definition handleDWR :: "peer_cfg \<Rightarrow> bool \<Rightarrow> dmsg \<Rightarrow> peer \<Rightarrow> peer" where
  "handleDWR cfg ok req p = snd (conn_write ok (success_answer cfg req) p)"

definition handleDPR :: "peer_cfg \<Rightarrow> bool \<Rightarrow> dmsg \<Rightarrow> peer \<Rightarrow> peer" where
  "handleDPR cfg ok req p = conn_close (snd (conn_write ok (success_answer cfg req) p))"

definition peer_dispatch :: "peer_cfg \<Rightarrow> bool \<Rightarrow> dmsg \<Rightarrow> peer \<Rightarrow> peer" where
  "peer_dispatch cfg ok msg p =
     (let cmd = dh_CommandCode (dm_Header msg); isReq = IsRequest msg; p = p\<lparr>pe_reader := Looking\<rparr> in
      if cmd = CmdCapabilitiesExchange then (if isReq then handleCER cfg ok msg p else handleCEA msg p)
      else if cmd = CmdDeviceWatchdog then (if isReq then handleDWR cfg ok msg p else p\<lparr>pe_wdReply := True\<rparr>)
      else if cmd = CmdDisconnectPeer then (if isReq then handleDPR cfg ok msg p else p\<lparr>pe_dprDone := True\<rparr>)
      else if pe_state p = StateOpen then note_event (FiredMessage msg) p
      else p)"


section \<open>A session\<close>

text \<open>
  The start of a session: the channels of the exchange and of the watchdog are drained, the queue
  is kept. A reader of the session before that is still stuck lingers, waiting for room in the
  channel.
\<close>

definition start_session :: "peer \<Rightarrow> peer" where
  "start_session p = p\<lparr>pe_state := StateWaitCEA, pe_ceaCh := [], pe_wdReply := False, pe_connOpen := True,
     pe_phase := Exchanging, pe_cerSent := False, pe_reader := Looking, pe_writing := True, pe_readErr := False,
     pe_writeErr := False, pe_lingering := (case pe_reader p of Stuck x \<Rightarrow> Some x | _ \<Rightarrow> pe_lingering p), pe_log := []\<rparr>"

definition end_session :: "peer \<Rightarrow> peer" where
  "end_session p = (conn_close p)\<lparr>pe_phase := Ended\<rparr>"

text \<open>The exchange may be answered once the own request is out, or on an inbound connection at once.\<close>

definition awaiting :: "peer \<Rightarrow> bool" where
  "awaiting p \<longleftrightarrow> pe_phase p = Exchanging \<and> (pe_inbound p \<or> pe_cerSent p)"

text \<open>The reader: \<open>readLoop\<close>, with the wait for room in the channel.\<close>

inductive reader_step :: "peer_cfg \<Rightarrow> peer \<Rightarrow> peer \<Rightarrow> bool" for cfg where
  reader_looks: "pe_reader p = Looking \<Longrightarrow>
    reader_step cfg p (p\<lparr>pe_reader := (if pe_stopped p then Returned else Reading)\<rparr>)"
| reader_gets: "pe_reader p = Reading \<Longrightarrow> pe_connOpen p \<Longrightarrow>
    reader_step cfg p (peer_dispatch cfg ok msg (note_event (Got msg) p))"
| reader_fails: "pe_reader p = Reading \<Longrightarrow> reader_step cfg p (p\<lparr>pe_reader := Returned, pe_readErr := True\<rparr>)"
| reader_released: "pe_reader p = Stuck x \<Longrightarrow> pe_ceaCh p = [] \<Longrightarrow>
    reader_step cfg p (p\<lparr>pe_ceaCh := [x], pe_reader := Looking\<rparr>)"

text \<open>The writer: \<open>writeLoop\<close>. A message it has taken and cannot write is lost.\<close>

inductive writer_step :: "peer \<Rightarrow> peer \<Rightarrow> bool" where
  writer_sends: "pe_writing p \<Longrightarrow> pe_writeCh p = m # ms \<Longrightarrow> conn_write ok m (p\<lparr>pe_writeCh := ms\<rparr>) = (done, p') \<Longrightarrow>
    writer_step p (if done then p' else p'\<lparr>pe_writing := False, pe_writeErr := True\<rparr>)"
| writer_returns: "pe_writing p \<Longrightarrow> pe_stopped p \<or> pe_phase p = Ended \<Longrightarrow> writer_step p (p\<lparr>pe_writing := False\<rparr>)"

text \<open>
  The session itself: \<open>runSession\<close> and \<open>runInboundSession\<close>. Waiting for the exchange ends with its
  report, an error of the reader, a timeout or a stop.
\<close>

inductive session_step :: "peer_cfg \<Rightarrow> peer \<Rightarrow> peer \<Rightarrow> bool" for cfg where
  sends_CER: "pe_phase p = Exchanging \<Longrightarrow> \<not> pe_inbound p \<Longrightarrow> \<not> pe_cerSent p \<Longrightarrow>
    conn_write ok (fst (cer_message cfg g)) p = (done, p') \<Longrightarrow>
    session_step cfg p (if done then p'\<lparr>pe_cerSent := True\<rparr> else end_session p')"
| exchange_granted: "awaiting p \<Longrightarrow> pe_ceaCh p = Granted # xs \<Longrightarrow>
    session_step cfg p (p\<lparr>pe_ceaCh := xs, pe_state := StateOpen, pe_phase := Opening\<rparr>)"
| exchange_refused: "awaiting p \<Longrightarrow> pe_ceaCh p = Refused e # xs \<Longrightarrow>
    session_step cfg p (end_session (p\<lparr>pe_ceaCh := xs\<rparr>))"
| exchange_fails: "awaiting p \<Longrightarrow> session_step cfg p (end_session p)"
| fires_open: "pe_phase p = Opening \<Longrightarrow> session_step cfg p (note_event FiredOpen (p\<lparr>pe_phase := Running\<rparr>))"
| session_stops: "pe_phase p = Running \<Longrightarrow> pe_stopped p \<Longrightarrow>
    session_step cfg p (snd (conn_write ok (fst (dpr_message cfg g)) (p\<lparr>pe_state := StateClosing, pe_phase := Disconnecting\<rparr>)))"
| session_fails: "pe_phase p = Running \<Longrightarrow> pe_readErr p \<or> pe_writeErr p \<Longrightarrow> session_step cfg p (end_session p)"
| session_disconnects: "pe_phase p = Disconnecting \<Longrightarrow> pe_dprDone p \<Longrightarrow>
    session_step cfg p (end_session (p\<lparr>pe_dprDone := False\<rparr>))"
| session_gives_up: "pe_phase p = Disconnecting \<Longrightarrow> session_step cfg p (end_session p)"
| session_closed: "pe_phase p = Ended \<Longrightarrow> session_step cfg p (p\<lparr>pe_state := StateClosed\<rparr>)"

text \<open>
  All of them, with the watchdog (when it acts is the subject of a section below), the callers of
  \<open>Send\<close> and \<open>Stop\<close>, and a lingering reader.
\<close>

inductive peer_step :: "peer_cfg \<Rightarrow> peer \<Rightarrow> peer \<Rightarrow> bool" for cfg where
  reader_acts: "reader_step cfg p p' \<Longrightarrow> peer_step cfg p p'"
| writer_acts: "writer_step p p' \<Longrightarrow> peer_step cfg p p'"
| session_acts: "session_step cfg p p' \<Longrightarrow> peer_step cfg p p'"
| lingering_released: "pe_lingering p = Some x \<Longrightarrow> pe_ceaCh p = [] \<Longrightarrow>
    peer_step cfg p (p\<lparr>pe_ceaCh := [x], pe_lingering := None\<rparr>)"
| watchdog_probes: "pe_phase p \<in> {Running, Disconnecting} \<Longrightarrow> peer_step cfg p (snd (conn_write ok (fst (dwr_message cfg g)) p))"
| watchdog_hears: "pe_phase p \<in> {Running, Disconnecting} \<Longrightarrow> peer_step cfg p (p\<lparr>pe_wdReply := False\<rparr>)"
| watchdog_closes: "pe_phase p \<in> {Running, Disconnecting} \<Longrightarrow> peer_step cfg p (conn_close p)"
| peer_sends: "peer_step cfg p (snd (peer_Send m p))"
| peer_stops: "peer_step cfg p (peer_Stop p)"

inductive_cases reader_stepE: "reader_step cfg p p'"
inductive_cases writer_stepE: "writer_step p p'"
inductive_cases session_stepE: "session_step cfg p p'"
inductive_cases peer_stepE: "peer_step cfg p p'"

lemmas goroutineE = reader_stepE writer_stepE session_stepE

section \<open>Nothing before the exchange\<close>

definition evidence :: "peer_event list \<Rightarrow> bool" where
  "evidence log \<longleftrightarrow> (\<exists>msg. Got msg \<in> set log \<and> dh_CommandCode (dm_Header msg) = CmdCapabilitiesExchange \<and>
     (IsRequest msg \<or> cea_succeeds msg))"

definition in_order :: "peer_event list \<Rightarrow> bool" where
  "in_order log \<longleftrightarrow> (\<forall>pre m post. log = pre @ FiredMessage m # post \<longrightarrow> evidence pre)"

lemma evidence_snoc [simp]: "evidence log \<Longrightarrow> evidence (log @ es)"
  by (auto simp: evidence_def)

lemma in_order_snoc [simp]: "in_order (log @ [e]) \<longleftrightarrow> in_order log \<and> ((\<exists>m. e = FiredMessage m) \<longrightarrow> evidence log)"
proof
  assume l: "in_order (log @ [e])"
  then have "in_order log" unfolding in_order_def by (metis append.assoc append_Cons)
  moreover have "evidence log" if "e = FiredMessage m" for m using l that unfolding in_order_def by blast
  ultimately show "in_order log \<and> ((\<exists>m. e = FiredMessage m) \<longrightarrow> evidence log)" by blast
next
  assume r: "in_order log \<and> ((\<exists>m. e = FiredMessage m) \<longrightarrow> evidence log)"
  show "in_order (log @ [e])"
    unfolding in_order_def
  proof (intro allI impI)
    fix pre m post assume "log @ [e] = pre @ FiredMessage m # post"
    then show "evidence pre" using r unfolding in_order_def
      by (cases post rule: rev_cases) (auto simp flip: append_assoc append_Cons)
  qed
qed

text \<open>A report of a granted exchange, and the open state, have their cause in the log.\<close>

definition justified :: "peer \<Rightarrow> bool" where
  "justified p \<longleftrightarrow> in_order (pe_log p) \<and> pe_lingering p = None \<and>
     (Granted \<in> set (pe_ceaCh p) \<or> pe_reader p = Stuck Granted \<or> pe_state p = StateOpen \<longrightarrow> evidence (pe_log p))"

lemma justified_write:
  assumes "justified p" "conn_write ok m p = (done, p')"
  shows "justified p'"
  using assms by (auto simp: conn_write_def note_event_def justified_def split: if_splits)

lemma justified_close: "justified p \<Longrightarrow> justified (conn_close p)"
  by (auto simp: conn_close_def note_event_def justified_def)

lemma justified_end: "justified p \<Longrightarrow> justified (end_session p)"
  using justified_close [of p] by (simp add: end_session_def justified_def)

lemma justified_report:
  "justified p \<Longrightarrow> (x = Granted \<Longrightarrow> evidence (pe_log p)) \<Longrightarrow> justified (report_exchange x p)"
  by (auto simp: report_exchange_def justified_def)


lemma justified_gets:
  assumes "justified p"
  shows "justified (peer_dispatch cfg ok msg (note_event (Got msg) p))"
proof -
  define q where "q = (note_event (Got msg) p)\<lparr>pe_reader := Looking\<rparr>"
  have q: "justified q" "Got msg \<in> set (pe_log q)"
    using assms by (auto simp: q_def note_event_def justified_def)
  have wrote: "justified (snd (conn_write ok m (q\<lparr>pe_RemoteFQDN := a, pe_RemoteRealm := b\<rparr>)))"
    "Got msg \<in> set (pe_log (snd (conn_write ok m (q\<lparr>pe_RemoteFQDN := a, pe_RemoteRealm := b\<rparr>))))" for m a b
    using q by (auto simp: conn_write_def note_event_def justified_def)
  have report: "justified (report_exchange x p')"
    if "justified p'" "Got msg \<in> set (pe_log p')" "dh_CommandCode (dm_Header msg) = CmdCapabilitiesExchange"
      "x = Granted \<Longrightarrow> IsRequest msg \<or> cea_succeeds msg" for x p'
    using that by (intro justified_report) (auto simp: evidence_def)
  show ?thesis
  proof (cases "dh_CommandCode (dm_Header msg) = CmdCapabilitiesExchange")
    case True
    have caps: "justified (extractPeerCaps msg q)" "Got msg \<in> set (pe_log (extractPeerCaps msg q))"
      using q by (simp_all add: extractPeerCaps_def justified_def)
    show ?thesis
    proof (cases "IsRequest msg")
      case req: True
      obtain sent p1 where w: "conn_write ok (cea_message cfg msg) (extractPeerCaps msg q) = (sent, p1)" by force
      have "justified p1" "Got msg \<in> set (pe_log p1)"
        using w wrote unfolding extractPeerCaps_def by (metis snd_conv)+
      then have "justified (handleCER cfg ok msg q)"
        using report [OF _ _ True] req w by (simp add: handleCER_def)
      then show ?thesis using True req by (simp add: peer_dispatch_def Let_def q_def [symmetric])
    next
      case ans: False
      have "justified (report_exchange (Refused e) q)" for e by (rule report [OF q True]) simp
      moreover have "justified (report_exchange Granted (extractPeerCaps msg q))" if "cea_succeeds msg"
        using that by (intro report [OF caps True]) simp
      ultimately have "justified (handleCEA msg q)"
        by (cases "FindAVP msg CodeResultCode 0") (simp_all add: handleCEA_def cea_succeeds_def)
      then show ?thesis using True ans by (simp add: peer_dispatch_def Let_def q_def [symmetric])
    qed
  next
    case False
    have answered: "justified (snd (conn_write ok m q))" for m
      using q(1) justified_write [of q ok m] by (metis surj_pair snd_conv)
    have fired: "justified (note_event (FiredMessage msg) q)" if "pe_state q = StateOpen"
      using q(1) that by (simp add: justified_def note_event_def)
    have "justified (q\<lparr>pe_wdReply := True\<rparr>)" "justified (q\<lparr>pe_dprDone := True\<rparr>)"
      using q(1) by (simp_all add: justified_def)
    then show ?thesis
      using False q(1) answered justified_close [OF answered] fired
      by (simp add: peer_dispatch_def Let_def q_def [symmetric] handleDWR_def handleDPR_def)
  qed
qed

lemma justified_step:
  assumes "peer_step cfg p p'" "justified p"
  shows "justified p'"
  using assms
  by (cases rule: peer_stepE)
    (auto elim!: goroutineE simp: justified_gets, auto simp: justified_def peer_Send_def peer_Stop_def note_event_def
      conn_write_def end_session_def conn_close_def split: if_splits)

section \<open>What the channels hold\<close>

definition bounded :: "peer \<Rightarrow> bool" where
  "bounded p \<longleftrightarrow> length (pe_writeCh p) \<le> 64 \<and> length (pe_ceaCh p) \<le> 1"

lemma conn_write_fields:
  "conn_write ok m p = (done, p') \<Longrightarrow> pe_writeCh p' = pe_writeCh p \<and> pe_ceaCh p' = pe_ceaCh p \<and>
     pe_reader p' = pe_reader p \<and> pe_phase p' = pe_phase p"
  by (auto simp: conn_write_def note_event_def split: if_splits)

lemma snd_conn_write [simp]:
  "pe_writeCh (snd (conn_write ok m p)) = pe_writeCh p" "pe_ceaCh (snd (conn_write ok m p)) = pe_ceaCh p"
  "pe_reader (snd (conn_write ok m p)) = pe_reader p" "pe_phase (snd (conn_write ok m p)) = pe_phase p"
  using conn_write_fields [of ok m p "fst (conn_write ok m p)" "snd (conn_write ok m p)"] by simp_all

lemma conn_close_fields [simp]:
  "pe_writeCh (conn_close p) = pe_writeCh p" "pe_ceaCh (conn_close p) = pe_ceaCh p"
  "pe_reader (conn_close p) = pe_reader p" "pe_phase (conn_close p) = pe_phase p"
  by (simp_all add: conn_close_def note_event_def)

lemma dispatch_channels:
  "pe_writeCh (peer_dispatch cfg ok msg p) = pe_writeCh p"
  "length (pe_ceaCh p) \<le> Suc 0 \<Longrightarrow> length (pe_ceaCh (peer_dispatch cfg ok msg p)) \<le> Suc 0"
  by (auto simp: peer_dispatch_def Let_def handleCER_def handleCEA_def handleDWR_def handleDPR_def report_exchange_def
      extractPeerCaps_def note_event_def split_beta split: option.split)

lemma bounded_step:
  assumes "peer_step cfg p p'" "bounded p"
  shows "bounded p'"
  using assms
  by (cases rule: peer_stepE)
    (auto elim!: goroutineE simp: bounded_def dispatch_channels note_event_def end_session_def peer_Send_def peer_Stop_def
      dest!: conn_write_fields)

section \<open>The stuck reader\<close>

fun is_got :: "peer_event \<Rightarrow> bool" where
  "is_got (Got _) = True"
| "is_got _ = False"

definition received :: "peer \<Rightarrow> peer_event list" where
  "received p = filter is_got (pe_log p)"

lemma received_other:
  "\<not> is_got e \<Longrightarrow> received (note_event e p) = received p"
  "received (snd (conn_write ok m p)) = received p" "received (conn_close p) = received p"
  by (simp_all add: received_def note_event_def conn_write_def conn_close_def)

lemma received_write: "conn_write ok m p = (done, p') \<Longrightarrow> received p' = received p"
  using received_other(2) [of ok m p] by simp

lemma received_fields [simp]:
  "received (p\<lparr>pe_reader := r\<rparr>) = received p" "received (p\<lparr>pe_writeCh := q\<rparr>) = received p"
  "received (p\<lparr>pe_writing := b\<rparr>) = received p" "received (p\<lparr>pe_writing := b, pe_writeErr := c\<rparr>) = received p"
  "received (p\<lparr>pe_phase := h\<rparr>) = received p" "received (p\<lparr>pe_state := t\<rparr>) = received p"
  "received (p\<lparr>pe_state := t, pe_phase := h\<rparr>) = received p" "received (p\<lparr>pe_stopped := b\<rparr>) = received p"
  "received (p\<lparr>pe_wdReply := b\<rparr>) = received p" "received (p\<lparr>pe_dprDone := b\<rparr>) = received p"
  by (simp_all add: received_def)

definition blocked :: "exchange \<Rightarrow> peer_event list \<Rightarrow> peer \<Rightarrow> bool" where
  "blocked x evs p \<longleftrightarrow> pe_reader p = Stuck x \<and> pe_ceaCh p \<noteq> [] \<and> pe_phase p \<noteq> Exchanging \<and> received p = evs"

lemma blocked_step:
  assumes "peer_step cfg p p'" "blocked x evs p"
  shows "blocked x evs p'"
  using assms
  by (cases rule: peer_stepE)
    (auto elim!: goroutineE simp: blocked_def received_other received_write end_session_def peer_Send_def peer_Stop_def
      awaiting_def dest: conn_write_fields split: if_splits, auto simp: note_event_def received_def)

section \<open>Reading two more requests\<close>

lemma dispatch_request:
  assumes "dh_CommandCode (dm_Header msg) = CmdCapabilitiesExchange" "IsRequest msg"
    "pe_reader p = Reading" "pe_connOpen p"
  obtains p' where "peer_step cfg p p'" "pe_connOpen p'" "pe_stopped p' = pe_stopped p" "pe_phase p' = pe_phase p"
    and "if pe_ceaCh p = [] then pe_ceaCh p' = [Granted] \<and> pe_reader p' = Looking
      else pe_ceaCh p' = pe_ceaCh p \<and> pe_reader p' = Stuck Granted"
proof -
  let ?p' = "peer_dispatch cfg True msg (note_event (Got msg) p)"
  have "peer_step cfg p ?p'" by (rule reader_acts [OF reader_gets [OF assms(3,4)]])
  moreover have "pe_connOpen ?p'" "pe_stopped ?p' = pe_stopped p" "pe_phase ?p' = pe_phase p"
    and "if pe_ceaCh p = [] then pe_ceaCh ?p' = [Granted] \<and> pe_reader ?p' = Looking
      else pe_ceaCh ?p' = pe_ceaCh p \<and> pe_reader ?p' = Stuck Granted"
    using assms by (simp_all add: peer_dispatch_def handleCER_def report_exchange_def conn_write_def
        extractPeerCaps_def note_event_def Let_def)
  ultimately show thesis by (rule that)
qed

lemma two_requests_block:
  assumes "\<forall>m \<in> {m1, m2}. dh_CommandCode (dm_Header m) = CmdCapabilitiesExchange \<and> IsRequest m"
    and "pe_phase p \<noteq> Exchanging" "pe_reader p = Reading" "pe_connOpen p" "\<not> pe_stopped p" "pe_ceaCh p = []"
  shows "\<exists>p1. (peer_step cfg)\<^sup>*\<^sup>* p p1 \<and> blocked Granted (received p1) p1"
proof -
  obtain a where a: "peer_step cfg p a" "pe_connOpen a" "pe_stopped a = pe_stopped p" "pe_phase a = pe_phase p"
    "pe_ceaCh a = [Granted]" "pe_reader a = Looking"
    using dispatch_request [of m1 p cfg] assms by auto
  let ?b = "a\<lparr>pe_reader := Reading\<rparr>"
  have b: "peer_step cfg a ?b" using reader_acts [OF reader_looks [OF a(6)], of cfg] a(3) assms(5) by simp
  obtain c where "peer_step cfg ?b c" "pe_phase c = pe_phase ?b" "pe_ceaCh c = [Granted]" "pe_reader c = Stuck Granted"
    using dispatch_request [of m2 ?b cfg] assms(1) a by auto
  then show ?thesis using a b assms(2) by (intro exI [of _ c]) (auto simp: blocked_def)
qed

section \<open>The watchdog\<close>

text \<open>
  The loop that probes the other side: every half minute a request goes out and a timer of ten
  seconds starts; an answer stops it. A timer that is stopped does not fire.
\<close>

datatype watchdog_event = Tick | TimerFires | Reply

record watchdog =
  wd_pending :: bool
  wd_armed :: bool

definition watchdog_idle :: watchdog where
  "watchdog_idle = \<lparr>wd_pending = False, wd_armed = False\<rparr>"

text \<open>\<open>None\<close> closes the connection; the number counts the requests sent.\<close>

fun watchdog_loop :: "watchdog_event list \<Rightarrow> watchdog \<Rightarrow> nat \<Rightarrow> (watchdog \<times> nat) option" where
  "watchdog_loop [] wd n = Some (wd, n)"
| "watchdog_loop (TimerFires # es) wd n = (if wd_armed wd then None else watchdog_loop es wd n)"
| "watchdog_loop (Reply # es) wd n = watchdog_loop es \<lparr>wd_pending = False, wd_armed = False\<rparr> n"
| "watchdog_loop (Tick # es) wd n =
     (if wd_pending wd then None else watchdog_loop es \<lparr>wd_pending = True, wd_armed = True\<rparr> (Suc n))"

text \<open>Some request is not answered before its timer or the next tick.\<close>

fun unanswered :: "watchdog_event list \<Rightarrow> bool" where
  "unanswered [] = False"
| "unanswered (Tick # es) = ((\<exists>e. e \<in> set (takeWhile (\<lambda>e. e \<noteq> Reply) es)) \<or> unanswered es)"
| "unanswered (_ # es) = unanswered es"

lemma watchdog_loop_None:
  "watchdog_loop es wd n = None \<longleftrightarrow>
     (wd_pending wd \<and> Tick \<in> set (takeWhile (\<lambda>e. e \<noteq> Reply) es)) \<or>
     (wd_armed wd \<and> TimerFires \<in> set (takeWhile (\<lambda>e. e \<noteq> Reply) es)) \<or> unanswered es"
  if "wd_pending wd = wd_armed wd"
  using that
proof (induction es wd n rule: watchdog_loop.induct)
  case (4 es wd n)
  have "takeWhile (\<lambda>e. e \<noteq> Reply) es \<noteq> [] \<longleftrightarrow> Tick \<in> set (takeWhile (\<lambda>e. e \<noteq> Reply) es) \<or>
      TimerFires \<in> set (takeWhile (\<lambda>e. e \<noteq> Reply) es)"
    by (cases es) (auto dest: set_takeWhileD, metis list.set_intros(1) watchdog_event.exhaust)
  then show ?case using 4 by (auto simp: ex_in_conv)
qed (auto simp: ex_in_conv)

section \<open>Reconnecting\<close>

datatype attempt_result = DialFailed | SessionOver

fun reconnect_delays :: "attempt_result list \<Rightarrow> int \<Rightarrow> int list" where
  "reconnect_delays [] delay = []"
| "reconnect_delays (_ # rest) delay = delay # reconnect_delays rest (min (delay * 2) (60 * Second))"


lemma reconnect_delays_nth:
  "0 \<le> d \<Longrightarrow> d \<le> 60 * Second \<Longrightarrow> n < length rs \<Longrightarrow> reconnect_delays rs d ! n = min (2 ^ n * d) (60 * Second)"
proof (induction rs d arbitrary: n rule: reconnect_delays.induct)
  case (2 r rest delay)
  show ?case
  proof (cases n)
    case (Suc k)
    have "reconnect_delays rest (min (delay * 2) (60 * Second)) ! k =
        min (2 ^ k * min (delay * 2) (60 * Second)) (60 * Second)"
      using "2.IH" [of k] "2.prems" Suc by simp
    also have "\<dots> = min (2 ^ n * delay) (60 * Second)"
    proof (cases "delay * 2 \<le> 60 * Second")
      case False
      have "1 * (60 * Second) \<le> 2 ^ k * (60 * Second)" "1 * (delay * 2) \<le> 2 ^ k * (delay * 2)"
        using "2.prems"(1) by (intro mult_right_mono; simp)+
      moreover have "2 ^ n * delay = 2 ^ k * (delay * 2)" using Suc by simp
      ultimately have "60 * Second \<le> 2 ^ k * (60 * Second)" "60 * Second \<le> 2 ^ n * delay" "60 * Second \<le> delay * 2"
        using False by linarith+
      then show ?thesis by (simp only: min_absorb2)
    qed (simp add: Suc mult.commute mult.left_commute)
    finally show ?thesis using Suc by simp
  qed (use "2.prems" in simp)
qed simp

lemma add_app_ids_spec:
  "distinct seen \<Longrightarrow> 0 \<notin> set seen \<Longrightarrow> distinct (add_app_ids seen as) \<and> 0 \<notin> set (add_app_ids seen as) \<and>
     set (add_app_ids seen as) = set seen \<union> (set as - {0})"
  by (induction seen as rule: add_app_ids.induct) auto

section \<open>Examples\<close>

definition example_cfg :: peer_cfg where
  "example_cfg = \<lparr>pc_Name = ''mme1'', pc_AppID = 16777313, pc_AppIDs = [], pc_LocalFQDN = ''smsc'', pc_LocalRealm = ''home'',
     pc_OriginStateID = 1, pc_HostIPs = []\<rparr>"

text \<open>An outbound peer between two connections.\<close>

definition example_peer :: "dmsg list \<Rightarrow> reader \<Rightarrow> peer" where
  "example_peer queued r = \<lparr>pe_inbound = False, pe_state = StateClosed, pe_stopped = False, pe_writeCh = queued, pe_ceaCh = [],
     pe_dprDone = False, pe_wdReply = False, pe_RemoteFQDN = [], pe_RemoteRealm = [], pe_connOpen = False, pe_phase = Ended,
     pe_cerSent = True, pe_reader = r, pe_writing = False, pe_readErr = False, pe_writeErr = False, pe_lingering = None,
     pe_log = []\<rparr>"

definition example_msg :: "nat \<Rightarrow> dmsg" where
  "example_msg cmd = fst (NewRequest cmd 0 \<lparr>ids_hopByHopCounter = 5, ids_endToEndBase = 0x100, ids_endToEndCounter = 0\<rparr>)"

lemma example_msg_fields [simp]: "dh_CommandCode (dm_Header (example_msg cmd)) = cmd" "IsRequest (example_msg cmd)"
  by (simp_all add: example_msg_def NewRequest_def IsRequest_def NextHopByHop_def NextEndToEnd_def Let_def)

section \<open>Properties\<close>



text \<open>
  A reader of an earlier connection that is still stuck opens the next one: its stale report is
  taken for the answer of the new other side, and the connection is open although nothing has been
  received on it.
\<close>

theorem stale_exchange_opens:
  assumes "pe_reader p = Stuck Granted" "\<not> pe_inbound p"
  shows "\<exists>p' cer. (peer_step cfg)\<^sup>*\<^sup>* (start_session p) p' \<and> pe_state p' = StateOpen \<and> pe_log p' = [Wrote cer]"
proof -
  let ?s = "start_session p"
  define cer where "cer = fst (cer_message cfg undefined)"
  let ?a = "(note_event (Wrote cer) ?s)\<lparr>pe_cerSent := True\<rparr>"
  let ?b = "?a\<lparr>pe_ceaCh := [Granted], pe_lingering := None\<rparr>"
  let ?c = "?b\<lparr>pe_ceaCh := [], pe_state := StateOpen, pe_phase := Opening\<rparr>"
  have "conn_write True cer ?s = (True, note_event (Wrote cer) ?s)"
    by (simp add: conn_write_def start_session_def)
  then have "peer_step cfg ?s ?a"
    using session_acts [OF sends_CER [of ?s True cfg undefined True "note_event (Wrote cer) ?s"]] assms(2)
    by (simp add: cer_def start_session_def)
  moreover have "peer_step cfg ?a ?b"
    using assms(1) by (intro lingering_released) (simp_all add: start_session_def note_event_def)
  moreover have "peer_step cfg ?b ?c"
    by (rule session_acts [OF exchange_granted [where xs = "[]"]]) (simp_all add: awaiting_def start_session_def note_event_def)
  ultimately have "(peer_step cfg)\<^sup>*\<^sup>* ?s ?c" by (meson rtranclp.intros)
  then show ?thesis by (intro exI [of _ ?c] exI [of _ cer]) (simp add: start_session_def note_event_def)
qed

theorem stale_exchange_opens_witness:
  "\<exists>p' cer. (peer_step example_cfg)\<^sup>*\<^sup>* (start_session (example_peer [] (Stuck Granted))) p' \<and>
     pe_state p' = StateOpen \<and> pe_log p' = [Wrote cer]"
  by (rule stale_exchange_opens) (simp_all add: example_peer_def)

text \<open>
  The queue of the writer survives a connection: a message left in it may go out on the next one
  first of all, before the capability exchange.
\<close>

theorem stale_message_goes_first:
  assumes "pe_writeCh p = m # ms"
  shows "\<exists>p'. (peer_step cfg)\<^sup>*\<^sup>* (start_session p) p' \<and> pe_log p' = [Wrote m] \<and> \<not> pe_cerSent p' \<and>
    pe_writeCh p' = ms \<and> pe_phase p' = Exchanging"
proof -
  let ?s = "start_session p" and ?a = "note_event (Wrote m) ((start_session p)\<lparr>pe_writeCh := ms\<rparr>)"
  have "conn_write True m (?s\<lparr>pe_writeCh := ms\<rparr>) = (True, ?a)"
    by (simp add: conn_write_def start_session_def)
  then have "peer_step cfg ?s ?a"
    using writer_acts [OF writer_sends [of ?s m ms True True ?a]] assms by (simp add: start_session_def)
  then show ?thesis
    by (intro exI [of _ ?a] conjI r_into_rtranclp) (simp_all add: start_session_def note_event_def)
qed

theorem stale_message_goes_first_witness:
  "\<exists>p'. (peer_step example_cfg)\<^sup>*\<^sup>* (start_session (example_peer [example_msg 8388646] Returned)) p' \<and>
     pe_log p' = [Wrote (example_msg 8388646)] \<and> \<not> pe_cerSent p' \<and> pe_writeCh p' = [] \<and> pe_phase p' = Exchanging"
  by (rule stale_message_goes_first) (simp add: example_peer_def)

text \<open>
  Two more capability requests on a connection whose exchange is over may stop its reader for
  good: nobody takes the reports any more, the second does not fit into the channel, and from then on
  nothing is received, whatever else happens on the connection.
\<close>

theorem capability_requests_block_reader:
  assumes "\<forall>m \<in> {m1, m2}. dh_CommandCode (dm_Header m) = CmdCapabilitiesExchange \<and> IsRequest m"
    and "pe_phase p = Running" "pe_reader p = Reading" "pe_connOpen p" "\<not> pe_stopped p" "pe_ceaCh p = []"
  shows "\<exists>p1. (peer_step cfg)\<^sup>*\<^sup>* p p1 \<and>
    (\<forall>p2. (peer_step cfg)\<^sup>*\<^sup>* p1 p2 \<longrightarrow> pe_reader p2 = Stuck Granted \<and> received p2 = received p1)"
proof -
  have "pe_phase p \<noteq> Exchanging" using assms(2) by simp
  then obtain p1 where p1: "(peer_step cfg)\<^sup>*\<^sup>* p p1" "blocked Granted (received p1) p1"
    using two_requests_block [OF assms(1) _ assms(3-6)] by blast
  have "blocked Granted (received p1) p2" if "(peer_step cfg)\<^sup>*\<^sup>* p1 p2" for p2
    using that by (induction rule: rtranclp_induct) (auto intro: p1(2) blocked_step)
  then show ?thesis using p1(1) by (auto simp: blocked_def)
qed

theorem capability_requests_block_reader_witness:
  "\<exists>p1. (peer_step example_cfg)\<^sup>*\<^sup>* ((example_peer [] Reading)\<lparr>pe_phase := Running, pe_connOpen := True\<rparr>) p1 \<and>
     pe_reader p1 = Stuck Granted"
proof -
  let ?p = "(example_peer [] Reading)\<lparr>pe_phase := Running, pe_connOpen := True\<rparr>"
  have "\<forall>m \<in> {example_msg 257, example_msg 257}. dh_CommandCode (dm_Header m) = CmdCapabilitiesExchange \<and> IsRequest m"
    by simp
  from capability_requests_block_reader [OF this, of ?p example_cfg] show ?thesis
    by (auto simp: example_peer_def)
qed

text \<open>
  The watchdog closes the connection exactly when some request of it is not answered before its
  timer fires or the next one is due, and keeps it otherwise.
\<close>

theorem watchdog_closes_unanswered:
  "watchdog_loop es watchdog_idle n = None \<longleftrightarrow> unanswered es"
  using watchdog_loop_None [of watchdog_idle es n] by (simp add: watchdog_idle_def)

text \<open>
  The queue and the channel of the exchange never hold more than they have room for, whatever
  the goroutines do.
\<close>

theorem peer_channels_bounded:
  assumes "(peer_step cfg)\<^sup>*\<^sup>* (start_session p) p'" "length (pe_writeCh p) \<le> 64"
  shows "length (pe_writeCh p') \<le> 64 \<and> length (pe_ceaCh p') \<le> 1"
proof -
  have "bounded p'" using assms(1)
    by (induction rule: rtranclp_induct) (use assms(2) in \<open>auto simp: bounded_def start_session_def dest: bounded_step\<close>)
  then show ?thesis by (simp add: bounded_def)
qed

text \<open>
  The pause before the n-th reconnection is two to the n seconds up to a minute, whatever the
  attempts came to: a session that was up for days does not bring it back to a second.
\<close>

theorem reconnect_pause:
  assumes "n < length results"
  shows "reconnect_delays results Second ! n = min (2 ^ n * Second) (60 * Second)"
  by (rule reconnect_delays_nth) (use assms in simp_all)

theorem reconnect_pause_witness:
  "reconnect_delays (replicate 10 SessionOver) Second ! 9 = 60 * Second"
  using reconnect_pause [of 9 "replicate 10 SessionOver"] by simp

text \<open>
  The applications advertised are those configured, each once and none of them zero.
\<close>

theorem advertised_applications:
  "distinct (advertisedAppIDs cfg) \<and> set (advertisedAppIDs cfg) = insert (pc_AppID cfg) (set (pc_AppIDs cfg)) - {0}"
  using add_app_ids_spec [of "if pc_AppID cfg \<noteq> 0 then [pc_AppID cfg] else []" "pc_AppIDs cfg"]
  by (auto simp: advertisedAppIDs_def)

end
