(* ===== verification/Correlation.thy ===== *)
theory Correlation
  imports Prelude
begin

text \<open>
  Requests and their answers. A sender enters its request in a table under the number of the request,
  and waits on a channel that holds one value; whoever receives messages puts the answer with
  that number into the channel. This is what \<open>SendOFR\<close> of the SGd server, the client of S6c, that of Sh and
  \<open>SendAndWait\<close> of an SMPP link have in common.
\<close>

fun first_some :: "('a \<Rightarrow> 'b option) \<Rightarrow> 'a list \<Rightarrow> 'b option" where
  "first_some f [] = None"
| "first_some f (x # xs) = (case f x of Some y \<Rightarrow> Some y | None \<Rightarrow> first_some f xs)"

lemma first_some_None: "first_some f xs = None \<longleftrightarrow> (\<forall>x \<in> set xs. f x = None)"
  by (induction xs) (auto split: option.split)

lemma first_some_Some: "first_some f xs = Some y \<Longrightarrow> \<exists>x \<in> set xs. f x = Some y"
  by (induction xs) (auto split: option.splits)

lemma first_some_append:
  "first_some f (xs @ ys) = (case first_some f xs of Some y \<Rightarrow> Some y | None \<Rightarrow> first_some f ys)"
  by (induction xs) (auto split: option.split)

text \<open>
  Waiting: what happens meanwhile, until there is something in the channel or, when nothing more happens
  in time, the timeout.
\<close>

fun await_answer :: "('w \<Rightarrow> 'm option) \<Rightarrow> ('e \<Rightarrow> 'w \<Rightarrow> 'w) \<Rightarrow> 'e list \<Rightarrow> 'w \<Rightarrow> 'm option \<times> 'w" where
  "await_answer channel happen [] w = (channel w, w)"
| "await_answer channel happen (e # es) w =
     (case channel w of Some m \<Rightarrow> (Some m, w) | None \<Rightarrow> await_answer channel happen es (happen e w))"

locale correlation =
  fixes waiting :: "'w \<Rightarrow> bool" and channel :: "'w \<Rightarrow> 'm option"
    and happen :: "'e \<Rightarrow> 'w \<Rightarrow> 'w" and answer :: "'e \<Rightarrow> 'm option"
  assumes waiting_empty: "waiting w \<Longrightarrow> channel w = None"
    and other: "waiting w \<Longrightarrow> answer e = None \<Longrightarrow> waiting (happen e w)"
    and answered: "waiting w \<Longrightarrow> answer e = Some m \<Longrightarrow> channel (happen e w) = Some m"
begin

lemma await_first: "waiting w \<Longrightarrow> fst (await_answer channel happen es w) = first_some answer es"
proof (induction es arbitrary: w)
  case (Cons e es)
  then show ?case
  proof (cases "answer e")
    case (Some m)
    have "fst (await_answer channel happen es w') = Some m" if "channel w' = Some m" for w'
      using that by (cases es) simp_all
    then show ?thesis using Cons.prems Some by (simp add: waiting_empty answered)
  qed (simp add: waiting_empty other)
qed (simp add: waiting_empty)

end

end
