(* ===== verification/SgdServer.thy ===== *)
theory SgdServer
  imports SgdCodec DiamPeer Forwarder Correlation
begin

text \<open>
  The SGd server (\<open>internal/diameter/sgd\<close>): the tables of its peers and of the requests that wait for
  an answer, the dispatch of received messages, the choice of a peer for a terminal's MME, and
  sending a message to it. Peers are the connections of \<open>DiamPeer\<close>, in a heap, since several keys
  of the tables may name one of them.
\<close>

section \<open>State\<close>

abbreviation CmdMTForwardShortMessage :: nat where "CmdMTForwardShortMessage \<equiv> 8388646"
abbreviation CmdMOForwardShortMessage :: nat where "CmdMOForwardShortMessage \<equiv> 8388645"
abbreviation CmdAlertServiceCentre :: nat where "CmdAlertServiceCentre \<equiv> 8388648"
abbreviation CmdReportSMDeliveryStatus :: nat where "CmdReportSMDeliveryStatus \<equiv> 8388649"
abbreviation App3GPP_SGd :: "32 word" where "App3GPP_SGd \<equiv> 16777313"
abbreviation CodeSessionID :: "32 word" where "CodeSessionID \<equiv> 263"
abbreviation CodeAuthSessionState :: "32 word" where "CodeAuthSessionState \<equiv> 277"
abbreviation CodeDestinationRealm :: "32 word" where "CodeDestinationRealm \<equiv> 283"
abbreviation CodeDestinationHost :: "32 word" where "CodeDestinationHost \<equiv> 293"
abbreviation CodeExperimentalResult :: "32 word" where "CodeExperimentalResult \<equiv> 297"
abbreviation CodeExperimentalResultCode :: "32 word" where "CodeExperimentalResultCode \<equiv> 298"
abbreviation AuthSessionStateNoStateMaintained :: "32 word" where "AuthSessionStateNoStateMaintained \<equiv> 1"

record sgd_alert =
  sa_SessionID :: string
  sa_OriginHost :: string
  sa_OriginRealm :: string
  sa_MSISDN :: string
  sa_IMSI :: string
  sa_SCAddress :: string
  sa_AlertCorrelationID :: string
  sa_AlertReason :: "32 word"
  sa_MaximumUEAvailabilityTime :: "int option"
  sa_SMSGMSCAlertEvent :: "32 word"

text \<open>
  The callback for alerts says whether it succeeds. The channel a sender waits on holds one answer.
\<close>

record sgd_server =
  sv_localFQDN :: string
  sv_localRealm :: string
  sv_scAddrEncoding :: string
  sv_onMsg :: bool
  sv_onAlertSC :: "(sgd_alert \<Rightarrow> bool) option"
  sv_peers :: "string \<rightharpoonup> nat"
  sv_outboundPeers :: "string \<rightharpoonup> nat"
  sv_pendingOFR :: "32 word \<rightharpoonup> dmsg option"
  sv_pendingMO :: "string \<rightharpoonup> nat \<times> dmsg"

datatype sgd_call = OnMessage message string | OnAlertSC sgd_alert

record sgd_world =
  sw_server :: sgd_server
  sw_heap :: "nat \<Rightarrow> peer_cfg \<times> peer"
  sw_ids :: id_state
  sw_calls :: "sgd_call list"

definition sgd_fqdn :: "sgd_world \<Rightarrow> nat \<Rightarrow> string" where
  "sgd_fqdn w p = pe_RemoteFQDN (snd (sw_heap w p))"

definition sgd_Send :: "nat \<Rightarrow> dmsg \<Rightarrow> sgd_world \<Rightarrow> bool \<times> sgd_world" where
  "sgd_Send p m w = (let (cfg, pe) = sw_heap w p; (sent, pe) = peer_Send m pe in
     (sent, w\<lparr>sw_heap := (sw_heap w)(p := (cfg, pe))\<rparr>))"

definition sgd_call :: "sgd_call \<Rightarrow> sgd_world \<Rightarrow> sgd_world" where
  "sgd_call c w = w\<lparr>sw_calls := sw_calls w @ [c]\<rparr>"

definition sgd_update :: "(sgd_server \<Rightarrow> sgd_server) \<Rightarrow> sgd_world \<Rightarrow> sgd_world" where
  "sgd_update f w = w\<lparr>sw_server := f (sw_server w)\<rparr>"

section \<open>Answers\<close>

definition authSessionStateFromRequest :: "dmsg \<Rightarrow> avp" where
  "authSessionStateFromRequest req =
     NewUint32 CodeAuthSessionState 0 FlagMandatory
       (case FindAVP req CodeAuthSessionState 0 of
          Some a \<Rightarrow> (case avp_Uint32 a of Ok v \<Rightarrow> v | _ \<Rightarrow> AuthSessionStateNoStateMaintained)
        | None \<Rightarrow> AuthSessionStateNoStateMaintained)"

definition sgd_answer :: "peer_cfg \<Rightarrow> dmsg \<Rightarrow> 32 word \<Rightarrow> avp list \<Rightarrow> dmsg" where
  "sgd_answer cfg req resultCode extra =
     Add_AVPs ((case FindAVP req CodeSessionID 0 of
         Some a \<Rightarrow> [NewString CodeSessionID 0 FlagMandatory (string_of_bytes (avp_Data a))] | None \<Rightarrow> []) @
       [NewUint32 CodeResultCode 0 FlagMandatory resultCode, authSessionStateFromRequest req] @
       origin_avps cfg @ extra) (NewAnswer req)"

definition sendAnswerWithAVPs :: "nat \<Rightarrow> dmsg \<Rightarrow> 32 word \<Rightarrow> avp list \<Rightarrow> sgd_world \<Rightarrow> sgd_world" where
  "sendAnswerWithAVPs p req resultCode extra w =
     snd (sgd_Send p (sgd_answer (fst (sw_heap w p)) req resultCode extra) w)"

definition sendAnswer :: "nat \<Rightarrow> dmsg \<Rightarrow> 32 word \<Rightarrow> sgd_world \<Rightarrow> sgd_world" where
  "sendAnswer p req resultCode w = sendAnswerWithAVPs p req resultCode [] w"

section \<open>Received requests\<close>

text \<open>
  A message submitted by a terminal: the callback runs in its own thread, so its call and the answer
  come in either order; the call is noted first. \<open>sid\<close> is the fresh session id.
\<close>

definition handleMOForwardRequest :: "gotime \<Rightarrow> string \<Rightarrow> nat \<Rightarrow> dmsg \<Rightarrow> sgd_world \<Rightarrow> sgd_world" where
  "handleMOForwardRequest now sid p req w =
     (case decodeSMRPUI now req of
        Ok msg \<Rightarrow>
          if sv_onMsg (sw_server w)
          then sendAnswer p req DiameterSuccess (sgd_call (OnMessage
            (msg\<lparr>msg_IngressPeer := sgd_fqdn w p, msg_IngressInterface := InterfaceSGd, msg_CorrelationID := sid\<rparr>)
            (sgd_fqdn w p)) w)
          else sendAnswer p req DiameterUnableToComply w
      | _ \<Rightarrow> sendAnswer p req DiameterUnableToComply w)"

text \<open>A delivery another centre forwards here is answered first and handled then, by the reader itself.\<close>

definition HandleOFR :: "gotime \<Rightarrow> nat \<Rightarrow> dmsg \<Rightarrow> sgd_world \<Rightarrow> sgd_world" where
  "HandleOFR now p req w =
     (case decodeSMRPUI now req of
        Ok msg \<Rightarrow>
          (let w' = sendAnswer p req DiameterSuccess w in
           if sv_onMsg (sw_server w)
           then sgd_call (OnMessage (msg\<lparr>msg_IngressPeer := sgd_fqdn w p\<rparr>) (sgd_fqdn w p)) w' else w')
      | _ \<Rightarrow> sendAnswer p req DiameterUnableToComply w)"

definition sgd_parseAlertServiceCentre :: "dmsg \<Rightarrow> sgd_alert outcome" where
  "sgd_parseAlertServiceCentre m =
     (if parseStringAVP m CodeSessionID 0 = [] then Err ''missing Session-Id''
      else
        let (imsi, msisdn) = sgd_parseUserIdentifier m in
        Ok \<lparr>sa_SessionID = parseStringAVP m CodeSessionID 0, sa_OriginHost = parseStringAVP m CodeOriginHost 0,
            sa_OriginRealm = parseStringAVP m CodeOriginRealm 0,
            sa_MSISDN = (if msisdn = [] then
                (case FindAVP m CodeMSISDN Vendor3GPP of Some a \<Rightarrow> decodeBCDMSISDN (avp_Data a) | None \<Rightarrow> []) else msisdn),
            sa_IMSI = (if imsi = [] then parseStringAVP m CodeUserName 0 else imsi),
            sa_SCAddress = (case FindAVP m CodeSCAddress Vendor3GPP of Some a \<Rightarrow> decodeSCAddress (avp_Data a) | None \<Rightarrow> []),
            sa_AlertCorrelationID = (case FindAVP m 3324 Vendor3GPP of
                Some a \<Rightarrow> if avp_Data a \<noteq> [] then base64 (avp_Data a) else [] | None \<Rightarrow> []),
            sa_AlertReason = uint32_or_0 (FindAVP m 1434 Vendor3GPP),
            sa_MaximumUEAvailabilityTime = (case FindAVP m 3329 Vendor3GPP of
                Some a \<Rightarrow> (case avp_Uint32 a of Ok v \<Rightarrow> Some (decodeDiameterTime v) | _ \<Rightarrow> None)
              | None \<Rightarrow> None),
            sa_SMSGMSCAlertEvent = uint32_or_0 (FindAVP m 3333 Vendor3GPP)\<rparr>)"

definition handleAlertServiceCentreRequest :: "nat \<Rightarrow> dmsg \<Rightarrow> sgd_world \<Rightarrow> sgd_world" where
  "handleAlertServiceCentreRequest p msg w =
     (case sgd_parseAlertServiceCentre msg of
        Ok req \<Rightarrow>
          (case sv_onAlertSC (sw_server w) of
             None \<Rightarrow> sendAnswer p msg DiameterSuccess w
           | Some fn \<Rightarrow> sendAnswer p msg (if fn req then DiameterSuccess else DiameterUnableToComply)
               (sgd_call (OnAlertSC req) w))
      | _ \<Rightarrow> sendAnswer p msg DiameterUnableToComply w)"

text \<open>An answer goes to the sender that waits for its hop-by-hop identifier, if there is room.\<close>

definition sgd_deliver_answer :: "dmsg \<Rightarrow> sgd_server \<Rightarrow> sgd_server" where
  "sgd_deliver_answer msg s = (let hbh = dh_HopByHop (dm_Header msg) in
     case sv_pendingOFR s hbh of
       Some None \<Rightarrow> s\<lparr>sv_pendingOFR := (sv_pendingOFR s)(hbh \<mapsto> Some msg)\<rparr>
     | _ \<Rightarrow> s)"

definition sgd_dispatch :: "gotime \<Rightarrow> string \<Rightarrow> nat \<Rightarrow> dmsg \<Rightarrow> sgd_world \<Rightarrow> sgd_world" where
  "sgd_dispatch now sid p msg w =
     (let cmd = dh_CommandCode (dm_Header msg); isReq = IsRequest msg in
      if cmd = CmdMTForwardShortMessage \<and> isReq then HandleOFR now p msg w
      else if cmd = CmdMTForwardShortMessage \<and> \<not> isReq then sgd_update (sgd_deliver_answer msg) w
      else if cmd = CmdMOForwardShortMessage \<and> isReq then handleMOForwardRequest now sid p msg w
      else if cmd = CmdAlertServiceCentre \<and> isReq then handleAlertServiceCentreRequest p msg w
      else w)"

section \<open>The choice of a peer\<close>

definition peerIsActiveLocked :: "sgd_world \<Rightarrow> string \<Rightarrow> nat \<Rightarrow> bool" where
  "peerIsActiveLocked w name p \<longleftrightarrow> sv_peers (sw_server w) name = Some p \<or>
     (sgd_fqdn w p \<noteq> [] \<and> sv_peers (sw_server w) (sgd_fqdn w p) = Some p)"

text \<open>
  The tables are gone through in an order of their keys that is different every time: \<open>outs\<close> and \<open>ins\<close>.
  The flag says that the peer is not the MME itself.
\<close>

definition active_outbound :: "sgd_world \<Rightarrow> string \<Rightarrow> nat option" where
  "active_outbound w name = (case sv_outboundPeers (sw_server w) name of
     Some p \<Rightarrow> if peerIsActiveLocked w name p then Some p else None | None \<Rightarrow> None)"

definition other_peer :: "sgd_world \<Rightarrow> string \<Rightarrow> string \<Rightarrow> nat option" where
  "other_peer w mmeHost key = (case sv_peers (sw_server w) key of
     Some p \<Rightarrow> if key \<noteq> mmeHost \<and> key = sgd_fqdn w p \<and> sgd_fqdn w p \<noteq> [] then Some p else None | None \<Rightarrow> None)"

definition selectPeerForMMELocked :: "string list \<Rightarrow> string list \<Rightarrow> sgd_world \<Rightarrow> string \<Rightarrow> (nat \<times> bool) option" where
  "selectPeerForMMELocked outs ins w mmeHost =
     (case sv_peers (sw_server w) mmeHost of
        Some p \<Rightarrow> Some (p, False)
      | None \<Rightarrow>
          (case first_some (active_outbound w) outs of
             Some p \<Rightarrow> Some (p, True)
           | None \<Rightarrow> map_option (\<lambda>p. (p, True)) (first_some (other_peer w mmeHost) ins)))"

definition sgd_orders :: "sgd_world \<Rightarrow> string list \<Rightarrow> string list \<Rightarrow> bool" where
  "sgd_orders w outs ins \<longleftrightarrow> distinct outs \<and> set outs = dom (sv_outboundPeers (sw_server w)) \<and>
     distinct ins \<and> set ins = dom (sv_peers (sw_server w))"

definition peerLogName :: "sgd_world \<Rightarrow> nat \<Rightarrow> string" where
  "peerLogName w p = (if sgd_fqdn w p \<noteq> [] then sgd_fqdn w p else pc_Name (fst (sw_heap w p)))"

definition HasPeerForMME :: "string list \<Rightarrow> string list \<Rightarrow> sgd_world \<Rightarrow> string \<Rightarrow> bool" where
  "HasPeerForMME outs ins w mmeHost \<longleftrightarrow> selectPeerForMMELocked outs ins w mmeHost \<noteq> None"

definition RoutePeerForMME :: "string list \<Rightarrow> string list \<Rightarrow> sgd_world \<Rightarrow> string \<Rightarrow> (string \<times> bool) option" where
  "RoutePeerForMME outs ins w mmeHost =
     map_option (\<lambda>(p, viaProxy). (peerLogName w p, viaProxy)) (selectPeerForMMELocked outs ins w mmeHost)"

text \<open>What follows the first dot of the host name that something follows.\<close>

fun host_realm :: "string \<Rightarrow> string" where
  "host_realm [] = []"
| "host_realm (c # cs) = (if c = CHR ''.'' \<and> cs \<noteq> [] then cs else host_realm cs)"

definition destinationRealmForPeer :: "sgd_world \<Rightarrow> string \<Rightarrow> nat \<Rightarrow> string" where
  "destinationRealmForPeer w mmeHost p =
     (let realm = pe_RemoteRealm (snd (sw_heap w p)) in if realm \<noteq> [] then realm else host_realm mmeHost)"

section \<open>Sending a message\<close>

definition first_code :: "avp list \<Rightarrow> 32 word option" where
  "first_code children = first_some (\<lambda>c. if avp_Code c = CodeExperimentalResultCode \<and> avp_VendorID c = 0
     then (case avp_Uint32 c of Ok v \<Rightarrow> Some v | _ \<Rightarrow> None) else None) children"

definition resultCodeOK :: "dmsg \<Rightarrow> 32 word option" where
  "resultCodeOK msg =
     (case (case FindAVP msg CodeResultCode 0 of Some a \<Rightarrow> avp_Uint32 a | None \<Rightarrow> Err []) of
        Ok code \<Rightarrow> Some code
      | _ \<Rightarrow>
          (case FindAVP msg CodeExperimentalResult 0 of
             Some a \<Rightarrow> (case DecodeGrouped a of Ok children \<Rightarrow> first_code children | _ \<Rightarrow> None)
           | None \<Rightarrow> None))"

definition sgd_resultCode :: "dmsg \<Rightarrow> 32 word" where
  "sgd_resultCode msg = (case resultCodeOK msg of Some code \<Rightarrow> code | None \<Rightarrow> DiameterUnableToComply)"

definition buildOFRRequest :: "string \<Rightarrow> string \<Rightarrow> string \<Rightarrow> string \<Rightarrow> string \<Rightarrow> avp list \<Rightarrow> id_state \<Rightarrow> dmsg \<times> id_state" where
  "buildOFRRequest sid localFQDN localRealm mmeHost mmeRealm avps g =
     (let (req, g) = NewRequest CmdMTForwardShortMessage App3GPP_SGd g in
      (Add_AVPs ([NewString CodeSessionID 0 FlagMandatory sid,
          NewUint32 CodeAuthSessionState 0 FlagMandatory AuthSessionStateNoStateMaintained,
          NewString CodeOriginHost 0 FlagMandatory localFQDN, NewString CodeOriginRealm 0 FlagMandatory localRealm,
          NewString CodeDestinationHost 0 FlagMandatory mmeHost,
          NewString CodeDestinationRealm 0 FlagMandatory mmeRealm] @ avps) req, g))"

definition trackPendingOFR :: "32 word \<Rightarrow> sgd_server \<Rightarrow> sgd_server" where
  "trackPendingOFR hopByHop s = s\<lparr>sv_pendingOFR := (sv_pendingOFR s)(hopByHop \<mapsto> None)\<rparr>"

definition untrackPendingOFR :: "32 word \<Rightarrow> sgd_server \<Rightarrow> sgd_server" where
  "untrackPendingOFR hopByHop s = s\<lparr>sv_pendingOFR := (sv_pendingOFR s)(hopByHop := None)\<rparr>"

text \<open>
  The first half of \<open>SendOFR\<close>: choose a peer, build the request, enter it in the table and queue it. The
  result is the error, or the hop-by-hop identifier to wait for.
\<close>

definition start_OFR ::
  "string list \<Rightarrow> string list \<Rightarrow> gotime \<Rightarrow> string \<Rightarrow> message \<Rightarrow> string \<Rightarrow> string \<Rightarrow> sgd_world \<Rightarrow>
    (send_error + 32 word) \<times> sgd_world" where
  "start_OFR outs ins now sid msg mmeHost scAddr w =
     (let s = sw_server w in
      case selectPeerForMMELocked outs ins w mmeHost of
        None \<Rightarrow> (Inl (SendError (''sgd: no active peer for MME '' @ quoted mmeHost)), w)
      | Some (p, viaProxy) \<Rightarrow>
          (case EncodeOFR now msg scAddr (sv_scAddrEncoding s) of
             Ok avps \<Rightarrow>
               (let (req, g) = buildOFRRequest sid (sv_localFQDN s) (sv_localRealm s) mmeHost
                      (destinationRealmForPeer w mmeHost p) avps (sw_ids w);
                    hbh = dh_HopByHop (dm_Header req);
                    w = sgd_update (trackPendingOFR hbh) (w\<lparr>sw_ids := g\<rparr>);
                    (sent, w) = sgd_Send p req w in
                if sent then (Inr hbh, w)
                else (Inl (SendError ''sgd OFR send''), sgd_update (untrackPendingOFR hbh) w))
           | Err e \<Rightarrow> (Inl (SendError (''sgd OFR encode: '' @ e)), w)
           | Panic \<Rightarrow> (Inl (SendError ''panic''), w)))"

text \<open>
  The second half: the messages dispatched while it waits, up to the timeout of five seconds, and what
  it makes of the first answer in its channel.
\<close>

definition sgd_channel :: "32 word \<Rightarrow> sgd_world \<Rightarrow> dmsg option" where
  "sgd_channel hbh w = (case sv_pendingOFR (sw_server w) hbh of Some ch \<Rightarrow> ch | None \<Rightarrow> None)"

definition sgd_receive :: "gotime \<Rightarrow> string \<times> nat \<times> dmsg \<Rightarrow> sgd_world \<Rightarrow> sgd_world" where
  "sgd_receive now e w = (case e of (sid, p, msg) \<Rightarrow> sgd_dispatch now sid p msg w)"

definition await_OFR :: "gotime \<Rightarrow> 32 word \<Rightarrow> (string \<times> nat \<times> dmsg) list \<Rightarrow> sgd_world \<Rightarrow> send_error option \<times> sgd_world" where
  "await_OFR now hbh inbound w =
     (let (reply, w) = await_answer (sgd_channel hbh) (sgd_receive now) inbound w in
      (case reply of
         Some ans \<Rightarrow> if sgd_resultCode ans \<noteq> DiameterSuccess then Some (OFAResultError (sgd_resultCode ans)) else None
       | None \<Rightarrow> Some (SendError ''sgd: OFA timeout after 5s''),
       sgd_update (untrackPendingOFR hbh) w))"

definition SendOFR ::
  "string list \<Rightarrow> string list \<Rightarrow> gotime \<Rightarrow> string \<Rightarrow> (string \<times> nat \<times> dmsg) list \<Rightarrow> message \<Rightarrow> string \<Rightarrow> string \<Rightarrow>
    sgd_world \<Rightarrow> send_error option \<times> sgd_world" where
  "SendOFR outs ins now sid inbound msg mmeHost scAddr w =
     (case start_OFR outs ins now sid msg mmeHost scAddr w of
        (Inl e, w) \<Rightarrow> (Some e, w)
      | (Inr hbh, w) \<Rightarrow> await_OFR now hbh inbound w)"

section \<open>The tables of peers\<close>

definition unregisterPeerLocked :: "string \<Rightarrow> nat \<Rightarrow> sgd_world \<Rightarrow> sgd_world" where
  "unregisterPeerLocked name p w = sgd_update (\<lambda>s. s\<lparr>sv_peers :=
     (if sgd_fqdn w p \<noteq> [] then ((sv_peers s)(name := None))(sgd_fqdn w p := None) else (sv_peers s)(name := None))\<rparr>) w"

text \<open>The handlers of an outbound peer: it is entered under the name it gave, or the configured one.\<close>

definition AttachOutboundPeer :: "string \<Rightarrow> nat \<Rightarrow> sgd_world \<Rightarrow> sgd_world" where
  "AttachOutboundPeer name p = sgd_update (\<lambda>s. s\<lparr>sv_outboundPeers := (sv_outboundPeers s)(name \<mapsto> p)\<rparr>)"

definition outbound_opened :: "string \<Rightarrow> nat \<Rightarrow> sgd_world \<Rightarrow> sgd_world" where
  "outbound_opened name p w = sgd_update (\<lambda>s. s\<lparr>sv_peers := (sv_peers s)
     ((if sgd_fqdn w p = [] then name else sgd_fqdn w p) \<mapsto> p)\<rparr>) w"

definition attached_dispatch :: "gotime \<Rightarrow> string \<Rightarrow> nat \<Rightarrow> dmsg \<Rightarrow> sgd_world \<Rightarrow> sgd_world" where
  "attached_dispatch now sid p msg w =
     (if dh_AppID (dm_Header msg) \<noteq> App3GPP_SGd then w else sgd_dispatch now sid p msg w)"

definition DetachOutboundPeer :: "string \<Rightarrow> sgd_world \<Rightarrow> sgd_world" where
  "DetachOutboundPeer name w =
     (case sv_outboundPeers (sw_server w) name of
        Some p \<Rightarrow> unregisterPeerLocked name p
          (sgd_update (\<lambda>s. s\<lparr>sv_outboundPeers := (sv_outboundPeers s)(name := None)\<rparr>) w)
      | None \<Rightarrow> w)"

definition stop_peer :: "nat \<Rightarrow> sgd_world \<Rightarrow> sgd_world" where
  "stop_peer p w = w\<lparr>sw_heap := (sw_heap w)(p := (fst (sw_heap w p), peer_Stop (snd (sw_heap w p))))\<rparr>"

definition RemoveOutboundPeer :: "string \<Rightarrow> sgd_world \<Rightarrow> sgd_world" where
  "RemoveOutboundPeer name w =
     (case sv_outboundPeers (sw_server w) name of
        Some p \<Rightarrow> stop_peer p (DetachOutboundPeer name w)
      | None \<Rightarrow> w)"

text \<open>The new peer \<open>p\<close> replaces one of the same name, which is stopped but not taken out of the table of peers here.\<close>

definition AddOutboundPeer :: "string \<Rightarrow> nat \<Rightarrow> sgd_world \<Rightarrow> sgd_world" where
  "AddOutboundPeer name p w = AttachOutboundPeer name p
     (case sv_outboundPeers (sw_server w) name of Some old \<Rightarrow> stop_peer old w | None \<Rightarrow> w)"

text \<open>
  A connection of an MME: entered under its transport address when it is accepted, under its name
  as well once the exchange is over, and taken out under both when it ends (by the close handler and
  again by the thread that ran it).
\<close>

definition inbound_accepted :: "string \<Rightarrow> nat \<Rightarrow> sgd_world \<Rightarrow> sgd_world" where
  "inbound_accepted remote p = sgd_update (\<lambda>s. s\<lparr>sv_peers := (sv_peers s)(remote \<mapsto> p)\<rparr>)"

definition inbound_opened :: "nat \<Rightarrow> sgd_world \<Rightarrow> sgd_world" where
  "inbound_opened p w = (if sgd_fqdn w p \<noteq> []
     then sgd_update (\<lambda>s. s\<lparr>sv_peers := (sv_peers s)(sgd_fqdn w p \<mapsto> p)\<rparr>) w else w)"

definition inbound_ended :: "string \<Rightarrow> nat \<Rightarrow> sgd_world \<Rightarrow> sgd_world" where
  "inbound_ended remote p w = unregisterPeerLocked remote p (unregisterPeerLocked remote p w)"

section \<open>Requests that wait for the network\<close>

definition trackPendingMO :: "string \<Rightarrow> nat \<Rightarrow> dmsg \<Rightarrow> sgd_server \<Rightarrow> sgd_server" where
  "trackPendingMO messageID p req s = s\<lparr>sv_pendingMO := (sv_pendingMO s)(messageID \<mapsto> (p, req))\<rparr>"

definition finishPendingMO :: "string \<Rightarrow> 32 word \<Rightarrow> bytes \<Rightarrow> sgd_world \<Rightarrow> bool \<times> sgd_world" where
  "finishPendingMO messageID resultCode smRPUI w =
     (case sv_pendingMO (sw_server w) messageID of
        None \<Rightarrow> (False, w)
      | Some (p, req) \<Rightarrow>
          (True, sendAnswerWithAVPs p req resultCode
             (if smRPUI \<noteq> [] then [NewOctetString CodeSMRPUI Vendor3GPP 0xC0 smRPUI] else [])
             (sgd_update (\<lambda>s. s\<lparr>sv_pendingMO := (sv_pendingMO s)(messageID := None)\<rparr>) w)))"

definition encodeSubmitReportAck :: "gotime \<Rightarrow> bytes" where
  "encodeSubmitReportAck now = [0x01, 0x00] @ encodeSCTS now"

definition mapISCResultToSGdAnswer :: "gotime \<Rightarrow> bytes \<Rightarrow> 32 word \<times> bytes" where
  "mapISCResultToSGdAnswer now body =
     (case body of
        [] \<Rightarrow> (DiameterUnableToComply, [])
      | b # _ \<Rightarrow> if b AND 0x07 \<in> {0x02, 0x03} then (DiameterSuccess, encodeSubmitReportAck now)
          else (DiameterUnableToComply, []))"

definition CompleteMO :: "gotime \<Rightarrow> string \<Rightarrow> bytes \<Rightarrow> sgd_world \<Rightarrow> bool \<times> sgd_world" where
  "CompleteMO now messageID rpBody w =
     (let (resultCode, smRPUI) = mapISCResultToSGdAnswer now rpBody in finishPendingMO messageID resultCode smRPUI w)"

section \<open>Requests on behalf of the centre\<close>

definition buildAlertSCRequest ::
  "string \<Rightarrow> peer_cfg \<Rightarrow> string \<Rightarrow> string \<Rightarrow> string \<Rightarrow> string \<Rightarrow> string \<Rightarrow> id_state \<Rightarrow> dmsg \<times> id_state" where
  "buildAlertSCRequest sid cfg remoteFQDN remoteRealm msisdn scAddr scAddrEncoding g =
     (let (req, g) = NewRequest CmdAlertServiceCentre App3GPP_SGd g in
      (Add_AVPs ([NewString CodeSessionID 0 FlagMandatory sid,
          NewUint32 CodeAuthSessionState 0 FlagMandatory AuthSessionStateNoStateMaintained] @ origin_avps cfg @
         [NewString CodeDestinationHost 0 FlagMandatory remoteFQDN, NewString CodeDestinationRealm 0 FlagMandatory remoteRealm,
          NewOctetString CodeMSISDN Vendor3GPP 0xC0 (encodeBCDMSISDN msisdn),
          NewOctetString CodeSCAddress Vendor3GPP 0xC0
            (if scAddrEncoding = ''ascii_digits'' then bytes_of_string (trim_plus scAddr) else encodeBCDDigits (trim_plus scAddr))]) req, g))"

definition SendAlertSC :: "string \<Rightarrow> nat \<Rightarrow> string \<Rightarrow> string \<Rightarrow> string \<Rightarrow> sgd_world \<Rightarrow> bool \<times> sgd_world" where
  "SendAlertSC sid p msisdn scAddr scAddrEncoding w =
     (let (cfg, pe) = sw_heap w p;
          (req, g) = buildAlertSCRequest sid cfg (pe_RemoteFQDN pe) (pe_RemoteRealm pe) msisdn scAddr scAddrEncoding (sw_ids w)
      in sgd_Send p req (w\<lparr>sw_ids := g\<rparr>))"

definition SendRSR :: "string \<Rightarrow> nat \<Rightarrow> string \<Rightarrow> string \<Rightarrow> string \<Rightarrow> 32 word \<Rightarrow> sgd_world \<Rightarrow> bool \<times> sgd_world" where
  "SendRSR sid p msisdn scAddr scAddrEncoding outcome w =
     (let (cfg, pe) = sw_heap w p; (req, g) = NewRequest CmdReportSMDeliveryStatus App3GPP_SGd (sw_ids w) in
      sgd_Send p (Add_AVPs ([NewString CodeSessionID 0 FlagMandatory sid] @ origin_avps cfg @
         [NewString CodeDestinationHost 0 FlagMandatory (pe_RemoteFQDN pe),
          NewString CodeDestinationRealm 0 FlagMandatory (pe_RemoteRealm pe)] @
         EncodeRSR msisdn scAddr scAddrEncoding outcome) req) (w\<lparr>sw_ids := g\<rparr>))"

section \<open>Lemmas\<close>

lemma sgd_fields [simp]:
  "sw_heap (sgd_call c w) = sw_heap w" "sw_heap (sgd_update f w) = sw_heap w"
  "sw_server (sgd_call c w) = sw_server w" "sw_server (sgd_update f w) = f (sw_server w)"
  "sw_calls (sgd_update f w) = sw_calls w" "sw_ids (sgd_update f w) = sw_ids w"
  "sgd_fqdn (sgd_call c w) p = sgd_fqdn w p" "sgd_fqdn (sgd_update f w) p = sgd_fqdn w p"
  by (simp_all add: sgd_call_def sgd_update_def sgd_fqdn_def)

lemma server_Send [simp]: "sw_server (snd (sgd_Send p m w)) = sw_server w"
  by (simp add: sgd_Send_def split_beta Let_def)

lemma server_answer [simp]: "sw_server (sendAnswer p req rc w) = sw_server w"
  by (simp add: sendAnswer_def sendAnswerWithAVPs_def)

lemma heap_Send:
  "pe_state (snd (sw_heap w p)) = StateOpen \<Longrightarrow> length (pe_writeCh (snd (sw_heap w p))) < 64 \<Longrightarrow>
    sgd_Send p m w = (True, w\<lparr>sw_heap := (sw_heap w)(p := (fst (sw_heap w p),
      (snd (sw_heap w p))\<lparr>pe_writeCh := pe_writeCh (snd (sw_heap w p)) @ [m]\<rparr>))\<rparr>)"
  by (simp add: sgd_Send_def peer_Send_def split_beta Let_def)

lemma heap_answer:
  "pe_state (snd (sw_heap w p)) = StateOpen \<Longrightarrow> length (pe_writeCh (snd (sw_heap w p))) < 64 \<Longrightarrow>
    sw_heap (sendAnswer p req rc w) = (sw_heap w)(p := (fst (sw_heap w p), (snd (sw_heap w p))\<lparr>pe_writeCh :=
      pe_writeCh (snd (sw_heap w p)) @ [sgd_answer (fst (sw_heap w p)) req rc []]\<rparr>))"
  by (simp add: sendAnswer_def sendAnswerWithAVPs_def heap_Send)

definition sgd_accepts :: "gotime \<Rightarrow> dmsg \<Rightarrow> sgd_server \<Rightarrow> bool" where
  "sgd_accepts now req s \<longleftrightarrow>
     (let cmd = dh_CommandCode (dm_Header req) in
      if cmd = CmdAlertServiceCentre
      then (case sgd_parseAlertServiceCentre req of
          Ok a \<Rightarrow> (case sv_onAlertSC s of Some fn \<Rightarrow> fn a | None \<Rightarrow> True) | _ \<Rightarrow> False)
      else (case decodeSMRPUI now req of Ok m \<Rightarrow> cmd = CmdMTForwardShortMessage \<or> sv_onMsg s | _ \<Rightarrow> False))"

lemma heap_dispatch:
  assumes "IsRequest req" "dh_CommandCode (dm_Header req) \<in> {CmdMTForwardShortMessage, CmdMOForwardShortMessage, CmdAlertServiceCentre}"
  shows "sw_heap (sgd_dispatch now sid p req w) =
    sw_heap (sendAnswer p req (if sgd_accepts now req (sw_server w) then DiameterSuccess else DiameterUnableToComply) w)"
proof -
  have c: "sw_heap (sendAnswer p req rc (sgd_call c w)) = sw_heap (sendAnswer p req rc w)" for rc c
    by (simp add: sendAnswer_def sendAnswerWithAVPs_def sgd_Send_def split_beta Let_def)
  show ?thesis using assms
    by (auto simp: sgd_dispatch_def sgd_accepts_def HandleOFR_def handleMOForwardRequest_def
        handleAlertServiceCentreRequest_def Let_def c split: outcome.splits option.splits)
qed

lemma sgd_answer_fields:
  "dh_HopByHop (dm_Header (sgd_answer cfg req rc extra)) = dh_HopByHop (dm_Header req)"
  "dh_EndToEnd (dm_Header (sgd_answer cfg req rc extra)) = dh_EndToEnd (dm_Header req)"
  "dh_CommandCode (dm_Header (sgd_answer cfg req rc extra)) = dh_CommandCode (dm_Header req)"
  "\<not> IsRequest (sgd_answer cfg req rc extra)"
  "FindAVP (sgd_answer cfg req rc extra) CodeResultCode 0 = Some (NewUint32 CodeResultCode 0 FlagMandatory rc)"
  "map_option avp_Data (FindAVP (sgd_answer cfg req rc extra) CodeSessionID 0) = map_option avp_Data (FindAVP req CodeSessionID 0)"
  if "\<not> (\<exists>a \<in> set extra. avp_Code a = CodeSessionID)"
proof -
  have "(f AND NOT 0x80 AND NOT 0x10) AND 0x80 = (0 :: byte)" for f
    by (simp add: and.assoc and.commute [of _ "0x80"] and.left_commute [of "0x80"])
  then show "\<not> IsRequest (sgd_answer cfg req rc extra)"
    by (simp add: IsRequest_def sgd_answer_def Add_AVPs_def NewAnswer_def Let_def)
  have "find (\<lambda>a. avp_Code a = CodeSessionID \<and> avp_VendorID a = 0) extra = None"
    using that by (auto simp: find_None_iff)
  then show "map_option avp_Data (FindAVP (sgd_answer cfg req rc extra) CodeSessionID 0) = map_option avp_Data (FindAVP req CodeSessionID 0)"
    by (auto simp: sgd_answer_def FindAVP_def Add_AVPs_def NewAnswer_def Let_def NewString_def NewUint32_def
        authSessionStateFromRequest_def origin_avps_def split: option.split)
qed (auto simp: sgd_answer_def FindAVP_def Add_AVPs_def NewAnswer_def Let_def NewString_def NewUint32_def split: option.split)

text \<open>Whether a message is an answer to a request.\<close>

definition ofr_answer :: "32 word \<Rightarrow> string \<times> nat \<times> dmsg \<Rightarrow> dmsg option" where
  "ofr_answer hbh e = (case e of (sid, p, m) \<Rightarrow>
     if dh_CommandCode (dm_Header m) = CmdMTForwardShortMessage \<and> \<not> IsRequest m \<and> dh_HopByHop (dm_Header m) = hbh
     then Some m else None)"

lemma pending_dispatch:
  "sv_pendingOFR (sw_server (sgd_dispatch now sid p m w)) hbh =
    (if ofr_answer hbh (sid, p, m) \<noteq> None \<and> sv_pendingOFR (sw_server w) hbh = Some None then Some (Some m)
     else sv_pendingOFR (sw_server w) hbh)"
  by (auto simp: sgd_dispatch_def HandleOFR_def handleMOForwardRequest_def handleAlertServiceCentreRequest_def
      ofr_answer_def sgd_deliver_answer_def Let_def split: outcome.splits option.splits)

interpretation ofr: correlation "\<lambda>w. sv_pendingOFR (sw_server w) hbh = Some None" "sgd_channel hbh" "sgd_receive now" "ofr_answer hbh"
  for hbh now
proof
  show "sv_pendingOFR (sw_server w) hbh = Some None \<Longrightarrow> sgd_channel hbh w = None" for w
    by (simp add: sgd_channel_def)
  show "sv_pendingOFR (sw_server w) hbh = Some None \<Longrightarrow> ofr_answer hbh e = None \<Longrightarrow>
      sv_pendingOFR (sw_server (sgd_receive now e w)) hbh = Some None" for w e
    by (cases e) (simp add: sgd_receive_def pending_dispatch)
  show "sv_pendingOFR (sw_server w) hbh = Some None \<Longrightarrow> ofr_answer hbh e = Some m \<Longrightarrow>
      sgd_channel hbh (sgd_receive now e w) = Some m" for w e m
    by (cases e) (auto simp: sgd_receive_def sgd_channel_def pending_dispatch ofr_answer_def split: if_splits)
qed

definition ofr_verdict :: "dmsg option \<Rightarrow> send_error option" where
  "ofr_verdict reply = (case reply of
     None \<Rightarrow> Some (SendError ''sgd: OFA timeout after 5s'')
   | Some ans \<Rightarrow> if sgd_resultCode ans \<noteq> DiameterSuccess then Some (OFAResultError (sgd_resultCode ans)) else None)"

lemma await_OFR_verdict:
  "sv_pendingOFR (sw_server w) hbh = Some None \<Longrightarrow>
    fst (await_OFR now hbh inbound w) = ofr_verdict (first_some (ofr_answer hbh) inbound)"
  using ofr.await_first [of w hbh now inbound]
  by (simp add: await_OFR_def ofr_verdict_def split_beta Let_def)

lemma await_OFR_forgets: "sv_pendingOFR (sw_server (snd (await_OFR now hbh inbound w))) hbh = None"
  by (simp add: await_OFR_def split_beta Let_def untrackPendingOFR_def)

lemma start_OFR_sent:
  assumes "selectPeerForMMELocked outs ins w mmeHost = Some (p, viaProxy)"
    and "EncodeOFR now msg scAddr (sv_scAddrEncoding (sw_server w)) = Ok avps"
    and "pe_state (snd (sw_heap w p)) = StateOpen" "length (pe_writeCh (snd (sw_heap w p))) < 64"
  obtains req w' where "start_OFR outs ins now sid msg mmeHost scAddr w = (Inr (ids_hopByHopCounter (sw_ids w) + 1), w')"
    and "sv_pendingOFR (sw_server w') (ids_hopByHopCounter (sw_ids w) + 1) = Some None"
    and "pe_writeCh (snd (sw_heap w' p)) = pe_writeCh (snd (sw_heap w p)) @ [req]" "\<forall>a \<in> set avps. a \<in> set (dm_AVPs req)"
proof -
  let ?r = "buildOFRRequest sid (sv_localFQDN (sw_server w)) (sv_localRealm (sw_server w)) mmeHost
    (destinationRealmForPeer w mmeHost p) avps (sw_ids w)"
  let ?h = "ids_hopByHopCounter (sw_ids w) + 1"
  let ?w = "sgd_update (trackPendingOFR ?h) (w\<lparr>sw_ids := snd ?r\<rparr>)"
  have h: "dh_HopByHop (dm_Header (fst ?r)) = ?h"
    by (simp add: buildOFRRequest_def NewRequest_def NextHopByHop_def NextEndToEnd_def Let_def Add_AVPs_def)
  have a: "\<forall>a \<in> set avps. a \<in> set (dm_AVPs (fst ?r))"
    by (simp add: buildOFRRequest_def NewRequest_def NextHopByHop_def NextEndToEnd_def Let_def Add_AVPs_def)
  have w: "sw_heap ?w = sw_heap w" by simp
  have s: "sgd_Send p (fst ?r) ?w = (True, ?w\<lparr>sw_heap := (sw_heap w)(p := (fst (sw_heap w p),
      (snd (sw_heap w p))\<lparr>pe_writeCh := pe_writeCh (snd (sw_heap w p)) @ [fst ?r]\<rparr>))\<rparr>)"
    using heap_Send [of ?w p "fst ?r"] assms(3,4) unfolding w by simp
  have "start_OFR outs ins now sid msg mmeHost scAddr w = (Inr ?h, snd (sgd_Send p (fst ?r) ?w))"
    using s h by (simp add: start_OFR_def assms(1,2) Let_def split_beta)
  then show thesis using that [of "snd (sgd_Send p (fst ?r) ?w)" "fst ?r"] s a
    by (simp add: sgd_update_def trackPendingOFR_def)
qed

lemma outbound_found:
  assumes "sgd_orders w outs ins"
  shows "first_some (active_outbound w) outs \<noteq> None \<longleftrightarrow>
    (\<exists>name p. sv_outboundPeers (sw_server w) name = Some p \<and> peerIsActiveLocked w name p)"
proof -
  have "active_outbound w name \<noteq> None \<longleftrightarrow> (\<exists>p. sv_outboundPeers (sw_server w) name = Some p \<and> peerIsActiveLocked w name p)" for name
    by (auto simp: active_outbound_def split: option.split)
  moreover have "set outs = dom (sv_outboundPeers (sw_server w))" using assms by (simp add: sgd_orders_def)
  ultimately show ?thesis unfolding first_some_None by blast
qed

lemma other_found:
  assumes "sgd_orders w outs ins"
  shows "first_some (other_peer w mmeHost) ins \<noteq> None \<longleftrightarrow>
    (\<exists>p. sgd_fqdn w p \<noteq> [] \<and> sgd_fqdn w p \<noteq> mmeHost \<and> sv_peers (sw_server w) (sgd_fqdn w p) = Some p)"
proof
  assume "first_some (other_peer w mmeHost) ins \<noteq> None"
  then obtain key p where "other_peer w mmeHost key = Some p" unfolding first_some_None by auto
  then show "\<exists>p. sgd_fqdn w p \<noteq> [] \<and> sgd_fqdn w p \<noteq> mmeHost \<and> sv_peers (sw_server w) (sgd_fqdn w p) = Some p"
    by (auto simp: other_peer_def split: option.splits if_splits)
next
  assume "\<exists>p. sgd_fqdn w p \<noteq> [] \<and> sgd_fqdn w p \<noteq> mmeHost \<and> sv_peers (sw_server w) (sgd_fqdn w p) = Some p"
  then obtain p where p: "sgd_fqdn w p \<noteq> []" "sgd_fqdn w p \<noteq> mmeHost" "sv_peers (sw_server w) (sgd_fqdn w p) = Some p" by blast
  then have "sgd_fqdn w p \<in> set ins" using assms by (simp add: sgd_orders_def dom_def)
  moreover have "other_peer w mmeHost (sgd_fqdn w p) = Some p" using p by (simp add: other_peer_def)
  ultimately show "first_some (other_peer w mmeHost) ins \<noteq> None" unfolding first_some_None by (metis option.distinct(1))
qed

section \<open>All that can happen\<close>

text \<open>The operations of the server, the peers running beside it (any change of the heap), in any order.\<close>

inductive sgd_step :: "sgd_world \<Rightarrow> sgd_world \<Rightarrow> bool" where
  sgd_receives: "sgd_step w (sgd_dispatch now sid p m w)"
| sgd_shared_receives: "sgd_step w (attached_dispatch now sid p m w)"
| sgd_starts: "start_OFR outs ins now sid msg mmeHost scAddr w = (r, w') \<Longrightarrow> sgd_step w w'"
| sgd_finishes: "sgd_step w (sgd_update (untrackPendingOFR hbh) w)"
| sgd_completes: "sgd_step w (snd (CompleteMO now mid body w))"
| sgd_alerts: "sgd_step w (snd (SendAlertSC sid p msisdn scAddr enc w))"
| sgd_reports: "sgd_step w (snd (SendRSR sid p msisdn scAddr enc rc w))"
| sgd_adds: "sgd_step w (AddOutboundPeer name p w)"
| sgd_attaches: "sgd_step w (AttachOutboundPeer name p w)"
| sgd_detaches: "sgd_step w (DetachOutboundPeer name w)"
| sgd_removes: "sgd_step w (RemoveOutboundPeer name w)"
| sgd_outbound_opens: "sgd_step w (outbound_opened name p w)"
| sgd_accepts_connection: "sgd_step w (inbound_accepted remote p w)"
| sgd_inbound_opens: "sgd_step w (inbound_opened p w)"
| sgd_unregisters: "sgd_step w (unregisterPeerLocked name p w)"
| sgd_peers_run: "sgd_step w (w\<lparr>sw_heap := h\<rparr>)"
| sgd_sets_callbacks: "sgd_step w (sgd_update (\<lambda>s. s\<lparr>sv_onMsg := b, sv_onAlertSC := f\<rparr>) w)"

inductive_cases sgd_stepE: "sgd_step w w'"

lemma unregister_fields [simp]:
  "sv_pendingMO (sw_server (unregisterPeerLocked name p w)) = sv_pendingMO (sw_server w)"
  by (simp add: unregisterPeerLocked_def)

lemma pendingMO_dispatch: "sv_pendingMO (sw_server (sgd_dispatch now sid p m w)) = sv_pendingMO (sw_server w)"
  by (auto simp: sgd_dispatch_def HandleOFR_def handleMOForwardRequest_def handleAlertServiceCentreRequest_def
      sgd_deliver_answer_def Let_def split: outcome.splits option.splits)

lemma pendingMO_start:
  "start_OFR outs ins now sid msg mmeHost scAddr w = (r, w') \<Longrightarrow> sv_pendingMO (sw_server w') = sv_pendingMO (sw_server w)"
  by (auto simp: start_OFR_def Let_def split_beta untrackPendingOFR_def trackPendingOFR_def
      split: option.splits outcome.splits if_splits)

lemma CompleteMO_empty: "sv_pendingMO (sw_server w) = Map.empty \<Longrightarrow> CompleteMO now mid body w = (False, w)"
  by (simp add: CompleteMO_def split_beta finishPendingMO_def)

lemma pendingMO_step:
  assumes "sgd_step w w'" "sv_pendingMO (sw_server w) = Map.empty"
  shows "sv_pendingMO (sw_server w') = Map.empty"
  using assms
  by (cases rule: sgd_stepE)
    (auto simp: pendingMO_dispatch attached_dispatch_def pendingMO_start untrackPendingOFR_def CompleteMO_empty
      SendAlertSC_def SendRSR_def AddOutboundPeer_def AttachOutboundPeer_def DetachOutboundPeer_def RemoveOutboundPeer_def
      outbound_opened_def inbound_accepted_def inbound_opened_def stop_peer_def split_beta Let_def split: option.split)

section \<open>Properties\<close>


text \<open>
  C18: What becomes of a message sent to an open peer is decided by the first answer to its hop-by-hop
  identifier that arrives within the timeout, whichever peer it comes from: it is delivered when that
  says success, waits for an alert when the terminal is absent, and is tried again later otherwise.
\<close>

theorem sgd_send_outcome:
  assumes "selectPeerForMMELocked outs ins w mmeHost = Some (p, viaProxy)"
    and "EncodeOFR now msg scAddr (sv_scAddrEncoding (sw_server w)) = Ok avps"
    and "pe_state (snd (sw_heap w p)) = StateOpen" "length (pe_writeCh (snd (sw_heap w p))) < 64"
    and "rt_egressIface route = InterfaceSGd"
  shows "(case fst (SendOFR outs ins now sid inbound msg mmeHost scAddr w) of
       None \<Rightarrow> RouteDelivered | Some e \<Rightarrow> classifyRouteError route e) =
     (case first_some (ofr_answer (ids_hopByHopCounter (sw_ids w) + 1)) inbound of
        None \<Rightarrow> RouteWaitTimer
      | Some ans \<Rightarrow> if sgd_resultCode ans = DiameterSuccess then RouteDelivered
          else if sgd_resultCode ans = DiameterUnableToDeliver then RouteWaitEvent else RouteWaitTimer)"
proof -
  let ?h = "ids_hopByHopCounter (sw_ids w) + 1"
  obtain req w' where w': "start_OFR outs ins now sid msg mmeHost scAddr w = (Inr ?h, w')"
    "sv_pendingOFR (sw_server w') ?h = Some None" using start_OFR_sent [OF assms(1-4)] .
  have "fst (SendOFR outs ins now sid inbound msg mmeHost scAddr w) = ofr_verdict (first_some (ofr_answer ?h) inbound)"
    using await_OFR_verdict [OF w'(2)] by (simp add: SendOFR_def w'(1))
  then show ?thesis using assms(5)
    by (auto simp: ofr_verdict_def classifyRouteError_def split: option.split)
qed

text \<open>
  A peer is found for a terminal's MME exactly when the MME itself is registered, or an outbound
  peer is active, or some other peer is registered under its own name, in whatever order the tables
  are gone through; the MME itself always comes first.
\<close>

theorem sgd_peer_selection:
  assumes "sgd_orders w outs ins"
  shows "(HasPeerForMME outs ins w mmeHost \<longleftrightarrow> sv_peers (sw_server w) mmeHost \<noteq> None \<or>
      (\<exists>name p. sv_outboundPeers (sw_server w) name = Some p \<and> peerIsActiveLocked w name p) \<or>
      (\<exists>p. sgd_fqdn w p \<noteq> [] \<and> sgd_fqdn w p \<noteq> mmeHost \<and> sv_peers (sw_server w) (sgd_fqdn w p) = Some p)) \<and>
    (\<forall>p. selectPeerForMMELocked outs ins w mmeHost = Some (p, False) \<longleftrightarrow> sv_peers (sw_server w) mmeHost = Some p)"
proof (intro conjI allI)
  have o: "first_some (active_outbound w) outs \<noteq> None \<longleftrightarrow>
      (\<exists>name p. sv_outboundPeers (sw_server w) name = Some p \<and> peerIsActiveLocked w name p)"
    using assms by (rule outbound_found)
  have i: "first_some (other_peer w mmeHost) ins \<noteq> None \<longleftrightarrow>
      (\<exists>p. sgd_fqdn w p \<noteq> [] \<and> sgd_fqdn w p \<noteq> mmeHost \<and> sv_peers (sw_server w) (sgd_fqdn w p) = Some p)"
    using assms by (rule other_found)
  show "HasPeerForMME outs ins w mmeHost \<longleftrightarrow> sv_peers (sw_server w) mmeHost \<noteq> None \<or>
      (\<exists>name p. sv_outboundPeers (sw_server w) name = Some p \<and> peerIsActiveLocked w name p) \<or>
      (\<exists>p. sgd_fqdn w p \<noteq> [] \<and> sgd_fqdn w p \<noteq> mmeHost \<and> sv_peers (sw_server w) (sgd_fqdn w p) = Some p)"
    unfolding o [symmetric] i [symmetric]
    by (cases "sv_peers (sw_server w) mmeHost"; cases "first_some (active_outbound w) outs")
      (simp_all add: HasPeerForMME_def selectPeerForMMELocked_def)
  show "selectPeerForMMELocked outs ins w mmeHost = Some (p, False) \<longleftrightarrow> sv_peers (sw_server w) mmeHost = Some p" for p
    by (auto simp: selectPeerForMMELocked_def split: option.splits)
qed

text \<open>
  When an MME has connected anew before its old connection ends, the end of the old one takes the
  new one out of the table as well: the MME counts as not registered although its new connection is open.
\<close>

theorem sgd_reconnect_unregisters:
  assumes "sgd_fqdn w old = mme" "sgd_fqdn w new = mme" "mme \<noteq> []"
  shows "sv_peers (sw_server (inbound_opened new w)) mme = Some new \<and>
    sv_peers (sw_server (inbound_ended remote old (inbound_opened new w))) mme = None \<and>
    sw_heap (inbound_ended remote old (inbound_opened new w)) new = sw_heap w new"
  using assms by (simp add: inbound_opened_def inbound_ended_def unregisterPeerLocked_def)

text \<open>
  No submission ever waits for its result from the network: whatever happens, the table of waiting
  submissions stays empty, and a result that comes in finds none.
\<close>

theorem sgd_results_never_match:
  assumes "sgd_step\<^sup>*\<^sup>* w w'" "sv_pendingMO (sw_server w) = Map.empty"
  shows "CompleteMO now messageID body w' = (False, w')"
proof -
  have "sv_pendingMO (sw_server w') = Map.empty" using assms
    by (induction rule: rtranclp_induct) (auto intro: pendingMO_step)
  then show ?thesis by (rule CompleteMO_empty)
qed

section \<open>Examples\<close>

definition open_peer :: "string \<Rightarrow> peer" where
  "open_peer fqdn = (example_peer [] Reading)\<lparr>pe_state := StateOpen, pe_RemoteFQDN := fqdn, pe_RemoteRealm := ''home''\<rparr>"

definition example_server :: sgd_server where
  "example_server = \<lparr>sv_localFQDN = ''smsc'', sv_localRealm = ''home'', sv_scAddrEncoding = ''tbcd'', sv_onMsg = True,
     sv_onAlertSC = None, sv_peers = [''mme1'' \<mapsto> 0], sv_outboundPeers = Map.empty, sv_pendingOFR = Map.empty,
     sv_pendingMO = Map.empty\<rparr>"

definition example_world :: sgd_world where
  "example_world = \<lparr>sw_server = example_server, sw_heap = (\<lambda>_. (example_cfg, open_peer ''mme1'')),
     sw_ids = \<lparr>ids_hopByHopCounter = 5, ids_endToEndBase = 0x100, ids_endToEndCounter = 0\<rparr>, sw_calls = []\<rparr>"

lemma example_world_peer:
  "pe_state (snd (sw_heap example_world 0)) = StateOpen" "pe_writeCh (snd (sw_heap example_world 0)) = []"
  "sgd_fqdn example_world p = ''mme1''" "sw_server example_world = example_server"
  by (simp_all add: example_world_def open_peer_def example_peer_def sgd_fqdn_def)


definition absent_answer :: dmsg where
  "absent_answer = \<lparr>dm_Header = \<lparr>dh_Version = 1, dh_Length = 0, dh_Flags = 0x40, dh_CommandCode = CmdMTForwardShortMessage,
     dh_AppID = App3GPP_SGd, dh_HopByHop = 6, dh_EndToEnd = 0x101\<rparr>,
     dm_AVPs = [NewUint32 CodeResultCode 0 FlagMandatory DiameterUnableToDeliver]\<rparr>"

lemma absent_answer_facts: "sgd_resultCode absent_answer = DiameterUnableToDeliver" "ofr_answer 6 (sid, 4, absent_answer) = Some absent_answer"
proof -
  have "w32 (put32 3002) = 3002" using w32_put32_end [of 3002] by simp
  moreover have "length (put32 3002) = 4" by (simp add: put32_def)
  ultimately show "sgd_resultCode absent_answer = DiameterUnableToDeliver"
    by (simp add: sgd_resultCode_def resultCodeOK_def absent_answer_def FindAVP_def NewUint32_def avp_Uint32_def)
  show "ofr_answer 6 (sid, 4, absent_answer) = Some absent_answer"
    by (simp add: ofr_answer_def absent_answer_def IsRequest_def)
qed

theorem sgd_send_outcome_witness:
  "(case fst (SendOFR [] [''mme1''] (go_date 2025 1 1 0 0 0 0) ''s'' [(''t'', 4, absent_answer)] example_forward ''mme1''
       ''15550000000'' example_world) of
      None \<Rightarrow> RouteDelivered | Some e \<Rightarrow> classifyRouteError (new_route 1 InterfaceSGd ''mme1'' [] [] 0) e) = RouteWaitEvent"
proof -
  obtain avps where a: "EncodeOFR (go_date 2025 1 1 0 0 0 0) example_forward ''15550000000''
      (sv_scAddrEncoding (sw_server example_world)) = Ok avps" using example_forward_encodes by blast
  have "selectPeerForMMELocked [] [''mme1''] example_world ''mme1'' = Some (0, False)"
    by (simp add: selectPeerForMMELocked_def example_world_peer example_server_def)
  from sgd_send_outcome [OF this a, of "new_route 1 InterfaceSGd ''mme1'' [] [] 0" "''s''" "[(''t'', 4, absent_answer)]"]
  show ?thesis
    by (simp add: example_world_peer new_route_def absent_answer_facts) (simp add: example_world_def absent_answer_facts)
qed

theorem sgd_peer_selection_witness:
  "HasPeerForMME [] [''mme1''] example_world ''mme2''"
  using sgd_peer_selection [of example_world "[]" "[''mme1'']" "''mme2''"]
  by (auto simp: example_world_peer example_server_def sgd_orders_def)

theorem sgd_reconnect_unregisters_witness:
  "sv_peers (sw_server (inbound_ended ''10.0.0.1:3868'' 0 (inbound_opened 1 example_world))) ''mme1'' = None"
  using sgd_reconnect_unregisters [of example_world 0 "''mme1''" 1 "''10.0.0.1:3868''"] by (simp add: example_world_peer)

theorem sgd_results_never_match_witness:
  "fst (CompleteMO (go_date 2025 1 1 0 0 0 0) ''id'' [2] (AttachOutboundPeer ''mme1'' 0 example_world)) = False"
  using sgd_results_never_match [of example_world "AttachOutboundPeer ''mme1'' 0 example_world", OF r_into_rtranclp [where r = sgd_step, OF sgd_attaches [of example_world "''mme1''" 0]]]
  by (simp add: example_world_peer example_server_def)

end
