(* ===== verification/DiamClient.thy ===== *)
theory DiamClient
  imports SgdServer
begin

text \<open>
  The clients of the subscriber data base: S6c (\<open>internal/diameter/s6c/client.go\<close>) asks where a terminal is
  and reports the outcome of a delivery, Sh (\<open>internal/diameter/sh/udr.go\<close>) asks for the IMS state of a user.
  Each shares a peer connection with others and matches answers to its requests.
\<close>

section \<open>State\<close>

abbreviation CmdSendRoutingInfoSM :: nat where "CmdSendRoutingInfoSM \<equiv> 8388647"
abbreviation CmdUserData :: nat where "CmdUserData \<equiv> 306"
abbreviation App3GPP_S6c :: "32 word" where "App3GPP_S6c \<equiv> 16777312"
abbreviation App3GPP_Sh :: "32 word" where "App3GPP_Sh \<equiv> 16777217"
abbreviation CodeSMRPMTIS6c :: "32 word" where "CodeSMRPMTIS6c \<equiv> 3308"
abbreviation SMRPMTIS6cDeliver :: "32 word" where "SMRPMTIS6cDeliver \<equiv> 0"
abbreviation CodeSCAddressS6c :: "32 word" where "CodeSCAddressS6c \<equiv> 3300"
abbreviation CodeSMDeliveryCause :: "32 word" where "CodeSMDeliveryCause \<equiv> 3321"
abbreviation CodeAbsentUserDiagnosticSM :: "32 word" where "CodeAbsentUserDiagnosticSM \<equiv> 3322"
abbreviation CodeIPSMGWDeliveryOutcome :: "32 word" where "CodeIPSMGWDeliveryOutcome \<equiv> 3320"
abbreviation CodeSMDeliveryOutcomeS6c :: "32 word" where "CodeSMDeliveryOutcomeS6c \<equiv> 3316"
abbreviation CodeSMSMICorrelationID :: "32 word" where "CodeSMSMICorrelationID \<equiv> 3324"
abbreviation CodeUserIdentity :: "32 word" where "CodeUserIdentity \<equiv> 700"
abbreviation CodeUserData :: "32 word" where "CodeUserData \<equiv> 702"
abbreviation CodeDataReference :: "32 word" where "CodeDataReference \<equiv> 703"
abbreviation DataRefIMSUserState :: "32 word" where "DataRefIMSUserState \<equiv> 11"

record diam_client =
  dc_cfg :: peer_cfg
  dc_peer :: peer
  dc_ids :: id_state
  dc_scAddr :: string
  dc_pending :: "32 word \<rightharpoonup> dmsg option"
  dc_onAlert :: "(alert_request \<Rightarrow> bool) option"
  dc_alerts :: "alert_request list"

definition client_Send :: "dmsg \<Rightarrow> diam_client \<Rightarrow> bool \<times> diam_client" where
  "client_Send m c = (let (sent, p) = peer_Send m (dc_peer c) in (sent, c\<lparr>dc_peer := p\<rparr>))"

definition trackPending :: "32 word \<Rightarrow> diam_client \<Rightarrow> diam_client" where
  "trackPending hopByHop c = c\<lparr>dc_pending := (dc_pending c)(hopByHop \<mapsto> None)\<rparr>"

definition untrackPending :: "32 word \<Rightarrow> diam_client \<Rightarrow> diam_client" where
  "untrackPending hopByHop c = c\<lparr>dc_pending := (dc_pending c)(hopByHop := None)\<rparr>"

definition client_channel :: "32 word \<Rightarrow> diam_client \<Rightarrow> dmsg option" where
  "client_channel hbh c = (case dc_pending c hbh of Some ch \<Rightarrow> ch | None \<Rightarrow> None)"

definition client_answered :: "dmsg \<Rightarrow> diam_client \<Rightarrow> diam_client" where
  "client_answered msg c = (let hbh = dh_HopByHop (dm_Header msg) in
     case dc_pending c hbh of
       Some None \<Rightarrow> c\<lparr>dc_pending := (dc_pending c)(hbh \<mapsto> Some msg)\<rparr>
     | _ \<Rightarrow> c)"

section \<open>Received messages\<close>

definition s6c_alert_answer :: "peer_cfg \<Rightarrow> dmsg \<Rightarrow> 32 word \<Rightarrow> dmsg" where
  "s6c_alert_answer cfg req resultCode =
     Add_AVPs ([NewString CodeSessionID 0 FlagMandatory (parseStringAVP req CodeSessionID 0),
         NewUint32 CodeAuthSessionState 0 FlagMandatory AuthSessionStateNoStateMaintained,
         NewUint32 CodeResultCode 0 FlagMandatory resultCode] @ origin_avps cfg) (NewAnswer req)"

definition sendAlertServiceCentreAnswer :: "dmsg \<Rightarrow> 32 word \<Rightarrow> diam_client \<Rightarrow> diam_client" where
  "sendAlertServiceCentreAnswer req resultCode c = snd (client_Send (s6c_alert_answer (dc_cfg c) req resultCode) c)"

definition handleAlertServiceCentre :: "dmsg \<Rightarrow> diam_client \<Rightarrow> diam_client" where
  "handleAlertServiceCentre msg c =
     (case parseAlertServiceCentre msg of
        Ok req \<Rightarrow>
          (case dc_onAlert c of
             None \<Rightarrow> sendAlertServiceCentreAnswer msg DiameterSuccess c
           | Some fn \<Rightarrow> sendAlertServiceCentreAnswer msg (if fn req then DiameterSuccess else DiameterUnableToComply)
               (c\<lparr>dc_alerts := dc_alerts c @ [req]\<rparr>))
      | _ \<Rightarrow> sendAlertServiceCentreAnswer msg DiameterUnableToComply c)"

text \<open>Both clients of a shared peer see every message; each takes those of its application.\<close>

definition s6c_dispatch :: "dmsg \<Rightarrow> diam_client \<Rightarrow> diam_client" where
  "s6c_dispatch msg c =
     (if dh_AppID (dm_Header msg) \<noteq> App3GPP_S6c then c
      else if IsRequest msg \<and> dh_CommandCode (dm_Header msg) = CmdAlertServiceCentre then handleAlertServiceCentre msg c
      else if \<not> IsRequest msg then client_answered msg c
      else c)"

definition sh_dispatch :: "dmsg \<Rightarrow> diam_client \<Rightarrow> diam_client" where
  "sh_dispatch msg c =
     (if dh_CommandCode (dm_Header msg) \<noteq> CmdUserData \<or> IsRequest msg then c else client_answered msg c)"

section \<open>Exchanges\<close>

text \<open>
  A request that is queued and then waited for: \<open>build\<close> makes it from a fresh hop-by-hop identifier,
  \<open>dispatch\<close> receives \<open>inbound\<close> meanwhile. \<open>Inl True\<close> is a failure to send, \<open>Inl False\<close> the timeout. The
  builder draws an identifier of its own, which the other one replaces.
\<close>

definition with_hop_by_hop :: "32 word \<Rightarrow> dmsg \<Rightarrow> dmsg" where
  "with_hop_by_hop hbh m = m\<lparr>dm_Header := (dm_Header m)\<lparr>dh_HopByHop := hbh\<rparr>\<rparr>"

definition exchange_request ::
  "(dmsg \<Rightarrow> diam_client \<Rightarrow> diam_client) \<Rightarrow> nat \<Rightarrow> 32 word \<Rightarrow> avp list \<Rightarrow> dmsg list \<Rightarrow> diam_client \<Rightarrow>
    (bool + dmsg) \<times> diam_client" where
  "exchange_request dispatch cmd app avps inbound c =
     (let (hbh, g) = NextHopByHop (dc_ids c); (req, g) = NewRequest cmd app g;
          c = trackPending hbh (c\<lparr>dc_ids := g\<rparr>);
          (sent, c) = client_Send (with_hop_by_hop hbh (Add_AVPs avps req)) c in
      if \<not> sent then (Inl True, untrackPending hbh c)
      else (let (reply, c) = await_answer (client_channel hbh) dispatch inbound c in
        (case reply of Some ans \<Rightarrow> Inr ans | None \<Rightarrow> Inl False, untrackPending hbh c)))"

definition session_avps :: "string \<Rightarrow> peer_cfg \<Rightarrow> avp list" where
  "session_avps sid cfg = [NewString CodeSessionID 0 FlagMandatory sid,
     NewUint32 CodeAuthSessionState 0 FlagMandatory AuthSessionStateNoStateMaintained] @ origin_avps cfg"

text \<open>Where the terminal with a number is: what the registry's \<open>S6cLookup\<close> asks for.\<close>

definition sri_avps :: "string \<Rightarrow> string \<Rightarrow> diam_client \<Rightarrow> avp list" where
  "sri_avps sid msisdn c = session_avps sid (dc_cfg c) @
     [NewString CodeDestinationHost 0 FlagMandatory (pe_RemoteFQDN (dc_peer c)),
      NewString CodeDestinationRealm 0 FlagMandatory (pe_RemoteRealm (dc_peer c)),
      NewOctetString CodeMSISDN Vendor3GPP 0xC0 (encodeTBCD msisdn),
      NewUint32 CodeSMRPMTIS6c Vendor3GPP 0xC0 SMRPMTIS6cDeliver] @
     (if dc_scAddr c \<noteq> [] then [NewOctetString CodeSCAddressS6c Vendor3GPP 0xC0 (encodeTBCD (dc_scAddr c))] else [])"

definition s6c_reply_of :: "s6c_error + routing_info \<Rightarrow> s6c_reply" where
  "s6c_reply_of r = (case r of Inr info \<Rightarrow> S6cInfo info | Inl (ErrUnknownUser rc) \<Rightarrow> S6cUnknownUser | Inl (S6cFailure e) \<Rightarrow> S6cError e)"

definition LookupRouting :: "string \<Rightarrow> dmsg list \<Rightarrow> string \<Rightarrow> diam_client \<Rightarrow> s6c_reply \<times> diam_client" where
  "LookupRouting sid inbound msisdn c =
     (if pe_state (dc_peer c) \<noteq> StateOpen then (S6cError ''s6c: peer not OPEN'', c)
      else
        (let (r, c) = exchange_request s6c_dispatch CmdSendRoutingInfoSM App3GPP_S6c (sri_avps sid msisdn c) inbound c in
         (case r of
            Inr ans \<Rightarrow> s6c_reply_of (parseSRIAnswer ans)
          | Inl True \<Rightarrow> S6cError ''s6c: send SRI-SM''
          | Inl False \<Rightarrow> S6cError ''s6c: SRI-SM timeout after 5s'', c)))"

text \<open>\<open>base64.StdEncoding.DecodeString\<close>: line ends are skipped; only the last group may be padded.\<close>

definition b64_val :: "char \<Rightarrow> nat option" where
  "b64_val c = first_some (\<lambda>n. if b64_char n = c then Some n else None) [0..<64]"

fun b64_groups :: "string \<Rightarrow> bytes option" where
  "b64_groups [] = Some []"
| "b64_groups (a # b # c # d # r) =
     (case (b64_val a, b64_val b, b64_val c, b64_val d) of
        (Some w, Some x, Some y, Some z) \<Rightarrow>
          map_option (\<lambda>bs. [byte_of (w * 4 + x div 16), byte_of (x mod 16 * 16 + y div 4), byte_of (y mod 4 * 64 + z)] @ bs)
            (b64_groups r)
      | (Some w, Some x, Some y, None) \<Rightarrow>
          if d = CHR ''='' \<and> r = [] then Some [byte_of (w * 4 + x div 16), byte_of (x mod 16 * 16 + y div 4)] else None
      | (Some w, Some x, None, None) \<Rightarrow>
          if c = CHR ''='' \<and> d = CHR ''='' \<and> r = [] then Some [byte_of (w * 4 + x div 16)] else None
      | _ \<Rightarrow> None)"
| "b64_groups _ = None"

definition decodeAlertCorrelationID :: "string \<Rightarrow> bytes option" where
  "decodeAlertCorrelationID encoded = b64_groups (filter (\<lambda>c. c \<notin> {CHR 0x0A, CHR 0x0D}) encoded)"

definition rsds_avps ::
  "string \<Rightarrow> string \<Rightarrow> string \<Rightarrow> string \<Rightarrow> string \<Rightarrow> 32 word \<Rightarrow> 32 word option \<Rightarrow> diam_client \<Rightarrow> avp list" where
  "rsds_avps sid msisdn imsi scAddr alertCorrelationID cause diagnostic c = session_avps sid (dc_cfg c) @
     [NewString CodeDestinationRealm 0 FlagMandatory (pe_RemoteRealm (dc_peer c)),
      NewOctetString CodeSCAddressS6c Vendor3GPP 0xC0 (encodeTBCD scAddr),
      NewUint32 CodeSMRPMTIS6c Vendor3GPP 0xC0 SMRPMTIS6cDeliver,
      NewGrouped CodeSMDeliveryOutcomeS6c Vendor3GPP 0xC0 [NewGrouped CodeIPSMGWDeliveryOutcome Vendor3GPP 0xC0
        (NewUint32 CodeSMDeliveryCause Vendor3GPP 0xC0 cause #
         (case diagnostic of Some d \<Rightarrow> [NewUint32 CodeAbsentUserDiagnosticSM Vendor3GPP 0xC0 d] | None \<Rightarrow> []))]] @
     (case buildUserIdentifier imsi msisdn of Some a \<Rightarrow> [a] | None \<Rightarrow> []) @
     (if alertCorrelationID \<noteq> []
      then (case decodeAlertCorrelationID alertCorrelationID of
          Some payload \<Rightarrow> if payload \<noteq> [] then [NewOctetString CodeSMSMICorrelationID Vendor3GPP 0x80 payload] else []
        | None \<Rightarrow> [])
      else [])"

definition ReportDelivery ::
  "string \<Rightarrow> dmsg list \<Rightarrow> string \<Rightarrow> string \<Rightarrow> string \<Rightarrow> string \<Rightarrow> 32 word \<Rightarrow> 32 word option \<Rightarrow> diam_client \<Rightarrow>
    (s6c_error + string \<times> 32 word \<times> 32 word) \<times> diam_client" where
  "ReportDelivery sid inbound msisdn imsi scAddr alertCorrelationID cause diagnostic c =
     (if pe_state (dc_peer c) \<noteq> StateOpen then (Inl (S6cFailure ''s6c: peer not OPEN''), c)
      else
        (let (r, c) = exchange_request s6c_dispatch CmdReportSMDeliveryStatus App3GPP_S6c
               (rsds_avps sid msisdn imsi scAddr alertCorrelationID cause diagnostic c) inbound c in
         (case r of
            Inr ans \<Rightarrow> parseRSDSAnswer ans
          | Inl True \<Rightarrow> Inl (S6cFailure ''s6c: send RSDS'')
          | Inl False \<Rightarrow> Inl (S6cFailure ''s6c: RSDS timeout after 5s''), c)))"

section \<open>Sh\<close>

text \<open>
  The fields \<open>xml.Unmarshal\<close> takes from the document, zero or empty where it has none; the parser of the
  standard library is the parameter \<open>unmarshal\<close>, which fails with \<open>None\<close>.
\<close>

record sh_document =
  sx_identities :: "string list"
  sx_MSISDN :: string
  sx_IMSUserState :: int
  sx_SCSCFName :: string

abbreviation IMSUserStateRegistered :: int where "IMSUserStateRegistered \<equiv> 0"

definition parseShDataXML :: "(string \<Rightarrow> sh_document option) \<Rightarrow> string \<Rightarrow> sh_reply" where
  "parseShDataXML unmarshal xmlData =
     (case unmarshal xmlData of
        None \<Rightarrow> ShError ''sh: parse Sh-Data XML''
      | Some d \<Rightarrow> ShData \<lparr>
          ud_SIPAoR = (case find (\<lambda>i. has_prefix ''sip:'' i \<or> has_prefix ''sips:'' i) (sx_identities d) of Some i \<Rightarrow> i | None \<Rightarrow> []),
          ud_SCSCFName = sx_SCSCFName d, ud_Registered = (sx_IMSUserState d = IMSUserStateRegistered)\<rparr>)"

definition shResultError :: "32 word \<Rightarrow> sh_reply" where
  "shResultError resultCode =
     (if resultCode = 5001 then ShUnknownUser
      else if resultCode = 5009 then ShUnsupportedUserData (''sh: HSS returned result-code '' @ decimal (unat resultCode) @ '' (unsupported user data)'')
      else ShError (''sh: HSS returned result-code '' @ decimal (unat resultCode)))"

definition parseUDA :: "(string \<Rightarrow> sh_document option) \<Rightarrow> dmsg \<Rightarrow> sh_reply" where
  "parseUDA unmarshal msg =
     (case resultCodeOK msg of
        Some rc \<Rightarrow> if rc \<noteq> DiameterSuccess then shResultError rc else
          (case FindAVP msg CodeUserData Vendor3GPP of
             None \<Rightarrow> ShError ''sh: UDA missing User-Data AVP''
           | Some a \<Rightarrow> parseShDataXML unmarshal (string_of_bytes (avp_Data a)))
      | None \<Rightarrow>
          (case FindAVP msg CodeUserData Vendor3GPP of
             None \<Rightarrow> ShError ''sh: UDA missing User-Data AVP''
           | Some a \<Rightarrow> parseShDataXML unmarshal (string_of_bytes (avp_Data a))))"

definition udr_avps :: "string \<Rightarrow> string \<Rightarrow> diam_client \<Rightarrow> avp list" where
  "udr_avps sid msisdn c = [NewString CodeSessionID 0 FlagMandatory sid,
      NewUint32 CodeAuthApplicationID 0 FlagMandatory App3GPP_Sh,
      NewUint32 CodeAuthSessionState 0 FlagMandatory AuthSessionStateNoStateMaintained] @ origin_avps (dc_cfg c) @
     [NewString CodeDestinationHost 0 FlagMandatory (pe_RemoteFQDN (dc_peer c)),
      NewString CodeDestinationRealm 0 FlagMandatory (pe_RemoteRealm (dc_peer c)),
      NewGrouped CodeUserIdentity Vendor3GPP 0xC0 [NewOctetString CodeMSISDN Vendor3GPP 0xC0 (encodeBCDMSISDN msisdn)],
      NewUint32 CodeDataReference Vendor3GPP 0xC0 DataRefIMSUserState]"

definition LookupIMSState ::
  "(string \<Rightarrow> sh_document option) \<Rightarrow> string \<Rightarrow> dmsg list \<Rightarrow> string \<Rightarrow> diam_client \<Rightarrow> sh_reply \<times> diam_client" where
  "LookupIMSState unmarshal sid inbound msisdn c =
     (if pe_state (dc_peer c) \<noteq> StateOpen then (ShError ''sh: peer not OPEN'', c)
      else
        (let (r, c) = exchange_request sh_dispatch CmdUserData App3GPP_Sh (udr_avps sid msisdn c) inbound c in
         (case r of
            Inr ans \<Rightarrow> parseUDA unmarshal ans
          | Inl True \<Rightarrow> ShError ''sh: send UDR''
          | Inl False \<Rightarrow> ShError ''sh: UDR timeout after 5s'', c)))"

section \<open>Lemmas\<close>

text \<open>
  A client takes the messages that are \<open>mine\<close> for answers; what it does with the others leaves its table
  of requests alone.
\<close>

locale answering =
  fixes dispatch :: "dmsg \<Rightarrow> diam_client \<Rightarrow> diam_client" and mine :: "dmsg \<Rightarrow> bool"
  assumes takes_mine: "mine m \<Longrightarrow> dispatch m c = client_answered m c"
    and leaves_others: "\<not> mine m \<Longrightarrow> dc_pending (dispatch m c) = dc_pending c"
begin

definition reply_to :: "32 word \<Rightarrow> dmsg \<Rightarrow> dmsg option" where
  "reply_to hbh m = (if mine m \<and> dh_HopByHop (dm_Header m) = hbh then Some m else None)"

lemma correlated: "correlation (\<lambda>c. dc_pending c hbh = Some None) (client_channel hbh) dispatch (reply_to hbh)"
proof
  show "dc_pending c hbh = Some None \<Longrightarrow> client_channel hbh c = None" for c
    by (simp add: client_channel_def)
  show "dc_pending c hbh = Some None \<Longrightarrow> reply_to hbh m = None \<Longrightarrow> dc_pending (dispatch m c) hbh = Some None" for c m
    using takes_mine [of m c] leaves_others [of m c]
    by (cases "mine m") (auto simp: reply_to_def client_answered_def Let_def split: option.splits if_splits)
  show "dc_pending c hbh = Some None \<Longrightarrow> reply_to hbh m = Some ans \<Longrightarrow> client_channel hbh (dispatch m c) = Some ans" for c m ans
    using takes_mine [of m c]
    by (auto simp: reply_to_def client_channel_def client_answered_def Let_def split: if_splits)
qed

lemma first_reply: "first_some (reply_to hbh) ms = find (\<lambda>m. mine m \<and> dh_HopByHop (dm_Header m) = hbh) ms"
  by (induction ms) (simp_all add: reply_to_def)

lemma exchange_outcome:
  assumes "pe_state (dc_peer c) = StateOpen" "length (pe_writeCh (dc_peer c)) < 64"
  shows "fst (exchange_request dispatch cmd app avps inbound c) =
    (case find (\<lambda>m. mine m \<and> dh_HopByHop (dm_Header m) = ids_hopByHopCounter (dc_ids c) + 1) inbound of
       Some ans \<Rightarrow> Inr ans | None \<Rightarrow> Inl False)"
proof -
  let ?h = "ids_hopByHopCounter (dc_ids c) + 1"
  obtain hbh g req g' where g: "NextHopByHop (dc_ids c) = (hbh, g)" "NewRequest cmd app g = (req, g')" by (metis surj_pair)
  have h: "hbh = ?h" using g(1) by (auto simp: NextHopByHop_def Let_def)
  let ?c = "trackPending hbh (c\<lparr>dc_ids := g'\<rparr>)"
  let ?m = "with_hop_by_hop hbh (Add_AVPs avps req)"
  let ?d = "?c\<lparr>dc_peer := (dc_peer c)\<lparr>pe_writeCh := pe_writeCh (dc_peer c) @ [?m]\<rparr>\<rparr>"
  have s: "client_Send ?m ?c = (True, ?d)"
    using assms by (simp add: client_Send_def peer_Send_def trackPending_def)
  have "dc_pending ?d hbh = Some None" by (simp add: trackPending_def)
  from correlation.await_first [OF correlated this, of inbound]
  have "fst (await_answer (client_channel hbh) dispatch inbound ?d) =
      find (\<lambda>m. mine m \<and> dh_HopByHop (dm_Header m) = ?h) inbound"
    using h by (simp add: first_reply)
  then show ?thesis by (simp add: exchange_request_def g s split_beta Let_def)
qed

lemma exchange_forgets: "dc_pending (snd (exchange_request dispatch cmd app avps inbound c)) (ids_hopByHopCounter (dc_ids c) + 1) = None"
  by (simp add: exchange_request_def NextHopByHop_def untrackPending_def split_beta Let_def)

end

lemma sent_pending [simp]: "dc_pending (snd (client_Send m c)) = dc_pending c"
  by (simp add: client_Send_def split_beta Let_def)

interpretation s6c: answering s6c_dispatch "\<lambda>m. dh_AppID (dm_Header m) = App3GPP_S6c \<and> \<not> IsRequest m"
  by unfold_locales (auto simp: s6c_dispatch_def handleAlertServiceCentre_def sendAlertServiceCentreAnswer_def
      split: outcome.split option.split)

interpretation sh: answering sh_dispatch "\<lambda>m. dh_CommandCode (dm_Header m) = CmdUserData \<and> \<not> IsRequest m"
  by unfold_locales (auto simp: sh_dispatch_def)

lemma distinct_b64: "distinct ''ABCDEFGHIJKLMNOPQRSTUVWXYZabcdefghijklmnopqrstuvwxyz0123456789+/''"
  by simp

lemma first_some_index:
  "distinct xs \<Longrightarrow> n < length xs \<Longrightarrow> first_some (\<lambda>i. if xs ! i = xs ! n then Some i else None) [0..<length xs] = Some n"
proof -
  assume d: "distinct xs" and n: "n < length xs"
  have "[0..<length xs] = [0..<n] @ n # [Suc n..<length xs]"
    using n by (metis upt_conv_Cons le0 less_imp_le upt_add_eq_append ab_semigroup_add_class.add.commute le_add_diff_inverse add_0)
  moreover have "first_some (\<lambda>i. if xs ! i = xs ! n then Some i else None) [0..<n] = None"
    using d n by (auto simp: first_some_None nth_eq_iff_index_eq)
  ultimately show ?thesis by (simp add: first_some_append)
qed

lemma b64_val_alphabet:
  assumes "distinct xs" "length xs = 64" "\<And>n. b64_char n = xs ! (n mod 64)"
  shows "n < 64 \<Longrightarrow> b64_val (b64_char n) = Some n" and "c \<notin> set xs \<Longrightarrow> b64_val c = None"
proof -
  have m: "map (\<lambda>n. xs ! (n mod 64)) [0..<64] = map ((!) xs) [0..<64]" by simp
  have f: "first_some (\<lambda>n. if xs ! (n mod 64) = c then Some n else None) [0..<k] =
      first_some (\<lambda>n. if xs ! n = c then Some n else None) [0..<k]" if "k \<le> 64" for k c
    using that by (induction k) (simp_all add: first_some_append Suc_le_eq split: option.split)
  show "n < 64 \<Longrightarrow> b64_val (b64_char n) = Some n"
    using first_some_index [OF assms(1), of n] f [of 64 "xs ! n"] by (simp add: b64_val_def assms(2,3) del: upt.simps)
  have "xs ! n \<in> set xs" if "n < 64" for n using that assms(2) by simp
  then show "c \<notin> set xs \<Longrightarrow> b64_val c = None"
    by (auto simp: b64_val_def first_some_None assms(3) simp del: upt.simps split: if_splits)
qed

lemma b64_alphabet:
  "length ''ABCDEFGHIJKLMNOPQRSTUVWXYZabcdefghijklmnopqrstuvwxyz0123456789+/'' = 64"
  "CHR ''='' \<notin> set ''ABCDEFGHIJKLMNOPQRSTUVWXYZabcdefghijklmnopqrstuvwxyz0123456789+/''"
  "CHR 0x0A \<notin> set ''ABCDEFGHIJKLMNOPQRSTUVWXYZabcdefghijklmnopqrstuvwxyz0123456789+/''"
  "CHR 0x0D \<notin> set ''ABCDEFGHIJKLMNOPQRSTUVWXYZabcdefghijklmnopqrstuvwxyz0123456789+/''"
  by simp_all

lemmas b64_vals = b64_val_alphabet [OF distinct_b64 b64_alphabet(1) b64_char_def]

lemma b64_val_char [simp]: "n < 64 \<Longrightarrow> b64_val (b64_char n) = Some n" by (rule b64_vals(1))

lemma b64_val_pad [simp]: "b64_val (CHR ''='') = None" by (rule b64_vals(2) [OF b64_alphabet(2)])

lemma b64_char_no_newline: "b64_char n \<noteq> CHR 0x0A" "b64_char n \<noteq> CHR 0x0D"
proof -
  have "b64_char n \<in> set ''ABCDEFGHIJKLMNOPQRSTUVWXYZabcdefghijklmnopqrstuvwxyz0123456789+/''"
    unfolding b64_char_def by (rule nth_mem) (subst b64_alphabet(1), simp)
  then show "b64_char n \<noteq> CHR 0x0A" "b64_char n \<noteq> CHR 0x0D" using b64_alphabet(3,4) by metis+
qed

lemma base64_no_newline: "filter (\<lambda>c. c \<notin> {CHR 0x0A, CHR 0x0D}) (base64 bs) = base64 bs"
  by (induction bs rule: base64.induct) (simp_all add: b64_char_no_newline)

lemma b64_small:
  fixes a b c :: byte
  shows "unat b div 16 < 16" "unat c div 64 < 4" "unat a div 4 < 64" "unat a mod 4 * 16 < 64"
    "unat a mod 4 * 16 + unat b div 16 < 64" "unat b mod 16 * 4 < 64" "unat b mod 16 * 4 + unat c div 64 < 64"
    "unat c mod 64 < 64"
proof -
  have l: "unat a < 256" "unat b < 256" "unat c < 256" using unsigned_less [of a] unsigned_less [of b] unsigned_less [of c] by simp_all
  then show d: "unat b div 16 < 16" "unat c div 64 < 4" "unat a div 4 < 64" by (simp_all add: div_less_iff_less_mult)
  have m: "unat a mod 4 < 4" "unat b mod 16 < 16" by simp_all
  show "unat a mod 4 * 16 < 64" "unat a mod 4 * 16 + unat b div 16 < 64" "unat b mod 16 * 4 < 64"
    "unat b mod 16 * 4 + unat c div 64 < 64" using d m by linarith+
qed simp

lemma b64_octets [simp]:
  fixes b :: byte
  shows "unat b div 16 div 16 = 0" "unat b div 16 mod 16 = unat b div 16" "unat b div 64 div 4 = 0" "unat b div 64 mod 4 = unat b div 64"
  using b64_small(1,2) [of b] by simp_all

lemma b64_groups_base64: "b64_groups (base64 bs) = Some bs"
  by (induction bs rule: base64.induct) (simp_all add: b64_small)

lemma decode_base64: "decodeAlertCorrelationID (base64 bs) = Some bs"
  by (simp only: decodeAlertCorrelationID_def base64_no_newline b64_groups_base64)

section \<open>Properties\<close>

text \<open>
  A lookup over S6c on an open peer returns what the first answer of its application with its
  hop-by-hop identifier says, whatever else arrives, and a timeout when none arrives in time; its
  entry in the table of requests is gone afterwards.
\<close>

theorem s6c_lookup_outcome:
  assumes "pe_state (dc_peer c) = StateOpen" "length (pe_writeCh (dc_peer c)) < 64"
  shows "fst (LookupRouting sid inbound msisdn c) =
      (case find (\<lambda>m. (dh_AppID (dm_Header m) = App3GPP_S6c \<and> \<not> IsRequest m) \<and>
              dh_HopByHop (dm_Header m) = ids_hopByHopCounter (dc_ids c) + 1) inbound of
         None \<Rightarrow> S6cError ''s6c: SRI-SM timeout after 5s''
       | Some ans \<Rightarrow> s6c_reply_of (parseSRIAnswer ans)) \<and>
    dc_pending (snd (LookupRouting sid inbound msisdn c)) (ids_hopByHopCounter (dc_ids c) + 1) = None"
  using s6c.exchange_outcome [OF assms, of CmdSendRoutingInfoSM App3GPP_S6c "sri_avps sid msisdn c" inbound]
    s6c.exchange_forgets [of CmdSendRoutingInfoSM App3GPP_S6c "sri_avps sid msisdn c" inbound c] assms(1)
  by (simp add: LookupRouting_def split_beta split: option.split)

text \<open>
  An answer over S6c without a result code of the base protocol, such as one that gives an
  experimental result of the application, counts as an unknown user, even when that result is success.
\<close>

theorem s6c_experimental_result_unknown:
  assumes "pe_state (dc_peer c) = StateOpen" "length (pe_writeCh (dc_peer c)) < 64"
    and "dh_AppID (dm_Header ans) = App3GPP_S6c" "\<not> IsRequest ans"
    and "dh_HopByHop (dm_Header ans) = ids_hopByHopCounter (dc_ids c) + 1" "FindAVP ans CodeResultCode 0 = None"
  shows "fst (LookupRouting sid (ans # rest) msisdn c) = S6cUnknownUser"
proof -
  have "s6c_reply_of (parseSRIAnswer ans) = S6cUnknownUser"
    using assms(6) by (simp add: parseSRIAnswer_def parseResultCode_def s6c_reply_of_def)
  then show ?thesis
    using s6c.exchange_outcome [OF assms(1,2), of CmdSendRoutingInfoSM App3GPP_S6c "sri_avps sid msisdn c" "ans # rest"] assms
    by (simp add: LookupRouting_def split_beta)
qed

text \<open>
  A lookup over Sh on an open peer returns what the first answer to it says: the address of record
  is the first SIP address of the user, and the user counts as registered exactly when the state in the
  document is 0 or missing (a missing number is read as 0).
\<close>

theorem sh_lookup_outcome:
  assumes "pe_state (dc_peer c) = StateOpen" "length (pe_writeCh (dc_peer c)) < 64"
    and "find (\<lambda>m. (dh_CommandCode (dm_Header m) = CmdUserData \<and> \<not> IsRequest m) \<and>
              dh_HopByHop (dm_Header m) = ids_hopByHopCounter (dc_ids c) + 1) inbound = Some ans"
    and "resultCodeOK ans = Some DiameterSuccess" "FindAVP ans CodeUserData Vendor3GPP = Some a"
    and "unmarshal (string_of_bytes (avp_Data a)) = Some d"
  shows "\<exists>u. fst (LookupIMSState unmarshal sid inbound msisdn c) = ShData u \<and>
    ud_Registered u = (sx_IMSUserState d = 0) \<and> ud_SCSCFName u = sx_SCSCFName d \<and>
    ud_SIPAoR u = (case filter (\<lambda>i. has_prefix ''sip:'' i \<or> has_prefix ''sips:'' i) (sx_identities d) of [] \<Rightarrow> [] | i # _ \<Rightarrow> i)"
proof -
  have f: "(case find P xs of Some i \<Rightarrow> i | None \<Rightarrow> []) = (case filter P xs of [] \<Rightarrow> [] | i # _ \<Rightarrow> i)"
    for P and xs :: "string list" by (induction xs) simp_all
  show ?thesis
    using sh.exchange_outcome [OF assms(1,2), of CmdUserData App3GPP_Sh "udr_avps sid msisdn c" inbound] assms
    by (simp add: LookupIMSState_def parseUDA_def parseShDataXML_def split_beta f)
qed

text \<open>
  The correlation id of an alert goes back to the subscriber data base as it came, through the text
  it is stored as.
\<close>

theorem alert_correlation_roundtrip:
  assumes "parseAlertServiceCentre msg = Ok req" "FindAVP msg CodeSMSMICorrelationID Vendor3GPP = Some a" "avp_Data a \<noteq> []"
  shows "last (rsds_avps sid msisdn imsi scAddr (al_AlertCorrelationID req) cause diagnostic c) =
    NewOctetString CodeSMSMICorrelationID Vendor3GPP 0x80 (avp_Data a)"
proof -
  have "al_AlertCorrelationID req = base64 (avp_Data a)"
    using assms by (auto simp: parseAlertServiceCentre_def split_beta Let_def split: if_splits)
  moreover have "base64 (avp_Data a) \<noteq> []" using assms(3) by (cases "avp_Data a" rule: base64.cases) simp_all
  ultimately show ?thesis using assms(3) by (simp add: rsds_avps_def decode_base64)
qed

section \<open>Examples\<close>

definition example_client :: diam_client where
  "example_client = \<lparr>dc_cfg = example_cfg, dc_peer = open_peer ''hss'', dc_ids = \<lparr>ids_hopByHopCounter = 5, ids_endToEndBase = 0x100,
     ids_endToEndCounter = 0\<rparr>, dc_scAddr = ''15550000000'', dc_pending = Map.empty, dc_onAlert = None, dc_alerts = []\<rparr>"

definition hss_answer :: "nat \<Rightarrow> 32 word \<Rightarrow> avp list \<Rightarrow> dmsg" where
  "hss_answer cmd app avps = \<lparr>dm_Header = \<lparr>dh_Version = 1, dh_Length = 0, dh_Flags = 0x40, dh_CommandCode = cmd,
     dh_AppID = app, dh_HopByHop = 6, dh_EndToEnd = 0x101\<rparr>, dm_AVPs = avps\<rparr>"

lemma example_client_facts:
  "pe_state (dc_peer example_client) = StateOpen" "pe_writeCh (dc_peer example_client) = []"
  "ids_hopByHopCounter (dc_ids example_client) = 5"
  "\<not> IsRequest (hss_answer cmd app avps)" "dh_CommandCode (dm_Header (hss_answer cmd app avps)) = cmd"
  "dh_AppID (dm_Header (hss_answer cmd app avps)) = app" "dh_HopByHop (dm_Header (hss_answer cmd app avps)) = 6"
  "FindAVP (hss_answer cmd app avps) code v = find (\<lambda>a. avp_Code a = code \<and> avp_VendorID a = v) avps"
  by (simp_all add: example_client_def open_peer_def example_peer_def hss_answer_def IsRequest_def FindAVP_def)

theorem s6c_lookup_outcome_witness:
  "fst (LookupRouting ''s'' [hss_answer 1 App3GPP_Sh []] ''15551230001'' example_client) = S6cError ''s6c: SRI-SM timeout after 5s''"
  using s6c_lookup_outcome [of example_client "''s''" "[hss_answer 1 App3GPP_Sh []]" "''15551230001''"]
  by (simp add: example_client_facts)

theorem s6c_experimental_result_unknown_witness:
  "fst (LookupRouting ''s'' [hss_answer CmdSendRoutingInfoSM App3GPP_S6c
      [NewGrouped CodeExperimentalResult 0 FlagMandatory [NewUint32 CodeExperimentalResultCode 0 FlagMandatory DiameterSuccess]]]
    ''15551230001'' example_client) = S6cUnknownUser"
  by (rule s6c_experimental_result_unknown) (simp_all add: example_client_facts NewGrouped_def)

lemma success_code: "avp_Uint32 (NewUint32 code v fl DiameterSuccess) = Ok DiameterSuccess"
  using w32_put32_end [of DiameterSuccess] by (simp add: avp_Uint32_def NewUint32_def put32_def)

definition example_unmarshal :: "string \<Rightarrow> sh_document option" where
  "example_unmarshal x = (if x = ''doc'' then Some \<lparr>sx_identities = [''tel:+1'', ''sip:a@b''], sx_MSISDN = [], sx_IMSUserState = 1,
     sx_SCSCFName = ''scscf''\<rparr> else None)"

definition example_uda :: dmsg where
  "example_uda = hss_answer CmdUserData App3GPP_Sh [NewUint32 CodeResultCode 0 FlagMandatory DiameterSuccess,
     NewOctetString CodeUserData Vendor3GPP 0xC0 (bytes_of_string ''doc'')]"

lemma example_uda_facts:
  "dh_CommandCode (dm_Header example_uda) = CmdUserData" "\<not> IsRequest example_uda" "dh_HopByHop (dm_Header example_uda) = 6"
  "resultCodeOK example_uda = Some DiameterSuccess"
  "FindAVP example_uda CodeUserData Vendor3GPP = Some (NewOctetString CodeUserData Vendor3GPP 0xC0 (bytes_of_string ''doc''))"
proof -
  show "resultCodeOK example_uda = Some DiameterSuccess"
    by (simp add: example_uda_def resultCodeOK_def example_client_facts success_code) (simp add: NewUint32_def success_code)
qed (simp_all add: example_uda_def example_client_facts NewUint32_def NewOctetString_def)

theorem sh_lookup_outcome_witness:
  "\<exists>u. fst (LookupIMSState example_unmarshal ''s'' [example_uda] ''15551230001'' example_client) = ShData u \<and> \<not> ud_Registered u"
proof -
  have f: "find (\<lambda>m. (dh_CommandCode (dm_Header m) = CmdUserData \<and> \<not> IsRequest m) \<and>
      dh_HopByHop (dm_Header m) = ids_hopByHopCounter (dc_ids example_client) + 1) [example_uda] = Some example_uda"
    by (simp add: example_uda_facts example_client_facts)
  have "example_unmarshal (string_of_bytes (avp_Data (NewOctetString CodeUserData Vendor3GPP 0xC0 (bytes_of_string ''doc'')))) =
      Some \<lparr>sx_identities = [''tel:+1'', ''sip:a@b''], sx_MSISDN = [], sx_IMSUserState = 1, sx_SCSCFName = ''scscf''\<rparr>"
    by (simp add: NewOctetString_def example_unmarshal_def del: bytes_of_string_simps)
  from sh_lookup_outcome [where unmarshal = example_unmarshal and c = example_client, OF _ _ f example_uda_facts(4,5) this, of "''s''" "''15551230001''"]
  obtain u where "fst (LookupIMSState example_unmarshal ''s'' [example_uda] ''15551230001'' example_client) = ShData u"
    "ud_Registered u = ((1 :: int) = 0)"
    by (auto simp: example_client_facts)
  then show ?thesis by auto
qed

theorem alert_correlation_roundtrip_witness:
  "\<exists>req. parseAlertServiceCentre (hss_answer CmdAlertServiceCentre App3GPP_S6c [NewString CodeSessionID 0 FlagMandatory ''s'',
       NewOctetString CodeSMSMICorrelationID Vendor3GPP 0xC0 [1, 2, 3, 4]]) = Ok req \<and>
     last (rsds_avps ''s'' [] [] [] (al_AlertCorrelationID req) 0 None example_client) =
       NewOctetString CodeSMSMICorrelationID Vendor3GPP 0x80 [1, 2, 3, 4]"
proof -
  let ?m = "hss_answer CmdAlertServiceCentre App3GPP_S6c [NewString CodeSessionID 0 FlagMandatory ''s'',
       NewOctetString CodeSMSMICorrelationID Vendor3GPP 0xC0 [1, 2, 3, 4]]"
  have "parseStringAVP ?m CodeSessionID 0 = ''s''"
    by (simp add: parseStringAVP_def example_client_facts NewString_def avp_String_def del: bytes_of_string_simps)
  then obtain req where r: "parseAlertServiceCentre ?m = Ok req" by (simp add: parseAlertServiceCentre_def split_beta Let_def)
  have "FindAVP ?m CodeSMSMICorrelationID Vendor3GPP = Some (NewOctetString CodeSMSMICorrelationID Vendor3GPP 0xC0 [1, 2, 3, 4])"
    by (simp add: example_client_facts NewString_def NewOctetString_def)
  from alert_correlation_roundtrip [OF r this] show ?thesis using r by (auto simp: NewOctetString_def)
qed

end
