(* ===== verification/SmppLink.thy ===== *)
theory SmppLink
  imports SmppCodec Correlation
begin

text \<open>
  Live SMPP connections (\<open>internal/smpp/link.go\<close>, \<open>conn.go\<close>): a link with its sequence numbers and the
  senders that wait for a response, and the registry of all links, which lie in a heap.
\<close>

section \<open>A link\<close>

datatype link_state = StateDisconnected | StateConnecting | StateBound

text \<open>
  \<open>lk_pending\<close> are the sequence numbers somebody waits for; \<open>lk_chans\<close> is what has been put into their
  channels; \<open>lk_out\<close> is all that was written to the connection. The transport, the remote address and the
  time of the connection, which the code keeps for display only, are left out.
\<close>

record smpp_link =
  lk_Name :: string
  lk_SystemID :: string
  lk_BindType :: string
  lk_Mode :: string
  lk_state :: link_state
  lk_seq :: "32 word"
  lk_pending :: "32 word list"
  lk_chans :: "32 word \<rightharpoonup> pdu"
  lk_out :: "pdu list"

definition NewLink :: "string \<Rightarrow> string \<Rightarrow> string \<Rightarrow> string \<Rightarrow> 32 word \<Rightarrow> pdu list \<Rightarrow> link_state \<Rightarrow> smpp_link" where
  "NewLink name systemID bindType mode seq out state = \<lparr>lk_Name = name, lk_SystemID = systemID, lk_BindType = bindType,
     lk_Mode = mode, lk_state = state, lk_seq = seq, lk_pending = [], lk_chans = Map.empty, lk_out = out\<rparr>"

definition NextSeq :: "smpp_link \<Rightarrow> 32 word \<times> smpp_link" where
  "NextSeq l = (lk_seq l + 1, l\<lparr>lk_seq := lk_seq l + 1\<rparr>)"

text \<open>A write fails when the PDU cannot be encoded, or the connection fails (\<open>\<not> ok\<close>).\<close>

definition WritePDU :: "bool \<Rightarrow> pdu \<Rightarrow> smpp_link \<Rightarrow> bool \<times> smpp_link" where
  "WritePDU ok p l =
     (case Encode_pdu p of
        Ok b \<Rightarrow> if ok then (True, l\<lparr>lk_out := lk_out l @ [p]\<rparr>) else (False, l)
      | _ \<Rightarrow> (False, l))"

definition link_Send :: "bool \<Rightarrow> pdu \<Rightarrow> smpp_link \<Rightarrow> bool \<times> smpp_link" where
  "link_Send ok p l = (let (seq, l) = NextSeq l in WritePDU ok (p\<lparr>pdu_SequenceNumber := seq\<rparr>) l)"

text \<open>Whoever reads from the connection passes on a PDU it does not handle itself.\<close>

definition DispatchPending :: "pdu \<Rightarrow> smpp_link \<Rightarrow> bool \<times> smpp_link" where
  "DispatchPending p l = (let seq = pdu_SequenceNumber p in
     if seq \<in> set (lk_pending l)
     then (True, l\<lparr>lk_pending := removeAll seq (lk_pending l), lk_chans := (lk_chans l)(seq \<mapsto> p)\<rparr>)
     else (False, l))"

definition forget_pending :: "32 word \<Rightarrow> smpp_link \<Rightarrow> smpp_link" where
  "forget_pending seq l = l\<lparr>lk_pending := removeAll seq (lk_pending l)\<rparr>"

text \<open>What may happen on the link while a sender waits: PDUs passed on, and messages sent without waiting.\<close>

datatype link_event = PassedOn pdu | SentBeside bool pdu

fun link_happens :: "link_event \<Rightarrow> smpp_link \<Rightarrow> smpp_link" where
  "link_happens (PassedOn p) l = snd (DispatchPending p l)"
| "link_happens (SentBeside ok p) l = snd (link_Send ok p l)"

definition start_wait :: "32 word \<Rightarrow> smpp_link \<Rightarrow> smpp_link" where
  "start_wait seq l = l\<lparr>lk_pending := seq # lk_pending l, lk_chans := (lk_chans l)(seq := None)\<rparr>"

definition SendAndWait :: "bool \<Rightarrow> pdu \<Rightarrow> link_event list \<Rightarrow> smpp_link \<Rightarrow> pdu outcome \<times> smpp_link" where
  "SendAndWait ok p events l =
     (let (seq, l) = NextSeq l;
          (sent, l) = WritePDU ok (p\<lparr>pdu_SequenceNumber := seq\<rparr>) (start_wait seq l) in
      if \<not> sent then (Err ''smpp: write'', forget_pending seq l)
      else (let (reply, l) = await_answer (\<lambda>l. lk_chans l seq) link_happens events l in
        (case reply of Some resp \<Rightarrow> Ok resp | None \<Rightarrow> Err ''smpp: request timeout'', forget_pending seq l)))"

section \<open>The registry\<close>

record smpp_registry =
  rg_links :: "string \<Rightarrow> nat list"
  rg_names :: "string \<rightharpoonup> string"

type_synonym link_heap = "nat \<Rightarrow> smpp_link"

definition NewRegistry :: smpp_registry where
  "NewRegistry = \<lparr>rg_links = (\<lambda>_. []), rg_names = Map.empty\<rparr>"

definition has_alias :: "smpp_link \<Rightarrow> bool" where
  "has_alias l \<longleftrightarrow> lk_Name l \<noteq> [] \<and> lk_Name l \<noteq> lk_SystemID l"

definition registry_Add :: "link_heap \<Rightarrow> nat \<Rightarrow> smpp_registry \<Rightarrow> smpp_registry" where
  "registry_Add h l r = (let k = h l; sid = lk_SystemID k;
      r = r\<lparr>rg_links := (rg_links r)(sid := rg_links r sid @ [l])\<rparr> in
      if has_alias k then r\<lparr>rg_names := (rg_names r)(lk_Name k \<mapsto> sid)\<rparr> else r)"

definition registry_Remove :: "link_heap \<Rightarrow> nat \<Rightarrow> smpp_registry \<Rightarrow> smpp_registry" where
  "registry_Remove h l r = (let k = h l; sid = lk_SystemID k;
      r = r\<lparr>rg_links := (rg_links r)(sid := remove1 l (rg_links r sid))\<rparr> in
      if has_alias k \<and> \<not> list_ex (\<lambda>other. lk_Name (h other) = lk_Name k) (rg_links r sid)
      then r\<lparr>rg_names := (rg_names r)(lk_Name k := None)\<rparr> else r)"

definition firstBound :: "link_heap \<Rightarrow> nat list \<Rightarrow> nat option" where
  "firstBound h list = find (\<lambda>l. lk_state (h l) = StateBound) list"

definition GetByName :: "link_heap \<Rightarrow> smpp_registry \<Rightarrow> string \<Rightarrow> nat option" where
  "GetByName h r key =
     (case firstBound h (rg_links r key) of
        Some l \<Rightarrow> Some l
      | None \<Rightarrow> (case rg_names r key of Some sid \<Rightarrow> firstBound h (rg_links r sid) | None \<Rightarrow> None))"

definition GetBySystemID :: "smpp_registry \<Rightarrow> string \<Rightarrow> nat list" where
  "GetBySystemID r systemID = rg_links r systemID"

section \<open>Lemmas\<close>

definition link_reply :: "32 word \<Rightarrow> link_event \<Rightarrow> pdu option" where
  "link_reply seq e = (case e of PassedOn p \<Rightarrow> if pdu_SequenceNumber p = seq then Some p else None | SentBeside ok p \<Rightarrow> None)"

lemma WritePDU_fields [simp]:
  "lk_pending (snd (WritePDU ok p l)) = lk_pending l" "lk_chans (snd (WritePDU ok p l)) = lk_chans l"
  by (simp_all add: WritePDU_def split: outcome.split)

interpretation link: correlation "\<lambda>l. seq \<in> set (lk_pending l) \<and> lk_chans l seq = None" "\<lambda>l. lk_chans l seq" link_happens
  "link_reply seq" for seq
proof
  show "seq \<in> set (lk_pending l) \<and> lk_chans l seq = None \<Longrightarrow> link_reply seq e = None \<Longrightarrow>
      seq \<in> set (lk_pending (link_happens e l)) \<and> lk_chans (link_happens e l) seq = None" for l e
    by (cases e) (auto simp: link_reply_def DispatchPending_def link_Send_def NextSeq_def Let_def split: if_splits)
  show "seq \<in> set (lk_pending l) \<and> lk_chans l seq = None \<Longrightarrow> link_reply seq e = Some p \<Longrightarrow>
      lk_chans (link_happens e l) seq = Some p" for l e p
    by (cases e) (auto simp: link_reply_def DispatchPending_def Let_def split: if_splits)
qed simp

lemma SendAndWait_reply:
  assumes "Encode_pdu (p\<lparr>pdu_SequenceNumber := lk_seq l + 1\<rparr>) = Ok b"
  shows "fst (SendAndWait True p events l) =
      (case first_some (link_reply (lk_seq l + 1)) events of Some resp \<Rightarrow> Ok resp | None \<Rightarrow> Err ''smpp: request timeout'')"
proof -
  let ?s = "lk_seq l + 1" and ?p = "p\<lparr>pdu_SequenceNumber := lk_seq l + 1\<rparr>"
  let ?l = "snd (WritePDU True ?p (start_wait ?s (l\<lparr>lk_seq := ?s\<rparr>)))"
  have "?s \<in> set (lk_pending ?l) \<and> lk_chans ?l ?s = None" by (simp add: start_wait_def)
  from link.await_first [OF this, of events]
  show ?thesis using assms by (simp add: SendAndWait_def NextSeq_def WritePDU_def split_beta Let_def)
qed

text \<open>The links of the registry are those added and not removed, in the order they came.\<close>

datatype reg_op = Added nat | Removed nat

fun registry_op :: "link_heap \<Rightarrow> reg_op \<Rightarrow> smpp_registry \<Rightarrow> smpp_registry" where
  "registry_op h (Added l) r = registry_Add h l r"
| "registry_op h (Removed l) r = registry_Remove h l r"

fun live :: "reg_op list \<Rightarrow> nat list \<Rightarrow> nat list" where
  "live [] ls = ls"
| "live (Added l # ops) ls = live ops (ls @ [l])"
| "live (Removed l # ops) ls = live ops (remove1 l ls)"

lemma links_Add: "rg_links (registry_Add h l r) sid = rg_links r sid @ (if lk_SystemID (h l) = sid then [l] else [])"
  by (simp add: registry_Add_def Let_def)

lemma links_Remove: "rg_links (registry_Remove h l r) sid = (if lk_SystemID (h l) = sid then remove1 l (rg_links r sid) else rg_links r sid)"
  by (simp add: registry_Remove_def Let_def)

lemma filter_remove1_other: "\<not> P x \<Longrightarrow> filter P (remove1 x xs) = filter P xs"
  by (induction xs) auto

lemma links_ops:
  "(\<forall>sid. rg_links r sid = filter (\<lambda>l. lk_SystemID (h l) = sid) ls) \<Longrightarrow>
    rg_links (fold (registry_op h) ops r) sid = filter (\<lambda>l. lk_SystemID (h l) = sid) (live ops ls)"
proof (induction ops arbitrary: r ls)
  case (Cons e ops)
  show ?case
  proof (cases e)
    case (Added l)
    then show ?thesis using Cons.prems Cons.IH [of "registry_Add h l r" "ls @ [l]"] by (simp add: links_Add)
  next
    case (Removed l)
    then show ?thesis using Cons.prems Cons.IH [of "registry_Remove h l r" "remove1 l ls"]
      by (simp add: links_Remove filter_remove1 filter_remove1_other)
  qed
qed simp

section \<open>Properties\<close>

text \<open>
  A PDU sent with \<open>SendAndWait\<close> is answered by the first PDU passed on with its sequence number,
  whether that is a response to it or not, and times out when none comes.
\<close>

theorem send_and_wait_outcome:
  assumes "Encode_pdu (p\<lparr>pdu_SequenceNumber := lk_seq l + 1\<rparr>) = Ok b"
  shows "fst (SendAndWait True p events l) =
    (case filter (\<lambda>q. pdu_SequenceNumber q = lk_seq l + 1) [q. PassedOn q \<leftarrow> events] of
       q # _ \<Rightarrow> Ok q | [] \<Rightarrow> Err ''smpp: request timeout'')"
proof -
  have "first_some (link_reply s) es = (case filter (\<lambda>q. pdu_SequenceNumber q = s) [q. PassedOn q \<leftarrow> es] of q # _ \<Rightarrow> Some q | [] \<Rightarrow> None)"
    for s es by (induction es) (auto simp: link_reply_def split: link_event.split)
  then show ?thesis by (simp add: SendAndWait_reply [OF assms] split: list.split)
qed

theorem send_and_wait_outcome_witness:
  "fst (SendAndWait True (empty_pdu\<lparr>pdu_CommandID := CmdEnquireLink\<rparr>)
     [PassedOn (empty_pdu\<lparr>pdu_CommandID := CmdDeliverSM, pdu_SequenceNumber := 1\<rparr>)] (NewLink [] [] [] [] 0 [] StateBound)) =
   Ok (empty_pdu\<lparr>pdu_CommandID := CmdDeliverSM, pdu_SequenceNumber := 1\<rparr>)"
proof -
  have "\<exists>b. Encode_pdu (empty_pdu\<lparr>pdu_CommandID := CmdEnquireLink, pdu_SequenceNumber := 1\<rparr>) = Ok b"
    by (simp add: Encode_pdu_def encodeBody_def bind_cmd_def bind_resp_cmd_def sm_cmd_def sm_resp_cmd_def Let_def)
  then show ?thesis
    using send_and_wait_outcome [where p = "empty_pdu\<lparr>pdu_CommandID := CmdEnquireLink\<rparr>" and l = "NewLink [] [] [] [] 0 [] StateBound"]
    by (auto simp: NewLink_def)
qed

text \<open>
  The registry holds, under each system id, the links that were added and not removed since, in the
  order they were added; so a name finds a bound link when one is registered under it as a system id.
\<close>

theorem link_registry_contents:
  "GetBySystemID (fold (registry_op h) ops NewRegistry) sid = filter (\<lambda>l. lk_SystemID (h l) = sid) (live ops []) \<and>
   (GetByName h (fold (registry_op h) ops NewRegistry) sid = None \<longrightarrow>
     (\<forall>l \<in> set (live ops []). lk_SystemID (h l) = sid \<longrightarrow> lk_state (h l) \<noteq> StateBound))"
proof -
  have "rg_links (fold (registry_op h) ops NewRegistry) sid = filter (\<lambda>l. lk_SystemID (h l) = sid) (live ops [])"
    by (rule links_ops) (simp add: NewRegistry_def)
  then show ?thesis
    by (auto simp: GetBySystemID_def GetByName_def firstBound_def find_None_iff split: option.splits)
qed

theorem link_registry_contents_witness:
  "GetBySystemID (fold (registry_op (\<lambda>_. NewLink [] ''esme'' [] [] 0 [] StateBound)) [Added 1, Added 2, Removed 1] NewRegistry) ''esme'' = [2]"
  using link_registry_contents [of "\<lambda>_. NewLink [] ''esme'' [] [] 0 [] StateBound" "[Added 1, Added 2, Removed 1]" "''esme''"]
  by (simp add: NewLink_def)

text \<open>
  Two bound links of one name but different system ids share one alias: when one of them is removed the
  alias goes, and the name finds nothing although the other one is still bound under it.
\<close>

theorem link_alias_lost:
  assumes "has_alias (h a)" "has_alias (h b)" "lk_Name (h a) = lk_Name (h b)" "lk_SystemID (h a) \<noteq> lk_SystemID (h b)"
    and "lk_state (h b) = StateBound"
  defines "r \<equiv> fold (registry_op h) [Added a, Added b] NewRegistry"
  shows "GetByName h r (lk_Name (h b)) = Some b \<and> GetByName h (registry_op h (Removed a) r) (lk_Name (h b)) = None \<and>
    GetBySystemID (registry_op h (Removed a) r) (lk_SystemID (h b)) = [b]"
  using assms(1-5)
  by (auto simp: r_def registry_Add_def registry_Remove_def NewRegistry_def GetByName_def GetBySystemID_def firstBound_def
      has_alias_def Let_def)

theorem link_alias_lost_witness:
  "GetByName (\<lambda>l. NewLink ''carrier'' (if l = 1 then ''a'' else ''b'') [] [] 0 [] StateBound)
     (registry_op (\<lambda>l. NewLink ''carrier'' (if l = 1 then ''a'' else ''b'') [] [] 0 [] StateBound) (Removed 1)
       (fold (registry_op (\<lambda>l. NewLink ''carrier'' (if l = 1 then ''a'' else ''b'') [] [] 0 [] StateBound)) [Added 1, Added 2] NewRegistry))
     ''carrier'' = None"
  using link_alias_lost [of "\<lambda>l. NewLink ''carrier'' (if l = 1 then ''a'' else ''b'') [] [] 0 [] StateBound" 1 2]
  by (simp add: NewLink_def has_alias_def)

end
