(* ===== verification/SmppServer.thy ===== *)
theory SmppServer
  imports SmppLink
begin

text \<open>
  The SMPP server (\<open>internal/smpp/server\<close>): the accounts that may bind (\<open>auth.go\<close>), the session of one
  connection (\<open>session.go\<close>) and the listener that limits how many sessions there are (\<open>listener.go\<close>).
\<close>

abbreviation ESME_ROK :: "32 word" where "ESME_ROK \<equiv> 0x00"
abbreviation ESME_RINVBNDSTS :: "32 word" where "ESME_RINVBNDSTS \<equiv> 0x04"
abbreviation ESME_RINVPASWD :: "32 word" where "ESME_RINVPASWD \<equiv> 0x0F"
abbreviation ESMClassDeliverReceipt :: byte where "ESMClassDeliverReceipt \<equiv> 0x04"

section \<open>Accounts\<close>

record smpp_account =
  sa_ID :: string
  sa_Name :: string
  sa_SystemID :: string
  sa_PasswordHash :: string
  sa_AllowedIP :: string
  sa_BindType :: string
  sa_ThroughputLimit :: int
  sa_DefaultRouteID :: string
  sa_Enabled :: bool

type_synonym account_cache = "string \<rightharpoonup> smpp_account"

text \<open>The rows of the store by system id; a later row replaces an earlier one of the same id.\<close>

fun auth_cache :: "smpp_account list \<Rightarrow> account_cache \<Rightarrow> account_cache" where
  "auth_cache [] m = m"
| "auth_cache (acc # accs) m = auth_cache accs (m(sa_SystemID acc \<mapsto> acc))"

text \<open>When the rows cannot be read the cache stays what it was.\<close>

definition auth_reload :: "smpp_account list option \<Rightarrow> account_cache \<Rightarrow> bool \<times> account_cache" where
  "auth_reload rows cache = (case rows of None \<Rightarrow> (False, cache) | Some accs \<Rightarrow> (True, auth_cache accs Map.empty))"

fun index_of :: "char \<Rightarrow> string \<Rightarrow> nat option" where
  "index_of c [] = None"
| "index_of c (x # xs) = (if x = c then Some 0 else map_option Suc (index_of c xs))"

definition last_index_of :: "char \<Rightarrow> string \<Rightarrow> nat option" where
  "last_index_of c s = map_option (\<lambda>i. length s - 1 - i) (index_of c (rev s))"

text \<open>\<open>net.SplitHostPort\<close> of the standard library, as far as its host and its failure go.\<close>

definition SplitHost :: "string \<Rightarrow> string outcome" where
  "SplitHost hostport =
     (case last_index_of (CHR '':'') hostport of
        None \<Rightarrow> Err ''missing port in address''
      | Some i \<Rightarrow>
          if hd hostport = CHR ''['' then
            (case index_of (CHR '']'') hostport of
               None \<Rightarrow> Err ''missing ']' in address''
             | Some e \<Rightarrow>
                 if e + 1 = length hostport then Err ''missing port in address''
                 else if e + 1 \<noteq> i then
                   Err (if hostport ! (e + 1) = CHR '':'' then ''too many colons in address'' else ''missing port in address'')
                 else if CHR ''['' \<in> set (drop 1 hostport) then Err ''unexpected '[' in address''
                 else if CHR '']'' \<in> set (drop (e + 1) hostport) then Err ''unexpected ']' in address''
                 else Ok (take (e - 1) (drop 1 hostport)))
          else if CHR '':'' \<in> set (take i hostport) then Err ''too many colons in address''
          else if CHR ''['' \<in> set hostport then Err ''unexpected '[' in address''
          else if CHR '']'' \<in> set hostport then Err ''unexpected ']' in address''
          else Ok (take i hostport))"

datatype auth_result = Denied string | Allowed smpp_account

text \<open>\<open>bcrypt hash password\<close> is whether the hash of \<open>golang.org/x/crypto/bcrypt\<close> is one of the password.\<close>

definition Authenticate :: "(string \<Rightarrow> string \<Rightarrow> bool) \<Rightarrow> account_cache \<Rightarrow> string \<Rightarrow> string \<Rightarrow> string \<Rightarrow> auth_result" where
  "Authenticate bcrypt accounts systemID password remoteAddr =
     (case accounts systemID of
        None \<Rightarrow> Denied ''unknown system_id''
      | Some acc \<Rightarrow>
          if \<not> sa_Enabled acc then Denied ''account disabled''
          else if \<not> bcrypt (sa_PasswordHash acc) password then Denied ''invalid password''
          else if sa_AllowedIP acc \<noteq> [] \<and>
                  (case SplitHost remoteAddr of Ok h \<Rightarrow> h | _ \<Rightarrow> remoteAddr) \<noteq> sa_AllowedIP acc
          then Denied ''IP not allowed''
          else Allowed acc)"

section \<open>A session\<close>

definition bindRespCmd :: "32 word \<Rightarrow> 32 word option" where
  "bindRespCmd c =
     (if c = CmdBindTransceiver then Some CmdBindTransceiverResp
      else if c = CmdBindReceiver then Some CmdBindReceiverResp
      else if c = CmdBindTransmitter then Some CmdBindTransmitterResp
      else None)"

definition bindTypeStr :: "32 word \<Rightarrow> string" where
  "bindTypeStr c = (if c = CmdBindTransmitter then ''transmitter'' else if c = CmdBindReceiver then ''receiver''
     else ''transceiver'')"

text \<open>The digits are filled in from the right; \<open>k\<close> are left to do.\<close>

fun hex_fill :: "nat \<Rightarrow> 64 word \<Rightarrow> string \<Rightarrow> string" where
  "hex_fill 0 v b = b"
| "hex_fill (Suc k) v b = hex_fill k (drop_bit 4 v) (''0123456789abcdef'' ! unat (v AND 0xF) # b)"

definition msgIDHex :: "64 word \<Rightarrow> string" where
  "msgIDHex v = hex_fill 16 v []"

text \<open>
  What a session works on: the links and their registry, the counter of message ids, and the messages
  handed over so far, each with where it came from: here, the account.
\<close>

record 'a smpp_world =
  ew_heap :: link_heap
  ew_reg :: smpp_registry
  ew_ids :: "64 word"
  ew_handed :: "(message \<times> 'a) list"

type_synonym esme_world = "smpp_account smpp_world"

definition generateMsgID :: "'b smpp_world \<Rightarrow> string \<times> 'b smpp_world" where
  "generateMsgID w = (let id = ew_ids w + 1 in (msgIDHex id, w\<lparr>ew_ids := id\<rparr>))"

definition response_to :: "pdu \<Rightarrow> 32 word \<Rightarrow> 32 word \<Rightarrow> pdu" where
  "response_to p cmd status =
     empty_pdu\<lparr>pdu_CommandID := cmd, pdu_CommandStatus := status, pdu_SequenceNumber := pdu_SequenceNumber p\<rparr>"

definition on_link :: "nat \<Rightarrow> (smpp_link \<Rightarrow> 'a \<times> smpp_link) \<Rightarrow> 'b smpp_world \<Rightarrow> 'a \<times> 'b smpp_world" where
  "on_link l f w = (let (x, k) = f (ew_heap w l) in (x, w\<lparr>ew_heap := (ew_heap w)(l := k)\<rparr>))"

definition session_dispatch :: "message \<Rightarrow> smpp_account \<Rightarrow> esme_world \<Rightarrow> esme_world" where
  "session_dispatch msg acc w = w\<lparr>ew_handed := ew_handed w @ [(msg, acc)]\<rparr>"

text \<open>The result says whether \<open>handleSubmit\<close> returned, that is, did not panic.\<close>

definition handleSubmit :: "nat \<Rightarrow> smpp_account \<Rightarrow> bool \<Rightarrow> gotime \<Rightarrow> pdu \<Rightarrow> esme_world \<Rightarrow> bool \<times> esme_world" where
  "handleSubmit l acc ok now p w =
     (let (id, w) = generateMsgID w;
          (sent, w) = on_link l (WritePDU ok ((response_to p CmdSubmitSMResp ESME_ROK)\<lparr>pdu_MessageID := id\<rparr>)) w in
      if \<not> sent then (True, w)
      else if pdu_ESMClass p AND ESMClassDeliverReceipt \<noteq> 0 then
        (case DecodeDeliveryReceipt now p of
           Ok msg \<Rightarrow> (True, session_dispatch (msg\<lparr>msg_IngressInterface := InterfaceSMPP,
             msg_IngressPeer := sa_SystemID acc\<rparr>) acc w)
         | Err e \<Rightarrow> (True, w)
         | Panic \<Rightarrow> (False, w))
      else
        (case DecodeSM now p of
           Ok msg \<Rightarrow> (True, session_dispatch (msg\<lparr>msg_IngressInterface := InterfaceSMPP,
             msg_IngressPeer := sa_SystemID acc, msg_SMPPMsgID := id\<rparr>) acc w)
         | Err e \<Rightarrow> (True, w)
         | Panic \<Rightarrow> (False, w)))"

text \<open>
  One PDU in the read loop; the result says whether the loop goes on. \<open>ok\<close> is whether the connection takes
  what is written meanwhile.
\<close>

definition session_pdu :: "nat \<Rightarrow> smpp_account \<Rightarrow> bool \<Rightarrow> gotime \<Rightarrow> pdu \<Rightarrow> esme_world \<Rightarrow> bool \<times> esme_world" where
  "session_pdu l acc ok now p w =
     (if pdu_CommandID p = CmdEnquireLink then
        (True, snd (on_link l (WritePDU ok (response_to p CmdEnquireLinkResp ESME_ROK)) w))
      else if pdu_CommandID p = CmdUnbind then
        (False, snd (on_link l (WritePDU ok (response_to p CmdUnbindResp ESME_ROK)) w))
      else if pdu_CommandID p = CmdSubmitSM then handleSubmit l acc ok now p w
      else (True, snd (on_link l (DispatchPending p) w)))"

text \<open>What a session sees: the next PDU read, or that reading failed.\<close>

datatype session_input = Input "pdu outcome" bool gotime

fun session_loop :: "nat \<Rightarrow> smpp_account \<Rightarrow> session_input list \<Rightarrow> esme_world \<Rightarrow> bool \<times> esme_world" where
  "session_loop l acc [] w = (True, w)"
| "session_loop l acc (Input r ok now # inputs) w =
     (case r of
        Ok p \<Rightarrow> (let (go, w) = session_pdu l acc ok now p w in
                 if go then session_loop l acc inputs w else (False, w))
      | _ \<Rightarrow> (False, w))"

definition session_leave :: "nat \<Rightarrow> 'b smpp_world \<Rightarrow> 'b smpp_world" where
  "session_leave l w = (let w = snd (on_link l (\<lambda>k. ((), k\<lparr>lk_state := StateDisconnected\<rparr>)) w) in
     w\<lparr>ew_reg := registry_Remove (ew_heap w) l (ew_reg w)\<rparr>)"

text \<open>
  The outcome of the bind: refused, with what was written to the connection, or the account and the link
  of a bound session.
\<close>

datatype bind_outcome = BindRefused "pdu list" | BindAccepted smpp_account smpp_link

definition written :: "bool \<Rightarrow> pdu \<Rightarrow> pdu list" where
  "written ok p = (case Encode_pdu p of Ok b \<Rightarrow> if ok then [p] else [] | _ \<Rightarrow> [])"

definition session_bind :: "(string \<Rightarrow> string \<Rightarrow> bool) \<Rightarrow> account_cache \<Rightarrow> string \<Rightarrow> pdu outcome \<Rightarrow> bool \<Rightarrow> bind_outcome" where
  "session_bind bcrypt accounts remote r ok =
     (case r of
        Ok p \<Rightarrow>
          (case bindRespCmd (pdu_CommandID p) of
             None \<Rightarrow> BindRefused (written ok (response_to p CmdGenericNack ESME_RINVBNDSTS))
           | Some respCmd \<Rightarrow>
               (case Authenticate bcrypt accounts (pdu_SystemID p) (pdu_Password p) remote of
                  Denied reason \<Rightarrow> BindRefused (written ok (response_to p respCmd ESME_RINVPASWD))
                | Allowed acc \<Rightarrow>
                    (let resp = (response_to p respCmd ESME_ROK)\<lparr>pdu_SystemID := pdu_SystemID p\<rparr> in
                     if written ok resp = [] then BindRefused []
                     else BindAccepted acc (NewLink (if sa_Name acc = [] then pdu_SystemID p else sa_Name acc)
                       (pdu_SystemID p) (bindTypeStr (pdu_CommandID p)) ''server'' 0 [resp] StateBound))))
      | _ \<Rightarrow> BindRefused [])"

datatype session_result = Refused "pdu list" | Open | Closed

text \<open>\<open>run\<close>: the link, at the fresh address \<open>l\<close>, is registered while its read loop runs.\<close>

definition session_run :: "(string \<Rightarrow> string \<Rightarrow> bool) \<Rightarrow> account_cache \<Rightarrow> string \<Rightarrow> nat \<Rightarrow> pdu outcome \<times> bool \<Rightarrow> session_input list \<Rightarrow>
    esme_world \<Rightarrow> session_result \<times> esme_world" where
  "session_run bcrypt accounts remote l first inputs w =
     (case session_bind bcrypt accounts remote (fst first) (snd first) of
        BindRefused out \<Rightarrow> (Refused out, w)
      | BindAccepted acc k \<Rightarrow>
          (let w = w\<lparr>ew_heap := (ew_heap w)(l := k)\<rparr>;
               w = w\<lparr>ew_reg := registry_Add (ew_heap w) l (ew_reg w)\<rparr>;
               (go, w) = session_loop l acc inputs w in
           if go then (Open, w) else (Closed, session_leave l w)))"

section \<open>The listener\<close>

text \<open>Connections come in and sessions end; \<open>active\<close> is the counter, \<open>started\<close> the sessions that run.\<close>

record smpp_listener =
  ls_active :: int
  ls_running :: "nat list"

datatype listener_event = Connected nat | SessionEnded nat

fun listener_step :: "int \<Rightarrow> listener_event \<Rightarrow> smpp_listener \<Rightarrow> smpp_listener" where
  "listener_step limit (Connected c) s =
     (if limit > 0 \<and> ls_active s \<ge> limit then s
      else s\<lparr>ls_active := ls_active s + 1, ls_running := c # ls_running s\<rparr>)"
| "listener_step limit (SessionEnded c) s =
     (if c \<in> set (ls_running s) then s\<lparr>ls_active := ls_active s - 1, ls_running := remove1 c (ls_running s)\<rparr> else s)"


section \<open>Lemmas\<close>

lemma Encode_small: "encodeBody p = Ok b \<Longrightarrow> length b < 1000 \<Longrightarrow> \<exists>e. Encode_pdu p = Ok e"
proof -
  assume b: "encodeBody p = Ok b" "length b < 1000"
  have "unat (word_of_nat (HeaderLen + length b) :: 32 word) = HeaderLen + length b"
    using b(2) by (simp only: unat_of_nat) simp
  then show ?thesis using b unfolding Encode_pdu_def by (simp del: of_nat_add)
qed

lemma length_hex_fill: "length (hex_fill k v b) = k + length b"
  by (induction k arbitrary: v b) simp_all

lemma length_msgIDHex: "length (msgIDHex v) = 16"
  by (simp add: msgIDHex_def length_hex_fill)

lemma hex_digit_inj: "i < 16 \<Longrightarrow> j < 16 \<Longrightarrow> ''0123456789abcdef'' ! i = ''0123456789abcdef'' ! j \<Longrightarrow> i = j"
  using nth_eq_iff_index_eq [of "''0123456789abcdef''" i j] by simp

lemma low_nibble: "unat (v AND 0xF) = unat v mod 16" for v :: "64 word"
proof -
  have "v AND 0xF = take_bit 4 v" by (simp add: take_bit_eq_mask mask_numeral)
  then have "unat (v AND 0xF) = take_bit 4 (unat v)" by (simp only: unsigned_take_bit_eq)
  then show ?thesis by (simp add: take_bit_eq_mod)
qed

lemma hex_fill_inj:
  "length b = length c \<Longrightarrow> hex_fill k v b = hex_fill k u c \<Longrightarrow> b = c \<and> unat v mod 16 ^ k = unat u mod 16 ^ k"
proof (induction k arbitrary: v u b c)
  case (Suc k)
  have hi: "unat (drop_bit 4 x) = unat x div 16" for x :: "64 word"
    by (simp add: drop_bit_eq_div unat_div)
  have split: "n mod 16 ^ Suc k = n mod 16 + 16 * (n div 16 mod 16 ^ k)" for n :: nat
    by (simp add: mod_mult2_eq)
  have "''0123456789abcdef'' ! unat (v AND 0xF) # b = ''0123456789abcdef'' ! unat (u AND 0xF) # c \<and>
      unat (drop_bit 4 v) mod 16 ^ k = unat (drop_bit 4 u) mod 16 ^ k"
    by (rule Suc.IH) (use Suc.prems in simp_all)
  then show ?case using hex_digit_inj [of "unat v mod 16" "unat u mod 16"]
    by (simp add: split hi low_nibble del: power_Suc)
qed simp

lemma msgIDHex_inj: "msgIDHex v = msgIDHex u \<longleftrightarrow> v = u"
proof
  assume "msgIDHex v = msgIDHex u"
  then have "unat v mod 16 ^ 16 = unat u mod 16 ^ 16" using hex_fill_inj [of "[]" "[]" 16 v u] by (simp add: msgIDHex_def)
  moreover have "unat x < 16 ^ 16" for x :: "64 word" using unsigned_less [of x] by simp
  ultimately show "v = u" by (simp add: word_unat_eq_iff)
qed simp

lemma encodes_response:
  assumes "\<not> bind_cmd c" "\<not> sm_cmd c" "length sid < 900" "length mid < 900"
  shows "\<exists>e. Encode_pdu (empty_pdu\<lparr>pdu_CommandID := c, pdu_CommandStatus := st, pdu_SequenceNumber := s,
    pdu_SystemID := sid, pdu_MessageID := mid\<rparr>) = Ok e"
proof -
  have "\<exists>b. encodeBody (empty_pdu\<lparr>pdu_CommandID := c, pdu_CommandStatus := st, pdu_SequenceNumber := s,
      pdu_SystemID := sid, pdu_MessageID := mid\<rparr>) = Ok b \<and> length b < 1000"
    using assms by (simp add: encodeBody_def Let_def writeCStr_def)
  then show ?thesis using Encode_small by blast
qed

lemma WritePDU_encodes:
  "Encode_pdu p = Ok e \<Longrightarrow> on_link l (WritePDU ok p) w =
     (ok, if ok then w\<lparr>ew_heap := (ew_heap w)(l := (ew_heap w l)\<lparr>lk_out := lk_out (ew_heap w l) @ [p]\<rparr>)\<rparr> else w)"
  by (simp add: on_link_def WritePDU_def)

lemma response_encodes:
  assumes "c = CmdEnquireLinkResp \<or> c = CmdUnbindResp \<or> c = CmdSubmitSMResp" "length mid < 900"
  shows "\<exists>e. Encode_pdu ((response_to p c st)\<lparr>pdu_MessageID := mid\<rparr>) = Ok e"
    and "\<exists>e. Encode_pdu (response_to p c st) = Ok e"
proof -
  have c: "\<not> bind_cmd c" "\<not> sm_cmd c" using assms(1) by (auto simp: bind_cmd_def sm_cmd_def)
  have e: "empty_pdu\<lparr>pdu_SystemID := []\<rparr> = empty_pdu" "empty_pdu\<lparr>pdu_MessageID := []\<rparr> = empty_pdu" by (simp_all add: empty_pdu_def)
  show "\<exists>e. Encode_pdu ((response_to p c st)\<lparr>pdu_MessageID := mid\<rparr>) = Ok e"
    using encodes_response [OF c, of "[]" mid "pdu_SequenceNumber p" st] assms(2)
    by (simp add: response_to_def empty_pdu_def)
  show "\<exists>e. Encode_pdu (response_to p c st) = Ok e"
    using encodes_response [OF c, of "[]" "[]" "pdu_SequenceNumber p" st]
    by (simp add: response_to_def empty_pdu_def)
qed


text \<open>The PDUs a session serves: what it reads until an unbind or a read that fails.\<close>

fun served :: "session_input list \<Rightarrow> (pdu \<times> bool \<times> gotime) list" where
  "served [] = []"
| "served (Input r ok now # inputs) =
     (case r of Ok p \<Rightarrow> (p, ok, now) # (if pdu_CommandID p = CmdUnbind then [] else served inputs) | _ \<Rightarrow> [])"

fun ends :: "session_input list \<Rightarrow> bool" where
  "ends [] = False"
| "ends (Input r ok now # inputs) = (case r of Ok p \<Rightarrow> pdu_CommandID p = CmdUnbind \<or> ends inputs | _ \<Rightarrow> True)"

definition response_cmd :: "pdu \<Rightarrow> 32 word option" where
  "response_cmd p =
     (if pdu_CommandID p = CmdEnquireLink then Some CmdEnquireLinkResp
      else if pdu_CommandID p = CmdUnbind then Some CmdUnbindResp
      else if pdu_CommandID p = CmdSubmitSM then Some CmdSubmitSMResp
      else None)"

text \<open>What a PDU is answered with; \<open>n\<close> is the message id counter before it.\<close>

definition session_answer :: "64 word \<Rightarrow> pdu \<Rightarrow> pdu list" where
  "session_answer n p =
     (case response_cmd p of
        None \<Rightarrow> []
      | Some c \<Rightarrow> [(response_to p c ESME_ROK)
          \<lparr>pdu_MessageID := (if pdu_CommandID p = CmdSubmitSM then msgIDHex (n + 1) else [])\<rparr>])"

definition submit_message :: "64 word \<Rightarrow> string \<Rightarrow> gotime \<Rightarrow> pdu \<Rightarrow> message option" where
  "submit_message n sid now p =
     (if pdu_CommandID p \<noteq> CmdSubmitSM then None
      else if pdu_ESMClass p AND ESMClassDeliverReceipt \<noteq> 0 then
        (case DecodeDeliveryReceipt now p of
           Ok msg \<Rightarrow> Some (msg\<lparr>msg_IngressInterface := InterfaceSMPP, msg_IngressPeer := sid\<rparr>) | _ \<Rightarrow> None)
      else (case DecodeSM now p of
           Ok msg \<Rightarrow> Some (msg\<lparr>msg_IngressInterface := InterfaceSMPP, msg_IngressPeer := sid,
             msg_SMPPMsgID := msgIDHex (n + 1)\<rparr>) | _ \<Rightarrow> None))"

definition counted :: "pdu \<Rightarrow> 64 word" where
  "counted p = (if pdu_CommandID p = CmdSubmitSM then 1 else 0)"

lemma empty_message_id: "(response_to p c st)\<lparr>pdu_MessageID := []\<rparr> = response_to p c st"
  by (simp add: response_to_def empty_pdu_def)

lemma dispatch_out [simp]: "lk_out (snd (DispatchPending p k)) = lk_out k" "lk_state (snd (DispatchPending p k)) = lk_state k"
    "lk_SystemID (snd (DispatchPending p k)) = lk_SystemID k" "lk_Name (snd (DispatchPending p k)) = lk_Name k"
  by (simp_all add: DispatchPending_def Let_def)

lemma ew_heap_on_link: "ew_heap (snd (on_link l f w)) = (ew_heap w)(l := snd (f (ew_heap w l)))"
  by (simp add: on_link_def split_beta Let_def)

lemma on_link_frame [simp]:
  "ew_reg (snd (on_link l f w)) = ew_reg w" "ew_ids (snd (on_link l f w)) = ew_ids w"
  "ew_handed (snd (on_link l f w)) = ew_handed w"
  by (simp_all add: on_link_def split_beta Let_def)

lemma write_out: "lk_out (snd (WritePDU ok p k)) = lk_out k @ (if fst (WritePDU ok p k) then [p] else [])"
    "lk_state (snd (WritePDU ok p k)) = lk_state k" "lk_SystemID (snd (WritePDU ok p k)) = lk_SystemID k"
    "lk_Name (snd (WritePDU ok p k)) = lk_Name k"
  by (simp_all add: WritePDU_def split: outcome.split)

lemma write_response:
  assumes "c = CmdEnquireLinkResp \<or> c = CmdUnbindResp \<or> c = CmdSubmitSMResp" "length mid < 900"
  shows "fst (WritePDU ok ((response_to p c st)\<lparr>pdu_MessageID := mid\<rparr>) k) = ok" "fst (WritePDU ok (response_to p c st) k) = ok"
  using response_encodes [OF assms, of p st] by (auto simp: WritePDU_def)

text \<open>What one PDU does, in one equation for each part of the state.\<close>

lemma session_pdu_effect:
  fixes w l acc ok now p defines "r \<equiv> session_pdu l acc ok now p w"
  shows "fst r = (pdu_CommandID p \<noteq> CmdUnbind)" "ew_reg (snd r) = ew_reg w" "ew_ids (snd r) = ew_ids w + counted p"
    "lk_out (ew_heap (snd r) l) = lk_out (ew_heap w l) @ (if ok then session_answer (ew_ids w) p else [])"
    "ew_handed (snd r) = ew_handed w @ (if ok then (case submit_message (ew_ids w) (sa_SystemID acc) now p of
       None \<Rightarrow> [] | Some msg \<Rightarrow> [(msg, acc)]) else [])"
    "lk_state (ew_heap (snd r) l) = lk_state (ew_heap w l)" "lk_SystemID (ew_heap (snd r) l) = lk_SystemID (ew_heap w l)"
    "lk_Name (ew_heap (snd r) l) = lk_Name (ew_heap w l)" "\<And>l'. l' \<noteq> l \<Longrightarrow> ew_heap (snd r) l' = ew_heap w l'"
proof -
  have np: "DecodeSM now p \<noteq> Panic" using no_panic_DecodeSM [of now p] by auto
  have nr: "DecodeDeliveryReceipt now p \<noteq> Panic" by (simp add: DecodeDeliveryReceipt_def Let_def)
  have sub: "pdu_CommandID p = CmdSubmitSM \<Longrightarrow> fst r = True \<and> ew_reg (snd r) = ew_reg w \<and> ew_ids (snd r) = ew_ids w + 1 \<and>
      ew_heap (snd r) = (ew_heap w)(l := snd (WritePDU ok ((response_to p CmdSubmitSMResp ESME_ROK)
        \<lparr>pdu_MessageID := msgIDHex (ew_ids w + 1)\<rparr>) (ew_heap w l))) \<and>
      ew_handed (snd r) = ew_handed w @ (if ok then (case submit_message (ew_ids w) (sa_SystemID acc) now p of
       None \<Rightarrow> [] | Some msg \<Rightarrow> [(msg, acc)]) else [])"
    using np nr
    by (auto simp: r_def session_pdu_def handleSubmit_def generateMsgID_def session_dispatch_def submit_message_def
        on_link_def split_beta Let_def write_response length_msgIDHex split: outcome.split)
  consider (sub) "pdu_CommandID p = CmdSubmitSM" | (enq) "pdu_CommandID p = CmdEnquireLink" | (unb) "pdu_CommandID p = CmdUnbind"
    | (other) "pdu_CommandID p \<noteq> CmdSubmitSM" "pdu_CommandID p \<noteq> CmdEnquireLink" "pdu_CommandID p \<noteq> CmdUnbind" by blast
  then have "fst r = (pdu_CommandID p \<noteq> CmdUnbind) \<and> ew_reg (snd r) = ew_reg w \<and> ew_ids (snd r) = ew_ids w + counted p \<and>
    lk_out (ew_heap (snd r) l) = lk_out (ew_heap w l) @ (if ok then session_answer (ew_ids w) p else []) \<and>
    ew_handed (snd r) = ew_handed w @ (if ok then (case submit_message (ew_ids w) (sa_SystemID acc) now p of
       None \<Rightarrow> [] | Some msg \<Rightarrow> [(msg, acc)]) else []) \<and>
    lk_state (ew_heap (snd r) l) = lk_state (ew_heap w l) \<and> lk_SystemID (ew_heap (snd r) l) = lk_SystemID (ew_heap w l) \<and>
    lk_Name (ew_heap (snd r) l) = lk_Name (ew_heap w l) \<and> (\<forall>l'. l' \<noteq> l \<longrightarrow> ew_heap (snd r) l' = ew_heap w l')"
  proof cases
    case sub
    then show ?thesis using \<open>pdu_CommandID p = CmdSubmitSM \<Longrightarrow> _\<close>
      by (simp add: counted_def session_answer_def response_cmd_def write_out write_response length_msgIDHex)
  next
    case enq
    then show ?thesis by (simp add: r_def session_pdu_def ew_heap_on_link counted_def session_answer_def response_cmd_def
        write_out write_response(2) [where mid = "[]"] empty_message_id submit_message_def)
  next
    case unb
    then show ?thesis by (simp add: r_def session_pdu_def ew_heap_on_link counted_def session_answer_def response_cmd_def
        write_out write_response(2) [where mid = "[]"] empty_message_id submit_message_def)
  next
    case other
    then show ?thesis by (simp add: r_def session_pdu_def ew_heap_on_link counted_def session_answer_def response_cmd_def
        submit_message_def)
  qed
  then show "fst r = (pdu_CommandID p \<noteq> CmdUnbind)" "ew_reg (snd r) = ew_reg w" "ew_ids (snd r) = ew_ids w + counted p"
    "lk_out (ew_heap (snd r) l) = lk_out (ew_heap w l) @ (if ok then session_answer (ew_ids w) p else [])"
    "ew_handed (snd r) = ew_handed w @ (if ok then (case submit_message (ew_ids w) (sa_SystemID acc) now p of
       None \<Rightarrow> [] | Some msg \<Rightarrow> [(msg, acc)]) else [])"
    "lk_state (ew_heap (snd r) l) = lk_state (ew_heap w l)" "lk_SystemID (ew_heap (snd r) l) = lk_SystemID (ew_heap w l)"
    "lk_Name (ew_heap (snd r) l) = lk_Name (ew_heap w l)" "\<And>l'. l' \<noteq> l \<Longrightarrow> ew_heap (snd r) l' = ew_heap w l'"
    by blast+
qed


fun answers :: "64 word \<Rightarrow> (pdu \<times> bool \<times> gotime) list \<Rightarrow> pdu list" where
  "answers n [] = []"
| "answers n ((p, ok, now) # xs) = (if ok then session_answer n p else []) @ answers (n + counted p) xs"

fun messages :: "64 word \<Rightarrow> string \<Rightarrow> (pdu \<times> bool \<times> gotime) list \<Rightarrow> message list" where
  "messages n sid [] = []"
| "messages n sid ((p, ok, now) # xs) =
     (if ok then (case submit_message n sid now p of None \<Rightarrow> [] | Some m \<Rightarrow> [m]) else []) @ messages (n + counted p) sid xs"

lemma session_loop_effect:
  fixes w l acc inputs defines "r \<equiv> session_loop l acc inputs w"
  shows "fst r = (\<not> ends inputs) \<and> ew_reg (snd r) = ew_reg w \<and>
    lk_out (ew_heap (snd r) l) = lk_out (ew_heap w l) @ answers (ew_ids w) (served inputs) \<and>
    ew_handed (snd r) = ew_handed w @ map (\<lambda>m. (m, acc)) (messages (ew_ids w) (sa_SystemID acc) (served inputs)) \<and>
    lk_state (ew_heap (snd r) l) = lk_state (ew_heap w l) \<and> lk_SystemID (ew_heap (snd r) l) = lk_SystemID (ew_heap w l) \<and>
    lk_Name (ew_heap (snd r) l) = lk_Name (ew_heap w l) \<and> (\<forall>l'. l' \<noteq> l \<longrightarrow> ew_heap (snd r) l' = ew_heap w l')"
  unfolding r_def
proof (induction inputs arbitrary: w)
  case (Cons i inputs)
  obtain x ok now where i: "i = Input x ok now" by (cases i)
  show ?case
  proof (cases x)
    case (Ok p)
    let ?s = "session_pdu l acc ok now p w"
    note e = session_pdu_effect [where l = l and acc = acc and ok = ok and now = now and p = p and w = w]
    show ?thesis
      using Cons.IH [of "snd ?s"] by (auto simp: i Ok split_beta Let_def e split: option.split)
  qed (simp_all add: i)
qed simp

lemma session_bind_accepted:
  assumes "session_bind bcrypt accounts remote r ok = BindAccepted acc k"
  obtains p c where "r = Ok p" "bindRespCmd (pdu_CommandID p) = Some c"
    "Authenticate bcrypt accounts (pdu_SystemID p) (pdu_Password p) remote = Allowed acc"
    "lk_out k = [(response_to p c ESME_ROK)\<lparr>pdu_SystemID := pdu_SystemID p\<rparr>]" "lk_state k = StateBound"
    "lk_SystemID k = pdu_SystemID p" "lk_Name k = (if sa_Name acc = [] then pdu_SystemID p else sa_Name acc)"
proof -
  obtain p where p: "r = Ok p" using assms by (cases r) (simp_all add: session_bind_def)
  obtain c where c: "bindRespCmd (pdu_CommandID p) = Some c"
    using assms p by (cases "bindRespCmd (pdu_CommandID p)") (simp_all add: session_bind_def)
  have a: "Authenticate bcrypt accounts (pdu_SystemID p) (pdu_Password p) remote = Allowed acc"
    using assms p c by (cases "Authenticate bcrypt accounts (pdu_SystemID p) (pdu_Password p) remote")
      (simp_all add: session_bind_def Let_def split: if_splits)
  show thesis
    by (rule that [OF p c a]) (use assms p c a in \<open>auto simp: session_bind_def Let_def NewLink_def split: if_splits\<close>)
qed

lemma session_run_accepted:
  fixes w defines "w1 \<equiv> \<lambda>l k. w\<lparr>ew_heap := (ew_heap w)(l := k), ew_reg := registry_Add ((ew_heap w)(l := k)) l (ew_reg w)\<rparr>"
  assumes "session_bind bcrypt accounts remote (fst first) (snd first) = BindAccepted acc k"
  shows "session_run bcrypt accounts remote l first inputs w =
    (let w' = snd (session_loop l acc inputs (w1 l k)) in if ends inputs then (Closed, session_leave l w') else (Open, w'))"
  using session_loop_effect [where l = l and acc = acc and inputs = inputs and w = "w1 l k"] assms(2)
  by (simp add: session_run_def w1_def Let_def split_beta)

lemma session_leave_frame [simp]:
  "lk_out (ew_heap (session_leave l w) l) = lk_out (ew_heap w l)" "ew_handed (session_leave l w) = ew_handed w"
  "ew_ids (session_leave l w) = ew_ids w"
  by (simp_all add: session_leave_def ew_heap_on_link Let_def)

lemma session_run_effect:
  assumes "session_bind bcrypt accounts remote (fst first) (snd first) = BindAccepted acc k"
  shows "lk_out (ew_heap (snd (session_run bcrypt accounts remote l first inputs w)) l) =
      lk_out k @ answers (ew_ids w) (served inputs)"
    "ew_handed (snd (session_run bcrypt accounts remote l first inputs w)) =
      ew_handed w @ map (\<lambda>m. (m, acc)) (messages (ew_ids w) (sa_SystemID acc) (served inputs))"
  using session_loop_effect [where l = l and acc = acc and inputs = inputs and
      w = "w\<lparr>ew_heap := (ew_heap w)(l := k), ew_reg := registry_Add ((ew_heap w)(l := k)) l (ew_reg w)\<rparr>"]
  by (simp_all add: session_run_accepted [OF assms] Let_def)

text \<open>The message ids given out are those of the counter, one after the other.\<close>

definition submit_ids :: "pdu list \<Rightarrow> string list" where
  "submit_ids ps = map pdu_MessageID (filter (\<lambda>q. pdu_CommandID q = CmdSubmitSMResp) ps)"

lemma submit_ids_append [simp]: "submit_ids (xs @ ys) = submit_ids xs @ submit_ids ys"
  by (simp add: submit_ids_def)

lemma submit_ids_answer:
  "submit_ids (session_answer n p) = (if pdu_CommandID p = CmdSubmitSM then [msgIDHex (n + 1)] else [])"
  by (simp add: session_answer_def response_cmd_def submit_ids_def response_to_def)

lemma answers_ids:
  "\<forall>(p, ok, now) \<in> set xs. ok \<Longrightarrow>
   submit_ids (answers n xs) =
     map (\<lambda>i. msgIDHex (n + 1 + word_of_nat i)) [0..<length (filter (\<lambda>(p, ok, now). pdu_CommandID p = CmdSubmitSM) xs)]"
proof (induction xs arbitrary: n)
  case (Cons x xs)
  obtain p ok now where x: "x = (p, ok, now)" by (cases x)
  have "[0..<Suc c] = 0 # map Suc [0..<c]" for c by (simp add: map_Suc_upt upt_conv_Cons)
  then show ?case using Cons.IH [of "n + counted p"] Cons.prems
    by (simp add: x submit_ids_answer counted_def comp_def add.assoc)
qed (simp add: submit_ids_def)

lemma distinct_ids: "c \<le> 2 ^ 64 \<Longrightarrow> distinct (map (\<lambda>i. msgIDHex (m + word_of_nat i)) [0..<c])"
proof -
  assume c: "c \<le> 2 ^ 64"
  have "i = j" if "i < c" "j < c" "word_of_nat i = (word_of_nat j :: 64 word)" for i j
  proof -
    have "unat (word_of_nat n :: 64 word) = n" if "n < c" for n
      using that c by (simp only: unat_of_nat) simp
    then show ?thesis using that by metis
  qed
  then have "inj_on (\<lambda>i. msgIDHex (m + word_of_nat i)) {0..<c}" by (auto intro!: inj_onI simp: msgIDHex_inj)
  then show ?thesis by (simp add: distinct_map)
qed

lemma answers_responses:
  "\<forall>(p, ok, now) \<in> set xs. ok \<Longrightarrow>
   map (\<lambda>q. (pdu_CommandID q, pdu_CommandStatus q, pdu_SequenceNumber q)) (answers n xs) =
     List.map_filter (\<lambda>(p, ok, now). map_option (\<lambda>c. (c, ESME_ROK, pdu_SequenceNumber p)) (response_cmd p)) xs"
  by (induction n xs rule: answers.induct) (auto simp: session_answer_def response_to_def split: option.split)


lemma Authenticate_allowed:
  "Authenticate bcrypt accounts sid pw remote = Allowed acc \<Longrightarrow> accounts sid = Some acc \<and> sa_Enabled acc \<and>
     bcrypt (sa_PasswordHash acc) pw \<and>
     (sa_AllowedIP acc \<noteq> [] \<longrightarrow> (case SplitHost remote of Ok h \<Rightarrow> h | _ \<Rightarrow> remote) = sa_AllowedIP acc)"
  by (auto simp: Authenticate_def split: option.splits if_splits)

lemma auth_cache_key: "auth_cache accs m sid = Some acc \<Longrightarrow> m sid = Some acc \<or> acc \<in> set accs \<and> sa_SystemID acc = sid"
  by (induction accs m rule: auth_cache.induct) (auto split: if_splits)

lemma submit_message_fields:
  "submit_message n sid now p = Some m \<Longrightarrow> pdu_CommandID p = CmdSubmitSM \<and> msg_IngressInterface m = InterfaceSMPP \<and>
     msg_IngressPeer m = sid \<and> (pdu_ESMClass p AND ESMClassDeliverReceipt = 0 \<longrightarrow> msg_SMPPMsgID m = msgIDHex (n + 1))"
  by (auto simp: submit_message_def split: if_splits outcome.splits)

lemma messages_acknowledged:
  "m \<in> set (messages n sid xs) \<Longrightarrow>
     \<exists>p ok now q. (p, ok, now) \<in> set xs \<and> pdu_CommandID p = CmdSubmitSM \<and> msg_IngressInterface m = InterfaceSMPP \<and>
       msg_IngressPeer m = sid \<and> q \<in> set (answers n xs) \<and> pdu_CommandID q = CmdSubmitSMResp \<and> pdu_CommandStatus q = ESME_ROK \<and>
       pdu_SequenceNumber q = pdu_SequenceNumber p \<and>
       (pdu_ESMClass p AND ESMClassDeliverReceipt = 0 \<longrightarrow> msg_SMPPMsgID m = pdu_MessageID q)"
proof (induction xs arbitrary: n)
  case (Cons x xs)
  obtain p ok now where x: "x = (p, ok, now)" by (cases x)
  show ?case
  proof (cases "m \<in> set (messages (n + counted p) sid xs)")
    case True
    from Cons.IH [OF this] show ?thesis by (auto simp: x)
  next
    case False
    then have "m \<in> set (if ok then (case submit_message n sid now p of None \<Rightarrow> [] | Some m \<Rightarrow> [m]) else [])"
      using Cons.prems unfolding x messages.simps set_append by blast
    then have sent: "ok = True" "submit_message n sid now p = Some m"
      by (cases ok; cases "submit_message n sid now p"; simp)+
    note m = sent(2)
    let ?q = "(response_to p CmdSubmitSMResp ESME_ROK)\<lparr>pdu_MessageID := msgIDHex (n + 1)\<rparr>"
    from submit_message_fields [OF m] have "?q \<in> set (answers n ((p, ok, now) # xs))"
      using sent(1) by (simp add: session_answer_def response_cmd_def)
    moreover have "pdu_CommandID ?q = CmdSubmitSMResp" "pdu_CommandStatus ?q = ESME_ROK"
      "pdu_SequenceNumber ?q = pdu_SequenceNumber p" "pdu_MessageID ?q = msgIDHex (n + 1)"
      by (simp_all add: response_to_def)
    ultimately show ?thesis using submit_message_fields [OF m]
      by (intro exI [of _ p] exI [of _ ok] exI [of _ now] exI [of _ ?q]) (simp add: x)
  qed
qed simp

section \<open>A sample session\<close>

definition sample_account :: smpp_account where
  "sample_account = \<lparr>sa_ID = ''1'', sa_Name = ''carrier'', sa_SystemID = ''esme'', sa_PasswordHash = ''secret'',
     sa_AllowedIP = ''10.0.0.1'', sa_BindType = ''transceiver'', sa_ThroughputLimit = 0, sa_DefaultRouteID = [], sa_Enabled = True\<rparr>"

definition sample_bind :: pdu where
  "sample_bind = empty_pdu\<lparr>pdu_CommandID := CmdBindTransceiver, pdu_SequenceNumber := 1, pdu_SystemID := ''esme'',
     pdu_Password := ''secret''\<rparr>"

definition sample_submit :: pdu where
  "sample_submit = empty_pdu\<lparr>pdu_CommandID := CmdSubmitSM, pdu_SequenceNumber := 2\<rparr>"

definition sample_link :: smpp_link where
  "sample_link = NewLink ''carrier'' ''esme'' ''transceiver'' ''server'' 0
     [(response_to sample_bind CmdBindTransceiverResp ESME_ROK)\<lparr>pdu_SystemID := ''esme''\<rparr>] StateBound"

definition sample_world :: esme_world where
  "sample_world = \<lparr>ew_heap = (\<lambda>_. NewLink [] [] [] [] 0 [] StateDisconnected), ew_reg = NewRegistry, ew_ids = 0, ew_handed = []\<rparr>"

definition sample_time :: gotime where
  "sample_time = go_date 2024 1 1 0 0 0 0"

lemma sample_host: "SplitHost ''10.0.0.1:4000'' = Ok ''10.0.0.1''"
  by (simp add: SplitHost_def last_index_of_def)

lemma sample_allowed:
  "Authenticate (=) (auth_cache [sample_account] Map.empty) ''esme'' ''secret'' ''10.0.0.1:4000'' = Allowed sample_account"
  by (simp add: Authenticate_def sample_account_def sample_host)

lemma sample_bound:
  "session_bind (=) (auth_cache [sample_account] Map.empty) ''10.0.0.1:4000'' (Ok sample_bind) True = BindAccepted sample_account sample_link"
proof -
  have "\<exists>e. Encode_pdu ((response_to sample_bind CmdBindTransceiverResp ESME_ROK)\<lparr>pdu_SystemID := ''esme''\<rparr>) = Ok e"
    using encodes_response [of CmdBindTransceiverResp "''esme''" "[]" 1 ESME_ROK]
    by (simp add: response_to_def sample_bind_def empty_pdu_def bind_cmd_def sm_cmd_def)
  moreover have "bindRespCmd (pdu_CommandID sample_bind) = Some CmdBindTransceiverResp" "pdu_SystemID sample_bind = ''esme''"
    "pdu_Password sample_bind = ''secret''" "bindTypeStr (pdu_CommandID sample_bind) = ''transceiver''" "sa_Name sample_account = ''carrier''"
    by (simp_all add: sample_bind_def bindRespCmd_def bindTypeStr_def sample_account_def)
  ultimately show ?thesis
    by (auto simp: session_bind_def sample_allowed written_def sample_link_def Let_def simp del: auth_cache.simps)
qed

lemma sample_message: "\<exists>m. messages 0 ''esme'' [(sample_submit, True, sample_time)] = [m]"
proof -
  have "\<exists>m. DecodeSM sample_time sample_submit = Ok m"
    by (simp add: DecodeSM_def sample_submit_def decodeSM_payload_def empty_pdu_def Payload_def TLV_def empty_message_def
        Let_def split: encoding.split)
  then show ?thesis by (auto simp: submit_message_def sample_submit_def empty_pdu_def)
qed

section \<open>Properties\<close>



text \<open>
  C17: Whatever a connection sends, a message is handed on only after a bind with the password of an enabled
  account, from the address the account allows; it comes from a submit_sm of the session, bears the system id
  of that account as its ingress peer, and, unless it is a receipt, the message id of the submit_sm_resp that
  was written, with status ok, before.
\<close>

theorem server_messages_authenticated:
  assumes "ew_handed (snd (session_run bcrypt (auth_cache rows Map.empty) remote l (Ok b, ok) inputs w)) = ew_handed w @ new"
    and "(m, acc) \<in> set new"
  shows "acc \<in> set rows \<and> sa_SystemID acc = pdu_SystemID b \<and> sa_Enabled acc \<and> bcrypt (sa_PasswordHash acc) (pdu_Password b) \<and>
    (sa_AllowedIP acc \<noteq> [] \<longrightarrow> (case SplitHost remote of Ok h \<Rightarrow> h | _ \<Rightarrow> remote) = sa_AllowedIP acc) \<and>
    msg_IngressInterface m = InterfaceSMPP \<and> msg_IngressPeer m = pdu_SystemID b \<and>
    (\<exists>p sent now q. (p, sent, now) \<in> set (served inputs) \<and> pdu_CommandID p = CmdSubmitSM \<and>
       q \<in> set (lk_out (ew_heap (snd (session_run bcrypt (auth_cache rows Map.empty) remote l (Ok b, ok) inputs w)) l)) \<and>
       pdu_CommandID q = CmdSubmitSMResp \<and> pdu_CommandStatus q = ESME_ROK \<and> pdu_SequenceNumber q = pdu_SequenceNumber p \<and>
       (pdu_ESMClass p AND ESMClassDeliverReceipt = 0 \<longrightarrow> msg_SMPPMsgID m = pdu_MessageID q))"
proof -
  let ?run = "\<lambda>ok. session_run bcrypt (auth_cache rows Map.empty) remote l (Ok b, ok) inputs w"
  obtain a k where bound: "session_bind bcrypt (auth_cache rows Map.empty) remote (Ok b) ok = BindAccepted a k"
    using assms by (cases "session_bind bcrypt (auth_cache rows Map.empty) remote (Ok b) ok") (auto simp: session_run_def)
  note effect = session_run_effect [where first = "(Ok b, ok)", unfolded fst_conv snd_conv, OF bound]
  have new: "new = map (\<lambda>m. (m, a)) (messages (ew_ids w) (sa_SystemID a) (served inputs))"
    using assms(1) effect(2) [of l inputs w] by simp
  then have a: "a = acc" and m: "m \<in> set (messages (ew_ids w) (sa_SystemID acc) (served inputs))" using assms(2) by auto
  have allowed: "Authenticate bcrypt (auth_cache rows Map.empty) (pdu_SystemID b) (pdu_Password b) remote = Allowed acc"
    using session_bind_accepted [OF bound] a by (metis outcome.inject(1))
  from Authenticate_allowed [OF this] auth_cache_key [of rows Map.empty "pdu_SystemID b" acc]
  have acc: "acc \<in> set rows" "sa_SystemID acc = pdu_SystemID b" "sa_Enabled acc" "bcrypt (sa_PasswordHash acc) (pdu_Password b)"
    "sa_AllowedIP acc \<noteq> [] \<longrightarrow> (case SplitHost remote of Ok h \<Rightarrow> h | _ \<Rightarrow> remote) = sa_AllowedIP acc" by auto
  have out: "set (answers (ew_ids w) (served inputs)) \<subseteq> set (lk_out (ew_heap (snd (?run ok)) l))"
    by (simp add: effect(1))
  obtain p sent now q where "(p, sent, now) \<in> set (served inputs)" "pdu_CommandID p = CmdSubmitSM"
    "msg_IngressInterface m = InterfaceSMPP" "msg_IngressPeer m = sa_SystemID acc" "q \<in> set (answers (ew_ids w) (served inputs))"
    "pdu_CommandID q = CmdSubmitSMResp" "pdu_CommandStatus q = ESME_ROK" "pdu_SequenceNumber q = pdu_SequenceNumber p"
    "pdu_ESMClass p AND ESMClassDeliverReceipt = 0 \<longrightarrow> msg_SMPPMsgID m = pdu_MessageID q"
    using messages_acknowledged [OF m] by blast
  moreover from this out have "q \<in> set (lk_out (ew_heap (snd (?run ok)) l))" by blast
  ultimately show ?thesis using acc
    by (intro conjI exI [of _ p] exI [of _ sent] exI [of _ now] exI [of _ q]) simp_all
qed

theorem server_messages_authenticated_witness:
  "\<exists>m. ew_handed (snd (session_run (=) (auth_cache [sample_account] Map.empty) ''10.0.0.1:4000'' 0 (Ok sample_bind, True)
     [Input (Ok sample_submit) True sample_time] sample_world)) = [(m, sample_account)] \<and> msg_IngressPeer m = ''esme''"
proof -
  let ?inputs = "[Input (Ok sample_submit) True sample_time]"
  obtain m where m: "messages 0 ''esme'' [(sample_submit, True, sample_time)] = [m]" using sample_message by blast
  have served: "served ?inputs = [(sample_submit, True, sample_time)]" by simp
  have handed: "ew_handed (snd (session_run (=) (auth_cache [sample_account] Map.empty) ''10.0.0.1:4000'' 0 (Ok sample_bind, True)
     ?inputs sample_world)) = ew_handed sample_world @ [(m, sample_account)]"
    using session_run_effect(2) [where first = "(Ok sample_bind, True)" and inputs = ?inputs and w = sample_world and l = 0,
        unfolded fst_conv snd_conv, OF sample_bound] m
    by (simp only: served) (simp add: sample_world_def sample_account_def)
  have "msg_IngressPeer m = ''esme''"
    using server_messages_authenticated [OF handed, of m sample_account] by (simp add: sample_bind_def)
  then show ?thesis using handed by (simp add: sample_world_def)
qed

text \<open>
  A link stands in the registry exactly while its session runs: it is there, bound, until the connection
  ends or unbinds, and afterwards the registry holds the links it held before and the link counts as
  disconnected.
\<close>

theorem server_link_registered:
  fixes inputs :: "session_input list"
  assumes "session_bind bcrypt accounts remote (fst first) (snd first) = BindAccepted acc k"
    and "\<And>sid. l \<notin> set (rg_links (ew_reg w) sid)"
  defines "r \<equiv> session_run bcrypt accounts remote l first inputs w"
  shows "if ends inputs
    then fst r = Closed \<and> rg_links (ew_reg (snd r)) = rg_links (ew_reg w) \<and> lk_state (ew_heap (snd r) l) = StateDisconnected
    else fst r = Open \<and> l \<in> set (rg_links (ew_reg (snd r)) (lk_SystemID k)) \<and> lk_state (ew_heap (snd r) l) = StateBound"
proof -
  let ?w = "w\<lparr>ew_heap := (ew_heap w)(l := k), ew_reg := registry_Add ((ew_heap w)(l := k)) l (ew_reg w)\<rparr>"
  have st: "lk_state k = StateBound" using session_bind_accepted [OF assms(1)] by metis
  note loop = session_loop_effect [where l = l and acc = acc and inputs = inputs and w = ?w]
  have sid: "lk_SystemID (ew_heap (snd (session_loop l acc inputs ?w)) l) = lk_SystemID k" using loop by simp
  have rg: "rg_links (ew_reg (snd (session_loop l acc inputs ?w))) =
      (rg_links (ew_reg w))(lk_SystemID k := rg_links (ew_reg w) (lk_SystemID k) @ [l])"
    using loop by (simp add: registry_Add_def Let_def)
  show ?thesis
  proof (cases "ends inputs")
    case True
    have "rg_links (ew_reg (session_leave l (snd (session_loop l acc inputs ?w)))) = rg_links (ew_reg w)"
      using assms(2) [of "lk_SystemID k"]
      by (simp add: session_leave_def registry_Remove_def ew_heap_on_link sid rg Let_def remove1_append fun_eq_iff)
    then show ?thesis using True
      by (simp add: r_def session_run_accepted [OF assms(1)] Let_def) (simp add: session_leave_def ew_heap_on_link Let_def)
  next
    case False
    have "lk_state (ew_heap (snd (session_loop l acc inputs ?w)) l) = StateBound" using loop st by simp
    then show ?thesis using False by (simp add: r_def session_run_accepted [OF assms(1)] Let_def rg)
  qed
qed

theorem server_link_registered_witness:
  "fst (session_run (=) (auth_cache [sample_account] Map.empty) ''10.0.0.1:4000'' 0 (Ok sample_bind, True) [Input (Err ''EOF'') True sample_time]
     sample_world) = Closed"
  using server_link_registered [where first = "(Ok sample_bind, True)" and inputs = "[Input (Err ''EOF'') True sample_time]"
      and w = sample_world and l = 0, unfolded fst_conv snd_conv, OF sample_bound]
  by (simp add: sample_world_def NewRegistry_def)

text \<open>
  The listener never runs more sessions than its limit, when it has one, and its counter is the number
  of sessions that run.
\<close>

theorem listener_limit:
  fixes events :: "listener_event list"
  assumes "limit > 0"
  defines "s \<equiv> fold (listener_step limit) events \<lparr>ls_active = 0, ls_running = []\<rparr>"
  shows "ls_active s = int (length (ls_running s)) \<and> int (length (ls_running s)) \<le> limit"
proof -
  have step: "ls_active (listener_step limit e t) = int (length (ls_running (listener_step limit e t))) \<and>
      ls_active (listener_step limit e t) \<le> limit"
    if "ls_active t = int (length (ls_running t))" "ls_active t \<le> limit" for e t
  proof (cases e)
    case (SessionEnded c)
    then show ?thesis using that length_pos_if_in_set [of c "ls_running t"]
      by (simp add: length_remove1 of_nat_diff Suc_le_eq del: length_greater_0_conv)
  qed (use that assms(1) in simp)
  have "ls_active t = int (length (ls_running t)) \<and> ls_active t \<le> limit \<Longrightarrow>
      (let u = fold (listener_step limit) es t in ls_active u = int (length (ls_running u)) \<and> ls_active u \<le> limit)" for es t
  proof (induction es arbitrary: t)
    case (Cons e es)
    show ?case using Cons.IH [of "listener_step limit e t"] step [of t e] Cons.prems by (simp add: Let_def)
  qed simp
  from this [of "\<lparr>ls_active = 0, ls_running = []\<rparr>" events] show ?thesis using assms by (simp add: Let_def)
qed

theorem listener_limit_witness:
  "length (ls_running (fold (listener_step 1) [Connected 1, Connected 2] \<lparr>ls_active = 0, ls_running = []\<rparr>)) \<le> 1"
  using listener_limit [of 1 "[Connected 1, Connected 2]"] by simp

end
