(* ===== verification/SmppClient.thy ===== *)
theory SmppClient
  imports SmppServer
begin

text \<open>
  The SMPP clients (\<open>internal/smpp/client\<close>): the outbound session with its bind, its read loop, its
  enquire_link timers and its unbind (\<open>session.go\<close>), and the manager that keeps one session for each enabled
  client of the store and sends through the bound links (\<open>manager.go\<close>).
\<close>

section \<open>A client session\<close>

record smpp_client =
  cl_ID :: string
  cl_Name :: string
  cl_Host :: string
  cl_Port :: int
  cl_Transport :: string
  cl_VerifyServerCert :: bool
  cl_SystemID :: string
  cl_Password :: string
  cl_BindType :: string
  cl_ReconnectInterval :: duration
  cl_ThroughputLimit :: int
  cl_SourceAddrTON :: "int option"
  cl_SourceAddrNPI :: "int option"
  cl_DestAddrTON :: "int option"
  cl_DestAddrNPI :: "int option"
  cl_Enabled :: bool
  cl_CreatedAt :: gotime
  cl_UpdatedAt :: gotime

type_synonym carrier_world = "string smpp_world"

definition bindCmds :: "string \<Rightarrow> 32 word \<times> 32 word" where
  "bindCmds bindType =
     (if bindType = ''transmitter'' then (CmdBindTransmitter, CmdBindTransmitterResp)
      else if bindType = ''receiver'' then (CmdBindReceiver, CmdBindReceiverResp)
      else (CmdBindTransceiver, CmdBindTransceiverResp))"

text \<open>The message goes to the callback, which runs before anything more is read; the result says whether it was reached
  without a panic.\<close>

definition dispatchIncoming :: "smpp_client \<Rightarrow> gotime \<Rightarrow> pdu \<Rightarrow> string \<Rightarrow> carrier_world \<Rightarrow> bool \<times> carrier_world" where
  "dispatchIncoming cfg now p smppMsgID w =
     (case (if pdu_ESMClass p AND ESMClassDeliverReceipt \<noteq> 0 then DecodeDeliveryReceipt now p else DecodeSM now p) of
        Ok msg \<Rightarrow> (True, w\<lparr>ew_handed := ew_handed w @ [(msg\<lparr>msg_IngressInterface := InterfaceSMPP,
          msg_IngressPeer := cl_Name cfg, msg_SMPPMsgID := smppMsgID\<rparr>, cl_Name cfg)]\<rparr>)
      | Err e \<Rightarrow> (True, w)
      | Panic \<Rightarrow> (False, w))"

definition handleIncomingDeliver :: "smpp_client \<Rightarrow> nat \<Rightarrow> bool \<Rightarrow> gotime \<Rightarrow> pdu \<Rightarrow> carrier_world \<Rightarrow> bool \<times> carrier_world" where
  "handleIncomingDeliver cfg l ok now p w =
     (let (sent, w) = on_link l (WritePDU ok (response_to p CmdDeliverSMResp ESME_ROK)) w in
      if sent then dispatchIncoming cfg now p [] w else (True, w))"

definition handleIncomingSubmit :: "smpp_client \<Rightarrow> nat \<Rightarrow> bool \<Rightarrow> gotime \<Rightarrow> pdu \<Rightarrow> carrier_world \<Rightarrow> bool \<times> carrier_world" where
  "handleIncomingSubmit cfg l ok now p w =
     (let (mid, w) = generateMsgID w;
          (sent, w) = on_link l (WritePDU ok ((response_to p CmdSubmitSMResp ESME_ROK)\<lparr>pdu_MessageID := mid\<rparr>)) w in
      if sent then dispatchIncoming cfg now p mid w else (True, w))"

text \<open>
  What the loops select from: the context is cancelled, \<open>stop\<close> was called, reading failed (with whether the
  context is cancelled by then), a PDU came (with whether the connection takes what is written), the ticker and the
  timers fire.
\<close>

datatype client_event = Cancelled | StopAsked | ReadFailed bool string | Got pdu bool gotime | EnquireTick bool
  | EnquireExpired | UnbindExpired

datatype loop_end = Running | Returned "string option" | Panicked

text \<open>The timer of an enquire_link is armed while its response is pending; \<open>pending\<close> is the variable \<open>pendingEnquire\<close>.\<close>

definition client_own_request :: "32 word \<Rightarrow> smpp_link \<Rightarrow> pdu \<times> smpp_link" where
  "client_own_request cmd k = (let (seq, k) = NextSeq k in
     (empty_pdu\<lparr>pdu_CommandID := cmd, pdu_SequenceNumber := seq\<rparr>, k))"

definition send_own :: "nat \<Rightarrow> 32 word \<Rightarrow> bool \<Rightarrow> carrier_world \<Rightarrow> bool \<times> carrier_world" where
  "send_own l cmd ok w = on_link l (\<lambda>k. let (p, k) = client_own_request cmd k in WritePDU ok p k) w"

definition loop_of :: "bool \<times> carrier_world \<Rightarrow> loop_end \<times> carrier_world" where
  "loop_of r = (if fst r then Running else Panicked, snd r)"

definition client_pdu :: "smpp_client \<Rightarrow> nat \<Rightarrow> bool \<Rightarrow> gotime \<Rightarrow> pdu \<Rightarrow> bool \<times> carrier_world \<Rightarrow> loop_end \<times> bool \<times> carrier_world" where
  "client_pdu cfg l ok now p s =
     (let (pending, w) = s in
      if pdu_CommandID p = CmdEnquireLinkResp then (Running, False, w)
      else if pdu_CommandID p = CmdEnquireLink then
        (Running, pending, snd (on_link l (WritePDU ok (response_to p CmdEnquireLinkResp ESME_ROK)) w))
      else if pdu_CommandID p = CmdUnbind then
        (Returned (Some ''remote requested unbind''), pending, snd (on_link l (WritePDU ok (response_to p CmdUnbindResp ESME_ROK)) w))
      else if pdu_CommandID p = CmdSubmitSM then
        (let (r, w) = loop_of (handleIncomingSubmit cfg l ok now p w) in (r, pending, w))
      else if pdu_CommandID p = CmdDeliverSM then
        (let (r, w) = loop_of (handleIncomingDeliver cfg l ok now p w) in (r, pending, w))
      else (Running, pending, snd (on_link l (DispatchPending p) w)))"

definition unbind_pdu :: "smpp_client \<Rightarrow> nat \<Rightarrow> bool \<Rightarrow> gotime \<Rightarrow> pdu \<Rightarrow> carrier_world \<Rightarrow> loop_end \<times> carrier_world" where
  "unbind_pdu cfg l ok now p w =
     (if pdu_CommandID p = CmdUnbindResp then (Returned None, w)
      else if pdu_CommandID p = CmdEnquireLink then
        (Running, snd (on_link l (WritePDU ok (response_to p CmdEnquireLinkResp ESME_ROK)) w))
      else if pdu_CommandID p = CmdDeliverSM then loop_of (handleIncomingDeliver cfg l ok now p w)
      else if pdu_CommandID p = CmdSubmitSM then loop_of (handleIncomingSubmit cfg l ok now p w)
      else (Running, snd (on_link l (DispatchPending p) w)))"

fun unbind_loop :: "smpp_client \<Rightarrow> nat \<Rightarrow> client_event list \<Rightarrow> carrier_world \<Rightarrow> loop_end \<times> carrier_world" where
  "unbind_loop cfg l [] w = (Running, w)"
| "unbind_loop cfg l (e # events) w =
     (case e of
        UnbindExpired \<Rightarrow> (Returned (Some ''unbind timeout''), w)
      | ReadFailed cancelled err \<Rightarrow> (Returned (Some err), w)
      | Got p ok now \<Rightarrow> (case unbind_pdu cfg l ok now p w of
          (Running, w) \<Rightarrow> unbind_loop cfg l events w
        | stopped \<Rightarrow> stopped)
      | _ \<Rightarrow> unbind_loop cfg l events w)"

definition gracefulUnbind :: "smpp_client \<Rightarrow> nat \<Rightarrow> bool \<Rightarrow> client_event list \<Rightarrow> carrier_world \<Rightarrow> loop_end \<times> carrier_world" where
  "gracefulUnbind cfg l ok events w =
     (let (sent, w) = send_own l CmdUnbind ok w in
      if sent then unbind_loop cfg l events w else (Returned (Some ''write''), w))"

text \<open>\<open>unbind_ok\<close> is whether the connection takes the unbind when the session is stopped.\<close>

fun client_loop :: "smpp_client \<Rightarrow> nat \<Rightarrow> bool \<Rightarrow> client_event list \<Rightarrow> bool \<times> carrier_world \<Rightarrow> loop_end \<times> carrier_world" where
  "client_loop cfg l unbind_ok [] s = (Running, snd s)"
| "client_loop cfg l unbind_ok (e # events) s =
     (let (pending, w) = s in
      case e of
        Cancelled \<Rightarrow> (Returned None, w)
      | StopAsked \<Rightarrow> gracefulUnbind cfg l unbind_ok events w
      | ReadFailed cancelled err \<Rightarrow> (Returned (if cancelled then None else Some err), w)
      | Got p ok now \<Rightarrow> (case client_pdu cfg l ok now p s of
          (Running, s) \<Rightarrow> client_loop cfg l unbind_ok events s
        | (stopped, s) \<Rightarrow> (stopped, snd s))
      | EnquireTick ok \<Rightarrow>
          if pending then (Returned (Some ''enquire_link timeout (no response)''), w)
          else (let (sent, w) = send_own l CmdEnquireLink ok w in
                if sent then client_loop cfg l unbind_ok events (True, w) else (Returned (Some ''write''), w))
      | EnquireExpired \<Rightarrow>
          if pending then (Returned (Some ''enquire_link timeout''), w)
          else client_loop cfg l unbind_ok events s
      | UnbindExpired \<Rightarrow> client_loop cfg l unbind_ok events s)"

text \<open>The outcome of the bind on a fresh connection: an error, or the link of the bound session.\<close>

definition client_bind :: "smpp_client \<Rightarrow> bool \<Rightarrow> bool \<Rightarrow> pdu outcome \<Rightarrow> smpp_link outcome" where
  "client_bind cfg dialled ok resp =
     (let (reqCmd, respCmd) = bindCmds (cl_BindType cfg);
          bind = empty_pdu\<lparr>pdu_CommandID := reqCmd, pdu_CommandStatus := ESME_ROK, pdu_SequenceNumber := 1,
            pdu_SystemID := cl_SystemID cfg, pdu_Password := cl_Password cfg, pdu_InterfaceVersion := 0x34\<rparr> in
      if \<not> dialled then Err ''dial''
      else if written ok bind = [] then Err ''write bind''
      else (case resp of
          Ok p \<Rightarrow>
            if pdu_CommandID p \<noteq> respCmd then Err ''expected bind resp''
            else if pdu_CommandStatus p \<noteq> ESME_ROK then Err ''bind rejected''
            else Ok (NewLink (cl_Name cfg) (cl_SystemID cfg) (if cl_BindType cfg = [] then ''transceiver'' else cl_BindType cfg)
              ''client'' 1 [bind] StateBound)
        | _ \<Rightarrow> Err ''read bind resp''))"

definition client_connect :: "smpp_client \<Rightarrow> nat \<Rightarrow> bool \<Rightarrow> bool \<Rightarrow> pdu outcome \<Rightarrow> bool \<Rightarrow> client_event list \<Rightarrow> carrier_world \<Rightarrow>
    loop_end \<times> carrier_world" where
  "client_connect cfg l dialled ok resp unbind_ok events w =
     (case client_bind cfg dialled ok resp of
        Ok k \<Rightarrow>
          (let w = w\<lparr>ew_heap := (ew_heap w)(l := k)\<rparr>;
               w = w\<lparr>ew_reg := registry_Add (ew_heap w) l (ew_reg w)\<rparr>;
               (r, w) = client_loop cfg l unbind_ok events (False, w) in
           if r = Running then (Running, w) else (r, session_leave l w))
      | Err e \<Rightarrow> (Returned (Some e), w)
      | Panic \<Rightarrow> (Panicked, w))"

text \<open>
  \<open>run\<close>: the waits before the next attempts, given how the attempts so far ended and that nothing stops them.
\<close>

fun client_waits :: "duration \<Rightarrow> duration \<Rightarrow> string option list \<Rightarrow> duration list" where
  "client_waits maxDelay delay [] = []"
| "client_waits maxDelay delay (r # results) =
     (case r of
        None \<Rightarrow> []
      | Some err \<Rightarrow> delay # client_waits maxDelay (if delay * 2 > maxDelay then maxDelay else delay * 2) results)"

definition client_run :: "smpp_client \<Rightarrow> string option list \<Rightarrow> duration list" where
  "client_run cfg results =
     client_waits (if cl_ReconnectInterval cfg \<le> 0 then 60 * Second else cl_ReconnectInterval cfg) Second results"

section \<open>The manager\<close>

text \<open>Each session is the configuration it was started with; what is started and stopped is logged.\<close>

datatype manager_action = Started smpp_client | Stopped string

record client_manager =
  mg_sessions :: "string \<rightharpoonup> smpp_client"
  mg_log :: "manager_action list"

definition stop_session :: "string \<Rightarrow> client_manager \<Rightarrow> client_manager" where
  "stop_session i m = m\<lparr>mg_sessions := (mg_sessions m)(i := None), mg_log := mg_log m @ [Stopped i]\<rparr>"

definition startSessionLocked :: "smpp_client \<Rightarrow> client_manager \<Rightarrow> client_manager" where
  "startSessionLocked c m = m\<lparr>mg_sessions := (mg_sessions m)(cl_ID c \<mapsto> c), mg_log := mg_log m @ [Started c]\<rparr>"

definition manager_Start :: "smpp_client list \<Rightarrow> client_manager \<Rightarrow> client_manager" where
  "manager_Start clients m = fold (\<lambda>c m. if cl_Enabled c then startSessionLocked c m else m) clients m"

definition intPtrEqual :: "int option \<Rightarrow> int option \<Rightarrow> bool" where
  "intPtrEqual a b = (case (a, b) of (Some x, Some y) \<Rightarrow> x = y | _ \<Rightarrow> a = None \<and> b = None)"

definition smppClientRuntimeEqual :: "smpp_client \<Rightarrow> smpp_client \<Rightarrow> bool" where
  "smppClientRuntimeEqual a b \<longleftrightarrow>
     cl_ID a = cl_ID b \<and> cl_Name a = cl_Name b \<and> cl_Host a = cl_Host b \<and> cl_Port a = cl_Port b \<and>
     cl_Transport a = cl_Transport b \<and> cl_VerifyServerCert a = cl_VerifyServerCert b \<and> cl_SystemID a = cl_SystemID b \<and>
     cl_Password a = cl_Password b \<and> cl_BindType a = cl_BindType b \<and> cl_ReconnectInterval a = cl_ReconnectInterval b \<and>
     cl_ThroughputLimit a = cl_ThroughputLimit b \<and> intPtrEqual (cl_SourceAddrTON a) (cl_SourceAddrTON b) \<and>
     intPtrEqual (cl_SourceAddrNPI a) (cl_SourceAddrNPI b) \<and> intPtrEqual (cl_DestAddrTON a) (cl_DestAddrTON b) \<and>
     intPtrEqual (cl_DestAddrNPI a) (cl_DestAddrNPI b) \<and> cl_Enabled a = cl_Enabled b"

fun desired_clients :: "smpp_client list \<Rightarrow> (string \<rightharpoonup> smpp_client) \<Rightarrow> string \<rightharpoonup> smpp_client" where
  "desired_clients [] d = d"
| "desired_clients (c # cs) d = desired_clients cs (if cl_Enabled c then d(cl_ID c \<mapsto> c) else d)"

text \<open>
  The three passes of \<open>reload\<close>, over the keys of the map of sessions and twice over those of the desired ones, in the
  order the run time happens to take.
\<close>

definition stop_removed :: "(string \<rightharpoonup> smpp_client) \<Rightarrow> string \<Rightarrow> client_manager \<Rightarrow> client_manager" where
  "stop_removed desired i m = (if mg_sessions m i \<noteq> None \<and> desired i = None then stop_session i m else m)"

definition stop_changed :: "(string \<rightharpoonup> smpp_client) \<Rightarrow> string \<Rightarrow> client_manager \<Rightarrow> client_manager" where
  "stop_changed desired i m =
     (case (desired i, mg_sessions m i) of
        (Some c, Some cfg) \<Rightarrow> if smppClientRuntimeEqual cfg c then m else stop_session i m
      | _ \<Rightarrow> m)"

definition start_missing :: "(string \<rightharpoonup> smpp_client) \<Rightarrow> string \<Rightarrow> client_manager \<Rightarrow> client_manager" where
  "start_missing desired i m =
     (case (desired i, mg_sessions m i) of (Some c, None) \<Rightarrow> startSessionLocked c m | _ \<Rightarrow> m)"

definition manager_reload :: "smpp_client list option \<Rightarrow> string list \<Rightarrow> string list \<Rightarrow> string list \<Rightarrow> client_manager \<Rightarrow> client_manager" where
  "manager_reload rows order1 order2 order3 m =
     (case rows of
        None \<Rightarrow> m
      | Some clients \<Rightarrow>
          (let desired = desired_clients clients Map.empty in
           fold (start_missing desired) order3 (fold (stop_changed desired) order2 (fold (stop_removed desired) order1 m))))"

definition override :: "int option \<Rightarrow> byte \<Rightarrow> byte" where
  "override v b = (case v of None \<Rightarrow> b | Some x \<Rightarrow> word_of_int x)"

definition applyAddressOverrides :: "string list \<Rightarrow> (string \<rightharpoonup> smpp_client) \<Rightarrow> string \<Rightarrow> pdu \<Rightarrow> pdu" where
  "applyAddressOverrides order sessions name p =
     (if pdu_CommandID p \<noteq> CmdSubmitSM \<and> pdu_CommandID p \<noteq> CmdDeliverSM then p
      else (case find (\<lambda>cfg. cl_Name cfg = name \<or> cl_SystemID cfg = name) (List.map_filter sessions order) of
          None \<Rightarrow> p
        | Some cfg \<Rightarrow> p\<lparr>pdu_SourceAddrTON := override (cl_SourceAddrTON cfg) (pdu_SourceAddrTON p),
            pdu_SourceAddrNPI := override (cl_SourceAddrNPI cfg) (pdu_SourceAddrNPI p),
            pdu_DestAddrTON := override (cl_DestAddrTON cfg) (pdu_DestAddrTON p),
            pdu_DestAddrNPI := override (cl_DestAddrNPI cfg) (pdu_DestAddrNPI p)\<rparr>))"

definition HasPeer :: "link_heap \<Rightarrow> smpp_registry \<Rightarrow> string \<Rightarrow> bool" where
  "HasPeer h r name \<longleftrightarrow> GetByName h r name \<noteq> None"

definition SendViaPeer :: "string list \<Rightarrow> (string \<rightharpoonup> smpp_client) \<Rightarrow> smpp_registry \<Rightarrow> string \<Rightarrow> bool \<Rightarrow> pdu \<Rightarrow> link_event list \<Rightarrow>
    link_heap \<Rightarrow> pdu outcome \<times> link_heap" where
  "SendViaPeer order sessions r name ok p events h =
     (case GetByName h r name of
        None \<Rightarrow> (Err (''smpp: no bound peer '' @ name), h)
      | Some l \<Rightarrow>
          (let (reply, k) = SendAndWait ok (applyAddressOverrides order sessions name p) events (h l) in
           (reply, h(l := k))))"


section \<open>Lemmas on sessions\<close>

definition client_response :: "pdu \<Rightarrow> 32 word option" where
  "client_response p =
     (if pdu_CommandID p = CmdEnquireLink then Some CmdEnquireLinkResp
      else if pdu_CommandID p = CmdUnbind then Some CmdUnbindResp
      else if pdu_CommandID p = CmdSubmitSM then Some CmdSubmitSMResp
      else if pdu_CommandID p = CmdDeliverSM then Some CmdDeliverSMResp
      else None)"

lemma deliver_response_encodes: "fst (WritePDU ok (response_to p CmdDeliverSMResp st) k) = ok"
proof -
  have c: "\<not> bind_cmd CmdDeliverSMResp" "\<not> sm_cmd CmdDeliverSMResp" by (simp_all add: bind_cmd_def sm_cmd_def)
  have "\<exists>e. Encode_pdu (response_to p CmdDeliverSMResp st) = Ok e"
    using encodes_response [OF c, of "[]" "[]" "pdu_SequenceNumber p" st] by (simp add: response_to_def empty_pdu_def)
  then show ?thesis by (auto simp: WritePDU_def)
qed

lemma decode_incoming: "(if dr then DecodeDeliveryReceipt now p else DecodeSM now p) \<noteq> Panic"
  using no_panic_DecodeSM [of now p] by (auto simp: DecodeDeliveryReceipt_def Let_def)

definition incoming :: "smpp_client \<Rightarrow> gotime \<Rightarrow> pdu \<Rightarrow> string \<Rightarrow> (message \<times> string) list" where
  "incoming cfg now p mid =
     (case (if pdu_ESMClass p AND ESMClassDeliverReceipt \<noteq> 0 then DecodeDeliveryReceipt now p else DecodeSM now p) of
        Ok msg \<Rightarrow> [(msg\<lparr>msg_IngressInterface := InterfaceSMPP, msg_IngressPeer := cl_Name cfg, msg_SMPPMsgID := mid\<rparr>, cl_Name cfg)]
      | _ \<Rightarrow> [])"

lemma dispatchIncoming_eq:
  "dispatchIncoming cfg now p mid w = (True, w\<lparr>ew_handed := ew_handed w @ incoming cfg now p mid\<rparr>)"
  using decode_incoming [of "pdu_ESMClass p AND ESMClassDeliverReceipt \<noteq> 0" now p]
  unfolding dispatchIncoming_def incoming_def
  by (cases "if pdu_ESMClass p AND ESMClassDeliverReceipt \<noteq> 0 then DecodeDeliveryReceipt now p else DecodeSM now p") simp_all

text \<open>What one PDU adds to what is written and to what is handed over.\<close>

definition pdu_written :: "64 word \<Rightarrow> pdu \<Rightarrow> pdu list" where
  "pdu_written n p =
     (case client_response p of
        None \<Rightarrow> []
      | Some c \<Rightarrow> [(response_to p c ESME_ROK)
          \<lparr>pdu_MessageID := (if pdu_CommandID p = CmdSubmitSM then msgIDHex (n + 1) else [])\<rparr>])"

definition pdu_handed :: "64 word \<Rightarrow> smpp_client \<Rightarrow> gotime \<Rightarrow> pdu \<Rightarrow> (message \<times> string) list" where
  "pdu_handed n cfg now p =
     (if pdu_CommandID p = CmdSubmitSM then incoming cfg now p (msgIDHex (n + 1))
      else if pdu_CommandID p = CmdDeliverSM then incoming cfg now p [] else [])"

definition extends :: "nat \<Rightarrow> carrier_world \<Rightarrow> pdu list \<Rightarrow> (message \<times> string) list \<Rightarrow> carrier_world \<Rightarrow> bool" where
  "extends l w os hs w' \<longleftrightarrow>
     lk_out (ew_heap w' l) = lk_out (ew_heap w l) @ os \<and> ew_handed w' = ew_handed w @ hs \<and> ew_reg w' = ew_reg w \<and>
     lk_state (ew_heap w' l) = lk_state (ew_heap w l) \<and> lk_SystemID (ew_heap w' l) = lk_SystemID (ew_heap w l) \<and>
     lk_Name (ew_heap w' l) = lk_Name (ew_heap w l)"

lemma extends_refl: "extends l w [] [] w"
  by (simp add: extends_def)

lemma extends_trans: "extends l w os hs w' \<Longrightarrow> extends l w' os' hs' w'' \<Longrightarrow> extends l w (os @ os') (hs @ hs') w''"
  by (simp add: extends_def)

lemma handleIncomingSubmit_effect:
  fixes w cfg l ok now p defines "r \<equiv> handleIncomingSubmit cfg l ok now p w"
  assumes "pdu_CommandID p = CmdSubmitSM"
  shows "fst r" "extends l w (if ok then pdu_written (ew_ids w) p else []) (if ok then pdu_handed (ew_ids w) cfg now p else []) (snd r)"
  using assms(2)
  by (simp_all add: r_def handleIncomingSubmit_def generateMsgID_def on_link_def split_beta Let_def dispatchIncoming_eq extends_def
      pdu_written_def pdu_handed_def client_response_def write_out write_response length_msgIDHex)

lemma handleIncomingDeliver_effect:
  fixes w cfg l ok now p defines "r \<equiv> handleIncomingDeliver cfg l ok now p w"
  assumes "pdu_CommandID p = CmdDeliverSM"
  shows "fst r" "extends l w (if ok then pdu_written (ew_ids w) p else []) (if ok then pdu_handed (ew_ids w) cfg now p else []) (snd r)"
  using assms(2)
  by (simp_all add: r_def handleIncomingDeliver_def on_link_def split_beta Let_def dispatchIncoming_eq extends_def
      pdu_written_def pdu_handed_def client_response_def write_out deliver_response_encodes empty_message_id)

lemma write_extends:
  "c = CmdEnquireLinkResp \<or> c = CmdUnbindResp \<Longrightarrow>
     extends l w (if ok then [response_to p c ESME_ROK] else []) [] (snd (on_link l (WritePDU ok (response_to p c ESME_ROK)) w))"
  by (auto simp: extends_def ew_heap_on_link write_out write_response(2) [where mid = "[]"])

lemma dispatch_extends: "extends l w [] [] (snd (on_link l (DispatchPending p) w))"
  by (simp add: extends_def ew_heap_on_link)

lemma client_pdu_effect:
  "\<exists>w'. client_pdu cfg l ok now p (pending, w) =
     (if pdu_CommandID p = CmdUnbind then Returned (Some ''remote requested unbind'') else Running,
      pending \<and> pdu_CommandID p \<noteq> CmdEnquireLinkResp, w') \<and>
     extends l w (if ok then pdu_written (ew_ids w) p else []) (if ok then pdu_handed (ew_ids w) cfg now p else []) w'"
proof -
  consider "pdu_CommandID p = CmdSubmitSM" | "pdu_CommandID p = CmdDeliverSM" | "pdu_CommandID p = CmdEnquireLink"
    | "pdu_CommandID p = CmdUnbind" | "client_response p = None"
    by (cases "client_response p") (auto simp: client_response_def split: if_splits)
  then show ?thesis
  proof cases
    case 1
    with handleIncomingSubmit_effect [OF 1, where cfg = cfg and l = l and ok = ok and now = now and w = w] show ?thesis
      by (simp add: client_pdu_def loop_of_def split_beta)
  next
    case 2
    with handleIncomingDeliver_effect [OF 2, where cfg = cfg and l = l and ok = ok and now = now and w = w] show ?thesis
      by (simp add: client_pdu_def loop_of_def split_beta)
  next
    case 3
    with write_extends [of CmdEnquireLinkResp l w ok p] show ?thesis
      by (cases ok) (simp_all add: client_pdu_def pdu_written_def pdu_handed_def client_response_def empty_message_id)
  next
    case 4
    with write_extends [of CmdUnbindResp l w ok p] show ?thesis
      by (cases ok) (simp_all add: client_pdu_def pdu_written_def pdu_handed_def client_response_def empty_message_id)
  next
    case 5
    then show ?thesis using dispatch_extends [of l w p] extends_refl [of l w]
      by (auto simp: client_pdu_def pdu_written_def pdu_handed_def client_response_def split: if_splits)
  qed
qed

lemma unbind_pdu_effect:
  "\<exists>w'. unbind_pdu cfg l ok now p w = (if pdu_CommandID p = CmdUnbindResp then Returned None else Running, w') \<and>
     extends l w (if ok \<and> pdu_CommandID p \<noteq> CmdUnbind then pdu_written (ew_ids w) p else [])
       (if ok then pdu_handed (ew_ids w) cfg now p else []) w'"
proof -
  consider "pdu_CommandID p = CmdSubmitSM" | "pdu_CommandID p = CmdDeliverSM" | "pdu_CommandID p = CmdEnquireLink"
    | "client_response p = None \<or> pdu_CommandID p = CmdUnbind"
    by (cases "client_response p") (auto simp: client_response_def split: if_splits)
  then show ?thesis
  proof cases
    case 1
    with handleIncomingSubmit_effect [OF 1, where cfg = cfg and l = l and ok = ok and now = now and w = w] show ?thesis
      by (simp add: unbind_pdu_def loop_of_def split_beta)
  next
    case 2
    with handleIncomingDeliver_effect [OF 2, where cfg = cfg and l = l and ok = ok and now = now and w = w] show ?thesis
      by (simp add: unbind_pdu_def loop_of_def split_beta)
  next
    case 3
    with write_extends [of CmdEnquireLinkResp l w ok p] show ?thesis
      by (cases ok) (simp_all add: unbind_pdu_def pdu_written_def pdu_handed_def client_response_def empty_message_id)
  next
    case 4
    then show ?thesis using dispatch_extends [of l w p] extends_refl [of l w]
      by (auto simp: unbind_pdu_def pdu_written_def pdu_handed_def client_response_def split: if_splits)
  qed
qed


lemma send_own_extends: "\<exists>os. extends l w os [] (snd (send_own l cmd ok w)) \<and>
    (\<forall>q \<in> set os. pdu_CommandID q = cmd) \<and> ew_ids (snd (send_own l cmd ok w)) = ew_ids w"
  by (auto simp: send_own_def client_own_request_def NextSeq_def extends_def ew_heap_on_link write_out split_beta Let_def)

text \<open>
  A message is acknowledged when a response with status ok and its message id is among those written.
\<close>

definition acked :: "smpp_client \<Rightarrow> pdu list \<Rightarrow> (message \<times> string) list \<Rightarrow> bool" where
  "acked cfg os hs \<longleftrightarrow> (\<forall>(m, name) \<in> set hs. name = cl_Name cfg \<and> msg_IngressInterface m = InterfaceSMPP \<and>
     msg_IngressPeer m = cl_Name cfg \<and>
     (\<exists>q \<in> set os. (pdu_CommandID q = CmdSubmitSMResp \<or> pdu_CommandID q = CmdDeliverSMResp) \<and>
        pdu_CommandStatus q = ESME_ROK \<and> pdu_MessageID q = msg_SMPPMsgID m))"

lemma acked_append: "acked cfg os hs \<Longrightarrow> acked cfg os' hs' \<Longrightarrow> acked cfg (os @ os') (hs @ hs')"
  by (fastforce simp: acked_def)

lemma acked_pdu: "acked cfg (pdu_written n p) (pdu_handed n cfg now p)"
  by (auto simp: acked_def pdu_written_def pdu_handed_def client_response_def incoming_def response_to_def
      split: if_splits outcome.splits)

lemma acked_nothing: "acked cfg os []"
  by (simp add: acked_def)

lemma unbind_loop_acked:
  "\<exists>os hs. extends l w os hs (snd (unbind_loop cfg l events w)) \<and> acked cfg os hs"
proof (induction events arbitrary: w)
  case Nil
  show ?case using extends_refl [of l w] acked_nothing by fastforce
next
  case (Cons e events)
  have same: "\<exists>os hs. extends l w os hs w \<and> acked cfg os hs" using extends_refl [of l w] acked_nothing by fastforce
  show ?case
  proof (cases e)
    case (Got p ok now)
    obtain w' where u: "unbind_pdu cfg l ok now p w = (if pdu_CommandID p = CmdUnbindResp then Returned None else Running, w')"
      "extends l w (if ok \<and> pdu_CommandID p \<noteq> CmdUnbind then pdu_written (ew_ids w) p else [])
         (if ok then pdu_handed (ew_ids w) cfg now p else []) w'" using unbind_pdu_effect by blast
    have a: "acked cfg (if ok \<and> pdu_CommandID p \<noteq> CmdUnbind then pdu_written (ew_ids w) p else [])
         (if ok then pdu_handed (ew_ids w) cfg now p else [])"
      using acked_pdu [of cfg "ew_ids w" p now] by (auto simp: acked_nothing pdu_handed_def)
    obtain os hs where r: "extends l w' os hs (snd (unbind_loop cfg l events w'))" "acked cfg os hs" using Cons.IH by blast
    show ?thesis
    proof (cases "pdu_CommandID p = CmdUnbindResp")
      case True
      then show ?thesis using u a by (auto simp: Got)
    next
      case False
      then show ?thesis using extends_trans [OF u(2) r(1)] acked_append [OF a r(2)] by (auto simp: Got u(1))
    qed
  qed (use same Cons.IH in simp_all)
qed

lemma client_loop_acked:
  "\<exists>os hs. extends l w os hs (snd (client_loop cfg l unbind_ok events (pending, w))) \<and> acked cfg os hs"
proof (induction events arbitrary: w pending)
  case Nil
  show ?case using extends_refl [of l w] acked_nothing by fastforce
next
  case (Cons e events)
  have same: "\<exists>os hs. extends l w os hs w \<and> acked cfg os hs" using extends_refl [of l w] acked_nothing by fastforce
  have own: "\<exists>os hs. extends l w os hs w' \<and> acked cfg os hs"
    if "\<exists>os hs. extends l (snd (send_own l cmd ok w)) os hs w' \<and> acked cfg os hs" for cmd ok w'
  proof -
    obtain o1 where "extends l w o1 [] (snd (send_own l cmd ok w))" using send_own_extends by blast
    then show ?thesis using that extends_trans acked_append acked_nothing by blast
  qed
  show ?case
  proof (cases e)
    case (Got p ok now)
    obtain w' where u: "client_pdu cfg l ok now p (pending, w) =
        (if pdu_CommandID p = CmdUnbind then Returned (Some ''remote requested unbind'') else Running,
         pending \<and> pdu_CommandID p \<noteq> CmdEnquireLinkResp, w')"
      "extends l w (if ok then pdu_written (ew_ids w) p else []) (if ok then pdu_handed (ew_ids w) cfg now p else []) w'"
      using client_pdu_effect by blast
    have a: "acked cfg (if ok then pdu_written (ew_ids w) p else []) (if ok then pdu_handed (ew_ids w) cfg now p else [])"
      using acked_pdu acked_nothing by simp
    let ?pending = "pending \<and> pdu_CommandID p \<noteq> CmdEnquireLinkResp"
    obtain os hs where r: "extends l w' os hs (snd (client_loop cfg l unbind_ok events (?pending, w')))" "acked cfg os hs"
      using Cons.IH by blast
    show ?thesis
    proof (cases "pdu_CommandID p = CmdUnbind")
      case True
      then show ?thesis using u a by (auto simp: Got)
    next
      case False
      then show ?thesis using extends_trans [OF u(2) r(1)] acked_append [OF a r(2)] by (auto simp: Got u(1))
    qed
  next
    case StopAsked
    show ?thesis
    proof (cases "fst (send_own l CmdUnbind unbind_ok w)")
      case True
      then show ?thesis using own [OF unbind_loop_acked] by (simp add: StopAsked gracefulUnbind_def split_beta Let_def)
    next
      case False
      then show ?thesis using own [where cmd = CmdUnbind and ok = unbind_ok] extends_refl acked_nothing
        by (simp add: StopAsked gracefulUnbind_def split_beta Let_def) blast
    qed
  next
    case (EnquireTick ok)
    show ?thesis
    proof (cases "pending")
      case True
      then show ?thesis using same by (simp add: EnquireTick)
    next
      case False
      show ?thesis
      proof (cases "fst (send_own l CmdEnquireLink ok w)")
        case True
        then show ?thesis using own [OF Cons.IH] False by (simp add: EnquireTick split_beta Let_def)
      next
        case no: False
        then show ?thesis using own [where cmd = CmdEnquireLink and ok = ok] extends_refl acked_nothing False
          by (simp add: EnquireTick split_beta Let_def) blast
      qed
    qed
  qed (use same Cons.IH in simp_all)
qed


text \<open>The responses among what is written.\<close>

definition is_response :: "pdu \<Rightarrow> bool" where
  "is_response q \<longleftrightarrow> 0x80000000 \<le> pdu_CommandID q"

definition pdu_of :: "client_event \<Rightarrow> pdu list" where
  "pdu_of e = (case e of Got p ok now \<Rightarrow> [p] | _ \<Rightarrow> [])"

definition due_responses :: "client_event list \<Rightarrow> (32 word \<times> 32 word \<times> 32 word) list" where
  "due_responses es = List.map_filter (\<lambda>p. map_option (\<lambda>c. (c, ESME_ROK, pdu_SequenceNumber p)) (client_response p))
     (concat (map pdu_of es))"

definition given_responses :: "pdu list \<Rightarrow> (32 word \<times> 32 word \<times> 32 word) list" where
  "given_responses os = map (\<lambda>q. (pdu_CommandID q, pdu_CommandStatus q, pdu_SequenceNumber q)) (filter is_response os)"

lemma given_Nil [simp]: "given_responses [] = []"
  by (simp add: given_responses_def)

lemma given_append [simp]: "given_responses (os @ os') = given_responses os @ given_responses os'"
  by (simp add: given_responses_def)

lemma given_requests: "\<forall>q \<in> set os. pdu_CommandID q = CmdEnquireLink \<Longrightarrow> given_responses os = []"
  by (simp add: given_responses_def filter_empty_conv is_response_def)

lemma map_filter_append: "List.map_filter f (xs @ ys) = List.map_filter f xs @ List.map_filter f ys"
  by (simp add: map_filter_def)

lemma due_Cons: "due_responses (e # es) = due_responses [e] @ due_responses es"
  by (simp add: due_responses_def map_filter_append)

lemma due_Got: "due_responses [Got p ok now] = given_responses (pdu_written n p)"
  by (auto simp: due_responses_def given_responses_def pdu_of_def pdu_written_def client_response_def is_response_def
      response_to_def map_filter_def)

lemma due_other: "pdu_of e = [] \<Longrightarrow> due_responses [e] = []"
  by (simp add: due_responses_def map_filter_def)

lemma client_loop_answers:
  assumes "StopAsked \<notin> set events" "\<forall>e \<in> set events. case e of Got p ok now \<Rightarrow> ok | EnquireTick ok \<Rightarrow> ok | _ \<Rightarrow> True"
  shows "\<exists>n \<le> length events. \<exists>os hs. extends l w os hs (snd (client_loop cfg l u events (pending, w))) \<and>
    given_responses os = due_responses (take n events) \<and>
    (fst (client_loop cfg l u events (pending, w)) = Running \<longrightarrow> n = length events)"
  using assms
proof (induction events arbitrary: w pending)
  case Nil
  show ?case using extends_refl [of l w] by (auto simp: given_responses_def due_responses_def map_filter_def)
next
  case (Cons e events)
  let ?P = "\<lambda>es w r. \<exists>n \<le> length es. \<exists>os hs. extends l w os hs (snd r) \<and> given_responses os = due_responses (take n es) \<and>
     (fst r = Running \<longrightarrow> n = length es)"
  have IH: "?P events w' (client_loop cfg l u events (b, w'))" for w' b using Cons by simp
  have stop: "?P (e # events) w (r, w)" if "r \<noteq> Running" for r
    using that extends_refl [of l w] by (intro exI [of _ 0]) (auto simp: given_responses_def due_responses_def map_filter_def)
  have go: "?P (e # events) w r" if "?P events w' r" "extends l w os hs w'" "given_responses os = due_responses [e]" for r w' os hs
  proof -
    from that(1) obtain n os' hs' where n: "n \<le> length events" "extends l w' os' hs' (snd r)"
      "given_responses os' = due_responses (take n events)" "fst r = Running \<longrightarrow> n = length events" by blast
    have "extends l w (os @ os') (hs @ hs') (snd r)" by (rule extends_trans [OF that(2) n(2)])
    moreover have "given_responses (os @ os') = due_responses (take (Suc n) (e # events))"
      using that(3) n(3) by (simp add: due_Cons [of e "take n events"])
    ultimately show ?thesis using n(1,4)
      by (intro exI [of _ "Suc n"] conjI exI [of _ "os @ os'"] exI [of _ "hs @ hs'"]) simp_all
  qed
  show ?case
  proof (cases e)
    case (Got p ok now)
    then have ok: "ok = True" using Cons.prems by simp
    obtain w' where u: "client_pdu cfg l True now p (pending, w) =
        (if pdu_CommandID p = CmdUnbind then Returned (Some ''remote requested unbind'') else Running,
         pending \<and> pdu_CommandID p \<noteq> CmdEnquireLinkResp, w')"
      "extends l w (pdu_written (ew_ids w) p) (pdu_handed (ew_ids w) cfg now p) w'"
      using client_pdu_effect [of cfg l True now p pending w] by auto
    have due: "given_responses (pdu_written (ew_ids w) p) = due_responses [e]" unfolding Got by (rule due_Got [symmetric])
    show ?thesis
    proof (cases "pdu_CommandID p = CmdUnbind")
      case True
      have "?P (e # events) w (Returned (Some ''remote requested unbind''), w')"
        using u(2) due by (intro exI [of _ 1]) auto
      then show ?thesis using u(1) True by (simp add: Got ok)
    next
      case False
      then show ?thesis using go [OF IH u(2) due] by (simp add: Got u(1) ok)
    qed
  next
    case (EnquireTick ok)
    obtain os where os: "extends l w os [] (snd (send_own l CmdEnquireLink ok w))" "\<forall>q \<in> set os. pdu_CommandID q = CmdEnquireLink"
      using send_own_extends by blast
    have none: "given_responses os = due_responses [e]" using given_requests [OF os(2)] due_other [of e] by (simp add: EnquireTick pdu_of_def)
    have "?P (e # events) w (Returned (Some ''write''), snd (send_own l CmdEnquireLink ok w))"
      using os(1) none by (intro exI [of _ 1]) auto
    then show ?thesis
      using stop [of "Returned (Some ''enquire_link timeout (no response)'')"] go [OF IH os(1) none, of True]
      by (cases pending; cases "fst (send_own l CmdEnquireLink ok w)") (simp_all add: EnquireTick split_beta Let_def)
  next
    case EnquireExpired
    then show ?thesis using stop [of "Returned (Some ''enquire_link timeout'')"] go [OF IH extends_refl, of pending] due_other [of e]
      by (cases pending) (simp_all add: pdu_of_def)
  next
    case UnbindExpired
    then show ?thesis using go [OF IH extends_refl, of pending] due_other [of e] by (simp add: pdu_of_def)
  next
    case Cancelled
    then show ?thesis using stop [of "Returned None"] by simp
  next
    case (ReadFailed c err)
    then show ?thesis using stop [of "Returned (if c then None else Some err)"] by simp
  next
    case StopAsked
    then show ?thesis using Cons.prems by simp
  qed
qed

text \<open>An enquire_link that gets no response ends the loop.\<close>

lemma client_loop_pending:
  "StopAsked \<notin> set events \<Longrightarrow> \<forall>p ok now. Got p ok now \<in> set events \<longrightarrow> pdu_CommandID p \<noteq> CmdEnquireLinkResp \<Longrightarrow>
   EnquireExpired \<in> set events \<or> (\<exists>ok. EnquireTick ok \<in> set events) \<Longrightarrow>
   fst (client_loop cfg l u events (True, w)) \<noteq> Running"
proof (induction events arbitrary: w)
  case (Cons e events)
  show ?case
  proof (cases e)
    case (Got p ok now)
    obtain w' where u: "client_pdu cfg l ok now p (True, w) =
        (if pdu_CommandID p = CmdUnbind then Returned (Some ''remote requested unbind'') else Running,
         pdu_CommandID p \<noteq> CmdEnquireLinkResp, w')"
      using client_pdu_effect [of cfg l ok now p True w] by auto
    have "pdu_CommandID p \<noteq> CmdEnquireLinkResp" using Cons.prems Got by auto
    then show ?thesis using u Cons.IH [of w'] Cons.prems by (auto simp: Got)
  qed (use Cons in auto)
qed simp


section \<open>Lemmas on the manager\<close>

fun about :: "manager_action \<Rightarrow> string" where
  "about (Started c) = cl_ID c"
| "about (Stopped i) = i"

text \<open>A pass changes the entry of the key it is at, by a function that has nothing left to do afterwards.\<close>

definition pass_of :: "(string \<Rightarrow> client_manager \<Rightarrow> client_manager) \<Rightarrow> (string \<Rightarrow> smpp_client option \<Rightarrow> smpp_client option) \<Rightarrow> bool" where
  "pass_of f g \<longleftrightarrow> (\<forall>i x. g i (g i x) = g i x) \<and>
     (\<forall>i m. mg_sessions (f i m) = (mg_sessions m)(i := g i (mg_sessions m i)) \<and>
       (\<exists>acts. mg_log (f i m) = mg_log m @ acts \<and>
          (\<forall>a \<in> set acts. about a = i \<and> g i (mg_sessions m i) \<noteq> mg_sessions m i)))"

lemma pass_ofD:
  assumes "pass_of f g"
  shows "g i (g i x) = g i x" "mg_sessions (f i m) = (mg_sessions m)(i := g i (mg_sessions m i))"
    "\<exists>acts. mg_log (f i m) = mg_log m @ acts \<and> (\<forall>a \<in> set acts. about a = i \<and> g i (mg_sessions m i) \<noteq> mg_sessions m i)"
  using assms unfolding pass_of_def by blast+

lemma pass_sessions:
  "pass_of f g \<Longrightarrow> mg_sessions (fold f is m) = (\<lambda>j. if j \<in> set is then g j (mg_sessions m j) else mg_sessions m j)"
  by (induction "is" arbitrary: m) (auto simp: pass_of_def fun_eq_iff)

lemma pass_log:
  "pass_of f g \<Longrightarrow> \<exists>acts. mg_log (fold f is m) = mg_log m @ acts \<and>
     (\<forall>a \<in> set acts. g (about a) (mg_sessions m (about a)) \<noteq> mg_sessions m (about a))"
proof (induction "is" arbitrary: m)
  case (Cons i "is")
  obtain acts where acts: "mg_log (f i m) = mg_log m @ acts" "\<forall>a \<in> set acts. about a = i \<and> g i (mg_sessions m i) \<noteq> mg_sessions m i"
    using pass_ofD(3) [OF Cons.prems] by blast
  obtain acts' where acts': "mg_log (fold f is (f i m)) = mg_log (f i m) @ acts'"
    "\<forall>a \<in> set acts'. g (about a) (mg_sessions (f i m) (about a)) \<noteq> mg_sessions (f i m) (about a)"
    using Cons.IH [OF Cons.prems] by blast
  have "g (about a) (mg_sessions m (about a)) \<noteq> mg_sessions m (about a)" if "a \<in> set acts'" for a
    using bspec [OF acts'(2) that] by (cases "about a = i") (simp_all add: pass_ofD(1,2) [OF Cons.prems])
  then show ?case using acts acts'(1) by (intro exI [of _ "acts @ acts'"]) auto
qed simp

definition removed :: "(string \<rightharpoonup> smpp_client) \<Rightarrow> string \<Rightarrow> smpp_client option \<Rightarrow> smpp_client option" where
  "removed desired i x = (if desired i = None then None else x)"

definition changed :: "(string \<rightharpoonup> smpp_client) \<Rightarrow> string \<Rightarrow> smpp_client option \<Rightarrow> smpp_client option" where
  "changed desired i x = (case (desired i, x) of
     (Some c, Some cfg) \<Rightarrow> if smppClientRuntimeEqual cfg c then x else None | _ \<Rightarrow> x)"

definition missing :: "(string \<rightharpoonup> smpp_client) \<Rightarrow> string \<Rightarrow> smpp_client option \<Rightarrow> smpp_client option" where
  "missing desired i x = (case (desired i, x) of (Some c, None) \<Rightarrow> Some c | _ \<Rightarrow> x)"

lemma desired_key:
  "desired_clients cs d i = Some c \<Longrightarrow> d i = Some c \<or> (c \<in> set cs \<and> cl_ID c = i \<and> cl_Enabled c)"
proof (induction cs arbitrary: d)
  case (Cons x cs)
  then have "(if cl_Enabled x then d(cl_ID x \<mapsto> x) else d) i = Some c \<or> (c \<in> set cs \<and> cl_ID c = i \<and> cl_Enabled c)" by simp
  then show ?case by (cases "cl_Enabled x"; cases "cl_ID x = i") auto
qed simp

lemma stop_removed_pass: "pass_of (stop_removed desired) (removed desired)"
  unfolding pass_of_def
proof (intro conjI allI)
  show "\<exists>acts. mg_log (stop_removed desired i m) = mg_log m @ acts \<and>
      (\<forall>a \<in> set acts. about a = i \<and> removed desired i (mg_sessions m i) \<noteq> mg_sessions m i)" for i m
    by (auto simp: stop_removed_def stop_session_def removed_def)
qed (auto simp: stop_removed_def stop_session_def removed_def)


lemma stop_changed_pass: "pass_of (stop_changed desired) (changed desired)"
  unfolding pass_of_def
proof (intro conjI allI)
  show "\<exists>acts. mg_log (stop_changed desired i m) = mg_log m @ acts \<and>
      (\<forall>a \<in> set acts. about a = i \<and> changed desired i (mg_sessions m i) \<noteq> mg_sessions m i)" for i m
    by (cases "desired i"; cases "mg_sessions m i") (simp_all add: stop_changed_def stop_session_def changed_def)
  show "mg_sessions (stop_changed desired i m) = (mg_sessions m)(i := changed desired i (mg_sessions m i))" for i m
    by (cases "desired i"; cases "mg_sessions m i") (auto simp: stop_changed_def stop_session_def changed_def)
qed (auto simp: changed_def split: option.splits if_splits)

lemma start_missing_pass:
  assumes "\<And>i c. desired i = Some c \<Longrightarrow> cl_ID c = i"
  shows "pass_of (start_missing desired) (missing desired)"
  unfolding pass_of_def
proof (intro conjI allI)
  show "\<exists>acts. mg_log (start_missing desired i m) = mg_log m @ acts \<and>
      (\<forall>a \<in> set acts. about a = i \<and> missing desired i (mg_sessions m i) \<noteq> mg_sessions m i)" for i m
    by (cases "desired i"; cases "mg_sessions m i") (simp_all add: start_missing_def startSessionLocked_def missing_def assms)
  show "mg_sessions (start_missing desired i m) = (mg_sessions m)(i := missing desired i (mg_sessions m i))" for i m
    by (cases "desired i"; cases "mg_sessions m i") (auto simp: start_missing_def startSessionLocked_def missing_def assms)
qed (auto simp: missing_def split: option.splits)


lemma client_waits_nth:
  "0 < delay \<Longrightarrow> 0 < maxDelay \<Longrightarrow> \<forall>r \<in> set results. r \<noteq> None \<Longrightarrow> i < length results \<Longrightarrow>
   client_waits maxDelay delay results ! i = (if i = 0 then delay else min (2 ^ i * delay) maxDelay)"
proof (induction results arbitrary: i delay)
  case (Cons r results)
  show ?case
  proof (cases i)
    case (Suc j)
    let ?d = "if delay * 2 > maxDelay then maxDelay else delay * 2"
    have IH: "client_waits maxDelay ?d results ! j = (if j = 0 then ?d else min (2 ^ j * ?d) maxDelay)"
      by (rule Cons.IH) (use Cons.prems Suc in auto)
    have grow: "x \<le> 2 ^ j * x" if "0 \<le> x" for x :: int
      using mult_right_mono [of 1 "2 ^ j" x] that by simp
    have "min (2 ^ j * maxDelay) maxDelay = maxDelay" using grow [of maxDelay] Cons.prems by simp
    moreover have "delay * 2 > maxDelay \<Longrightarrow> min (2 ^ j * (delay * 2)) maxDelay = maxDelay"
      by (rule min_absorb2) (use grow [of "delay * 2"] Cons.prems in linarith)
    moreover have "2 ^ Suc j * delay = 2 ^ j * (delay * 2)" by simp
    ultimately show ?thesis using IH Cons.prems Suc by (auto simp del: power_Suc)
  qed (use Cons.prems in auto)
qed simp

lemma client_waits_length: "\<forall>r \<in> set results. r \<noteq> None \<Longrightarrow> length (client_waits maxDelay delay results) = length results"
  by (induction results arbitrary: delay) auto

section \<open>Lemmas on sending\<close>

lemma link_happens_out: "set (lk_out l) \<subseteq> set (lk_out (link_happens e l))"
  by (cases e) (auto simp: link_Send_def NextSeq_def write_out Let_def)

lemma await_out: "set (lk_out l) \<subseteq> set (lk_out (snd (await_answer ch link_happens es l)))"
proof (induction es arbitrary: l)
  case (Cons e es)
  show ?case using Cons.IH [of "link_happens e l"] link_happens_out [of l e] by (auto split: option.split)
qed simp

lemma SendAndWait_out:
  assumes "Encode_pdu (p\<lparr>pdu_SequenceNumber := lk_seq l + 1\<rparr>) = Ok b"
  shows "p\<lparr>pdu_SequenceNumber := lk_seq l + 1\<rparr> \<in> set (lk_out (snd (SendAndWait True p events l)))"
proof -
  let ?s = "lk_seq l + 1"
  let ?l = "snd (WritePDU True (p\<lparr>pdu_SequenceNumber := ?s\<rparr>) (start_wait ?s (l\<lparr>lk_seq := ?s\<rparr>)))"
  have "p\<lparr>pdu_SequenceNumber := ?s\<rparr> \<in> set (lk_out ?l)" using assms by (simp add: WritePDU_def)
  then have "p\<lparr>pdu_SequenceNumber := ?s\<rparr> \<in> set (lk_out (snd (await_answer (\<lambda>l. lk_chans l ?s) link_happens events ?l)))"
    using await_out by blast
  then show ?thesis using assms by (simp add: SendAndWait_def NextSeq_def split_beta Let_def forget_pending_def WritePDU_def)
qed

lemma GetByName_bound: "GetByName h r name = Some l \<Longrightarrow> lk_state (h l) = StateBound"
  by (auto simp: GetByName_def firstBound_def find_Some_iff split: option.splits)

lemma Encode_pdu_shape:
  "(\<exists>b. Encode_pdu p = Ok b) \<longleftrightarrow> (\<exists>b. encodeBody p = Ok b \<and> unat (word_of_nat (HeaderLen + length b) :: 32 word) \<le> MaxPDULen)"
  by (auto simp: Encode_pdu_def obind_eq_Ok Let_def not_less)

lemma encodes_overridden:
  assumes "Encode_pdu p = Ok b"
  shows "\<exists>b. Encode_pdu (p\<lparr>pdu_SourceAddrTON := t, pdu_SourceAddrNPI := n, pdu_DestAddrTON := t', pdu_DestAddrNPI := n',
    pdu_SequenceNumber := s\<rparr>) = Ok b" (is "\<exists>b. Encode_pdu ?q = Ok b")
proof -
  obtain c where c: "encodeBody p = Ok c" "unat (word_of_nat (HeaderLen + length c) :: 32 word) \<le> MaxPDULen"
    using assms Encode_pdu_shape by blast
  have len: "length (sm_body ?q) = length (sm_body p)" by (simp add: sm_body_def)
  have "\<exists>d. encodeBody ?q = Ok d \<and> length d = length c"
    by (cases "bind_cmd (pdu_CommandID p)"; cases "bind_resp_cmd (pdu_CommandID p)"; cases "sm_cmd (pdu_CommandID p)";
        cases "sm_resp_cmd (pdu_CommandID p)"; cases "255 < length (pdu_ShortMessage p)"; cases "encodeTLVs (pdu_TLVs p)")
      (use c(1) len in \<open>auto simp: encodeBody_def Let_def\<close>)
  then show ?thesis using c(2) Encode_pdu_shape by metis
qed

lemma encodes_sent:
  assumes "Encode_pdu p = Ok b"
  shows "\<exists>b. Encode_pdu ((applyAddressOverrides order sessions name p)\<lparr>pdu_SequenceNumber := s\<rparr>) = Ok b"
proof -
  have same: "p\<lparr>pdu_SourceAddrTON := pdu_SourceAddrTON p, pdu_SourceAddrNPI := pdu_SourceAddrNPI p,
      pdu_DestAddrTON := pdu_DestAddrTON p, pdu_DestAddrNPI := pdu_DestAddrNPI p\<rparr> = p" by (cases p) simp
  show ?thesis
  proof (cases "applyAddressOverrides order sessions name p = p")
    case True
    then show ?thesis
      using encodes_overridden [OF assms, where t = "pdu_SourceAddrTON p" and n = "pdu_SourceAddrNPI p" and
        t' = "pdu_DestAddrTON p" and n' = "pdu_DestAddrNPI p" and s = s]
      by (simp only: same)
  next
    case False
    let ?f = "find (\<lambda>cfg. cl_Name cfg = name \<or> cl_SystemID cfg = name) (List.map_filter sessions order)"
    obtain cfg where "?f = Some cfg" using False by (cases ?f) (simp_all add: applyAddressOverrides_def)
    then have "applyAddressOverrides order sessions name p =
        p\<lparr>pdu_SourceAddrTON := override (cl_SourceAddrTON cfg) (pdu_SourceAddrTON p),
          pdu_SourceAddrNPI := override (cl_SourceAddrNPI cfg) (pdu_SourceAddrNPI p),
          pdu_DestAddrTON := override (cl_DestAddrTON cfg) (pdu_DestAddrTON p),
          pdu_DestAddrNPI := override (cl_DestAddrNPI cfg) (pdu_DestAddrNPI p)\<rparr>"
      using False by (cases "pdu_CommandID p \<noteq> CmdSubmitSM \<and> pdu_CommandID p \<noteq> CmdDeliverSM") (simp_all add: applyAddressOverrides_def)
    then show ?thesis using encodes_overridden [OF assms] by (simp only:)
  qed
qed

lemma overrides_command: "pdu_CommandID (applyAddressOverrides order sessions name p) = pdu_CommandID p \<and>
    pdu_ShortMessage (applyAddressOverrides order sessions name p) = pdu_ShortMessage p \<and>
    pdu_DestinationAddr (applyAddressOverrides order sessions name p) = pdu_DestinationAddr p \<and>
    pdu_TLVs (applyAddressOverrides order sessions name p) = pdu_TLVs p"
  by (simp add: applyAddressOverrides_def split: option.split)

section \<open>A sample client\<close>

definition sample_client :: smpp_client where
  "sample_client = \<lparr>cl_ID = ''1'', cl_Name = ''carrier'', cl_Host = ''smsc.example'', cl_Port = 2775, cl_Transport = ''tcp'',
     cl_VerifyServerCert = False, cl_SystemID = ''vectorcore'', cl_Password = ''secret'', cl_BindType = ''transceiver'',
     cl_ReconnectInterval = 0, cl_ThroughputLimit = 0, cl_SourceAddrTON = Some 5, cl_SourceAddrNPI = None, cl_DestAddrTON = None,
     cl_DestAddrNPI = None, cl_Enabled = True, cl_CreatedAt = sample_time, cl_UpdatedAt = sample_time\<rparr>"

definition sample_bind_resp :: pdu where
  "sample_bind_resp = empty_pdu\<lparr>pdu_CommandID := CmdBindTransceiverResp, pdu_SequenceNumber := 1\<rparr>"

definition sample_deliver :: pdu where
  "sample_deliver = empty_pdu\<lparr>pdu_CommandID := CmdDeliverSM, pdu_SequenceNumber := 7, pdu_ESMClass := ESMClassDeliverReceipt\<rparr>"

definition sample_carrier_world :: carrier_world where
  "sample_carrier_world = \<lparr>ew_heap = (\<lambda>_. NewLink [] [] [] [] 0 [] StateDisconnected), ew_reg = NewRegistry, ew_ids = 0, ew_handed = []\<rparr>"

lemma sample_client_bound: "\<exists>k. client_bind sample_client True True (Ok sample_bind_resp) = Ok k"
proof -
  let ?b = "empty_pdu\<lparr>pdu_CommandID := CmdBindTransceiver, pdu_CommandStatus := ESME_ROK, pdu_SequenceNumber := 1,
            pdu_SystemID := ''vectorcore'', pdu_Password := ''secret'', pdu_InterfaceVersion := 0x34\<rparr>"
  have "\<exists>c. encodeBody ?b = Ok c \<and> length c < 1000"
    by (simp add: encodeBody_def bind_cmd_def writeCStr_def empty_pdu_def Let_def)
  then obtain e where "Encode_pdu ?b = Ok e" using Encode_small by blast
  then have "written True ?b = [?b]" by (simp add: written_def)
  moreover have "bindCmds (cl_BindType sample_client) = (CmdBindTransceiver, CmdBindTransceiverResp)"
    "cl_SystemID sample_client = ''vectorcore''" "cl_Password sample_client = ''secret''"
    "pdu_CommandID sample_bind_resp = CmdBindTransceiverResp" "pdu_CommandStatus sample_bind_resp = ESME_ROK"
    by (simp_all add: bindCmds_def sample_client_def sample_bind_resp_def empty_pdu_def)
  ultimately show ?thesis by (simp add: client_bind_def)
qed

section \<open>Properties\<close>

text \<open>
  In a bound client session that is not stopped and whose writes succeed, the responses written are exactly
  those due to the enquire_link, unbind, submit_sm and deliver_sm requests read until the session ends, in their
  order, with the sequence numbers of the requests and status ok; while the session runs nothing is left
  unanswered.
\<close>

theorem client_session_answers:
  fixes w :: carrier_world and l :: nat and u :: bool
  assumes "client_bind cfg True True resp = Ok k" and "StopAsked \<notin> set events"
    and "\<forall>e \<in> set events. case e of Got p ok now \<Rightarrow> ok | EnquireTick ok \<Rightarrow> ok | _ \<Rightarrow> True"
  defines "r \<equiv> client_connect cfg l True True resp u events w"
  shows "\<exists>n \<le> length events. \<exists>new. lk_out (ew_heap (snd r) l) = lk_out k @ new \<and>
    given_responses new = due_responses (take n events) \<and> (fst r = Running \<longrightarrow> n = length events)"
proof -
  let ?w = "w\<lparr>ew_heap := (ew_heap w)(l := k), ew_reg := registry_Add ((ew_heap w)(l := k)) l (ew_reg w)\<rparr>"
  obtain n os hs where n: "n \<le> length events" "extends l ?w os hs (snd (client_loop cfg l u events (False, ?w)))"
    "given_responses os = due_responses (take n events)" "fst (client_loop cfg l u events (False, ?w)) = Running \<longrightarrow> n = length events"
    using client_loop_answers [OF assms(2,3)] by blast
  have "lk_out (ew_heap (snd r) l) = lk_out k @ os" "fst r = fst (client_loop cfg l u events (False, ?w))"
    using n(2) by (simp_all add: r_def client_connect_def assms(1) split_beta Let_def extends_def)
  then show ?thesis using n by metis
qed

theorem client_session_answers_witness:
  "\<exists>k n new. client_bind sample_client True True (Ok sample_bind_resp) = Ok k \<and>
     lk_out (ew_heap (snd (client_connect sample_client 0 True True (Ok sample_bind_resp) True [Got sample_deliver True sample_time]
       sample_carrier_world)) 0) = lk_out k @ new \<and> given_responses new = due_responses (take n [Got sample_deliver True sample_time])"
proof -
  let ?events = "[Got sample_deliver True sample_time]"
  obtain k where k: "client_bind sample_client True True (Ok sample_bind_resp) = Ok k" using sample_client_bound by blast
  have events: "StopAsked \<notin> set ?events" "\<forall>e \<in> set ?events. case e of Got p ok now \<Rightarrow> ok | EnquireTick ok \<Rightarrow> ok | _ \<Rightarrow> True" by simp_all
  show ?thesis using client_session_answers [OF k events, where l = 0 and u = True and w = sample_carrier_world] k by blast
qed

text \<open>
  C33: Whatever the remote SMSC sends and whenever the session is stopped, a message is handed on only after a bind
  that was answered with the right response and status ok; it bears the name of the client as its ingress peer,
  and a response with status ok and the message's id was written for it.
\<close>

theorem client_messages_acknowledged:
  assumes "ew_handed (snd (client_connect cfg l dialled ok resp u events w)) = ew_handed w @ new" and "(m, name) \<in> set new"
  shows "name = cl_Name cfg \<and> msg_IngressInterface m = InterfaceSMPP \<and> msg_IngressPeer m = cl_Name cfg \<and>
    (\<exists>b. resp = Ok b \<and> pdu_CommandID b = snd (bindCmds (cl_BindType cfg)) \<and> pdu_CommandStatus b = ESME_ROK) \<and>
    (\<exists>q \<in> set (lk_out (ew_heap (snd (client_connect cfg l dialled ok resp u events w)) l)).
       (pdu_CommandID q = CmdSubmitSMResp \<or> pdu_CommandID q = CmdDeliverSMResp) \<and> pdu_CommandStatus q = ESME_ROK \<and>
       pdu_MessageID q = msg_SMPPMsgID m)"
proof -
  obtain k where k: "client_bind cfg dialled ok resp = Ok k"
    using assms by (cases "client_bind cfg dialled ok resp") (simp_all add: client_connect_def)
  let ?w = "w\<lparr>ew_heap := (ew_heap w)(l := k), ew_reg := registry_Add ((ew_heap w)(l := k)) l (ew_reg w)\<rparr>"
  obtain os hs where os: "extends l ?w os hs (snd (client_loop cfg l u events (False, ?w)))" "acked cfg os hs"
    using client_loop_acked by blast
  have r: "lk_out (ew_heap (snd (client_connect cfg l dialled ok resp u events w)) l) = lk_out k @ os"
    "ew_handed (snd (client_connect cfg l dialled ok resp u events w)) = ew_handed w @ hs"
    using os(1) by (simp_all add: client_connect_def k split_beta Let_def extends_def)
  have "\<exists>b. resp = Ok b \<and> pdu_CommandID b = snd (bindCmds (cl_BindType cfg)) \<and> pdu_CommandStatus b = ESME_ROK"
    using k by (cases resp) (auto simp: client_bind_def split_beta Let_def split: if_splits)
  then show ?thesis using os(2) assms r by (auto simp: acked_def)
qed

theorem client_messages_acknowledged_witness:
  "\<exists>m. ew_handed (snd (client_connect sample_client 0 True True (Ok sample_bind_resp) True [Got sample_deliver True sample_time]
     sample_carrier_world)) = [(m, ''carrier'')] \<and> msg_IngressPeer m = ''carrier''"
proof -
  let ?r = "client_connect sample_client 0 True True (Ok sample_bind_resp) True [Got sample_deliver True sample_time] sample_carrier_world"
  obtain k where k: "client_bind sample_client True True (Ok sample_bind_resp) = Ok k" using sample_client_bound by blast
  let ?w = "sample_carrier_world\<lparr>ew_heap := (ew_heap sample_carrier_world)(0 := k),
    ew_reg := registry_Add ((ew_heap sample_carrier_world)(0 := k)) 0 (ew_reg sample_carrier_world)\<rparr>"
  obtain w' where w': "client_pdu sample_client 0 True sample_time sample_deliver (False, ?w) = (Running, False, w')"
    "extends 0 ?w (pdu_written (ew_ids ?w) sample_deliver) (pdu_handed (ew_ids ?w) sample_client sample_time sample_deliver) w'"
    using client_pdu_effect [of sample_client 0 True sample_time sample_deliver False ?w] by (auto simp: sample_deliver_def)
  have handed: "\<exists>m. pdu_handed n sample_client sample_time sample_deliver = [(m, ''carrier'')]" for n
    by (simp add: pdu_handed_def sample_deliver_def incoming_def DecodeDeliveryReceipt_def sample_client_def empty_pdu_def Let_def)
  obtain m where m: "ew_handed (snd ?r) = ew_handed sample_carrier_world @ [(m, ''carrier'')]"
    using w' handed [of "ew_ids ?w"] by (auto simp: client_connect_def k extends_def Let_def)
  have "msg_IngressPeer m = ''carrier''"
    using client_messages_acknowledged [OF m, of m "''carrier''"] by (simp add: sample_client_def)
  then show ?thesis using m by (auto simp: sample_carrier_world_def)
qed

text \<open>
  A remote SMSC that leaves an enquire_link without a response is given up: when the timer or the next tick
  comes before a response, the read loop has ended.
\<close>

theorem client_gives_up_silent_peer:
  assumes "StopAsked \<notin> set events" and "\<forall>p ok now. Got p ok now \<in> set events \<longrightarrow> pdu_CommandID p \<noteq> CmdEnquireLinkResp"
    and "EnquireExpired \<in> set events \<or> (\<exists>ok. EnquireTick ok \<in> set events)"
  shows "fst (client_loop cfg l u (EnquireTick ok # events) (pending, w)) \<noteq> Running"
  using client_loop_pending [OF assms] by (cases pending) (simp_all add: split_beta Let_def)

theorem client_gives_up_silent_peer_witness:
  "fst (client_loop sample_client 0 True [EnquireTick True, EnquireExpired] (False, sample_carrier_world)) \<noteq> Running"
  by (rule client_gives_up_silent_peer) simp_all

text \<open>
  Attempt after attempt, a client waits twice as long, starting with a second, up to its reconnect interval or a
  minute; how long a connection lasted does not matter.
\<close>

theorem client_reconnect_waits:
  assumes "\<forall>r \<in> set results. r \<noteq> None" and "i < length results"
  shows "client_run cfg results ! i = (if i = 0 then Second else
    min (2 ^ i * Second) (if cl_ReconnectInterval cfg \<le> 0 then 60 * Second else cl_ReconnectInterval cfg))"
  unfolding client_run_def by (rule client_waits_nth) (use assms in auto)

theorem client_reconnect_waits_witness:
  "client_run sample_client [Some ''EOF'', Some ''EOF'', Some ''EOF''] ! 2 = 4 * Second"
  using client_reconnect_waits [of "[Some ''EOF'', Some ''EOF'', Some ''EOF'']" 2 sample_client] by (simp add: sample_client_def)

text \<open>
  C19: A reload of the clients leaves, whatever the order of the maps, a session for exactly the enabled rows: one
  that was there with the same runtime configuration stays and is neither stopped nor started, any other
  is started with the current row.
\<close>

theorem client_reload_exact:
  assumes "dom (mg_sessions m) \<subseteq> set order1" "dom (desired_clients rows Map.empty) \<subseteq> set order2"
    "dom (desired_clients rows Map.empty) \<subseteq> set order3"
  defines "m' \<equiv> manager_reload (Some rows) order1 order2 order3 m"
    and "kept \<equiv> \<lambda>i. \<exists>cfg c. mg_sessions m i = Some cfg \<and> desired_clients rows Map.empty i = Some c \<and> smppClientRuntimeEqual cfg c"
  shows "mg_sessions m' = (\<lambda>i. if kept i then mg_sessions m i else desired_clients rows Map.empty i) \<and>
    (\<exists>acts. mg_log m' = mg_log m @ acts \<and> (\<forall>a \<in> set acts. \<not> kept (about a)))"
proof -
  let ?d = "desired_clients rows Map.empty"
  have key: "\<And>i c. ?d i = Some c \<Longrightarrow> cl_ID c = i" using desired_key [of rows Map.empty] by auto
  note passes = stop_removed_pass [of ?d] stop_changed_pass [of ?d] start_missing_pass [of ?d, OF key]
  define m1 where "m1 = fold (stop_removed ?d) order1 m"
  define m2 where "m2 = fold (stop_changed ?d) order2 m1"
  have m': "m' = fold (start_missing ?d) order3 m2" by (simp add: m'_def manager_reload_def Let_def m1_def m2_def)
  have s1: "mg_sessions m1 i = (if ?d i = None then None else mg_sessions m i)" for i
    using assms(1) by (auto simp: m1_def pass_sessions [OF passes(1)] removed_def)
  have s2: "mg_sessions m2 i = changed ?d i (mg_sessions m1 i)" for i
    using assms(2) s1 [of i] by (auto simp: m2_def pass_sessions [OF passes(2)] changed_def split: option.split)
  have s3: "mg_sessions m' i = missing ?d i (mg_sessions m2 i)" for i
    using assms(3) s1 [of i] s2 [of i] by (auto simp: m' pass_sessions [OF passes(3)] missing_def changed_def split: option.split)
  have sessions: "mg_sessions m' i = (if kept i then mg_sessions m i else ?d i)" for i
    by (cases "?d i"; cases "mg_sessions m i") (simp_all add: s3 s2 s1 missing_def changed_def kept_def)
  obtain a1 where a1: "mg_log m1 = mg_log m @ a1" "\<forall>a \<in> set a1. removed ?d (about a) (mg_sessions m (about a)) \<noteq> mg_sessions m (about a)"
    using pass_log [OF passes(1)] unfolding m1_def by blast
  obtain a2 where a2: "mg_log m2 = mg_log m1 @ a2" "\<forall>a \<in> set a2. changed ?d (about a) (mg_sessions m1 (about a)) \<noteq> mg_sessions m1 (about a)"
    using pass_log [OF passes(2)] unfolding m2_def by blast
  obtain a3 where a3: "mg_log m' = mg_log m2 @ a3" "\<forall>a \<in> set a3. missing ?d (about a) (mg_sessions m2 (about a)) \<noteq> mg_sessions m2 (about a)"
    using pass_log [OF passes(3)] unfolding m' by blast
  have "removed ?d i (mg_sessions m i) = mg_sessions m i" "changed ?d i (mg_sessions m1 i) = mg_sessions m1 i"
    "missing ?d i (mg_sessions m2 i) = mg_sessions m2 i" if "kept i" for i
    using that by (auto simp: kept_def removed_def changed_def missing_def s1 s2)
  then have "\<forall>a \<in> set (a1 @ a2 @ a3). \<not> kept (about a)" using a1(2) a2(2) a3(2) by auto
  moreover have "mg_log m' = mg_log m @ a1 @ a2 @ a3" using a1(1) a2(1) a3(1) by simp
  ultimately show ?thesis using sessions by blast
qed

theorem client_reload_exact_witness:
  "mg_sessions (manager_reload (Some [sample_client, sample_client\<lparr>cl_ID := ''2'', cl_Enabled := False\<rparr>]) [] [''1''] [''1'']
     \<lparr>mg_sessions = Map.empty, mg_log = []\<rparr>) = [''1'' \<mapsto> sample_client]"
proof -
  let ?rows = "[sample_client, sample_client\<lparr>cl_ID := ''2'', cl_Enabled := False\<rparr>]" and ?m = "\<lparr>mg_sessions = Map.empty, mg_log = []\<rparr>"
  have d: "desired_clients ?rows Map.empty = [''1'' \<mapsto> sample_client]" by (simp add: sample_client_def)
  have p: "dom (mg_sessions ?m) \<subseteq> set []" "dom (desired_clients ?rows Map.empty) \<subseteq> set [''1'']" unfolding d by simp_all
  show ?thesis using conjunct1 [OF client_reload_exact [OF p(1) p(2) p(2)]] unfolding d by (auto simp: fun_eq_iff)
qed

text \<open>
  Sending through a named peer uses a link that is bound; the PDU that is written differs from the given one in
  its sequence number and the overridden address types only, and a response that comes back was read from that link
  with this sequence number. Without a bound link nothing is sent.
\<close>

theorem send_via_peer:
  assumes "Encode_pdu p = Ok b"
  shows "case GetByName h r name of
      None \<Rightarrow> SendViaPeer order sessions r name True p events h = (Err (''smpp: no bound peer '' @ name), h)
    | Some l \<Rightarrow> lk_state (h l) = StateBound \<and>
        (let (reply, h') = SendViaPeer order sessions r name True p events h in
         (\<exists>q \<in> set (lk_out (h' l)). pdu_SequenceNumber q = lk_seq (h l) + 1 \<and> pdu_CommandID q = pdu_CommandID p \<and>
            pdu_ShortMessage q = pdu_ShortMessage p \<and> pdu_DestinationAddr q = pdu_DestinationAddr p \<and> pdu_TLVs q = pdu_TLVs p) \<and>
         (\<forall>resp. reply = Ok resp \<longrightarrow> PassedOn resp \<in> set events \<and> pdu_SequenceNumber resp = lk_seq (h l) + 1) \<and>
         (\<forall>l'. l' \<noteq> l \<longrightarrow> h' l' = h l'))"
proof (cases "GetByName h r name")
  case None
  then show ?thesis by (simp add: SendViaPeer_def)
next
  case (Some l)
  let ?p = "applyAddressOverrides order sessions name p" and ?s = "lk_seq (h l) + 1"
  let ?q = "?p\<lparr>pdu_SequenceNumber := ?s\<rparr>"
  note same = overrides_command [of order sessions name p]
  obtain b where b: "Encode_pdu ?q = Ok b" using encodes_sent [OF assms] by blast
  have reply: "PassedOn resp \<in> set events \<and> pdu_SequenceNumber resp = ?s" if "fst (SendAndWait True ?p events (h l)) = Ok resp" for resp
  proof -
    from that SendAndWait_reply [OF b, of events] have "first_some (link_reply ?s) events = Some resp" by (simp split: option.splits)
    from first_some_Some [OF this] obtain x where x: "x \<in> set events" "link_reply ?s x = Some resp" by blast
    show ?thesis by (cases x) (use x in \<open>auto simp: link_reply_def split: if_splits\<close>)
  qed
  show ?thesis using SendAndWait_out [OF b, of events] reply same GetByName_bound [OF Some]
    by (auto simp: Some SendViaPeer_def split_beta Let_def intro!: bexI [of _ ?q])
qed

theorem send_via_peer_witness:
  "\<exists>b. Encode_pdu (empty_pdu\<lparr>pdu_CommandID := CmdEnquireLink\<rparr>) = Ok b \<and>
     fst (SendViaPeer [] Map.empty NewRegistry ''carrier'' True (empty_pdu\<lparr>pdu_CommandID := CmdEnquireLink\<rparr>) []
       (\<lambda>_. NewLink [] [] [] [] 0 [] StateBound)) = Err ''smpp: no bound peer carrier''"
proof -
  obtain b where b: "Encode_pdu (empty_pdu\<lparr>pdu_CommandID := CmdEnquireLink\<rparr>) = Ok b"
    using Encode_small [of "empty_pdu\<lparr>pdu_CommandID := CmdEnquireLink\<rparr>" "[]"]
    by (auto simp: encodeBody_def bind_cmd_def bind_resp_cmd_def sm_cmd_def sm_resp_cmd_def empty_pdu_def Let_def)
  have none: "GetByName (\<lambda>_. NewLink [] [] [] [] 0 [] StateBound) NewRegistry ''carrier'' = None"
    by (simp add: GetByName_def NewRegistry_def firstBound_def)
  show ?thesis
    using b send_via_peer [OF b, where h = "\<lambda>_. NewLink [] [] [] [] 0 [] StateBound" and r = NewRegistry and name = "''carrier''"
        and order = "[]" and sessions = Map.empty and events = "[]"]
    by (simp add: none)
qed

end
