(* ===== verification/Sip3gpp.thy ===== *)
theory Sip3gpp
  imports Tpdu
begin

text \<open>
  The bodies of 3GPP short messages over SIP (\<open>internal/codec/sip3gpp\<close>): an RP message with its reference, the
  addresses of the relay layer, and a TP message.
\<close>

abbreviation rpMTIDataMStoSC :: byte where "rpMTIDataMStoSC \<equiv> 0x00"
abbreviation rpMTIDataSCtoMS :: byte where "rpMTIDataSCtoMS \<equiv> 0x01"
abbreviation rpMTIACKMStoSC :: byte where "rpMTIACKMStoSC \<equiv> 0x02"
abbreviation rpMTIACKSCtoMS :: byte where "rpMTIACKSCtoMS \<equiv> 0x03"
abbreviation rpMTIErrorMStoSC :: byte where "rpMTIErrorMStoSC \<equiv> 0x04"
abbreviation rpMTIErrorSCtoMS :: byte where "rpMTIErrorSCtoMS \<equiv> 0x05"
abbreviation rpMTISMMA :: byte where "rpMTISMMA \<equiv> 0x06"

section \<open>Decoding\<close>

text \<open>An address at a position: its digits and the octets it takes.\<close>

definition rp_decodeBCD :: "bytes \<Rightarrow> nat \<Rightarrow> string" where
  "rp_decodeBCD data numDigits = decodeBCD_from data numDigits []"

definition decodeRPAddress :: "bytes \<Rightarrow> nat \<Rightarrow> (string \<times> nat) outcome" where
  "decodeRPAddress data pos =
     (if pos \<ge> length data then Err ''RP address out of bounds''
      else obind (at data pos) (\<lambda>b.
        let len = unat b in
        if len = 0 then Ok ([], 1)
        else if pos + 1 + len > length data then Err ''RP address data truncated''
        else obind (at data (pos + 1)) (\<lambda>toa. obind (slice data (pos + 2) (pos + 1 + len)) (\<lambda>bcdData.
          let bcdOctets = len - 1 in
          obind (if bcdOctets > 0 then omap (\<lambda>l. drop_bit 4 l AND 0x0F = 0x0F) (at bcdData (bcdOctets - 1)) else Ok False) (\<lambda>filled.
            let numDigits = (if filled then bcdOctets * 2 - 1 else bcdOctets * 2) in
            Ok (rp_decodeBCD bcdData numDigits, 1 + len))))))"

definition rp_addresses :: "string \<Rightarrow> string \<Rightarrow> byte \<Rightarrow> message \<Rightarrow> message" where
  "rp_addresses oa da mr msg = (let msg = msg\<lparr>msg_RPMR := mr\<rparr>;
      msg = (if addr_MSISDN (msg_Source msg) = [] \<and> oa \<noteq> [] then msg\<lparr>msg_Source := (msg_Source msg)\<lparr>addr_MSISDN := oa\<rparr>\<rparr> else msg) in
      if addr_MSISDN (msg_Destination msg) = [] \<and> da \<noteq> []
      then msg\<lparr>msg_Destination := (msg_Destination msg)\<lparr>addr_MSISDN := da\<rparr>\<rparr> else msg)"

definition decodeRPData :: "gotime \<Rightarrow> bytes \<Rightarrow> message outcome" where
  "decodeRPData now data =
     (if length data < 4 then Err ''RP-DATA too short''
      else
        obind (wrap_err ''decode RP-OA'' (decodeRPAddress data 2)) (\<lambda>(oa, n).
        let pos = 2 + n in
        obind (wrap_err ''decode RP-DA'' (decodeRPAddress data pos)) (\<lambda>(da, n).
        let pos = pos + n in
        if pos \<ge> length data then Err ''RP-DATA truncated before RP-UD''
        else obind (at data pos) (\<lambda>l.
          let rpUDLen = unat l; pos = pos + 1 in
          if pos + rpUDLen > length data then Err ''RP-UD length exceeds data''
          else obind (slice data pos (pos + rpUDLen)) (\<lambda>tpData.
            obind (wrap_err ''decode TP-DATA'' (Decode now tpData)) (\<lambda>msg.
            obind (at data 1) (\<lambda>mr. Ok (rp_addresses oa da mr msg))))))))"

text \<open>An acknowledgement, an error or a memory notification carries no message.\<close>

definition sip3gpp_Decode :: "gotime \<Rightarrow> bytes \<Rightarrow> message option outcome" where
  "sip3gpp_Decode now body =
     (if body = [] then Err ''empty vnd.3gpp.sms body''
      else obind (at body 0) (\<lambda>b.
        let mti = b AND 0x07 in
        if mti = rpMTIDataMStoSC \<or> mti = rpMTIDataSCtoMS then omap Some (decodeRPData now body)
        else if mti = rpMTIACKMStoSC \<or> mti = rpMTIACKSCtoMS then Ok None
        else if mti = rpMTIErrorMStoSC \<or> mti = rpMTIErrorSCtoMS then Ok None
        else if mti = rpMTISMMA then Ok None
        else omap Some (Decode now body)))"

section \<open>Encoding\<close>

definition normalizeAddressDigits :: "string \<Rightarrow> string outcome" where
  "normalizeAddressDigits msisdn =
     (let msisdn = trim_space msisdn in
      if msisdn = [] then Ok []
      else let digits = trim_plus msisdn in
           if list_all is_digit digits then Ok digits else Err ''non-digit in address'')"

definition encodeBCDLocal :: "string \<Rightarrow> bytes outcome" where
  "encodeBCDLocal digits = (if list_all is_digit digits then Ok (pack_bcd digits) else Err ''non-digit in address'')"

definition encodeRPAddress :: "string \<Rightarrow> bytes" where
  "encodeRPAddress msisdn =
     (case normalizeAddressDigits msisdn of
        Ok normalized \<Rightarrow>
          if normalized = [] then [0x00]
          else let bcd = (case encodeBCDLocal normalized of Ok b \<Rightarrow> b | _ \<Rightarrow> []) in
               byte_of (1 + length bcd) # 0x91 # bcd
      | _ \<Rightarrow> [0x00])"

definition sip3gpp_Encode :: "gotime \<Rightarrow> message \<Rightarrow> byte \<Rightarrow> string \<Rightarrow> bytes outcome" where
  "sip3gpp_Encode now msg rpMR scAddr =
     obind (wrap_err ''encode TP-DELIVER'' (EncodeDeliver now msg)) (\<lambda>tpData.
       let out = [rpMTIDataSCtoMS, rpMR] @ encodeRPAddress scAddr @ [0x00] in
       if length tpData > 233 then Err ''TP-DATA too long for single RP-DATA''
       else Ok (out @ [byte_of (length tpData)] @ tpData))"

definition EncodeMO :: "message \<Rightarrow> byte \<Rightarrow> string \<Rightarrow> bytes outcome" where
  "EncodeMO msg rpMR scAddr =
     obind (wrap_err ''encode TP-SUBMIT'' (EncodeSubmit msg)) (\<lambda>tpData.
       Ok ([rpMTIDataMStoSC, rpMR] @ [0x00] @ encodeRPAddress scAddr @ [byte_of (length tpData)] @ tpData))"

definition EncodeRPAck :: "byte \<Rightarrow> bool \<Rightarrow> bytes" where
  "EncodeRPAck rpMR networkToMS = (if networkToMS then [rpMTIACKSCtoMS, rpMR] else [rpMTIACKMStoSC, rpMR])"

section \<open>Lemmas\<close>

lemma no_panic_decodeRPAddress: "no_panic (decodeRPAddress data pos)"
proof (cases "pos \<ge> length data \<or> pos + 1 + unat (data ! pos) > length data \<or> unat (data ! pos) = 0")
  case False
  define len where "len = unat (data ! pos)"
  have f: "pos < length data" "pos + 1 + len \<le> length data" "len \<noteq> 0" using False by (auto simp: len_def not_less)
  then have "pos + 1 < length data" "pos + 2 \<le> pos + 1 + len" by linarith+
  then show ?thesis using f
    by (auto simp: decodeRPAddress_def Let_def len_def [symmetric] intro!: no_panic_obind)
qed (auto simp: decodeRPAddress_def Let_def intro!: no_panic_obind)

lemma no_panic_decodeRPData: "no_panic (decodeRPData now data)"
  by (auto simp: decodeRPData_def Let_def no_panic_decodeRPAddress no_panic_Decode intro!: no_panic_obind)

text \<open>An address that is written is read back, whatever stands before and behind it.\<close>

lemma pack_bcd_last:
  "list_all is_digit ds \<Longrightarrow> ds \<noteq> [] \<Longrightarrow> (drop_bit 4 (last (pack_bcd ds)) AND 0x0F = 0x0F) \<longleftrightarrow> odd (length ds)"
proof (induction ds rule: pack_bcd.induct)
  case (2 c)
  then have "digit_val c \<le> 9" by (auto dest: digit_val_le)
  then show ?case by (simp add: nibbles_F byte_of_le_9)
next
  case (3 c c' cs)
  show ?case
  proof (cases cs)
    case Nil
    have d: "digit_val c \<le> 9" "digit_val c' \<le> 9" using 3 by (auto dest: digit_val_le)
    obtain b where b: "b = byte_of (digit_val c) OR push_bit 4 (byte_of (digit_val c'))"
      "drop_bit 4 b AND 0x0F = byte_of (digit_val c')" using nibbles d by simp
    have "unat (byte_of (digit_val c')) \<noteq> unat (0x0F :: byte)" using d by simp
    then have "byte_of (digit_val c') \<noteq> 0x0F" by metis
    then show ?thesis using Nil by (simp add: b(1) [symmetric]) (simp add: b(2))
  next
    case (Cons x xs)
    then have "pack_bcd cs \<noteq> []" by (cases xs) simp_all
    then show ?thesis using 3 Cons by simp
  qed
qed simp

lemma decodeRPAddress_steps:
  assumes "pos < length data" "at data pos = Ok b" "unat b = 1 + k" "0 < k" "pos + 1 + (1 + k) \<le> length data"
    and "at data (pos + 1) = Ok toa" "slice data (pos + 2) (pos + 1 + (1 + k)) = Ok bcd" "at bcd (k - 1) = Ok l"
  shows "decodeRPAddress data pos = Ok (rp_decodeBCD bcd (if drop_bit 4 l AND 0x0F = 0x0F then k * 2 - 1 else k * 2), 1 + (1 + k))"
  using assms(1,4,5) unfolding decodeRPAddress_def Let_def assms(2,3,6,7) obind.simps
  by (simp add: assms(8) [simplified] assms(2,3,6,7) [simplified] del: at_in slice_in)

lemma decodeRPData_steps:
  assumes "4 \<le> length data" "decodeRPAddress data 2 = Ok (oa, n)" "decodeRPAddress data (2 + n) = Ok (da, k)"
    and "2 + n + k < length data" "at data (2 + n + k) = Ok l" "unat l = len" "2 + n + k + 1 + len \<le> length data"
    and "slice data (2 + n + k + 1) (2 + n + k + 1 + len) = Ok tp" "Decode now tp = Ok msg" "at data 1 = Ok mr"
  shows "decodeRPData now data = Ok (rp_addresses oa da mr msg)"
proof -
  have "\<not> length data < 4" "\<not> length data \<le> 2 + n + k" "\<not> length data < 2 + n + k + 1 + len" using assms(1,4,7) by linarith+
  then show ?thesis
    unfolding decodeRPData_def Let_def assms(2) wrap_err_Ok obind.simps prod.case assms(3,5,6)
    by (simp only: if_False assms(5,6,8,9,10) obind.simps wrap_err_Ok Let_def)
qed

lemma decode_encodeRPAddress:
  assumes "list_all is_digit ds" "length ds \<le> 508" "pos = length pre"
  shows "decodeRPAddress (pre @ encodeRPAddress ds @ post) pos = Ok (ds, length (encodeRPAddress ds))"
proof (cases "ds = []")
  case True
  then show ?thesis
    by (simp add: assms(3) decodeRPAddress_def encodeRPAddress_def normalizeAddressDigits_def at_def nth_append trim_space_def
        trim_by.simps space_seqs_def)
next
  case False
  have n: "normalizeAddressDigits ds = Ok ds"
    using assms(1) False trim_space_digits [of ds] trim_plus_digits [of ds] by (simp add: normalizeAddressDigits_def list_all_iff)
  let ?bcd = "pack_bcd ds" and ?len = "1 + (length ds + 1) div 2"
  have e: "encodeRPAddress ds = byte_of ?len # 0x91 # ?bcd"
    using assms(1) False by (simp add: encodeRPAddress_def n encodeBCDLocal_def Let_def)
  have len: "unat (byte_of ?len) = ?len" using assms(2) by simp
  have nonempty: "?bcd \<noteq> []" using False by (cases ds rule: pack_bcd.cases) simp_all
  let ?data = "pre @ (byte_of ?len # 0x91 # ?bcd) @ post"
  have at: "at ?data pos = Ok (byte_of ?len)" "at ?data (pos + 1) = Ok 0x91"
    by (simp_all add: assms(3) at_def nth_append)
  have sl: "slice ?data (pos + 2) (pos + 1 + ?len) = Ok ?bcd"
    by (simp add: assms(3) slice_def)
  have pos: "0 < (length ds + 1) div 2" using False by (cases ds) auto
  then have "(length ds + 1) div 2 - 1 < (length ds + 1) div 2" by linarith
  then have last: "at ?bcd ((length ds + 1) div 2 - 1) = Ok (last ?bcd)"
    using nonempty by (simp add: at_def last_conv_nth)
  have digits: "rp_decodeBCD ?bcd (if odd (length ds) then (length ds + 1) div 2 * 2 - 1 else (length ds + 1) div 2 * 2) = ds"
    using decodeBCD_from_pack [OF assms(1), of "length ds" "[]"]
    by (auto simp: rp_decodeBCD_def mult.commute elim!: oddE evenE)
  have "decodeRPAddress ?data pos = Ok (rp_decodeBCD ?bcd (if drop_bit 4 (last ?bcd) AND 0x0F = 0x0F
      then (length ds + 1) div 2 * 2 - 1 else (length ds + 1) div 2 * 2), 1 + ?len)"
    by (rule decodeRPAddress_steps [OF _ at(1) len pos _ at(2) sl last]) (simp_all add: assms(3))
  then show ?thesis unfolding pack_bcd_last [OF assms(1) False] digits by (simp add: e)
qed

section \<open>Properties\<close>

text \<open>No body makes the decoder panic.\<close>

theorem sip3gpp_decode_no_panic: "no_panic (sip3gpp_Decode now body)"
  by (auto simp: sip3gpp_Decode_def Let_def no_panic_decodeRPData no_panic_Decode at_def intro!: no_panic_obind)

text \<open>
  What is sent to a terminal reads back as the delivery that was encoded, with the reference of the relay layer;
  a message without a number of its own appears to come from the service centre.
\<close>

theorem sip3gpp_roundtrip:
  assumes "bcd_address (msg_Source m)" "wf_payload m" "wf_udh m" "msg_Timestamp m = Some t" "scts_time t"
    and "list_all is_digit sc" "length sc \<le> 508" and "sip3gpp_Encode now m mr sc = Ok body"
  shows "sip3gpp_Decode now' body = Ok (Some (rp_addresses sc [] mr (wire_deliver m t)))"
proof -
  obtain tp where tp: "EncodeDeliver now m = Ok tp" "Decode now' tp = Ok (wire_deliver m t)"
    using Decode_EncodeDeliver [OF assms(1-5)] .
  let ?oa = "encodeRPAddress sc"
  have len: "length tp \<le> 233" and body: "body = [0x01, mr] @ ?oa @ [0x00] @ [byte_of (length tp)] @ tp"
    using assms(8) by (auto simp: sip3gpp_Encode_def tp(1) Let_def split: if_splits)
  have oa: "decodeRPAddress body 2 = Ok (sc, length ?oa)"
    using decode_encodeRPAddress [OF assms(6,7), of 2 "[0x01, mr]" "[0x00, byte_of (length tp)] @ tp"] by (simp add: body)
  have split: "body = ([0x01, mr] @ ?oa) @ 0x00 # byte_of (length tp) # tp" by (simp add: body)
  have da: "decodeRPAddress body (2 + length ?oa) = Ok ([], 1)"
    unfolding split by (simp add: decodeRPAddress_def at_def nth_append)
  have l: "at body (2 + length ?oa + 1) = Ok (byte_of (length tp))" "unat (byte_of (length tp)) = length tp"
    "length body = 2 + length ?oa + 2 + length tp"
    using len unfolding split by (simp_all add: at_def nth_append)
  have ud: "slice body (2 + length ?oa + 1 + 1) (2 + length ?oa + 1 + 1 + length tp) = Ok tp"
    unfolding split by (simp add: slice_def)
  have mr: "at body 1 = Ok mr" "at body 0 = Ok 0x01" "body \<noteq> []" by (simp_all add: body)
  have "decodeRPData now' body = Ok (rp_addresses sc [] mr (wire_deliver m t))"
    by (rule decodeRPData_steps [OF _ oa da _ l(1,2) _ ud tp(2) mr(1)]) (simp_all add: l(3))
  then show ?thesis by (simp add: sip3gpp_Decode_def mr(2,3) del: at_in)
qed

text \<open>An acknowledgement carries the reference of the message it answers and no message.\<close>

theorem sip3gpp_ack: "EncodeRPAck mr b ! 1 = mr \<and> sip3gpp_Decode now (EncodeRPAck mr b) = Ok None"
  by (simp add: EncodeRPAck_def sip3gpp_Decode_def)

end
