(* ===== verification/SipSimple.thy ===== *)
theory SipSimple
  imports MsgStore
begin

text \<open>
  The bodies of SIP SIMPLE messages (\<open>internal/codec/sipsimple\<close>): plain text and CPIM envelopes, and the delivery
  notifications of \<open>internal/sip/simple/imdn.go\<close>. Case is folded for ASCII letters only.
\<close>

section \<open>The string functions used\<close>

text \<open>\<open>strings.Trim\<close>, \<open>TrimRight\<close> with a cut set of characters, and \<open>Cut\<close>.\<close>

definition trim_right :: "string \<Rightarrow> string \<Rightarrow> string" where
  "trim_right s cutset = rev (dropWhile (\<lambda>c. c \<in> set cutset) (rev s))"

definition trim_chars :: "string \<Rightarrow> string \<Rightarrow> string" where
  "trim_chars s cutset = trim_right (dropWhile (\<lambda>c. c \<in> set cutset) s) cutset"

definition str_cut :: "string \<Rightarrow> string \<Rightarrow> (string \<times> string) option" where
  "str_cut s sep = map_option (\<lambda>i. (take i s, drop (i + length sep) s)) (str_index s sep)"

abbreviation CRLF :: string where "CRLF \<equiv> [char_of (13 :: nat), char_of (10 :: nat)]"
abbreviation LF :: string where "LF \<equiv> [char_of (10 :: nat)]"

text \<open>
  The lines a \<open>bufio.Scanner\<close> finds: the line ends are cut off, and it stops at a line of 65536 octets or
  more, which does not fit into its buffer.
\<close>

fun split_lines :: "string \<Rightarrow> string list" where
  "split_lines [] = []"
| "split_lines (c # s) =
     (if c = char_of (10 :: nat) then [] # split_lines s
      else (case split_lines s of [] \<Rightarrow> [[c]] | l # ls \<Rightarrow> (c # l) # ls))"

definition drop_cr :: "string \<Rightarrow> string" where
  "drop_cr l = (if l \<noteq> [] \<and> last l = char_of (13 :: nat) then butlast l else l)"

definition scan_lines :: "string \<Rightarrow> string list" where
  "scan_lines s = map drop_cr (takeWhile (\<lambda>l. length l < 65536) (split_lines s))"

section \<open>Decoding\<close>

abbreviation ContentTypePlain :: string where "ContentTypePlain \<equiv> ''text/plain''"
abbreviation ContentTypeCPIM :: string where "ContentTypeCPIM \<equiv> ''message/cpim''"

text \<open>What stands between angle brackets, when there are any.\<close>

definition bracketed :: "string \<Rightarrow> string" where
  "bracketed addr =
     (case str_index addr ''<'' of
        Some i \<Rightarrow> (case str_index (drop i addr) ''>'' of Some j \<Rightarrow> take (j - 1) (drop (i + 1) addr) | None \<Rightarrow> addr)
      | None \<Rightarrow> addr)"

definition extractURI :: "string \<Rightarrow> string" where
  "extractURI addr = bracketed (trim_space addr)"

definition msisdnFromCPIMAddr :: "string \<Rightarrow> string" where
  "msisdnFromCPIMAddr addr =
     (let addr = bracketed (trim_space addr);
          addr = (case str_index addr '':'' of Some i \<Rightarrow> drop (i + 1) addr | None \<Rightarrow> addr);
          addr = (case str_index addr ''@'' of Some i \<Rightarrow> take i addr | None \<Rightarrow> addr);
          addr = trim_plus addr in
      if addr = [] \<or> \<not> list_all is_digit addr then [] else CHR ''+'' # addr)"

definition decodePlain :: "gotime \<Rightarrow> bytes \<Rightarrow> string \<Rightarrow> string \<Rightarrow> message" where
  "decodePlain now body src dst = empty_message\<lparr>msg_Text := trim_right (string_of_bytes body) CRLF,
     msg_Encoding := EncodingUTF8, msg_Timestamp := Some now,
     msg_Source := empty_address\<lparr>addr_MSISDN := src\<rparr>, msg_Destination := empty_address\<lparr>addr_MSISDN := dst\<rparr>\<rparr>"

text \<open>One header line; \<open>parse\<close> is \<open>time.Parse\<close> with the layout of RFC 3339.\<close>

definition cpim_address :: "string \<Rightarrow> address \<Rightarrow> address" where
  "cpim_address val a = (let m = msisdnFromCPIMAddr val; a = (if m \<noteq> [] then a\<lparr>addr_MSISDN := m\<rparr> else a) in
     a\<lparr>addr_SIPURI := extractURI val\<rparr>)"

definition cpim_header :: "(string \<Rightarrow> gotime option) \<Rightarrow> string \<Rightarrow> message \<Rightarrow> message" where
  "cpim_header parse line msg =
     (case str_cut line '':'' of
        None \<Rightarrow> msg
      | Some (k, v) \<Rightarrow>
          let key = to_lower (trim_space k); val = trim_space v in
          if key = ''from'' then msg\<lparr>msg_Source := cpim_address val (msg_Source msg)\<rparr>
          else if key = ''to'' then msg\<lparr>msg_Destination := cpim_address val (msg_Destination msg)\<rparr>
          else if key = ''datetime'' then (case parse val of Some t \<Rightarrow> msg\<lparr>msg_Timestamp := Some t\<rparr> | None \<Rightarrow> msg)
          else msg)"

definition blank_line :: "string \<Rightarrow> (string \<times> string) option" where
  "blank_line s = (case str_cut s (CRLF @ CRLF) of Some p \<Rightarrow> Some p | None \<Rightarrow> str_cut s (LF @ LF))"

definition decodeCPIM :: "(string \<Rightarrow> gotime option) \<Rightarrow> gotime \<Rightarrow> bytes \<Rightarrow> string \<Rightarrow> string \<Rightarrow> message outcome" where
  "decodeCPIM parse now body src dst =
     (let msg = empty_message\<lparr>msg_Encoding := EncodingUTF8, msg_Timestamp := Some now,
            msg_Source := empty_address\<lparr>addr_MSISDN := src\<rparr>, msg_Destination := empty_address\<lparr>addr_MSISDN := dst\<rparr>\<rparr> in
      case blank_line (string_of_bytes body) of
        None \<Rightarrow> Err ''sipsimple: malformed CPIM body''
      | Some (headerBlock, rest) \<Rightarrow>
          (let msg = fold (cpim_header parse) (scan_lines headerBlock) msg;
               payload = (case blank_line rest of Some (inner, payload) \<Rightarrow> payload | None \<Rightarrow> rest) in
           Ok (msg\<lparr>msg_Text := trim_right payload CRLF\<rparr>)))"

definition media_type :: "string \<Rightarrow> string" where
  "media_type ct = (case str_index ct '';'' of Some i \<Rightarrow> take i ct | None \<Rightarrow> ct)"

definition sipsimple_Decode :: "(string \<Rightarrow> gotime option) \<Rightarrow> gotime \<Rightarrow> bytes \<Rightarrow> string \<Rightarrow> string \<Rightarrow> string \<Rightarrow> message outcome" where
  "sipsimple_Decode parse now body contentType src dst =
     (let ct = to_lower (trim_space (media_type contentType)) in
      if ct = ContentTypePlain then Ok (decodePlain now body src dst)
      else if ct = ContentTypeCPIM then decodeCPIM parse now body src dst
      else Err ''sipsimple: unsupported content-type'')"

section \<open>Encoding\<close>

definition EncodePlain :: "message \<Rightarrow> bytes" where
  "EncodePlain msg = bytes_of_string (msg_Text msg)"

definition cpim_uri :: "string \<Rightarrow> address \<Rightarrow> string" where
  "cpim_uri uri a =
     (let uri = (if uri = [] \<and> addr_SIPURI a \<noteq> [] then addr_SIPURI a else uri) in
      if uri = [] \<and> addr_MSISDN a \<noteq> [] then ''sip:'' @ addr_MSISDN a @ ''@unknown'' else uri)"

text \<open>\<open>format\<close> writes a time in UTC in the layout of RFC 3339; a message without a time bears the present one.\<close>

definition EncodeCPIM :: "(gotime \<Rightarrow> string) \<Rightarrow> gotime \<Rightarrow> message \<Rightarrow> string \<Rightarrow> string \<Rightarrow> bytes" where
  "EncodeCPIM format now msg fromURI toURI = bytes_of_string
     (''From: <'' @ cpim_uri fromURI (msg_Source msg) @ ''>'' @ CRLF @
      ''To: <'' @ cpim_uri toURI (msg_Destination msg) @ ''>'' @ CRLF @
      ''DateTime: '' @ format (case msg_Timestamp msg of Some t \<Rightarrow> t | None \<Rightarrow> now) @ CRLF @ CRLF @
      ''Content-Type: text/plain; charset=UTF-8'' @ CRLF @ CRLF @ msg_Text msg)"

section \<open>Delivery notifications\<close>

definition IMDNBody :: "(gotime \<Rightarrow> string) \<Rightarrow> gotime \<Rightarrow> string \<Rightarrow> string \<Rightarrow> bytes" where
  "IMDNBody format now messageID status = bytes_of_string
     (''<?xml version=\"1.0\" encoding=\"UTF-8\"?>'' @ LF @
      ''<imdn xmlns=\"urn:ietf:params:xml:ns:imdn\">'' @ LF @
      ''  <message-id>'' @ messageID @ ''</message-id>'' @ LF @
      ''  <datetime>'' @ format now @ ''</datetime>'' @ LF @
      ''  <delivery-notification>'' @ LF @
      ''    <status>'' @ LF @
      ''      <'' @ status @ ''/>'' @ LF @
      ''    </status>'' @ LF @
      ''  </delivery-notification>'' @ LF @
      ''</imdn>'')"

definition ParseIMDNMessageID :: "bytes \<Rightarrow> string" where
  "ParseIMDNMessageID body =
     (let s = string_of_bytes body; open = ''<message-id>'' in
      case str_index s open of
        None \<Rightarrow> []
      | Some i \<Rightarrow> (let rest = drop (i + length open) s in
          case str_index rest ''</message-id>'' of None \<Rightarrow> [] | Some j \<Rightarrow> take j rest))"


section \<open>Lemmas\<close>

lemma str_cut_at: "\<forall>c \<in> set l. c \<noteq> x \<Longrightarrow> str_cut (l @ (x # sub) @ s) (x # sub) = Some (l, s)"
  by (simp only: str_cut_def str_index_at) simp

definition graphic :: "char \<Rightarrow> bool" where
  "graphic c \<longleftrightarrow> 33 \<le> (of_char c :: nat) \<and> (of_char c :: nat) \<le> 126"

lemma space_seqs_first: "q \<in> set space_seqs \<or> q \<in> set (map rev space_seqs) \<Longrightarrow> q \<noteq> [] \<Longrightarrow> hd q < 33 \<or> 126 < hd q"
  by (auto simp: space_seqs_def)

lemma trim_by_graphic:
  assumes "\<And>q. q \<in> set seqs \<Longrightarrow> q \<noteq> [] \<Longrightarrow> hd q < 33 \<or> 126 < hd q" "33 \<le> n" "n \<le> 126"
  shows "trim_by seqs (n # s) = n # s"
proof -
  have "\<not> has_prefix q (n # s)" if "q \<in> set seqs" "q \<noteq> []" for q
    using assms(1) [OF that] assms(2,3) that(2) by (cases q) auto
  then have "find (\<lambda>q. q \<noteq> [] \<and> has_prefix q (n # s)) seqs = None" by (auto simp: find_None_iff)
  then show ?thesis by (simp add: trim_by.simps)
qed

lemma trim_space_graphic:
  assumes "s \<noteq> []" "graphic (hd s)" "graphic (last s)"
  shows "trim_space s = s"
proof -
  have a: "trim_by space_seqs (map of_char s) = map of_char s"
    using trim_by_graphic [of space_seqs "of_char (hd s)" "map of_char (tl s)"] space_seqs_first assms by (cases s) (auto simp: graphic_def)
  have "rev (map of_char s :: nat list) = of_char (last s) # map of_char (tl (rev s))"
    using assms(1) by (simp add: rev_map) (metis hd_Cons_tl hd_rev list.simps(9) rev_is_Nil_conv)
  then have b: "trim_by (map rev space_seqs) (rev (map of_char s)) = rev (map of_char s)"
    using trim_by_graphic [of "map rev space_seqs" "of_char (last s)" "map of_char (tl (rev s))"] space_seqs_first assms
    by (simp add: graphic_def)
  show ?thesis by (simp add: trim_space_def a b comp_def)
qed

lemma trim_space_blank: "s \<noteq> [] \<Longrightarrow> graphic (hd s) \<Longrightarrow> graphic (last s) \<Longrightarrow> trim_space (CHR '' '' # s) = s"
proof -
  assume s: "s \<noteq> []" "graphic (hd s)" "graphic (last s)"
  have "trim_by space_seqs (map of_char (CHR '' '' # s)) = trim_by space_seqs (map of_char s)"
    by (subst trim_by.simps) (simp add: space_seqs_def)
  then show ?thesis using trim_space_graphic [OF s] by (simp add: trim_space_def)
qed

text \<open>An address between brackets.\<close>

definition plain_uri :: "string \<Rightarrow> bool" where
  "plain_uri u \<longleftrightarrow> (\<forall>c \<in> set u. c \<noteq> CHR ''<'' \<and> c \<noteq> CHR ''>'' \<and> c \<noteq> char_of (13 :: nat) \<and> c \<noteq> char_of (10 :: nat))"

lemma bracketed_uri: "plain_uri u \<Longrightarrow> bracketed (''<'' @ u @ ''>'') = u"
proof -
  assume u: "plain_uri u"
  have "str_index (''<'' @ u @ ''>'') ''<'' = Some 0" by simp
  moreover have "str_index ((''<'' @ u) @ ''>'' @ []) ''>'' = Some (length (''<'' @ u))"
    by (rule str_index_at) (use u in \<open>auto simp: plain_uri_def\<close>)
  ultimately show ?thesis by (simp add: bracketed_def)
qed

lemma trim_bracketed: "trim_space (''<'' @ u @ ''>'') = ''<'' @ u @ ''>''" "trim_space ('' <'' @ u @ ''>'') = ''<'' @ u @ ''>''"
  using trim_space_graphic [of "''<'' @ u @ ''>''"] trim_space_blank [of "''<'' @ u @ ''>''"] by (simp_all add: graphic_def)

lemma extractURI_bracketed: "plain_uri u \<Longrightarrow> extractURI (''<'' @ u @ ''>'') = u"
  unfolding extractURI_def trim_bracketed by (rule bracketed_uri)

lemma digit_not: "is_digit c \<Longrightarrow> c \<noteq> CHR ''@'' \<and> c \<noteq> CHR ''<'' \<and> c \<noteq> CHR ''>'' \<and> c \<noteq> char_of (13 :: nat) \<and> c \<noteq> char_of (10 :: nat)"
  by (auto simp: is_digit_def)

lemma plain_uri_append: "plain_uri (a @ b) \<longleftrightarrow> plain_uri a \<and> plain_uri b"
  by (auto simp: plain_uri_def)

lemma plain_digits: "list_all is_digit ds \<Longrightarrow> plain_uri ds"
  by (simp add: plain_uri_def list_all_iff digit_not)

lemma plain_parts: "plain_uri ''sip:+''" "plain_uri ''@''"
  by (simp_all add: plain_uri_def char_of_def)

lemma colon_at: "str_index (''sip:+'' @ s) '':'' = Some 3"
  by simp

lemma msisdn_sip_uri:
  assumes "list_all is_digit ds" "ds \<noteq> []" "plain_uri host"
  shows "msisdnFromCPIMAddr (''<'' @ (''sip:+'' @ ds @ ''@'' @ host) @ ''>'') = CHR ''+'' # ds"
proof -
  define u where "u = ''sip:+'' @ ds @ ''@'' @ host"
  have "plain_uri u" unfolding u_def by (simp only: plain_uri_append plain_parts plain_digits [OF assms(1)] assms(3))
  from extractURI_bracketed [OF this] have b: "bracketed (trim_space (''<'' @ u @ ''>'')) = u"
    unfolding extractURI_def .
  have colon: "str_index u '':'' = Some 3" unfolding u_def by (rule colon_at)
  have "\<forall>c \<in> set (CHR ''+'' # ds). c \<noteq> CHR ''@''" using assms(1) by (auto simp: list_all_iff dest: digit_not)
  then have at: "str_index ((CHR ''+'' # ds) @ ''@'' @ host) ''@'' = Some (length (CHR ''+'' # ds))"
    by (rule str_index_at)
  have drop: "drop (3 + 1) u = (CHR ''+'' # ds) @ ''@'' @ host" by (simp add: u_def)
  have tk: "take (length (CHR ''+'' # ds)) ((CHR ''+'' # ds) @ ''@'' @ host) = CHR ''+'' # ds" by simp
  show ?thesis
    unfolding u_def [symmetric] msisdnFromCPIMAddr_def b colon Let_def option.case drop at tk
    using assms(1,2) by (simp add: trim_plus.simps)
qed


text \<open>A header line: no line ends in it.\<close>

definition one_line :: "string \<Rightarrow> bool" where
  "one_line l \<longleftrightarrow> (\<forall>c \<in> set l. c \<noteq> char_of (13 :: nat) \<and> c \<noteq> char_of (10 :: nat))"

lemma one_line_append: "one_line (a @ b) \<longleftrightarrow> one_line a \<and> one_line b"
  by (auto simp: one_line_def)

lemma one_line_parts: "one_line ''From: <''" "one_line ''To: <''" "one_line ''>''" "one_line ''DateTime: ''"
  "one_line ''Content-Type: text/plain; charset=UTF-8''"
  by (simp_all add: one_line_def char_of_def)

lemma one_line_uri: "plain_uri u \<Longrightarrow> one_line u"
  by (simp add: one_line_def plain_uri_def)

lemma split_one_line: "one_line l \<Longrightarrow> split_lines l = (if l = [] then [] else [l])"
  by (induction l) (auto simp: one_line_def)

lemma split_first_line: "one_line l \<Longrightarrow> split_lines ((l @ [char_of (13 :: nat)]) @ char_of (10 :: nat) # s) = (l @ [char_of (13 :: nat)]) # split_lines s"
proof (induction l)
  case Nil
  then show ?case by (simp add: char_of_def)
next
  case (Cons c l)
  then have "c \<noteq> char_of (10 :: nat)" "one_line l" by (simp_all add: one_line_def)
  with Cons.IH show ?case by simp
qed

lemma drop_cr_line: "drop_cr (l @ [char_of (13 :: nat)]) = l" "one_line l \<Longrightarrow> drop_cr l = l"
  by (auto simp: drop_cr_def one_line_def dest: last_in_set)

lemma scan_line:
  "one_line l \<Longrightarrow> length l < 65535 \<Longrightarrow> scan_lines (l @ CRLF @ s) = l # scan_lines s"
  "one_line l \<Longrightarrow> length l < 65536 \<Longrightarrow> l \<noteq> [] \<Longrightarrow> scan_lines l = [l]"
  using split_first_line [of l s] by (simp_all add: scan_lines_def split_one_line drop_cr_line)

text \<open>The blank line after a block of header lines.\<close>

lemma str_cut_index: "str_index (l @ sep @ s) sep = Some (length l) \<Longrightarrow> str_cut (l @ sep @ s) sep = Some (l, s)"
  by (simp add: str_cut_def)

lemma blank_cut: "str_index (l @ (CRLF @ CRLF) @ s) (CRLF @ CRLF) = Some (length l) \<Longrightarrow> blank_line (l @ (CRLF @ CRLF) @ s) = Some (l, s)"
  unfolding blank_line_def by (drule str_cut_index) (simp only: option.case)

lemma blank_not_first: "s \<noteq> [] \<Longrightarrow> hd s \<noteq> char_of (13 :: nat) \<Longrightarrow>
    str_index (CRLF @ s) (CRLF @ CRLF) = map_option ((+) 2) (str_index s (CRLF @ CRLF))"
  by (cases s; cases "str_index s (CRLF @ CRLF)") (auto simp: char_of_def)

lemma blank_skip:
  assumes "one_line l" "s \<noteq> []" "hd s \<noteq> char_of (13 :: nat)"
  shows "str_index (l @ CRLF @ s) (CRLF @ CRLF) = map_option ((+) (length l + 2)) (str_index s (CRLF @ CRLF))"
proof -
  have "\<forall>c \<in> set l. c \<noteq> char_of (13 :: nat)" using assms(1) by (simp add: one_line_def)
  from str_index_skip [OF this, of "CRLF @ s" "char_of (10 :: nat) # CRLF"]
  have "str_index (l @ CRLF @ s) (CRLF @ CRLF) = map_option ((+) (length l)) (str_index (CRLF @ s) (CRLF @ CRLF))" by simp
  also have "\<dots> = map_option ((+) (length l + 2)) (str_index s (CRLF @ CRLF))"
    unfolding blank_not_first [OF assms(2,3)] by (cases "str_index s (CRLF @ CRLF)") simp_all
  finally show ?thesis .
qed

lemma blank_here:
  assumes "one_line l"
  shows "str_index (l @ (CRLF @ CRLF) @ s) (CRLF @ CRLF) = Some (length l)"
proof -
  have "\<forall>c \<in> set l. c \<noteq> char_of (13 :: nat)" using assms by (simp add: one_line_def)
  from str_index_at [OF this, of "char_of (10 :: nat) # CRLF" s] show ?thesis by simp
qed

lemma blank_after:
  assumes "one_line a" "one_line b" "one_line c" "b \<noteq> []" "c \<noteq> []"
  shows "blank_line ((a @ CRLF @ b @ CRLF @ c) @ (CRLF @ CRLF) @ s) = Some (a @ CRLF @ b @ CRLF @ c, s)"
proof -
  have c: "hd b \<noteq> char_of (13 :: nat)" "hd c \<noteq> char_of (13 :: nat)"
    using assms(2-5) by (auto simp: one_line_def neq_Nil_conv)
  have "str_index (b @ CRLF @ c @ (CRLF @ CRLF) @ s) (CRLF @ CRLF) = Some (length b + 2 + length c)"
    using blank_skip [OF assms(2), of "c @ (CRLF @ CRLF) @ s"] blank_here [OF assms(3), of s] assms(5) c(2) by simp
  then have "str_index (a @ CRLF @ b @ CRLF @ c @ (CRLF @ CRLF) @ s) (CRLF @ CRLF) = Some (length a + 2 + (length b + 2 + length c))"
    using blank_skip [OF assms(1), of "b @ CRLF @ c @ (CRLF @ CRLF) @ s"] assms(4) c(1) by simp
  then have "str_index ((a @ CRLF @ b @ CRLF @ c) @ (CRLF @ CRLF) @ s) (CRLF @ CRLF) = Some (length (a @ CRLF @ b @ CRLF @ c))"
    by (simp del: str_index.simps)
  then show ?thesis by (rule blank_cut)
qed

lemma blank_after_one: "one_line a \<Longrightarrow> blank_line (a @ (CRLF @ CRLF) @ s) = Some (a, s)"
  by (rule blank_cut) (rule blank_here)


text \<open>One header line after another.\<close>

lemma cpim_from:
  assumes "plain_uri u"
  shows "cpim_header parse (''From: <'' @ u @ ''>'') m = m\<lparr>msg_Source := cpim_address (''<'' @ u @ ''>'') (msg_Source m)\<rparr>"
    and "cpim_header parse (''To: <'' @ u @ ''>'') m = m\<lparr>msg_Destination := cpim_address (''<'' @ u @ ''>'') (msg_Destination m)\<rparr>"
proof -
  have "trim_space ''From'' = ''From''" "trim_space ''To'' = ''To''"
    by (rule trim_space_graphic; simp add: graphic_def)+
  moreover have "str_cut (''From: <'' @ u @ ''>'') '':'' = Some (''From'', '' <'' @ u @ ''>'')"
    "str_cut (''To: <'' @ u @ ''>'') '':'' = Some (''To'', '' <'' @ u @ ''>'')"
    by (simp_all add: str_cut_def)
  moreover have "to_lower ''From'' = ''from''" "to_lower ''To'' = ''to''"
    by code_simp+
  ultimately show "cpim_header parse (''From: <'' @ u @ ''>'') m = m\<lparr>msg_Source := cpim_address (''<'' @ u @ ''>'') (msg_Source m)\<rparr>"
    "cpim_header parse (''To: <'' @ u @ ''>'') m = m\<lparr>msg_Destination := cpim_address (''<'' @ u @ ''>'') (msg_Destination m)\<rparr>"
    unfolding cpim_header_def by (simp_all only: option.case prod.case Let_def trim_bracketed) simp_all
qed

lemma cpim_datetime:
  assumes "v \<noteq> []" "graphic (hd v)" "graphic (last v)" "parse v = Some t"
  shows "cpim_header parse (''DateTime: '' @ v) m = m\<lparr>msg_Timestamp := Some t\<rparr>"
proof -
  have "trim_space ''DateTime'' = ''DateTime''" by (rule trim_space_graphic; simp add: graphic_def)
  moreover have "str_cut (''DateTime: '' @ v) '':'' = Some (''DateTime'', CHR '' '' # v)" by (simp add: str_cut_def)
  moreover have "to_lower ''DateTime'' = ''datetime''" by code_simp
  ultimately show ?thesis
    unfolding cpim_header_def using trim_space_blank [OF assms(1-3)] assms(4)
    by (simp only: option.case prod.case Let_def) simp
qed

lemma cpim_address_sip:
  assumes "list_all is_digit ds" "ds \<noteq> []" "plain_uri host"
  shows "cpim_address (''<'' @ (''sip:+'' @ ds @ ''@'' @ host) @ ''>'') a =
    a\<lparr>addr_MSISDN := CHR ''+'' # ds, addr_SIPURI := ''sip:+'' @ ds @ ''@'' @ host\<rparr>"
proof -
  have "plain_uri (''sip:+'' @ ds @ ''@'' @ host)"
    by (simp only: plain_uri_append plain_parts plain_digits [OF assms(1)] assms(3))
  from extractURI_bracketed [OF this] show ?thesis
    unfolding cpim_address_def msisdn_sip_uri [OF assms] by (simp only: Let_def) simp
qed


section \<open>What a peer sends comes back\<close>

lemma trim_right_none: "s = [] \<or> last s \<notin> set cs \<Longrightarrow> trim_right s cs = s"
  by (cases s rule: rev_cases) (auto simp: trim_right_def)

text \<open>An address the gateway writes for a number at a host.\<close>

definition number_uri :: "string \<Rightarrow> string \<Rightarrow> string" where
  "number_uri ds host = ''sip:+'' @ ds @ ''@'' @ host"

definition number_ok :: "string \<Rightarrow> string \<Rightarrow> bool" where
  "number_ok ds host \<longleftrightarrow> list_all is_digit ds \<and> ds \<noteq> [] \<and> plain_uri host \<and> length ds + length host < 65000"

lemma number_uri_plain: "number_ok ds host \<Longrightarrow> plain_uri (number_uri ds host)"
  unfolding number_ok_def number_uri_def by (simp only: plain_uri_append plain_parts plain_digits)

lemma number_uri_not_empty: "number_uri ds host \<noteq> []" "length (number_uri ds host) = length ds + length host + 6"
  by (simp_all add: number_uri_def)

definition time_ok :: "string \<Rightarrow> bool" where
  "time_ok v \<longleftrightarrow> v \<noteq> [] \<and> graphic (hd v) \<and> graphic (last v) \<and> one_line v \<and> length v < 65000"

lemma cpim_headers:
  assumes "plain_uri u1" "length u1 < 65500" "plain_uri u2" "length u2 < 65500" "time_ok v" "parse v = Some t"
  shows "fold (cpim_header parse) (scan_lines ((''From: <'' @ u1 @ ''>'') @ CRLF @ (''To: <'' @ u2 @ ''>'') @ CRLF @ ''DateTime: '' @ v)) m =
    m\<lparr>msg_Source := cpim_address (''<'' @ u1 @ ''>'') (msg_Source m),
      msg_Destination := cpim_address (''<'' @ u2 @ ''>'') (msg_Destination m), msg_Timestamp := Some t\<rparr>"
proof -
  have l: "one_line (''From: <'' @ u1 @ ''>'')" "one_line (''To: <'' @ u2 @ ''>'')" "one_line (''DateTime: '' @ v)"
    using assms(5) by (simp_all only: one_line_append one_line_parts one_line_uri [OF assms(1)] one_line_uri [OF assms(3)] time_ok_def)
  have s: "scan_lines ((''From: <'' @ u1 @ ''>'') @ CRLF @ (''To: <'' @ u2 @ ''>'') @ CRLF @ ''DateTime: '' @ v) =
      [''From: <'' @ u1 @ ''>'', ''To: <'' @ u2 @ ''>'', ''DateTime: '' @ v]"
    by (subst scan_line(1) [OF l(1)], use assms in simp, subst scan_line(1) [OF l(2)], use assms in simp,
        subst scan_line(2) [OF l(3)]) (use assms in \<open>auto simp: time_ok_def\<close>)
  have v: "v \<noteq> []" "graphic (hd v)" "graphic (last v)" using assms(5) by (simp_all add: time_ok_def)
  show ?thesis
    unfolding s list.map fold_simps cpim_from(1) [OF assms(1)] cpim_from(2) [OF assms(3)] cpim_datetime [where parse = parse, OF v assms(6)] by simp
qed

text \<open>The body the encoder writes, in the shape the decoder takes apart.\<close>

lemma EncodeCPIM_shape:
  assumes "fromURI \<noteq> []" "toURI \<noteq> []" "msg_Timestamp msg = Some t"
  shows "string_of_bytes (EncodeCPIM format now msg fromURI toURI) =
    ((''From: <'' @ fromURI @ ''>'') @ CRLF @ (''To: <'' @ toURI @ ''>'') @ CRLF @ ''DateTime: '' @ format t) @ (CRLF @ CRLF) @
    ''Content-Type: text/plain; charset=UTF-8'' @ (CRLF @ CRLF) @ msg_Text msg"
  using assms by (simp add: EncodeCPIM_def cpim_uri_def Let_def del: bytes_of_string_simps)

lemma cpim_decoded:
  assumes "number_ok s host" "number_ok d host'" "msg_Timestamp msg = Some t"
    "time_ok (format t)" "parse (format t) = Some t'"
    "msg_Text msg = [] \<or> last (msg_Text msg) \<notin> set CRLF"
  shows "decodeCPIM parse now (EncodeCPIM format now' msg (number_uri s host) (number_uri d host')) src dst =
    Ok (empty_message\<lparr>msg_Encoding := EncodingUTF8, msg_Timestamp := Some t', msg_Text := msg_Text msg,
      msg_Source := empty_address\<lparr>addr_MSISDN := CHR ''+'' # s, addr_SIPURI := number_uri s host\<rparr>,
      msg_Destination := empty_address\<lparr>addr_MSISDN := CHR ''+'' # d, addr_SIPURI := number_uri d host'\<rparr>\<rparr>)"
proof -
  let ?u1 = "number_uri s host" and ?u2 = "number_uri d host'" and ?v = "format t"
  note p = number_uri_plain [OF assms(1)] number_uri_plain [OF assms(2)]
  have l: "one_line (''From: <'' @ ?u1 @ ''>'')" "one_line (''To: <'' @ ?u2 @ ''>'')" "one_line (''DateTime: '' @ ?v)"
    using assms(4) by (simp_all only: one_line_append one_line_parts one_line_uri [OF p(1)] one_line_uri [OF p(2)] time_ok_def)
  have n: "''To: <'' @ ?u2 @ ''>'' \<noteq> []" "''DateTime: '' @ ?v \<noteq> []" by simp_all
  have len: "length ?u1 < 65500" "length ?u2 < 65500" using assms(1,2) by (simp_all add: number_uri_not_empty number_ok_def)
  have a: "cpim_address (''<'' @ ?u1 @ ''>'') a = a\<lparr>addr_MSISDN := CHR ''+'' # s, addr_SIPURI := ?u1\<rparr>"
    "cpim_address (''<'' @ ?u2 @ ''>'') a = a\<lparr>addr_MSISDN := CHR ''+'' # d, addr_SIPURI := ?u2\<rparr>" for a
    using assms(1,2) unfolding number_uri_def number_ok_def by (blast intro: cpim_address_sip)+
  have e: "trim_right (msg_Text msg) CRLF = msg_Text msg" by (rule trim_right_none) (rule assms(6))
  show ?thesis
    unfolding decodeCPIM_def Let_def
      EncodeCPIM_shape [OF number_uri_not_empty(1) number_uri_not_empty(1) assms(3)]
      blank_after [OF l n] option.case prod.case blank_after_one [OF one_line_parts(5)]
      cpim_headers [where parse = parse, OF p(1) len(1) p(2) len(2) assms(4,5)] a e
    by simp
qed

text \<open>
  A message written as CPIM by one site is read by another with its text, time, and the number and URI of both
  parties, whatever numbers the SIP headers of the request gave.
\<close>

theorem cpim_roundtrip:
  assumes "number_ok s host" "number_ok d host'" "msg_Timestamp msg = Some t"
    "time_ok (format t)" "parse (format t) = Some t'"
    "msg_Text msg = [] \<or> last (msg_Text msg) \<notin> set CRLF"
  shows "sipsimple_Decode parse now (EncodeCPIM format now' msg (number_uri s host) (number_uri d host')) ''Message/CPIM; charset=UTF-8'' src dst =
    Ok (empty_message\<lparr>msg_Encoding := EncodingUTF8, msg_Timestamp := Some t', msg_Text := msg_Text msg,
      msg_Source := empty_address\<lparr>addr_MSISDN := CHR ''+'' # s, addr_SIPURI := number_uri s host\<rparr>,
      msg_Destination := empty_address\<lparr>addr_MSISDN := CHR ''+'' # d, addr_SIPURI := number_uri d host'\<rparr>\<rparr>)"
proof -
  have ct: "to_lower (trim_space (media_type ''Message/CPIM; charset=UTF-8'')) = ContentTypeCPIM" by code_simp
  have ne: "ContentTypeCPIM \<noteq> ContentTypePlain" by simp
  show ?thesis
    unfolding sipsimple_Decode_def ct Let_def if_not_P [OF ne] cpim_decoded [where parse = parse and format = format, OF assms] by simp
qed

lemma cpim_roundtrip_witness:
  "sipsimple_Decode (\<lambda>s. if s = ''T1'' then Some (go_date 2024 1 1 0 0 0 0) else None) (go_date 2024 5 1 0 0 0 0)
     (EncodeCPIM (\<lambda>_. ''T1'') (go_date 2024 6 1 0 0 0 0) (empty_message\<lparr>msg_Text := ''hi'', msg_Timestamp := Some (go_date 2024 1 1 0 0 0 0)\<rparr>)
       (number_uri ''3311'' ''a.net'') (number_uri ''3322'' ''b.net'')) ''Message/CPIM; charset=UTF-8'' ''x'' ''y'' =
   Ok (empty_message\<lparr>msg_Encoding := EncodingUTF8, msg_Timestamp := Some (go_date 2024 1 1 0 0 0 0), msg_Text := ''hi'',
      msg_Source := empty_address\<lparr>addr_MSISDN := ''+3311'', addr_SIPURI := number_uri ''3311'' ''a.net''\<rparr>,
      msg_Destination := empty_address\<lparr>addr_MSISDN := ''+3322'', addr_SIPURI := number_uri ''3322'' ''b.net''\<rparr>\<rparr>)"
  using cpim_roundtrip [of "''3311''" "''a.net''" "''3322''" "''b.net''"
    "empty_message\<lparr>msg_Text := ''hi'', msg_Timestamp := Some (go_date 2024 1 1 0 0 0 0)\<rparr>" "go_date 2024 1 1 0 0 0 0" "\<lambda>_. ''T1''"
    "\<lambda>s. if s = ''T1'' then Some (go_date 2024 1 1 0 0 0 0) else None" "go_date 2024 1 1 0 0 0 0"]
  by (simp add: number_ok_def time_ok_def plain_uri_def one_line_def graphic_def is_digit_def char_of_def)


text \<open>The identifier of a delivery notification comes back, when it holds no angle bracket.\<close>

theorem imdn_roundtrip:
  assumes "\<forall>c \<in> set messageID. c \<noteq> CHR ''<''"
  shows "ParseIMDNMessageID (IMDNBody format now messageID status) = messageID"
proof -
  define h where "h = ''<?xml version=\"1.0\" encoding=\"UTF-8\"?>'' @ LF @ ''<imdn xmlns=\"urn:ietf:params:xml:ns:imdn\">'' @ LF @ ''  ''"
  define r where "r = LF @ ''  <datetime>'' @ format now @ ''</datetime>'' @ LF @
      ''  <delivery-notification>'' @ LF @ ''    <status>'' @ LF @ ''      <'' @ status @ ''/>'' @ LF @
      ''    </status>'' @ LF @ ''  </delivery-notification>'' @ LF @ ''</imdn>''"
  have s: "string_of_bytes (IMDNBody format now messageID status) = h @ ''<message-id>'' @ messageID @ ''</message-id>'' @ r"
    by (simp add: IMDNBody_def h_def r_def del: bytes_of_string_simps)
  have "str_index (h @ ''<message-id>'') ''<message-id>'' = Some (length h)"
    unfolding h_def by code_simp
  then have i: "str_index (h @ ''<message-id>'' @ messageID @ ''</message-id>'' @ r) ''<message-id>'' = Some (length h)"
    by (rule str_index_append)
  have j: "str_index (messageID @ ''</message-id>'' @ r) ''</message-id>'' = Some (length messageID)"
    by (rule str_index_at) (rule assms)
  have d: "drop (length h + length ''<message-id>'') (h @ ''<message-id>'' @ messageID @ ''</message-id>'' @ r) =
      messageID @ ''</message-id>'' @ r" by simp
  show ?thesis
    unfolding ParseIMDNMessageID_def s Let_def i option.case d j by simp
qed

lemma imdn_roundtrip_witness:
  "ParseIMDNMessageID (IMDNBody (\<lambda>_. ''T'') (go_date 2024 1 1 0 0 0 0) ''id-1'' ''delivered'') = ''id-1''"
  by (rule imdn_roundtrip) simp

end
