(* ===== verification/SipMessages.thy ===== *)
theory SipMessages
  imports SgdServer Registry Sip3gpp SipSimple
begin

text \<open>
  The SIP interfaces (\<open>internal/sip/isc\<close>, \<open>internal/sip/simple\<close> and the routing of requests in
  \<open>cmd/smsc/main.go\<close>): requests as the SIP library hands them over, what the handlers do with them, the
  registrations they write, and the two senders. URIs are the library's: they are parsed by a parameter.
  Case is folded for ASCII letters only.
\<close>

section \<open>Requests\<close>

text \<open>
  A request as its accessors show it: the values of its headers, and the text of the addresses in its
  request line and in From and To.
\<close>

record sip_request =
  rq_Recipient :: string
  rq_From :: "string option"
  rq_To :: "string option"
  rq_Via :: "(string \<times> int) option"
  rq_CallID :: "string option"
  rq_ContentType :: "string option"
  rq_InReplyTo :: "string option"
  rq_PAI :: "string option"
  rq_PAU :: "string option"
  rq_Contact :: "string option"
  rq_Expires :: "string option"
  rq_SubscriptionState :: "string option"
  rq_Body :: bytes

text \<open>What a handler does: answering, handing a message or a result on, and reporting to the sender.\<close>

datatype sip_act =
    Respond nat string
  | SubmitReport byte
  | OnMessage message
  | OnResult string bytes

definition itoa :: "int \<Rightarrow> string" where
  "itoa n = (if n < 0 then CHR ''-'' # decimal (nat (- n)) else decimal (nat n))"

definition peerFromVia :: "sip_request \<Rightarrow> string" where
  "peerFromVia req =
     (case rq_Via req of
        None \<Rightarrow> []
      | Some (host, port) \<Rightarrow> if port > 0 then host @ '':'' @ itoa port else host)"

definition strip_scheme :: "string \<Rightarrow> string" where
  "strip_scheme uri =
     (case find (\<lambda>pfx. has_prefix pfx (to_lower uri)) [''sip:'', ''sips:'', ''tel:''] of
        Some pfx \<Rightarrow> drop (length pfx) uri
      | None \<Rightarrow> uri)"

definition before :: "char \<Rightarrow> string \<Rightarrow> string" where
  "before c s = (case str_index s [c] of Some i \<Rightarrow> take i s | None \<Rightarrow> s)"

definition msisdnFromURI :: "string \<Rightarrow> string" where
  "msisdnFromURI uri =
     (let uri = trim_chars (trim_space uri) ''<>'';
          uri = strip_scheme uri;
          uri = before (CHR ''@'') uri;
          uri = trim_plus uri in
      before (CHR '';'') uri)"

section \<open>Messages of IMS terminals\<close>

abbreviation ContentType3GPP :: string where "ContentType3GPP \<equiv> ''application/vnd.3gpp.sms''"

text \<open>The three members of a handler that may be absent.\<close>

record isc_handler =
  ih_OnMessage :: bool
  ih_OnResult :: bool
  ih_Client :: bool

definition isc_addressed :: "sip_request \<Rightarrow> message \<Rightarrow> message" where
  "isc_addressed req msg =
     (let msg = msg\<lparr>msg_IngressInterface := InterfaceSIP3GPP, msg_IngressPeer := peerFromVia req\<rparr>;
          msg = (case rq_PAI req of
              Some pai \<Rightarrow> if addr_MSISDN (msg_Source msg) = []
                then msg\<lparr>msg_Source := (msg_Source msg)\<lparr>addr_MSISDN := msisdnFromURI pai, addr_SIPURI := trim_space pai\<rparr>\<rparr>
                else msg
            | None \<Rightarrow> msg) in
      if addr_MSISDN (msg_Destination msg) = []
      then msg\<lparr>msg_Destination := (msg_Destination msg)\<lparr>addr_MSISDN := msisdnFromURI (rq_Recipient req),
          addr_SIPURI := rq_Recipient req\<rparr>\<rparr>
      else msg)"

definition isc_Handle :: "gotime \<Rightarrow> isc_handler \<Rightarrow> sip_request \<Rightarrow> sip_act list outcome" where
  "isc_Handle now h req =
     (if \<not> (case rq_ContentType req of None \<Rightarrow> False | Some ct \<Rightarrow> to_lower (trim_space ct) = ContentType3GPP)
      then Ok [Respond 415 ''Unsupported Media Type'']
      else if rq_Body req = [] then Ok [Respond 400 ''Empty body'']
      else (case sip3gpp_Decode now (rq_Body req) of
          Panic \<Rightarrow> Panic
        | Err e \<Rightarrow> Ok [Respond 400 ''Bad Request'']
        | Ok None \<Rightarrow>
            (let inReplyTo = (case rq_InReplyTo req of Some v \<Rightarrow> trim_space v | None \<Rightarrow> []) in
             Ok ((if ih_OnResult h \<and> inReplyTo \<noteq> [] then [OnResult inReplyTo (rq_Body req)] else []) @ [Respond 200 ''OK'']))
        | Ok (Some msg) \<Rightarrow>
            (let msg = isc_addressed req msg in
             Ok ([Respond 200 ''OK''] @ (if ih_Client h then [SubmitReport (msg_RPMR msg)] else []) @
                 (if ih_OnMessage h then [OnMessage msg] else [])))))"

section \<open>Messages of other sites\<close>

definition simple_Handle :: "(string \<Rightarrow> gotime option) \<Rightarrow> gotime \<Rightarrow> bool \<Rightarrow> sip_request \<Rightarrow> sip_act list outcome" where
  "simple_Handle parse now on req =
     (let ct = (case rq_ContentType req of Some v \<Rightarrow> trim_space v | None \<Rightarrow> []);
          ctLower = to_lower (before (CHR '';'') ct) in
      if ctLower \<noteq> ContentTypePlain \<and> ctLower \<noteq> ContentTypeCPIM then Ok [Respond 415 ''Unsupported Media Type'']
      else if rq_Body req = [] then Ok [Respond 400 ''Empty body'']
      else (case sipsimple_Decode parse now (rq_Body req) ct
              (case rq_From req of Some from \<Rightarrow> msisdnFromURI from | None \<Rightarrow> []) (msisdnFromURI (rq_Recipient req)) of
          Panic \<Rightarrow> Panic
        | Err e \<Rightarrow> Ok [Respond 400 ''Bad Request'']
        | Ok msg \<Rightarrow>
            (let msg = msg\<lparr>msg_IngressInterface := InterfaceSIPSimple, msg_IngressPeer := peerFromVia req\<rparr>;
                 msg = (case rq_CallID req of Some callID \<Rightarrow> msg\<lparr>msg_ID := callID\<rparr> | None \<Rightarrow> msg) in
             Ok ([Respond 200 ''OK''] @ (if on then [OnMessage msg] else [])))))"

text \<open>The choice \<open>main\<close> makes between the two by the first 19 octets of the content type.\<close>

definition sip_onMessage :: "(string \<Rightarrow> gotime option) \<Rightarrow> gotime \<Rightarrow> isc_handler \<Rightarrow> bool \<Rightarrow> sip_request \<Rightarrow> sip_act list outcome" where
  "sip_onMessage parse now h on req =
     (let ct = (case rq_ContentType req of Some v \<Rightarrow> v | None \<Rightarrow> []) in
      if length ct \<ge> 19 \<and> take 19 ct = ''application/vnd.3gp'' then isc_Handle now h req else simple_Handle parse now on req)"

section \<open>Registrations\<close>

text \<open>\<open>unicode.IsDigit\<close>: the decimal digits of Unicode 15.\<close>

definition digit_ranges :: "(rune \<times> rune) list" where
  "digit_ranges = map (\<lambda>z. (z, z + 9))
     [0x30, 0x660, 0x6F0, 0x7C0, 0x966, 0x9E6, 0xA66, 0xAE6, 0xB66, 0xBE6, 0xC66, 0xCE6, 0xD66, 0xDE6, 0xE50, 0xED0,
      0xF20, 0x1040, 0x1090, 0x17E0, 0x1810, 0x1946, 0x19D0, 0x1A80, 0x1A90, 0x1B50, 0x1BB0, 0x1C40, 0x1C50, 0xA620,
      0xA8D0, 0xA900, 0xA9D0, 0xA9F0, 0xAA50, 0xABF0, 0xFF10, 0x104A0, 0x10D30, 0x11066, 0x110F0, 0x11136, 0x111D0,
      0x112F0, 0x11450, 0x114D0, 0x11650, 0x116C0, 0x11730, 0x118E0, 0x11950, 0x11C50, 0x11D50, 0x11DA0, 0x11F50,
      0x16A60, 0x16AC0, 0x16B50, 0x1E140, 0x1E2F0, 0x1E4F0, 0x1E950, 0x1FBF0] @ [(0x1D7CE, 0x1D7FF)]"

definition unicode_IsDigit :: "rune \<Rightarrow> bool" where
  "unicode_IsDigit r \<longleftrightarrow> list_ex (\<lambda>(a, b). a \<le> r \<and> r \<le> b) digit_ranges"

definition isIMSI :: "string \<Rightarrow> bool" where
  "isIMSI s \<longleftrightarrow> length s = 15 \<and> list_all unicode_IsDigit (runes_of s)"

text \<open>\<open>strconv.Atoi\<close> on a 64-bit machine.\<close>

definition Atoi :: "string \<Rightarrow> int option" where
  "Atoi s =
     (let (neg, ds) = (case s of c # r \<Rightarrow> if c = CHR ''-'' then (True, r) else if c = CHR ''+'' then (False, r) else (False, s)
          | [] \<Rightarrow> (False, []));
          v = foldl (\<lambda>a d. 10 * a + int (digit_val d)) 0 ds;
          v = (if neg then - v else v) in
      if ds = [] \<or> \<not> list_all is_digit ds \<or> v < - (2 ^ 63) \<or> 2 ^ 63 \<le> v then None else Some v)"

definition expiresValue :: "sip_request \<Rightarrow> int" where
  "expiresValue req =
     (case rq_Expires req of
        None \<Rightarrow> 3600
      | Some v \<Rightarrow> (case Atoi (trim_space v) of None \<Rightarrow> 3600 | Some n \<Rightarrow> n))"

fun str_split :: "char \<Rightarrow> string \<Rightarrow> string list" where
  "str_split sep [] = [[]]"
| "str_split sep (c # s) =
     (if c = sep then [] # str_split sep s
      else (case str_split sep s of [] \<Rightarrow> [[c]] | l # ls \<Rightarrow> (c # l) # ls))"

text \<open>The contact in one line of the request that the outer request carries.\<close>

definition contact_line :: "string \<Rightarrow> string option" where
  "contact_line line =
     (let line = trim_right line [char_of (13 :: nat)]; lower = to_lower line in
      if \<not> has_prefix ''contact:'' lower \<and> \<not> has_prefix ''m:'' lower then None
      else
        (let val = trim_space (case str_index line '':'' of Some i \<Rightarrow> drop (i + 1) line | None \<Rightarrow> line);
             val = trim_chars val ''<>'';
             val = (case str_index val ''<'' of
                 Some lt \<Rightarrow> before (CHR ''>'') (drop (lt + 1) val)
               | None \<Rightarrow> val);
             val = trim_space (before (CHR '';'') val) in
         if has_prefix ''sip:'' (to_lower val) \<or> has_prefix ''sips:'' (to_lower val) then Some val else None))"

definition sipfragContact :: "bytes \<Rightarrow> string" where
  "sipfragContact body =
     (if body = [] then []
      else (case List.map_filter contact_line (str_split (char_of (10 :: nat)) (string_of_bytes body)) of
          val # _ \<Rightarrow> val
        | [] \<Rightarrow> []))"

text \<open>The public identities of the registration, sorted into a number, its URI, and an IMSI.\<close>

definition outer_uri :: "string \<Rightarrow> string" where
  "outer_uri raw = before (CHR '';'') (trim_chars (trim_space raw) ''<>'')"

definition classify_impu :: "string \<Rightarrow> string \<times> string \<times> string \<Rightarrow> string \<times> string \<times> string" where
  "classify_impu raw = (\<lambda>(msisdn, imsi, aor).
     let user = msisdnFromURI raw in
     if user = [] then (msisdn, imsi, aor)
     else if isIMSI user then (msisdn, if imsi = [] then user else imsi, aor)
     else if msisdn = [] then (user, imsi, outer_uri raw)
     else (msisdn, imsi, aor))"

definition impus_of :: "sip_request \<Rightarrow> string \<Rightarrow> string list" where
  "impus_of req to =
     [to] @ (case rq_PAU req of
        None \<Rightarrow> []
      | Some pau \<Rightarrow> filter (\<lambda>part. part \<noteq> []) (map trim_space (str_split (CHR '','') pau)))"

definition impu_identity :: "sip_request \<Rightarrow> string \<Rightarrow> string \<times> string \<times> string" where
  "impu_identity req to =
     (let (msisdn, imsi, aor) = fold classify_impu (impus_of req to) ([], [], []) in
      if msisdn = [] then (msisdnFromURI to, imsi, to) else (msisdn, imsi, aor))"

definition deregisters :: "sip_request \<Rightarrow> bool" where
  "deregisters req \<longleftrightarrow> expiresValue req = 0 \<or> (case rq_Contact req of Some v \<Rightarrow> CHR ''*'' \<in> set v | None \<Rightarrow> False)"

definition reg_contact :: "sip_request \<Rightarrow> string" where
  "reg_contact req =
     (let uri = sipfragContact (rq_Body req) in
      case rq_Contact req of Some v \<Rightarrow> if uri = [] then outer_uri v else uri | None \<Rightarrow> uri)"

definition HandleRegister :: "env \<Rightarrow> sip_request \<Rightarrow> (nat \<times> string) process" where
  "HandleRegister E req =
     (case rq_To req of
        None \<Rightarrow> State_Monad.return (400, ''Missing To'')
      | Some to \<Rightarrow>
          (let (msisdn, imsi, sipAOR) = impu_identity req to in
           if msisdn = [] then State_Monad.return (200, ''OK'')
           else if deregisters req then do { registry_Delete msisdn; State_Monad.return (200, ''OK'') }
           else do {
             now \<leftarrow> now_of E;
             let expiry = now + sint (word_of_int (expiresValue req * Second) :: 64 word);
             let reg = \<lparr>reg_MSISDN = msisdn, reg_IMSI = imsi, reg_SIPAOR = sipAOR, reg_ContactURI = reg_contact req,
                 reg_SCSCF = (case rq_Via req of Some (host, port) \<Rightarrow> host | None \<Rightarrow> []), reg_Registered = True,
                 reg_Expiry = expiry\<rparr>;
             err \<leftarrow> registry_Upsert reg;
             State_Monad.return (if err = None then (500, ''Internal Server Error'') else (200, ''OK'')) }))"

text \<open>
  \<open>strings.Fields(v)[0]\<close>: what stands before the first white space once it is cut off in front; an empty
  list of fields has no first one.
\<close>

fun until_space :: "nat list \<Rightarrow> nat list" where
  "until_space [] = []"
| "until_space (n # s) = (if list_ex (\<lambda>q. has_prefix q (n # s)) space_seqs then [] else n # until_space s)"

definition first_field :: "string \<Rightarrow> string outcome" where
  "first_field v =
     (let s = trim_by space_seqs (map of_char v) in
      if s = [] then Panic else Ok (map char_of (until_space s)))"

definition HandleNotify :: "sip_request \<Rightarrow> (nat \<times> string) outcome process" where
  "HandleNotify req =
     (case rq_SubscriptionState req of
        None \<Rightarrow> State_Monad.return (Ok (200, ''OK''))
      | Some v \<Rightarrow>
          (case first_field v of
             Panic \<Rightarrow> State_Monad.return Panic
           | Err e \<Rightarrow> State_Monad.return (Err e)
           | Ok field \<Rightarrow> do {
               (case rq_PAI req of
                  Some pai \<Rightarrow>
                    (if to_lower field = ''terminated'' \<and> msisdnFromURI pai \<noteq> [] then do { registry_Delete (msisdnFromURI pai); State_Monad.return () }
                     else State_Monad.return ())
                | None \<Rightarrow> State_Monad.return ());
               State_Monad.return (Ok (200, ''OK'')) }))"


section \<open>Requests sent\<close>

text \<open>What the SIP library does with URIs, and the random octets of a tag, when there are any.\<close>

record 'u sip_lib =
  sl_Parse :: "string \<Rightarrow> 'u option"
  sl_Host :: "'u \<Rightarrow> string"

record 'u sip_out =
  so_Target :: 'u
  so_From :: "'u option"
  so_Tag :: "string option"
  so_To :: "'u option"
  so_CallID :: "string option"
  so_Headers :: "(string \<times> string) list"
  so_Route :: "'u option"
  so_Body :: bytes

record isc_settings =
  is_AcceptContact :: string
  is_MTRequestDisposition :: string
  is_SubmitReportDisposition :: string

definition newTag :: "bytes option \<Rightarrow> string" where
  "newTag random = (case random of None \<Rightarrow> ''smsc'' | Some b \<Rightarrow> hex_of b)"

definition buildFromURI :: "'u sip_lib \<Rightarrow> string \<Rightarrow> string \<Rightarrow> string \<Rightarrow> ('u \<times> string) outcome" where
  "buildFromURI L explicit targetHost scscf =
     (case List.map_filter (\<lambda>c. let c = trim_space c in if c = [] then None else map_option (\<lambda>u. (u, c)) (sl_Parse L c))
         [explicit, ''sip:smsc@'' @ targetHost, ''sip:smsc@'' @ scscf, ''sip:smsc@localhost''] of
        p # _ \<Rightarrow> Ok p
      | [] \<Rightarrow> Err ''unable to build valid SIP From URI'')"

definition optional_header :: "string \<Rightarrow> string \<Rightarrow> (string \<times> string) list" where
  "optional_header name v = (if trim_space v \<noteq> [] then [(name, trim_space v)] else [])"

definition route_to :: "'u sip_lib \<Rightarrow> string \<Rightarrow> 'u option" where
  "route_to L host = (if host \<noteq> [] then sl_Parse L (''sip:'' @ host @ '';lr'') else None)"

definition replyTargetURI :: "sip_request \<Rightarrow> string outcome" where
  "replyTargetURI req =
     (let pai = (case rq_PAI req of Some v \<Rightarrow> trim_chars (trim_space v) ''<>'' | None \<Rightarrow> []) in
      if pai \<noteq> [] then Ok pai
      else (case rq_From req of Some from \<Rightarrow> Ok from | None \<Rightarrow> Err ''missing From header on inbound MO MESSAGE''))"

definition buildSubmitReportRequest ::
  "'u sip_lib \<Rightarrow> bytes option \<Rightarrow> string \<Rightarrow> string \<Rightarrow> string \<Rightarrow> string \<Rightarrow> byte \<Rightarrow> isc_settings \<Rightarrow> 'u sip_out outcome" where
  "buildSubmitReportRequest L random targetURI routeHost sipLocal inReplyTo rpMR cfg =
     (case sl_Parse L targetURI of
        None \<Rightarrow> Err (''parse submit-report target '' @ quoted targetURI)
      | Some target \<Rightarrow> obind (buildFromURI L (trim_space sipLocal) (sl_Host L target) routeHost) (\<lambda>(fromURI, fromValue).
          Ok \<lparr>so_Target = target, so_From = Some fromURI, so_Tag = Some (newTag random), so_To = Some target, so_CallID = None,
            so_Headers = [(''Content-Type'', ContentType3GPP)] @
              optional_header ''Request-Disposition'' (is_SubmitReportDisposition cfg) @
              optional_header ''Accept-Contact'' (is_AcceptContact cfg) @
              [(''In-Reply-To'', inReplyTo), (''P-Asserted-Identity'', ''<'' @ fromValue @ ''>'')],
            so_Route = route_to L routeHost, so_Body = EncodeRPAck rpMR True\<rparr>))"

definition isc_buildRequest ::
  "'u sip_lib \<Rightarrow> bytes option \<Rightarrow> string \<Rightarrow> isc_settings \<Rightarrow> message \<Rightarrow> registration \<Rightarrow> bytes \<Rightarrow> 'u sip_out outcome" where
  "isc_buildRequest L random sipLocal cfg msg reg body =
     (case sl_Parse L (reg_SIPAOR reg) of
        None \<Rightarrow> Err (''parse target URI '' @ quoted (reg_SIPAOR reg))
      | Some target \<Rightarrow> obind (buildFromURI L (trim_space sipLocal) (sl_Host L target) (reg_SCSCF reg)) (\<lambda>(fromURI, fromValue).
          let callID = (if msg_CorrelationID msg = [] then msg_ID msg else msg_CorrelationID msg) in
          Ok \<lparr>so_Target = target, so_From = Some fromURI, so_Tag = Some (newTag random), so_To = None,
            so_CallID = (if callID \<noteq> [] then Some callID else None),
            so_Headers = [(''Content-Type'', ContentType3GPP)] @
              optional_header ''Request-Disposition'' (is_MTRequestDisposition cfg) @
              optional_header ''Accept-Contact'' (is_AcceptContact cfg) @
              [(''P-Asserted-Identity'', ''<'' @ fromValue @ ''>'')],
            so_Route = route_to L (reg_SCSCF reg), so_Body = body\<rparr>))"

section \<open>Waiting for a response\<close>

text \<open>What the library hands to the one who waits; \<open>None\<close> as a result means that he waits still.\<close>

datatype sip_event = SipResponse nat string | SipClosed | SipCancelled string

fun isc_await :: "sip_event list \<Rightarrow> send_error option option" where
  "isc_await [] = None"
| "isc_await (SipClosed # es) = Some (Some (SendError ''no response from S-CSCF''))"
| "isc_await (SipCancelled e # es) = Some (Some (SendError e))"
| "isc_await (SipResponse code reason # es) =
     (if code < 200 then isc_await es
      else if code < 300 then Some None
      else Some (Some (SendError (''S-CSCF returned '' @ decimal code @ '' '' @ reason))))"

fun report_await :: "sip_event list \<Rightarrow> send_error option option" where
  "report_await [] = None"
| "report_await (SipClosed # es) = Some (Some (SendError ''no response to submit report''))"
| "report_await (SipCancelled e # es) = Some (Some (SendError e))"
| "report_await (SipResponse code reason # es) =
     (if code < 200 then report_await es
      else if code \<ge> 300 then Some (Some (SendError (''submit report rejected: '' @ decimal code @ '' '' @ reason)))
      else Some None)"

fun simple_await :: "string \<Rightarrow> sip_event list \<Rightarrow> send_error option option" where
  "simple_await peer [] = None"
| "simple_await peer (SipClosed # es) = Some (Some (SendError (''no response from peer '' @ peer)))"
| "simple_await peer (SipCancelled e # es) = Some (Some (SendError e))"
| "simple_await peer (SipResponse code reason # es) =
     (if 200 \<le> code \<and> code < 300 then Some None
      else Some (Some (SendError (''peer '' @ peer @ '' returned '' @ decimal code @ '' '' @ reason))))"

fun imdn_await :: "sip_event list \<Rightarrow> send_error option option" where
  "imdn_await [] = None"
| "imdn_await (SipClosed # es) = Some None"
| "imdn_await (SipCancelled e # es) = Some (Some (SendError e))"
| "imdn_await (SipResponse code reason # es) =
     (if code \<ge> 300 then Some (Some (SendError (''IMDN rejected: '' @ decimal code @ '' '' @ reason))) else Some None)"

text \<open>A transaction: refused by the library, or followed by what arrives for it.\<close>

type_synonym 'u transport = "'u sip_out \<Rightarrow> string + sip_event list"

definition transact :: "'u transport \<Rightarrow> string \<Rightarrow> (sip_event list \<Rightarrow> send_error option option) \<Rightarrow> 'u sip_out \<Rightarrow> send_error option option" where
  "transact net what await req =
     (case net req of Inl e \<Rightarrow> Some (Some (SendError (what @ '': '' @ e))) | Inr es \<Rightarrow> await es)"

definition sendSubmitReport ::
  "'u sip_lib \<Rightarrow> 'u transport \<Rightarrow> bytes option \<Rightarrow> string \<Rightarrow> isc_settings \<Rightarrow> sip_request \<Rightarrow> byte \<Rightarrow> send_error option option outcome" where
  "sendSubmitReport L net random sipLocal cfg req rpMR =
     obind (replyTargetURI req) (\<lambda>target.
     case rq_CallID req of
       None \<Rightarrow> Panic
     | Some callID \<Rightarrow>
         obind (buildSubmitReportRequest L random target (peerFromVia req) (trim_space sipLocal) callID rpMR cfg) (\<lambda>report.
         Ok (transact net ''send submit report MESSAGE'' report_await report)))"

section \<open>The senders\<close>

record isc_sender =
  is_scAddr :: string
  is_sipLocal :: string
  is_cfg :: isc_settings
  is_rpMRSeq :: "32 word"

definition isc_Send ::
  "'u sip_lib \<Rightarrow> 'u transport \<Rightarrow> bytes option \<Rightarrow> gotime \<Rightarrow> message \<Rightarrow> registration \<Rightarrow> isc_sender \<Rightarrow> send_error option option outcome \<times> isc_sender" where
  "isc_Send L net random now msg reg s =
     (let s = s\<lparr>is_rpMRSeq := is_rpMRSeq s + 1\<rparr>; rpMR = ucast (is_rpMRSeq s AND 0xFF) :: byte in
      (obind (wrap_err ''encode sip3gpp'' (sip3gpp_Encode now msg rpMR (is_scAddr s))) (\<lambda>body.
       obind (isc_buildRequest L random (is_sipLocal s) (is_cfg s) msg reg body) (\<lambda>req.
       Ok (transact net ''send SIP MESSAGE'' isc_await req))), s))"

definition sipPeerURI :: "string \<Rightarrow> sip_peer \<Rightarrow> string" where
  "sipPeerURI user peer =
     ''sip:'' @ (if user \<noteq> [] then user @ ''@'' else []) @ sp_Address peer @ '':'' @ itoa (sp_Port peer) @
     (let transport = to_lower (trim_space (sp_Transport peer)) in if transport \<noteq> [] then '';transport='' @ transport else [])"

definition from_domain :: "string \<Rightarrow> sip_peer \<Rightarrow> string" where
  "from_domain localDomain peer =
     (let d = trim_space localDomain; d = (if d = [] then trim_space (sp_Address peer) else d) in
      if d = [] then ''localhost'' else d)"

definition simple_request :: "'u sip_lib \<Rightarrow> (gotime \<Rightarrow> string) \<Rightarrow> gotime \<Rightarrow> string \<Rightarrow> message \<Rightarrow> sip_peer \<Rightarrow> 'u sip_out outcome" where
  "simple_request L format now localDomain msg peer =
     (let targetStr = sipPeerURI (CHR ''+'' # addr_MSISDN (msg_Destination msg)) peer;
          fromStr = ''sip:+'' @ addr_MSISDN (msg_Source msg) @ ''@'' @ from_domain localDomain peer in
      case sl_Parse L targetStr of
        None \<Rightarrow> Err ''parse target URI''
      | Some target \<Rightarrow> (case sl_Parse L fromStr of
          None \<Rightarrow> Err ''parse from URI''
        | Some fromURI \<Rightarrow> Ok \<lparr>so_Target = target, so_From = Some fromURI, so_Tag = None, so_To = None, so_CallID = None,
            so_Headers = [(''Content-Type'', ContentTypeCPIM)], so_Route = None,
            so_Body = EncodeCPIM format now msg fromStr targetStr\<rparr>))"

definition simple_Send ::
  "'u sip_lib \<Rightarrow> 'u transport \<Rightarrow> (gotime \<Rightarrow> string) \<Rightarrow> gotime \<Rightarrow> string \<Rightarrow> message \<Rightarrow> sip_peer \<Rightarrow> send_error option option outcome" where
  "simple_Send L net format now localDomain msg peer =
     obind (simple_request L format now localDomain msg peer) (\<lambda>req.
     Ok (transact net ''send SIP SIMPLE MESSAGE'' (simple_await (sp_Name peer)) req))"

definition SendIMDN ::
  "'u sip_lib \<Rightarrow> 'u transport \<Rightarrow> (gotime \<Rightarrow> string) \<Rightarrow> gotime \<Rightarrow> string \<Rightarrow> string \<Rightarrow> sip_peer \<Rightarrow> string \<Rightarrow> send_error option option outcome" where
  "SendIMDN L net format now localDomain messageID peer status =
     (case sl_Parse L (sipPeerURI [] peer) of
        None \<Rightarrow> Err ''parse IMDN target''
      | Some target \<Rightarrow> Ok (transact net ''send IMDN'' imdn_await
          \<lparr>so_Target = target, so_From = sl_Parse L (''sip:smsc@'' @ from_domain localDomain peer), so_Tag = None, so_To = None,
            so_CallID = None, so_Headers = [(''Content-Type'', ''message/imdn+xml'')], so_Route = None,
            so_Body = IMDNBody format now messageID status\<rparr>))"


section \<open>Every request is answered\<close>

definition responses :: "sip_act list \<Rightarrow> nat list" where
  "responses acts = List.map_filter (\<lambda>a. case a of Respond code reason \<Rightarrow> Some code | _ \<Rightarrow> None) acts"

definition passed_on :: "sip_act list \<Rightarrow> message list" where
  "passed_on acts = List.map_filter (\<lambda>a. case a of OnMessage m \<Rightarrow> Some m | _ \<Rightarrow> None) acts"

lemma acts_simps [simp]:
  "responses [] = []" "passed_on [] = []"
  "responses (Respond code reason # acts) = code # responses acts" "passed_on (Respond code reason # acts) = passed_on acts"
  "responses (SubmitReport r # acts) = responses acts" "passed_on (SubmitReport r # acts) = passed_on acts"
  "responses (OnMessage m # acts) = responses acts" "passed_on (OnMessage m # acts) = m # passed_on acts"
  "responses (OnResult x b # acts) = responses acts" "passed_on (OnResult x b # acts) = passed_on acts"
  by (simp_all add: responses_def passed_on_def map_filter_simps)

lemma decodeCPIM_total: "\<exists>r. decodeCPIM parse now body src dst = r \<and> r \<noteq> Panic"
  by (auto simp: decodeCPIM_def Let_def split: option.splits)

lemma sipsimple_no_panic: "sipsimple_Decode parse now body ct src dst \<noteq> Panic"
  using decodeCPIM_total by (auto simp: sipsimple_Decode_def Let_def)

lemma sip3gpp_no_panic: "sip3gpp_Decode now body \<noteq> Panic"
proof -
  have "no_panic (sip3gpp_Decode now body)"
    by (auto simp: sip3gpp_Decode_def Let_def no_panic_decodeRPData no_panic_Decode at_def intro!: no_panic_obind)
  then show ?thesis by (cases "sip3gpp_Decode now body") auto
qed

definition answered :: "string \<Rightarrow> sip_request \<Rightarrow> sip_act list outcome \<Rightarrow> bool" where
  "answered iface req r \<longleftrightarrow> (case r of Ok acts \<Rightarrow> responses acts \<in> {[200], [400], [415]} \<and>
     length (passed_on acts) \<le> (if responses acts = [200] then 1 else 0) \<and>
     list_all (\<lambda>m. msg_IngressPeer m = peerFromVia req \<and> msg_IngressInterface m = iface) (passed_on acts)
   | _ \<Rightarrow> False)"

lemma isc_addressed_peer:
  "msg_IngressPeer (isc_addressed req m) = peerFromVia req" "msg_IngressInterface (isc_addressed req m) = InterfaceSIP3GPP"
  by (simp_all add: isc_addressed_def Let_def split: option.splits)

lemma isc_answered: "answered InterfaceSIP3GPP req (isc_Handle now h req)"
  using sip3gpp_no_panic [of now "rq_Body req"]
  by (auto simp: answered_def isc_Handle_def Let_def isc_addressed_peer split: outcome.splits option.splits)

lemma simple_answered: "answered InterfaceSIPSimple req (simple_Handle parse now on req)"
  using sipsimple_no_panic
  by (auto simp: answered_def simple_Handle_def Let_def split: outcome.splits option.splits)


definition register_request :: sip_request where
  "register_request = \<lparr>rq_Recipient = ''sip:smsc.ims'', rq_From = None, rq_To = Some ''sip:+3311@ims'', rq_Via = Some (''scscf.ims'', 5060),
     rq_CallID = Some ''c1'', rq_ContentType = None, rq_InReplyTo = None, rq_PAI = None, rq_PAU = None,
     rq_Contact = Some ''<sip:scscf.ims>'', rq_Expires = Some ''600'', rq_SubscriptionState = None, rq_Body = []\<rparr>"

text \<open>
  \<open>main\<close> hands the results to the SGd server, which answers the request of the terminal's MME that waits for them.
\<close>

definition isc_results :: "gotime \<Rightarrow> sip_act list \<Rightarrow> sgd_world \<Rightarrow> sgd_world" where
  "isc_results now acts = fold (\<lambda>a w. case a of OnResult inReplyTo body \<Rightarrow> snd (CompleteMO now inReplyTo body w) | _ \<Rightarrow> w) acts"

text \<open>
  An RP-ACK that arrives in reply to a message finishes the SGd request that waits under its identifier with
  success and a submit report; it is answered with 200 and nothing is routed.
\<close>

lemma RPAck_code: "EncodeRPAck mr b = c # r \<Longrightarrow> c AND 0x07 \<in> {0x02, 0x03}"
  by (auto simp: EncodeRPAck_def split: if_splits)

theorem rp_ack_completes_mo:
  assumes "rq_ContentType req = Some ct" "to_lower (trim_space ct) = ContentType3GPP"
    and "rq_InReplyTo req = Some v" "trim_space v = mid" "mid \<noteq> []" "rq_Body req = EncodeRPAck mr b" "ih_OnResult h"
  shows "\<exists>acts. isc_Handle now h req = Ok acts \<and> responses acts = [200] \<and> passed_on acts = [] \<and>
    isc_results now acts w = snd (finishPendingMO mid DiameterSuccess (encodeSubmitReportAck now) w)"
proof -
  have d: "sip3gpp_Decode now (EncodeRPAck mr b) = Ok None" "EncodeRPAck mr b \<noteq> []"
    by (simp_all add: EncodeRPAck_def sip3gpp_Decode_def)
  have "mapISCResultToSGdAnswer now (EncodeRPAck mr b) = (DiameterSuccess, encodeSubmitReportAck now)"
    using RPAck_code [of mr b] d(2) by (auto simp: mapISCResultToSGdAnswer_def split: list.splits)
  then show ?thesis
    using assms d by (simp add: isc_Handle_def isc_results_def CompleteMO_def)
qed

lemma rp_ack_completes_mo_witness:
  "\<forall>w. \<exists>acts. isc_Handle (go_date 2024 1 1 0 0 0 0) \<lparr>ih_OnMessage = True, ih_OnResult = True, ih_Client = True\<rparr>
      (register_request\<lparr>rq_ContentType := Some ''application/vnd.3gpp.sms'', rq_InReplyTo := Some ''m1'', rq_Body := [3, 7]\<rparr>) = Ok acts \<and>
    isc_results (go_date 2024 1 1 0 0 0 0) acts w = snd (finishPendingMO ''m1'' DiameterSuccess (encodeSubmitReportAck (go_date 2024 1 1 0 0 0 0)) w)"
proof
  fix w
  have "to_lower (trim_space ''application/vnd.3gpp.sms'') = ContentType3GPP" "trim_space ''m1'' = ''m1''" "EncodeRPAck 7 True = [3, 7]"
    by code_simp+
  from rp_ack_completes_mo [OF _ this(1) _ this(2), of "register_request\<lparr>rq_ContentType := Some ''application/vnd.3gpp.sms'', rq_InReplyTo := Some ''m1'', rq_Body := [3, 7]\<rparr>"
      7 True "\<lparr>ih_OnMessage = True, ih_OnResult = True, ih_Client = True\<rparr>" "go_date 2024 1 1 0 0 0 0" w] this(3)
  show "\<exists>acts. isc_Handle (go_date 2024 1 1 0 0 0 0) \<lparr>ih_OnMessage = True, ih_OnResult = True, ih_Client = True\<rparr>
      (register_request\<lparr>rq_ContentType := Some ''application/vnd.3gpp.sms'', rq_InReplyTo := Some ''m1'', rq_Body := [3, 7]\<rparr>) = Ok acts \<and>
    isc_results (go_date 2024 1 1 0 0 0 0) acts w = snd (finishPendingMO ''m1'' DiameterSuccess (encodeSubmitReportAck (go_date 2024 1 1 0 0 0 0)) w)"
    by auto
qed

section \<open>Responses\<close>

lemma classify_code:
  assumes "str_index (peer @ '' returned '') '' returned '' = Some (length peer)" "code < 2 ^ 63"
    "rt_egressIface route = InterfaceSIP3GPP \<or> rt_egressIface route = InterfaceSIPSimple"
  shows "classifyRouteError route (SendError (peer @ '' returned '' @ decimal code @ '' '' @ reason)) =
    (if code = 404 then RoutePermanent else RouteWaitTimer)"
  using sip_code_of [OF assms(1,2)] assms(3) unfolding classifyRouteError_def by simp

lemma isc_await_provisional: "list_all (\<lambda>e. case e of SipResponse c r \<Rightarrow> c < 200 | _ \<Rightarrow> False) ps \<Longrightarrow> isc_await (ps @ es) = isc_await es"
  by (induction ps) (auto split: sip_event.splits)

text \<open>
  A terminal's refusal, however many provisional responses come before it, reaches the forwarder with its code: 404
  is permanent, every other one is retried. (The SIP SIMPLE sender does so for a first response only.)
\<close>

theorem isc_final_response_decides:
  assumes "list_all (\<lambda>e. case e of SipResponse c r \<Rightarrow> c < 200 | _ \<Rightarrow> False) ps" "200 \<le> code" "code < 2 ^ 63"
    and "rt_egressIface route = InterfaceSIP3GPP"
  shows "\<exists>err. isc_await (ps @ SipResponse code reason # es) = Some err \<and>
    (case err of None \<Rightarrow> code < 300
     | Some e \<Rightarrow> 300 \<le> code \<and> classifyRouteError route e = (if code = 404 then RoutePermanent else RouteWaitTimer))"
proof -
  have "str_index (''S-CSCF'' @ '' returned '') '' returned '' = Some (length ''S-CSCF'')" by simp
  from classify_code [OF this assms(3) disjI1 [OF assms(4)], of reason] show ?thesis
    unfolding isc_await_provisional [OF assms(1)] using assms(2) by simp
qed

lemma isc_final_response_decides_witness:
  "\<exists>err. isc_await ([SipResponse 100 ''Trying''] @ SipResponse 404 ''Not Found'' # []) = Some err \<and>
    (case err of None \<Rightarrow> (404 :: nat) < 300
     | Some e \<Rightarrow> 300 \<le> (404 :: nat) \<and> classifyRouteError (new_route 0 InterfaceSIP3GPP [] [] [] 0) e = RoutePermanent)"
  using isc_final_response_decides [of "[SipResponse 100 ''Trying'']" 404 "new_route 0 InterfaceSIP3GPP [] [] [] 0" "''Not Found''" "[]"]
  by (simp add: new_route_def split: option.splits)

text \<open>The sender to other sites takes the first response for the last: a provisional one fails the message, whatever follows.\<close>

theorem simple_provisional_fails:
  "code < 200 \<Longrightarrow> simple_await peer (SipResponse code reason # SipResponse 200 ''OK'' # es) =
    Some (Some (SendError (''peer '' @ peer @ '' returned '' @ decimal code @ '' '' @ reason)))"
  by simp

lemma simple_provisional_fails_witness:
  "simple_await ''gw'' (SipResponse 100 ''Trying'' # SipResponse 200 ''OK'' # []) =
    Some (Some (SendError (''peer '' @ ''gw'' @ '' returned '' @ decimal 100 @ '' '' @ ''Trying'')))"
  by (rule simple_provisional_fails) simp

section \<open>Registrations\<close>

lemma Upsert_cache:
  "w_cache (snd (run_state (registry_Upsert reg) w)) = (w_cache w)(reg_MSISDN reg \<mapsto> reg)"
  by (simp add: registry_Upsert_def)

lemma Delete_cache: "w_cache (snd (run_state (registry_Delete k) w)) = (w_cache w)(k := None)"
  by (simp add: registry_Delete_def)

text \<open>
  What a REGISTER leaves in the registry. Nothing changes without a To header or a number. A deregistration
  forgets the number; a registration records it with the serving CSCF of the Via header and the lifetime of the
  Expires header, also when the store refuses the row and the answer is 500. No other number is touched.
\<close>

theorem register_cache:
  assumes "rq_To req = Some to" "impu_identity req to = (msisdn, imsi, aor)" "msisdn \<noteq> []"
  shows "w_cache (snd (run_state (HandleRegister E req) w)) = (w_cache w)(msisdn :=
    (if deregisters req then None
     else Some \<lparr>reg_MSISDN = msisdn, reg_IMSI = imsi, reg_SIPAOR = aor, reg_ContactURI = reg_contact req,
        reg_SCSCF = (case rq_Via req of Some (host, port) \<Rightarrow> host | None \<Rightarrow> []), reg_Registered = True,
        reg_Expiry = ev_clock E (w_ticks w) + sint (word_of_int (expiresValue req * Second) :: 64 word)\<rparr>))"
  using assms by (simp add: HandleRegister_def registry_Upsert_def registry_Delete_def Let_def split_beta)

lemma register_request_identity:
  "impu_identity register_request ''sip:+3311@ims'' = (''3311'', [], ''sip:+3311@ims'')" "expiresValue register_request = 600"
  "\<not> deregisters register_request"
  by code_simp+

lemma register_cache_witness:
  "\<forall>E w. \<exists>reg. w_cache (snd (run_state (HandleRegister E register_request) w)) ''3311'' = Some reg \<and> reg_SCSCF reg = ''scscf.ims'' \<and>
     reg_Expiry reg = ev_clock E (w_ticks w) + 600 * Second"
proof (intro allI)
  fix E w
  have "rq_To register_request = Some ''sip:+3311@ims''" "rq_Via register_request = Some (''scscf.ims'', 5060)"
    by (simp_all add: register_request_def)
  then show "\<exists>reg. w_cache (snd (run_state (HandleRegister E register_request) w)) ''3311'' = Some reg \<and> reg_SCSCF reg = ''scscf.ims'' \<and>
     reg_Expiry reg = ev_clock E (w_ticks w) + 600 * Second"
    using register_cache [of register_request "''sip:+3311@ims''" "''3311''" "[]" "''sip:+3311@ims''" E w] register_request_identity
    by simp
qed

text \<open>
  The contact of a terminal, written as usual in brackets and followed by parameters, is recorded with the closing
  bracket at its end: the opening one is trimmed off before brackets are looked for.
\<close>

lemma contact_keeps_bracket:
  "sipfragContact (bytes_of_string (''REGISTER sip:ims SIP/2.0'' @ CRLF @ ''Contact: <sip:u@10.0.0.1:5060>;expires=600'' @ CRLF)) =
     ''sip:u@10.0.0.1:5060>''"
  by code_simp

text \<open>A NOTIFY whose Subscription-State is blank stops the handler; any other is answered with 200.\<close>

theorem notify_answered:
  "fst (run_state (HandleNotify req) w) =
     (case rq_SubscriptionState req of
        None \<Rightarrow> Ok (200, ''OK'')
      | Some v \<Rightarrow> if trim_by space_seqs (map of_char v) = [] then Panic else Ok (200, ''OK''))"
  by (auto simp: HandleNotify_def first_field_def Let_def split_beta split: option.splits)


section \<open>From site to site\<close>

lemma simple_request_uris:
  "addr_MSISDN (msg_Destination msg) = d \<Longrightarrow>
     sipPeerURI (CHR ''+'' # addr_MSISDN (msg_Destination msg)) peer = number_uri d (drop 4 (sipPeerURI [] peer))"
  "''sip:+'' @ s @ ''@'' @ host = number_uri s host"
  by (simp_all add: sipPeerURI_def number_uri_def)



definition site_lib :: "string sip_lib" where
  "site_lib = \<lparr>sl_Parse = Some, sl_Host = (\<lambda>u. u)\<rparr>"

definition site_peer :: sip_peer where
  "site_peer = \<lparr>sp_Name = ''b'', sp_Address = ''b.net'', sp_Port = 5, sp_Transport = [], sp_Domain = [], sp_Enabled = True\<rparr>"

definition site_message :: message where
  "site_message = empty_message\<lparr>msg_Text := ''hi'', msg_Timestamp := Some (go_date 2024 1 1 0 0 0 0),
     msg_Source := empty_address\<lparr>addr_MSISDN := ''3311''\<rparr>, msg_Destination := empty_address\<lparr>addr_MSISDN := ''3322''\<rparr>\<rparr>"

definition site_out :: "string sip_out" where
  "site_out = (case simple_request site_lib (\<lambda>_. ''T1'') (go_date 2024 1 1 0 0 0 5) ''a.net'' site_message site_peer of Ok out \<Rightarrow> out
     | _ \<Rightarrow> \<lparr>so_Target = [], so_From = None, so_Tag = None, so_To = None, so_CallID = None, so_Headers = [], so_Route = None, so_Body = []\<rparr>)"

lemma site_sent: "simple_request site_lib (\<lambda>_. ''T1'') (go_date 2024 1 1 0 0 0 5) ''a.net'' site_message site_peer = Ok site_out"
  by (simp add: site_out_def simple_request_def site_lib_def Let_def)

lemma site_facts:
  "from_domain ''a.net'' site_peer = ''a.net''" "drop 4 (sipPeerURI [] site_peer) = ''b.net:5''"
proof -
  have "trim_space ''a.net'' = ''a.net''" by (rule trim_space_graphic; simp add: graphic_def)
  then show "from_domain ''a.net'' site_peer = ''a.net''" by (simp add: from_domain_def)
  have "to_lower (trim_space []) = []" "itoa 5 = ''5''" by code_simp+
  then show "drop 4 (sipPeerURI [] site_peer) = ''b.net:5''" by (simp add: sipPeerURI_def site_peer_def)
qed


text \<open>A number that arrived so, sent on to a third site, bears two plus signs there, and is no number any more.\<close>

lemma relayed_number:
  "msisdnFromCPIMAddr (''<'' @ ''sip:+'' @ (CHR ''+'' # ''3311'') @ ''@a.net'' @ ''>'') = []"
  "msisdnFromURI (''sip:+'' @ (CHR ''+'' # ''3311'') @ ''@a.net'') = ''+3311''"
  by code_simp+

end
