(* ===== verification/AdminStore.thy ===== *)
theory AdminStore
  imports MsgStore SmppClient
begin

text \<open>
  The tables an operator administers (\<open>internal/store/sqlite\<close>): rows with their identifier and the second of
  their last change, the statements on them with the constraints of the schema, and the interface every such
  table offers. A statement fails when the fault schedule says so or when it would violate a constraint.
\<close>

section \<open>Tables\<close>

type_synonym 'a table = "(string \<times> int \<times> 'a) list"

definition row_vals :: "'a table \<Rightarrow> 'a list" where
  "row_vals t = map (\<lambda>(rid, at, v). v) t"

definition row_ids :: "'a table \<Rightarrow> string list" where
  "row_ids t = map fst t"

definition row_get :: "string \<Rightarrow> 'a table \<Rightarrow> 'a option" where
  "row_get rid t = map_option (\<lambda>(rid, at, v). v) (find (\<lambda>r. fst r = rid) t)"

text \<open>A column with \<open>UNIQUE\<close>, if there is one, and the \<open>CHECK\<close> and \<open>REFERENCES\<close> clauses as a predicate.\<close>

definition conflict :: "('a \<Rightarrow> string option) \<Rightarrow> 'a \<Rightarrow> 'a list \<Rightarrow> bool" where
  "conflict key v vs \<longleftrightarrow> key v \<noteq> None \<and> key v \<in> key ` set vs"

definition row_insert :: "('a \<Rightarrow> string option) \<Rightarrow> ('a \<Rightarrow> bool) \<Rightarrow> int \<Rightarrow> string \<Rightarrow> 'a \<Rightarrow> 'a table \<Rightarrow> 'a table option" where
  "row_insert key ok now rid v t =
     (if rid \<in> set (row_ids t) \<or> \<not> ok v \<or> conflict key v (row_vals t) then None
      else Some (t @ [(rid, now div Second, v)]))"

definition row_update :: "('a \<Rightarrow> string option) \<Rightarrow> ('a \<Rightarrow> bool) \<Rightarrow> int \<Rightarrow> string \<Rightarrow> 'a \<Rightarrow> 'a table \<Rightarrow> 'a table option" where
  "row_update key ok now rid v t =
     (if rid \<notin> set (row_ids t) then Some t
      else if \<not> ok v \<or> conflict key v (row_vals (filter (\<lambda>r. fst r \<noteq> rid) t)) then None
      else Some (map (\<lambda>r. if fst r = rid then (rid, now div Second, v) else r) t))"

definition row_delete :: "string \<Rightarrow> 'a table \<Rightarrow> 'a table" where
  "row_delete rid t = filter (\<lambda>r. fst r \<noteq> rid) t"

text \<open>\<open>ORDER BY\<close> a column of text, bytewise.\<close>

definition by_text :: "('a \<Rightarrow> string) \<Rightarrow> 'a list \<Rightarrow> 'a list" where
  "by_text f = sort_key (\<lambda>v. map (of_char :: char \<Rightarrow> nat) (f v))"

section \<open>The database\<close>

record sip_peer_row = sip_peer +
  sp_AuthUser :: string
  sp_AuthPass :: string

record diameter_peer =
  dp_Name :: string
  dp_Host :: string
  dp_Realm :: string
  dp_Port :: int
  dp_Transport :: string
  dp_Applications :: "string list"
  dp_Enabled :: bool

record policy_row = sf_policy +
  pol_Name :: string

record admin_db =
  ad_accounts :: "smpp_account table"
  ad_clients :: "smpp_client table"
  ad_sip_peers :: "sip_peer_row table"
  ad_diam_peers :: "diameter_peer table"
  ad_rules :: "routing_rule table"
  ad_policies :: "policy_row table"
  ad_subscribers :: "subscriber table"
  ad_mappings :: "sgd_mme_mapping table"
  ad_db :: db
  ad_faults :: "bool list"

fun ad_call :: "(admin_db \<Rightarrow> 'a option \<times> admin_db) \<Rightarrow> admin_db \<Rightarrow> 'a option \<times> admin_db" where
  "ad_call f d =
     (case ad_faults d of
        [] \<Rightarrow> f d
      | flt # fs \<Rightarrow> if flt then (None, d\<lparr>ad_faults := fs\<rparr>) else f (d\<lparr>ad_faults := fs\<rparr>))"

declare ad_call.simps [simp del]

text \<open>The four kinds of statements on a table, given by its selector and its update.\<close>

definition q_rows :: "(admin_db \<Rightarrow> 'a table) \<Rightarrow> ('a list \<Rightarrow> 'b) \<Rightarrow> admin_db \<Rightarrow> 'b option \<times> admin_db" where
  "q_rows rows f = ad_call (\<lambda>d. (Some (f (row_vals (rows d))), d))"

definition q_row :: "(admin_db \<Rightarrow> 'a table) \<Rightarrow> string \<Rightarrow> admin_db \<Rightarrow> 'a option option \<times> admin_db" where
  "q_row rows rid = ad_call (\<lambda>d. (Some (row_get rid (rows d)), d))"

definition x_table ::
  "(admin_db \<Rightarrow> 'a table) \<Rightarrow> (('a table \<Rightarrow> 'a table) \<Rightarrow> admin_db \<Rightarrow> admin_db) \<Rightarrow> (admin_db \<Rightarrow> 'a table \<Rightarrow> 'a table option) \<Rightarrow>
     admin_db \<Rightarrow> unit option \<times> admin_db" where
  "x_table rows upd f = ad_call (\<lambda>d. case f d (rows d) of None \<Rightarrow> (None, d) | Some t \<Rightarrow> (Some (), upd (\<lambda>_. t) d))"

text \<open>A statement on the messages and reports.\<close>

definition on_db :: "(db \<Rightarrow> 'a option \<times> db) \<Rightarrow> admin_db \<Rightarrow> 'a option \<times> admin_db" where
  "on_db f d = (let (r, x) = f (ad_db d) in (r, d\<lparr>ad_db := x\<rparr>))"

section \<open>SMPP accounts and clients\<close>

definition bind_types :: "string list" where
  "bind_types = [''transmitter'', ''receiver'', ''transceiver'']"

definition ListSMPPServerAccounts :: "admin_db \<Rightarrow> smpp_account list option \<times> admin_db" where
  "ListSMPPServerAccounts = q_rows ad_accounts (\<lambda>as. by_text sa_Name (by_text sa_SystemID as))"

definition GetSMPPServerAccountByID :: "string \<Rightarrow> admin_db \<Rightarrow> smpp_account option option \<times> admin_db" where
  "GetSMPPServerAccountByID = q_row ad_accounts"

definition account_key :: "smpp_account \<Rightarrow> string option" where
  "account_key a = Some (sa_SystemID a)"

definition account_ok :: "smpp_account \<Rightarrow> bool" where
  "account_ok a \<longleftrightarrow> sa_BindType a \<in> set bind_types"

definition CreateSMPPServerAccount :: "int \<Rightarrow> string \<Rightarrow> smpp_account \<Rightarrow> admin_db \<Rightarrow> unit option \<times> admin_db" where
  "CreateSMPPServerAccount now uid a = x_table ad_accounts ad_accounts_update
     (\<lambda>d. row_insert account_key account_ok now uid (a\<lparr>sa_ID := uid\<rparr>))"

definition UpdateSMPPServerAccount :: "int \<Rightarrow> smpp_account \<Rightarrow> admin_db \<Rightarrow> unit option \<times> admin_db" where
  "UpdateSMPPServerAccount now a = x_table ad_accounts ad_accounts_update
     (\<lambda>d. row_update account_key account_ok now (sa_ID a) a)"

definition DeleteSMPPServerAccount :: "string \<Rightarrow> admin_db \<Rightarrow> unit option \<times> admin_db" where
  "DeleteSMPPServerAccount rid = x_table ad_accounts ad_accounts_update (\<lambda>d t. Some (row_delete rid t))"

definition ListSMPPClients :: "admin_db \<Rightarrow> smpp_client list option \<times> admin_db" where
  "ListSMPPClients = q_rows ad_clients (by_text cl_Name)"

definition GetSMPPClient :: "string \<Rightarrow> admin_db \<Rightarrow> smpp_client option option \<times> admin_db" where
  "GetSMPPClient = q_row ad_clients"

definition client_key :: "smpp_client \<Rightarrow> string option" where
  "client_key c = Some (cl_Name c)"

definition client_ok :: "smpp_client \<Rightarrow> bool" where
  "client_ok c \<longleftrightarrow> cl_Transport c \<in> {''tcp'', ''tls''} \<and> cl_BindType c \<in> set bind_types"

definition CreateSMPPClient :: "int \<Rightarrow> string \<Rightarrow> smpp_client \<Rightarrow> admin_db \<Rightarrow> unit option \<times> admin_db" where
  "CreateSMPPClient now uid c = x_table ad_clients ad_clients_update
     (\<lambda>d. row_insert client_key client_ok now uid (c\<lparr>cl_ID := uid\<rparr>))"

definition UpdateSMPPClient :: "int \<Rightarrow> smpp_client \<Rightarrow> admin_db \<Rightarrow> unit option \<times> admin_db" where
  "UpdateSMPPClient now c = x_table ad_clients ad_clients_update
     (\<lambda>d. row_update client_key client_ok now (cl_ID c) c)"

definition DeleteSMPPClient :: "string \<Rightarrow> admin_db \<Rightarrow> unit option \<times> admin_db" where
  "DeleteSMPPClient rid = x_table ad_clients ad_clients_update (\<lambda>d t. Some (row_delete rid t))"

section \<open>SIP and Diameter peers\<close>

definition ListAllSIPPeers :: "admin_db \<Rightarrow> sip_peer_row list option \<times> admin_db" where
  "ListAllSIPPeers = q_rows ad_sip_peers (by_text sp_Name)"

definition ListSIPPeers :: "admin_db \<Rightarrow> sip_peer_row list option \<times> admin_db" where
  "ListSIPPeers = q_rows ad_sip_peers (\<lambda>ps. by_text sp_Name (filter sp_Enabled ps))"

definition GetSIPPeerByID :: "string \<Rightarrow> admin_db \<Rightarrow> sip_peer_row option option \<times> admin_db" where
  "GetSIPPeerByID = q_row ad_sip_peers"

definition sip_peer_key :: "sip_peer_row \<Rightarrow> string option" where
  "sip_peer_key p = Some (sp_Name p)"

definition sip_peer_ok :: "sip_peer_row \<Rightarrow> bool" where
  "sip_peer_ok p \<longleftrightarrow> sp_Transport p \<in> {''udp'', ''tcp'', ''tls''}"

definition CreateSIPPeer :: "int \<Rightarrow> string \<Rightarrow> sip_peer_row \<Rightarrow> admin_db \<Rightarrow> unit option \<times> admin_db" where
  "CreateSIPPeer now uid p = x_table ad_sip_peers ad_sip_peers_update (\<lambda>d. row_insert sip_peer_key sip_peer_ok now uid p)"

definition UpdateSIPPeer :: "int \<Rightarrow> string \<Rightarrow> sip_peer_row \<Rightarrow> admin_db \<Rightarrow> unit option \<times> admin_db" where
  "UpdateSIPPeer now rid p = x_table ad_sip_peers ad_sip_peers_update (\<lambda>d. row_update sip_peer_key sip_peer_ok now rid p)"

definition DeleteSIPPeer :: "string \<Rightarrow> admin_db \<Rightarrow> unit option \<times> admin_db" where
  "DeleteSIPPeer rid = x_table ad_sip_peers ad_sip_peers_update (\<lambda>d t. Some (row_delete rid t))"

definition ListAllDiameterPeers :: "admin_db \<Rightarrow> diameter_peer list option \<times> admin_db" where
  "ListAllDiameterPeers = q_rows ad_diam_peers (by_text dp_Name)"

definition ListDiameterPeers :: "admin_db \<Rightarrow> diameter_peer list option \<times> admin_db" where
  "ListDiameterPeers = q_rows ad_diam_peers (\<lambda>ps. by_text dp_Name (filter dp_Enabled ps))"

definition GetDiameterPeerByID :: "string \<Rightarrow> admin_db \<Rightarrow> diameter_peer option option \<times> admin_db" where
  "GetDiameterPeerByID = q_row ad_diam_peers"

definition GetDiameterPeer :: "string \<Rightarrow> admin_db \<Rightarrow> diameter_peer option option \<times> admin_db" where
  "GetDiameterPeer name = q_rows ad_diam_peers (find (\<lambda>p. dp_Name p = name))"

definition diam_peer_key :: "diameter_peer \<Rightarrow> string option" where
  "diam_peer_key p = Some (dp_Name p)"

definition diam_peer_ok :: "diameter_peer \<Rightarrow> bool" where
  "diam_peer_ok p \<longleftrightarrow> dp_Transport p \<in> {''tcp'', ''sctp''}"

definition CreateDiameterPeer :: "int \<Rightarrow> string \<Rightarrow> diameter_peer \<Rightarrow> admin_db \<Rightarrow> unit option \<times> admin_db" where
  "CreateDiameterPeer now uid p = x_table ad_diam_peers ad_diam_peers_update
     (\<lambda>d. row_insert diam_peer_key diam_peer_ok now uid p)"

definition UpdateDiameterPeer :: "int \<Rightarrow> string \<Rightarrow> diameter_peer \<Rightarrow> admin_db \<Rightarrow> unit option \<times> admin_db" where
  "UpdateDiameterPeer now rid p = x_table ad_diam_peers ad_diam_peers_update
     (\<lambda>d. row_update diam_peer_key diam_peer_ok now rid p)"

definition DeleteDiameterPeer :: "string \<Rightarrow> admin_db \<Rightarrow> unit option \<times> admin_db" where
  "DeleteDiameterPeer rid = x_table ad_diam_peers ad_diam_peers_update (\<lambda>d t. Some (row_delete rid t))"

section \<open>Routing rules and policies\<close>

text \<open>The lists of rules and of policies are given in the order of priority and name.\<close>

definition ListAllRoutingRules :: "admin_db \<Rightarrow> routing_rule list option \<times> admin_db" where
  "ListAllRoutingRules = q_rows ad_rules (sort_key rr_Priority)"

definition GetRoutingRule :: "string \<Rightarrow> admin_db \<Rightarrow> routing_rule option option \<times> admin_db" where
  "GetRoutingRule = q_row ad_rules"

definition rule_ok :: "admin_db \<Rightarrow> routing_rule \<Rightarrow> bool" where
  "rule_ok d r \<longleftrightarrow> rr_EgressIface r \<in> {''sip3gpp'', ''sipsimple'', ''smpp''} \<and>
     (rr_SFPolicyID r = [] \<or> rr_SFPolicyID r \<in> set (row_ids (ad_policies d)))"

definition CreateRoutingRule :: "int \<Rightarrow> string \<Rightarrow> routing_rule \<Rightarrow> admin_db \<Rightarrow> unit option \<times> admin_db" where
  "CreateRoutingRule now uid r = x_table ad_rules ad_rules_update (\<lambda>d. row_insert (\<lambda>_. None) (rule_ok d) now uid r)"

definition UpdateRoutingRule :: "int \<Rightarrow> string \<Rightarrow> routing_rule \<Rightarrow> admin_db \<Rightarrow> unit option \<times> admin_db" where
  "UpdateRoutingRule now rid r = x_table ad_rules ad_rules_update (\<lambda>d. row_update (\<lambda>_. None) (rule_ok d) now rid r)"

definition DeleteRoutingRule :: "string \<Rightarrow> admin_db \<Rightarrow> unit option \<times> admin_db" where
  "DeleteRoutingRule rid = x_table ad_rules ad_rules_update (\<lambda>d t. Some (row_delete rid t))"

definition ListSFPolicies :: "admin_db \<Rightarrow> policy_row list option \<times> admin_db" where
  "ListSFPolicies = q_rows ad_policies (by_text pol_Name)"

text \<open>Asking for a policy that is not there is an error, unlike asking for a row of another table.\<close>

definition GetPolicyByID :: "string \<Rightarrow> admin_db \<Rightarrow> policy_row option \<times> admin_db" where
  "GetPolicyByID rid = ad_call (\<lambda>d. (row_get rid (ad_policies d), d))"

definition policy_key :: "policy_row \<Rightarrow> string option" where
  "policy_key p = Some (pol_Name p)"

definition CreateSFPolicy :: "int \<Rightarrow> string \<Rightarrow> policy_row \<Rightarrow> admin_db \<Rightarrow> unit option \<times> admin_db" where
  "CreateSFPolicy now uid p = x_table ad_policies ad_policies_update
     (\<lambda>d. row_insert policy_key (\<lambda>_. True) now uid (p\<lparr>pol_ID := uid\<rparr>))"

definition UpdateSFPolicy :: "int \<Rightarrow> policy_row \<Rightarrow> admin_db \<Rightarrow> unit option \<times> admin_db" where
  "UpdateSFPolicy now p = x_table ad_policies ad_policies_update (\<lambda>d. row_update policy_key (\<lambda>_. True) now (pol_ID p) p)"

text \<open>\<open>sf_policy_id TEXT REFERENCES sf_policies(id)\<close>: a policy that a rule names stays.\<close>

definition DeleteSFPolicy :: "string \<Rightarrow> admin_db \<Rightarrow> unit option \<times> admin_db" where
  "DeleteSFPolicy rid = x_table ad_policies ad_policies_update (\<lambda>d t.
     if rid \<in> set (row_ids t) \<and> rid \<noteq> [] \<and> (\<exists>r \<in> set (row_vals (ad_rules d)). rr_SFPolicyID r = rid) then None
     else Some (row_delete rid t))"

section \<open>Subscribers and mappings\<close>

definition ListSubscribers :: "admin_db \<Rightarrow> subscriber list option \<times> admin_db" where
  "ListSubscribers = q_rows ad_subscribers (by_text sub_MSISDN)"

definition GetSubscriberByID :: "string \<Rightarrow> admin_db \<Rightarrow> subscriber option option \<times> admin_db" where
  "GetSubscriberByID = q_row ad_subscribers"

text \<open>
  \<open>INSERT ... ON CONFLICT (msisdn) DO UPDATE\<close>: the row with the number is replaced under its own identifier;
  a new row takes the one given, or the fresh one, which must not be that of another row.
\<close>

definition UpsertSubscriberRow :: "int \<Rightarrow> string \<Rightarrow> string \<Rightarrow> subscriber \<Rightarrow> admin_db \<Rightarrow> unit option \<times> admin_db" where
  "UpsertSubscriberRow now uid rid s = x_table ad_subscribers ad_subscribers_update (\<lambda>d t.
     if sub_MSISDN s \<in> sub_MSISDN ` set (row_vals t)
     then Some (map (\<lambda>(i, at, v). if sub_MSISDN v = sub_MSISDN s then (i, now div Second, s) else (i, at, v)) t)
     else row_insert (\<lambda>v. Some (sub_MSISDN v)) (\<lambda>_. True) now (if rid = [] then uid else rid) s t)"

definition DeleteSubscriber :: "string \<Rightarrow> admin_db \<Rightarrow> unit option \<times> admin_db" where
  "DeleteSubscriber rid = x_table ad_subscribers ad_subscribers_update (\<lambda>d t. Some (row_delete rid t))"

definition ListMappings :: "admin_db \<Rightarrow> sgd_mme_mapping list option \<times> admin_db" where
  "ListMappings = q_rows ad_mappings (by_text mm_S6CResult)"

definition GetSGDMMEMappingByID :: "string \<Rightarrow> admin_db \<Rightarrow> sgd_mme_mapping option option \<times> admin_db" where
  "GetSGDMMEMappingByID = q_row ad_mappings"

definition mapping_key :: "sgd_mme_mapping \<Rightarrow> string option" where
  "mapping_key m = Some (mm_S6CResult m)"

definition CreateSGDMMEMapping :: "int \<Rightarrow> string \<Rightarrow> sgd_mme_mapping \<Rightarrow> admin_db \<Rightarrow> unit option \<times> admin_db" where
  "CreateSGDMMEMapping now uid m = x_table ad_mappings ad_mappings_update (\<lambda>d. row_insert mapping_key (\<lambda>_. True) now uid m)"

definition UpdateSGDMMEMapping :: "int \<Rightarrow> string \<Rightarrow> sgd_mme_mapping \<Rightarrow> admin_db \<Rightarrow> unit option \<times> admin_db" where
  "UpdateSGDMMEMapping now rid m = x_table ad_mappings ad_mappings_update (\<lambda>d. row_update mapping_key (\<lambda>_. True) now rid m)"

definition DeleteSGDMMEMapping :: "string \<Rightarrow> admin_db \<Rightarrow> unit option \<times> admin_db" where
  "DeleteSGDMMEMapping rid = x_table ad_mappings ad_mappings_update (\<lambda>d t. Some (row_delete rid t))"

section \<open>Delivery reports\<close>

definition ListDeliveryReports :: "int \<Rightarrow> db \<Rightarrow> delivery_report list option \<times> db" where
  "ListDeliveryReports limit = db_call (\<lambda>d.
     (take (list_limit limit) (sort_key (\<lambda>r. - dr_ReportedAt r) (db_reports d)), d))"

definition GetDeliveryReport :: "string \<Rightarrow> db \<Rightarrow> delivery_report option option \<times> db" where
  "GetDeliveryReport rid = db_call (\<lambda>d. (find (\<lambda>r. dr_ID r = rid) (db_reports d), d))"

section \<open>What the delivery engine reads\<close>

text \<open>The tables as the statements of the engine see them, without the columns it does not use.\<close>

definition store_view :: "admin_db \<Rightarrow> db" where
  "store_view d = (ad_db d)\<lparr>db_policies := map sf_policy.truncate (row_vals (ad_policies d)),
     db_subscribers := row_vals (ad_subscribers d), db_sip_peers := map sip_peer.truncate (row_vals (ad_sip_peers d)),
     db_rules := row_vals (ad_rules d), db_mappings := row_vals (ad_mappings d)\<rparr>"


section \<open>Constraints\<close>

text \<open>
  Identifiers are unique, and so are the values of a unique column; every row satisfies a condition on its
  identifier and its value.
\<close>

definition tbl_ok :: "('a \<Rightarrow> string option) \<Rightarrow> (string \<Rightarrow> 'a \<Rightarrow> bool) \<Rightarrow> 'a table \<Rightarrow> bool" where
  "tbl_ok key I t \<longleftrightarrow> distinct (row_ids t) \<and>
     (\<forall>i a v j b w. (i, a, v) \<in> set t \<longrightarrow> (j, b, w) \<in> set t \<longrightarrow> key v \<noteq> None \<longrightarrow> key v = key w \<longrightarrow> i = j) \<and>
     (\<forall>i a v. (i, a, v) \<in> set t \<longrightarrow> I i v)"

lemma tbl_okI:
  assumes "distinct (row_ids t)"
    and "\<And>i a v j b w. (i, a, v) \<in> set t \<Longrightarrow> (j, b, w) \<in> set t \<Longrightarrow> key v \<noteq> None \<Longrightarrow> key v = key w \<Longrightarrow> i = j"
    and "\<And>i a v. (i, a, v) \<in> set t \<Longrightarrow> I i v"
  shows "tbl_ok key I t"
  using assms unfolding tbl_ok_def by blast

lemma tbl_okD:
  assumes "tbl_ok key I t"
  shows "distinct (row_ids t)"
    and "(i, a, v) \<in> set t \<Longrightarrow> (j, b, w) \<in> set t \<Longrightarrow> key v \<noteq> None \<Longrightarrow> key v = key w \<Longrightarrow> i = j"
    and "(i, a, v) \<in> set t \<Longrightarrow> I i v"
  using assms unfolding tbl_ok_def by blast+

lemma row_ids_simps [simp]: "row_ids [] = []" "row_ids (r # t) = fst r # row_ids t" "row_ids (t @ u) = row_ids t @ row_ids u"
  by (simp_all add: row_ids_def)

lemma row_vals_simps [simp]: "row_vals [] = []" "row_vals ((i, a, v) # t) = v # row_vals t" "row_vals (t @ u) = row_vals t @ row_vals u"
  by (simp_all add: row_vals_def)

lemma in_row_vals: "v \<in> set (row_vals t) \<longleftrightarrow> (\<exists>i a. (i, a, v) \<in> set t)"
  by (force simp: row_vals_def)

lemma in_row_ids: "i \<in> set (row_ids t) \<longleftrightarrow> (\<exists>a v. (i, a, v) \<in> set t)"
  by (force simp: row_ids_def)

lemma tbl_ok_Nil: "tbl_ok key I []"
  by (simp add: tbl_ok_def)

lemma no_conflict: "\<not> conflict key v (row_vals t) \<Longrightarrow> key v \<noteq> None \<Longrightarrow> (j, b, w) \<in> set t \<Longrightarrow> key w \<noteq> key v"
  by (force simp: conflict_def in_row_vals)

lemma tbl_ok_insert:
  assumes "tbl_ok key I t" "row_insert key ok now rid v t = Some t'" "ok v \<Longrightarrow> I rid v"
  shows "tbl_ok key I t'"
proof -
  have f: "rid \<notin> set (row_ids t)" "ok v" "\<not> conflict key v (row_vals t)" "t' = t @ [(rid, now div Second, v)]"
    using assms(2) by (auto simp: row_insert_def split: if_splits)
  have m: "(i, a, w) \<in> set t' \<longleftrightarrow> (i, a, w) \<in> set t \<or> (i, a, w) = (rid, now div Second, v)" for i a w
    unfolding f(4) by auto
  show ?thesis
  proof (rule tbl_okI)
    show "distinct (row_ids t')" using tbl_okD(1) [OF assms(1)] f(1) by (simp add: f(4))
    show "i = j" if "(i, a, w) \<in> set t'" "(j, b, x) \<in> set t'" "key w \<noteq> None" "key w = key x" for i a w j b x
      using that tbl_okD(2) [OF assms(1)] no_conflict [OF f(3)] unfolding m by (metis prod.inject)
    show "I i w" if "(i, a, w) \<in> set t'" for i a w
      using that tbl_okD(3) [OF assms(1)] assms(3) [OF f(2)] unfolding m by blast
  qed
qed

lemma row_update_ids: "row_update key ok now rid v t = Some t' \<Longrightarrow> row_ids t' = row_ids t"
  by (auto simp: row_update_def row_ids_def split: if_splits)

lemma row_update_in:
  assumes "row_update key ok now rid v t = Some t'" "rid \<in> set (row_ids t)"
  shows "(rid, now div Second, v) \<in> set t'"
proof -
  obtain a w where "(rid, a, w) \<in> set t" using assms(2) by (auto simp: in_row_ids)
  then show ?thesis using assms by (auto simp: row_update_def split: if_splits intro!: image_eqI [of _ _ "(rid, a, w)"])
qed

lemma tbl_ok_update:
  assumes "tbl_ok key I t" "row_update key ok now rid v t = Some t'" "ok v \<Longrightarrow> I rid v"
  shows "tbl_ok key I t'"
proof (cases "rid \<in> set (row_ids t)")
  case False
  then show ?thesis using assms by (simp add: row_update_def)
next
  case True
  then have f: "ok v" "\<not> conflict key v (row_vals (filter (\<lambda>r. fst r \<noteq> rid) t))"
      "t' = map (\<lambda>r. if fst r = rid then (rid, now div Second, v) else r) t"
    using assms(2) by (auto simp: row_update_def split: if_splits)
  have k: "key w \<noteq> key v" if "key v \<noteq> None" "(j, b, w) \<in> set t" "j \<noteq> rid" for j b w
    using no_conflict [OF f(2) that(1), of j b w] that(2,3) by simp
  have m: "(i = rid \<and> w = v) \<or> (i \<noteq> rid \<and> (i, a, w) \<in> set t)" if "(i, a, w) \<in> set t'" for i a w
    using that unfolding f(3) by (auto split: if_splits)
  show ?thesis
  proof (rule tbl_okI)
    show "distinct (row_ids t')" using tbl_okD(1) [OF assms(1)] row_update_ids [OF assms(2)] by simp
    show "i = j" if "(i, a, w) \<in> set t'" "(j, b, x) \<in> set t'" "key w \<noteq> None" "key w = key x" for i a w j b x
      using m [OF that(1)] m [OF that(2)] that(3,4) tbl_okD(2) [OF assms(1)] k by metis
    show "I i w" if "(i, a, w) \<in> set t'" for i a w
      using m [OF that] tbl_okD(3) [OF assms(1)] assms(3) [OF f(1)] by blast
  qed
qed

lemma tbl_ok_delete: "tbl_ok key I t \<Longrightarrow> tbl_ok key I (row_delete rid t)"
  by (rule tbl_okI) (auto simp: row_delete_def row_ids_def distinct_map_filter dest: tbl_okD)

lemma tbl_ok_weaken: "tbl_ok key I t \<Longrightarrow> (\<And>i v. v \<in> set (row_vals t) \<Longrightarrow> I i v \<Longrightarrow> J i v) \<Longrightarrow> tbl_ok key J t"
proof (rule tbl_okI)
  assume t: "tbl_ok key I t" and J: "\<And>i v. v \<in> set (row_vals t) \<Longrightarrow> I i v \<Longrightarrow> J i v"
  show "distinct (row_ids t)" by (rule tbl_okD(1) [OF t])
  show "i = j" if "(i, a, v) \<in> set t" "(j, b, w) \<in> set t" "key v \<noteq> None" "key v = key w" for i a v j b w
    by (rule tbl_okD(2) [OF t that])
  show "J i v" if "(i, a, v) \<in> set t" for i a v
    using J tbl_okD(3) [OF t that] that by (auto simp: in_row_vals)
qed

text \<open>Reading a row back.\<close>

lemma row_get_None: "row_get i t = None \<longleftrightarrow> i \<notin> set (row_ids t)"
  by (auto simp: row_get_def find_None_iff in_row_ids)

lemma row_get_Some: "distinct (row_ids t) \<Longrightarrow> row_get i t = Some v \<longleftrightarrow> (\<exists>a. (i, a, v) \<in> set t)"
proof (induction t)
  case (Cons r t)
  obtain j b w where r: "r = (j, b, w)" by (cases r)
  have "distinct (row_ids t)" "j \<notin> set (row_ids t)" using Cons.prems r by simp_all
  then show ?case using Cons.IH r by (auto simp: row_get_def in_row_ids)
qed (simp add: row_get_def)

lemma row_get_append: "row_get i (t @ u) = (case row_get i t of Some v \<Rightarrow> Some v | None \<Rightarrow> row_get i u)"
  by (induction t) (auto simp: row_get_def)

lemma row_get_insert:
  "row_insert key ok now rid v t = Some t' \<Longrightarrow> row_get i t' = (if i = rid then Some v else row_get i t)"
proof -
  assume "row_insert key ok now rid v t = Some t'"
  then have t: "rid \<notin> set (row_ids t)" "t' = t @ [(rid, now div Second, v)]" by (auto simp: row_insert_def split: if_splits)
  have "row_get i [(rid, now div Second, v)] = (if i = rid then Some v else None)" by (simp add: row_get_def)
  then show ?thesis unfolding t(2) row_get_append using t(1) row_get_None [of i t] by (auto split: option.splits)
qed

lemma row_get_map_other:
  "\<forall>r \<in> set t. fst r = rid \<longrightarrow> \<not> p (snd (snd r)) \<Longrightarrow>
     row_get rid (map (\<lambda>(i, tm, v). if p v then (i, n, s) else (i, tm, v)) t) = row_get rid t"
  by (induction t) (auto simp: row_get_def)

lemma row_get_update:
  "row_update key ok now rid v t = Some t' \<Longrightarrow> row_get i t' = (if i = rid \<and> rid \<in> set (row_ids t) then Some v else row_get i t)"
proof -
  assume u: "row_update key ok now rid v t = Some t'"
  have "row_get i (map (\<lambda>r. if fst r = rid then (rid, now div Second, v) else r) t) =
      (if i = rid \<and> rid \<in> set (row_ids t) then Some v else row_get i t)"
    by (induction t) (auto simp: row_get_def)
  then show ?thesis using u by (auto simp: row_update_def split: if_splits)
qed

lemma row_get_delete: "row_get i (row_delete rid t) = (if i = rid then None else row_get i t)"
  by (induction t) (auto simp: row_get_def row_delete_def)

section \<open>The constraints of the schema\<close>

definition wf_admin :: "admin_db \<Rightarrow> bool" where
  "wf_admin d \<longleftrightarrow>
     tbl_ok account_key (\<lambda>i a. account_ok a \<and> sa_ID a = i) (ad_accounts d) \<and>
     tbl_ok client_key (\<lambda>i c. client_ok c \<and> cl_ID c = i) (ad_clients d) \<and>
     tbl_ok sip_peer_key (\<lambda>i. sip_peer_ok) (ad_sip_peers d) \<and>
     tbl_ok diam_peer_key (\<lambda>i. diam_peer_ok) (ad_diam_peers d) \<and>
     tbl_ok (\<lambda>_. None) (\<lambda>i. rule_ok d) (ad_rules d) \<and>
     tbl_ok policy_key (\<lambda>i p. pol_ID p = i) (ad_policies d) \<and>
     tbl_ok (\<lambda>s. Some (sub_MSISDN s)) (\<lambda>i s. True) (ad_subscribers d) \<and>
     tbl_ok mapping_key (\<lambda>i m. True) (ad_mappings d)"

text \<open>\<open>admits P s\<close>: the statement, or the composition of statements, keeps \<open>P\<close>.\<close>

definition admits :: "(admin_db \<Rightarrow> bool) \<Rightarrow> (admin_db \<Rightarrow> 'r \<times> admin_db) \<Rightarrow> bool" where
  "admits P s \<longleftrightarrow> (\<forall>d. P d \<longrightarrow> P (snd (s d)))"

named_theorems admitted "statements and handlers that keep the constraints"

lemma rule_ok_frame [simp]:
  "rule_ok (ad_accounts_update f1 d) = rule_ok d" "rule_ok (ad_clients_update f2 d) = rule_ok d"
  "rule_ok (ad_sip_peers_update f3 d) = rule_ok d" "rule_ok (ad_diam_peers_update f4 d) = rule_ok d"
  "rule_ok (ad_rules_update f5 d) = rule_ok d" "rule_ok (ad_subscribers_update f6 d) = rule_ok d"
  "rule_ok (ad_mappings_update f7 d) = rule_ok d" "rule_ok (ad_db_update f8 d) = rule_ok d" "rule_ok (ad_faults_update f9 d) = rule_ok d"
  by (simp_all add: rule_ok_def fun_eq_iff)

lemma wf_admin_frame [simp]: "wf_admin (ad_faults_update f d) = wf_admin d" "wf_admin (ad_db_update g d) = wf_admin d"
  by (simp_all add: wf_admin_def)

lemma admits_call: "(\<And>d. wf_admin d \<Longrightarrow> wf_admin (snd (f d))) \<Longrightarrow> admits wf_admin (ad_call f)"
  by (auto simp: admits_def ad_call.simps split: list.splits if_splits)

lemma admits_query [admitted]: "admits wf_admin (q_rows rows f)" "admits wf_admin (q_row rows rid)"
  "admits wf_admin (on_db g)"
  unfolding q_rows_def q_row_def by (auto intro!: admits_call) (simp add: admits_def on_db_def split_beta)

lemma admits_table:
  "(\<And>d t. wf_admin d \<Longrightarrow> f d (rows d) = Some t \<Longrightarrow> wf_admin (upd (\<lambda>_. t) d)) \<Longrightarrow> admits wf_admin (x_table rows upd f)"
  unfolding x_table_def by (rule admits_call) (auto split: option.splits)

lemmas table_statements = CreateSMPPServerAccount_def UpdateSMPPServerAccount_def DeleteSMPPServerAccount_def
  CreateSMPPClient_def UpdateSMPPClient_def DeleteSMPPClient_def CreateSIPPeer_def UpdateSIPPeer_def DeleteSIPPeer_def
  CreateDiameterPeer_def UpdateDiameterPeer_def DeleteDiameterPeer_def CreateRoutingRule_def UpdateRoutingRule_def
  DeleteRoutingRule_def CreateSFPolicy_def UpdateSFPolicy_def DeleteSFPolicy_def UpsertSubscriberRow_def DeleteSubscriber_def
  CreateSGDMMEMapping_def UpdateSGDMMEMapping_def DeleteSGDMMEMapping_def

lemma create_admits [admitted]:
  "admits wf_admin (CreateSMPPServerAccount now uid a)" "admits wf_admin (CreateSMPPClient now uid c)"
  "admits wf_admin (CreateSIPPeer now uid p)" "admits wf_admin (CreateDiameterPeer now uid q)"
  "admits wf_admin (CreateRoutingRule now uid r)" "admits wf_admin (CreateSGDMMEMapping now uid m)"
  unfolding table_statements
  by (rule admits_table; auto simp: wf_admin_def account_ok_def client_ok_def elim: tbl_ok_insert)+

lemma update_admits [admitted]:
  "admits wf_admin (UpdateSMPPServerAccount now a)" "admits wf_admin (UpdateSMPPClient now c)"
  "admits wf_admin (UpdateSIPPeer now rid p)" "admits wf_admin (UpdateDiameterPeer now rid q)"
  "admits wf_admin (UpdateRoutingRule now rid r)" "admits wf_admin (UpdateSGDMMEMapping now rid m)"
  unfolding table_statements
  by (rule admits_table; auto simp: wf_admin_def elim: tbl_ok_update)+

lemma delete_admits [admitted]:
  "admits wf_admin (DeleteSMPPServerAccount rid)" "admits wf_admin (DeleteSMPPClient rid)" "admits wf_admin (DeleteSIPPeer rid)"
  "admits wf_admin (DeleteDiameterPeer rid)" "admits wf_admin (DeleteRoutingRule rid)" "admits wf_admin (DeleteSubscriber rid)"
  "admits wf_admin (DeleteSGDMMEMapping rid)"
  unfolding table_statements
  by (rule admits_table; auto simp: wf_admin_def intro: tbl_ok_delete)+

text \<open>Policies are what rules refer to.\<close>

lemma rules_follow_policies:
  assumes "tbl_ok (\<lambda>_. None) (\<lambda>i. rule_ok d) (ad_rules d)"
    and "\<And>r. r \<in> set (row_vals (ad_rules d)) \<Longrightarrow> rr_SFPolicyID r \<noteq> [] \<Longrightarrow> rr_SFPolicyID r \<in> set (row_ids (ad_policies d)) \<Longrightarrow>
      rr_SFPolicyID r \<in> set (row_ids t)"
  shows "tbl_ok (\<lambda>_. None) (\<lambda>i. rule_ok (ad_policies_update (\<lambda>_. t) d)) (ad_rules d)"
  by (rule tbl_ok_weaken [OF assms(1)]) (use assms(2) in \<open>auto simp: rule_ok_def\<close>)

lemma policy_admits [admitted]:
  "admits wf_admin (CreateSFPolicy now uid p)" "admits wf_admin (UpdateSFPolicy now p)" "admits wf_admin (DeleteSFPolicy rid)"
proof -
  show "admits wf_admin (CreateSFPolicy now uid p)"
    unfolding table_statements
  proof (rule admits_table)
    fix d t assume d: "wf_admin d" "row_insert policy_key (\<lambda>_. True) now uid (p\<lparr>pol_ID := uid\<rparr>) (ad_policies d) = Some t"
    then have "set (row_ids (ad_policies d)) \<subseteq> set (row_ids t)" by (auto simp: row_insert_def split: if_splits)
    then have "tbl_ok (\<lambda>_. None) (\<lambda>i. rule_ok (ad_policies_update (\<lambda>_. t) d)) (ad_rules d)"
      using d(1) by (intro rules_follow_policies) (auto simp: wf_admin_def)
    moreover have "tbl_ok policy_key (\<lambda>i p. pol_ID p = i) t"
      using d by (auto simp: wf_admin_def elim: tbl_ok_insert)
    ultimately show "wf_admin (ad_policies_update (\<lambda>_. t) d)" using d(1) by (simp add: wf_admin_def)
  qed
  show "admits wf_admin (UpdateSFPolicy now p)"
    unfolding table_statements
  proof (rule admits_table)
    fix d t assume d: "wf_admin d" "row_update policy_key (\<lambda>_. True) now (pol_ID p) p (ad_policies d) = Some t"
    then have "tbl_ok (\<lambda>_. None) (\<lambda>i. rule_ok (ad_policies_update (\<lambda>_. t) d)) (ad_rules d)"
      using row_update_ids [OF d(2)] by (intro rules_follow_policies) (auto simp: wf_admin_def)
    moreover have "tbl_ok policy_key (\<lambda>i p. pol_ID p = i) t"
      using d by (auto simp: wf_admin_def elim: tbl_ok_update)
    ultimately show "wf_admin (ad_policies_update (\<lambda>_. t) d)" using d(1) by (simp add: wf_admin_def)
  qed
  show "admits wf_admin (DeleteSFPolicy rid)"
    unfolding table_statements
  proof (rule admits_table)
    fix d t
    assume d: "wf_admin d" "(if rid \<in> set (row_ids (ad_policies d)) \<and> rid \<noteq> [] \<and>
        (\<exists>r \<in> set (row_vals (ad_rules d)). rr_SFPolicyID r = rid) then None else Some (row_delete rid (ad_policies d))) = Some t"
    then have t: "t = row_delete rid (ad_policies d)"
      "rid \<in> set (row_ids (ad_policies d)) \<Longrightarrow> rid \<noteq> [] \<Longrightarrow> r \<in> set (row_vals (ad_rules d)) \<Longrightarrow> rr_SFPolicyID r \<noteq> rid" for r
      by (auto split: if_splits)
    have "tbl_ok (\<lambda>_. None) (\<lambda>i. rule_ok (ad_policies_update (\<lambda>_. t) d)) (ad_rules d)"
      using d(1) t(2) by (intro rules_follow_policies) (auto simp: wf_admin_def t(1) row_delete_def in_row_ids)
    moreover have "tbl_ok policy_key (\<lambda>i p. pol_ID p = i) t"
      using d(1) by (auto simp: wf_admin_def t(1) intro: tbl_ok_delete)
    ultimately show "wf_admin (ad_policies_update (\<lambda>_. t) d)" using d(1) by (simp add: wf_admin_def)
  qed
qed

lemma upsert_subscriber_ok:
  assumes "tbl_ok (\<lambda>s. Some (sub_MSISDN s)) (\<lambda>i s. True) t"
  shows "tbl_ok (\<lambda>s. Some (sub_MSISDN s)) (\<lambda>i s. True)
    (map (\<lambda>(i, at, v). if sub_MSISDN v = sub_MSISDN s then (i, now div Second, s) else (i, at, v)) t)"
proof (rule tbl_okI)
  let ?t = "map (\<lambda>(i, at, v). if sub_MSISDN v = sub_MSISDN s then (i, now div Second, s) else (i, at, v)) t"
  have "row_ids ?t = row_ids t" by (auto simp: row_ids_def)
  then show "distinct (row_ids ?t)" using tbl_okD(1) [OF assms] by simp
  have m: "\<exists>b w. (i, b, w) \<in> set t \<and> sub_MSISDN w = sub_MSISDN v" if "(i, a, v) \<in> set ?t" for i a v
    using that by (auto split: if_splits; blast)
  show "i = j" if "(i, a, v) \<in> set ?t" "(j, b, w) \<in> set ?t" "Some (sub_MSISDN v) \<noteq> None" "Some (sub_MSISDN v) = Some (sub_MSISDN w)" for i a v j b w
    using m [OF that(1)] m [OF that(2)] that(4) tbl_okD(2) [OF assms] by fastforce
qed simp

lemma subscriber_admits [admitted]: "admits wf_admin (UpsertSubscriberRow now uid rid s)"
  unfolding table_statements
  by (rule admits_table) (auto simp: wf_admin_def intro: upsert_subscriber_ok elim: tbl_ok_insert split: if_splits)

section \<open>The interface of a table\<close>

text \<open>
  What the statements of a table rely on: its update changes it alone. From that follow what its rows are after a
  statement that succeeded, and that one that failed changed nothing.
\<close>

locale admin_table =
  fixes rows :: "admin_db \<Rightarrow> 'a table" and upd :: "('a table \<Rightarrow> 'a table) \<Rightarrow> admin_db \<Rightarrow> admin_db"
  assumes rows_upd: "rows (upd f d) = f (rows d)"
    and upd_faults: "ad_faults (upd f d) = ad_faults d"
    and rows_faults: "rows (d\<lparr>ad_faults := fs\<rparr>) = rows d"
begin

lemma failed: "x_table rows upd f d = (None, d') \<Longrightarrow> \<exists>fs. d' = d\<lparr>ad_faults := fs\<rparr>"
  by (auto simp: x_table_def ad_call.simps split: list.splits if_splits option.splits intro: exI [of _ "ad_faults d"])

lemma succeeded:
  assumes "x_table rows upd f d = (Some u, d')"
  shows "\<exists>fs t. f (d\<lparr>ad_faults := fs\<rparr>) (rows d) = Some t \<and> d' = upd (\<lambda>_. t) (d\<lparr>ad_faults := fs\<rparr>) \<and> rows d' = t"
proof -
  define g where "g = (\<lambda>d. case f d (rows d) of None \<Rightarrow> (None, d) | Some t \<Rightarrow> (Some (), upd (\<lambda>_. t) d))"
  have "x_table rows upd f d = ad_call g d" by (simp add: x_table_def g_def)
  then have "x_table rows upd f d = g d \<or> (\<exists>fs. x_table rows upd f d = g (d\<lparr>ad_faults := fs\<rparr>))"
    using assms by (cases "ad_faults d") (auto simp: ad_call.simps split: if_splits)
  moreover have "d\<lparr>ad_faults := ad_faults d\<rparr> = d" by simp
  ultimately obtain fs where "g (d\<lparr>ad_faults := fs\<rparr>) = (Some u, d')" using assms by metis
  then show ?thesis by (auto simp: g_def rows_faults rows_upd split: option.splits)
qed

lemma query: "q_row rows rid d = (Some r, d') \<Longrightarrow> r = row_get rid (rows d)"
  by (auto simp: q_row_def ad_call.simps rows_faults split: list.splits if_splits)

lemma inserted:
  assumes "x_table rows upd (\<lambda>d. row_insert key (ok d) now uid v) d = (Some u, d')"
  shows "row_get i (rows d') = (if i = uid then Some v else row_get i (rows d))"
  proof -
  from succeeded [OF assms] obtain fs t where "row_insert key (ok (d\<lparr>ad_faults := fs\<rparr>)) now uid v (rows d) = Some t" "rows d' = t" by blast
  then show ?thesis using row_get_insert by fast
qed

lemma updated:
  assumes "x_table rows upd (\<lambda>d. row_update key (ok d) now rid v) d = (Some u, d')"
  shows "row_get i (rows d') = (if i = rid \<and> row_get rid (rows d) \<noteq> None then Some v else row_get i (rows d))"
  proof -
  from succeeded [OF assms] obtain fs t where "row_update key (ok (d\<lparr>ad_faults := fs\<rparr>)) now rid v (rows d) = Some t" "rows d' = t" by blast
  from row_get_update [OF this(1), of i] this(2) show ?thesis by (simp add: row_get_None)
qed

lemma deleted:
  assumes "x_table rows upd (\<lambda>d t. if g d t then None else Some (row_delete rid t)) d = (Some u, d')"
  shows "row_get i (rows d') = (if i = rid then None else row_get i (rows d))"
  proof -
  from succeeded [OF assms] have "rows d' = row_delete rid (rows d)" by (auto split: if_splits)
  then show ?thesis by (simp add: row_get_delete)
qed

end

interpretation accounts: admin_table ad_accounts ad_accounts_update by unfold_locales simp_all
interpretation clients: admin_table ad_clients ad_clients_update by unfold_locales simp_all
interpretation sip_peers: admin_table ad_sip_peers ad_sip_peers_update by unfold_locales simp_all
interpretation diam_peers: admin_table ad_diam_peers ad_diam_peers_update by unfold_locales simp_all
interpretation rule_rows: admin_table ad_rules ad_rules_update by unfold_locales simp_all
interpretation policies: admin_table ad_policies ad_policies_update by unfold_locales simp_all
interpretation subscribers: admin_table ad_subscribers ad_subscribers_update by unfold_locales simp_all
interpretation mapping_rows: admin_table ad_mappings ad_mappings_update by unfold_locales simp_all

end
