(* ===== verification/Api.thy ===== *)
theory Api
  imports AdminStore Routing
begin

text \<open>
  The handlers of the administration API (\<open>internal/api/handlers.go\<close>): every operation on accounts, clients, peers,
  rules, policies, subscribers, messages and mappings, with its status code. The HTTP library checks a body against
  its schema before; \<open>time.ParseDuration\<close> and the hash of a password are parameters.
\<close>

section \<open>Replies\<close>

datatype 'a reply = Success nat 'a | Failure nat string

type_synonym 'a handler = "admin_db \<Rightarrow> 'a reply \<times> admin_db"

definition answer :: "'a reply \<Rightarrow> 'a handler" where
  "answer r d = (r, d)"

text \<open>One statement; when it fails the reply is that of \<open>dbErr\<close>.\<close>

definition dbErr :: "'a reply" where
  "dbErr = Failure 500 ''database error''"

definition notFound :: "string \<Rightarrow> 'a reply" where
  "notFound msg = Failure 404 msg"

definition stmt :: "(admin_db \<Rightarrow> 'a option \<times> admin_db) \<Rightarrow> ('a \<Rightarrow> 'b handler) \<Rightarrow> 'b handler" where
  "stmt s k d = (case s d of (None, d) \<Rightarrow> (dbErr, d) | (Some x, d) \<Rightarrow> k x d)"

definition reply_list :: "(admin_db \<Rightarrow> 'a list option \<times> admin_db) \<Rightarrow> 'a list handler" where
  "reply_list s = stmt s (\<lambda>v. answer (Success 200 v))"

definition reply_row :: "string \<Rightarrow> (admin_db \<Rightarrow> 'a option option \<times> admin_db) \<Rightarrow> 'a handler" where
  "reply_row msg s = stmt s (\<lambda>v. answer (case v of None \<Rightarrow> notFound msg | Some x \<Rightarrow> Success 200 x))"

definition reply_done :: "nat \<Rightarrow> (admin_db \<Rightarrow> unit option \<times> admin_db) \<Rightarrow> unit handler" where
  "reply_done code s = stmt s (\<lambda>_. answer (Success code ()))"

text \<open>A row that must exist before anything is done with it.\<close>

definition require :: "string \<Rightarrow> (admin_db \<Rightarrow> 'a option option \<times> admin_db) \<Rightarrow> ('a \<Rightarrow> 'b handler) \<Rightarrow> 'b handler" where
  "require msg s k = stmt s (\<lambda>v. case v of None \<Rightarrow> answer (notFound msg) | Some x \<Rightarrow> k x)"

section \<open>References from routing rules\<close>

definition routingRulePeerReference :: "string \<Rightarrow> admin_db \<Rightarrow> routing_rule option option \<times> admin_db" where
  "routingRulePeerReference peerID d =
     (case ListAllRoutingRules d of
        (None, d) \<Rightarrow> (None, d)
      | (Some rules, d) \<Rightarrow> (Some (find (\<lambda>r. rr_MatchSrcPeer r = peerID \<or> rr_EgressPeer r = peerID) rules), d))"

definition routingRulePolicyReference :: "string \<Rightarrow> admin_db \<Rightarrow> routing_rule option option \<times> admin_db" where
  "routingRulePolicyReference policyID d =
     (case ListAllRoutingRules d of
        (None, d) \<Rightarrow> (None, d)
      | (Some rules, d) \<Rightarrow> (Some (find (\<lambda>r. rr_SFPolicyID r = policyID) rules), d))"

definition routingRuleLabel :: "routing_rule \<Rightarrow> string" where
  "routingRuleLabel r = (if rr_Name r \<noteq> [] then rr_Name r
     else ''priority '' @ (if rr_Priority r < 0 then CHR ''-'' # decimal (nat (- rr_Priority r)) else decimal (nat (rr_Priority r))))"

definition unless_used :: "string \<Rightarrow> (admin_db \<Rightarrow> routing_rule option option \<times> admin_db) \<Rightarrow> unit handler \<Rightarrow> unit handler" where
  "unless_used what reference k = stmt reference (\<lambda>r. case r of
       Some rule \<Rightarrow> answer (Failure 409 (what @ '' is still used by routing rule '' @ CHR 0x22 # routingRuleLabel rule @ [CHR 0x22]))
     | None \<Rightarrow> k)"

section \<open>SMPP accounts\<close>

record smppAccInput =
  ai_Name :: string
  ai_SystemID :: string
  ai_Password :: string
  ai_AllowedIP :: string
  ai_BindType :: string
  ai_ThroughputLimit :: int
  ai_Enabled :: bool

definition api_list_accounts :: "smpp_account list handler" where
  "api_list_accounts = reply_list ListSMPPServerAccounts"

definition api_get_account :: "string \<Rightarrow> smpp_account handler" where
  "api_get_account rid = reply_row ''account not found'' (GetSMPPServerAccountByID rid)"

definition api_create_account :: "(string \<Rightarrow> string option) \<Rightarrow> int \<Rightarrow> string \<Rightarrow> smppAccInput \<Rightarrow> unit handler" where
  "api_create_account bcrypt now uid i =
     (case bcrypt (ai_Password i) of
        None \<Rightarrow> answer (Failure 400 ''invalid password'')
      | Some hash \<Rightarrow> reply_done 201 (CreateSMPPServerAccount now uid
          \<lparr>sa_ID = [], sa_Name = ai_Name i, sa_SystemID = ai_SystemID i, sa_PasswordHash = hash, sa_AllowedIP = ai_AllowedIP i,
           sa_BindType = ai_BindType i, sa_ThroughputLimit = ai_ThroughputLimit i, sa_DefaultRouteID = [], sa_Enabled = ai_Enabled i\<rparr>))"

definition api_update_account :: "(string \<Rightarrow> string option) \<Rightarrow> int \<Rightarrow> string \<Rightarrow> smppAccInput \<Rightarrow> unit handler" where
  "api_update_account bcrypt now rid i = require ''account not found'' (GetSMPPServerAccountByID rid) (\<lambda>acc.
     case (if ai_Password i \<noteq> [] then bcrypt (ai_Password i) else Some (sa_PasswordHash acc)) of
       None \<Rightarrow> answer (Failure 400 ''invalid password'')
     | Some hash \<Rightarrow> reply_done 204 (UpdateSMPPServerAccount now
         (acc\<lparr>sa_PasswordHash := hash, sa_Name := ai_Name i, sa_SystemID := ai_SystemID i, sa_AllowedIP := ai_AllowedIP i,
            sa_BindType := ai_BindType i, sa_ThroughputLimit := ai_ThroughputLimit i, sa_Enabled := ai_Enabled i\<rparr>)))"

definition api_delete_account :: "string \<Rightarrow> unit handler" where
  "api_delete_account rid = require ''account not found'' (GetSMPPServerAccountByID rid) (\<lambda>acc.
     unless_used ''peer'' (routingRulePeerReference (sa_SystemID acc)) (reply_done 204 (DeleteSMPPServerAccount rid)))"

section \<open>SMPP clients\<close>

record smppClientInput =
  ci_Name :: string
  ci_Host :: string
  ci_Port :: int
  ci_Transport :: string
  ci_VerifyServerCert :: bool
  ci_SystemID :: string
  ci_Password :: string
  ci_BindType :: string
  ci_ReconnectInterval :: string
  ci_ThroughputLimit :: int
  ci_SourceAddrTON :: "int option"
  ci_SourceAddrNPI :: "int option"
  ci_DestAddrTON :: "int option"
  ci_DestAddrNPI :: "int option"
  ci_Enabled :: bool

definition validateTONNPI :: "int option \<Rightarrow> bool" where
  "validateTONNPI v = (case v of None \<Rightarrow> True | Some n \<Rightarrow> 0 \<le> n \<and> n \<le> 255)"

text \<open>\<open>zero\<close> is the time that reading the columns of times gives.\<close>

definition smppClientFromInput :: "(string \<Rightarrow> duration option) \<Rightarrow> gotime \<Rightarrow> smppClientInput \<Rightarrow> smpp_client option" where
  "smppClientFromInput parse_duration zero b =
     (if \<not> list_all validateTONNPI [ci_SourceAddrTON b, ci_SourceAddrNPI b, ci_DestAddrTON b, ci_DestAddrNPI b] then None
      else Some \<lparr>cl_ID = [], cl_Name = ci_Name b, cl_Host = ci_Host b, cl_Port = ci_Port b,
        cl_Transport = (if ci_Transport b = [] then ''tcp'' else ci_Transport b), cl_VerifyServerCert = ci_VerifyServerCert b,
        cl_SystemID = ci_SystemID b, cl_Password = ci_Password b, cl_BindType = ci_BindType b,
        cl_ReconnectInterval = (case parse_duration (ci_ReconnectInterval b) of Some t \<Rightarrow> t | None \<Rightarrow> 10 * Second),
        cl_ThroughputLimit = ci_ThroughputLimit b, cl_SourceAddrTON = ci_SourceAddrTON b, cl_SourceAddrNPI = ci_SourceAddrNPI b,
        cl_DestAddrTON = ci_DestAddrTON b, cl_DestAddrNPI = ci_DestAddrNPI b, cl_Enabled = ci_Enabled b,
        cl_CreatedAt = zero, cl_UpdatedAt = zero\<rparr>)"

text \<open>The body of an update differs from that of a creation in that the password may be left out, which leaves it empty.\<close>

definition smppClientFromUpdateInput :: "(string \<Rightarrow> duration option) \<Rightarrow> gotime \<Rightarrow> smppClientInput \<Rightarrow> smpp_client option" where
  "smppClientFromUpdateInput parse_duration zero b =
     (if \<not> list_all validateTONNPI [ci_SourceAddrTON b, ci_SourceAddrNPI b, ci_DestAddrTON b, ci_DestAddrNPI b] then None
      else Some \<lparr>cl_ID = [], cl_Name = ci_Name b, cl_Host = ci_Host b, cl_Port = ci_Port b,
        cl_Transport = (if ci_Transport b = [] then ''tcp'' else ci_Transport b), cl_VerifyServerCert = ci_VerifyServerCert b,
        cl_SystemID = ci_SystemID b, cl_Password = ci_Password b, cl_BindType = ci_BindType b,
        cl_ReconnectInterval = (case parse_duration (ci_ReconnectInterval b) of Some t \<Rightarrow> t | None \<Rightarrow> 10 * Second),
        cl_ThroughputLimit = ci_ThroughputLimit b, cl_SourceAddrTON = ci_SourceAddrTON b, cl_SourceAddrNPI = ci_SourceAddrNPI b,
        cl_DestAddrTON = ci_DestAddrTON b, cl_DestAddrNPI = ci_DestAddrNPI b, cl_Enabled = ci_Enabled b,
        cl_CreatedAt = zero, cl_UpdatedAt = zero\<rparr>)"

definition api_list_clients :: "smpp_client list handler" where
  "api_list_clients = reply_list ListSMPPClients"

definition api_get_client :: "string \<Rightarrow> smpp_client handler" where
  "api_get_client rid = reply_row ''client not found'' (GetSMPPClient rid)"

definition api_create_client :: "(string \<Rightarrow> duration option) \<Rightarrow> gotime \<Rightarrow> int \<Rightarrow> string \<Rightarrow> smppClientInput \<Rightarrow> unit handler" where
  "api_create_client parse_duration zero now uid b =
     (case smppClientFromInput parse_duration zero b of
        None \<Rightarrow> answer (Failure 400 ''invalid input'')
      | Some c \<Rightarrow> reply_done 201 (CreateSMPPClient now uid c))"

definition api_update_client :: "(string \<Rightarrow> duration option) \<Rightarrow> gotime \<Rightarrow> int \<Rightarrow> string \<Rightarrow> smppClientInput \<Rightarrow> unit handler" where
  "api_update_client parse_duration zero now rid b = require ''client not found'' (GetSMPPClient rid) (\<lambda>existing.
     case smppClientFromUpdateInput parse_duration zero b of
       None \<Rightarrow> answer (Failure 400 ''invalid input'')
     | Some c \<Rightarrow> reply_done 204 (UpdateSMPPClient now
         (c\<lparr>cl_ID := rid, cl_Password := (if ci_Password b = [] then cl_Password existing else cl_Password c)\<rparr>)))"

definition api_delete_client :: "string \<Rightarrow> unit handler" where
  "api_delete_client rid = require ''client not found'' (GetSMPPClient rid) (\<lambda>client.
     unless_used ''peer'' (routingRulePeerReference (cl_Name client)) (reply_done 204 (DeleteSMPPClient rid)))"

section \<open>SIP and Diameter peers\<close>

text \<open>The bodies have the columns of the rows.\<close>

definition api_list_sip_peers :: "sip_peer_row list handler" where
  "api_list_sip_peers = reply_list ListAllSIPPeers"

definition api_get_sip_peer :: "string \<Rightarrow> sip_peer_row handler" where
  "api_get_sip_peer rid = reply_row ''peer not found'' (GetSIPPeerByID rid)"

definition api_create_sip_peer :: "int \<Rightarrow> string \<Rightarrow> sip_peer_row \<Rightarrow> unit handler" where
  "api_create_sip_peer now uid i = reply_done 201 (CreateSIPPeer now uid i)"

definition api_update_sip_peer :: "int \<Rightarrow> string \<Rightarrow> sip_peer_row \<Rightarrow> unit handler" where
  "api_update_sip_peer now rid i = reply_done 204 (UpdateSIPPeer now rid i)"

definition api_delete_sip_peer :: "string \<Rightarrow> unit handler" where
  "api_delete_sip_peer rid = require ''peer not found'' (GetSIPPeerByID rid) (\<lambda>peer.
     unless_used ''peer'' (routingRulePeerReference (sp_Name peer)) (reply_done 204 (DeleteSIPPeer rid)))"

definition api_list_diam_peers :: "diameter_peer list handler" where
  "api_list_diam_peers = reply_list ListAllDiameterPeers"

definition api_get_diam_peer :: "string \<Rightarrow> diameter_peer handler" where
  "api_get_diam_peer rid = reply_row ''peer not found'' (GetDiameterPeerByID rid)"

definition api_create_diam_peer :: "int \<Rightarrow> string \<Rightarrow> diameter_peer \<Rightarrow> unit handler" where
  "api_create_diam_peer now uid i = reply_done 201 (CreateDiameterPeer now uid i)"

definition api_update_diam_peer :: "int \<Rightarrow> string \<Rightarrow> diameter_peer \<Rightarrow> unit handler" where
  "api_update_diam_peer now rid i = reply_done 204 (UpdateDiameterPeer now rid i)"

definition api_delete_diam_peer :: "string \<Rightarrow> unit handler" where
  "api_delete_diam_peer rid = require ''peer not found'' (GetDiameterPeerByID rid) (\<lambda>peer.
     unless_used ''peer'' (routingRulePeerReference (dp_Name peer)) (reply_done 204 (DeleteDiameterPeer rid)))"

section \<open>Routing rules and policies\<close>

definition validateRoutingRuleInput :: "routing_rule \<Rightarrow> bool" where
  "validateRoutingRuleInput r \<longleftrightarrow> rr_EgressIface r \<in> {''smpp'', ''sipsimple''}"

definition only_fallback :: "routing_rule \<Rightarrow> unit handler \<Rightarrow> unit handler" where
  "only_fallback r k = (if validateRoutingRuleInput r then k
     else answer (Failure 400 ''routing rules only support fallback interfaces: smpp, sipsimple''))"

definition api_list_rules :: "routing_rule list handler" where
  "api_list_rules = reply_list ListAllRoutingRules"

definition api_get_rule :: "string \<Rightarrow> routing_rule handler" where
  "api_get_rule rid = reply_row ''rule not found'' (GetRoutingRule rid)"

definition api_create_rule :: "int \<Rightarrow> string \<Rightarrow> routing_rule \<Rightarrow> unit handler" where
  "api_create_rule now uid r = only_fallback r (reply_done 201 (CreateRoutingRule now uid r))"

definition api_update_rule :: "int \<Rightarrow> string \<Rightarrow> routing_rule \<Rightarrow> unit handler" where
  "api_update_rule now rid r = only_fallback r (reply_done 204 (UpdateRoutingRule now rid r))"

definition api_delete_rule :: "string \<Rightarrow> unit handler" where
  "api_delete_rule rid = reply_done 204 (DeleteRoutingRule rid)"

record sfPolicyInput =
  pi_Name :: string
  pi_MaxRetries :: int
  pi_RetrySchedule :: "int list"
  pi_MaxTTL :: string
  pi_VPOverride :: string

definition sfPolicyFromInput :: "(string \<Rightarrow> duration option) \<Rightarrow> sfPolicyInput \<Rightarrow> policy_row option" where
  "sfPolicyFromInput parse_duration b =
     (case parse_duration (pi_MaxTTL b) of
        None \<Rightarrow> None
      | Some ttl \<Rightarrow>
          (let p = (\<lambda>vp. \<lparr>pol_ID = [], pol_MaxRetries = pi_MaxRetries b, pol_RetrySchedule = pi_RetrySchedule b, pol_MaxTTL = ttl,
               pol_VPOverride = vp, pol_Name = pi_Name b\<rparr>) in
           if pi_VPOverride b = [] then Some (p None)
           else map_option (\<lambda>t. p (Some t)) (parse_duration (pi_VPOverride b))))"

definition api_list_policies :: "policy_row list handler" where
  "api_list_policies = reply_list ListSFPolicies"

text \<open>A missing policy is an error of the statement, so that it is not reported as such.\<close>

definition api_get_policy :: "string \<Rightarrow> policy_row handler" where
  "api_get_policy rid = stmt (GetPolicyByID rid) (\<lambda>p. answer (Success 200 p))"

definition api_create_policy :: "(string \<Rightarrow> duration option) \<Rightarrow> int \<Rightarrow> string \<Rightarrow> sfPolicyInput \<Rightarrow> unit handler" where
  "api_create_policy parse_duration now uid b =
     (case sfPolicyFromInput parse_duration b of
        None \<Rightarrow> answer (Failure 400 ''invalid input'')
      | Some p \<Rightarrow> reply_done 201 (CreateSFPolicy now uid p))"

definition api_update_policy :: "(string \<Rightarrow> duration option) \<Rightarrow> int \<Rightarrow> string \<Rightarrow> sfPolicyInput \<Rightarrow> unit handler" where
  "api_update_policy parse_duration now rid b =
     (case sfPolicyFromInput parse_duration b of
        None \<Rightarrow> answer (Failure 400 ''invalid input'')
      | Some p \<Rightarrow> reply_done 204 (UpdateSFPolicy now (p\<lparr>pol_ID := rid\<rparr>)))"

definition api_delete_policy :: "string \<Rightarrow> unit handler" where
  "api_delete_policy rid = unless_used ''policy'' (routingRulePolicyReference rid) (reply_done 204 (DeleteSFPolicy rid))"

section \<open>Subscribers, messages and mappings\<close>

definition api_list_subscribers :: "subscriber list handler" where
  "api_list_subscribers = reply_list ListSubscribers"

definition api_get_subscriber :: "string \<Rightarrow> subscriber handler" where
  "api_get_subscriber rid = reply_row ''subscriber not found'' (GetSubscriberByID rid)"

definition api_create_subscriber :: "int \<Rightarrow> string \<Rightarrow> subscriber \<Rightarrow> unit handler" where
  "api_create_subscriber now uid s = reply_done 201 (UpsertSubscriberRow now uid [] s)"

definition api_update_subscriber :: "int \<Rightarrow> string \<Rightarrow> string \<Rightarrow> subscriber \<Rightarrow> unit handler" where
  "api_update_subscriber now uid rid s = reply_done 204 (UpsertSubscriberRow now uid rid s)"

definition api_delete_subscriber :: "string \<Rightarrow> unit handler" where
  "api_delete_subscriber rid = reply_done 204 (DeleteSubscriber rid)"

definition api_list_messages :: "int \<Rightarrow> smsg list handler" where
  "api_list_messages limit = reply_list (on_db (ListMessages limit))"

definition api_get_message :: "string \<Rightarrow> smsg handler" where
  "api_get_message rid = reply_row ''message not found'' (on_db (GetMessage rid))"

definition queue_statuses :: "string list" where
  "queue_statuses = [MessageStatusQueued, MessageStatusDispatched, MessageStatusWaitTimer, MessageStatusWaitEvent, MessageStatusWaitTimerEvent]"

definition api_list_queue :: "string \<Rightarrow> string \<Rightarrow> string \<Rightarrow> int \<Rightarrow> smsg list handler" where
  "api_list_queue src dst peer limit = reply_list (on_db (ListFilteredMessages
     \<lparr>mf_Statuses = queue_statuses, mf_SrcMSISDN = src, mf_DstMSISDN = dst, mf_OriginPeer = peer, mf_AlertCorrelationID = [],
      mf_DeferredInterface = [], mf_Limit = limit\<rparr>))"

definition api_delete_queue_message :: "string \<Rightarrow> unit handler" where
  "api_delete_queue_message rid = require ''message not found'' (on_db (GetMessage rid)) (\<lambda>msg.
     if sm_Status msg \<in> set queue_statuses then reply_done 204 (on_db (DeleteMessage rid))
     else answer (Failure 409 ''only queued, waiting, or dispatched messages can be deleted from the queue view''))"

definition api_list_reports :: "int \<Rightarrow> delivery_report list handler" where
  "api_list_reports limit = reply_list (on_db (ListDeliveryReports limit))"

definition api_get_report :: "string \<Rightarrow> delivery_report handler" where
  "api_get_report rid = reply_row ''delivery report not found'' (on_db (GetDeliveryReport rid))"

definition api_list_mappings :: "sgd_mme_mapping list handler" where
  "api_list_mappings = reply_list ListMappings"

definition api_get_mapping :: "string \<Rightarrow> sgd_mme_mapping handler" where
  "api_get_mapping rid = reply_row ''mapping not found'' (GetSGDMMEMappingByID rid)"

definition api_create_mapping :: "int \<Rightarrow> string \<Rightarrow> sgd_mme_mapping \<Rightarrow> unit handler" where
  "api_create_mapping now uid m = reply_done 201 (CreateSGDMMEMapping now uid m)"

definition api_update_mapping :: "int \<Rightarrow> string \<Rightarrow> sgd_mme_mapping \<Rightarrow> unit handler" where
  "api_update_mapping now rid m = require ''mapping not found'' (GetSGDMMEMappingByID rid) (\<lambda>_. reply_done 204 (UpdateSGDMMEMapping now rid m))"

definition api_delete_mapping :: "string \<Rightarrow> unit handler" where
  "api_delete_mapping rid = require ''mapping not found'' (GetSGDMMEMappingByID rid) (\<lambda>_. reply_done 204 (DeleteSGDMMEMapping rid))"


section \<open>The requests that change something\<close>

datatype api_request =
    CreateAccount smppAccInput | UpdateAccount string smppAccInput | DeleteAccount string
  | CreateClient smppClientInput | UpdateClient string smppClientInput | DeleteClient string
  | CreatePeerSIP sip_peer_row | UpdatePeerSIP string sip_peer_row | DeletePeerSIP string
  | CreatePeerDiameter diameter_peer | UpdatePeerDiameter string diameter_peer | DeletePeerDiameter string
  | CreateRule routing_rule | UpdateRule string routing_rule | DeleteRule string
  | CreatePolicy sfPolicyInput | UpdatePolicy string sfPolicyInput | DeletePolicy string
  | CreateSubscriber subscriber | UpdateSubscriber string subscriber | RemoveSubscriber string
  | CreateMapping sgd_mme_mapping | UpdateMapping string sgd_mme_mapping | DeleteMapping string
  | DeleteQueueMessage string

text \<open>The parameters: the hash of a password, the parser of durations, and what a column of times is read as.\<close>

record api_env =
  ae_bcrypt :: "string \<Rightarrow> string option"
  ae_duration :: "string \<Rightarrow> duration option"
  ae_zero :: gotime

text \<open>A request at a time, with the identifier that is drawn for a new row.\<close>

fun api_run :: "api_env \<Rightarrow> int \<Rightarrow> string \<Rightarrow> api_request \<Rightarrow> unit handler" where
  "api_run E now uid (CreateAccount i) = api_create_account (ae_bcrypt E) now uid i"
| "api_run E now uid (UpdateAccount rid i) = api_update_account (ae_bcrypt E) now rid i"
| "api_run E now uid (DeleteAccount rid) = api_delete_account rid"
| "api_run E now uid (CreateClient i) = api_create_client (ae_duration E) (ae_zero E) now uid i"
| "api_run E now uid (UpdateClient rid i) = api_update_client (ae_duration E) (ae_zero E) now rid i"
| "api_run E now uid (DeleteClient rid) = api_delete_client rid"
| "api_run E now uid (CreatePeerSIP p) = api_create_sip_peer now uid p"
| "api_run E now uid (UpdatePeerSIP rid p) = api_update_sip_peer now rid p"
| "api_run E now uid (DeletePeerSIP rid) = api_delete_sip_peer rid"
| "api_run E now uid (CreatePeerDiameter p) = api_create_diam_peer now uid p"
| "api_run E now uid (UpdatePeerDiameter rid p) = api_update_diam_peer now rid p"
| "api_run E now uid (DeletePeerDiameter rid) = api_delete_diam_peer rid"
| "api_run E now uid (CreateRule r) = api_create_rule now uid r"
| "api_run E now uid (UpdateRule rid r) = api_update_rule now rid r"
| "api_run E now uid (DeleteRule rid) = api_delete_rule rid"
| "api_run E now uid (CreatePolicy i) = api_create_policy (ae_duration E) now uid i"
| "api_run E now uid (UpdatePolicy rid i) = api_update_policy (ae_duration E) now rid i"
| "api_run E now uid (DeletePolicy rid) = api_delete_policy rid"
| "api_run E now uid (CreateSubscriber s) = api_create_subscriber now uid s"
| "api_run E now uid (UpdateSubscriber rid s) = api_update_subscriber now uid rid s"
| "api_run E now uid (RemoveSubscriber rid) = api_delete_subscriber rid"
| "api_run E now uid (CreateMapping m) = api_create_mapping now uid m"
| "api_run E now uid (UpdateMapping rid m) = api_update_mapping now rid m"
| "api_run E now uid (DeleteMapping rid) = api_delete_mapping rid"
| "api_run E now uid (DeleteQueueMessage rid) = api_delete_queue_message rid"

lemmas api_handlers = api_create_account_def api_update_account_def api_delete_account_def api_create_client_def
  api_update_client_def api_delete_client_def api_create_sip_peer_def api_update_sip_peer_def api_delete_sip_peer_def
  api_create_diam_peer_def api_update_diam_peer_def api_delete_diam_peer_def api_create_rule_def api_update_rule_def
  api_delete_rule_def api_create_policy_def api_update_policy_def api_delete_policy_def api_create_subscriber_def
  api_update_subscriber_def api_delete_subscriber_def api_create_mapping_def api_update_mapping_def
  api_delete_mapping_def api_delete_queue_message_def

section \<open>What handlers keep\<close>

lemma admits_answer [admitted]: "admits P (answer r)"
  by (simp add: admits_def answer_def)

lemma admits_stmt [admitted]: "admits P s \<Longrightarrow> (\<And>x. admits P (k x)) \<Longrightarrow> admits P (stmt s k)"
  by (fastforce simp: admits_def stmt_def split: prod.splits option.splits)

lemma admits_require [admitted]: "admits P s \<Longrightarrow> (\<And>x. admits P (k x)) \<Longrightarrow> admits P (require msg s k)"
  unfolding require_def by (intro admits_stmt) (auto intro: admits_answer split: option.splits)

lemma admits_done [admitted]: "admits P s \<Longrightarrow> admits P (reply_done code s)"
  unfolding reply_done_def by (intro admits_stmt admits_answer)

lemma admits_unless_used [admitted]: "admits P s \<Longrightarrow> admits P k \<Longrightarrow> admits P (unless_used what s k)"
  unfolding unless_used_def by (intro admits_stmt) (auto intro: admits_answer split: option.splits)

lemma admits_fallback [admitted]: "admits P k \<Longrightarrow> admits P (only_fallback r k)"
  by (simp add: only_fallback_def admits_answer)

lemma reference_frame:
  assumes "routingRulePeerReference n d = (r, d')"
  shows "\<exists>fs. d' = ad_faults_update (\<lambda>_. fs) d"
  using assms by (auto simp: routingRulePeerReference_def ListAllRoutingRules_def q_rows_def ad_call.simps
      split: list.splits if_splits intro: exI [of _ "ad_faults d"])

lemma policy_reference_frame:
  assumes "routingRulePolicyReference n d = (r, d')"
  shows "\<exists>fs. d' = ad_faults_update (\<lambda>_. fs) d"
  using assms by (auto simp: routingRulePolicyReference_def ListAllRoutingRules_def q_rows_def ad_call.simps
      split: list.splits if_splits intro: exI [of _ "ad_faults d"])

lemma reference_admits [admitted]: "admits wf_admin (routingRulePeerReference n)" "admits wf_admin (routingRulePolicyReference n)"
  unfolding admits_def by (metis prod.collapse reference_frame wf_admin_frame(1), metis prod.collapse policy_reference_frame wf_admin_frame(1))

lemma get_admits [admitted]:
  "admits wf_admin (GetSMPPServerAccountByID rid)" "admits wf_admin (GetSMPPClient rid)" "admits wf_admin (GetSIPPeerByID rid)"
  "admits wf_admin (GetDiameterPeerByID rid)" "admits wf_admin (GetSGDMMEMappingByID rid)"
  by (simp_all add: GetSMPPServerAccountByID_def GetSMPPClient_def GetSIPPeerByID_def GetDiameterPeerByID_def
      GetSGDMMEMappingByID_def admitted)



section \<open>Failures\<close>

text \<open>Nothing but the fault schedules differs; those say which of the coming statements fail.\<close>

definition unchanged :: "admin_db \<Rightarrow> admin_db \<Rightarrow> bool" where
  "unchanged d d' \<longleftrightarrow> (\<exists>fs gs. d' = d\<lparr>ad_faults := fs, ad_db := (ad_db d)\<lparr>db_faults := gs\<rparr>\<rparr>)"

lemma unchanged_faults [simp]: "unchanged d (d\<lparr>ad_faults := fs\<rparr>)"
  unfolding unchanged_def by (rule exI [of _ fs], rule exI [of _ "db_faults (ad_db d)"]) simp

lemma unchanged_refl [simp]: "unchanged d d"
  using unchanged_faults [of d "ad_faults d"] by simp

lemma unchanged_trans: "unchanged d d' \<Longrightarrow> unchanged d' d'' \<Longrightarrow> unchanged d d''"
  unfolding unchanged_def by fastforce

definition asks :: "(admin_db \<Rightarrow> 'a option \<times> admin_db) \<Rightarrow> bool" where
  "asks s \<longleftrightarrow> (\<forall>d. unchanged d (snd (s d)))"

definition whole :: "(admin_db \<Rightarrow> 'a option \<times> admin_db) \<Rightarrow> bool" where
  "whole s \<longleftrightarrow> (\<forall>d d'. s d = (None, d') \<longrightarrow> unchanged d d')"

definition all_or_nothing :: "'a handler \<Rightarrow> bool" where
  "all_or_nothing h \<longleftrightarrow> (\<forall>d d' code msg. h d = (Failure code msg, d') \<longrightarrow> unchanged d d')"

named_theorems atomic "statements and handlers that change nothing when they fail"

lemma asks_query [atomic]: "asks (q_row rows rid)" "asks (q_rows rows f)"
  by (auto simp: asks_def q_row_def q_rows_def ad_call.simps split: list.splits)

lemma asks_reference [atomic]: "asks (routingRulePeerReference n)" "asks (routingRulePolicyReference n)"
proof -
  show "asks (routingRulePeerReference n)"
    unfolding asks_def by (metis prod.collapse reference_frame unchanged_faults)
  show "asks (routingRulePolicyReference n)"
    unfolding asks_def by (metis prod.collapse policy_reference_frame unchanged_faults)
qed

lemma on_db_unchanged: "(\<exists>gs. snd (f (ad_db d)) = (ad_db d)\<lparr>db_faults := gs\<rparr>) \<Longrightarrow> unchanged d (snd (on_db f d))"
proof -
  assume "\<exists>gs. snd (f (ad_db d)) = (ad_db d)\<lparr>db_faults := gs\<rparr>"
  then obtain gs where "snd (on_db f d) = d\<lparr>ad_faults := ad_faults d, ad_db := (ad_db d)\<lparr>db_faults := gs\<rparr>\<rparr>"
    by (auto simp: on_db_def split_beta)
  then show ?thesis unfolding unchanged_def by blast
qed

lemma db_try_fails: "db_try f x = (None, x') \<Longrightarrow> \<exists>gs. x' = x\<lparr>db_faults := gs\<rparr>"
  by (auto simp: db_try_def db_step_def db_call.simps map_prod_def split: list.splits if_splits prod.splits option.splits
      intro: exI [of _ "db_faults x"])

lemma message_statements [atomic]: "asks (on_db (GetMessage rid))" "whole (on_db (DeleteMessage rid))"
proof -
  have "\<exists>gs. snd (GetMessage rid x) = x\<lparr>db_faults := gs\<rparr>" for x
    by (auto simp: GetMessage_def db_call.simps split: list.splits if_splits intro: exI [of _ "db_faults x"])
  then show "asks (on_db (GetMessage rid))" unfolding asks_def using on_db_unchanged by blast
  show "whole (on_db (DeleteMessage rid))"
    unfolding whole_def
  proof (intro allI impI)
    fix d d' assume e: "on_db (DeleteMessage rid) d = (None, d')"
    then have "fst (DeleteMessage rid (ad_db d)) = None" by (simp add: on_db_def split_beta)
    then obtain x where x: "DeleteMessage rid (ad_db d) = (None, x)" by (cases "DeleteMessage rid (ad_db d)") simp
    with db_try_fails obtain gs where "x = (ad_db d)\<lparr>db_faults := gs\<rparr>" unfolding DeleteMessage_def by blast
    with x on_db_unchanged [of "DeleteMessage rid" d] e show "unchanged d d'" by auto
  qed
qed

lemma whole_table [atomic]: "whole (x_table rows upd f)"
  by (auto simp: whole_def x_table_def ad_call.simps split: list.splits if_splits option.splits)

lemma atomic_answer [atomic]: "all_or_nothing (answer r)"
  by (simp add: all_or_nothing_def answer_def)

lemma atomic_stmt [atomic]: "asks s \<Longrightarrow> (\<And>x. all_or_nothing (k x)) \<Longrightarrow> all_or_nothing (stmt s k)"
  unfolding all_or_nothing_def asks_def stmt_def
  by (auto split: prod.splits option.splits) (metis snd_conv, metis snd_conv unchanged_trans)

lemma atomic_done [atomic]: "whole s \<Longrightarrow> all_or_nothing (reply_done code s)"
  by (auto simp: all_or_nothing_def whole_def reply_done_def stmt_def answer_def split: prod.splits option.splits)

lemma atomic_require [atomic]: "asks s \<Longrightarrow> (\<And>x. all_or_nothing (k x)) \<Longrightarrow> all_or_nothing (require msg s k)"
  unfolding require_def by (intro atomic_stmt) (auto intro: atomic_answer split: option.splits)

lemma atomic_unless_used [atomic]: "asks s \<Longrightarrow> all_or_nothing k \<Longrightarrow> all_or_nothing (unless_used what s k)"
  unfolding unless_used_def by (intro atomic_stmt) (auto intro: atomic_answer split: option.splits)

lemma atomic_fallback [atomic]: "all_or_nothing k \<Longrightarrow> all_or_nothing (only_fallback r k)"
  by (simp add: only_fallback_def atomic_answer)

text \<open>
  C14: A request answered with an error code, whatever the reason - a failed statement, a violated constraint, a missing
  row, a reference from a rule or an invalid body - has changed no table.
\<close>

theorem api_failure_changes_nothing:
  assumes "api_run E now uid req d = (Failure code msg, d')"
  shows "unchanged d d'"
proof -
  have "all_or_nothing (api_run E now uid req)"
    by (cases req) (auto simp: api_handlers table_statements GetSMPPServerAccountByID_def GetSMPPClient_def GetSIPPeerByID_def
        GetDiameterPeerByID_def GetSGDMMEMappingByID_def intro!: atomic split: option.splits)
  then show ?thesis using assms unfolding all_or_nothing_def by blast
qed


section \<open>Deleting peers and policies\<close>

text \<open>The name by which a rule may refer to the row that a request deletes.\<close>

definition deleted_name :: "api_request \<Rightarrow> admin_db \<Rightarrow> string option" where
  "deleted_name req d = (case req of
       DeleteAccount rid \<Rightarrow> map_option sa_SystemID (row_get rid (ad_accounts d))
     | DeleteClient rid \<Rightarrow> map_option cl_Name (row_get rid (ad_clients d))
     | DeletePeerSIP rid \<Rightarrow> map_option sp_Name (row_get rid (ad_sip_peers d))
     | DeletePeerDiameter rid \<Rightarrow> map_option dp_Name (row_get rid (ad_diam_peers d))
     | _ \<Rightarrow> None)"

lemma stmt_success: "stmt s k d = (Success c u, d') \<Longrightarrow> \<exists>x e. s d = (Some x, e) \<and> k x e = (Success c u, d')"
  by (auto simp: stmt_def dbErr_def split: prod.splits option.splits)

lemma require_success:
  assumes "require msg s k d = (Success c u, d')"
  shows "\<exists>x e. s d = (Some (Some x), e) \<and> k x e = (Success c u, d')"
  using stmt_success [OF assms [unfolded require_def]] by (auto simp: answer_def notFound_def split: option.splits)

lemma done_success:
  assumes "reply_done code s d = (Success c u, d')"
  shows "s d = (Some (), d')"
  using stmt_success [OF assms [unfolded reply_done_def]] by (auto simp: answer_def)

lemma unless_used_success:
  assumes "unless_used what (routingRulePeerReference n) k d = (Success c u, d')"
  shows "\<exists>fs. k (d\<lparr>ad_faults := fs\<rparr>) = (Success c u, d') \<and>
    (\<forall>r \<in> set (row_vals (ad_rules d)). rr_MatchSrcPeer r \<noteq> n \<and> rr_EgressPeer r \<noteq> n)"
proof -
  from stmt_success [OF assms [unfolded unless_used_def]] obtain e
    where e: "routingRulePeerReference n d = (Some None, e)" "k e = (Success c u, d')"
    by (auto simp: answer_def split: option.splits)
  obtain fs where "e = d\<lparr>ad_faults := fs\<rparr>" using reference_frame [OF e(1)] by auto
  moreover have "find (\<lambda>r. rr_MatchSrcPeer r = n \<or> rr_EgressPeer r = n) (sort_key rr_Priority (row_vals (ad_rules d))) = None"
    using e(1) by (auto simp: routingRulePeerReference_def ListAllRoutingRules_def q_rows_def ad_call.simps split: list.splits if_splits)
  ultimately show ?thesis using e(2) by (auto simp: find_None_iff)
qed

lemma x_table_rules:
  assumes "x_table rows upd f d = (Some u, d')" "\<And>g e. ad_rules (upd g e) = ad_rules e"
  shows "ad_rules d' = ad_rules d"
  using assms by (auto simp: x_table_def ad_call.simps split: list.splits if_splits option.splits)

lemma q_row_faults: "q_row rows rid d = (Some x, e) \<Longrightarrow> \<exists>fs. e = d\<lparr>ad_faults := fs\<rparr>"
  by (auto simp: q_row_def ad_call.simps split: list.splits if_splits intro: exI [of _ "ad_faults d"])

text \<open>What a guarded deletion leaves, whatever the table.\<close>

context admin_table
begin

lemma guarded_delete:
  assumes "require msg (q_row rows rid) (\<lambda>x. unless_used what (routingRulePeerReference (name x))
      (reply_done 204 (x_table rows upd (\<lambda>d t. Some (row_delete rid t))))) d = (Success c u, d')"
    and "\<And>g e. ad_rules (upd g e) = ad_rules e" and "row_get rid (rows d) = Some x"
  shows "\<forall>r \<in> set (row_vals (ad_rules d')). rr_MatchSrcPeer r \<noteq> name x \<and> rr_EgressPeer r \<noteq> name x"
proof -
  from require_success [OF assms(1)] obtain y e where y: "q_row rows rid d = (Some (Some y), e)"
    "unless_used what (routingRulePeerReference (name y)) (reply_done 204 (x_table rows upd (\<lambda>d t. Some (row_delete rid t)))) e = (Success c u, d')"
    by blast
  obtain fs where e: "e = d\<lparr>ad_faults := fs\<rparr>" using q_row_faults [OF y(1)] by blast
  have x: "y = x" using query [OF y(1)] assms(3) by simp
  from unless_used_success [OF y(2)] obtain gs where
    k: "reply_done 204 (x_table rows upd (\<lambda>d t. Some (row_delete rid t))) (e\<lparr>ad_faults := gs\<rparr>) = (Success c u, d')"
    and r: "\<forall>r \<in> set (row_vals (ad_rules e)). rr_MatchSrcPeer r \<noteq> name y \<and> rr_EgressPeer r \<noteq> name y" by blast
  have "ad_rules d' = ad_rules e" using x_table_rules [OF done_success [OF k] assms(2)] by simp
  then show ?thesis using r by (simp add: x)
qed

end

text \<open>
  When the deletion of a peer - an account, a client, a SIP or a Diameter peer - succeeds, no routing rule names it any
  more, as the peer it matches or the one it sends to. (An account is looked for by its system id alone.)
\<close>

theorem deleted_peer_unreferenced:
  assumes "api_run E now uid req d = (Success code u, d')" "deleted_name req d = Some name"
  shows "\<forall>r \<in> set (row_vals (ad_rules d')). rr_MatchSrcPeer r \<noteq> name \<and> rr_EgressPeer r \<noteq> name"
  using assms(2)
proof (cases req)
  case (DeleteAccount rid)
  then show ?thesis using assms accounts.guarded_delete [of "''account not found''" rid "''peer''" sa_SystemID d code u d']
    by (auto simp: deleted_name_def api_delete_account_def GetSMPPServerAccountByID_def DeleteSMPPServerAccount_def)
next
  case (DeleteClient rid)
  then show ?thesis using assms clients.guarded_delete [of "''client not found''" rid "''peer''" cl_Name d code u d']
    by (auto simp: deleted_name_def api_delete_client_def GetSMPPClient_def DeleteSMPPClient_def)
next
  case (DeletePeerSIP rid)
  then show ?thesis using assms sip_peers.guarded_delete [of "''peer not found''" rid "''peer''" sp_Name d code u d']
    by (auto simp: deleted_name_def api_delete_sip_peer_def GetSIPPeerByID_def DeleteSIPPeer_def)
next
  case (DeletePeerDiameter rid)
  then show ?thesis using assms diam_peers.guarded_delete [of "''peer not found''" rid "''peer''" dp_Name d code u d']
    by (auto simp: deleted_name_def api_delete_diam_peer_def GetDiameterPeerByID_def DeleteDiameterPeer_def)
qed (simp_all add: deleted_name_def)

section \<open>What requests write\<close>

text \<open>
  A created row is read back, under the identifier drawn for it, as it was given; every other row is as before.
\<close>

lemma created_sip_peer:
  assumes "api_run E now uid (CreatePeerSIP p) d = (Success code u, d')"
  shows "row_get rid (ad_sip_peers d') = (if rid = uid then Some p else row_get rid (ad_sip_peers d))"
  using sip_peers.inserted [of sip_peer_key "\<lambda>_. sip_peer_ok" now uid p d "()" d' rid] done_success [of 201 "CreateSIPPeer now uid p" d code u d'] assms
  by (simp add: api_create_sip_peer_def CreateSIPPeer_def)

text \<open>
  The password of an account changes only when one is given: an update without one keeps the hash, and one with a
  password stores its hash. Nothing else of the row is kept but its identifier and its default route.
\<close>

theorem account_update:
  assumes "api_run E now uid (UpdateAccount rid i) d = (Success code u, d')" "wf_admin d"
  shows "\<exists>old hash. row_get rid (ad_accounts d) = Some old \<and>
    (if ai_Password i = [] then hash = sa_PasswordHash old else ae_bcrypt E (ai_Password i) = Some hash) \<and>
    (\<forall>k. row_get k (ad_accounts d') = (if k = rid then Some
       \<lparr>sa_ID = rid, sa_Name = ai_Name i, sa_SystemID = ai_SystemID i, sa_PasswordHash = hash, sa_AllowedIP = ai_AllowedIP i,
        sa_BindType = ai_BindType i, sa_ThroughputLimit = ai_ThroughputLimit i, sa_DefaultRouteID = sa_DefaultRouteID old,
        sa_Enabled = ai_Enabled i\<rparr> else row_get k (ad_accounts d)))"
proof -
  from require_success [of "''account not found''" "q_row ad_accounts rid" _ d code u d'] assms(1) obtain old e where
    q: "q_row ad_accounts rid d = (Some (Some old), e)" and
    k: "(case (if ai_Password i \<noteq> [] then ae_bcrypt E (ai_Password i) else Some (sa_PasswordHash old)) of
       None \<Rightarrow> answer (Failure 400 ''invalid password'')
     | Some hash \<Rightarrow> reply_done 204 (UpdateSMPPServerAccount now
         (old\<lparr>sa_PasswordHash := hash, sa_Name := ai_Name i, sa_SystemID := ai_SystemID i, sa_AllowedIP := ai_AllowedIP i,
            sa_BindType := ai_BindType i, sa_ThroughputLimit := ai_ThroughputLimit i, sa_Enabled := ai_Enabled i\<rparr>))) e = (Success code u, d')"
    unfolding api_run.simps api_update_account_def GetSMPPServerAccountByID_def by blast
  obtain fs where e: "e = d\<lparr>ad_faults := fs\<rparr>" using q_row_faults [OF q] by blast
  have old: "row_get rid (ad_accounts d) = Some old" using accounts.query [OF q] by simp
  have oid: "sa_ID old = rid"
    using assms(2) old by (auto simp: wf_admin_def row_get_Some [OF tbl_okD(1)] dest: tbl_okD)
  obtain hash where h: "(if ai_Password i \<noteq> [] then ae_bcrypt E (ai_Password i) else Some (sa_PasswordHash old)) = Some hash"
    using k by (auto simp: answer_def split: option.splits)
  define new where "new = old\<lparr>sa_PasswordHash := hash, sa_Name := ai_Name i, sa_SystemID := ai_SystemID i, sa_AllowedIP := ai_AllowedIP i,
            sa_BindType := ai_BindType i, sa_ThroughputLimit := ai_ThroughputLimit i, sa_Enabled := ai_Enabled i\<rparr>"
  have "reply_done 204 (UpdateSMPPServerAccount now new) e = (Success code u, d')" using k h by (simp add: new_def)
  from done_success [OF this] have x: "x_table ad_accounts ad_accounts_update (\<lambda>d. row_update account_key account_ok now rid new) e = (Some (), d')"
    by (simp add: UpdateSMPPServerAccount_def new_def oid)
  have "\<forall>k. row_get k (ad_accounts d') = (if k = rid then Some new else row_get k (ad_accounts d))"
    using accounts.updated [of account_key "\<lambda>_. account_ok" now rid new e "()" d', OF x] old by (auto simp: e)
  moreover have "new = \<lparr>sa_ID = rid, sa_Name = ai_Name i, sa_SystemID = ai_SystemID i, sa_PasswordHash = hash, sa_AllowedIP = ai_AllowedIP i,
        sa_BindType = ai_BindType i, sa_ThroughputLimit = ai_ThroughputLimit i, sa_DefaultRouteID = sa_DefaultRouteID old,
        sa_Enabled = ai_Enabled i\<rparr>"
    by (simp add: new_def oid)
  moreover have "if ai_Password i = [] then hash = sa_PasswordHash old else ae_bcrypt E (ai_Password i) = Some hash"
    using h by (auto split: if_splits)
  ultimately show ?thesis using old by auto
qed

text \<open>
  An update of a subscriber is keyed by the number in its body: the row of that number is overwritten, not the one the
  path names.
\<close>

theorem subscriber_update_by_number:
  assumes "api_run E now uid (UpdateSubscriber rid s) d = (Success code u, d')" "wf_admin d"
    and "(other, tm, v) \<in> set (ad_subscribers d)" "sub_MSISDN v = sub_MSISDN s"
  shows "row_get other (ad_subscribers d') = Some s \<and> (rid \<noteq> other \<longrightarrow> row_get rid (ad_subscribers d') = row_get rid (ad_subscribers d))"
proof -
  have ok: "tbl_ok (\<lambda>s. Some (sub_MSISDN s)) (\<lambda>i s. True) (ad_subscribers d)" using assms(2) by (simp add: wf_admin_def)
  let ?t = "map (\<lambda>(i, at, v). if sub_MSISDN v = sub_MSISDN s then (i, now div Second, s) else (i, at, v)) (ad_subscribers d)"
  have in_t: "sub_MSISDN s \<in> sub_MSISDN ` set (row_vals (ad_subscribers d))"
  proof (rule image_eqI)
    show "sub_MSISDN s = sub_MSISDN v" using assms(4) by simp
    show "v \<in> set (row_vals (ad_subscribers d))" using assms(3) by (auto simp: in_row_vals)
  qed
  have "UpsertSubscriberRow now uid rid s d = (Some (), d')"
    using done_success assms(1) by (simp add: api_update_subscriber_def)
  from subscribers.succeeded [OF this [unfolded UpsertSubscriberRow_def]] have t: "ad_subscribers d' = ?t"
    using in_t by auto
  have dist: "distinct (row_ids ?t)" using tbl_okD(1) [OF upsert_subscriber_ok [OF ok]] by blast
  have "(other, now div Second, s) \<in> set ?t" using assms(3,4) by force
  then have "row_get other ?t = Some s" using row_get_Some [OF dist] by blast
  moreover have "row_get rid ?t = row_get rid (ad_subscribers d)" if "rid \<noteq> other"
  proof -
    have "\<forall>r \<in> set (ad_subscribers d). fst r = rid \<longrightarrow> sub_MSISDN (snd (snd r)) \<noteq> sub_MSISDN s"
      using that tbl_okD(2) [OF ok, of rid _ _ other tm v] assms(3,4) by fastforce
    then show ?thesis by (rule row_get_map_other)
  qed
  ultimately show ?thesis by (simp add: t)
qed


text \<open>
  A rule that was created takes part in the routing once the rules are loaded again, if it is enabled: the engine then
  routes by the enabled rules there were and the new one, in the order of their priority.
\<close>

theorem created_rule_routes:
  assumes "api_run E now uid (CreateRule r) d = (Success code u, d')" "db_faults (ad_db d) = []"
  shows "rr_EgressIface r \<in> {''smpp'', ''sipsimple''} \<and>
    fst (loader_load (store_view d') e) = Ok (sort_key rr_Priority (filter rr_Enabled (row_vals (ad_rules d) @ [r])))"
proof -
  have v: "validateRoutingRuleInput r" "reply_done 201 (CreateRoutingRule now uid r) d = (Success code u, d')"
    using assms(1) by (auto simp: api_create_rule_def only_fallback_def answer_def split: if_splits)
  from rule_rows.succeeded [OF done_success [OF v(2), unfolded CreateRoutingRule_def]] obtain fs t where
    t: "row_insert (\<lambda>_. None) (rule_ok (d\<lparr>ad_faults := fs\<rparr>)) now uid r (ad_rules d) = Some t" "d' = ad_rules_update (\<lambda>_. t) (d\<lparr>ad_faults := fs\<rparr>)"
    by blast
  then have "row_vals t = row_vals (ad_rules d) @ [r]" by (auto simp: row_insert_def split: if_splits)
  then show ?thesis
    using v(1) assms(2) t(2)
    by (simp add: validateRoutingRuleInput_def loader_load_def ListRoutingRules_def db_call.simps store_view_def engine_Reload_def)
qed

section \<open>An example\<close>

definition admin_peer :: sip_peer_row where
  "admin_peer = \<lparr>sp_Name = ''gw'', sp_Address = ''10.0.0.9'', sp_Port = 5060, sp_Transport = ''udp'', sp_Domain = ''gw.net'', sp_Enabled = True,
     sp_AuthUser = [], sp_AuthPass = []\<rparr>"

definition admin_rule :: "string \<Rightarrow> routing_rule" where
  "admin_rule peer = \<lparr>rr_Name = ''r'', rr_Priority = 1, rr_MatchSrcIface = [], rr_MatchSrcPeer = [], rr_MatchDstPrefix = ''33'',
     rr_MatchMSISDNMin = [], rr_MatchMSISDNMax = [], rr_EgressIface = ''sipsimple'', rr_EgressPeer = peer, rr_SFPolicyID = [], rr_Enabled = True\<rparr>"

definition admin_account :: smpp_account where
  "admin_account = \<lparr>sa_ID = ''a1'', sa_Name = ''bank'', sa_SystemID = ''bank'', sa_PasswordHash = ''h'', sa_AllowedIP = [],
     sa_BindType = ''transceiver'', sa_ThroughputLimit = 0, sa_DefaultRouteID = [], sa_Enabled = True\<rparr>"

definition admin_subscriber :: "string \<Rightarrow> subscriber" where
  "admin_subscriber n = \<lparr>sub_MSISDN = n, sub_IMSI = [], sub_IMSRegistered = False, sub_LTEAttached = False, sub_MMENumber = [],
     sub_MMEHost = [], sub_MWDSet = False, sub_UpdatedAt = None\<rparr>"

definition sample_admin :: "string \<Rightarrow> admin_db" where
  "sample_admin peer = \<lparr>ad_accounts = [(''a1'', 5, admin_account)], ad_clients = [], ad_sip_peers = [(''p1'', 5, admin_peer)], ad_diam_peers = [],
     ad_rules = [(''r1'', 5, admin_rule peer)], ad_policies = [],
     ad_subscribers = [(''s1'', 5, admin_subscriber ''331''), (''s2'', 5, admin_subscriber ''332'')], ad_mappings = [],
     ad_db = example_db SQLite [], ad_faults = []\<rparr>"

definition sample_env :: api_env where
  "sample_env = \<lparr>ae_bcrypt = Some, ae_duration = (\<lambda>_. None), ae_zero = go_date 1 1 1 0 0 0 0\<rparr>"

lemmas samples = admin_peer_def admin_rule_def admin_account_def admin_subscriber_def sample_admin_def sample_env_def

lemma sample_wf: "wf_admin (sample_admin peer)"
  by (auto simp: wf_admin_def tbl_ok_def samples account_ok_def bind_types_def sip_peer_ok_def rule_ok_def)

lemmas api_steps = stmt_def reply_done_def require_def unless_used_def answer_def notFound_def x_table_def q_row_def q_rows_def
  ad_call.simps routingRulePeerReference_def ListAllRoutingRules_def row_get_def row_delete_def


lemma sample_delete_refused:
  "api_run sample_env 0 [] (DeletePeerSIP ''p1'') (sample_admin ''gw'') =
     (Failure 409 ''peer is still used by routing rule \"r\"'', sample_admin ''gw'')"
  by (simp add: api_handlers api_steps GetSIPPeerByID_def samples routingRuleLabel_def)

lemma sample_delete_done:
  "api_run sample_env 0 [] (DeletePeerSIP ''p1'') (sample_admin ''other'') = (Success 204 (), (sample_admin ''other'')\<lparr>ad_sip_peers := []\<rparr>)"
  by (simp add: api_handlers api_steps GetSIPPeerByID_def DeleteSIPPeer_def samples)

lemma api_failure_changes_nothing_witness:
  "unchanged (sample_admin ''gw'') (snd (api_run sample_env 0 [] (DeletePeerSIP ''p1'') (sample_admin ''gw'')))"
  by (rule api_failure_changes_nothing) (subst sample_delete_refused, simp only: snd_conv, rule sample_delete_refused)

lemma deleted_peer_unreferenced_witness:
  "''gw'' \<notin> rr_EgressPeer ` set (row_vals (ad_rules (snd (api_run sample_env 0 [] (DeletePeerSIP ''p1'') (sample_admin ''other'')))))"
proof -
  have "deleted_name (DeletePeerSIP ''p1'') (sample_admin ''other'') = Some ''gw''"
    by (simp add: deleted_name_def samples row_get_def)
  from deleted_peer_unreferenced [OF sample_delete_done this] show ?thesis
    unfolding sample_delete_done by (auto simp: image_iff)
qed

definition sample_change :: smppAccInput where
  "sample_change = \<lparr>ai_Name = ''Bank'', ai_SystemID = ''bank2'', ai_Password = [], ai_AllowedIP = [], ai_BindType = ''receiver'',
     ai_ThroughputLimit = 9, ai_Enabled = False\<rparr>"

lemma sample_account_changed:
  "fst (api_run sample_env 0 [] (UpdateAccount ''a1'' sample_change) (sample_admin ''gw'')) = Success 204 ()"
  by (simp add: api_handlers api_steps GetSMPPServerAccountByID_def UpdateSMPPServerAccount_def row_update_def samples
      sample_change_def account_ok_def bind_types_def conflict_def)

lemma account_update_witness:
  "\<exists>a. row_get ''a1'' (ad_accounts (snd (api_run sample_env 0 [] (UpdateAccount ''a1'' sample_change) (sample_admin ''gw'')))) = Some a \<and>
     sa_PasswordHash a = ''h'' \<and> sa_SystemID a = ''bank2''"
proof -
  have "api_run sample_env 0 [] (UpdateAccount ''a1'' sample_change) (sample_admin ''gw'') =
      (Success 204 (), snd (api_run sample_env 0 [] (UpdateAccount ''a1'' sample_change) (sample_admin ''gw'')))"
    using sample_account_changed by (metis prod.collapse)
  from account_update [OF this sample_wf] show ?thesis by (auto simp: sample_change_def samples row_get_def)
qed

lemma sample_subscriber_changed:
  "fst (api_run sample_env 0 [] (UpdateSubscriber ''s1'' (admin_subscriber ''332'')) (sample_admin ''gw'')) = Success 204 ()"
  by (simp add: api_handlers api_steps UpsertSubscriberRow_def samples)

lemma subscriber_update_by_number_witness:
  "row_get ''s1'' (ad_subscribers (snd (api_run sample_env 0 [] (UpdateSubscriber ''s1'' (admin_subscriber ''332'')) (sample_admin ''gw'')))) =
     row_get ''s1'' (ad_subscribers (sample_admin ''gw''))"
proof -
  have "api_run sample_env 0 [] (UpdateSubscriber ''s1'' (admin_subscriber ''332'')) (sample_admin ''gw'') =
      (Success 204 (), snd (api_run sample_env 0 [] (UpdateSubscriber ''s1'' (admin_subscriber ''332'')) (sample_admin ''gw'')))"
    using sample_subscriber_changed by (metis prod.collapse)
  from subscriber_update_by_number [OF this sample_wf, of "''s2''" 5 "admin_subscriber ''332''"] show ?thesis
    by (auto simp: sample_admin_def)
qed


lemma created_rule_routes_witness:
  "\<exists>d'. api_run sample_env 0 ''r2'' (CreateRule (admin_rule ''gw'')) (sample_admin ''other'') = (Success 201 (), d') \<and>
     fst (loader_load (store_view d') []) = Ok [admin_rule ''other'', admin_rule ''gw'']"
proof -
  have "fst (api_run sample_env 0 ''r2'' (CreateRule (admin_rule ''gw'')) (sample_admin ''other'')) = Success 201 ()"
    by (simp add: api_handlers api_steps only_fallback_def validateRoutingRuleInput_def CreateRoutingRule_def row_insert_def samples
        rule_ok_def conflict_def)
  then obtain d' where d: "api_run sample_env 0 ''r2'' (CreateRule (admin_rule ''gw'')) (sample_admin ''other'') = (Success 201 (), d')"
    by (metis prod.collapse)
  have "db_faults (ad_db (sample_admin ''other'')) = []" by (simp add: sample_admin_def)
  from created_rule_routes [OF d this, of "[]"] have "fst (loader_load (store_view d') []) = Ok [admin_rule ''other'', admin_rule ''gw'']"
    by (simp add: samples)
  then show ?thesis using d by blast
qed

end
