(* ===== verification/Notify.thy ===== *)
theory Notify
  imports Api
begin

text \<open>
  How a change of a table reaches the parts that keep a copy of it (\<open>internal/store/sqlite/notify.go\<close>): the newest
  \<open>updated_at\<close> of every subscribed table is polled, and an event is put into each subscriber's channel, unless it is
  full, when it is later than the newest seen before.
\<close>

section \<open>The notifier\<close>

datatype admin_table_name =
    SMPPServerAccounts | SMPPClients | SIPPeers | DiameterPeers | RoutingRules | SFPolicies | Subscribers | SGDMMEMappings

text \<open>
  A subscriber's channel has a capacity and holds events; \<open>nt_seen\<close> is the newest time seen, the empty text being
  \<open>None\<close>, which is before any time.
\<close>

record channel =
  ch_cap :: nat
  ch_events :: nat

record notifier =
  nt_subs :: "(admin_table_name \<times> channel) list"
  nt_seen :: "admin_table_name \<rightharpoonup> int option"

definition channels :: "admin_table_name \<Rightarrow> notifier \<Rightarrow> channel list" where
  "channels tn n = map snd (filter (\<lambda>x. fst x = tn) (nt_subs n))"

definition table_times :: "admin_db \<Rightarrow> admin_table_name \<Rightarrow> int list" where
  "table_times d tn = (case tn of
       SMPPServerAccounts \<Rightarrow> map (fst \<circ> snd) (ad_accounts d)
     | SMPPClients \<Rightarrow> map (fst \<circ> snd) (ad_clients d)
     | SIPPeers \<Rightarrow> map (fst \<circ> snd) (ad_sip_peers d)
     | DiameterPeers \<Rightarrow> map (fst \<circ> snd) (ad_diam_peers d)
     | RoutingRules \<Rightarrow> map (fst \<circ> snd) (ad_rules d)
     | SFPolicies \<Rightarrow> map (fst \<circ> snd) (ad_policies d)
     | Subscribers \<Rightarrow> map (fst \<circ> snd) (ad_subscribers d)
     | SGDMMEMappings \<Rightarrow> map (fst \<circ> snd) (ad_mappings d))"

text \<open>\<open>SELECT COALESCE(MAX(updated_at),'')\<close>.\<close>

definition max_updated :: "admin_table_name \<Rightarrow> admin_db \<Rightarrow> int option option \<times> admin_db" where
  "max_updated tn = ad_call (\<lambda>d. (Some (if table_times d tn = [] then None else Some (Max (set (table_times d tn)))), d))"

fun time_after :: "int option \<Rightarrow> int option \<Rightarrow> bool" where
  "time_after None seen = False"
| "time_after (Some t) None = True"
| "time_after (Some t) (Some l) = (l < t)"

definition newNotifier :: notifier where
  "newNotifier = \<lparr>nt_subs = [], nt_seen = Map.empty\<rparr>"

definition subscribe :: "admin_table_name \<Rightarrow> nat \<Rightarrow> notifier \<times> admin_db \<Rightarrow> notifier \<times> admin_db" where
  "subscribe tn cap = (\<lambda>(n, d).
     let n = n\<lparr>nt_subs := nt_subs n @ [(tn, \<lparr>ch_cap = cap, ch_events = 0\<rparr>)]\<rparr> in
     if nt_seen n tn = None then
       (case max_updated tn d of
          (Some m, d) \<Rightarrow> (n\<lparr>nt_seen := (nt_seen n)(tn \<mapsto> m)\<rparr>, d)
        | (None, d) \<Rightarrow> (n, d))
     else (n, d))"

definition put_event :: "channel \<Rightarrow> channel" where
  "put_event ch = (if ch_events ch < ch_cap ch then ch\<lparr>ch_events := ch_events ch + 1\<rparr> else ch)"

definition checkTable :: "admin_table_name \<Rightarrow> notifier \<times> admin_db \<Rightarrow> notifier \<times> admin_db" where
  "checkTable tn = (\<lambda>(n, d).
     case max_updated tn d of
       (None, d) \<Rightarrow> (n, d)
     | (Some m, d) \<Rightarrow>
         (let seen = (case nt_seen n tn of Some l \<Rightarrow> l | None \<Rightarrow> None) in
          if time_after m seen
          then (n\<lparr>nt_seen := (nt_seen n)(tn \<mapsto> m), nt_subs := map (\<lambda>(t, ch). (t, if t = tn then put_event ch else ch)) (nt_subs n)\<rparr>, d)
          else (n, d)))"

text \<open>The tables are gone through in the order in which the map of the subscribers gives them.\<close>

definition poll :: "admin_table_name list \<Rightarrow> notifier \<times> admin_db \<Rightarrow> notifier \<times> admin_db" where
  "poll tables nd = fold checkTable (filter (\<lambda>tn. tn \<in> fst ` set (nt_subs (fst nd))) tables) nd"


section \<open>The notifier of PostgreSQL\<close>

text \<open>
  \<open>internal/store/postgres/notify.go\<close>: triggers send notifications on channels named after the tables; the first
  subscriber of a table makes the connection listen to its channel. What the connection gives while it is waited on
  is an input; an error ends the loop.
\<close>

record pg_notifier =
  pg_subs :: "(string \<times> channel) list"
  pg_listening :: "string list"

definition changed_suffix :: string where
  "changed_suffix = ''_changed''"

definition tableName :: "string \<Rightarrow> string" where
  "tableName c =
     (let n = length changed_suffix in
      if length c > n \<and> drop (length c - n) c = changed_suffix then take (length c - n) c else c)"

definition pg_subscribe :: "bool \<Rightarrow> string \<Rightarrow> nat \<Rightarrow> pg_notifier \<Rightarrow> bool \<times> pg_notifier" where
  "pg_subscribe listen_ok tbl cap n =
     (let first = tbl \<notin> fst ` set (pg_subs n);
          n = n\<lparr>pg_subs := pg_subs n @ [(tbl, \<lparr>ch_cap = cap, ch_events = 0\<rparr>)]\<rparr> in
      if first then
        if listen_ok then (True, n\<lparr>pg_listening := (tbl @ changed_suffix) # pg_listening n\<rparr>) else (False, n)
      else (True, n))"

definition pg_dispatch :: "string \<Rightarrow> pg_notifier \<Rightarrow> pg_notifier" where
  "pg_dispatch c n = n\<lparr>pg_subs := map (\<lambda>(t, ch). (t, if t = tableName c then put_event ch else ch)) (pg_subs n)\<rparr>"

datatype pg_wait = PgNotification string | PgTimeout | PgError

fun pg_loop :: "pg_wait list \<Rightarrow> pg_notifier \<Rightarrow> pg_notifier" where
  "pg_loop [] n = n"
| "pg_loop (PgTimeout # ws) n = pg_loop ws n"
| "pg_loop (PgError # ws) n = n"
| "pg_loop (PgNotification c # ws) n = pg_loop ws (if c \<in> set (pg_listening n) then pg_dispatch c n else n)"

section \<open>A consumer: the accounts of the SMPP server\<close>

text \<open>
  \<open>main\<close> subscribes a channel and reloads the authenticator for each event; the cache stays what it was when the rows
  cannot be read. A step of the goroutine takes one event of the first channel of the table.
\<close>

fun take_event :: "admin_table_name \<Rightarrow> (admin_table_name \<times> channel) list \<Rightarrow> (admin_table_name \<times> channel) list option" where
  "take_event tn [] = None"
| "take_event tn ((t, ch) # subs) =
     (if t = tn then (if ch_events ch = 0 then None else Some ((t, ch\<lparr>ch_events := ch_events ch - 1\<rparr>) # subs))
      else map_option ((#) (t, ch)) (take_event tn subs))"

definition accounts_watch :: "notifier \<times> admin_db \<times> account_cache \<Rightarrow> notifier \<times> admin_db \<times> account_cache" where
  "accounts_watch = (\<lambda>(n, d, cache).
     case take_event SMPPServerAccounts (nt_subs n) of
       None \<Rightarrow> (n, d, cache)
     | Some subs \<Rightarrow> (let (accs, d) = ListSMPPServerAccounts d in (n\<lparr>nt_subs := subs\<rparr>, d, snd (auth_reload accs cache))))"

section \<open>What a poll does\<close>

definition newest :: "admin_table_name \<Rightarrow> admin_db \<Rightarrow> int option" where
  "newest tn d = (if table_times d tn = [] then None else Some (Max (set (table_times d tn))))"

definition seen_of :: "notifier \<Rightarrow> admin_table_name \<Rightarrow> int option" where
  "seen_of n tn = (case nt_seen n tn of Some l \<Rightarrow> l | None \<Rightarrow> None)"

lemma max_updated_calm: "ad_faults d = [] \<Longrightarrow> max_updated tn d = (Some (newest tn d), d)"
  by (simp add: max_updated_def ad_call.simps newest_def)

lemma checkTable_calm:
  assumes "ad_faults d = []"
  shows "checkTable t (n, d) = (if time_after (newest t d) (seen_of n t)
    then (n\<lparr>nt_seen := (nt_seen n)(t \<mapsto> newest t d), nt_subs := map (\<lambda>(u, ch). (u, if u = t then put_event ch else ch)) (nt_subs n)\<rparr>, d)
    else (n, d))"
  using max_updated_calm [OF assms, of t] by (simp add: checkTable_def seen_of_def Let_def)

lemma channels_put: "channels tn (n\<lparr>nt_seen := s, nt_subs := map (\<lambda>(u, ch). (u, if u = t then put_event ch else ch)) (nt_subs n)\<rparr>) =
    (if t = tn then map put_event (channels tn n) else channels tn n)"
proof -
  have "map snd (filter (\<lambda>x. fst x = tn) (map (\<lambda>(u, ch). (u, if u = t then put_event ch else ch)) subs)) =
      (if t = tn then map put_event (map snd (filter (\<lambda>x. fst x = tn) subs)) else map snd (filter (\<lambda>x. fst x = tn) subs))" for subs
    by (induction subs) auto
  then show ?thesis by (simp add: channels_def)
qed

lemma checkTable_channels:
  assumes "ad_faults d = []"
  shows "snd (checkTable t (n, d)) = d"
    "channels tn (fst (checkTable t (n, d))) =
      (if t = tn \<and> time_after (newest tn d) (seen_of n tn) then map put_event (channels tn n) else channels tn n)"
    "t \<noteq> tn \<Longrightarrow> seen_of (fst (checkTable t (n, d))) tn = seen_of n tn"
  unfolding checkTable_calm [OF assms] by (auto simp: channels_put seen_of_def)

lemma poll_channels:
  assumes "ad_faults d = []" "distinct tables"
  shows "snd (fold checkTable tables (n, d)) = d \<and> channels tn (fst (fold checkTable tables (n, d))) =
    (if tn \<in> set tables \<and> time_after (newest tn d) (seen_of n tn) then map put_event (channels tn n) else channels tn n)"
  using assms(2)
proof (induction tables arbitrary: n)
  case (Cons t tables)
  obtain n' where n': "checkTable t (n, d) = (n', d)" using checkTable_channels(1) [OF assms(1), of t n] by (metis prod.collapse)
  have c: "channels tn n' = (if t = tn \<and> time_after (newest tn d) (seen_of n tn) then map put_event (channels tn n) else channels tn n)"
    "t \<noteq> tn \<Longrightarrow> seen_of n' tn = seen_of n tn"
    using checkTable_channels(2) [OF assms(1), of tn t n] checkTable_channels(3) [OF assms(1), of t tn n] n' by simp_all
  show ?case using Cons.IH [of n'] Cons.prems c n' by auto
qed simp

text \<open>
  A poll, when the store answers: every channel of a table receives an event - kept if the channel has room - when the
  newest change of the table is later than the newest one seen before, and none otherwise.
\<close>

lemma poll_event:
  assumes "ad_faults d = []" "distinct tables" "tn \<in> set tables" "channels tn n \<noteq> []"
  shows "snd (poll tables (n, d)) = d" "channels tn (fst (poll tables (n, d))) =
    (if time_after (newest tn d) (seen_of n tn) then map put_event (channels tn n) else channels tn n)"
proof -
  have "tn \<in> fst ` set (nt_subs n)" using assms(4) by (auto simp: channels_def filter_empty_conv image_iff)
  then show "snd (poll tables (n, d)) = d" "channels tn (fst (poll tables (n, d))) =
    (if time_after (newest tn d) (seen_of n tn) then map put_event (channels tn n) else channels tn n)"
    using poll_channels [OF assms(1), of "filter (\<lambda>tn. tn \<in> fst ` set (nt_subs n)) tables" n tn] assms(2,3)
    by (simp_all add: poll_def)
qed


section \<open>Does the authenticator follow the store?\<close>

lemma take_event_some:
  "channels tn n \<noteq> [] \<Longrightarrow> ch_events (hd (channels tn n)) \<noteq> 0 \<Longrightarrow> \<exists>subs. take_event tn (nt_subs n) = Some subs"
proof -
  have "map snd (filter (\<lambda>x. fst x = tn) subs) \<noteq> [] \<Longrightarrow> ch_events (hd (map snd (filter (\<lambda>x. fst x = tn) subs))) \<noteq> 0 \<Longrightarrow>
      \<exists>us. take_event tn subs = Some us" for subs
    by (induction subs) auto
  then show "channels tn n \<noteq> [] \<Longrightarrow> ch_events (hd (channels tn n)) \<noteq> 0 \<Longrightarrow> ?thesis" unfolding channels_def by blast
qed

lemma take_event_none:
  "\<forall>ch \<in> set (channels tn n). ch_events ch = 0 \<Longrightarrow> take_event tn (nt_subs n) = None"
proof -
  have "\<forall>ch \<in> set (map snd (filter (\<lambda>x. fst x = tn) subs)). ch_events ch = 0 \<Longrightarrow> take_event tn subs = None" for subs
    by (induction subs) auto
  then show "\<forall>ch \<in> set (channels tn n). ch_events ch = 0 \<Longrightarrow> ?thesis" unfolding channels_def by blast
qed

lemma put_event_positive: "0 < ch_cap ch \<Longrightarrow> 0 < ch_events (put_event ch)"
  by (simp add: put_event_def)

lemma newest_member: "t \<in> set (table_times d tn) \<Longrightarrow> \<exists>m. newest tn d = Some m \<and> t \<le> m"
  by (auto simp: newest_def)

lemma time_after_member:
  assumes "t \<in> set (table_times d tn)" "case seen_of n tn of None \<Rightarrow> True | Some l \<Rightarrow> l < t"
  shows "time_after (newest tn d) (seen_of n tn)"
  using newest_member [OF assms(1)] assms(2) by (cases "seen_of n tn") auto

lemma watch_reloads:
  assumes "channels SMPPServerAccounts n \<noteq> []" "ch_events (hd (channels SMPPServerAccounts n)) \<noteq> 0" "ad_faults d = []"
  shows "snd (snd (accounts_watch (n, d, cache))) =
    auth_cache (by_text sa_Name (by_text sa_SystemID (row_vals (ad_accounts d)))) Map.empty"
  using take_event_some [OF assms(1,2)] assms(3)
  by (auto simp: accounts_watch_def ListSMPPServerAccounts_def q_rows_def ad_call.simps auth_reload_def)


lemma delete_times: "set (table_times (ad_accounts_update (\<lambda>_. row_delete rid (ad_accounts d)) e) SMPPServerAccounts) \<subseteq>
    set (table_times d SMPPServerAccounts)"
  by (auto simp: table_times_def row_delete_def)

text \<open>
  A deletion does not: the newest time of the table is no later than before, so no event is sent, and an account that is
  deleted can still bind.
\<close>

theorem deleted_account_still_binds:
  assumes "DeleteSMPPServerAccount rid d = (Some u, d')" "ad_faults d' = []"
    and "\<forall>t \<in> set (table_times d SMPPServerAccounts). \<exists>l. seen_of n SMPPServerAccounts = Some l \<and> t \<le> l"
    and "distinct tables" "SMPPServerAccounts \<in> set tables" "\<forall>ch \<in> set (channels SMPPServerAccounts n). ch_events ch = 0"
    and "Authenticate bcrypt cache systemID password remote = Allowed acc"
  shows "row_get rid (ad_accounts d') = None \<and>
    (let (n', d'', cache') = accounts_watch (fst (poll tables (n, d')), d', cache) in
       Authenticate bcrypt cache' systemID password remote = Allowed acc)"
proof -
  from accounts.succeeded [OF assms(1) [unfolded DeleteSMPPServerAccount_def]] obtain fs where
    d: "d' = ad_accounts_update (\<lambda>_. row_delete rid (ad_accounts d)) (d\<lparr>ad_faults := fs\<rparr>)" by auto
  have "\<not> time_after (newest SMPPServerAccounts d') (seen_of n SMPPServerAccounts)"
  proof (cases "table_times d' SMPPServerAccounts = []")
    case False
    then have "Max (set (table_times d' SMPPServerAccounts)) \<in> set (table_times d SMPPServerAccounts)"
      using delete_times [of rid d "d\<lparr>ad_faults := fs\<rparr>"] Max_in [of "set (table_times d' SMPPServerAccounts)"] by (auto simp: d)
    then show ?thesis using assms(3) False by (auto simp: newest_def)
  qed (simp add: newest_def)
  then have "channels SMPPServerAccounts (fst (poll tables (n, d'))) = channels SMPPServerAccounts n"
    using poll_event(2) [OF assms(2,4,5), of n] poll_channels [OF assms(2), of "filter (\<lambda>tn. tn \<in> fst ` set (nt_subs n)) tables" n SMPPServerAccounts] assms(4)
    by (simp add: poll_def)
  then have "take_event SMPPServerAccounts (nt_subs (fst (poll tables (n, d')))) = None"
    using take_event_none [of SMPPServerAccounts "fst (poll tables (n, d'))"] assms(6) by simp
  then show ?thesis
    using assms(7) by (simp add: accounts_watch_def d row_get_delete)
qed

text \<open>
  The notifier of PostgreSQL ends with the first error of its connection: nothing that happens later reaches anyone.
\<close>

theorem pg_notifier_dies: "pg_loop (ws @ PgError # vs) n = pg_loop ws n"
proof (induction ws arbitrary: n)
  case (Cons w ws)
  then show ?case by (cases w) auto
qed simp


definition sample_notifier :: notifier where
  "sample_notifier = \<lparr>nt_subs = [(SMPPServerAccounts, \<lparr>ch_cap = 8, ch_events = 0\<rparr>)], nt_seen = [SMPPServerAccounts \<mapsto> Some 5]\<rparr>"

lemma sample_notifier_facts:
  "channels SMPPServerAccounts sample_notifier = [\<lparr>ch_cap = 8, ch_events = 0\<rparr>]" "seen_of sample_notifier SMPPServerAccounts = Some 5"
  "table_times (sample_admin peer) SMPPServerAccounts = [5]"
  by (simp_all add: channels_def seen_of_def sample_notifier_def table_times_def sample_admin_def)


lemma deleted_account_still_binds_witness:
  "\<exists>d'. DeleteSMPPServerAccount ''a1'' (sample_admin ''gw'') = (Some (), d') \<and> row_get ''a1'' (ad_accounts d') = None \<and>
     Authenticate (\<lambda>h p. True) (snd (snd (accounts_watch (fst (poll [SMPPServerAccounts] (sample_notifier, d')), d', [''bank'' \<mapsto> admin_account]))))
       ''bank'' ''secret'' ''10.0.0.1:7'' = Allowed admin_account"
proof -
  define d' where "d' = (sample_admin ''gw'')\<lparr>ad_accounts := []\<rparr>"
  have u: "DeleteSMPPServerAccount ''a1'' (sample_admin ''gw'') = (Some (), d')"
    by (simp add: DeleteSMPPServerAccount_def x_table_def ad_call.simps row_delete_def samples d'_def)
  have f: "ad_faults d' = []" "\<forall>t \<in> set (table_times (sample_admin ''gw'') SMPPServerAccounts). \<exists>l. seen_of sample_notifier SMPPServerAccounts = Some l \<and> t \<le> l"
    "distinct [SMPPServerAccounts]" "SMPPServerAccounts \<in> set [SMPPServerAccounts]"
    "\<forall>ch \<in> set (channels SMPPServerAccounts sample_notifier). ch_events ch = 0"
    by (simp_all add: d'_def sample_admin_def table_times_def sample_notifier_facts)
  have a: "Authenticate (\<lambda>h p. True) [''bank'' \<mapsto> admin_account] ''bank'' ''secret'' ''10.0.0.1:7'' = Allowed admin_account"
    by (simp add: Authenticate_def samples)
  from deleted_account_still_binds [OF u f a] u show ?thesis by (auto simp: split_beta Let_def)
qed

end
