(* ===== verification/Config.thy ===== *)
theory Config
  imports SipMessages
begin

text \<open>
  The configuration (\<open>internal/config/config.go\<close>): what the file may set, the defaults filled in after reading
  it, and what \<open>main\<close> derives from it at the start - the TLS settings of the SMPP listener, the store and the level
  of the log. Reading YAML, keys and certificates is third-party code, of which the results are parameters.
\<close>

section \<open>What can be configured\<close>

record log_config =
  lc_File :: string
  lc_Level :: string

record smsc_config =
  sc_Address :: string
  sc_SGdSCAddressEncoding :: string
  sc_MaxQueueLifetime :: duration

record numbering_config =
  nc_DefaultCountryCode :: string
  nc_LocalNationalLength :: int

record smpp_server_config =
  ss_Address :: string
  ss_Port :: int
  ss_Listen :: string
  ss_MaxConnections :: int
  ss_EnquireLinkInterval :: duration
  ss_ResponseTimeout :: duration

record smpp_tls_config =
  st_Address :: string
  st_Port :: int
  st_Listen :: string
  st_CertFile :: string
  st_KeyFile :: string
  st_RequireClientCert :: bool
  st_VerifyClientCert :: bool
  st_ClientCAFile :: string

record sip_config =
  si_Address :: string
  si_Port :: int
  si_Listen :: string
  si_FQDN :: string
  si_Transport :: string
  si_ISC :: isc_settings

record diameter_config =
  di_Address :: string
  di_Port :: int
  di_Listen :: string
  di_Transport :: string
  di_LocalFQDN :: string
  di_LocalRealm :: string
  di_S6CCacheTTL :: duration

record database_config =
  db_Driver :: string
  db_DSN :: string
  db_PollInterval :: duration

record api_config =
  ac_Address :: string
  ac_Port :: int
  ac_Listen :: string

record config =
  cf_SMSC :: smsc_config
  cf_Numbering :: numbering_config
  cf_Server :: smpp_server_config
  cf_ServerTLS :: smpp_tls_config
  cf_OutboundCAFile :: string
  cf_SIP :: sip_config
  cf_Diameter :: diameter_config
  cf_Database :: database_config
  cf_API :: api_config
  cf_Log :: log_config

section \<open>Defaults\<close>

text \<open>\<open>strconv.Itoa\<close> and \<open>net.JoinHostPort\<close>, which puts an IPv6 address or a zone into brackets.\<close>

definition Itoa :: "int \<Rightarrow> string" where
  "Itoa n = (if n < 0 then CHR ''-'' # decimal (nat (- n)) else decimal (nat n))"

definition JoinHostPort :: "string \<Rightarrow> string \<Rightarrow> string" where
  "JoinHostPort host port =
     (if CHR '':'' \<in> set host \<or> CHR ''%'' \<in> set host then ''['' @ host @ '']:'' @ port else host @ '':'' @ port)"

text \<open>The address of a listener: the fields of address and port when one is set, or else what is there.\<close>

definition listen_address :: "string \<Rightarrow> int \<Rightarrow> int \<Rightarrow> string \<Rightarrow> string" where
  "listen_address addr port dflt_port listen =
     (if addr \<noteq> [] \<or> port \<noteq> 0
      then JoinHostPort (if addr = [] then ''0.0.0.0'' else addr) (Itoa (if port = 0 then dflt_port else port))
      else listen)"

definition or_else :: "'a \<Rightarrow> 'a \<Rightarrow> 'a \<Rightarrow> 'a" where
  "or_else zero dflt v = (if v = zero then dflt else v)"

definition smsc_defaults :: "smsc_config \<Rightarrow> smsc_config" where
  "smsc_defaults c = c\<lparr>sc_SGdSCAddressEncoding := or_else [] ''tbcd'' (sc_SGdSCAddressEncoding c),
     sc_MaxQueueLifetime := or_else 0 (7 * 24 * Hour) (sc_MaxQueueLifetime c)\<rparr>"

definition server_defaults :: "smpp_server_config \<Rightarrow> smpp_server_config" where
  "server_defaults c = c\<lparr>ss_Listen := or_else [] ''0.0.0.0:2775'' (listen_address (ss_Address c) (ss_Port c) 2775 (ss_Listen c)),
     ss_MaxConnections := or_else 0 50 (ss_MaxConnections c),
     ss_EnquireLinkInterval := or_else 0 (30 * Second) (ss_EnquireLinkInterval c),
     ss_ResponseTimeout := or_else 0 (10 * Second) (ss_ResponseTimeout c)\<rparr>"

text \<open>The TLS listener has no default: it is started only when it is configured.\<close>

definition tls_defaults :: "smpp_tls_config \<Rightarrow> smpp_tls_config" where
  "tls_defaults c = c\<lparr>st_Listen := listen_address (st_Address c) (st_Port c) 3550 (st_Listen c)\<rparr>"

definition sip_defaults :: "sip_config \<Rightarrow> sip_config" where
  "sip_defaults c = c\<lparr>si_Listen := or_else [] ''0.0.0.0:5060'' (listen_address (si_Address c) (si_Port c) 5060 (si_Listen c)),
     si_Transport := or_else [] ''udp'' (si_Transport c),
     si_ISC := \<lparr>is_AcceptContact = or_else [] ''*;+g.3gpp.smsip'' (is_AcceptContact (si_ISC c)),
       is_MTRequestDisposition = or_else [] ''no-fork'' (is_MTRequestDisposition (si_ISC c)),
       is_SubmitReportDisposition = or_else [] ''no-fork'' (is_SubmitReportDisposition (si_ISC c))\<rparr>\<rparr>"

definition diameter_defaults :: "diameter_config \<Rightarrow> diameter_config" where
  "diameter_defaults c = c\<lparr>di_Listen := or_else [] ''0.0.0.0:3868'' (listen_address (di_Address c) (di_Port c) 3868 (di_Listen c)),
     di_Transport := or_else [] ''tcp'' (di_Transport c), di_LocalFQDN := or_else [] ''smsc.local'' (di_LocalFQDN c),
     di_LocalRealm := or_else [] ''local'' (di_LocalRealm c), di_S6CCacheTTL := or_else 0 (300 * Second) (di_S6CCacheTTL c)\<rparr>"

definition database_defaults :: "database_config \<Rightarrow> database_config" where
  "database_defaults c = c\<lparr>db_Driver := or_else [] ''postgres'' (db_Driver c),
     db_PollInterval := or_else 0 (2 * Second) (db_PollInterval c)\<rparr>"

definition api_defaults :: "api_config \<Rightarrow> api_config" where
  "api_defaults c = c\<lparr>ac_Listen := or_else [] ''0.0.0.0:8080'' (listen_address (ac_Address c) (ac_Port c) 8080 (ac_Listen c))\<rparr>"

text \<open>The name of the SIP side is that of the Diameter side when there is none.\<close>

definition applyDefaults :: "config \<Rightarrow> config" where
  "applyDefaults c =
     (let sip = sip_defaults (cf_SIP c);
          diameter = diameter_defaults (cf_Diameter c) in
      c\<lparr>cf_Numbering := (cf_Numbering c)\<lparr>nc_DefaultCountryCode := trim_plus (trim_space (nc_DefaultCountryCode (cf_Numbering c)))\<rparr>,
        cf_SMSC := smsc_defaults (cf_SMSC c), cf_Server := server_defaults (cf_Server c), cf_ServerTLS := tls_defaults (cf_ServerTLS c),
        cf_Diameter := diameter, cf_SIP := sip\<lparr>si_FQDN := or_else [] (di_LocalFQDN diameter) (si_FQDN sip)\<rparr>,
        cf_Database := database_defaults (cf_Database c), cf_API := api_defaults (cf_API c)\<rparr>)"

text \<open>Reading the file and its YAML give a configuration, or fail.\<close>

definition config_Load :: "bytes option \<Rightarrow> (bytes \<Rightarrow> config option) \<Rightarrow> config outcome" where
  "config_Load file unmarshal =
     (case file of
        None \<Rightarrow> Err ''read config''
      | Some data \<Rightarrow> (case unmarshal data of None \<Rightarrow> Err ''parse config'' | Some c \<Rightarrow> Ok (applyDefaults c)))"

section \<open>The start\<close>

datatype client_auth = NoClientCert | RequireAnyClientCert | VerifyClientCertIfGiven | RequireAndVerifyClientCert

record ('cert, 'pool) tls_config =
  tl_Certificate :: 'cert
  tl_ClientCAs :: "'pool option"
  tl_ClientAuth :: client_auth

text \<open>What the file system and the TLS library give: a key pair, the contents of a file, the certificates of a PEM file.\<close>

record ('cert, 'pool) tls_files =
  tf_keypair :: "string \<Rightarrow> string \<Rightarrow> 'cert option"
  tf_read :: "string \<Rightarrow> bytes option"
  tf_pool :: "bytes \<Rightarrow> 'pool option"

definition client_auth_of :: "bool \<Rightarrow> bool \<Rightarrow> client_auth" where
  "client_auth_of requires verifies =
     (if requires \<and> verifies then RequireAndVerifyClientCert
      else if requires then RequireAnyClientCert
      else if verifies then VerifyClientCertIfGiven else NoClientCert)"

definition buildInboundSMPPTLSConfig :: "('cert, 'pool) tls_files \<Rightarrow> config \<Rightarrow> ('cert, 'pool) tls_config option outcome" where
  "buildInboundSMPPTLSConfig T cfg =
     (let c = cf_ServerTLS cfg in
      if st_Listen c = [] then Ok None
      else if st_CertFile c = [] \<or> st_KeyFile c = [] then Err ''smpp.server_tls requires cert_file and key_file''
      else case tf_keypair T (st_CertFile c) (st_KeyFile c) of
        None \<Rightarrow> Err ''load SMPP TLS keypair''
      | Some cert \<Rightarrow>
          obind (if \<not> st_VerifyClientCert c then Ok None
                 else if st_ClientCAFile c = [] then Err ''smpp.server_tls.verify_client_cert requires smpp.server_tls.client_ca_file''
                 else case tf_read T (st_ClientCAFile c) of
                   None \<Rightarrow> Err ''read SMPP client CA file''
                 | Some pem \<Rightarrow> (case tf_pool T pem of None \<Rightarrow> Err ''parse SMPP client CA file: no certificates found'' | Some p \<Rightarrow> Ok (Some p)))
            (\<lambda>pool. Ok (Some \<lparr>tl_Certificate = cert, tl_ClientCAs = pool,
               tl_ClientAuth = client_auth_of (st_RequireClientCert c) (st_VerifyClientCert c)\<rparr>)))"

definition openStore :: "config \<Rightarrow> backend outcome" where
  "openStore cfg =
     (if db_Driver (cf_Database cfg) = ''postgres'' then Ok Postgres
      else if db_Driver (cf_Database cfg) = ''sqlite'' then Ok SQLite
      else Err (''unsupported database driver: '' @ quoted (db_Driver (cf_Database cfg))))"

datatype log_level = LevelDebug | LevelInfo | LevelWarn | LevelError

definition setupLogging :: "bool \<Rightarrow> string \<Rightarrow> log_level" where
  "setupLogging debug logLevel =
     (if debug \<or> logLevel = ''debug'' then LevelDebug
      else if logLevel = ''warn'' then LevelWarn
      else if logLevel = ''error'' then LevelError
      else LevelInfo)"

section \<open>Properties\<close>

lemma Itoa_nonempty [simp]: "Itoa n \<noteq> []"
proof -
  have "decimal k \<noteq> []" for k by (subst decimal.simps) simp
  then show ?thesis by (simp add: Itoa_def)
qed

lemma JoinHostPort_nonempty [simp]: "JoinHostPort h p \<noteq> []"
  by (simp add: JoinHostPort_def)

lemma or_else_nonzero: "dflt \<noteq> zero \<Longrightarrow> or_else zero dflt v \<noteq> zero"
  by (simp add: or_else_def)

lemma or_else_twice [simp]: "or_else zero dflt (or_else zero dflt v) = or_else zero dflt v"
  by (simp add: or_else_def)

lemma listen_twice [simp]:
  "listen_address a p d (listen_address a p d l) = listen_address a p d l"
  "listen_address a p d (or_else [] e (listen_address a p d l)) = or_else [] (listen_address a p d e) (listen_address a p d l)"
  by (auto simp: listen_address_def or_else_def)

lemma listen_default [simp]: "or_else [] e (or_else [] (listen_address a p d e) (listen_address a p d l)) = or_else [] e (listen_address a p d l)"
  by (auto simp: listen_address_def or_else_def)

lemmas config_parts = smsc_defaults_def server_defaults_def tls_defaults_def sip_defaults_def diameter_defaults_def
  database_defaults_def api_defaults_def

text \<open>
  After loading, every listener but that of SMPP over TLS has an address, every interval is set, and so are the names
  of the SIP and of the Diameter side; a port or address that is given decides the listener, whatever the older field
  says.
\<close>

theorem config_complete:
  assumes "config_Load file unmarshal = Ok c"
  shows "ss_Listen (cf_Server c) \<noteq> [] \<and> si_Listen (cf_SIP c) \<noteq> [] \<and> di_Listen (cf_Diameter c) \<noteq> [] \<and> ac_Listen (cf_API c) \<noteq> [] \<and>
    si_FQDN (cf_SIP c) \<noteq> [] \<and> di_LocalFQDN (cf_Diameter c) \<noteq> [] \<and> sc_MaxQueueLifetime (cf_SMSC c) \<noteq> 0 \<and>
    db_PollInterval (cf_Database c) \<noteq> 0 \<and> di_S6CCacheTTL (cf_Diameter c) \<noteq> 0 \<and> ss_MaxConnections (cf_Server c) \<noteq> 0 \<and>
    (ss_Address (cf_Server c) \<noteq> [] \<and> ss_Port (cf_Server c) \<noteq> 0 \<longrightarrow>
       ss_Listen (cf_Server c) = JoinHostPort (ss_Address (cf_Server c)) (Itoa (ss_Port (cf_Server c))))"
proof -
  obtain d where c: "c = applyDefaults d" using assms by (auto simp: config_Load_def split: option.splits)
  have "listen_address a p k l = JoinHostPort a (Itoa p)" if "a \<noteq> []" "p \<noteq> 0" for a p k l
    using that by (simp add: listen_address_def)
  then show ?thesis
    by (simp add: c applyDefaults_def Let_def config_parts or_else_nonzero) (simp add: or_else_def)
qed

text \<open>
  The defaults are stable: a configuration that was completed once, its country code being digits then, is not changed
  by loading it again.
\<close>

theorem config_defaults_stable:
  assumes "\<forall>k \<in> set (nc_DefaultCountryCode (cf_Numbering (applyDefaults c))). is_digit k"
  shows "applyDefaults (applyDefaults c) = applyDefaults c"
proof -
  have "trim_plus (trim_space (nc_DefaultCountryCode (cf_Numbering (applyDefaults c)))) = nc_DefaultCountryCode (cf_Numbering (applyDefaults c))"
    using trim_space_digits [OF assms] trim_plus_digits [OF assms] by simp
  moreover have "or_else [] f (or_else [] f v) = or_else [] f v" for f v :: string by simp
  ultimately show ?thesis by (simp add: applyDefaults_def Let_def config_parts)
qed

text \<open>
  A listener over TLS that is to require and verify the certificates of its clients does: it is started only with a
  pool of authorities to verify them against; and clients are verified exactly when that is configured.
\<close>

theorem tls_verifies_clients:
  assumes "buildInboundSMPPTLSConfig T cfg = Ok (Some t)"
  shows "(st_VerifyClientCert (cf_ServerTLS cfg) \<longleftrightarrow> tl_ClientAuth t \<in> {VerifyClientCertIfGiven, RequireAndVerifyClientCert}) \<and>
    (st_RequireClientCert (cf_ServerTLS cfg) \<longleftrightarrow> tl_ClientAuth t \<in> {RequireAnyClientCert, RequireAndVerifyClientCert}) \<and>
    (st_VerifyClientCert (cf_ServerTLS cfg) \<longleftrightarrow> tl_ClientCAs t \<noteq> None)"
  using assms
  by (auto simp: buildInboundSMPPTLSConfig_def Let_def client_auth_of_def split: if_splits option.splits)

section \<open>Examples\<close>

definition empty_config :: config where
  "empty_config = \<lparr>cf_SMSC = \<lparr>sc_Address = [], sc_SGdSCAddressEncoding = [], sc_MaxQueueLifetime = 0\<rparr>,
     cf_Numbering = \<lparr>nc_DefaultCountryCode = ''49'', nc_LocalNationalLength = 0\<rparr>,
     cf_Server = \<lparr>ss_Address = [], ss_Port = 0, ss_Listen = [], ss_MaxConnections = 0, ss_EnquireLinkInterval = 0, ss_ResponseTimeout = 0\<rparr>,
     cf_ServerTLS = \<lparr>st_Address = [], st_Port = 3551, st_Listen = [], st_CertFile = ''c'', st_KeyFile = ''k'', st_RequireClientCert = True,
       st_VerifyClientCert = True, st_ClientCAFile = ''ca''\<rparr>,
     cf_OutboundCAFile = [],
     cf_SIP = \<lparr>si_Address = [], si_Port = 0, si_Listen = [], si_FQDN = [], si_Transport = [],
       si_ISC = \<lparr>is_AcceptContact = [], is_MTRequestDisposition = [], is_SubmitReportDisposition = []\<rparr>\<rparr>,
     cf_Diameter = \<lparr>di_Address = ''::1'', di_Port = 0, di_Listen = [], di_Transport = [], di_LocalFQDN = [], di_LocalRealm = [], di_S6CCacheTTL = 0\<rparr>,
     cf_Database = \<lparr>db_Driver = [], db_DSN = [], db_PollInterval = 0\<rparr>, cf_API = \<lparr>ac_Address = [], ac_Port = 0, ac_Listen = []\<rparr>,
     cf_Log = \<lparr>lc_File = [], lc_Level = []\<rparr>\<rparr>"

lemma config_complete_witness:
  "\<exists>c. config_Load (Some []) (\<lambda>_. Some empty_config) = Ok c \<and> si_FQDN (cf_SIP c) \<noteq> [] \<and> ss_Listen (cf_Server c) \<noteq> []"
  using config_complete [of "Some []" "\<lambda>_. Some empty_config" "applyDefaults empty_config"] by (simp add: config_Load_def)

lemma example_country_code: "nc_DefaultCountryCode (cf_Numbering (applyDefaults empty_config)) = ''49''"
proof -
  have d: "\<forall>k \<in> set ''49''. is_digit k" by (simp add: is_digit_def)
  have "trim_plus (trim_space ''49'') = ''49''" unfolding trim_space_digits [OF d] by simp
  then show ?thesis by (simp add: applyDefaults_def Let_def empty_config_def)
qed

lemma config_defaults_stable_witness: "applyDefaults (applyDefaults empty_config) = applyDefaults empty_config"
  by (rule config_defaults_stable) (simp add: example_country_code is_digit_def)

definition example_files :: "(string, nat) tls_files" where
  "example_files = \<lparr>tf_keypair = (\<lambda>c k. Some c), tf_read = (\<lambda>_. Some []), tf_pool = (\<lambda>_. Some 1)\<rparr>"

lemma tls_verifies_clients_witness:
  "\<exists>t. buildInboundSMPPTLSConfig example_files (applyDefaults empty_config) = Ok (Some t) \<and>
     tl_ClientAuth t \<in> {VerifyClientCertIfGiven, RequireAndVerifyClientCert}"
proof -
  have "\<exists>t. buildInboundSMPPTLSConfig example_files (applyDefaults empty_config) = Ok (Some t)"
    by (simp add: buildInboundSMPPTLSConfig_def Let_def applyDefaults_def tls_defaults_def listen_address_def empty_config_def example_files_def)
  then obtain t where t: "buildInboundSMPPTLSConfig example_files (applyDefaults empty_config) = Ok (Some t)" ..
  have "st_VerifyClientCert (cf_ServerTLS (applyDefaults empty_config))"
    by (simp add: applyDefaults_def Let_def tls_defaults_def empty_config_def)
  with tls_verifies_clients [OF t] t show ?thesis by blast
qed

end
