(* ===== verification/PeerSync.thy ===== *)
theory PeerSync
  imports SgdServer DiamClient AdminStore
begin

text \<open>
  Which Diameter peers run (\<open>cmd/smsc/main.go\<close>): after the start and after every change of the table of peers, the
  connections to the subscriber servers (Sh and S6c, perhaps SGd besides) and those for SGd alone are brought in line
  with its rows. Peers lie in the heap of the SGd server; a loop over a Go map takes its order as an argument.
\<close>

section \<open>Peers and their configuration\<close>

text \<open>What is needed to reach a peer; the rest of its configuration is in the heap.\<close>

record dial_cfg =
  dc_Host :: string
  dc_Port :: int
  dc_Transport :: string
  dc_Application :: string
  dc_PeerFQDN :: string
  dc_PeerRealm :: string

text \<open>
  The variables of \<open>main\<close>: the active peers by name, those with SGd, their clients (by the peer they use), the clients
  the registry and the reporter were given, and what was started for SGd alone.
\<close>

record sync_world =
  sy_sgd :: sgd_world
  sy_dial :: "nat \<Rightarrow> dial_cfg"
  sy_started :: "nat list"
  sy_fresh :: nat
  sy_hss :: "string \<rightharpoonup> nat"
  sy_hssSGd :: "string \<Rightarrow> bool"
  sy_shClients :: "string \<rightharpoonup> nat"
  sy_s6cClients :: "string \<rightharpoonup> nat"
  sy_sh :: "nat option"
  sy_s6c :: "nat option"
  sy_reporter :: "nat option"
  sy_activeSGd :: "string set"
  sy_sgdCfg :: "string \<rightharpoonup> diameter_peer"

definition peer_cfg_of :: "sync_world \<Rightarrow> nat \<Rightarrow> peer_cfg" where
  "peer_cfg_of w p = fst (sw_heap (sy_sgd w) p)"

definition appIDsForDiameterPeer :: "string list \<Rightarrow> 32 word list" where
  "appIDsForDiameterPeer apps = concat (map (\<lambda>app.
     if app = ''s6c'' then [App3GPP_S6c] else if app = ''sgd'' then [App3GPP_SGd] else if app = ''sh'' then [App3GPP_Sh] else []) apps)"

definition normalize_ids :: "32 word list \<Rightarrow> 32 word list" where
  "normalize_ids ids = sort (remdups (filter (\<lambda>v. v \<noteq> 0) ids))"

definition sameAppIDSet :: "peer_cfg \<Rightarrow> 32 word list \<Rightarrow> bool" where
  "sameAppIDSet cfg want \<longleftrightarrow>
     normalize_ids ((if pc_AppID cfg \<noteq> 0 then [pc_AppID cfg] else []) @ pc_AppIDs cfg) = normalize_ids want"

definition shouldReplaceDiameterPeer ::
  "(peer_cfg \<times> dial_cfg) option \<Rightarrow> bool \<Rightarrow> diameter_peer option \<Rightarrow> bool \<Rightarrow> string list \<Rightarrow> bool" where
  "shouldReplaceDiameterPeer current currentHasSGd want wantHasSGd wantApps =
     (case current of
        None \<Rightarrow> want \<noteq> None
      | Some (cfg, dial) \<Rightarrow> (case want of
          None \<Rightarrow> True
        | Some dp \<Rightarrow> pc_Name cfg \<noteq> dp_Name dp \<or> dc_Host dial \<noteq> dp_Host dp \<or> dc_Port dial \<noteq> dp_Port dp \<or>
            dc_Transport dial \<noteq> dp_Transport dp \<or> dc_PeerRealm dial \<noteq> dp_Realm dp \<or> currentHasSGd \<noteq> wantHasSGd \<or>
            \<not> sameAppIDSet cfg (appIDsForDiameterPeer wantApps)))"

definition shouldReplaceHSSPeer :: "(peer_cfg \<times> dial_cfg) option \<Rightarrow> bool \<Rightarrow> diameter_peer \<Rightarrow> bool \<Rightarrow> bool" where
  "shouldReplaceHSSPeer current currentHasSGd want wantHasSGd =
     shouldReplaceDiameterPeer current currentHasSGd (Some want) wantHasSGd (dp_Applications want)"

section \<open>What is wanted\<close>

record desired_peer =
  de_peer :: diameter_peer
  de_apps :: "string list"
  de_hasSGd :: bool

definition wanted_for :: "string \<Rightarrow> diameter_peer list \<Rightarrow> diameter_peer option" where
  "wanted_for app peers = find (\<lambda>p. dp_Enabled p \<and> app \<in> set (dp_Applications p)) peers"

definition addDesired :: "diameter_peer option \<Rightarrow> string \<Rightarrow> (string \<rightharpoonup> desired_peer) \<Rightarrow> string \<rightharpoonup> desired_peer" where
  "addDesired dp app desired =
     (case dp of
        None \<Rightarrow> desired
      | Some dp \<Rightarrow>
          (let entry = (case desired (dp_Name dp) of
                 Some e \<Rightarrow> e
               | None \<Rightarrow> \<lparr>de_peer = dp, de_apps = [], de_hasSGd = ''sgd'' \<in> set (dp_Applications dp)\<rparr>);
               apps = (if app \<notin> set (de_apps entry) then de_apps entry @ [app] else de_apps entry);
               apps = (if de_hasSGd entry \<and> ''sgd'' \<notin> set apps then apps @ [''sgd''] else apps) in
           desired(dp_Name dp \<mapsto> entry\<lparr>de_apps := apps\<rparr>)))"

definition desired_peers :: "diameter_peer list \<Rightarrow> string \<rightharpoonup> desired_peer" where
  "desired_peers peers = addDesired (wanted_for ''s6c'' peers) ''s6c'' (addDesired (wanted_for ''sh'' peers) ''sh'' Map.empty)"

section \<open>The connections to the subscriber servers\<close>

definition up_to_date :: "(string \<rightharpoonup> desired_peer) \<Rightarrow> sync_world \<Rightarrow> string \<Rightarrow> nat \<Rightarrow> bool" where
  "up_to_date desired w name p \<longleftrightarrow> (case desired name of
       None \<Rightarrow> False
     | Some want \<Rightarrow> \<not> shouldReplaceDiameterPeer (Some (peer_cfg_of w p, sy_dial w p)) (sy_hssSGd w name)
         (Some (de_peer want)) (de_hasSGd want) (de_apps want))"

definition on_sgd :: "(sgd_world \<Rightarrow> sgd_world) \<Rightarrow> sync_world \<Rightarrow> sync_world" where
  "on_sgd f w = w\<lparr>sy_sgd := f (sy_sgd w)\<rparr>"

definition hss_stop :: "(string \<rightharpoonup> desired_peer) \<Rightarrow> string \<Rightarrow> sync_world \<Rightarrow> sync_world" where
  "hss_stop desired name w =
     (case sy_hss w name of
        None \<Rightarrow> w
      | Some p \<Rightarrow>
          if up_to_date desired w name p then w
          else (on_sgd (stop_peer p) (if sy_hssSGd w name then on_sgd (DetachOutboundPeer name) w else w))
            \<lparr>sy_hss := (sy_hss w)(name := None), sy_hssSGd := (sy_hssSGd w)(name := False),
             sy_shClients := (sy_shClients w)(name := None), sy_s6cClients := (sy_s6cClients w)(name := None)\<rparr>)"

text \<open>\<open>NewPeer\<close>: a connection that was never open; a peer lies at a fresh place.\<close>

definition NewPeer :: peer where
  "NewPeer = \<lparr>pe_inbound = False, pe_state = StateClosed, pe_stopped = False, pe_writeCh = [], pe_ceaCh = [],
     pe_dprDone = False, pe_wdReply = False, pe_RemoteFQDN = [], pe_RemoteRealm = [], pe_connOpen = False, pe_phase = Ended,
     pe_cerSent = False, pe_reader = reader.Returned, pe_writing = False, pe_readErr = False, pe_writeErr = False, pe_lingering = None,
     pe_log = []\<rparr>"

definition new_peer :: "peer_cfg \<Rightarrow> dial_cfg \<Rightarrow> sync_world \<Rightarrow> nat \<times> sync_world" where
  "new_peer cfg dial w = (let p = sy_fresh w in
     (p, (on_sgd (\<lambda>s. s\<lparr>sw_heap := (sw_heap s)(p := (cfg, NewPeer))\<rparr>) w)\<lparr>sy_fresh := Suc p, sy_dial := (sy_dial w)(p := dial)\<rparr>))"

definition primary_app :: "string list \<Rightarrow> string \<times> 32 word" where
  "primary_app apps = (if ''sh'' \<notin> set apps \<and> ''s6c'' \<in> set apps then (''s6c'', App3GPP_S6c) else (''sh'', App3GPP_Sh))"

definition hss_config :: "sync_world \<Rightarrow> desired_peer \<Rightarrow> peer_cfg \<times> dial_cfg" where
  "hss_config w want =
     (let dp = de_peer want; (app, appID) = primary_app (de_apps want) in
      (\<lparr>pc_Name = dp_Name dp, pc_AppID = appID, pc_AppIDs = appIDsForDiameterPeer (de_apps want),
        pc_LocalFQDN = sv_localFQDN (sw_server (sy_sgd w)), pc_LocalRealm = sv_localRealm (sw_server (sy_sgd w)),
        pc_OriginStateID = 0, pc_HostIPs = []\<rparr>,
       \<lparr>dc_Host = dp_Host dp, dc_Port = dp_Port dp, dc_Transport = dp_Transport dp, dc_Application = app,
        dc_PeerFQDN = dp_Host dp, dc_PeerRealm = dp_Realm dp\<rparr>))"

definition hss_start :: "(string \<rightharpoonup> desired_peer) \<Rightarrow> string \<Rightarrow> sync_world \<Rightarrow> sync_world" where
  "hss_start desired name w =
     (case desired name of
        None \<Rightarrow> w
      | Some want \<Rightarrow>
          if sy_hss w name \<noteq> None then w
          else (let (cfg, dial) = hss_config w want;
                    (p, w) = new_peer cfg dial w;
                    w = (if de_hasSGd want then on_sgd (AttachOutboundPeer (dp_Name (de_peer want)) p) w else w) in
                w\<lparr>sy_shClients := (if ''sh'' \<in> set (de_apps want) then (sy_shClients w)(name \<mapsto> p) else sy_shClients w),
                  sy_s6cClients := (if ''s6c'' \<in> set (de_apps want) then (sy_s6cClients w)(name \<mapsto> p) else sy_s6cClients w),
                  sy_started := sy_started w @ [p], sy_hss := (sy_hss w)(name \<mapsto> p),
                  sy_hssSGd := (sy_hssSGd w)(name := de_hasSGd want)\<rparr>))"

definition client_of :: "diameter_peer option \<Rightarrow> (string \<rightharpoonup> nat) \<Rightarrow> nat option" where
  "client_of dp clients = (case dp of None \<Rightarrow> None | Some dp \<Rightarrow> clients (dp_Name dp))"

text \<open>\<open>rows\<close> is what the store answers, \<open>olds\<close> and \<open>news\<close> the orders of the two loops.\<close>

definition syncHSSPeers :: "string list \<Rightarrow> string list \<Rightarrow> diameter_peer list option \<Rightarrow> sync_world \<Rightarrow> sync_world" where
  "syncHSSPeers olds news rows w =
     (case rows of
        None \<Rightarrow> w
      | Some peers \<Rightarrow>
          (let desired = desired_peers peers;
               w = fold (hss_stop desired) olds w;
               w = fold (hss_start desired) news w;
               s6c = client_of (wanted_for ''s6c'' peers) (sy_s6cClients w) in
           w\<lparr>sy_sh := client_of (wanted_for ''sh'' peers) (sy_shClients w), sy_s6c := s6c, sy_reporter := s6c\<rparr>))"

section \<open>The connections for SGd alone\<close>

definition sgd_config :: "sync_world \<Rightarrow> diameter_peer \<Rightarrow> peer_cfg \<times> dial_cfg" where
  "sgd_config w dp =
     (\<lparr>pc_Name = dp_Name dp, pc_AppID = App3GPP_SGd, pc_AppIDs = [],
       pc_LocalFQDN = sv_localFQDN (sw_server (sy_sgd w)), pc_LocalRealm = sv_localRealm (sw_server (sy_sgd w)),
       pc_OriginStateID = 0, pc_HostIPs = []\<rparr>,
      \<lparr>dc_Host = dp_Host dp, dc_Port = dp_Port dp, dc_Transport = dp_Transport dp, dc_Application = ''sgd'',
       dc_PeerFQDN = dp_Host dp, dc_PeerRealm = dp_Realm dp\<rparr>)"

definition sgd_remove :: "string \<Rightarrow> sync_world \<Rightarrow> sync_world" where
  "sgd_remove name w = on_sgd (RemoveOutboundPeer name) w"

definition sgd_add :: "diameter_peer \<Rightarrow> sync_world \<Rightarrow> sync_world" where
  "sgd_add dp w =
     (let (cfg, dial) = sgd_config w dp; (p, w) = new_peer cfg dial w in
      (on_sgd (AddOutboundPeer (dp_Name dp) p) w)\<lparr>sy_started := sy_started w @ [p]\<rparr>)"

definition wants_sgd :: "diameter_peer \<Rightarrow> bool" where
  "wants_sgd dp \<longleftrightarrow> ''sgd'' \<in> set (dp_Applications dp) \<and> dp_Enabled dp"

definition by_hss :: "sync_world \<Rightarrow> string \<Rightarrow> bool" where
  "by_hss w name \<longleftrightarrow> sy_hss w name \<noteq> None \<and> sy_hssSGd w name"

definition diameterPeerRuntimeEqual :: "diameter_peer \<Rightarrow> diameter_peer \<Rightarrow> bool" where
  "diameterPeerRuntimeEqual a b \<longleftrightarrow> dp_Name a = dp_Name b \<and> dp_Host a = dp_Host b \<and> dp_Realm a = dp_Realm b \<and> dp_Port a = dp_Port b \<and>
     dp_Transport a = dp_Transport b \<and> dp_Applications a = dp_Applications b \<and> dp_Enabled a = dp_Enabled b"

text \<open>What is looked up under a name that is not there is an empty row.\<close>

definition no_peer :: diameter_peer where
  "no_peer = \<lparr>dp_Name = [], dp_Host = [], dp_Realm = [], dp_Port = 0, dp_Transport = [], dp_Applications = [], dp_Enabled = False\<rparr>"

definition runtime_cfg :: "sync_world \<Rightarrow> string \<Rightarrow> diameter_peer" where
  "runtime_cfg w name = (case sy_sgdCfg w name of None \<Rightarrow> no_peer | Some dp \<Rightarrow> dp)"

definition sgd_row :: "diameter_peer \<Rightarrow> sync_world \<Rightarrow> sync_world" where
  "sgd_row dp w =
     (let name = dp_Name dp in
      if \<not> wants_sgd dp then w
      else if by_hss w name then
        (if name \<in> sy_activeSGd w
         then (sgd_remove name w)\<lparr>sy_activeSGd := sy_activeSGd w - {name}, sy_sgdCfg := (sy_sgdCfg w)(name := None)\<rparr> else w)
      else if name \<in> sy_activeSGd w \<and> diameterPeerRuntimeEqual (runtime_cfg w name) dp then w
      else (sgd_add dp (if name \<in> sy_activeSGd w then sgd_remove name w else w))
        \<lparr>sy_activeSGd := insert name (sy_activeSGd w), sy_sgdCfg := (sy_sgdCfg w)(name \<mapsto> dp)\<rparr>)"

definition sgd_drop :: "string set \<Rightarrow> string \<Rightarrow> sync_world \<Rightarrow> sync_world" where
  "sgd_drop want name w =
     (if name \<in> sy_activeSGd w \<and> name \<notin> want
      then (sgd_remove name w)\<lparr>sy_activeSGd := sy_activeSGd w - {name}, sy_sgdCfg := (sy_sgdCfg w)(name := None)\<rparr> else w)"

definition syncSGdPeers :: "string list \<Rightarrow> diameter_peer list option \<Rightarrow> sync_world \<Rightarrow> sync_world" where
  "syncSGdPeers olds rows w =
     (case rows of
        None \<Rightarrow> w
      | Some peers \<Rightarrow> fold (sgd_drop (dp_Name ` set (filter wants_sgd peers))) olds (fold sgd_row peers w))"

text \<open>A change of the table, or the start: each of the two reads the rows.\<close>

definition diameter_reload :: "string list \<Rightarrow> string list \<Rightarrow> string list \<Rightarrow> sync_world \<times> admin_db \<Rightarrow> sync_world \<times> admin_db" where
  "diameter_reload olds news olds_sgd = (\<lambda>(w, d).
     let (rows, d) = ListDiameterPeers d; w = syncHSSPeers olds news rows w;
         (rows, d) = ListDiameterPeers d in
     (syncSGdPeers olds_sgd rows w, d))"


section \<open>What the loops do to one name\<close>

lemma on_sgd_simps [simp]:
  "sy_dial (on_sgd f w) = sy_dial w" "sy_started (on_sgd f w) = sy_started w" "sy_fresh (on_sgd f w) = sy_fresh w"
  "sy_hss (on_sgd f w) = sy_hss w" "sy_hssSGd (on_sgd f w) = sy_hssSGd w" "sy_shClients (on_sgd f w) = sy_shClients w"
  "sy_s6cClients (on_sgd f w) = sy_s6cClients w" "sy_sh (on_sgd f w) = sy_sh w" "sy_s6c (on_sgd f w) = sy_s6c w"
  "sy_reporter (on_sgd f w) = sy_reporter w" "sy_activeSGd (on_sgd f w) = sy_activeSGd w" "sy_sgdCfg (on_sgd f w) = sy_sgdCfg w"
  "sy_sgd (on_sgd f w) = f (sy_sgd w)"
  by (simp_all add: on_sgd_def)

lemma heap_tables [simp]:
  "sw_heap (DetachOutboundPeer n s) = sw_heap s" "sw_heap (AttachOutboundPeer n q s) = sw_heap s"
  by (simp_all add: DetachOutboundPeer_def AttachOutboundPeer_def unregisterPeerLocked_def sgd_update_def split: option.split)

lemma heap_stop [simp]: "fst (sw_heap (stop_peer p s) q) = fst (sw_heap s q)"
  "pe_stopped (snd (sw_heap (stop_peer p s) q)) \<longleftrightarrow> q = p \<or> pe_stopped (snd (sw_heap s q))"
  by (auto simp: stop_peer_def peer_Stop_def)

lemma hss_stop_effect:
  "sy_hss (hss_stop D n w) m = (case sy_hss w m of Some p \<Rightarrow> if m = n \<and> \<not> up_to_date D w n p then None else Some p | None \<Rightarrow> None)"
  "peer_cfg_of (hss_stop D n w) = peer_cfg_of w" "sy_dial (hss_stop D n w) = sy_dial w" "sy_fresh (hss_stop D n w) = sy_fresh w"
  "pe_stopped (snd (sw_heap (sy_sgd (hss_stop D n w)) q)) \<longleftrightarrow>
     pe_stopped (snd (sw_heap (sy_sgd w) q)) \<or> sy_hss w n = Some q \<and> \<not> up_to_date D w n q"
  by (auto simp: hss_stop_def peer_cfg_of_def split: option.splits)

lemma hss_stop_other:
  "m \<noteq> n \<Longrightarrow> sy_hssSGd (hss_stop D n w) m = sy_hssSGd w m" "m \<noteq> n \<Longrightarrow> sy_shClients (hss_stop D n w) m = sy_shClients w m"
  "m \<noteq> n \<Longrightarrow> sy_s6cClients (hss_stop D n w) m = sy_s6cClients w m"
  by (auto simp: hss_stop_def split: option.split)

lemma hss_stop_kept: "sy_hss w n = Some p \<Longrightarrow> up_to_date D w n p \<Longrightarrow> hss_stop D n w = w"
  by (simp add: hss_stop_def)

lemma hss_stop_absent: "sy_hss w n = None \<Longrightarrow> hss_stop D n w = w"
  by (simp add: hss_stop_def)

lemma up_to_date_stop:
  assumes "sy_hss (hss_stop D n w) m = Some p"
  shows "up_to_date D (hss_stop D n w) m p = up_to_date D w m p"
proof (cases "m = n")
  case True
  then have "sy_hss w n = Some p" "up_to_date D w n p"
    using assms by (auto simp: hss_stop_effect(1) split: option.splits if_splits)
  then show ?thesis by (simp add: hss_stop_kept)
qed (simp add: up_to_date_def hss_stop_effect hss_stop_other split: option.split)

text \<open>
  The invariant: a peer is active under its own name, and its clients are those for the applications it advertises.
\<close>

definition hss_ok :: "sync_world \<Rightarrow> bool" where
  "hss_ok w \<longleftrightarrow> (\<forall>n. case sy_hss w n of
       None \<Rightarrow> sy_shClients w n = None \<and> sy_s6cClients w n = None \<and> \<not> sy_hssSGd w n
     | Some p \<Rightarrow> pc_Name (peer_cfg_of w p) = n \<and> p < sy_fresh w \<and> pc_AppID (peer_cfg_of w p) \<in> set (pc_AppIDs (peer_cfg_of w p)) \<and>
         sy_shClients w n = (if App3GPP_Sh \<in> set (pc_AppIDs (peer_cfg_of w p)) then Some p else None) \<and>
         sy_s6cClients w n = (if App3GPP_S6c \<in> set (pc_AppIDs (peer_cfg_of w p)) then Some p else None))"

lemma hss_okD:
  assumes "hss_ok w"
  shows "sy_hss w n = None \<Longrightarrow> sy_shClients w n = None \<and> sy_s6cClients w n = None \<and> \<not> sy_hssSGd w n"
    and "sy_hss w n = Some p \<Longrightarrow> pc_Name (peer_cfg_of w p) = n \<and> p < sy_fresh w \<and> pc_AppID (peer_cfg_of w p) \<in> set (pc_AppIDs (peer_cfg_of w p)) \<and>
         sy_shClients w n = (if App3GPP_Sh \<in> set (pc_AppIDs (peer_cfg_of w p)) then Some p else None) \<and>
         sy_s6cClients w n = (if App3GPP_S6c \<in> set (pc_AppIDs (peer_cfg_of w p)) then Some p else None)"
proof -
  have c: "case sy_hss w n of None \<Rightarrow> sy_shClients w n = None \<and> sy_s6cClients w n = None \<and> \<not> sy_hssSGd w n
     | Some p \<Rightarrow> pc_Name (peer_cfg_of w p) = n \<and> p < sy_fresh w \<and> pc_AppID (peer_cfg_of w p) \<in> set (pc_AppIDs (peer_cfg_of w p)) \<and>
         sy_shClients w n = (if App3GPP_Sh \<in> set (pc_AppIDs (peer_cfg_of w p)) then Some p else None) \<and>
         sy_s6cClients w n = (if App3GPP_S6c \<in> set (pc_AppIDs (peer_cfg_of w p)) then Some p else None)"
    using assms unfolding hss_ok_def by blast
  show "sy_hss w n = None \<Longrightarrow> sy_shClients w n = None \<and> sy_s6cClients w n = None \<and> \<not> sy_hssSGd w n" using c by simp
  show "sy_hss w n = Some p \<Longrightarrow> pc_Name (peer_cfg_of w p) = n \<and> p < sy_fresh w \<and> pc_AppID (peer_cfg_of w p) \<in> set (pc_AppIDs (peer_cfg_of w p)) \<and>
         sy_shClients w n = (if App3GPP_Sh \<in> set (pc_AppIDs (peer_cfg_of w p)) then Some p else None) \<and>
         sy_s6cClients w n = (if App3GPP_S6c \<in> set (pc_AppIDs (peer_cfg_of w p)) then Some p else None)" using c by simp
qed

lemma hss_stop_ok:
  assumes "hss_ok w"
  shows "hss_ok (hss_stop D n w)"
proof (cases "sy_hss w n")
  case (Some p)
  show ?thesis
  proof (cases "up_to_date D w n p")
    case False
    have n: "sy_hss (hss_stop D n w) n = None" "sy_shClients (hss_stop D n w) n = None" "sy_s6cClients (hss_stop D n w) n = None"
      "\<not> sy_hssSGd (hss_stop D n w) n"
      using Some False by (simp_all add: hss_stop_def)
    have m: "sy_hss (hss_stop D n w) m = sy_hss w m" if "m \<noteq> n" for m
      using that by (simp add: hss_stop_effect(1) split: option.split)
    show ?thesis
      unfolding hss_ok_def
    proof
      fix m
      show "case sy_hss (hss_stop D n w) m of
          None \<Rightarrow> sy_shClients (hss_stop D n w) m = None \<and> sy_s6cClients (hss_stop D n w) m = None \<and> \<not> sy_hssSGd (hss_stop D n w) m
        | Some p \<Rightarrow> pc_Name (peer_cfg_of (hss_stop D n w) p) = m \<and> p < sy_fresh (hss_stop D n w) \<and>
            pc_AppID (peer_cfg_of (hss_stop D n w) p) \<in> set (pc_AppIDs (peer_cfg_of (hss_stop D n w) p)) \<and>
            sy_shClients (hss_stop D n w) m = (if App3GPP_Sh \<in> set (pc_AppIDs (peer_cfg_of (hss_stop D n w) p)) then Some p else None) \<and>
            sy_s6cClients (hss_stop D n w) m = (if App3GPP_S6c \<in> set (pc_AppIDs (peer_cfg_of (hss_stop D n w) p)) then Some p else None)"
      proof (cases "m = n")
        case False
        then show ?thesis
          using hss_okD [OF assms, of m] by (simp add: m hss_stop_effect(2,4) hss_stop_other split: option.split)
      qed (simp add: n)
    qed
  qed (simp add: hss_stop_kept Some assms)
qed (simp add: hss_stop_absent assms)

lemma stop_hss_Some: "sy_hss (hss_stop D n w) m = Some p \<longleftrightarrow> sy_hss w m = Some p \<and> (m = n \<longrightarrow> up_to_date D w m p)"
  by (auto simp: hss_stop_effect(1) split: option.splits if_splits)

lemma stops_hss_Some:
  "sy_hss (fold (hss_stop D) olds w) m = Some p \<longleftrightarrow> sy_hss w m = Some p \<and> (m \<in> set olds \<longrightarrow> up_to_date D w m p)"
proof (induction olds arbitrary: w)
  case (Cons n olds)
  show ?case
    using Cons [of "hss_stop D n w"] stop_hss_Some [of D n w m p] up_to_date_stop [of D n w m p] by auto
qed simp

lemma stops_up_to_date:
  "sy_hss (fold (hss_stop D) olds w) m = Some p \<Longrightarrow> up_to_date D (fold (hss_stop D) olds w) m p = up_to_date D w m p"
proof (induction olds arbitrary: w)
  case (Cons n olds)
  then have "sy_hss (hss_stop D n w) m = Some p" using stops_hss_Some by fastforce
  then show ?case using Cons.IH [of "hss_stop D n w"] Cons.prems up_to_date_stop [of D n w m p] by simp
qed simp

lemma stops_frame:
  "sy_fresh (fold (hss_stop D) olds w) = sy_fresh w" "peer_cfg_of (fold (hss_stop D) olds w) = peer_cfg_of w"
  "sy_dial (fold (hss_stop D) olds w) = sy_dial w"
  by (induction olds arbitrary: w) (simp_all add: hss_stop_effect)

lemma stops_ok: "hss_ok w \<Longrightarrow> hss_ok (fold (hss_stop D) olds w)"
  by (induction olds arbitrary: w) (simp_all add: hss_stop_ok)

lemma stops_mono:
  "pe_stopped (snd (sw_heap (sy_sgd w) q)) \<Longrightarrow> pe_stopped (snd (sw_heap (sy_sgd (fold (hss_stop D) olds w)) q))"
  by (induction olds arbitrary: w) (simp_all add: hss_stop_effect(5))

lemma stops_stopped:
  "sy_hss w m = Some p \<Longrightarrow> m \<in> set olds \<Longrightarrow> \<not> up_to_date D w m p \<Longrightarrow> pe_stopped (snd (sw_heap (sy_sgd (fold (hss_stop D) olds w)) p))"
proof (induction olds arbitrary: w)
  case (Cons n olds)
  show ?case
  proof (cases "m = n")
    case True
    then show ?thesis using Cons.prems by (simp add: stops_mono hss_stop_effect(5))
  next
    case False
    then have "sy_hss (hss_stop D n w) m = Some p" using Cons.prems(1) stop_hss_Some by simp
    then show ?thesis using Cons False up_to_date_stop [of D n w m p] by simp
  qed
qed simp

section \<open>Starting what is missing\<close>

text \<open>What is wanted: an entry for a peer of its name, with an application of a subscriber server.\<close>

definition wanted_ok :: "(string \<rightharpoonup> desired_peer) \<Rightarrow> bool" where
  "wanted_ok D \<longleftrightarrow> (\<forall>n want. D n = Some want \<longrightarrow> dp_Name (de_peer want) = n \<and>
     (''sh'' \<in> set (de_apps want) \<or> ''s6c'' \<in> set (de_apps want)))"

lemma addDesired_ok:
  assumes "wanted_ok D" "app = ''sh'' \<or> app = ''s6c''"
  shows "wanted_ok (addDesired dp app D)"
  using assms unfolding wanted_ok_def addDesired_def Let_def by (auto split: option.splits)

lemma desired_ok: "wanted_ok (desired_peers peers)"
  unfolding desired_peers_def by (intro addDesired_ok) (simp_all add: wanted_ok_def)

lemma set_ids: "set (appIDsForDiameterPeer apps) =
    (if ''s6c'' \<in> set apps then {App3GPP_S6c} else {}) \<union> (if ''sgd'' \<in> set apps then {App3GPP_SGd} else {}) \<union>
    (if ''sh'' \<in> set apps then {App3GPP_Sh} else {})"
  unfolding appIDsForDiameterPeer_def by (induction apps) auto

lemma primary_in: "''sh'' \<in> set apps \<or> ''s6c'' \<in> set apps \<Longrightarrow> snd (primary_app apps) \<in> set (appIDsForDiameterPeer apps)"
  by (auto simp: primary_app_def set_ids)

lemma normalize_ids_set: "normalize_ids xs = sorted_list_of_set (set xs - {0})"
proof -
  have "set (filter (\<lambda>v. v \<noteq> 0) xs) = set xs - {0}" by auto
  then show ?thesis unfolding normalize_ids_def by (metis sorted_list_of_set_sort_remdups)
qed

lemma same_ids: "sameAppIDSet cfg ids \<longleftrightarrow> insert (pc_AppID cfg) (set (pc_AppIDs cfg)) - {0} = set ids - {0}"
proof -
  have "sorted_list_of_set A = sorted_list_of_set B \<longleftrightarrow> A = B" if "finite A" "finite B" for A B :: "32 word set"
    using that by (metis set_sorted_list_of_set)
  then show ?thesis unfolding sameAppIDSet_def normalize_ids_set by auto
qed

text \<open>Starting a peer: a new one under its name, the others as they were.\<close>

lemma hss_start_skip: "D n = None \<or> sy_hss w n \<noteq> None \<Longrightarrow> hss_start D n w = w"
  by (auto simp: hss_start_def split: option.split)

lemma hss_start_new:
  assumes "D n = Some want" "sy_hss w n = None" "w' = hss_start D n w"
  shows "sy_hss w' = (sy_hss w)(n \<mapsto> sy_fresh w)" "sy_fresh w' = Suc (sy_fresh w)" "sy_hssSGd w' = (sy_hssSGd w)(n := de_hasSGd want)"
    "q \<noteq> sy_fresh w \<Longrightarrow> sw_heap (sy_sgd w') q = sw_heap (sy_sgd w) q" "q \<noteq> sy_fresh w \<Longrightarrow> sy_dial w' q = sy_dial w q"
    "(peer_cfg_of w' (sy_fresh w), sy_dial w' (sy_fresh w)) = hss_config w want"
    "sy_shClients w' = (if ''sh'' \<in> set (de_apps want) then (sy_shClients w)(n \<mapsto> sy_fresh w) else sy_shClients w)"
    "sy_s6cClients w' = (if ''s6c'' \<in> set (de_apps want) then (sy_s6cClients w)(n \<mapsto> sy_fresh w) else sy_s6cClients w)"
    "\<not> pe_stopped (snd (sw_heap (sy_sgd w') (sy_fresh w)))"
  using assms by (auto simp: hss_start_def new_peer_def peer_cfg_of_def NewPeer_def Let_def split: prod.split)

lemma hss_config_fields:
  assumes "hss_config w want = (cfg, dial)"
  shows "pc_Name cfg = dp_Name (de_peer want)" "pc_AppID cfg = snd (primary_app (de_apps want))"
    "pc_AppIDs cfg = appIDsForDiameterPeer (de_apps want)" "dc_Host dial = dp_Host (de_peer want)" "dc_Port dial = dp_Port (de_peer want)"
    "dc_Transport dial = dp_Transport (de_peer want)" "dc_PeerRealm dial = dp_Realm (de_peer want)"
  using assms by (auto simp: hss_config_def Let_def split: prod.splits)

lemma hss_config_current:
  assumes "hss_config w want = (cfg, dial)" "''sh'' \<in> set (de_apps want) \<or> ''s6c'' \<in> set (de_apps want)"
  shows "\<not> shouldReplaceDiameterPeer (Some (cfg, dial)) (de_hasSGd want) (Some (de_peer want)) (de_hasSGd want) (de_apps want)"
  using primary_in [OF assms(2)] by (auto simp: shouldReplaceDiameterPeer_def hss_config_fields [OF assms(1)] same_ids)

text \<open>The state while peers are started: what is active is as wanted.\<close>

definition starting :: "(string \<rightharpoonup> desired_peer) \<Rightarrow> sync_world \<Rightarrow> bool" where
  "starting D w \<longleftrightarrow> hss_ok w \<and> (\<forall>n p. sy_hss w n = Some p \<longrightarrow> up_to_date D w n p)"

lemma hss_start_keeps:
  assumes "wanted_ok D" "starting D w" "w' = hss_start D n w"
  shows "starting D w'" "sy_hss w m = Some p \<Longrightarrow> sy_hss w' m = Some p" "q < sy_fresh w \<Longrightarrow> sw_heap (sy_sgd w') q = sw_heap (sy_sgd w) q"
    "sy_fresh w \<le> sy_fresh w'" "D n \<noteq> None \<Longrightarrow> sy_hss w' n \<noteq> None"
    "sy_hss w m = None \<Longrightarrow> sy_hss w' m = Some p \<Longrightarrow> sy_fresh w \<le> p \<and> \<not> pe_stopped (snd (sw_heap (sy_sgd w') p))"
proof -
  have "starting D w' \<and> (\<forall>m p. sy_hss w m = Some p \<longrightarrow> sy_hss w' m = Some p) \<and>
      (\<forall>q. q < sy_fresh w \<longrightarrow> sw_heap (sy_sgd w') q = sw_heap (sy_sgd w) q) \<and> sy_fresh w \<le> sy_fresh w' \<and> (D n \<noteq> None \<longrightarrow> sy_hss w' n \<noteq> None) \<and>
      (\<forall>m p. sy_hss w m = None \<longrightarrow> sy_hss w' m = Some p \<longrightarrow> sy_fresh w \<le> p \<and> \<not> pe_stopped (snd (sw_heap (sy_sgd w') p)))"
  proof (cases "D n = None \<or> sy_hss w n \<noteq> None")
    case True
    then show ?thesis using assms hss_start_skip [of D n w, OF True] by auto
  next
    case False
    then obtain want where D: "D n = Some want" and no: "sy_hss w n = None" by auto
    note new = hss_start_new [OF D no assms(3)]
    let ?p = "sy_fresh w"
    have name: "dp_Name (de_peer want) = n" and apps: "''sh'' \<in> set (de_apps want) \<or> ''s6c'' \<in> set (de_apps want)"
      using assms(1) D unfolding wanted_ok_def by blast+
    have ok: "hss_ok w" and up: "sy_hss w m = Some p \<Longrightarrow> up_to_date D w m p" for m p
      using assms(2) unfolding starting_def by blast+
    have cfg: "pc_Name (peer_cfg_of w' ?p) = n" "pc_AppID (peer_cfg_of w' ?p) \<in> set (pc_AppIDs (peer_cfg_of w' ?p))"
      "pc_AppIDs (peer_cfg_of w' ?p) = appIDsForDiameterPeer (de_apps want)"
      using hss_config_fields [OF new(6) [symmetric]] primary_in [OF apps] name by simp_all
    have old: "peer_cfg_of w' p = peer_cfg_of w p" "sy_dial w' p = sy_dial w p" "p < sy_fresh w" if "sy_hss w m = Some p" for m p
    proof -
      show "p < sy_fresh w" using hss_okD(2) [OF ok that] by blast
      then show "peer_cfg_of w' p = peer_cfg_of w p" "sy_dial w' p = sy_dial w p" using new(4,5) by (simp_all add: peer_cfg_of_def)
    qed
    have cl: "sy_shClients w n = None" "sy_s6cClients w n = None" using hss_okD(1) [OF ok no] by blast+
    have ids: "App3GPP_Sh \<in> set (appIDsForDiameterPeer as) \<longleftrightarrow> ''sh'' \<in> set as" "App3GPP_S6c \<in> set (appIDsForDiameterPeer as) \<longleftrightarrow> ''s6c'' \<in> set as" for as
      by (simp_all add: set_ids)
    have "hss_ok w'"
      unfolding hss_ok_def
    proof
      fix m
      show "case sy_hss w' m of
          None \<Rightarrow> sy_shClients w' m = None \<and> sy_s6cClients w' m = None \<and> \<not> sy_hssSGd w' m
        | Some p \<Rightarrow> pc_Name (peer_cfg_of w' p) = m \<and> p < sy_fresh w' \<and> pc_AppID (peer_cfg_of w' p) \<in> set (pc_AppIDs (peer_cfg_of w' p)) \<and>
            sy_shClients w' m = (if App3GPP_Sh \<in> set (pc_AppIDs (peer_cfg_of w' p)) then Some p else None) \<and>
            sy_s6cClients w' m = (if App3GPP_S6c \<in> set (pc_AppIDs (peer_cfg_of w' p)) then Some p else None)"
      proof (cases "m = n")
        case True
        then show ?thesis using cfg cl by (simp add: new(1,2,3,7,8) ids)
      next
        case False
        then have r: "sy_hss w' m = sy_hss w m" "sy_shClients w' m = sy_shClients w m" "sy_s6cClients w' m = sy_s6cClients w m" "sy_hssSGd w' m = sy_hssSGd w m"
          by (simp_all add: new(1,3,7,8))
        show ?thesis
        proof (cases "sy_hss w m")
          case None
          then show ?thesis using hss_okD(1) [OF ok None] by (simp add: r)
        next
          case (Some p)
          then show ?thesis using hss_okD(2) [OF ok Some] old [OF Some] new(2) by (simp add: r)
        qed
      qed
    qed
    moreover have "up_to_date D w' m p" if "sy_hss w' m = Some p" for m p
    proof (cases "m = n")
      case True
      then have "p = ?p" using that new(1) by simp
      then show ?thesis
        using hss_config_current [OF new(6) [symmetric] apps] True D new(3) by (simp add: up_to_date_def)
    next
      case False
      then have s: "sy_hss w m = Some p" using that new(1) by simp
      show ?thesis using up [OF s] False old [OF s] new(3) by (simp add: up_to_date_def split: option.splits)
    qed
    ultimately have "starting D w'" unfolding starting_def by blast
    then show ?thesis using new(1,2,4,9) no by auto
  qed
  then show "starting D w'" "sy_hss w m = Some p \<Longrightarrow> sy_hss w' m = Some p" "q < sy_fresh w \<Longrightarrow> sw_heap (sy_sgd w') q = sw_heap (sy_sgd w) q"
    "sy_fresh w \<le> sy_fresh w'" "D n \<noteq> None \<Longrightarrow> sy_hss w' n \<noteq> None"
    "sy_hss w m = None \<Longrightarrow> sy_hss w' m = Some p \<Longrightarrow> sy_fresh w \<le> p \<and> \<not> pe_stopped (snd (sw_heap (sy_sgd w') p))"
    by blast+
qed


lemma starts_keep:
  assumes "wanted_ok D" "starting D w"
  shows "starting D (fold (hss_start D) news w) \<and> (\<forall>m p. sy_hss w m = Some p \<longrightarrow> sy_hss (fold (hss_start D) news w) m = Some p) \<and>
    (\<forall>q < sy_fresh w. sw_heap (sy_sgd (fold (hss_start D) news w)) q = sw_heap (sy_sgd w) q) \<and>
    sy_fresh w \<le> sy_fresh (fold (hss_start D) news w) \<and>
    (\<forall>n \<in> set news. D n \<noteq> None \<longrightarrow> sy_hss (fold (hss_start D) news w) n \<noteq> None)"
  using assms(2)
proof (induction news arbitrary: w)
  case (Cons n news)
  define v where "v = hss_start D n w"
  note K = hss_start_keeps [OF assms(1) Cons.prems v_def]
  define u where "u = fold (hss_start D) news v"
  have IH: "starting D u" "\<And>m p. sy_hss v m = Some p \<Longrightarrow> sy_hss u m = Some p"
    "\<And>q. q < sy_fresh v \<Longrightarrow> sw_heap (sy_sgd u) q = sw_heap (sy_sgd v) q" "sy_fresh v \<le> sy_fresh u"
    "\<And>n. n \<in> set news \<Longrightarrow> D n \<noteq> None \<Longrightarrow> sy_hss u n \<noteq> None"
    using Cons.IH [OF K(1)] unfolding u_def by blast+
  have u: "fold (hss_start D) (n # news) w = u" by (simp add: u_def v_def)
  show ?case
    unfolding u
  proof (intro conjI allI ballI impI)
    fix m p assume "sy_hss w m = Some p" then show "sy_hss u m = Some p" using K(2) IH(2) by blast
  next
    fix q assume "q < sy_fresh w" then show "sw_heap (sy_sgd u) q = sw_heap (sy_sgd w) q" using K(3) [of q] IH(3) [of q] K(4) by simp
  next
    fix m assume m: "m \<in> set (n # news)" "D m \<noteq> None"
    show "sy_hss u m \<noteq> None"
    proof (cases "m = n")
      case True
      then obtain p where "sy_hss v m = Some p" using K(5) m(2) by auto
      then show ?thesis using IH(2) by simp
    qed (use m IH(5) in auto)
  qed (use IH(1,4) K(4) in simp_all)
qed simp

text \<open>Both loops together.\<close>

definition synced :: "string list \<Rightarrow> string list \<Rightarrow> (string \<rightharpoonup> desired_peer) \<Rightarrow> sync_world \<Rightarrow> sync_world" where
  "synced olds news D w = fold (hss_start D) news (fold (hss_stop D) olds w)"

lemma synced_state:
  assumes "wanted_ok D" "hss_ok w" "dom (sy_hss w) \<subseteq> set olds" "dom D \<subseteq> set news"
  shows "starting D (synced olds news D w)" "dom (sy_hss (synced olds news D w)) = dom D"
    "sy_hss w n = Some p \<Longrightarrow> up_to_date D w n p \<Longrightarrow> sy_hss (synced olds news D w) n = Some p"
    "sy_hss w n = Some p \<Longrightarrow> \<not> up_to_date D w n p \<Longrightarrow> pe_stopped (snd (sw_heap (sy_sgd (synced olds news D w)) p))"
proof -
  let ?v = "fold (hss_stop D) olds w"
  have v: "starting D ?v"
    unfolding starting_def
  proof (intro conjI allI impI)
    fix n p assume "sy_hss ?v n = Some p"
    then show "up_to_date D ?v n p" using stops_hss_Some [of D olds w n p] stops_up_to_date [of D olds w n p] assms(3) by (auto simp: domI subset_iff)
  qed (rule stops_ok [OF assms(2)])
  note S = starts_keep [OF assms(1) v, of news, folded synced_def]
  show 1: "starting D (synced olds news D w)" using S by blast
  show "dom (sy_hss (synced olds news D w)) = dom D"
  proof (intro set_eqI iffI)
    fix n assume "n \<in> dom (sy_hss (synced olds news D w))"
    then obtain p where "up_to_date D (synced olds news D w) n p" using 1 unfolding starting_def by blast
    then show "n \<in> dom D" by (auto simp: up_to_date_def split: option.splits)
  next
    fix n assume n: "n \<in> dom D"
    then have "n \<in> set news" using assms(4) by blast
    moreover have "D n \<noteq> None" using n by blast
    ultimately show "n \<in> dom (sy_hss (synced olds news D w))" using S by blast
  qed
  show "sy_hss (synced olds news D w) n = Some p" if "sy_hss w n = Some p" "up_to_date D w n p"
    using S stops_hss_Some [of D olds w n p] that by blast
  show "pe_stopped (snd (sw_heap (sy_sgd (synced olds news D w)) p))" if "sy_hss w n = Some p" "\<not> up_to_date D w n p"
  proof -
    have "n \<in> set olds" using that(1) assms(3) by blast
    then have "pe_stopped (snd (sw_heap (sy_sgd ?v) p))" by (rule stops_stopped [OF that(1) _ that(2)])
    moreover have "p < sy_fresh ?v" using hss_okD(2) [OF assms(2) that(1)] by (simp add: stops_frame)
    ultimately show ?thesis using S by metis
  qed
qed

lemma syncHSSPeers_synced:
  "syncHSSPeers olds news (Some peers) w = (let v = synced olds news (desired_peers peers) w in
     v\<lparr>sy_sh := client_of (wanted_for ''sh'' peers) (sy_shClients v), sy_s6c := client_of (wanted_for ''s6c'' peers) (sy_s6cClients v),
       sy_reporter := client_of (wanted_for ''s6c'' peers) (sy_s6cClients v)\<rparr>)"
  by (simp add: syncHSSPeers_def synced_def Let_def)

text \<open>What is wanted, in terms of the rows.\<close>

lemma wanted_forD: "wanted_for app peers = Some dp \<Longrightarrow> dp \<in> set peers \<and> dp_Enabled dp \<and> app \<in> set (dp_Applications dp)"
  by (auto simp: wanted_for_def find_Some_iff)

lemma dom_desired: "dom (desired_peers peers) = dp_Name ` {dp. wanted_for ''sh'' peers = Some dp \<or> wanted_for ''s6c'' peers = Some dp}"
  by (auto simp: desired_peers_def addDesired_def Let_def split: option.splits)

lemma addDesired_here:
  assumes "\<And>e. D (dp_Name dp) = Some e \<Longrightarrow> de_peer e = dp \<and> de_hasSGd e = (''sgd'' \<in> set (dp_Applications dp))"
  shows "\<exists>e. addDesired (Some dp) app D (dp_Name dp) = Some e \<and> de_peer e = dp \<and> de_hasSGd e = (''sgd'' \<in> set (dp_Applications dp)) \<and>
    app \<in> set (de_apps e)"
proof (cases "D (dp_Name dp)")
  case None
  then show ?thesis by (simp add: addDesired_def Let_def)
next
  case (Some e)
  then show ?thesis using assms [OF Some] by (simp add: addDesired_def Let_def)
qed

lemma addDesired_there:
  "D n = Some e \<Longrightarrow> \<exists>e'. addDesired dp app D n = Some e' \<and> de_peer e' = de_peer e \<and> de_hasSGd e' = de_hasSGd e \<and> set (de_apps e) \<subseteq> set (de_apps e')"
  by (cases dp) (auto simp: addDesired_def Let_def)

lemma addDesired_empty:
  "addDesired dp app Map.empty n = Some e \<Longrightarrow> \<exists>d. dp = Some d \<and> n = dp_Name d \<and> de_peer e = d \<and> de_hasSGd e = (''sgd'' \<in> set (dp_Applications d))"
  by (cases dp) (auto simp: addDesired_def Let_def split: if_splits)

lemma desired_entry:
  assumes "wanted_for app peers = Some dp" "app = ''sh'' \<or> app = ''s6c''" "distinct (map dp_Name peers)"
  shows "\<exists>want. desired_peers peers (dp_Name dp) = Some want \<and> de_peer want = dp \<and> app \<in> set (de_apps want) \<and>
    de_hasSGd want = (''sgd'' \<in> set (dp_Applications dp))"
proof -
  let ?E = "addDesired (wanted_for ''sh'' peers) ''sh'' Map.empty"
  consider "app = ''sh''" | "app = ''s6c''" using assms(2) by blast
  then show ?thesis
  proof cases
    case 1
    obtain e where "?E (dp_Name dp) = Some e" "de_peer e = dp" "de_hasSGd e = (''sgd'' \<in> set (dp_Applications dp))" "app \<in> set (de_apps e)"
      using addDesired_here [of Map.empty dp "''sh''"] assms(1) 1 by auto
    then show ?thesis using addDesired_there [of ?E "dp_Name dp" e "wanted_for ''s6c'' peers" "''s6c''"] by (auto simp: desired_peers_def)
  next
    case 2
    have "de_peer e = dp \<and> de_hasSGd e = (''sgd'' \<in> set (dp_Applications dp))" if e: "?E (dp_Name dp) = Some e" for e
    proof -
      obtain d where d: "wanted_for ''sh'' peers = Some d" "dp_Name dp = dp_Name d" "de_peer e = d" "de_hasSGd e = (''sgd'' \<in> set (dp_Applications d))"
        using addDesired_empty [OF e] by blast
      have "d \<in> set peers" "dp \<in> set peers" using wanted_forD [OF d(1)] wanted_forD [OF assms(1)] by blast+
      then have "d = dp" using assms(3) d(2) by (auto simp: distinct_map dest: inj_onD)
      then show ?thesis using d by blast
    qed
    then have "\<exists>e. addDesired (Some dp) ''s6c'' ?E (dp_Name dp) = Some e \<and> de_peer e = dp \<and> de_hasSGd e = (''sgd'' \<in> set (dp_Applications dp)) \<and>
        ''s6c'' \<in> set (de_apps e)" by (rule addDesired_here)
    then obtain e where "addDesired (Some dp) ''s6c'' ?E (dp_Name dp) = Some e" "de_peer e = dp" "de_hasSGd e = (''sgd'' \<in> set (dp_Applications dp))"
        "''s6c'' \<in> set (de_apps e)" by blast
    moreover have "wanted_for ''s6c'' peers = Some dp" using assms(1) 2 by simp
    ultimately show ?thesis unfolding desired_peers_def 2 by simp
  qed
qed

text \<open>\<open>serves w p dp app\<close>: the peer is connected to where the row says and advertises the application.\<close>

definition serves :: "sync_world \<Rightarrow> nat \<Rightarrow> diameter_peer \<Rightarrow> 32 word \<Rightarrow> bool" where
  "serves w p dp app \<longleftrightarrow> pc_Name (peer_cfg_of w p) = dp_Name dp \<and> dc_Host (sy_dial w p) = dp_Host dp \<and> dc_Port (sy_dial w p) = dp_Port dp \<and>
     dc_Transport (sy_dial w p) = dp_Transport dp \<and> dc_PeerRealm (sy_dial w p) = dp_Realm dp \<and> app \<in> set (pc_AppIDs (peer_cfg_of w p))"

lemma up_to_date_serves:
  assumes "hss_ok w" "sy_hss w n = Some p" "up_to_date D w n p" "D n = Some want" "app \<in> set (appIDsForDiameterPeer (de_apps want))"
  shows "serves w p (de_peer want) app"
proof -
  have "pc_AppID (peer_cfg_of w p) \<in> set (pc_AppIDs (peer_cfg_of w p))" using hss_okD(2) [OF assms(1,2)] by blast
  moreover have z: "app \<noteq> 0"
  proof -
    have "app \<in> {App3GPP_S6c, App3GPP_SGd, App3GPP_Sh}" using assms(5) unfolding set_ids by (simp split: if_splits, blast+)
    then show ?thesis by (elim insertE emptyE) simp_all
  qed
  moreover have c: "insert (pc_AppID (peer_cfg_of w p)) (set (pc_AppIDs (peer_cfg_of w p))) - {0} = set (appIDsForDiameterPeer (de_apps want)) - {0}"
    using assms(3,4) by (simp add: up_to_date_def shouldReplaceDiameterPeer_def same_ids)
  moreover have "app \<in> insert (pc_AppID (peer_cfg_of w p)) (set (pc_AppIDs (peer_cfg_of w p))) - {0}"
    unfolding c using assms(5) z by blast
  ultimately have "app \<in> set (pc_AppIDs (peer_cfg_of w p))" by blast
  then show ?thesis using assms(3,4) by (simp add: serves_def up_to_date_def shouldReplaceDiameterPeer_def)
qed

lemma synced_client:
  assumes "starting D w" "dom (sy_hss w) = dom D" "wanted_ok D" "D n = Some want"
  shows "''sh'' \<in> set (de_apps want) \<Longrightarrow> \<exists>p. sy_hss w n = Some p \<and> sy_shClients w n = Some p \<and> serves w p (de_peer want) App3GPP_Sh"
    "''s6c'' \<in> set (de_apps want) \<Longrightarrow> \<exists>p. sy_hss w n = Some p \<and> sy_s6cClients w n = Some p \<and> serves w p (de_peer want) App3GPP_S6c"
proof -
  have "n \<in> dom (sy_hss w)" using assms(2,4) by (simp add: domI)
  then obtain p where p: "sy_hss w n = Some p" by blast
  have ok: "hss_ok w" and up: "up_to_date D w n p" using assms(1) p unfolding starting_def by blast+
  note s = up_to_date_serves [OF ok p up assms(4)] and c = hss_okD(2) [OF ok p]
  show "\<exists>p. sy_hss w n = Some p \<and> sy_shClients w n = Some p \<and> serves w p (de_peer want) App3GPP_Sh" if "''sh'' \<in> set (de_apps want)"
    using s [of App3GPP_Sh] that p c by (auto simp: set_ids serves_def)
  show "\<exists>p. sy_hss w n = Some p \<and> sy_s6cClients w n = Some p \<and> serves w p (de_peer want) App3GPP_S6c" if "''s6c'' \<in> set (de_apps want)"
    using s [of App3GPP_S6c] that p c by (auto simp: set_ids serves_def)
qed

lemma hss_ok_clients: "hss_ok (v\<lparr>sy_sh := a, sy_s6c := b, sy_reporter := c\<rparr>) = hss_ok v"
  unfolding hss_ok_def peer_cfg_of_def by (simp split: option.split)

text \<open>
  C11: After a synchronisation with rows of distinct names there is a connection for the first enabled row with Sh and for
  the first one with S6c, and for no other; the registry asks over the one and over the other, to the host and port of
  the row, with the application advertised; a connection that was up to date is kept, any other one was stopped.
\<close>

theorem hss_sync_exact:
  assumes "hss_ok w" "dom (sy_hss w) \<subseteq> set olds" "dom (desired_peers peers) \<subseteq> set news" "distinct (map dp_Name peers)"
    and "w' = syncHSSPeers olds news (Some peers) w"
  shows "hss_ok w' \<and> dom (sy_hss w') = dp_Name ` {dp. wanted_for ''sh'' peers = Some dp \<or> wanted_for ''s6c'' peers = Some dp} \<and>
    (case wanted_for ''sh'' peers of None \<Rightarrow> sy_sh w' = None
     | Some dp \<Rightarrow> \<exists>p. sy_sh w' = Some p \<and> sy_hss w' (dp_Name dp) = Some p \<and> serves w' p dp App3GPP_Sh) \<and>
    (case wanted_for ''s6c'' peers of None \<Rightarrow> sy_s6c w' = None
     | Some dp \<Rightarrow> \<exists>p. sy_s6c w' = Some p \<and> sy_hss w' (dp_Name dp) = Some p \<and> serves w' p dp App3GPP_S6c) \<and>
    sy_reporter w' = sy_s6c w' \<and>
    (\<forall>n p. sy_hss w n = Some p \<longrightarrow> (if up_to_date (desired_peers peers) w n p then sy_hss w' n = Some p
       else pe_stopped (snd (sw_heap (sy_sgd w') p))))"
proof -
  let ?D = "desired_peers peers"
  define v where "v = synced olds news ?D w"
  note S = synced_state [OF desired_ok assms(1-3), folded v_def]
  have ok: "hss_ok v" using S(1) unfolding starting_def by blast
  have w': "w' = v\<lparr>sy_sh := client_of (wanted_for ''sh'' peers) (sy_shClients v), sy_s6c := client_of (wanted_for ''s6c'' peers) (sy_s6cClients v),
       sy_reporter := client_of (wanted_for ''s6c'' peers) (sy_s6cClients v)\<rparr>"
    using assms(5) syncHSSPeers_synced by (simp add: v_def Let_def)
  have c: "peer_cfg_of w' = peer_cfg_of v" "serves w' = serves v"
    by (intro ext, simp add: w' peer_cfg_of_def, intro ext, simp add: w' serves_def peer_cfg_of_def)
  have "hss_ok w'" using ok by (simp add: w' hss_ok_clients)
  moreover have "\<exists>p. client_of (Some dp) (sy_shClients v) = Some p \<and> sy_hss v (dp_Name dp) = Some p \<and> serves v p dp App3GPP_Sh"
    if "wanted_for ''sh'' peers = Some dp" for dp
    using desired_entry [OF that _ assms(4)] synced_client(1) [OF S(1,2) desired_ok] by (fastforce simp: client_of_def)
  moreover have "\<exists>p. client_of (Some dp) (sy_s6cClients v) = Some p \<and> sy_hss v (dp_Name dp) = Some p \<and> serves v p dp App3GPP_S6c"
    if "wanted_for ''s6c'' peers = Some dp" for dp
    using desired_entry [OF that _ assms(4)] synced_client(2) [OF S(1,2) desired_ok] by (fastforce simp: client_of_def)
  ultimately show ?thesis
    using S(2-4) unfolding c(2) dom_desired [symmetric] by (auto simp: w' client_of_def split: option.splits)
qed


section \<open>The connections for SGd alone, brought in line\<close>

definition outbound :: "sync_world \<Rightarrow> string \<Rightarrow> nat option" where
  "outbound w = sv_outboundPeers (sw_server (sy_sgd w))"

definition stopped :: "sync_world \<Rightarrow> nat \<Rightarrow> bool" where
  "stopped w p \<longleftrightarrow> pe_stopped (snd (sw_heap (sy_sgd w) p))"

text \<open>
  The invariant: whatever is active for SGd alone is an outbound peer of the server, not stopped, and as its row says.
\<close>

definition sgd_serves :: "sync_world \<Rightarrow> nat \<Rightarrow> diameter_peer \<Rightarrow> bool" where
  "sgd_serves w p dp \<longleftrightarrow> pc_Name (peer_cfg_of w p) = dp_Name dp \<and> pc_AppID (peer_cfg_of w p) = App3GPP_SGd \<and>
     dc_Host (sy_dial w p) = dp_Host dp \<and> dc_Port (sy_dial w p) = dp_Port dp \<and> dc_Transport (sy_dial w p) = dp_Transport dp \<and>
     dc_PeerRealm (sy_dial w p) = dp_Realm dp \<and> p < sy_fresh w \<and> \<not> stopped w p"

definition sgd_ok :: "sync_world \<Rightarrow> bool" where
  "sgd_ok w \<longleftrightarrow> (\<forall>n. case sy_sgdCfg w n of
       None \<Rightarrow> n \<notin> sy_activeSGd w
     | Some dp \<Rightarrow> n \<in> sy_activeSGd w \<and> dp_Name dp = n \<and> (\<exists>p. outbound w n = Some p \<and> sgd_serves w p dp))"

lemma sgd_okD:
  assumes "sgd_ok w"
  shows "n \<in> sy_activeSGd w \<longleftrightarrow> sy_sgdCfg w n \<noteq> None"
    and "sy_sgdCfg w n = Some dp \<Longrightarrow> dp_Name dp = n \<and> (\<exists>p. outbound w n = Some p \<and> sgd_serves w p dp)"
proof -
  have c: "case sy_sgdCfg w n of None \<Rightarrow> n \<notin> sy_activeSGd w
     | Some dp \<Rightarrow> n \<in> sy_activeSGd w \<and> dp_Name dp = n \<and> (\<exists>p. outbound w n = Some p \<and> sgd_serves w p dp)"
    using assms unfolding sgd_ok_def by blast
  then show "n \<in> sy_activeSGd w \<longleftrightarrow> sy_sgdCfg w n \<noteq> None" by (cases "sy_sgdCfg w n") simp_all
  show "sy_sgdCfg w n = Some dp \<Longrightarrow> dp_Name dp = n \<and> (\<exists>p. outbound w n = Some p \<and> sgd_serves w p dp)" using c by simp
qed

lemma remove_server: "sv_outboundPeers (sw_server (RemoveOutboundPeer n s)) = (sv_outboundPeers (sw_server s))(n := None)"
  "sw_heap (RemoveOutboundPeer n s) = (case sv_outboundPeers (sw_server s) n of None \<Rightarrow> sw_heap s
     | Some p \<Rightarrow> (sw_heap s)(p := (fst (sw_heap s p), peer_Stop (snd (sw_heap s p)))))"
  by (cases "sv_outboundPeers (sw_server s) n";
      simp add: RemoveOutboundPeer_def DetachOutboundPeer_def unregisterPeerLocked_def sgd_update_def stop_peer_def fun_upd_idem)+

lemma add_server:
  assumes "sv_outboundPeers (sw_server s) n = None"
  shows "sv_outboundPeers (sw_server (AddOutboundPeer n p s)) = (sv_outboundPeers (sw_server s))(n \<mapsto> p)"
    "sw_heap (AddOutboundPeer n p s) = sw_heap s"
  using assms by (simp_all add: AddOutboundPeer_def AttachOutboundPeer_def sgd_update_def)

lemma remove_effect:
  assumes "outbound w n = Some p" "w' = sgd_remove n w"
  shows "outbound w' = (outbound w)(n := None)" "peer_cfg_of w' = peer_cfg_of w" "sy_dial w' = sy_dial w" "sy_fresh w' = sy_fresh w"
    "stopped w' q \<longleftrightarrow> q = p \<or> stopped w q" "sy_activeSGd w' = sy_activeSGd w" "sy_sgdCfg w' = sy_sgdCfg w"
    "sy_hss w' = sy_hss w" "sy_hssSGd w' = sy_hssSGd w"
  using assms
  by (simp_all add: outbound_def sgd_remove_def remove_server peer_cfg_of_def stopped_def peer_Stop_def fun_eq_iff)

lemma add_effect:
  assumes "outbound w (dp_Name dp) = None" "w' = sgd_add dp w"
  shows "outbound w' = (outbound w)(dp_Name dp \<mapsto> sy_fresh w)" "sy_fresh w' = Suc (sy_fresh w)"
    "q \<noteq> sy_fresh w \<Longrightarrow> peer_cfg_of w' q = peer_cfg_of w q \<and> sy_dial w' q = sy_dial w q \<and> stopped w' q = stopped w q"
    "sgd_serves w' (sy_fresh w) dp" "sy_activeSGd w' = sy_activeSGd w" "sy_sgdCfg w' = sy_sgdCfg w"
    "sy_hss w' = sy_hss w" "sy_hssSGd w' = sy_hssSGd w"
proof -
  define cfg dial where c: "cfg = fst (sgd_config w dp)" "dial = snd (sgd_config w dp)"
  define v where "v = snd (new_peer cfg dial w)"
  have v: "outbound v = outbound w" "sw_heap (sy_sgd v) = (sw_heap (sy_sgd w))(sy_fresh w := (cfg, NewPeer))" "sy_dial v = (sy_dial w)(sy_fresh w := dial)"
    "sy_fresh v = Suc (sy_fresh w)" "sy_activeSGd v = sy_activeSGd w" "sy_sgdCfg v = sy_sgdCfg w" "sy_hss v = sy_hss w" "sy_hssSGd v = sy_hssSGd w"
    by (simp_all add: v_def new_peer_def Let_def outbound_def)
  have w': "w' = (on_sgd (AddOutboundPeer (dp_Name dp) (sy_fresh w)) v)\<lparr>sy_started := sy_started v @ [sy_fresh w]\<rparr>"
    using assms(2) by (simp add: sgd_add_def v_def c new_peer_def Let_def split: prod.split)
  have n: "sv_outboundPeers (sw_server (sy_sgd v)) (dp_Name dp) = None" using assms(1) v(1) by (simp add: outbound_def)
  have h: "sw_heap (sy_sgd w') = (sw_heap (sy_sgd w))(sy_fresh w := (cfg, NewPeer))" "sy_dial w' = (sy_dial w)(sy_fresh w := dial)"
    by (simp_all add: w' add_server [OF n] v)
  show "outbound w' = (outbound w)(dp_Name dp \<mapsto> sy_fresh w)" using v(1) by (simp add: outbound_def w' add_server [OF n])
  show f: "sy_fresh w' = Suc (sy_fresh w)" by (simp add: w' v)
  show "q \<noteq> sy_fresh w \<Longrightarrow> peer_cfg_of w' q = peer_cfg_of w q \<and> sy_dial w' q = sy_dial w q \<and> stopped w' q = stopped w q"
    by (simp add: peer_cfg_of_def stopped_def h)
  have p: "peer_cfg_of w' (sy_fresh w) = cfg" "sy_dial w' (sy_fresh w) = dial" "\<not> stopped w' (sy_fresh w)"
    by (simp_all add: peer_cfg_of_def stopped_def h NewPeer_def)
  show "sgd_serves w' (sy_fresh w) dp"
    unfolding sgd_serves_def p(1,2) f using p(3) by (simp add: c sgd_config_def)
  show "sy_activeSGd w' = sy_activeSGd w" "sy_sgdCfg w' = sy_sgdCfg w" "sy_hss w' = sy_hss w" "sy_hssSGd w' = sy_hssSGd w"
    by (simp_all add: w' v)
qed

lemma runtime_equal: "diameterPeerRuntimeEqual a b \<longleftrightarrow> a = b"
  by (auto simp: diameterPeerRuntimeEqual_def)

text \<open>Taking one name out, and putting one in: the others are served as before.\<close>

definition sgd_out :: "string \<Rightarrow> sync_world \<Rightarrow> sync_world" where
  "sgd_out name w = (sgd_remove name w)\<lparr>sy_activeSGd := sy_activeSGd w - {name}, sy_sgdCfg := (sy_sgdCfg w)(name := None)\<rparr>"

lemma sgd_out_ok:
  assumes "sgd_ok w" "n \<in> sy_activeSGd w"
  shows "sgd_ok (sgd_out n w)" "outbound (sgd_out n w) = (outbound w)(n := None)"
    "sy_activeSGd (sgd_out n w) = sy_activeSGd w - {n}" "sy_sgdCfg (sgd_out n w) = (sy_sgdCfg w)(n := None)"
    "by_hss (sgd_out n w) = by_hss w"
proof -
  obtain dn where dn: "sy_sgdCfg w n = Some dn" using sgd_okD(1) [OF assms(1)] assms(2) by blast
  obtain p where p: "outbound w n = Some p" "sgd_serves w p dn" "dp_Name dn = n" using sgd_okD(2) [OF assms(1) dn] by blast
  note R = remove_effect [OF p(1) refl]
  show o: "outbound (sgd_out n w) = (outbound w)(n := None)" using R(1) by (simp add: sgd_out_def outbound_def)
  show a: "sy_activeSGd (sgd_out n w) = sy_activeSGd w - {n}" "sy_sgdCfg (sgd_out n w) = (sy_sgdCfg w)(n := None)"
    by (simp_all add: sgd_out_def)
  show "by_hss (sgd_out n w) = by_hss w" using R(8,9) by (auto simp: by_hss_def sgd_out_def)
  have s: "sgd_serves (sgd_out n w) q dp" if "sgd_serves w q dp" "dp_Name dp \<noteq> n" for q dp
  proof -
    have "q \<noteq> p" using that p(2,3) by (auto simp: sgd_serves_def)
    moreover have "peer_cfg_of (sgd_out n w) = peer_cfg_of w" "stopped (sgd_out n w) = stopped (sgd_remove n w)" "sy_dial (sgd_out n w) = sy_dial w"
      "sy_fresh (sgd_out n w) = sy_fresh w"
      using R(2-4) by (auto simp: sgd_out_def peer_cfg_of_def stopped_def fun_eq_iff)
    ultimately show ?thesis using that(1) R(5) by (simp add: sgd_serves_def)
  qed
  show "sgd_ok (sgd_out n w)"
    unfolding sgd_ok_def a o
  proof
    fix m
    show "case ((sy_sgdCfg w)(n := None)) m of None \<Rightarrow> m \<notin> sy_activeSGd w - {n}
      | Some dp \<Rightarrow> m \<in> sy_activeSGd w - {n} \<and> dp_Name dp = m \<and> (\<exists>p. ((outbound w)(n := None)) m = Some p \<and> sgd_serves (sgd_out n w) p dp)"
    proof (cases "m = n \<or> sy_sgdCfg w m = None")
      case True
      then show ?thesis using sgd_okD(1) [OF assms(1), of m] by (auto split: option.splits)
    next
      case False
      then obtain dp where dp: "sy_sgdCfg w m = Some dp" "m \<noteq> n" by blast
      obtain q where "outbound w m = Some q" "sgd_serves w q dp" "dp_Name dp = m" using sgd_okD(2) [OF assms(1) dp(1)] by blast
      then show ?thesis using s [of q dp] dp sgd_okD(1) [OF assms(1), of m] by simp
    qed
  qed
qed

definition sgd_in :: "diameter_peer \<Rightarrow> sync_world \<Rightarrow> sync_world" where
  "sgd_in dp w = (sgd_add dp w)\<lparr>sy_activeSGd := insert (dp_Name dp) (sy_activeSGd w), sy_sgdCfg := (sy_sgdCfg w)(dp_Name dp \<mapsto> dp)\<rparr>"

lemma sgd_in_ok:
  assumes "sgd_ok w" "outbound w (dp_Name dp) = None"
  shows "sgd_ok (sgd_in dp w)" "m \<noteq> dp_Name dp \<Longrightarrow> outbound (sgd_in dp w) m = outbound w m"
    "sy_activeSGd (sgd_in dp w) = insert (dp_Name dp) (sy_activeSGd w)" "sy_sgdCfg (sgd_in dp w) = (sy_sgdCfg w)(dp_Name dp \<mapsto> dp)"
    "by_hss (sgd_in dp w) = by_hss w"
proof -
  note A = add_effect [OF assms(2) refl]
  show a: "sy_activeSGd (sgd_in dp w) = insert (dp_Name dp) (sy_activeSGd w)" "sy_sgdCfg (sgd_in dp w) = (sy_sgdCfg w)(dp_Name dp \<mapsto> dp)"
    by (simp_all add: sgd_in_def)
  have o: "outbound (sgd_in dp w) = (outbound w)(dp_Name dp \<mapsto> sy_fresh w)" using A(1) by (simp add: sgd_in_def outbound_def)
  then show "m \<noteq> dp_Name dp \<Longrightarrow> outbound (sgd_in dp w) m = outbound w m" by simp
  show "by_hss (sgd_in dp w) = by_hss w" using A(7,8) by (auto simp: by_hss_def sgd_in_def)
  have s: "sgd_serves (sgd_in dp w) q d \<longleftrightarrow> sgd_serves (sgd_add dp w) q d" for q d
    by (simp add: sgd_serves_def sgd_in_def peer_cfg_of_def stopped_def)
  show "sgd_ok (sgd_in dp w)"
    unfolding sgd_ok_def a o
  proof
    fix m
    show "case ((sy_sgdCfg w)(dp_Name dp \<mapsto> dp)) m of None \<Rightarrow> m \<notin> insert (dp_Name dp) (sy_activeSGd w)
      | Some d \<Rightarrow> m \<in> insert (dp_Name dp) (sy_activeSGd w) \<and> dp_Name d = m \<and>
          (\<exists>p. ((outbound w)(dp_Name dp \<mapsto> sy_fresh w)) m = Some p \<and> sgd_serves (sgd_in dp w) p d)"
    proof (cases "m = dp_Name dp")
      case True
      then show ?thesis using A(4) by (simp add: s)
    next
      case m: False
      show ?thesis
      proof (cases "sy_sgdCfg w m")
        case None
        then show ?thesis using m sgd_okD(1) [OF assms(1), of m] by simp
      next
        case (Some d)
        obtain q where q: "outbound w m = Some q" "sgd_serves w q d" "dp_Name d = m" using sgd_okD(2) [OF assms(1) Some] by blast
        then have "sgd_serves (sgd_in dp w) q d" using A(2) A(3) [of q] unfolding s by (simp add: sgd_serves_def)
        then show ?thesis using m Some q sgd_okD(1) [OF assms(1), of m] by simp
      qed
    qed
  qed
qed


text \<open>No other outbound peers than those and the shared ones.\<close>

definition known :: "sync_world \<Rightarrow> bool" where
  "known w \<longleftrightarrow> (\<forall>n. outbound w n \<noteq> None \<longrightarrow> n \<in> sy_activeSGd w \<or> by_hss w n)"

lemma sgd_row_alt:
  "sgd_row dp w = (let n = dp_Name dp in
     if \<not> wants_sgd dp then w
     else if by_hss w n then (if n \<in> sy_activeSGd w then sgd_out n w else w)
     else if n \<in> sy_activeSGd w \<and> runtime_cfg w n = dp then w
     else sgd_in dp (if n \<in> sy_activeSGd w then sgd_out n w else w))"
proof -
  have a: "sgd_add dp (v\<lparr>sy_activeSGd := A, sy_sgdCfg := c\<rparr>) = (sgd_add dp v)\<lparr>sy_activeSGd := A, sy_sgdCfg := c\<rparr>" for v A c
    by (simp add: sgd_add_def sgd_config_def new_peer_def Let_def on_sgd_def)
  have "insert n (A - {n}) = insert n A" for n and A :: "string set" by blast
  then show ?thesis
    unfolding sgd_row_def Let_def runtime_equal sgd_out_def sgd_in_def
    by (simp add: a cong: if_cong)
qed

lemma row_effect:
  assumes "sgd_ok w" "known w" "w' = sgd_row dp w"
  shows "sgd_ok w'" "known w'" "by_hss w' = by_hss w"
    "sy_sgdCfg w' n = (if dp_Name dp = n \<and> wants_sgd dp then if by_hss w n then None else Some dp else sy_sgdCfg w n)"
    "sy_sgdCfg w n = Some d \<Longrightarrow> sy_sgdCfg w' n = Some d \<Longrightarrow> outbound w' n = outbound w n"
proof -
  let ?m = "dp_Name dp"
  have act: "m \<in> sy_activeSGd w \<longleftrightarrow> sy_sgdCfg w m \<noteq> None" for m by (rule sgd_okD(1) [OF assms(1)])
  have "sgd_ok w' \<and> known w' \<and> by_hss w' = by_hss w \<and>
    (\<forall>n. sy_sgdCfg w' n = (if ?m = n \<and> wants_sgd dp then if by_hss w n then None else Some dp else sy_sgdCfg w n)) \<and>
    (\<forall>n d. sy_sgdCfg w n = Some d \<longrightarrow> sy_sgdCfg w' n = Some d \<longrightarrow> outbound w' n = outbound w n)"
  proof (cases "wants_sgd dp")
    case False
    then show ?thesis using assms by (simp add: sgd_row_alt)
  next
    case wants: True
    show ?thesis
    proof (cases "by_hss w ?m")
      case hss: True
      show ?thesis
      proof (cases "?m \<in> sy_activeSGd w")
        case True
        have w': "w' = sgd_out ?m w" using assms(3) wants hss True by (simp add: sgd_row_alt)
        note O = sgd_out_ok [OF assms(1) True, folded w']
        have "known w'" using assms(2) unfolding known_def O(2,3,5) by auto
        then show ?thesis using O(1,2,4,5) wants hss by auto
      next
        case False
        then have w': "w' = w" using assms(3) wants hss by (simp add: sgd_row_alt)
        show ?thesis unfolding w' using assms(1,2) act [of ?m] False hss by auto
      qed
    next
      case alone: False
      show ?thesis
      proof (cases "?m \<in> sy_activeSGd w \<and> runtime_cfg w ?m = dp")
        case True
        then have w': "w' = w" using assms(3) wants alone by (simp add: sgd_row_alt)
        have "sy_sgdCfg w ?m = Some dp" using True act [of ?m] by (auto simp: runtime_cfg_def split: option.splits)
        then show ?thesis unfolding w' using assms(1,2) alone by auto
      next
        case new: False
        define v where "v = (if ?m \<in> sy_activeSGd w then sgd_out ?m w else w)"
        have w': "w' = sgd_in dp v" using assms(3) wants alone new by (simp add: sgd_row_alt v_def)
        have v: "sgd_ok v" "outbound v = (outbound w)(?m := None)" "insert ?m (sy_activeSGd v) = insert ?m (sy_activeSGd w)"
          "(sy_sgdCfg v)(?m \<mapsto> dp) = (sy_sgdCfg w)(?m \<mapsto> dp)" "by_hss v = by_hss w"
        proof -
          have none: "outbound w ?m = None" if "?m \<notin> sy_activeSGd w" using assms(2) alone that unfolding known_def by blast
          then show "sgd_ok v" "outbound v = (outbound w)(?m := None)" "insert ?m (sy_activeSGd v) = insert ?m (sy_activeSGd w)"
            "(sy_sgdCfg v)(?m \<mapsto> dp) = (sy_sgdCfg w)(?m \<mapsto> dp)" "by_hss v = by_hss w"
            using assms(1) sgd_out_ok [OF assms(1), of ?m] by (auto simp: v_def fun_upd_idem)
        qed
        have "outbound v ?m = None" by (simp add: v(2))
        note I = sgd_in_ok [OF v(1) this, folded w', unfolded v(3-5)]
        have o: "outbound w' n = outbound w n" if "n \<noteq> ?m" for n using I(2) [OF that] that by (simp add: v(2))
        have "known w'" using assms(2) o unfolding known_def I(3,5) by (metis insertCI)
        moreover have "outbound w' n = outbound w n" if c: "sy_sgdCfg w n = Some d" "sy_sgdCfg w' n = Some d" for n d
        proof (cases "n = ?m")
          case True
          then have "runtime_cfg w ?m = dp" "?m \<in> sy_activeSGd w" using c act [of n] I(4) by (auto simp: runtime_cfg_def)
          then show ?thesis using new by blast
        qed (rule o)
        ultimately show ?thesis using I(1,4,5) wants alone by auto
      qed
    qed
  qed
  then show "sgd_ok w'" "known w'" "by_hss w' = by_hss w"
    "sy_sgdCfg w' n = (if dp_Name dp = n \<and> wants_sgd dp then if by_hss w n then None else Some dp else sy_sgdCfg w n)"
    "sy_sgdCfg w n = Some d \<Longrightarrow> sy_sgdCfg w' n = Some d \<Longrightarrow> outbound w' n = outbound w n"
    by blast+
qed

text \<open>The row that decides about a name, if there is one.\<close>

definition sgd_row_of :: "diameter_peer list \<Rightarrow> string \<Rightarrow> diameter_peer option" where
  "sgd_row_of peers n = find (\<lambda>dp. dp_Name dp = n \<and> wants_sgd dp) peers"

lemma sgd_row_of_other: "n \<notin> dp_Name ` set peers \<Longrightarrow> sgd_row_of peers n = None"
  by (auto simp: sgd_row_of_def find_None_iff)

lemma rows_effect:
  assumes "sgd_ok w" "known w" "distinct (map dp_Name peers)" "w' = fold sgd_row peers w"
  shows "sgd_ok w' \<and> known w' \<and> by_hss w' = by_hss w \<and>
    (\<forall>n. sy_sgdCfg w' n = (case sgd_row_of peers n of None \<Rightarrow> sy_sgdCfg w n | Some dp \<Rightarrow> if by_hss w n then None else Some dp)) \<and>
    (\<forall>n d. sy_sgdCfg w n = Some d \<longrightarrow> sy_sgdCfg w' n = Some d \<longrightarrow> outbound w' n = outbound w n)"
  using assms
proof (induction peers arbitrary: w)
  case Nil
  then show ?case by (simp add: sgd_row_of_def)
next
  case (Cons dp peers)
  define v where "v = sgd_row dp w"
  note R = row_effect [OF Cons.prems(1,2) v_def]
  have "w' = fold sgd_row peers v" using Cons.prems(4) by (simp add: v_def)
  with Cons.IH [OF R(1,2)] Cons.prems(3) have IH: "sgd_ok w'" "known w'" "by_hss w' = by_hss v"
    "\<And>n. sy_sgdCfg w' n = (case sgd_row_of peers n of None \<Rightarrow> sy_sgdCfg v n | Some dp \<Rightarrow> if by_hss v n then None else Some dp)"
    "\<And>n d. sy_sgdCfg v n = Some d \<Longrightarrow> sy_sgdCfg w' n = Some d \<Longrightarrow> outbound w' n = outbound v n"
    by simp_all
  have cfg: "sy_sgdCfg w' n = (case sgd_row_of (dp # peers) n of None \<Rightarrow> sy_sgdCfg w n | Some dp \<Rightarrow> if by_hss w n then None else Some dp)" for n
  proof (cases "dp_Name dp = n")
    case True
    then have "sgd_row_of peers n = None" using Cons.prems(3) by (intro sgd_row_of_other) auto
    then show ?thesis using IH(4) [of n] R(4) [of n] True by (simp add: sgd_row_of_def)
  next
    case False
    then show ?thesis using IH(4) [of n] R(4) [of n] R(3) by (simp add: sgd_row_of_def split: option.split)
  qed
  moreover have "outbound w' n = outbound w n" if c: "sy_sgdCfg w n = Some d" "sy_sgdCfg w' n = Some d" for n d
  proof (cases "dp_Name dp = n")
    case True
    then have "sgd_row_of peers n = None" using Cons.prems(3) by (intro sgd_row_of_other) auto
    then have "sy_sgdCfg v n = Some d" using IH(4) [of n] c(2) by simp
    then show ?thesis using R(5) c IH(5) by metis
  next
    case False
    then have "sy_sgdCfg v n = Some d" using R(4) [of n] c(1) by simp
    then show ?thesis using R(5) c IH(5) by metis
  qed
  ultimately show ?case using IH(1,2,3) R(3) by simp
qed

lemma drops_effect:
  assumes "sgd_ok w" "w' = fold (sgd_drop want) olds w"
  shows "sgd_ok w' \<and> (\<forall>n. sy_sgdCfg w' n = (if n \<in> set olds \<and> n \<notin> want then None else sy_sgdCfg w n)) \<and>
    (\<forall>n. n \<in> want \<longrightarrow> outbound w' n = outbound w n)"
  using assms
proof (induction olds arbitrary: w)
  case (Cons m olds)
  define v where "v = sgd_drop want m w"
  have D: "sgd_ok v \<and> (\<forall>n. sy_sgdCfg v n = (if n = m \<and> n \<notin> want then None else sy_sgdCfg w n)) \<and> (\<forall>n. n \<in> want \<longrightarrow> outbound v n = outbound w n)"
  proof (cases "m \<in> sy_activeSGd w \<and> m \<notin> want")
    case True
    then have "v = sgd_out m w" by (simp add: v_def sgd_drop_def sgd_out_def)
    then show ?thesis using sgd_out_ok [OF Cons.prems(1), of m] True by auto
  next
    case False
    then have "v = w" by (auto simp: v_def sgd_drop_def)
    then show ?thesis using Cons.prems(1) sgd_okD(1) [OF Cons.prems(1), of m] False by auto
  qed
  have "w' = fold (sgd_drop want) olds v" using Cons.prems(2) by (simp add: v_def)
  from Cons.IH [OF conjunct1 [OF D] this] D show ?case by auto
qed simp



section \<open>A peer that is promoted\<close>

text \<open>
  A row that had SGd alone and now has Sh (or S6c) besides: the shared connection takes the place of the old one among
  the outbound peers, and the removal that is meant for the old one stops the new one.
\<close>

lemma promoted_row:
  assumes "wants_sgd dp" "by_hss w (dp_Name dp)" "dp_Name dp \<in> sy_activeSGd w" "outbound w (dp_Name dp) = Some p" "w' = sgd_row dp w"
  shows "stopped w' p" "outbound w' (dp_Name dp) = None" "sy_hss w' = sy_hss w" "\<not> stopped w q \<Longrightarrow> q \<noteq> p \<Longrightarrow> \<not> stopped w' q"
    "sy_sh w' = sy_sh w" "sy_activeSGd w' = sy_activeSGd w - {dp_Name dp}" "by_hss w' = by_hss w"
proof -
  have w': "w' = sgd_out (dp_Name dp) w" using assms(1,2,3,5) by (simp add: sgd_row_alt)
  note R = remove_effect [OF assms(4) refl]
  show "stopped w' p" "\<not> stopped w q \<Longrightarrow> q \<noteq> p \<Longrightarrow> \<not> stopped w' q" using R(5) by (simp_all add: w' sgd_out_def stopped_def)
  show "outbound w' (dp_Name dp) = None" using R(1) by (simp add: w' sgd_out_def outbound_def)
  show "sy_hss w' = sy_hss w" "by_hss w' = by_hss w" using R(8,9) by (auto simp: w' sgd_out_def by_hss_def)
  show "sy_sh w' = sy_sh w" by (simp add: w' sgd_out_def sgd_remove_def)
  show "sy_activeSGd w' = sy_activeSGd w - {dp_Name dp}" by (simp add: w' sgd_out_def)
qed

lemma hss_start_attached:
  assumes "D n = Some want" "sy_hss w n = None" "de_hasSGd want" "dp_Name (de_peer want) = n" "w' = hss_start D n w"
  shows "outbound w' = (outbound w)(n \<mapsto> sy_fresh w)" "sy_activeSGd w' = sy_activeSGd w" "\<not> stopped w' (sy_fresh w)"
    "q \<noteq> sy_fresh w \<Longrightarrow> stopped w' q = stopped w q" "by_hss w' n" "sy_hss w' n = Some (sy_fresh w)"
  using assms
  by (simp_all add: hss_start_def new_peer_def Let_def AttachOutboundPeer_def sgd_update_def outbound_def stopped_def NewPeer_def by_hss_def
      split: prod.split)



section \<open>Examples\<close>

definition sync_start :: sync_world where
  "sync_start = \<lparr>sy_sgd = example_world\<lparr>sw_heap := (\<lambda>_. (example_cfg, NewPeer))\<rparr>,
     sy_dial = (\<lambda>_. \<lparr>dc_Host = [], dc_Port = 0, dc_Transport = [], dc_Application = [], dc_PeerFQDN = [], dc_PeerRealm = []\<rparr>),
     sy_started = [], sy_fresh = 0, sy_hss = Map.empty, sy_hssSGd = (\<lambda>_. False), sy_shClients = Map.empty, sy_s6cClients = Map.empty,
     sy_sh = None, sy_s6c = None, sy_reporter = None, sy_activeSGd = {}, sy_sgdCfg = Map.empty\<rparr>"

definition hss_row :: "string list \<Rightarrow> diameter_peer" where
  "hss_row apps = \<lparr>dp_Name = ''hss'', dp_Host = ''10.0.0.7'', dp_Realm = ''home'', dp_Port = 3868, dp_Transport = ''tcp'',
     dp_Applications = apps, dp_Enabled = True\<rparr>"

lemma sync_start_ok: "hss_ok sync_start" "sgd_ok sync_start" "known sync_start" "outbound sync_start = Map.empty"
  by (simp_all add: hss_ok_def sgd_ok_def known_def sync_start_def outbound_def example_world_def example_server_def)

lemma hss_row_wanted: "wanted_for ''sh'' [hss_row [''sh'', ''sgd'']] = Some (hss_row [''sh'', ''sgd''])"
  "wanted_for ''s6c'' [hss_row [''sh'', ''sgd'']] = None"
  by (simp_all add: wanted_for_def hss_row_def)

lemma hss_sync_exact_witness:
  "\<exists>p. sy_sh (syncHSSPeers [] [''hss''] (Some [hss_row [''sh'', ''sgd'']]) sync_start) = Some p \<and>
     serves (syncHSSPeers [] [''hss''] (Some [hss_row [''sh'', ''sgd'']]) sync_start) p (hss_row [''sh'', ''sgd'']) App3GPP_Sh"
proof -
  have "dom (sy_hss sync_start) \<subseteq> set []" by (simp add: sync_start_def)
  moreover have "dom (desired_peers [hss_row [''sh'', ''sgd'']]) \<subseteq> set [''hss'']"
    unfolding dom_desired hss_row_wanted by (auto simp: hss_row_def)
  ultimately show ?thesis
    using hss_sync_exact [OF sync_start_ok(1) _ _ _ refl, of "[]" "[hss_row [''sh'', ''sgd'']]" "[''hss'']"] by (auto simp: hss_row_wanted)
qed



end
