(* ===== verification/Status.thy ===== *)
theory Status
  imports PeerSync Api Redelivery
begin

text \<open>
  What the system says of itself: the state of its peers, put together from the SGd server, the connections to the
  subscriber servers, the SMPP links and the registrations (\<open>cmd/smsc/diameter_runtime.go\<close>, \<open>cmd/smsc/main.go\<close>), the
  gauges, the status of the API (\<open>internal/api/server.go\<close>), and the removal of registrations that have expired.
\<close>

section \<open>Applications\<close>

definition diameterAppOrder :: "string list" where
  "diameterAppOrder = [''sh'', ''sgd'', ''s6c'']"

definition mergeDiameterApplications :: "string list \<Rightarrow> string list \<Rightarrow> string list" where
  "mergeDiameterApplications current new =
     filter (\<lambda>app. app \<in> set current \<or> app \<noteq> [] \<and> app \<in> set new) diameterAppOrder"

text \<open>\<open>strings.FieldsFunc\<close>: the maximal pieces without a separator.\<close>

function fields_by :: "(char \<Rightarrow> bool) \<Rightarrow> string \<Rightarrow> string list" where
  "fields_by sep s = (case dropWhile sep s of
       [] \<Rightarrow> []
     | c # cs \<Rightarrow> takeWhile (Not \<circ> sep) (c # cs) # fields_by sep (dropWhile (Not \<circ> sep) (c # cs)))"
  by pat_completeness auto
termination
proof (relation "measure (\<lambda>(sep, s). length s)")
  fix sep :: "char \<Rightarrow> bool" and s c cs
  assume "dropWhile sep s = c # cs"
  then have "\<not> sep c" "length (c # cs) \<le> length s"
    using hd_dropWhile [of sep s] length_dropWhile_le [of sep s] by auto
  then show "((sep, dropWhile (Not \<circ> sep) (c # cs)), sep, s) \<in> measure (\<lambda>(sep, s). length s)"
    using length_dropWhile_le [of "Not \<circ> sep" cs] by simp
qed simp

declare fields_by.simps [simp del]

definition parseDiameterApplications :: "string \<Rightarrow> string list" where
  "parseDiameterApplications raw =
     filter (\<lambda>f. f \<in> {''sh'', ''sgd'', ''s6c''})
       (fields_by (\<lambda>c. c \<in> {CHR '','', CHR '' '', CHR 0x09, CHR 0x0A}) (to_lower (trim_space raw)))"

definition diameterApplicationFromID :: "32 word \<Rightarrow> string" where
  "diameterApplicationFromID appID =
     (if appID = App3GPP_Sh then ''sh'' else if appID = App3GPP_SGd then ''sgd'' else if appID = App3GPP_S6c then ''s6c'' else [])"

definition diameterApplicationsFromConfig :: "peer_cfg \<Rightarrow> string \<Rightarrow> string list" where
  "diameterApplicationsFromConfig cfg application =
     mergeDiameterApplications [] (parseDiameterApplications application @
       filter (\<lambda>app. app \<noteq> []) (map diameterApplicationFromID (pc_AppIDs cfg @ [pc_AppID cfg])))"

definition formatDiameterApplications :: "string list \<Rightarrow> string list" where
  "formatDiameterApplications apps = concat (map (\<lambda>app.
     if app = ''sh'' then [''Sh''] else if app = ''sgd'' then [''SGd''] else if app = ''s6c'' then [''S6c''] else []) apps)"

section \<open>Diameter peers\<close>

text \<open>The times of connections, which the model of a peer leaves out, are an argument: \<open>connected\<close>.\<close>

record peer_status =
  pst_Name :: string
  pst_Application :: string
  pst_State :: string
  pst_ConnectedAt :: "int option"

fun State_String :: "peer_state \<Rightarrow> string" where
  "State_String StateClosed = ''CLOSED''"
| "State_String StateWaitCEA = ''WAIT_CEA''"
| "State_String StateOpen = ''OPEN''"
| "State_String StateClosing = ''CLOSING''"

definition state_of :: "sync_world \<Rightarrow> nat \<Rightarrow> string" where
  "state_of w p = State_String (pe_state (snd (sw_heap (sy_sgd w) p)))"

text \<open>\<open>outs\<close> and \<open>ins\<close> are the orders in which the two tables of the SGd server are gone through.\<close>

definition PeerStatuses :: "string list \<Rightarrow> string list \<Rightarrow> (nat \<Rightarrow> int option) \<Rightarrow> sync_world \<Rightarrow> peer_status list" where
  "PeerStatuses outs ins connected w =
     (let fqdn = sgd_fqdn (sy_sgd w);
          outbounds = concat (map (\<lambda>name. case outbound w name of None \<Rightarrow> [] | Some p \<Rightarrow> [(name, p)]) outs);
          names = concat (map (\<lambda>(name, p). [if fqdn p = [] then name else fqdn p, name]) outbounds) in
      map (\<lambda>(name, p). \<lparr>pst_Name = name, pst_Application = dc_Application (sy_dial w p), pst_State = state_of w p,
        pst_ConnectedAt = connected p\<rparr>) outbounds @
      concat (map (\<lambda>key. case sv_peers (sw_server (sy_sgd w)) key of
          None \<Rightarrow> []
        | Some p \<Rightarrow> if fqdn p = [] \<or> key \<in> set names \<or> fqdn p \<in> set names \<or> key \<noteq> fqdn p then []
            else [\<lparr>pst_Name = fqdn p, pst_Application = ''sgd'', pst_State = state_of w p, pst_ConnectedAt = connected p\<rparr>]) ins))"

record runtime_peer =
  rp_Name :: string
  rp_State :: string
  rp_ConnectedAt :: "int option"
  rp_Applications :: "string list"

definition earliestTime :: "int option \<Rightarrow> int option \<Rightarrow> int option" where
  "earliestTime current candidate =
     (case current of
        None \<Rightarrow> candidate
      | Some c \<Rightarrow> (case candidate of None \<Rightarrow> current | Some t \<Rightarrow> if t < c then candidate else current))"

text \<open>What is known of a peer: its name, its state, since when it is connected and its applications.\<close>

type_synonym peer_source = "string \<times> string \<times> int option \<times> string list"

definition merge_source :: "peer_source \<Rightarrow> runtime_peer \<Rightarrow> runtime_peer" where
  "merge_source = (\<lambda>(name, state, connectedAt, applications) current.
     current\<lparr>rp_State := (if rp_State current \<noteq> ''OPEN'' \<or> state = ''OPEN'' then state else rp_State current),
       rp_ConnectedAt := earliestTime (rp_ConnectedAt current) connectedAt,
       rp_Applications := mergeDiameterApplications (rp_Applications current) applications\<rparr>)"

definition mergeDiameterRuntimePeer :: "peer_source \<Rightarrow> runtime_peer list \<Rightarrow> runtime_peer list" where
  "mergeDiameterRuntimePeer src merged =
     (let name = fst src in
      if name = [] then merged
      else if name \<in> rp_Name ` set merged then map (\<lambda>p. if rp_Name p = name then merge_source src p else p) merged
      else merged @ [merge_source src \<lparr>rp_Name = name, rp_State = [], rp_ConnectedAt = None, rp_Applications = []\<rparr>])"

definition status_source :: "peer_status \<Rightarrow> peer_source" where
  "status_source ps = (pst_Name ps, pst_State ps, pst_ConnectedAt ps, parseDiameterApplications (pst_Application ps) @ [''sgd''])"

definition hss_source :: "(nat \<Rightarrow> int option) \<Rightarrow> sync_world \<Rightarrow> nat \<Rightarrow> peer_source" where
  "hss_source connected w p = (pc_Name (peer_cfg_of w p), state_of w p, connected p,
     diameterApplicationsFromConfig (peer_cfg_of w p) (dc_Application (sy_dial w p)))"

definition peer_sources :: "peer_status list \<Rightarrow> nat list \<Rightarrow> (nat \<Rightarrow> int option) \<Rightarrow> sync_world \<Rightarrow> peer_source list" where
  "peer_sources sgdPeers hssPeers connected w = map status_source sgdPeers @ map (hss_source connected w) hssPeers"

text \<open>The peers come in any order, here in that of their first mention.\<close>

definition aggregateDiameterRuntimePeers :: "peer_status list \<Rightarrow> nat list \<Rightarrow> (nat \<Rightarrow> int option) \<Rightarrow> sync_world \<Rightarrow> runtime_peer list" where
  "aggregateDiameterRuntimePeers sgdPeers hssPeers connected w =
     fold mergeDiameterRuntimePeer (peer_sources sgdPeers hssPeers connected w) []"

section \<open>The list of peers\<close>

record peer_info =
  pn_Name :: string
  pn_Type :: string
  pn_State :: string
  pn_Transport :: string
  pn_SystemID :: string
  pn_BindType :: string
  pn_RemoteAddr :: string
  pn_Application :: string
  pn_ConnectedAt :: "int option"
  pn_ExpiryAt :: "int option"

fun join_space :: "string list \<Rightarrow> string" where
  "join_space [] = []"
| "join_space [s] = s"
| "join_space (s # t # ss) = s @ CHR '' '' # join_space (t # ss)"

definition diameterRuntimePeerInfo :: "runtime_peer list \<Rightarrow> peer_info list" where
  "diameterRuntimePeerInfo peers = map (\<lambda>p. \<lparr>pn_Name = rp_Name p, pn_Type = ''diameter_peer'', pn_State = rp_State p,
     pn_Transport = [], pn_SystemID = [], pn_BindType = [], pn_RemoteAddr = [],
     pn_Application = join_space (formatDiameterApplications (rp_Applications p)),
     pn_ConnectedAt = rp_ConnectedAt p, pn_ExpiryAt = None\<rparr>) peers"

fun LinkState_String :: "link_state \<Rightarrow> string" where
  "LinkState_String StateDisconnected = ''DISCONNECTED''"
| "LinkState_String StateConnecting = ''CONNECTING''"
| "LinkState_String StateBound = ''BOUND''"

text \<open>\<open>All\<close>: the links of the registry, for the system ids in any order.\<close>

definition all_links :: "string list \<Rightarrow> smpp_registry \<Rightarrow> nat list" where
  "all_links ids reg = concat (map (GetBySystemID reg) ids)"

definition account_names :: "smpp_account list option \<Rightarrow> string \<Rightarrow> string" where
  "account_names accounts systemID = (case accounts of
       None \<Rightarrow> []
     | Some accs \<Rightarrow> fold (\<lambda>a n. if sa_Name a \<noteq> [] \<and> sa_SystemID a = systemID then sa_Name a else n) accs [])"

text \<open>The transport, the far end and the time of a link, which its model leaves out, are given by \<open>display\<close>.\<close>

definition link_info :: "(string \<Rightarrow> string) \<Rightarrow> (nat \<Rightarrow> string \<times> string \<times> int) \<Rightarrow> link_heap \<Rightarrow> nat \<Rightarrow> peer_info" where
  "link_info names display heap l =
     (let k = heap l; (transport, remote, since) = display l;
          server = (lk_Mode k \<noteq> ''client'');
          name = (if server then if names (lk_SystemID k) \<noteq> [] then names (lk_SystemID k)
                    else if lk_Name k = [] then lk_SystemID k else lk_Name k
                  else lk_Name k) in
      \<lparr>pn_Name = name, pn_Type = (if server then ''smpp_server'' else ''smpp_client''), pn_State = LinkState_String (lk_state k),
       pn_Transport = transport, pn_SystemID = lk_SystemID k, pn_BindType = lk_BindType k, pn_RemoteAddr = remote,
       pn_Application = [], pn_ConnectedAt = Some since, pn_ExpiryAt = None\<rparr>)"

definition registration_infos :: "int \<Rightarrow> (string \<Rightarrow> int) \<Rightarrow> ims_registration list option \<Rightarrow> peer_info list" where
  "registration_infos now updated regs = (case regs of
       None \<Rightarrow> []
     | Some rs \<Rightarrow> map (\<lambda>r. \<lparr>pn_Name = ir_MSISDN r, pn_Type = ''sip_ims'', pn_State = ''REGISTERED'', pn_Transport = [],
          pn_SystemID = ir_SIPAOR r, pn_BindType = [], pn_RemoteAddr = ir_ContactURI r, pn_Application = ir_SCSCF r,
          pn_ConnectedAt = Some (updated (ir_MSISDN r)), pn_ExpiryAt = Some (ir_Expiry r)\<rparr>)
        (filter (\<lambda>r. ir_Registered r \<and> \<not> ir_Expiry r < now) rs))"

section \<open>Gauges and status\<close>

record gauges =
  ga_SMPPSessions :: nat
  ga_DiameterPeers :: nat
  ga_SIPPeers :: nat
  ga_SFQueued :: nat
  ga_SFExpired :: nat

definition count_of :: "(string \<times> nat) list \<Rightarrow> string \<Rightarrow> nat" where
  "count_of counts s = (case map_of counts s of Some n \<Rightarrow> n | None \<Rightarrow> 0)"

text \<open>The counts come from the store, and are left when it does not answer.\<close>

definition updateGauges ::
  "link_heap \<Rightarrow> nat list \<Rightarrow> runtime_peer list \<Rightarrow> sip_peer_row list option \<Rightarrow> (string \<times> nat) list option \<Rightarrow> gauges \<Rightarrow> gauges" where
  "updateGauges heap links peers sipPeers counts g =
     (let g = g\<lparr>ga_SMPPSessions := length (filter (\<lambda>l. lk_state (heap l) = StateBound) links),
                ga_DiameterPeers := length (filter (\<lambda>p. rp_State p = ''OPEN'') peers)\<rparr>;
          g = (case sipPeers of None \<Rightarrow> g | Some ps \<Rightarrow> g\<lparr>ga_SIPPeers := length (filter sp_Enabled ps)\<rparr>) in
      case counts of
        None \<Rightarrow> g
      | Some cs \<Rightarrow> g\<lparr>ga_SFQueued := count_of cs MessageStatusQueued + count_of cs MessageStatusDispatched +
            count_of cs MessageStatusWaitTimer + count_of cs MessageStatusWaitEvent + count_of cs MessageStatusWaitTimerEvent,
          ga_SFExpired := count_of cs MessageStatusExpired\<rparr>)"

record message_counts =
  mc_Queued :: nat
  mc_Dispatched :: nat
  mc_Delivered :: nat
  mc_Failed :: nat
  mc_Expired :: nat

definition api_status :: "(string \<times> nat) list option \<Rightarrow> message_counts" where
  "api_status counts = (case counts of
       None \<Rightarrow> \<lparr>mc_Queued = 0, mc_Dispatched = 0, mc_Delivered = 0, mc_Failed = 0, mc_Expired = 0\<rparr>
     | Some cs \<Rightarrow> \<lparr>mc_Queued = count_of cs ''QUEUED'', mc_Dispatched = count_of cs ''DISPATCHED'',
         mc_Delivered = count_of cs ''DELIVERED'', mc_Failed = count_of cs ''FAILED'', mc_Expired = count_of cs ''EXPIRED''\<rparr>)"

section \<open>Expired registrations\<close>

definition registration_over :: "int \<Rightarrow> ims_registration \<Rightarrow> bool" where
  "registration_over now r \<longleftrightarrow> \<not> (ir_Registered r \<and> now < ir_Expiry r)"

fun delete_registrations :: "int \<Rightarrow> ims_registration list \<Rightarrow> unit process" where
  "delete_registrations now [] = State_Monad.return ()"
| "delete_registrations now (r # rs) =
     (if registration_over now r then do { store (DeleteIMSRegistration (ir_MSISDN r)); delete_registrations now rs }
      else delete_registrations now rs)"

definition registration_cleanup :: "env \<Rightarrow> unit process" where
  "registration_cleanup E = do {
     regs \<leftarrow> store ListIMSRegistrations;
     (case regs of
        None \<Rightarrow> State_Monad.return ()
      | Some rs \<Rightarrow> do { now \<leftarrow> now_of E; delete_registrations now rs }) }"

section \<open>The state of a peer, whatever the order\<close>

text \<open>
  The reference: what the sources of one name say together. It is open if one of them says so, and has the
  applications of all of them and the earliest of their times.
\<close>

definition of_name :: "string \<Rightarrow> peer_source list \<Rightarrow> peer_source list" where
  "of_name name srcs = filter (\<lambda>s. fst s = name) srcs"

definition times_of :: "peer_source list \<Rightarrow> int list" where
  "times_of srcs = concat (map (\<lambda>(n, st, t, apps). case t of None \<Rightarrow> [] | Some t \<Rightarrow> [t]) srcs)"

definition earliest_of :: "int list \<Rightarrow> int option" where
  "earliest_of ts = (if ts = [] then None else Some (Min (set ts)))"

definition says_open :: "peer_source list \<Rightarrow> bool" where
  "says_open srcs \<longleftrightarrow> (\<exists>s \<in> set srcs. fst (snd s) = ''OPEN'')"

definition joint_state :: "peer_source list \<Rightarrow> string" where
  "joint_state srcs = (if srcs = [] then [] else if says_open srcs then ''OPEN'' else fst (snd (last srcs)))"

definition joint_apps :: "peer_source list \<Rightarrow> string list" where
  "joint_apps srcs = filter (\<lambda>a. \<exists>s \<in> set srcs. a \<in> set (snd (snd (snd s)))) diameterAppOrder"

definition summary :: "string \<Rightarrow> peer_source list \<Rightarrow> runtime_peer" where
  "summary name srcs = \<lparr>rp_Name = name, rp_State = joint_state (of_name name srcs),
     rp_ConnectedAt = earliest_of (times_of (of_name name srcs)), rp_Applications = joint_apps (of_name name srcs)\<rparr>"

lemma of_name_snoc [simp]: "of_name n (srcs @ [s]) = of_name n srcs @ (if fst s = n then [s] else [])"
  by (simp add: of_name_def)

lemma earliest_of_snoc: "earliest_of (ts @ (case t of None \<Rightarrow> [] | Some t \<Rightarrow> [t])) = earliestTime (earliest_of ts) t"
proof (cases t)
  case None
  then show ?thesis by (simp add: earliestTime_def earliest_of_def)
next
  case (Some x)
  show ?thesis
  proof (cases "ts = []")
    case False
    define M where "M = Min (set ts)"
    have "Min (set (ts @ [x])) = min x M" using False by (simp add: M_def)
    moreover have "earliest_of ts = Some M" using False by (simp add: earliest_of_def M_def)
    ultimately show ?thesis using Some by (simp add: earliestTime_def earliest_of_def min_def)
  qed (simp add: Some earliestTime_def earliest_of_def)
qed

lemma joint_state_open: "joint_state srcs = ''OPEN'' \<longleftrightarrow> says_open srcs"
  using last_in_set [of srcs] by (auto simp: joint_state_def says_open_def)

lemma joint_state_snoc:
  "joint_state (srcs @ [s]) = (if joint_state srcs \<noteq> ''OPEN'' \<or> fst (snd s) = ''OPEN'' then fst (snd s) else joint_state srcs)"
proof -
  have "says_open (srcs @ [s]) \<longleftrightarrow> says_open srcs \<or> fst (snd s) = ''OPEN''" by (auto simp: says_open_def)
  then show ?thesis using joint_state_open [of srcs] by (auto simp: joint_state_def)
qed

lemma joint_apps_snoc: "joint_apps (srcs @ [s]) = mergeDiameterApplications (joint_apps srcs) (snd (snd (snd s)))"
proof -
  have "[] \<notin> set diameterAppOrder" by (simp add: diameterAppOrder_def)
  then show ?thesis
    unfolding mergeDiameterApplications_def joint_apps_def by (intro filter_cong refl) auto
qed

lemma summary_snoc: "summary n (srcs @ [s]) = (if fst s = n then merge_source s (summary n srcs) else summary n srcs)"
proof -
  obtain m st t apps where s: "s = (m, st, t, apps)" by (cases s)
  have "times_of (of_name n srcs @ [s]) = times_of (of_name n srcs) @ (case t of None \<Rightarrow> [] | Some t \<Rightarrow> [t])"
    by (simp add: times_of_def s)
  then have t: "earliest_of (times_of (of_name n srcs @ [s])) = earliestTime (earliest_of (times_of (of_name n srcs))) t"
    by (simp add: earliest_of_snoc)
  show ?thesis
  proof (cases "fst s = n")
    case True
    then have "of_name n (srcs @ [s]) = of_name n srcs @ [s]" by simp
    then have "summary n (srcs @ [s]) = merge_source s (summary n srcs)"
      unfolding summary_def merge_source_def by (simp only: t joint_apps_snoc joint_state_snoc) (simp add: s)
    then show ?thesis using True by simp
  qed (simp add: summary_def)
qed

lemma summary_none: "of_name n srcs = [] \<Longrightarrow> summary n srcs = \<lparr>rp_Name = n, rp_State = [], rp_ConnectedAt = None, rp_Applications = []\<rparr>"
  by (simp add: summary_def times_of_def earliest_of_def joint_state_def joint_apps_def)

lemma name_summary [simp]: "rp_Name (summary n srcs) = n"
  by (simp add: summary_def)

lemma name_merge [simp]: "rp_Name (merge_source s p) = rp_Name p"
  by (simp add: merge_source_def split: prod.split)

definition source_names :: "peer_source list \<Rightarrow> string set" where
  "source_names srcs = {n. n \<noteq> [] \<and> of_name n srcs \<noteq> []}"

lemma source_names_snoc: "source_names (srcs @ [s]) = (if fst s = [] then source_names srcs else insert (fst s) (source_names srcs))"
  by (auto simp: source_names_def)

text \<open>
  The merged list has one entry for every name that is not empty, and it is what the sources of the name say together.
\<close>

lemma merged_exact:
  "distinct (map rp_Name (fold mergeDiameterRuntimePeer srcs [])) \<and>
     set (fold mergeDiameterRuntimePeer srcs []) = (\<lambda>n. summary n srcs) ` source_names srcs"
proof (induction srcs rule: rev_induct)
  case Nil
  then show ?case by (simp add: of_name_def source_names_def)
next
  case (snoc s srcs)
  let ?ps = "fold mergeDiameterRuntimePeer srcs []" and ?n = "fst s"
  have IH: "distinct (map rp_Name ?ps)" "set ?ps = (\<lambda>n. summary n srcs) ` source_names srcs" using snoc by blast+
  have names: "rp_Name ` set ?ps = source_names srcs" unfolding IH(2) by (simp add: image_image)
  have other: "(\<lambda>n. summary n (srcs @ [s])) ` (source_names srcs - {?n}) = (\<lambda>n. summary n srcs) ` (source_names srcs - {?n})"
    by (intro image_cong refl) (auto simp: summary_snoc)
  have fold: "fold mergeDiameterRuntimePeer (srcs @ [s]) [] = mergeDiameterRuntimePeer s ?ps" by simp
  consider (no) "?n = []" | (old) "?n \<noteq> []" "?n \<in> source_names srcs" | (new) "?n \<noteq> []" "?n \<notin> source_names srcs" by blast
  then show ?case
  proof cases
    case no
    then have "[] \<notin> source_names srcs" by (simp add: source_names_def)
    then have "source_names srcs - {?n} = source_names srcs" using no by simp
    then show ?thesis
      using IH other no unfolding fold by (simp add: mergeDiameterRuntimePeer_def source_names_snoc)
  next
    case old
    have m: "mergeDiameterRuntimePeer s ?ps = map (\<lambda>p. if rp_Name p = ?n then merge_source s p else p) ?ps"
      using old names by (simp add: mergeDiameterRuntimePeer_def)
    have "map rp_Name (mergeDiameterRuntimePeer s ?ps) = map rp_Name ?ps" unfolding m by simp
    moreover have "set (mergeDiameterRuntimePeer s ?ps) = (\<lambda>n. summary n (srcs @ [s])) ` source_names srcs"
      unfolding m set_map IH(2) image_image by (intro image_cong refl) (simp add: summary_snoc)
    ultimately show ?thesis
      using IH(1) old unfolding fold by (simp add: source_names_snoc insert_absorb)
  next
    case new
    have "of_name ?n srcs = []" using new by (simp add: source_names_def)
    then have m: "mergeDiameterRuntimePeer s ?ps = ?ps @ [summary ?n (srcs @ [s])]"
      using new names by (simp add: mergeDiameterRuntimePeer_def summary_snoc summary_none)
    have "distinct (map rp_Name (mergeDiameterRuntimePeer s ?ps))" unfolding m using IH(1) names new by simp
    moreover have "source_names srcs - {?n} = source_names srcs" using new by blast
    ultimately show ?thesis
      using IH(2) other new unfolding fold m by (simp add: source_names_snoc)
  qed
qed

text \<open>
  C32: Every Diameter peer is listed once, however many parts of the system know it: as open exactly when one of them has it
  open, with the applications of all of them and the earliest of their connections, and the gauge counts it once.
\<close>

theorem peers_listed_once:
  "distinct (map rp_Name (aggregateDiameterRuntimePeers sgd hss connected w)) \<and>
   set (aggregateDiameterRuntimePeers sgd hss connected w) = (\<lambda>n. summary n (peer_sources sgd hss connected w)) ` source_names (peer_sources sgd hss connected w) \<and>
   ga_DiameterPeers (updateGauges heap links (aggregateDiameterRuntimePeers sgd hss connected w) sip counts g) =
     card {n \<in> source_names (peer_sources sgd hss connected w). says_open (of_name n (peer_sources sgd hss connected w))}"
proof -
  define srcs where "srcs = peer_sources sgd hss connected w"
  let ?ps = "aggregateDiameterRuntimePeers sgd hss connected w" and ?open = "\<lambda>p. rp_State p = ''OPEN''"
  have M: "distinct (map rp_Name ?ps)" "set ?ps = (\<lambda>n. summary n srcs) ` source_names srcs"
    using merged_exact [of srcs] by (simp_all add: aggregateDiameterRuntimePeers_def srcs_def)
  have o: "?open (summary n srcs) \<longleftrightarrow> says_open (of_name n srcs)" for n
    by (simp only: summary_def runtime_peer.simps joint_state_open)
  have f: "{p \<in> (\<lambda>n. summary n srcs) ` source_names srcs. ?open p} = (\<lambda>n. summary n srcs) ` {n \<in> source_names srcs. says_open (of_name n srcs)}"
    (is "?L = ?R")
  proof (intro set_eqI iffI)
    fix p assume "p \<in> ?L" then show "p \<in> ?R" using o by (auto simp only: mem_Collect_eq image_iff)
  next
    fix p assume "p \<in> ?R" then show "p \<in> ?L" using o by (auto simp only: mem_Collect_eq image_iff)
  qed
  have "rp_Name ` set (filter ?open ?ps) = {n \<in> source_names srcs. says_open (of_name n srcs)}"
    unfolding set_filter M(2) f by (simp add: image_image)
  moreover have "distinct (map rp_Name (filter ?open ?ps))" using M(1) by (simp add: distinct_map_filter)
  then have "length (filter ?open ?ps) = card (rp_Name ` set (filter ?open ?ps))"
    using distinct_card [of "map rp_Name (filter ?open ?ps)"] by (simp only: length_map set_map)
  ultimately have c: "length (filter ?open ?ps) = card {n \<in> source_names srcs. says_open (of_name n srcs)}" by simp
  have "ga_DiameterPeers (updateGauges heap links ?ps sip counts g) = length (filter ?open ?ps)"
    by (simp add: updateGauges_def Let_def split: option.split)
  then show ?thesis using M c unfolding srcs_def by simp
qed


section \<open>What the gauges and the status count\<close>

lemma counts_exact:
  assumes "CountMessagesByStatus d = (Some cs, d')"
  shows "count_of cs s = length (filter (\<lambda>m. sm_Status m = s) (db_messages d))"
proof -
  let ?f = "\<lambda>s. length (filter (\<lambda>m. sm_Status m = s) (db_messages d))"
  have cs: "cs = map (\<lambda>s. (s, ?f s)) (remdups (map sm_Status (db_messages d)))"
    using assms unfolding CountMessagesByStatus_def
    by (cases rule: db_call_cases [of "\<lambda>d. (map (\<lambda>s. (s, length (filter (\<lambda>m. sm_Status m = s) (db_messages d))))
          (remdups (map sm_Status (db_messages d))), d)" d]) auto
  show ?thesis
  proof (cases "s \<in> sm_Status ` set (db_messages d)")
    case True
    then show ?thesis by (simp add: cs count_of_def map_of_map_restrict)
  next
    case False
    then have "filter (\<lambda>m. sm_Status m = s) (db_messages d) = []" by (auto simp: filter_empty_conv)
    then show ?thesis using False by (simp add: cs count_of_def map_of_map_restrict)
  qed
qed

lemma length_filter_disj:
  "(\<And>x. \<not> (P x \<and> Q x)) \<Longrightarrow> length (filter P xs) + length (filter Q xs) = length (filter (\<lambda>x. P x \<or> Q x) xs)"
  by (induction xs) auto

lemma statuses_differ:
  "MessageStatusQueued \<noteq> MessageStatusDispatched" "MessageStatusQueued \<noteq> MessageStatusWaitTimer" "MessageStatusQueued \<noteq> MessageStatusWaitEvent"
  "MessageStatusQueued \<noteq> MessageStatusWaitTimerEvent" "MessageStatusDispatched \<noteq> MessageStatusWaitTimer"
  "MessageStatusDispatched \<noteq> MessageStatusWaitEvent" "MessageStatusDispatched \<noteq> MessageStatusWaitTimerEvent"
  "MessageStatusWaitTimer \<noteq> MessageStatusWaitEvent" "MessageStatusWaitTimer \<noteq> MessageStatusWaitTimerEvent"
  "MessageStatusWaitEvent \<noteq> MessageStatusWaitTimerEvent"
  by simp_all

text \<open>
  The gauge of the queue counts every message that is not settled - queued, on its way or waiting; the status of the API
  counts as queued only those that wait for nothing, so that a message that waits for a timer or an event is in none of
  its counts.
\<close>

theorem queue_counts:
  assumes "CountMessagesByStatus d = (Some cs, d')"
  shows "ga_SFQueued (updateGauges heap links peers sip (Some cs) g) = length (filter (\<lambda>m. sm_Status m \<in> set queue_statuses) (db_messages d)) \<and>
    mc_Queued (api_status (Some cs)) = length (filter (\<lambda>m. sm_Status m = MessageStatusQueued) (db_messages d)) \<and>
    mc_Queued (api_status (Some cs)) + mc_Dispatched (api_status (Some cs)) + mc_Delivered (api_status (Some cs)) +
      mc_Failed (api_status (Some cs)) + mc_Expired (api_status (Some cs)) +
      length (filter (\<lambda>m. sm_Status m \<in> {MessageStatusWaitTimer, MessageStatusWaitEvent, MessageStatusWaitTimerEvent}) (db_messages d))
      \<le> length (db_messages d)"
proof -
  let ?n = "\<lambda>P. length (filter (\<lambda>m. P (sm_Status m)) (db_messages d))"
  note C = counts_exact [OF assms]
  have add: "?n (\<lambda>s. s \<in> A) + ?n (\<lambda>s. s = t) = ?n (\<lambda>s. s \<in> insert t A)" if "t \<notin> A" for A t
    using that length_filter_disj [of "\<lambda>m. sm_Status m \<in> A" "\<lambda>m. sm_Status m = t" "db_messages d"]
    by (auto simp: disj_commute intro!: arg_cong [of _ _ length] filter_cong)
  have one: "?n (\<lambda>s. s = t) = ?n (\<lambda>s. s \<in> {t})" for t by simp
  have "ga_SFQueued (updateGauges heap links peers sip (Some cs) g) =
      ?n (\<lambda>s. s = MessageStatusQueued) + ?n (\<lambda>s. s = MessageStatusDispatched) + ?n (\<lambda>s. s = MessageStatusWaitTimer) +
      ?n (\<lambda>s. s = MessageStatusWaitEvent) + ?n (\<lambda>s. s = MessageStatusWaitTimerEvent)"
    by (cases sip) (simp_all add: updateGauges_def Let_def C)
  also have "\<dots> = ?n (\<lambda>s. s \<in> {MessageStatusWaitTimerEvent, MessageStatusWaitEvent, MessageStatusWaitTimer, MessageStatusDispatched, MessageStatusQueued})"
    unfolding one [of MessageStatusQueued] by (subst add, simp)+ simp
  also have "{MessageStatusWaitTimerEvent, MessageStatusWaitEvent, MessageStatusWaitTimer, MessageStatusDispatched, MessageStatusQueued} = set queue_statuses"
    unfolding queue_statuses_def by auto
  finally have 1: "ga_SFQueued (updateGauges heap links peers sip (Some cs) g) = ?n (\<lambda>s. s \<in> set queue_statuses)" .
  let ?W = "{MessageStatusWaitTimer, MessageStatusWaitEvent, MessageStatusWaitTimerEvent}"
  have m: "mc_Queued (api_status (Some cs)) = ?n (\<lambda>s. s = ''QUEUED'')" "mc_Dispatched (api_status (Some cs)) = ?n (\<lambda>s. s = ''DISPATCHED'')"
    "mc_Delivered (api_status (Some cs)) = ?n (\<lambda>s. s = ''DELIVERED'')" "mc_Failed (api_status (Some cs)) = ?n (\<lambda>s. s = ''FAILED'')"
    "mc_Expired (api_status (Some cs)) = ?n (\<lambda>s. s = ''EXPIRED'')"
    by (simp_all add: api_status_def C)
  have "?n (\<lambda>s. s \<in> ?W) + ?n (\<lambda>s. s = ''QUEUED'') + ?n (\<lambda>s. s = ''DISPATCHED'') + ?n (\<lambda>s. s = ''DELIVERED'') + ?n (\<lambda>s. s = ''FAILED'') +
      ?n (\<lambda>s. s = ''EXPIRED'') = ?n (\<lambda>s. s \<in> insert ''EXPIRED'' (insert ''FAILED'' (insert ''DELIVERED'' (insert ''DISPATCHED'' (insert ''QUEUED'' ?W)))))"
    by (subst add, simp)+ simp
  also have "\<dots> \<le> length (db_messages d)" by (rule length_filter_le)
  finally show ?thesis using 1 m by simp
qed

section \<open>What the removal of registrations leaves\<close>

lemma delete_registrations_effect:
  assumes "run_state (delete_registrations now rs) w = (u, w')"
  shows "\<exists>gone. set gone \<subseteq> ir_MSISDN ` set (filter (registration_over now) rs) \<and>
    db_registrations (w_db w') = filter (\<lambda>r. ir_MSISDN r \<notin> set gone) (db_registrations (w_db w)) \<and>
    (calm w \<longrightarrow> set gone = ir_MSISDN ` set (filter (registration_over now) rs))"
  using assms
proof (induction rs arbitrary: w)
  case Nil
  then show ?case by (intro exI [of _ "[]"]) simp
next
  case (Cons r rs)
  show ?case
  proof (cases "registration_over now r")
    case False
    then show ?thesis using Cons by simp
  next
    case True
    let ?d = "DeleteIMSRegistration (ir_MSISDN r) (w_db w)" and ?v = "w\<lparr>w_db := snd (DeleteIMSRegistration (ir_MSISDN r) (w_db w))\<rparr>"
    have "run_state (delete_registrations now rs) ?v = (u, w')" using Cons.prems True by simp
    from Cons.IH [OF this] obtain gone where g: "set gone \<subseteq> ir_MSISDN ` set (filter (registration_over now) rs)"
      "db_registrations (w_db w') = filter (\<lambda>r. ir_MSISDN r \<notin> set gone) (db_registrations (snd ?d))"
      "calm ?v \<Longrightarrow> set gone = ir_MSISDN ` set (filter (registration_over now) rs)" by auto
    show ?thesis
    proof (cases rule: db_call_cases [of "\<lambda>d. ((), d\<lparr>db_registrations := filter (\<lambda>x. ir_MSISDN x \<noteq> ir_MSISDN r) (db_registrations d)\<rparr>)" "w_db w"])
      case (fail fs)
      then have d: "db_registrations (snd ?d) = db_registrations (w_db w)" "\<not> calm w"
        using db_call_no_fault [of "w_db w" "\<lambda>d. ((), d\<lparr>db_registrations := filter (\<lambda>x. ir_MSISDN x \<noteq> ir_MSISDN r) (db_registrations d)\<rparr>)"]
        by (auto simp: DeleteIMSRegistration_def calm_def)
      then show ?thesis using g(1,2) True by (intro exI [of _ gone]) auto
    next
      case (ok fs)
      then have d: "db_registrations (snd ?d) = filter (\<lambda>x. ir_MSISDN x \<noteq> ir_MSISDN r) (db_registrations (w_db w))"
        by (simp add: DeleteIMSRegistration_def)
      have c: "calm ?v" if "calm w" using that by (simp add: calm_def DeleteIMSRegistration_def db_call_no_fault)
      show ?thesis
        using g d c True by (intro exI [of _ "ir_MSISDN r # gone"]) (auto intro: filter_cong)
    qed
  qed
qed

text \<open>
  A registration that is in force is never removed, whatever fails; and when the store answers exactly those are left
  that are in force.
\<close>

theorem cleanup_keeps_active:
  assumes "run_state (registration_cleanup E) w = (u, w')" "distinct (map ir_MSISDN (db_registrations (w_db w)))"
  shows "(\<forall>r \<in> set (db_registrations (w_db w)). \<not> registration_over (ev_clock E (w_ticks w)) r \<longrightarrow> r \<in> set (db_registrations (w_db w'))) \<and>
    set (db_registrations (w_db w')) \<subseteq> set (db_registrations (w_db w)) \<and>
    (calm w \<longrightarrow> db_registrations (w_db w') = filter (\<lambda>r. \<not> registration_over (ev_clock E (w_ticks w)) r) (db_registrations (w_db w)))"
proof -
  let ?now = "ev_clock E (w_ticks w)" and ?rs = "db_registrations (w_db w)"
  have key: "r = s" if "r \<in> set ?rs" "s \<in> set ?rs" "ir_MSISDN r = ir_MSISDN s" for r s
    using assms(2) that by (auto simp: distinct_map dest: inj_onD)
  show ?thesis
  proof (cases rule: db_call_cases [of "\<lambda>d. (db_registrations d, d)" "w_db w"])
    case (fail fs)
    then have "\<not> calm w" using db_call_no_fault [of "w_db w" "\<lambda>d. (db_registrations d, d)"] by (auto simp: calm_def)
    then show ?thesis using assms(1) fail by (auto simp: registration_cleanup_def ListIMSRegistrations_def)
  next
    case (ok fs)
    let ?v = "w\<lparr>w_db := (w_db w)\<lparr>db_faults := fs\<rparr>, w_ticks := Suc (w_ticks w)\<rparr>"
    have r: "run_state (delete_registrations ?now ?rs) ?v = (u, w')"
      using assms(1) ok by (simp add: registration_cleanup_def ListIMSRegistrations_def)
    have c: "calm ?v" if "calm w" using that ok db_call_no_fault [of "w_db w" "\<lambda>d. (db_registrations d, d)"]
      by (auto simp: calm_def)
    have e: "db_registrations (w_db ?v) = ?rs" by simp
    obtain gone where
      g: "set gone \<subseteq> ir_MSISDN ` set (filter (registration_over ?now) ?rs)"
      "db_registrations (w_db w') = filter (\<lambda>r. ir_MSISDN r \<notin> set gone) ?rs"
      "calm ?v \<longrightarrow> set gone = ir_MSISDN ` set (filter (registration_over ?now) ?rs)" 
      using delete_registrations_effect [OF r, unfolded e] by (elim exE conjE) (rule that)
    have a: "ir_MSISDN r \<notin> set gone" if "r \<in> set ?rs" "\<not> registration_over ?now r" for r
    proof
      assume "ir_MSISDN r \<in> set gone"
      with g(1) obtain q where q: "q \<in> set ?rs" "registration_over ?now q" "ir_MSISDN q = ir_MSISDN r"
        unfolding set_filter by (metis (mono_tags, lifting) imageE mem_Collect_eq subsetD)
      then have "q = r" using key that(1) by simp
      then show False using q(2) that(2) by simp
    qed
    have "ir_MSISDN r \<in> set gone \<longleftrightarrow> registration_over ?now r" if "r \<in> set ?rs" "calm w" for r
      using a [OF that(1)] g(3) c [OF that(2)] that(1) by auto
    then have "db_registrations (w_db w') = filter (\<lambda>r. \<not> registration_over ?now r) ?rs" if "calm w"
      unfolding g(2) using that by (intro filter_cong refl) blast
    then show ?thesis using a unfolding g(2) by auto
  qed
qed

section \<open>Examples\<close>

lemma queue_counts_witness:
  "\<exists>cs d'. CountMessagesByStatus (example_db SQLite [example_message ''a'' MessageStatusWaitTimer None]) = (Some cs, d') \<and>
     mc_Queued (api_status (Some cs)) = 0 \<and>
     ga_SFQueued (updateGauges (\<lambda>_. NewLink [] [] [] [] 0 [] StateBound) [] [] None (Some cs) \<lparr>ga_SMPPSessions = 0, ga_DiameterPeers = 0, ga_SIPPeers = 0, ga_SFQueued = 0, ga_SFExpired = 0\<rparr>) = 1"
proof -
  let ?ms = "[example_message ''a'' MessageStatusWaitTimer None]"
  obtain cs d' where c: "CountMessagesByStatus (example_db SQLite ?ms) = (Some cs, d')"
    by (simp add: CountMessagesByStatus_def db_call.simps)
  have "sm_Status (example_message ''a'' MessageStatusWaitTimer None) = MessageStatusWaitTimer" by (simp add: example_message_def)
  with queue_counts [OF c] c show ?thesis by (auto simp: queue_statuses_def)
qed

definition old_registration :: "string \<Rightarrow> int \<Rightarrow> ims_registration" where
  "old_registration n t = \<lparr>ir_MSISDN = n, ir_IMSI = [], ir_SIPAOR = [], ir_ContactURI = [], ir_SCSCF = [], ir_Registered = True, ir_Expiry = t\<rparr>"

lemma cleanup_keeps_active_witness:
  "db_registrations (w_db (snd (run_state (registration_cleanup (example_env\<lparr>ev_clock := \<lambda>_. 5\<rparr>))
     ((Registry.example_world SQLite [])\<lparr>w_db := (example_db SQLite [])\<lparr>db_registrations := [old_registration ''1'' 4, old_registration ''2'' 6]\<rparr>\<rparr>)))) =
   [old_registration ''2'' 6]"
proof -
  let ?E = "example_env\<lparr>ev_clock := \<lambda>_. 5\<rparr>"
  let ?w = "(Registry.example_world SQLite [])\<lparr>w_db := (example_db SQLite [])\<lparr>db_registrations := [old_registration ''1'' 4, old_registration ''2'' 6]\<rparr>\<rparr>"
  obtain u w' where r: "run_state (registration_cleanup ?E) ?w = (u, w')" by (metis prod.collapse)
  have "distinct (map ir_MSISDN (db_registrations (w_db ?w)))" by (simp add: old_registration_def)
  from cleanup_keeps_active [OF r this] have "calm ?w \<longrightarrow> db_registrations (w_db w') =
      filter (\<lambda>r. \<not> registration_over (ev_clock ?E (w_ticks ?w)) r) (db_registrations (w_db ?w))" by blast
  then have "db_registrations (w_db w') = [old_registration ''2'' 6]" by (simp add: calm_def registration_over_def old_registration_def)
  then show ?thesis unfolding r by simp
qed

end
