(* ===== verification/System.thy ===== *)
theory System
  imports Redelivery SmppServer
begin

text \<open>
  The parts together: \<open>main\<close> hands every message that comes in over SMPP, SGd or SIP to the forwarder, while retries,
  sweeps, alerts and restarts go on beside it. What is stored of a message stays; and a submission an ESME was told is
  accepted is in the store, under the identifier it was told.
\<close>

section \<open>What the interfaces hand on\<close>

datatype ingress =
    FromEsme message smpp_account
  | FromCarrier message string
  | FromSgd message string
  | FromSip message

fun ingress_message :: "ingress \<Rightarrow> message" where
  "ingress_message (FromEsme msg acc) = msg\<lparr>msg_IngressInterface := InterfaceSMPP, msg_IngressPeer := sa_SystemID acc\<rparr>"
| "ingress_message (FromCarrier msg name) = msg\<lparr>msg_IngressInterface := InterfaceSMPP, msg_IngressPeer := name\<rparr>"
| "ingress_message (FromSgd msg peer) = msg"
| "ingress_message (FromSip msg) = msg"

definition on_ingress :: "env \<Rightarrow> ingress \<Rightarrow> message process" where
  "on_ingress E i = Dispatch E (ingress_message i)"

text \<open>
  \<open>intake E is w w'\<close>: the messages \<open>is\<close> are handed on one after the other, each under an identifier the store takes and
  that is not in use, and anything else the engine does happens between them.
\<close>

inductive intake :: "env \<Rightarrow> ingress list \<Rightarrow> world \<Rightarrow> world \<Rightarrow> bool" for E where
  intake_end: "intake E [] w w"
| intake_beside: "engine_step E w w1 \<Longrightarrow> intake E is w1 w2 \<Longrightarrow> intake E is w w2"
| intake_message: "lookup_message (msg_ID (fst (run_state (with_identity E (ingress_message i)) w))) (w_db w) = None \<Longrightarrow>
    db_accepts (w_db w) (msg_ID (fst (run_state (with_identity E (ingress_message i)) w))) \<Longrightarrow>
    run_state (on_ingress E i) w = (msg, w1) \<Longrightarrow> intake E is w1 w2 \<Longrightarrow> intake E (i # is) w w2"

section \<open>The content of a row\<close>

text \<open>The part of a row nobody rewrites, as a view of the world; no statement changes it, for any key.\<close>

definition content_view :: "string \<Rightarrow> world \<Rightarrow> bool \<times> (smsg \<Rightarrow> bool)" where
  "content_view j w = (case lookup_message j (w_db w) of None \<Rightarrow> (False, \<lambda>_. False) | Some m \<Rightarrow> (True, \<lambda>m0. same_content m0 m))"

lemma content_view_Some:
  "lookup_message j (w_db w) = Some m \<Longrightarrow> content_view j w = content_view j w' \<Longrightarrow>
     \<exists>m'. lookup_message j (w_db w') = Some m' \<and> same_content m m'"
  by (auto simp: content_view_def same_content_def fun_eq_iff split: option.splits)

lemma stays_content: "stays messages_of p \<Longrightarrow> stays (content_view j) p"
  by (simp add: stays_def content_view_def lookup_message_def)

lemma content_update:
  assumes "\<And>m. sm_ID (g m) = sm_ID m" "\<And>m0 m. same_content m0 (g m) = same_content m0 m"
  shows "content_view j (w\<lparr>w_db := upd_message mid g d\<rparr>) = content_view j (w\<lparr>w_db := d\<rparr>)"
  by (auto simp: content_view_def msgs.lookup_update [OF assms(1)] assms(2) split: option.split)

lemma content_faults [simp]: "content_view j (w\<lparr>w_db := d\<lparr>db_faults := fs\<rparr>\<rparr>) = content_view j (w\<lparr>w_db := d\<rparr>)"
  by (simp add: content_view_def)

lemma db_call_content:
  assumes "\<And>d. f d = (r d, upd_message mid (g d) d)" and "\<And>d m. sm_ID (g d m) = sm_ID m"
    and "\<And>d m0 m. same_content m0 (g d m) = same_content m0 m"
  shows "stays (content_view j) (store (db_call f))"
  unfolding stays_def
proof
  fix w
  show "content_view j (snd (run_state (store (db_call f)) w)) = content_view j w"
    by (cases rule: db_call_cases [of f "w_db w"]) (simp_all add: assms content_update)
qed

lemma guarded_content:
  assumes "\<And>d m. sm_ID (g d m) = sm_ID m" and "\<And>d m0 m. same_content m0 (g d m) = same_content m0 m"
  shows "stays (content_view j) (store (db_call (\<lambda>d. upd_guarded mid allowed (g d) d)))"
  by (rule db_call_content [OF upd_guarded_def]) (simp_all add: assms)

lemma statement_content [frame]:
  "stays (content_view j) (store (UpdateMessageRouting mid i p))" "stays (content_view j) (store (UpdateMessageDeferred mid a i n c))"
  "stays (content_view j) (store (UpdateMessageStatus now mid st))" "stays (content_view j) (store (UpdateMessageRetry mid k t c))"
  "stays (content_view j) (store (UpdateMessageExpiryCap mid t))"
  unfolding UpdateMessageRouting_def UpdateMessageDeferred_def UpdateMessageStatus_def UpdateMessageRetry_def
    UpdateMessageExpiryCap_def Let_def
  by (rule db_call_content [OF refl]; simp)+

lemma claim_content [frame]:
  "stays (content_view j) (store (ClaimMessageForDispatch mid allowed))"
  "stays (content_view j) (store (RequeueMessageForAlert mid t c reason allowed))"
proof -
  show "stays (content_view j) (store (ClaimMessageForDispatch mid allowed))"
  proof (cases "allowed = []")
    case False
    then have "ClaimMessageForDispatch mid allowed =
        db_call (\<lambda>d. upd_guarded mid allowed (\<lambda>m. m\<lparr>sm_Status := MessageStatusDispatched\<rparr>) d)"
      by (intro ext) (simp add: ClaimMessageForDispatch_def)
    then show ?thesis by (simp only:) (rule guarded_content; simp)
  qed (simp add: store_pure ClaimMessageForDispatch_def)
  show "stays (content_view j) (store (RequeueMessageForAlert mid t c reason allowed))"
  proof (cases "allowed = []")
    case False
    have s: "same_content m0 (m\<lparr>sm_Status := st, sm_NextRetryAt := t', sm_RouteCursor := c', sm_DeferredReason := r\<rparr>) =
        same_content m0 m" for m0 m st t' c' r
      by (simp add: same_content_def)
    from False have "RequeueMessageForAlert mid t c reason allowed =
        db_call (\<lambda>d. upd_guarded mid allowed (\<lambda>m. m\<lparr>sm_Status := MessageStatusWaitTimer,
          sm_NextRetryAt := Some (db_time (db_backend d) t), sm_RouteCursor := c,
          sm_DeferredReason := (if reason \<noteq> [] then reason else sm_DeferredReason m)\<rparr>) d)"
      by (intro ext) (simp add: RequeueMessageForAlert_def)
    then show ?thesis by (simp only:) (rule guarded_content; simp add: s)
  qed (simp add: store_pure RequeueMessageForAlert_def)
qed

lemma quiet_content [frame]:
  "stays (content_view j) (now_of E)" "stays (content_view j) (random_of E)" "stays (content_view j) (store (GetMessage mid))"
  "stays (content_view j) (report_of E m rep)" "stays (content_view j) (routePolicy r)"
  "stays (content_view j) (runRoutingPass E msg c)" "stays (content_view j) (resolveCandidateAt E msg ds i)"
  "stays (content_view j) (deliverSelectedRoute E msg r')" "stays (content_view j) (store (GetSFPolicy q))"
  "stays (content_view j) (store (ListRetryableMessages t))" "stays (content_view j) (store (ListExpiredMessages t))"
  "stays (content_view j) (store (ListFilteredMessages f))"
  by (rule stays_content; (rule frame | rule stays_store)?; simp)+

lemma engine_content [frame]:
  "stays (content_view j) (set_status E mid st)" "stays (content_view j) (set_terminal E mid st rep)"
  "stays (content_view j) (markDeferred mid msg c r)" "stays (content_view j) (applyDeferredExpiryCap E mid t r)"
  "stays (content_view j) (persistDeliveredRoute mid i p)"
  unfolding set_status_def set_terminal_def markDeferred_def applyDeferredExpiryCap_def deferredLifetimeForRoute_def
    persistDeliveredRoute_def
  by (intro frame)+

lemma retry_content [frame]:
  "stays (content_view j) (storeToCodecMessage E m)" "stays (content_view j) (selectRoute E msg c)"
  "stays (content_view j) (nextRetry E m r)" "stays (content_view j) (retryMessage E m msg)"
proof -
  show conv: "stays (content_view j) (storeToCodecMessage E m)"
    unfolding storeToCodecMessage_def by (intro frame)
  have loop: "stays (content_view j) (select_loop E ds is msg)" for ds "is" msg
    by (induction "is" arbitrary: msg) (auto intro!: frame)
  show select: "stays (content_view j) (selectRoute E msg c)" for msg c
    unfolding selectRoute_def by (intro frame loop)
  have policy: "stays (content_view j) (sfPolicyForMessage E m r)"
    unfolding sfPolicyForMessage_def planned_policy_def by (intro frame conv select)
  show "stays (content_view j) (nextRetry E m r)"
    unfolding nextRetry_def
    by (intro frame policy; auto intro!: frame split: outcome.split option.split)
  show "stays (content_view j) (retryMessage E m msg)"
    unfolding retryMessage_def tryRouteAt_def by (intro frame)
qed

lemma finalize_content [frame]: "stays (content_view j) (finalizeRoutingPass E msg now c k res)"
  unfolding finalizeRoutingPass_def Let_def
  by (cases "pr_outcome res"; simp only: pass_outcome.case; intro frame)

lemma retry_dispatch_content [frame]: "stays (content_view j) (retry_dispatch E m)"
proof -
  have schedule: "stays (content_view j) (scheduleOrFail E m r)" for r
    unfolding scheduleOrFail_def
    by (rule stays_bind [OF retry_content(3)], simp split: outcome.split, intro conjI allI impI frame)
  have final: "stays (content_view j) (finalizeNonDelivered E m msg res)" for msg res
    unfolding finalizeNonDelivered_def
    by (simp split: pass_outcome.split outcome.split, intro conjI allI impI frame schedule;
        simp split: outcome.split; intro conjI allI impI frame)
  show ?thesis unfolding retry_dispatch_def by (intro frame final)
qed

lemma sweep_content [frame]: "stays (content_view j) (expiry_sweep E (Some (\<lambda>m. report_of E m StatusExpired)))"
proof -
  have "stays (content_view j) (expire_all E (Some (\<lambda>m. report_of E m StatusExpired)) ms)" for ms
    by (induction ms) (simp_all only: expire_all.simps option.case, (intro frame; assumption)+)
  then show ?thesis unfolding expiry_sweep_def by (intro frame)
qed

lemma alert_content [frame]: "stays (content_view j) (triggerAlertRetry E source msisdn corr iface)"
proof -
  have "stays (content_view j) (requeue_all reason now ms)" for reason now ms
    by (induction ms) (simp_all only: requeue_all.simps, (intro frame; assumption)+)
  then have "stays (content_view j) (wake_all E source iface ms)" for ms
    unfolding wake_all_def by (intro frame)
  then show ?thesis unfolding triggerAlertRetry_def by (intro frame)
qed

text \<open>\<open>stored j m\<close>: there is a row of \<open>j\<close>, with the content of \<open>m\<close>.\<close>

definition stored :: "string \<Rightarrow> smsg \<Rightarrow> world \<Rightarrow> bool" where
  "stored j m w \<longleftrightarrow> (\<exists>m'. lookup_message j (w_db w) = Some m' \<and> same_content m m')"

lemma stored_view:
  assumes "stays (content_view j) p"
  shows "keeps (stored j m) p"
  unfolding keeps_def
proof (intro allI impI)
  fix w assume "stored j m w"
  then obtain m1 where m1: "lookup_message j (w_db w) = Some m1" "same_content m m1" by (auto simp: stored_def)
  from content_view_Some [OF m1(1) staysD [OF assms, symmetric]] m1(2) show "stored j m (snd (run_state p w))"
    by (auto simp: stored_def same_content_def)
qed

lemma save_keeps_stored: "keeps (stored j m) (store (SaveMessage r))"
  unfolding keeps_def
proof (intro allI impI)
  fix w assume s: "stored j m w"
  let ?f = "\<lambda>d. if sm_ID r \<in> set (map sm_ID (db_messages d)) \<or> \<not> db_accepts d (sm_ID r) then (False, d)
      else (True, d\<lparr>db_messages := db_messages d @ [store_times (db_backend d) r]\<rparr>)"
  show "stored j m (snd (run_state (store (SaveMessage r)) w))"
    using s unfolding SaveMessage_def
    by (cases rule: db_call_cases [of ?f "w_db w"])
      (auto simp: stored_def lookup_message_def find_append split: option.splits)
qed

lemma Dispatch_keeps_stored: "keeps (stored j m) (Dispatch E msg)"
proof -
  have i: "stays (content_view j) (with_identity E msg)" unfolding with_identity_def by (intro frame)
  show ?thesis unfolding Dispatch_def persistMessage_def
    by (intro kept stored_view save_keeps_stored i frame)
qed

lemma step_keeps_stored:
  assumes "engine_step E w w'" "stored j m w"
  shows "stored j m w'"
  using assms(1)
proof (cases rule: engine_step.cases)
  case (dispatch_step msg msg')
  then show ?thesis using keeps_run [OF Dispatch_keeps_stored] assms(2) by blast
next
  case (retry_step m' r)
  then show ?thesis using keeps_run [OF stored_view [OF retry_dispatch_content]] assms(2) by blast
next
  case (sweep_step u)
  then show ?thesis using keeps_run [OF stored_view [OF sweep_content]] assms(2) by blast
next
  case (alert_step source msisdn corr iface n)
  then show ?thesis using keeps_run [OF stored_view [OF alert_content]] assms(2) by blast
next
  case (restart_step c now)
  obtain m' where m': "lookup_message j (w_db w) = Some m'" "same_content m m'" using assms(2) by (auto simp: stored_def)
  define g :: "smsg \<Rightarrow> smsg" where "g = (\<lambda>m. if sm_Status m = MessageStatusDispatched
     then m\<lparr>sm_Status := MessageStatusQueued, sm_NextRetryAt :=
            (case backend_of w of Postgres \<Rightarrow> Some (db_time Postgres now) | SQLite \<Rightarrow> None)\<rparr> else m)"
  have f: "find (\<lambda>m. sm_ID m = j) (map g xs) = map_option g (find (\<lambda>m. sm_ID m = j) xs)" for xs
    by (induction xs) (simp_all add: g_def)
  have "lookup_message j (w_db w') = Some (g m')"
    using m'(1) by (simp add: restart_step lookup_message_def recover_dispatched_def g_def [symmetric] f)
  moreover have "same_content m (g m')" using m'(2) by (simp add: same_content_def g_def)
  ultimately show ?thesis by (auto simp: stored_def)
qed

section \<open>A message handed on is stored\<close>

lemma query_faults [simp]:
  assumes "db_faults d = []"
  shows "db_faults (snd (ListExpiredMessages t d)) = []" "db_faults (snd (ListFilteredMessages f d)) = []"
    "db_faults (snd (ClaimMessageForDispatch mid allowed d)) = []"
    "db_faults (snd (RequeueMessageForAlert mid t c reason allowed d)) = []"
  using assms
  by (auto simp: ListExpiredMessages_def ListFilteredMessages_def ClaimMessageForDispatch_def RequeueMessageForAlert_def
      db_call_no_fault upd_guarded_def upd_message_def)

lemma engine_calm [kept]:
  "keeps calm (with_identity E msg)" "keeps calm (set_status E mid st)" "keeps calm (set_terminal E mid st rep)"
  "keeps calm (markDeferred mid msg' c r)" "keeps calm (applyDeferredExpiryCap E mid t r)"
  "keeps calm (persistDeliveredRoute mid i p)"
  unfolding with_identity_def set_status_def set_terminal_def markDeferred_def applyDeferredExpiryCap_def deferredLifetimeForRoute_def
    persistDeliveredRoute_def
  by (intro kept calm_store; simp)+

lemma finalize_calm [kept]: "keeps calm (finalizeRoutingPass E msg now c k res)"
  unfolding finalizeRoutingPass_def Let_def
  by (cases "pr_outcome res"; simp only: pass_outcome.case; intro kept calm_store; simp)

lemma retry_calm [kept]:
  "keeps calm (storeToCodecMessage E m)" "keeps calm (selectRoute E msg c)"
  "keeps calm (nextRetry E m r)" "keeps calm (retryMessage E m msg)"
proof -
  show conv: "keeps calm (storeToCodecMessage E m)"
    unfolding storeToCodecMessage_def by (intro kept)
  have loop: "keeps calm (select_loop E ds is msg)" for ds "is" msg
    by (induction "is" arbitrary: msg) (auto intro!: kept)
  show select: "keeps calm (selectRoute E msg c)" for msg c
    unfolding selectRoute_def by (intro kept loop)
  have policy: "keeps calm (sfPolicyForMessage E m r)"
    unfolding sfPolicyForMessage_def planned_policy_def by (intro kept conv select)
  show "keeps calm (nextRetry E m r)"
    unfolding nextRetry_def
    by (intro kept policy calm_store; auto intro!: kept calm_store split: outcome.split option.split)
  show "keeps calm (retryMessage E m msg)"
    unfolding retryMessage_def tryRouteAt_def by (intro kept)
qed

lemma retry_dispatch_calm [kept]: "keeps calm (retry_dispatch E m)"
proof -
  have schedule: "keeps calm (scheduleOrFail E m r)" for r
    unfolding scheduleOrFail_def
    by (rule keeps_bind [OF retry_calm(3)], simp split: outcome.split, intro conjI allI impI kept calm_store; simp)
  have final: "keeps calm (finalizeNonDelivered E m msg res)" for msg res
    unfolding finalizeNonDelivered_def
    by (simp split: pass_outcome.split outcome.split, intro conjI allI impI kept schedule;
        simp split: outcome.split; intro conjI allI impI kept)
  show ?thesis unfolding retry_dispatch_def by (intro kept final calm_store; simp)
qed

lemma sweep_calm: "keeps calm (expiry_sweep E (Some (\<lambda>m. report_of E m StatusExpired)))"
proof -
  have "keeps calm (expire_all E (Some (\<lambda>m. report_of E m StatusExpired)) ms)" for ms
    by (induction ms) (simp_all only: expire_all.simps option.case, (intro kept; assumption)+)
  then show ?thesis unfolding expiry_sweep_def by (intro kept calm_store; simp)
qed

lemma alert_calm: "keeps calm (triggerAlertRetry E source msisdn corr iface)"
proof -
  have "keeps calm (requeue_all reason now ms)" for reason now ms
  proof (induction ms)
    case (Cons x xs)
    then show ?case unfolding requeue_all.simps by (intro kept calm_store; simp)
  qed simp
  then have "keeps calm (wake_all E source iface ms)" for ms
    unfolding wake_all_def by (intro kept)
  then show ?thesis unfolding triggerAlertRetry_def by (intro kept calm_store; simp)
qed

lemma Dispatch_calm: "keeps calm (Dispatch E msg)"
  unfolding Dispatch_def persistMessage_def by (intro kept calm_store; simp)

lemma step_keeps_calm: "engine_step E w w' \<Longrightarrow> calm w \<Longrightarrow> calm w'"
  by (cases rule: engine_step.cases, assumption)
    (auto dest: keeps_run [OF Dispatch_calm] keeps_run [OF retry_dispatch_calm] keeps_run [OF sweep_calm] keeps_run [OF alert_calm]
      simp: recover_dispatched_def calm_def)

text \<open>The row a message is stored in, whoever else has one.\<close>

definition row_for :: "env \<Rightarrow> message \<Rightarrow> world \<Rightarrow> smsg" where
  "row_for E msg w = (let (msg, w) = run_state (with_identity E msg) w in
     store_times (backend_of w) (message_row (normalizeIngressRecipient E msg) [] [] MessageStatusDispatched (ev_clock E (w_ticks w))))"

lemma Dispatch_stores:
  assumes "calm w" "lookup_message (msg_ID (fst (run_state (with_identity E msg) w))) (w_db w) = None"
    and "run_state (Dispatch E msg) w = (msg', w')" "db_accepts (w_db w) (msg_ID (fst (run_state (with_identity E msg) w)))"
  shows "stored (sm_ID (row_for E msg w)) (row_for E msg w) w'"
proof -
  obtain msg1 w1 where i: "run_state (with_identity E msg) w = (msg1, w1)" by force
  have id: "w_db w1 = w_db w" using i by (auto simp: with_identity_def split: if_splits)
  define msg2 where "msg2 = normalizeIngressRecipient E msg1"
  define now where "now = ev_clock E (w_ticks w1)"
  let ?row = "message_row msg2 [] [] MessageStatusDispatched now" and ?w2 = "w1\<lparr>w_ticks := Suc (w_ticks w1)\<rparr>"
  have row: "row_for E msg w = store_times (backend_of w1) ?row"
    by (simp add: row_for_def i msg2_def now_def)
  have "lookup_message (sm_ID ?row) (w_db ?w2) = None"
    using assms(2) i id by (simp add: message_row_def msg2_def normalizeIngressRecipient_def)
  moreover have "db_accepts (w_db ?w2) (sm_ID ?row)"
    using assms(4) i id by (simp add: message_row_def msg2_def normalizeIngressRecipient_def)
  moreover have "calm ?w2" using assms(1) id by (simp add: calm_def)
  ultimately have "row_ok (store_times (backend_of w1) ?row) (\<lambda>m. sm_Status m = sm_Status ?row) (sm_ID ?row) (backend_of w1)
      (\<lambda>j. lookup_message j (w_db ?w2)) (snd (run_state (store (SaveMessage ?row)) ?w2))"
    by (intro row_is_stored) simp_all
  then have st: "stored (sm_ID (row_for E msg w)) (row_for E msg w) (snd (run_state (store (SaveMessage ?row)) ?w2))"
    by (auto simp: row_is_def stored_def row store_times_def)
  define rest where "rest = do { (result, msg) \<leftarrow> runRoutingPass E msg2 0; finalizeRoutingPass E msg now 0 1 result; State_Monad.return msg }"
  have "run_state (do { now \<leftarrow> now_of E; persistMessage msg2 [] [] MessageStatusDispatched now;
     (result, msg) \<leftarrow> runRoutingPass E msg2 0; finalizeRoutingPass E msg now 0 1 result; State_Monad.return msg }) w1 = (msg', w')"
    using assms(3) i by (simp add: Dispatch_def msg2_def Let_def)
  then have r: "run_state rest (snd (run_state (store (SaveMessage ?row)) ?w2)) = (msg', w')"
    unfolding rest_def by (simp add: persistMessage_def now_def)
  have "keeps (stored j m) rest" for j m unfolding rest_def by (intro kept stored_view frame)
  from keeps_run [OF this r st] show ?thesis .
qed

text \<open>Through all that follows, each message handed on has its row, with its own content.\<close>

definition kept_row :: "ingress \<Rightarrow> world \<Rightarrow> bool" where
  "kept_row i w \<longleftrightarrow> (\<exists>row \<in> set (messages_of w). sm_OriginIface row = msg_IngressInterface (ingress_message i) \<and>
     sm_OriginPeer row = msg_IngressPeer (ingress_message i) \<and> sm_SMPPMsgID row = msg_SMPPMsgID (ingress_message i) \<and>
     sm_SrcMSISDN row = addr_MSISDN (msg_Source (ingress_message i)) \<and> sm_Payload row = message_payload (ingress_message i))"

lemma payload_updates [simp]:
  "message_payload (msg\<lparr>msg_ID := x\<rparr>) = message_payload msg" "message_payload (msg\<lparr>msg_CorrelationID := x\<rparr>) = message_payload msg"
  "message_payload (msg\<lparr>msg_Destination := a\<rparr>) = message_payload msg"
  "message_payload (msg\<lparr>msg_IngressInterface := x, msg_IngressPeer := y\<rparr>) = message_payload msg"
  by (simp_all add: message_payload_def Let_def)

lemma row_for_content:
  "sm_OriginIface (row_for E msg w) = msg_IngressInterface msg" "sm_OriginPeer (row_for E msg w) = msg_IngressPeer msg"
  "sm_SMPPMsgID (row_for E msg w) = msg_SMPPMsgID msg" "sm_SrcMSISDN (row_for E msg w) = addr_MSISDN (msg_Source msg)"
  "sm_Payload (row_for E msg w) = message_payload msg"
proof -
  obtain msg1 w1 where i: "run_state (with_identity E msg) w = (msg1, w1)" by force
  have "msg_IngressInterface msg1 = msg_IngressInterface msg \<and> msg_IngressPeer msg1 = msg_IngressPeer msg \<and>
      msg_SMPPMsgID msg1 = msg_SMPPMsgID msg \<and> msg_Source msg1 = msg_Source msg \<and> message_payload msg1 = message_payload msg"
    using i by (auto simp: with_identity_def split: if_splits)
  then show "sm_OriginIface (row_for E msg w) = msg_IngressInterface msg" "sm_OriginPeer (row_for E msg w) = msg_IngressPeer msg"
    "sm_SMPPMsgID (row_for E msg w) = msg_SMPPMsgID msg" "sm_SrcMSISDN (row_for E msg w) = addr_MSISDN (msg_Source msg)"
    "sm_Payload (row_for E msg w) = message_payload msg"
    by (simp_all add: row_for_def i store_times_def message_row_def normalizeIngressRecipient_def)
qed

lemma lookup_in: "lookup_message j d = Some m \<Longrightarrow> m \<in> set (db_messages d)"
  by (auto simp: lookup_message_def find_Some_iff)

lemma stored_kept_row: "stored (sm_ID (row_for E (ingress_message i) w)) (row_for E (ingress_message i) w) w' \<Longrightarrow> kept_row i w'"
  unfolding stored_def kept_row_def
  by (elim exE conjE, drule lookup_in) (auto simp: same_content_def row_for_content)

lemma intake_keeps_stored: "intake E is w w' \<Longrightarrow> stored j m w \<Longrightarrow> stored j m w'"
proof (induction rule: intake.induct)
  case (intake_beside w w1 "is" w2)
  then show ?case using step_keeps_stored by blast
next
  case (intake_message i w msg w1 "is" w2)
  then show ?case using keeps_run [OF Dispatch_keeps_stored] unfolding on_ingress_def by blast
qed

lemma intake_rows: "intake E is w w' \<Longrightarrow> calm w \<Longrightarrow> i \<in> set is \<Longrightarrow> kept_row i w'"
proof (induction rule: intake.induct)
  case (intake_beside w w1 "is" w2)
  then show ?case using step_keeps_calm by blast
next
  case (intake_message i' w msg w1 "is" w2)
  note run = intake_message.hyps(3) [unfolded on_ingress_def]
  show ?case
  proof (cases "i = i'")
    case True
    from intake_keeps_stored [OF intake_message.hyps(4) Dispatch_stores [OF intake_message.prems(1) intake_message.hyps(1) run intake_message.hyps(2)]]
    show ?thesis unfolding True by (rule stored_kept_row)
  next
    case False
    then show ?thesis
      using intake_message.IH keeps_run [OF Dispatch_calm run intake_message.prems(1)] intake_message.prems(2) by simp
  qed
qed simp

section \<open>Properties\<close>

text \<open>
  C4: What is stored of a message is never lost nor altered: whatever the engine does afterwards and whatever statements
  fail, the row is there, with the identifiers, addresses, text and time it was stored with.
\<close>

theorem stored_message_kept:
  assumes "(engine_step E)\<^sup>*\<^sup>* w w'" and "lookup_message mid (w_db w) = Some m"
  shows "\<exists>m'. lookup_message mid (w_db w') = Some m' \<and> same_content m m'"
proof -
  have "stored mid m w'" using assms(1)
  proof (induction rule: rtranclp_induct)
    case base
    show ?case using assms(2) by (simp add: stored_def same_content_def)
  next
    case (step y z)
    then show ?case using step_keeps_stored by blast
  qed
  then show ?thesis by (simp add: stored_def)
qed

theorem stored_message_kept_witness:
  "\<exists>m'. lookup_message ''a'' (w_db (snd (run_state (retry_dispatch example_env (example_message ''a'' ''WAIT_TIMER'' None)) waiting_world))) =
     Some m' \<and> sm_Payload m' = sm_Payload (example_message ''a'' ''WAIT_TIMER'' None)"
proof -
  have "(engine_step example_env)\<^sup>*\<^sup>* waiting_world
      (snd (run_state (retry_dispatch example_env (example_message ''a'' ''WAIT_TIMER'' None)) waiting_world))"
    by (rule r_into_rtranclp) (rule retry_step [OF surjective_pairing])
  from stored_message_kept [OF this waiting_world_facts(4)] show ?thesis by (auto simp: same_content_def)
qed



text \<open>
  C30: A message under an identifier the store does not take, such as the Call-ID that is the identifier of a message of another
  site, which is no UUID, leaves no row, whatever becomes of it: when it is not delivered at once it is lost.
\<close>

theorem refused_message_lost:
  assumes "msg_ID msg \<noteq> []" "\<not> db_accepts (w_db w) (msg_ID msg)" "lookup_message (msg_ID msg) (w_db w) = None"
    and "run_state (Dispatch E msg) w = (msg', w')"
  shows "lookup_message (msg_ID msg) (w_db w') = None"
proof -
  let ?mid = "msg_ID msg"
  obtain msg1 where i: "run_state (with_identity E msg) w = (msg1, w)" and id1: "msg_ID msg1 = ?mid"
    using run_with_identity [OF assms(1)] by fastforce
  define msg2 where "msg2 = normalizeIngressRecipient E msg1"
  have id2: "msg_ID msg2 = ?mid" using id1 by (simp add: msg2_def normalizeIngressRecipient_def)
  define now where "now = ev_clock E (w_ticks w)"
  let ?row = "message_row msg2 [] [] MessageStatusDispatched now" and ?w1 = "w\<lparr>w_ticks := Suc (w_ticks w)\<rparr>"
  let ?f = "\<lambda>d. if sm_ID ?row \<in> set (map sm_ID (db_messages d)) \<or> \<not> db_accepts d (sm_ID ?row) then (False, d)
      else (True, d\<lparr>db_messages := db_messages d @ [store_times (db_backend d) ?row]\<rparr>)"
  have rid: "sm_ID ?row = ?mid" using id2 by (simp add: message_row_def)
  have none: "lookup_message ?mid (snd (SaveMessage ?row (w_db w))) = None"
    using assms(2,3) unfolding SaveMessage_def
    by (cases rule: db_call_cases [of ?f "w_db w"]) (simp_all add: rid)
  define rest where "rest = do { (result, msg) \<leftarrow> runRoutingPass E msg2 0; finalizeRoutingPass E msg now 0 1 result; State_Monad.return msg }"
  have "run_state (do { now \<leftarrow> now_of E; persistMessage msg2 [] [] MessageStatusDispatched now;
     (result, msg) \<leftarrow> runRoutingPass E msg2 0; finalizeRoutingPass E msg now 0 1 result; State_Monad.return msg }) w = (msg', w')"
    using assms(4) i by (simp add: Dispatch_def msg2_def Let_def)
  then have r: "run_state rest (?w1\<lparr>w_db := snd (SaveMessage ?row (w_db w))\<rparr>) = (msg', w')"
    unfolding rest_def by (simp add: persistMessage_def now_def)
  have "stays (content_view ?mid) rest" unfolding rest_def by (intro frame)
  from staysD [OF this, of "?w1\<lparr>w_db := snd (SaveMessage ?row (w_db w))\<rparr>"] r none show ?thesis
    by (auto simp: content_view_def split: option.splits)
qed

theorem refused_message_lost_witness:
  "lookup_message ''a84b4c76e66710@site'' (w_db (snd (run_state (Dispatch example_env (empty_message\<lparr>msg_ID := ''a84b4c76e66710@site''\<rparr>))
     ((example_world Postgres [])\<lparr>w_db := (example_db Postgres [])\<lparr>db_accepts := (\<lambda>s. length s = 36)\<rparr>\<rparr>)))) = None"
proof -
  let ?msg = "empty_message\<lparr>msg_ID := ''a84b4c76e66710@site''\<rparr>"
  let ?w = "(example_world Postgres [])\<lparr>w_db := (example_db Postgres [])\<lparr>db_accepts := (\<lambda>s. length s = 36)\<rparr>\<rparr>"
  have "msg_ID ?msg \<noteq> []" "\<not> db_accepts (w_db ?w) (msg_ID ?msg)" "lookup_message (msg_ID ?msg) (w_db ?w) = None"
    by (simp_all add: lookup_message_def)
  from refused_message_lost [OF this surjective_pairing, of example_env] show ?thesis by simp
qed

end
