(* ===== verification/Reported.thy ===== *)
theory Reported
  imports System
begin

text \<open>
  The reports of a message (\<open>internal/dr/correlator.go\<close>, and the places that call it): the engine reports an outcome
  after it has stored it, and what a report of delivery or expiry says stays true.
\<close>

section \<open>What writes no report\<close>

abbreviation reports_of :: "world \<Rightarrow> delivery_report list" where "reports_of w \<equiv> db_reports (w_db w)"

lemma statement_reports [simp]:
  "db_reports (snd (SaveMessage m d)) = db_reports d" "db_reports (snd (UpdateMessageRouting mid a b d)) = db_reports d"
  "db_reports (snd (UpdateMessageDeferred mid a b c n d)) = db_reports d" "db_reports (snd (UpdateMessageStatus now mid st d)) = db_reports d"
  "db_reports (snd (UpdateMessageRetry mid k t n d)) = db_reports d" "db_reports (snd (UpdateMessageExpiryCap mid t d)) = db_reports d"
  "db_reports (snd (GetMessage mid d)) = db_reports d" "db_reports (snd (GetSFPolicy pid d)) = db_reports d"
  "db_reports (snd (GetSIPPeer a d)) = db_reports d" "db_reports (snd (GetSubscriber a d)) = db_reports d"
  "db_reports (snd (UpsertSubscriber now s d)) = db_reports d" "db_reports (snd (UpsertIMSRegistration r d)) = db_reports d"
  "db_reports (snd (DeleteIMSRegistration a d)) = db_reports d" "db_reports (snd (ListRetryableMessages t d)) = db_reports d"
  "db_reports (snd (ListExpiredMessages t d)) = db_reports d" "db_reports (snd (ListFilteredMessages f d)) = db_reports d"
  unfolding SaveMessage_def UpdateMessageRouting_def UpdateMessageDeferred_def UpdateMessageStatus_def UpdateMessageRetry_def
    UpdateMessageExpiryCap_def GetMessage_def GetSFPolicy_def GetSIPPeer_def GetSubscriber_def UpsertSubscriber_def
    UpsertIMSRegistration_def DeleteIMSRegistration_def ListRetryableMessages_def ListExpiredMessages_def ListFilteredMessages_def
  by (rule db_call_frame; simp add: Let_def upd_message_def)+

lemma guarded_reports [simp]:
  "db_reports (snd (ClaimMessageForDispatch mid allowed d)) = db_reports d"
  "db_reports (snd (RequeueMessageForAlert mid t c reason allowed d)) = db_reports d"
  unfolding ClaimMessageForDispatch_def RequeueMessageForAlert_def
  by (auto intro!: db_call_frame simp: upd_guarded_def upd_message_def)

lemma lookup_reports [frame]:
  "stays reports_of (registry_Lookup E k)" "stays reports_of (S6cLookup E m)" "stays reports_of (ShRefresh E m)"
  unfolding registry_Lookup_def S6cLookup_def s6c_query_def ShRefresh_def shLookup_def sh_query_def forget_if_def
    registry_Delete_def registry_Upsert_def
  by (intro frame; simp split: s6c_reply.splits sh_reply.splits; intro frame conjI impI allI; simp?)+

lemma pass_reports [frame]:
  "stays reports_of (resolveCandidateAt E msg ds i)" "stays reports_of (attemptRoute E msg r)"
  "stays reports_of (deliverSelectedRoute E msg r)" "stays reports_of (routePolicy r')"
  unfolding candidate_defs delivery_defs
  by (intro frame; simp split: outcome.split option.split; intro frame conjI impI allI; simp?)+

lemma routing_reports [frame]: "stays reports_of (runRoutingPass E msg c)"
proof -
  have "stays reports_of (route_loop E ds is msg st)" for ds "is" msg st
    by (induction "is" arbitrary: msg st) (auto intro!: frame split: route_outcome.splits)
  then show ?thesis unfolding runRoutingPass_def by (intro frame)
qed

lemma engine_reports [frame]:
  "stays reports_of (with_identity E msg)" "stays reports_of (set_status E mid st)"
  "stays reports_of (markDeferred mid msg c r)" "stays reports_of (applyDeferredExpiryCap E mid t r)"
  "stays reports_of (persistDeliveredRoute mid i p)" "stays reports_of (persistMessage msg a b st t)"
  unfolding with_identity_def set_status_def markDeferred_def applyDeferredExpiryCap_def deferredLifetimeForRoute_def
    persistDeliveredRoute_def persistMessage_def
  by (intro frame; simp)+

lemma retry_reports [frame]:
  "stays reports_of (storeToCodecMessage E m)" "stays reports_of (selectRoute E msg c)"
  "stays reports_of (nextRetry E m r)" "stays reports_of (retryMessage E m msg)"
proof -
  show conv: "stays reports_of (storeToCodecMessage E m)"
    unfolding storeToCodecMessage_def by (intro frame; simp)
  have loop: "stays reports_of (select_loop E ds is msg)" for ds "is" msg
    by (induction "is" arbitrary: msg) (auto intro!: frame)
  show select: "stays reports_of (selectRoute E msg c)" for msg c
    unfolding selectRoute_def by (intro frame loop)
  have policy: "stays reports_of (sfPolicyForMessage E m r)"
    unfolding sfPolicyForMessage_def planned_policy_def by (intro frame conv select)
  show "stays reports_of (nextRetry E m r)"
    unfolding nextRetry_def by (intro frame policy; auto intro!: frame split: outcome.split option.split)
  show "stays reports_of (retryMessage E m msg)"
    unfolding retryMessage_def tryRouteAt_def by (intro frame)
qed

lemma alert_reports: "stays reports_of (triggerAlertRetry E source msisdn corr iface)"
proof -
  have "stays reports_of (requeue_all reason now ms)" for reason now ms
    by (induction ms) (simp_all only: requeue_all.simps, (intro frame; (assumption | simp))+)
  then have "stays reports_of (wake_all E source iface ms)" for ms
    unfolding wake_all_def by (intro frame; simp)
  then show ?thesis unfolding triggerAlertRetry_def by (intro frame; simp)
qed

section \<open>What writes one\<close>

definition reports_for :: "string \<Rightarrow> world \<Rightarrow> delivery_report list" where
  "reports_for j w = filter (\<lambda>r. dr_MessageID r = j) (reports_of w)"

lemma stays_reports_for: "stays reports_of p \<Longrightarrow> stays (reports_for j) p"
  by (simp add: stays_def reports_for_def)

lemma reports_for_updates [simp]:
  "reports_for j (w\<lparr>w_ticks := n\<rparr>) = reports_for j w" "reports_for j (w\<lparr>w_trace := t\<rparr>) = reports_for j w"
  "reports_for j (w\<lparr>w_cache := c\<rparr>) = reports_for j w"
  "reports_for j (w\<lparr>w_db := (w_db w)\<lparr>db_faults := fs\<rparr>\<rparr>) = reports_for j w"
  by (simp_all add: reports_for_def)

lemma save_report:
  "reports_for j (w\<lparr>w_db := snd (SaveDeliveryReport r (w_db w))\<rparr>) = reports_for j w \<or>
   dr_MessageID r = j \<and> lookup_message j (w_db w) \<noteq> None \<and>
     (\<exists>t. reports_for j (w\<lparr>w_db := snd (SaveDeliveryReport r (w_db w))\<rparr>) = reports_for j w @ [r\<lparr>dr_ReportedAt := t\<rparr>])"
  unfolding SaveDeliveryReport_def snd_db_try
  by (auto simp: reports_for_def db_step_def db_call.simps lookup_message_def find_None_iff split: list.splits if_splits)

lemma report_saves:
  "reports_for j (snd (run_state (report_of E m s) w)) = reports_for j w \<or>
   sm_ID m = j \<and> lookup_message j (w_db w) \<noteq> None \<and>
     (\<exists>r. dr_Status r = s \<and> reports_for j (snd (run_state (report_of E m s) w)) = reports_for j w @ [r])"
proof (cases "ev_reporter E")
  case (Some c)
  define rest where "rest = do { reportS6c c m s; (if sm_OriginIface m = ''smpp'' then reportSMPP c m s else State_Monad.return ()) }"
  have quiet: "reports_for j (snd (run_state rest v)) = reports_for j v" for v
  proof -
    have "stays reports_of rest" unfolding rest_def reportS6c_def reportSMPP_def by (intro frame; simp)
    then show ?thesis by (rule staysD [OF stays_reports_for])
  qed
  let ?w = "w\<lparr>w_ticks := Suc (Suc (w_ticks w))\<rparr>"
  define r where "r = \<lparr>dr_ID = newUUID (ev_random E (w_ticks w)), dr_MessageID = sm_ID m, dr_Status = s,
       dr_EgressIface = sm_EgressIface m, dr_RawReceipt = ''id:'' @ sm_ID m @ '' stat:'' @ s,
       dr_ReportedAt = ev_clock E (Suc (w_ticks w))\<rparr>"
  have "snd (run_state (report_of E m s) w) = snd (run_state rest (?w\<lparr>w_db := snd (SaveDeliveryReport r (w_db ?w))\<rparr>))"
    by (simp add: report_of_def Some Report_def rest_def r_def split_beta)
  then have "reports_for j (snd (run_state (report_of E m s) w)) = reports_for j (?w\<lparr>w_db := snd (SaveDeliveryReport r (w_db ?w))\<rparr>)"
    by (simp add: quiet)
  then show ?thesis using save_report [of j r ?w] by (auto simp: r_def)
qed (simp add: report_of_def)

lemma GetMessage_ID: "fst (GetMessage mid d) = Some (Some m) \<Longrightarrow> sm_ID m = mid \<and> lookup_message mid d = Some m"
  by (cases rule: db_call_cases [of "\<lambda>d. (find (\<lambda>m. sm_ID m = mid) (db_messages d), d)" d])
    (auto simp: GetMessage_def find_Some_iff lookup_message_def)

lemma statement_quiet: "stays reports_of (store (GetMessage mid))" "stays messages_of (store (GetMessage mid))"
  by (intro frame; simp)+

text \<open>A terminal status: the row has it, and a report is written, or none.\<close>

lemma set_terminal_saves:
  assumes "run_state (set_terminal E mid st s) w = (u, w')"
  shows "reports_for j w' = reports_for j w \<or>
    mid = j \<and> (\<exists>r. dr_Status r = s \<and> reports_for j w' = reports_for j w @ [r])"
proof -
  obtain x w1 where status: "run_state (set_status E mid st) w = (x, w1)" by (metis surj_pair)
  obtain y w2 where get: "run_state (store (GetMessage mid)) w1 = (y, w2)" by (metis surj_pair)
  have same: "reports_for j w1 = reports_for j w" "reports_for j w2 = reports_for j w"
    using staysD [OF engine_reports(2), of E mid st w] staysD [OF statement_quiet(1), of mid w1] status get
    by (auto simp: reports_for_def)
  have y: "y = fst (GetMessage mid (w_db w1))" using get by auto
  have "w' = w1 \<or> w' = w2 \<or> (\<exists>m. sm_ID m = mid \<and> w' = snd (run_state (report_of E m s) w2))"
    using assms status get y GetMessage_ID [of mid "w_db w1"] by (auto simp: set_terminal_def split: if_splits option.splits)
  then show ?thesis using same report_saves [of j E _ s w2] by metis
qed

lemma others_reports [frame]:
  "sm_ID m \<noteq> j \<Longrightarrow> stays (reports_for j) (report_of E m s)"
  "mid \<noteq> j \<Longrightarrow> stays (reports_for j) (set_terminal E mid st s)"
  unfolding stays_def using report_saves set_terminal_saves [OF surjective_pairing] by blast+

lemma finalize_others [frame]: "msg_ID msg \<noteq> j \<Longrightarrow> stays (reports_for j) (finalizeRoutingPass E msg now c k res)"
  unfolding finalizeRoutingPass_def Let_def
  by (cases "pr_outcome res"; simp only: pass_outcome.case; intro frame stays_reports_for; simp)

lemma retry_others [frame]:
  assumes "sm_ID m \<noteq> j"
  shows "stays (reports_for j) (retry_dispatch E m)"
proof -
  note engine = engine_reports [THEN stays_reports_for]
  note retry = retry_reports [THEN stays_reports_for]
  have schedule: "stays (reports_for j) (scheduleOrFail E m r)" for r
    unfolding scheduleOrFail_def
    by (rule stays_bind [OF retry(3)], simp split: outcome.split, intro conjI allI impI frame assms stays_reports_for; simp)
  have final: "stays (reports_for j) (finalizeNonDelivered E m msg res)" for msg res
    unfolding finalizeNonDelivered_def
    by (simp split: pass_outcome.split outcome.split, intro conjI allI impI frame schedule engine assms;
        simp split: outcome.split; intro conjI allI impI frame engine)
  show ?thesis
    unfolding retry_dispatch_def by (intro frame final assms engine retry stays_reports_for; simp)
qed

lemma expire_others: "j \<notin> sm_ID ` set ms \<Longrightarrow> stays (reports_for j) (expire_all E (Some (\<lambda>m. report_of E m StatusExpired)) ms)"
  by (induction ms)
    (simp_all only: expire_all.simps option.case, (intro frame stays_reports_for [OF engine_reports(2)]; auto)+)

section \<open>What a report says\<close>

text \<open>
  \<open>unconfirmed j\<close>: nothing but failures of \<open>j\<close> was reported, none perhaps. \<open>confirmed j\<close>: the last report is of a delivery or
  an expiry, every one before it of a failure, and the row says the same as the last one.
\<close>

definition outcome_of :: "string \<Rightarrow> string" where
  "outcome_of s = (if s = StatusDelivered then MessageStatusDelivered
     else if s = StatusExpired then MessageStatusExpired else MessageStatusFailed)"

definition unconfirmed :: "string \<Rightarrow> world \<Rightarrow> bool" where
  "unconfirmed j w \<longleftrightarrow> calm w \<and> (\<forall>r \<in> set (reports_for j w). dr_Status r = StatusFailed)"

definition confirmed :: "string \<Rightarrow> world \<Rightarrow> bool" where
  "confirmed j w \<longleftrightarrow> calm w \<and> (\<exists>r rs m. reports_for j w = rs @ [r] \<and> (\<forall>r' \<in> set rs. dr_Status r' = StatusFailed) \<and>
     dr_Status r \<in> {StatusDelivered, StatusExpired} \<and>
     lookup_message j (w_db w) = Some m \<and> sm_Status m = outcome_of (dr_Status r))"

abbreviation told :: "string \<Rightarrow> world \<Rightarrow> bool" where "told j w \<equiv> unconfirmed j w \<or> confirmed j w"

definition row_says :: "string \<Rightarrow> string \<Rightarrow> world \<Rightarrow> bool" where
  "row_says j st w \<longleftrightarrow> (\<forall>m. lookup_message j (w_db w) = Some m \<longrightarrow> sm_Status m = st)"

lemma keeps_unconfirmed: "keeps calm p \<Longrightarrow> stays reports_of p \<Longrightarrow> keeps (unconfirmed j) p"
  by (simp add: keeps_def stays_def unconfirmed_def reports_for_def)

lemma keeps_told:
  assumes "keeps calm p" "stays (reports_for j) p" "stays (row_view j) p"
  shows "keeps (told j) p"
  using assms by (simp add: keeps_def stays_def unconfirmed_def confirmed_def)

lemma keeps_leads: "keeps P p \<Longrightarrow> leads P p (\<lambda>_. P)"
  by (simp add: keeps_def leads_def)

lemma report_told:
  assumes "s \<in> {StatusDelivered, StatusExpired, StatusFailed}"
  shows "leads (\<lambda>w. unconfirmed j w \<and> (sm_ID m = j \<longrightarrow> row_says j (outcome_of s) w)) (report_of E m s) (\<lambda>_. told j)"
proof (rule leadsI)
  fix w u w' assume w: "unconfirmed j w \<and> (sm_ID m = j \<longrightarrow> row_says j (outcome_of s) w)" "run_state (report_of E m s) w = (u, w')"
  have c: "calm w'" using keeps_run [OF Report_calm(2) w(2)] w(1) by (simp add: unconfirmed_def)
  have same: "lookup_message j (w_db w') = lookup_message j (w_db w)"
    using staysD [OF report_of_frame(1), of E m s w] w(2) by (simp add: lookup_message_def)
  from report_saves [of j E m s w] w(2) consider "reports_for j w' = reports_for j w"
    | r x where "sm_ID m = j" "lookup_message j (w_db w) = Some x" "dr_Status r = s" "reports_for j w' = reports_for j w @ [r]"
    by auto
  then show "told j w'"
  proof cases
    case 1
    then show ?thesis using w(1) c by (simp add: unconfirmed_def)
  next
    case 2
    then have "sm_Status x = outcome_of s" using w(1) by (simp add: row_says_def)
    then show ?thesis using 2 w(1) c same assms by (auto simp: unconfirmed_def confirmed_def)
  qed
qed

lemma failure_told: "keeps (unconfirmed j) (report_of E m StatusFailed)"
  unfolding keeps_def
proof (intro allI impI)
  fix w assume u: "unconfirmed j w"
  have "calm (snd (run_state (report_of E m StatusFailed) w))" using keepsD [OF Report_calm(2)] u by (simp add: unconfirmed_def)
  then show "unconfirmed j (snd (run_state (report_of E m StatusFailed) w))"
    using report_saves [of j E m StatusFailed w] u by (auto simp: unconfirmed_def)
qed

lemma quiet_unconfirmed:
  "keeps (unconfirmed j) (now_of E)" "keeps (unconfirmed j) (store (GetMessage mid))" "keeps (unconfirmed j) (set_status E mid st)"
  "keeps (unconfirmed j) (markDeferred mid msg c r)" "keeps (unconfirmed j) (applyDeferredExpiryCap E mid t r)"
  "keeps (unconfirmed j) (persistDeliveredRoute mid i p)" "keeps (unconfirmed j) (store (UpdateMessageRetry mid k t c))"
  "keeps (unconfirmed j) (nextRetry E m r)" "keeps (unconfirmed j) (storeToCodecMessage E m)"
  "keeps (unconfirmed j) (retryMessage E m msg)" "keeps (unconfirmed j) (runRoutingPass E msg c)"
  "keeps (unconfirmed j) (with_identity E msg)" "keeps (unconfirmed j) (persistMessage msg a b st t)"
  "keeps (unconfirmed j) (store (ClaimMessageForDispatch mid allowed))"
  unfolding persistMessage_def
  by (rule keeps_unconfirmed; intro kept calm_store frame; simp)+

lemma status_says: "leads (unconfirmed j) (set_status E mid st) (\<lambda>_ w. unconfirmed j w \<and> row_says mid st w)"
proof (rule leadsI)
  fix w x w' assume w: "unconfirmed j w" "run_state (set_status E mid st) w = (x, w')"
  then have calm: "db_faults (w_db w) = []" by (simp add: unconfirmed_def calm_def)
  have u: "unconfirmed j w'" by (rule keeps_run [OF quiet_unconfirmed(3) w(2,1)])
  define g :: "smsg \<Rightarrow> smsg" where "g = (\<lambda>m. if st = MessageStatusDelivered
      then m\<lparr>sm_Status := st, sm_DeliveredAt := Some (db_time (backend_of w) (ev_clock E (w_ticks w)))\<rparr> else m\<lparr>sm_Status := st\<rparr>)"
  have g: "sm_ID (g m) = sm_ID m" "sm_Status (g m) = st" for m by (simp_all add: g_def)
  have "w' = w\<lparr>w_ticks := Suc (w_ticks w), w_db := snd (UpdateMessageStatus (ev_clock E (w_ticks w)) mid st (w_db w))\<rparr>"
    using w(2) by (auto simp: set_status_def)
  then have "w_db w' = upd_message mid g (w_db w)"
    by (simp add: update_statements(3) [OF calm] g_def [symmetric])
  then have "lookup_message mid (w_db w') = map_option g (lookup_message mid (w_db w))"
    by (simp add: msgs.lookup_update [OF g(1)])
  then show "unconfirmed j w' \<and> row_says mid st w'" using u g(2) by (auto simp: row_says_def)
qed

lemma set_terminal_told:
  assumes "s \<in> {StatusDelivered, StatusExpired, StatusFailed}"
  shows "leads (unconfirmed j) (set_terminal E mid (outcome_of s) s) (\<lambda>_. told j)"
  unfolding set_terminal_def
proof (rule leads_bind [OF status_says])
  let ?P = "\<lambda>w. unconfirmed j w \<and> row_says mid (outcome_of s) w"
  have get: "leads ?P (store (GetMessage mid)) (\<lambda>x w. ?P w \<and> (\<forall>m. x = Some (Some m) \<longrightarrow> sm_ID m = mid))"
  proof (rule leadsI)
    fix w x w' assume w: "?P w" "run_state (store (GetMessage mid)) w = (x, w')"
    have "unconfirmed j w'" using keeps_run [OF quiet_unconfirmed(2) w(2)] w(1) by blast
    then show "?P w' \<and> (\<forall>m. x = Some (Some m) \<longrightarrow> sm_ID m = mid)"
      using w GetMessage_ID [of mid "w_db w"] by (auto simp: row_says_def lookup_message_def)
  qed
  have report: "leads (\<lambda>w. ?P w \<and> (\<forall>m. x = Some (Some m) \<longrightarrow> sm_ID m = mid))
      (case x of Some (Some m) \<Rightarrow> report_of E m s | _ \<Rightarrow> State_Monad.return ()) (\<lambda>_. told j)" for x
    by (auto split: option.split intro: leads_return' leads_pre [OF report_told [OF assms]])
  show "leads ?P (if ev_reporter E = None then State_Monad.return () else do {
      stored \<leftarrow> store (GetMessage mid);
      (case stored of Some (Some m) \<Rightarrow> report_of E m s | _ \<Rightarrow> State_Monad.return ()) }) (\<lambda>_. told j)" for x :: "unit option"
    by (auto intro: leads_return' leads_bind [OF get report])
qed

lemma set_terminal_failed: "keeps (unconfirmed j) (set_terminal E mid st StatusFailed)"
  unfolding set_terminal_def by (intro kept quiet_unconfirmed failure_told)

lemma finalize_told: "leads (unconfirmed j) (finalizeRoutingPass E msg now c k res) (\<lambda>_. told j)"
proof (cases "pr_outcome res = PassDelivered")
  case True
  have persist: "keeps (unconfirmed j) (case r of Some r \<Rightarrow> do { persistDeliveredRoute mid i (rt_egressPeer r); State_Monad.return () }
      | None \<Rightarrow> State_Monad.return ())" for r mid i
    by (intro kept quiet_unconfirmed)
  show ?thesis
    unfolding finalizeRoutingPass_def Let_def True pass_outcome.case
    by (rule leads_bind [OF keeps_leads [OF persist]]) (rule set_terminal_told [of StatusDelivered, unfolded outcome_of_def, simplified])
next
  case False
  have "keeps (unconfirmed j) (finalizeRoutingPass E msg now c k res)"
    using False unfolding finalizeRoutingPass_def Let_def
    by (cases "pr_outcome res"; simp only: pass_outcome.case; (intro kept quiet_unconfirmed set_terminal_failed)?; simp)
  then show ?thesis by (rule leads_weaken [OF keeps_leads]) simp
qed

section \<open>A retry, a sweep, a dispatch\<close>

lemma retry_told: "leads (unconfirmed j) (retry_dispatch E m) (\<lambda>_. told j)"
proof -
  have schedule: "keeps (unconfirmed j) (scheduleOrFail E m r)" for r
    unfolding scheduleOrFail_def
    by (rule keeps_bind [OF quiet_unconfirmed(8)], simp split: outcome.split,
        intro conjI allI impI kept quiet_unconfirmed set_terminal_failed)
  have final: "keeps (unconfirmed j) (finalizeNonDelivered E m msg res)" for msg res
    unfolding finalizeNonDelivered_def
    by (simp split: pass_outcome.split outcome.split, intro conjI allI impI kept schedule quiet_unconfirmed set_terminal_failed;
        simp split: outcome.split; intro conjI allI impI kept quiet_unconfirmed)
  have delivered: "leads (unconfirmed j) (do { persistDeliveredRoute mid i p; set_terminal E mid MessageStatusDelivered StatusDelivered;
      State_Monad.return (Ok ()) }) (\<lambda>_. told j)" for mid i p
    by (rule leads_bind [OF keeps_leads [OF quiet_unconfirmed(6)]], rule leads_bind [OF _ leads_return])
      (rule set_terminal_told [of StatusDelivered, unfolded outcome_of_def, simplified])
  have finish: "leads (unconfirmed j) (if pr_outcome res \<noteq> PassDelivered then finalizeNonDelivered E m msg res
      else case pr_deliveredRoute res of None \<Rightarrow> State_Monad.return Panic | Some route \<Rightarrow> do {
        persistDeliveredRoute (sm_ID m) (msg_EgressInterface msg) (rt_egressPeer route);
        set_terminal E (sm_ID m) MessageStatusDelivered StatusDelivered; State_Monad.return (Ok ()) }) (\<lambda>_. told j)" for msg res
    by (auto split: option.split intro: delivered leads_return' leads_weaken [OF keeps_leads [OF final]])
  have pass: "leads (unconfirmed j) (do { msg \<leftarrow> storeToCodecMessage E m; (res, msg) \<leftarrow> retryMessage E m msg; F res msg }) (\<lambda>_. told j)"
    if "\<And>res msg. leads (unconfirmed j) (F res msg) (\<lambda>_. told j)" for F :: "pass_result \<Rightarrow> message \<Rightarrow> unit outcome process"
    by (intro leads_bind [OF keeps_leads [OF quiet_unconfirmed(9)]] leads_bind [OF keeps_leads [OF quiet_unconfirmed(10)]])
      (auto split: prod.split intro: that)
  have claimed: "leads (unconfirmed j) (if r \<noteq> Some True then State_Monad.return (Ok ()) else p) (\<lambda>_. told j)"
    if "leads (unconfirmed j) p (\<lambda>_. told j)" for r and p :: "unit outcome process"
    using that by (auto intro: leads_return')
  show ?thesis
    unfolding retry_dispatch_def
    by (rule leads_bind [OF keeps_leads [OF quiet_unconfirmed(14)]], rule claimed, rule pass, rule finish)
qed

lemma expire_calm: "keeps calm (expire_all E (Some (\<lambda>m. report_of E m StatusExpired)) ms)"
  by (induction ms) (simp_all only: expire_all.simps option.case, (intro kept; assumption)+)

lemma expire_keeps_told:
  "j \<notin> sm_ID ` set ms \<Longrightarrow> keeps (told j) (expire_all E (Some (\<lambda>m. report_of E m StatusExpired)) ms)"
proof (rule keeps_told [OF expire_calm expire_others])
  show "j \<notin> sm_ID ` set ms \<Longrightarrow> stays (row_view j) (expire_all E (Some (\<lambda>m. report_of E m StatusExpired)) ms)"
    by (induction ms) (simp_all only: expire_all.simps option.case, (intro frame; auto)+)
qed

lemma expire_told:
  "distinct (map sm_ID ms) \<Longrightarrow> leads (unconfirmed j) (expire_all E (Some (\<lambda>m. report_of E m StatusExpired)) ms) (\<lambda>_. told j)"
proof (induction ms)
  case Nil
  show ?case by (simp add: leads_return')
next
  case (Cons x xs)
  let ?P = "\<lambda>w. unconfirmed j w \<and> row_says (sm_ID x) MessageStatusExpired w"
  let ?Q = "\<lambda>w. if sm_ID x = j then told j w else unconfirmed j w"
  have report: "leads ?P (report_of E x StatusExpired) (\<lambda>_. ?Q)"
  proof (cases "sm_ID x = j")
    case True
    then show ?thesis using leads_pre [OF report_told [of StatusExpired]] by (simp add: outcome_of_def)
  next
    case False
    have "stays (reports_for j) (report_of E x StatusExpired)" by (rule others_reports(1) [OF False])
    then show ?thesis using False Report_calm(2) [of E x StatusExpired]
      by (simp add: leads_def keeps_def stays_def unconfirmed_def)
  qed
  have idle: "leads ?P (State_Monad.return ()) (\<lambda>_. ?Q)" by (rule leads_return') auto
  have step: "leads ?P (case r of None \<Rightarrow> State_Monad.return () | Some _ \<Rightarrow>
      if sm_DRRequired x then report_of E x StatusExpired else State_Monad.return ()) (\<lambda>_. ?Q)" for r :: "unit option"
    by (cases r; cases "sm_DRRequired x") (simp_all only: option.case if_True if_False idle report)
  have rest: "leads ?Q (expire_all E (Some (\<lambda>m. report_of E m StatusExpired)) xs) (\<lambda>_. told j)"
  proof (cases "sm_ID x = j")
    case True
    then have "j \<notin> sm_ID ` set xs" using Cons.prems by auto
    then show ?thesis using keeps_leads [OF expire_keeps_told] True by simp
  next
    case False
    then show ?thesis using Cons by simp
  qed
  show ?case
    unfolding expire_all.simps option.case
    by (rule leads_bind [OF status_says leads_bind [OF step rest]])
qed

lemma confirmed_row:
  assumes "confirmed j w" "wf_db (w_db w)"
  obtains m where "holds_row j m w" "terminal (sm_Status m)"
proof -
  obtain r :: delivery_report and m where "lookup_message j (w_db w) = Some m" "sm_Status m = outcome_of (dr_Status r)"
    using assms(1) by (auto simp: confirmed_def)
  then show thesis using that [of m] assms(2) by (auto simp: holds_row_def terminal_def outcome_of_def)
qed

text \<open>What was confirmed stays so, when the row and the reports stay.\<close>

lemma confirmed_stays:
  assumes "confirmed j w" "holds_row j m w" "holds_row j m w'" "reports_for j w' = reports_for j w" "calm w'"
  shows "confirmed j w'"
  using assms by (auto simp: confirmed_def holds_row_def)

lemma confirmed_keeps:
  assumes "confirmed j w" "wf_db (w_db w)" "run_state p w = (x, w')" "keeps calm p" "reports_for j w' = reports_for j w"
    and "\<And>m. holds_row j m w \<Longrightarrow> terminal (sm_Status m) \<Longrightarrow> holds_row j m w'"
  shows "confirmed j w'"
proof -
  obtain m where m: "holds_row j m w" "terminal (sm_Status m)" using confirmed_row [OF assms(1,2)] .
  moreover have "calm w'" using keeps_run [OF assms(4,3)] assms(1) by (simp add: confirmed_def)
  ultimately show ?thesis using confirmed_stays assms(1,5,6) by blast
qed

lemma sweep_told:
  assumes "told j w" "wf_db (w_db w)" "run_state (expiry_sweep E (Some (\<lambda>m. report_of E m StatusExpired))) w = (u, w')"
  shows "told j w'"
proof -
  let ?now = "ev_clock E (w_ticks w)" and ?w1 = "w\<lparr>w_ticks := Suc (w_ticks w)\<rparr>"
  let ?ms = "take 100 (filter (expiry_due (backend_of w) ?now) (messages_of w))"
  let ?all = "expire_all E (Some (\<lambda>m. report_of E m StatusExpired)) ?ms"
  have calm: "db_faults (w_db w) = []" using assms(1) by (auto simp: unconfirmed_def confirmed_def calm_def)
  have run: "run_state ?all ?w1 = (u, w')"
    using assms(3) calm by (simp add: expiry_sweep_def ListExpiredMessages_def db_call_no_fault)
  have t: "told j ?w1" "unconfirmed j w \<Longrightarrow> unconfirmed j ?w1"
    using assms(1) by (auto simp: unconfirmed_def confirmed_def)
  show ?thesis
  proof (cases "unconfirmed j w")
    case True
    have "distinct (map sm_ID ?ms)"
      using assms(2) by (simp add: take_map [symmetric] wf_db_def distinct_map_filter)
    from leadsD [OF expire_told [OF this] t(2) [OF True] run] show ?thesis .
  next
    case False
    then obtain m where m: "holds_row j m w" "terminal (sm_Status m)" using confirmed_row assms(1,2) by blast
    have "j \<notin> sm_ID ` set ?ms"
    proof
      assume "j \<in> sm_ID ` set ?ms"
      then have "guarded j waiting_statuses (w_db w)" by (auto simp: guarded_def expiry_due_def dest!: in_set_takeD)
      then show False using holds_not_guarded [OF m(1) terminal_facts(2) [OF m(2)]] by simp
    qed
    from keeps_run [OF expire_keeps_told [OF this] run] t(1) show ?thesis .
  qed
qed

lemma retry_keeps_reports:
  assumes "confirmed j w" "wf_db (w_db w)" "run_state (retry_dispatch E m) w = (x, w')"
  shows "reports_for j w' = reports_for j w"
proof (cases "sm_ID m = j")
  case True
  obtain k where k: "holds_row j k w" "terminal (sm_Status k)" using confirmed_row [OF assms(1,2)] .
  have "\<not> guarded (sm_ID m) retryable_statuses (w_db w)"
    using holds_not_guarded [OF k(1) terminal_facts(1) [OF k(2)]] True by simp
  from retry_dispatch_not [OF this, of E] assms(3) show ?thesis by auto
next
  case False
  from staysD [OF retry_others [OF this], of E w] assms(3) show ?thesis by simp
qed

lemma Dispatch_told: "leads (unconfirmed j) (Dispatch E msg) (\<lambda>_. told j)"
proof -
  have rest: "leads (unconfirmed j) (case x of (result, msg) \<Rightarrow> do { finalizeRoutingPass E msg now c k result; State_Monad.return msg })
      (\<lambda>_. told j)" for x now c k
    by (cases x) (auto intro: leads_bind [OF finalize_told] leads_return)
  show ?thesis
    unfolding Dispatch_def Let_def
    by (intro leads_bind [OF keeps_leads [OF quiet_unconfirmed(12)]] leads_bind [OF keeps_leads [OF quiet_unconfirmed(1)]]
        leads_bind [OF keeps_leads [OF quiet_unconfirmed(13)]] leads_bind [OF keeps_leads [OF quiet_unconfirmed(11)]] rest)
qed

text \<open>A dispatch writes reports of its own message alone.\<close>

lemma Dispatch_reports:
  assumes "j \<noteq> msg_ID (fst (run_state (with_identity E msg) w))" "run_state (Dispatch E msg) w = (msg', w')"
  shows "reports_for j w' = reports_for j w"
proof -
  obtain msg1 w1 where i: "run_state (with_identity E msg) w = (msg1, w1)" by force
  define msg2 where "msg2 = normalizeIngressRecipient E msg1"
  have j: "j \<noteq> msg_ID msg2" using assms(1) i by (simp add: msg2_def normalizeIngressRecipient_def)
  let ?P = "\<lambda>w'. reports_for j w' = reports_for j w"
  have quiet: "leads ?P p (\<lambda>_. ?P)" if "stays reports_of p" for p :: "'x process"
    using that by (simp add: leads_def stays_def reports_for_def)
  have pass: "leads ?P (runRoutingPass E msg2 0) (\<lambda>x w'. ?P w' \<and> msg_ID (snd x) \<noteq> j)"
  proof (rule leadsI)
    fix v x v' assume v: "?P v" "run_state (runRoutingPass E msg2 0) v = (x, v')"
    obtain res msg3 where x: "x = (res, msg3)" by force
    show "?P v' \<and> msg_ID (snd x) \<noteq> j"
      using leadsD [OF quiet [OF routing_reports] v] runRoutingPass_id [OF v(2) [unfolded x]] j x by simp
  qed
  have rest: "leads (\<lambda>w'. ?P w' \<and> msg_ID (snd x) \<noteq> j)
      (case x of (result, msg) \<Rightarrow> do { finalizeRoutingPass E msg now 0 1 result; State_Monad.return msg }) (\<lambda>_. ?P)" for x now
    using finalize_others [of "snd x" j E now 0 1 "fst x"] by (auto simp: leads_def stays_def split_beta)
  have "leads ?P (do { now \<leftarrow> now_of E; persistMessage msg2 [] [] MessageStatusDispatched now;
     (result, msg) \<leftarrow> runRoutingPass E msg2 0; finalizeRoutingPass E msg now 0 1 result; State_Monad.return msg }) (\<lambda>_. ?P)"
    by (intro leads_bind [OF quiet] leads_bind [OF pass] rest engine_reports) simp
  moreover have "?P w1" using leadsD [OF quiet [OF engine_reports(1)] _ i] by simp
  moreover have "run_state (do { now \<leftarrow> now_of E; persistMessage msg2 [] [] MessageStatusDispatched now;
     (result, msg) \<leftarrow> runRoutingPass E msg2 0; finalizeRoutingPass E msg now 0 1 result; State_Monad.return msg }) w1 = (msg', w')"
    using assms(2) i by (simp add: Dispatch_def msg2_def Let_def)
  ultimately show ?thesis by (rule leadsD)
qed

section \<open>The keys stay unique\<close>

abbreviation wf_world :: "world \<Rightarrow> bool" where "wf_world w \<equiv> wf_db (w_db w)"

lemma keeps_wf:
  assumes "\<And>j. j \<noteq> mid \<Longrightarrow> stays (row_view j) p"
  shows "keeps wf_world p"
  using assms [of "CHR ''x'' # mid"] by (simp add: stays_def keeps_def)

lemma quiet_wf: "stays messages_of p \<Longrightarrow> keeps wf_world p"
  by (simp add: stays_def keeps_def wf_db_def)

lemma steps_wf:
  "keeps wf_world (Dispatch E msg)" "keeps wf_world (retry_dispatch E m)"
  "keeps wf_world (expiry_sweep E (Some (\<lambda>m. report_of E m StatusExpired)))"
  "keeps wf_world (triggerAlertRetry E source msisdn corr iface)"
proof -
  have queries: "keeps wf_world (now_of E)" "keeps wf_world (store (ListExpiredMessages t))"
    "keeps wf_world (store (ListFilteredMessages f))" for t f
    by (simp_all add: keeps_def wf_db_def)
  have save: "keeps wf_world (store (SaveMessage r))" for r by (rule keeps_wf [OF SaveMessage_view])
  have final: "keeps wf_world (finalizeRoutingPass E msg now c k res)" for msg now c k res by (rule keeps_wf [OF finalize_view])
  show "keeps wf_world (Dispatch E msg)"
    unfolding Dispatch_def persistMessage_def with_identity_def by (intro kept save final quiet_wf frame; simp)
  show "keeps wf_world (retry_dispatch E m)" by (rule keeps_wf [OF retry_view(3)])
  have status: "keeps wf_world (set_status E mid st)" for mid st by (rule keeps_wf [OF engine_view(1)])
  have "keeps wf_world (expire_all E (Some (\<lambda>m. report_of E m StatusExpired)) ms)" for ms
    by (induction ms) (simp_all only: expire_all.simps option.case, (intro kept status quiet_wf [OF report_of_frame(1)]; assumption)+)
  then show "keeps wf_world (expiry_sweep E (Some (\<lambda>m. report_of E m StatusExpired)))"
    unfolding expiry_sweep_def by (intro kept queries)
  have "keeps wf_world (requeue_all reason now ms)" for reason now ms
    by (induction ms) (simp_all only: requeue_all.simps, (intro kept keeps_wf [OF guarded_view(2)]; assumption)+)
  then have "keeps wf_world (wake_all E source iface ms)" for ms
    unfolding wake_all_def by (intro kept queries)
  then show "keeps wf_world (triggerAlertRetry E source msisdn corr iface)"
    unfolding triggerAlertRetry_def by (intro kept queries)
qed

lemma step_told:
  assumes "engine_step E w w'" "told j w" "wf_world w"
  shows "told j w'"
  using assms(1)
proof (cases rule: engine_stepE [consumes 1, case_names dispatch retry sweep alert restart])
  case (dispatch msg msg')
  note dispatch_step = this
  show ?thesis
  proof (cases "unconfirmed j w")
    case True
    from leadsD [OF Dispatch_told True dispatch_step(2)] show ?thesis .
  next
    case False
    then have c: "confirmed j w" using assms(2) by simp
    then have "j \<noteq> msg_ID (fst (run_state (with_identity E msg) w))"
      using dispatch_step(1) by (auto simp: confirmed_def)
    from Dispatch_reports [OF this dispatch_step(2)] show ?thesis
      using confirmed_keeps [OF c assms(3) dispatch_step(2) Dispatch_calm] Dispatch_keeps_row [OF _ dispatch_step] by blast
  qed
next
  case (retry m r)
  note retry_step = this
  show ?thesis
  proof (cases "unconfirmed j w")
    case True
    from leadsD [OF retry_told True retry_step] show ?thesis .
  next
    case False
    then have c: "confirmed j w" using assms(2) by simp
    from retry_keeps_reports [OF c assms(3) retry_step] show ?thesis
      using confirmed_keeps [OF c assms(3) retry_step retry_dispatch_calm]
        keeps_run [OF retry_keeps_row [OF terminal_facts(1)] retry_step] by blast
  qed
next
  case sweep
  note sweep_step = this
  then show ?thesis using sweep_told assms(2,3) by blast
next
  case (alert source msisdn corr iface n)
  note alert_step = this
  have same: "reports_for j w' = reports_for j w"
    using staysD [OF stays_reports_for [OF alert_reports], of j E source msisdn corr iface w] alert_step by simp
  show ?thesis
  proof (cases "unconfirmed j w")
    case True
    then show ?thesis using keeps_run [OF alert_calm alert_step] same by (simp add: unconfirmed_def)
  next
    case False
    then have c: "confirmed j w" using assms(2) by simp
    then show ?thesis
      using confirmed_keeps [OF c assms(3) alert_step alert_calm same]
        keeps_run [OF alert_keeps_row [OF terminal_facts(2)] alert_step] by blast
  qed
next
  case (restart c now)
  note restart_step = this
  have same: "reports_for j w' = reports_for j w" "calm w' = calm w"
    by (simp_all add: restart_step reports_for_def recover_dispatched_def calm_def)
  show ?thesis
  proof (cases "unconfirmed j w")
    case True
    then show ?thesis using same by (simp add: unconfirmed_def)
  next
    case False
    then have k: "confirmed j w" using assms(2) by simp
    obtain m where m: "holds_row j m w" "terminal (sm_Status m)" using confirmed_row [OF k assms(3)] .
    have "holds_row j m w'" unfolding restart_step by (rule recover_keeps_row [OF terminal_facts(3) [OF m(2)] m(1)])
    moreover have "calm w'" using same(2) k by (simp add: confirmed_def)
    ultimately show ?thesis using confirmed_stays [OF k m(1) _ same(1)] by blast
  qed
qed

lemma step_wf: "engine_step E w w' \<Longrightarrow> wf_world w \<Longrightarrow> wf_world w'"
  by (cases rule: engine_step.cases, assumption)
    (auto dest: keeps_run [OF steps_wf(1)] keeps_run [OF steps_wf(2)] keeps_run [OF steps_wf(3)] keeps_run [OF steps_wf(4)]
      simp: recover_dispatched_def wf_db_def comp_def if_distrib cong: if_cong)

section \<open>Properties\<close>



end
