(* ===== verification/Postgres.thy ===== *)
theory Postgres
  imports AdminStore SmppServer
begin

text \<open>
  The administration tables on PostgreSQL (\<open>internal/store/postgres\<close>). The statements are those of SQLite, but the columns
  have types: identifiers are of type UUID, addresses of type INET, durations of type INTERVAL, numbers of four octets, and
  foreign keys refer to rules and policies. Rows hold what reading them gives. Texts are without NUL, which the type TEXT
  does not take. The second of a row's last change is kept as on SQLite, though nothing polls it here.
\<close>

section \<open>Types of columns\<close>

text \<open>
  The server parses what it is given, and gives the text of its own notation back; texts are ordered by the collation of
  the database.
\<close>

record pg_interval =
  iv_Valid :: bool
  iv_Months :: int
  iv_Days :: int
  iv_Microseconds :: int

record pg_types =
  pg_uuid :: "string \<Rightarrow> string option"
  pg_inet :: "string \<Rightarrow> string option"
  pg_interval_of :: "string \<Rightarrow> pg_interval"
  pg_collate :: "string \<Rightarrow> nat list"

definition pg_int4 :: "int \<Rightarrow> bool" where
  "pg_int4 n \<longleftrightarrow> - (2 ^ 31) \<le> n \<and> n < 2 ^ 31"

definition pg_int4_opt :: "int option \<Rightarrow> bool" where
  "pg_int4_opt n = (case n of None \<Rightarrow> True | Some n \<Rightarrow> pg_int4 n)"

text \<open>\<open>NULLIF($n,'')::type\<close>: nothing, or a text the type takes.\<close>

definition pg_nullable :: "(string \<Rightarrow> string option) \<Rightarrow> string \<Rightarrow> string option" where
  "pg_nullable parse s = (if s = [] then Some [] else parse s)"

definition Microseconds :: "duration \<Rightarrow> int" where
  "Microseconds d = (if d < 0 then - ((- d) div 1000) else d div 1000)"

definition formatInterval :: "duration \<Rightarrow> string" where
  "formatInterval d = (let n = Microseconds d in (if n < 0 then CHR ''-'' # decimal (nat (- n)) else decimal (nat n)) @ '' microseconds'')"

definition intervalToDuration :: "pg_interval \<Rightarrow> duration outcome" where
  "intervalToDuration iv =
     (if \<not> iv_Valid iv then Ok 0
      else if iv_Months iv \<noteq> 0 then Err ''postgres interval with months is not supported''
      else Ok (iv_Days iv * 24 * Hour + iv_Microseconds iv * 1000))"

text \<open>
  A duration as it is read back: the text is parsed by the server, which takes a number of microseconds for an interval without
  days and months, so that reading does not fail.
\<close>

definition pg_duration :: "pg_types \<Rightarrow> duration \<Rightarrow> duration" where
  "pg_duration P d = (case intervalToDuration (pg_interval_of P (formatInterval d)) of Ok e \<Rightarrow> e | _ \<Rightarrow> 0)"

section \<open>Statements\<close>

definition pg_order :: "pg_types \<Rightarrow> ('a \<Rightarrow> string) \<Rightarrow> 'a list \<Rightarrow> 'a list" where
  "pg_order P f = sort_key (\<lambda>v. pg_collate P (f v))"

text \<open>A statement whose argument \<open>$1::uuid\<close> is not the text of a UUID fails.\<close>

definition pg_id :: "pg_types \<Rightarrow> string \<Rightarrow> (string \<Rightarrow> admin_db \<Rightarrow> 'a option \<times> admin_db) \<Rightarrow> admin_db \<Rightarrow> 'a option \<times> admin_db" where
  "pg_id P rid f = (case pg_uuid P rid of None \<Rightarrow> ad_call (\<lambda>d. (None, d)) | Some rid \<Rightarrow> f rid)"

section \<open>SMPP accounts and clients\<close>

definition pg_account_refs :: "admin_db \<Rightarrow> smpp_account \<Rightarrow> bool" where
  "pg_account_refs d a \<longleftrightarrow> account_ok a \<and> pg_int4 (sa_ThroughputLimit a) \<and>
     (sa_DefaultRouteID a = [] \<or> sa_DefaultRouteID a \<in> set (row_ids (ad_rules d)))"

definition pg_account :: "pg_types \<Rightarrow> smpp_account \<Rightarrow> smpp_account option" where
  "pg_account P a =
     (case (pg_nullable (pg_inet P) (sa_AllowedIP a), pg_nullable (pg_uuid P) (sa_DefaultRouteID a)) of
        (Some ip, Some route) \<Rightarrow> Some (a\<lparr>sa_AllowedIP := ip, sa_DefaultRouteID := route\<rparr>)
      | _ \<Rightarrow> None)"

definition pg_ListSMPPServerAccounts :: "pg_types \<Rightarrow> admin_db \<Rightarrow> smpp_account list option \<times> admin_db" where
  "pg_ListSMPPServerAccounts P = q_rows ad_accounts (\<lambda>as. pg_order P sa_Name (pg_order P sa_SystemID as))"

definition pg_GetSMPPServerAccountByID :: "pg_types \<Rightarrow> string \<Rightarrow> admin_db \<Rightarrow> smpp_account option option \<times> admin_db" where
  "pg_GetSMPPServerAccountByID P rid = pg_id P rid (q_row ad_accounts)"

definition pg_GetSMPPServerAccount :: "string \<Rightarrow> admin_db \<Rightarrow> smpp_account option option \<times> admin_db" where
  "pg_GetSMPPServerAccount systemID = q_rows ad_accounts (find (\<lambda>a. sa_SystemID a = systemID))"

definition pg_CreateSMPPServerAccount :: "pg_types \<Rightarrow> int \<Rightarrow> string \<Rightarrow> smpp_account \<Rightarrow> admin_db \<Rightarrow> unit option \<times> admin_db" where
  "pg_CreateSMPPServerAccount P now uid a = x_table ad_accounts ad_accounts_update (\<lambda>d t.
     case pg_account P a of
       None \<Rightarrow> None
     | Some a \<Rightarrow> row_insert account_key (pg_account_refs d) now uid (a\<lparr>sa_ID := uid\<rparr>) t)"

definition pg_UpdateSMPPServerAccount :: "pg_types \<Rightarrow> int \<Rightarrow> smpp_account \<Rightarrow> admin_db \<Rightarrow> unit option \<times> admin_db" where
  "pg_UpdateSMPPServerAccount P now a = pg_id P (sa_ID a) (\<lambda>rid. x_table ad_accounts ad_accounts_update (\<lambda>d t.
     case pg_account P a of
       None \<Rightarrow> None
     | Some a \<Rightarrow> row_update account_key (pg_account_refs d) now rid (a\<lparr>sa_ID := rid\<rparr>) t))"

definition pg_DeleteSMPPServerAccount :: "pg_types \<Rightarrow> string \<Rightarrow> admin_db \<Rightarrow> unit option \<times> admin_db" where
  "pg_DeleteSMPPServerAccount P rid = pg_id P rid DeleteSMPPServerAccount"

definition pg_client :: "pg_types \<Rightarrow> smpp_client \<Rightarrow> smpp_client" where
  "pg_client P c = c\<lparr>cl_ReconnectInterval := pg_duration P (cl_ReconnectInterval c)\<rparr>"

definition pg_client_ok :: "smpp_client \<Rightarrow> bool" where
  "pg_client_ok c \<longleftrightarrow> client_ok c \<and> pg_int4 (cl_Port c) \<and> pg_int4 (cl_ThroughputLimit c) \<and> pg_int4_opt (cl_SourceAddrTON c) \<and>
     pg_int4_opt (cl_SourceAddrNPI c) \<and> pg_int4_opt (cl_DestAddrTON c) \<and> pg_int4_opt (cl_DestAddrNPI c)"

definition pg_ListSMPPClients :: "pg_types \<Rightarrow> admin_db \<Rightarrow> smpp_client list option \<times> admin_db" where
  "pg_ListSMPPClients P = q_rows ad_clients (pg_order P cl_Name)"

definition pg_GetSMPPClient :: "pg_types \<Rightarrow> string \<Rightarrow> admin_db \<Rightarrow> smpp_client option option \<times> admin_db" where
  "pg_GetSMPPClient P rid = pg_id P rid (q_row ad_clients)"

definition pg_CreateSMPPClient :: "pg_types \<Rightarrow> int \<Rightarrow> string \<Rightarrow> smpp_client \<Rightarrow> admin_db \<Rightarrow> unit option \<times> admin_db" where
  "pg_CreateSMPPClient P now uid c = x_table ad_clients ad_clients_update
     (\<lambda>d. row_insert client_key pg_client_ok now uid ((pg_client P c)\<lparr>cl_ID := uid\<rparr>))"

definition pg_UpdateSMPPClient :: "pg_types \<Rightarrow> int \<Rightarrow> smpp_client \<Rightarrow> admin_db \<Rightarrow> unit option \<times> admin_db" where
  "pg_UpdateSMPPClient P now c = pg_id P (cl_ID c) (\<lambda>rid. x_table ad_clients ad_clients_update
     (\<lambda>d. row_update client_key pg_client_ok now rid ((pg_client P c)\<lparr>cl_ID := rid\<rparr>)))"

definition pg_DeleteSMPPClient :: "pg_types \<Rightarrow> string \<Rightarrow> admin_db \<Rightarrow> unit option \<times> admin_db" where
  "pg_DeleteSMPPClient P rid = pg_id P rid DeleteSMPPClient"

section \<open>SIP and Diameter peers\<close>

definition pg_sip_peer_ok :: "sip_peer_row \<Rightarrow> bool" where
  "pg_sip_peer_ok p \<longleftrightarrow> sip_peer_ok p \<and> pg_int4 (sp_Port p)"

definition pg_ListAllSIPPeers :: "pg_types \<Rightarrow> admin_db \<Rightarrow> sip_peer_row list option \<times> admin_db" where
  "pg_ListAllSIPPeers P = q_rows ad_sip_peers (pg_order P sp_Name)"

definition pg_ListSIPPeers :: "pg_types \<Rightarrow> admin_db \<Rightarrow> sip_peer_row list option \<times> admin_db" where
  "pg_ListSIPPeers P = q_rows ad_sip_peers (\<lambda>ps. pg_order P sp_Name (filter sp_Enabled ps))"

definition pg_GetSIPPeerByID :: "pg_types \<Rightarrow> string \<Rightarrow> admin_db \<Rightarrow> sip_peer_row option option \<times> admin_db" where
  "pg_GetSIPPeerByID P rid = pg_id P rid (q_row ad_sip_peers)"

definition pg_CreateSIPPeer :: "int \<Rightarrow> string \<Rightarrow> sip_peer_row \<Rightarrow> admin_db \<Rightarrow> unit option \<times> admin_db" where
  "pg_CreateSIPPeer now uid p = x_table ad_sip_peers ad_sip_peers_update (\<lambda>d. row_insert sip_peer_key pg_sip_peer_ok now uid p)"

definition pg_UpdateSIPPeer :: "pg_types \<Rightarrow> int \<Rightarrow> string \<Rightarrow> sip_peer_row \<Rightarrow> admin_db \<Rightarrow> unit option \<times> admin_db" where
  "pg_UpdateSIPPeer P now rid p = pg_id P rid (\<lambda>rid. x_table ad_sip_peers ad_sip_peers_update
     (\<lambda>d. row_update sip_peer_key pg_sip_peer_ok now rid p))"

definition pg_DeleteSIPPeer :: "pg_types \<Rightarrow> string \<Rightarrow> admin_db \<Rightarrow> unit option \<times> admin_db" where
  "pg_DeleteSIPPeer P rid = pg_id P rid DeleteSIPPeer"

text \<open>The older column \<open>application\<close> holds the first of the applications and has a check of its own.\<close>

definition pg_diam_peer_ok :: "diameter_peer \<Rightarrow> bool" where
  "pg_diam_peer_ok p \<longleftrightarrow> diam_peer_ok p \<and> pg_int4 (dp_Port p) \<and>
     (case dp_Applications p of [] \<Rightarrow> False | app # _ \<Rightarrow> app \<in> {''sgd'', ''sh'', ''s6c''})"

definition pg_ListAllDiameterPeers :: "pg_types \<Rightarrow> admin_db \<Rightarrow> diameter_peer list option \<times> admin_db" where
  "pg_ListAllDiameterPeers P = q_rows ad_diam_peers (pg_order P dp_Name)"

definition pg_ListDiameterPeers :: "pg_types \<Rightarrow> admin_db \<Rightarrow> diameter_peer list option \<times> admin_db" where
  "pg_ListDiameterPeers P = q_rows ad_diam_peers (\<lambda>ps. pg_order P dp_Name (filter dp_Enabled ps))"

definition pg_GetDiameterPeerByID :: "pg_types \<Rightarrow> string \<Rightarrow> admin_db \<Rightarrow> diameter_peer option option \<times> admin_db" where
  "pg_GetDiameterPeerByID P rid = pg_id P rid (q_row ad_diam_peers)"

definition pg_CreateDiameterPeer :: "int \<Rightarrow> string \<Rightarrow> diameter_peer \<Rightarrow> admin_db \<Rightarrow> unit option \<times> admin_db" where
  "pg_CreateDiameterPeer now uid p = x_table ad_diam_peers ad_diam_peers_update
     (\<lambda>d. row_insert diam_peer_key pg_diam_peer_ok now uid p)"

definition pg_UpdateDiameterPeer :: "pg_types \<Rightarrow> int \<Rightarrow> string \<Rightarrow> diameter_peer \<Rightarrow> admin_db \<Rightarrow> unit option \<times> admin_db" where
  "pg_UpdateDiameterPeer P now rid p = pg_id P rid (\<lambda>rid. x_table ad_diam_peers ad_diam_peers_update
     (\<lambda>d. row_update diam_peer_key pg_diam_peer_ok now rid p))"

definition pg_DeleteDiameterPeer :: "pg_types \<Rightarrow> string \<Rightarrow> admin_db \<Rightarrow> unit option \<times> admin_db" where
  "pg_DeleteDiameterPeer P rid = pg_id P rid DeleteDiameterPeer"

section \<open>Routing rules and policies\<close>

definition pg_rule :: "pg_types \<Rightarrow> routing_rule \<Rightarrow> routing_rule option" where
  "pg_rule P r = map_option (\<lambda>pid. r\<lparr>rr_SFPolicyID := pid\<rparr>) (pg_nullable (pg_uuid P) (rr_SFPolicyID r))"

definition pg_rule_ok :: "admin_db \<Rightarrow> routing_rule \<Rightarrow> bool" where
  "pg_rule_ok d r \<longleftrightarrow> rule_ok d r \<and> pg_int4 (rr_Priority r)"

definition pg_ListAllRoutingRules :: "admin_db \<Rightarrow> routing_rule list option \<times> admin_db" where
  "pg_ListAllRoutingRules = q_rows ad_rules (sort_key rr_Priority)"

definition pg_GetRoutingRule :: "pg_types \<Rightarrow> string \<Rightarrow> admin_db \<Rightarrow> routing_rule option option \<times> admin_db" where
  "pg_GetRoutingRule P rid = pg_id P rid (q_row ad_rules)"

definition pg_CreateRoutingRule :: "pg_types \<Rightarrow> int \<Rightarrow> string \<Rightarrow> routing_rule \<Rightarrow> admin_db \<Rightarrow> unit option \<times> admin_db" where
  "pg_CreateRoutingRule P now uid r = x_table ad_rules ad_rules_update (\<lambda>d t.
     case pg_rule P r of None \<Rightarrow> None | Some r \<Rightarrow> row_insert (\<lambda>_. None) (pg_rule_ok d) now uid r t)"

definition pg_UpdateRoutingRule :: "pg_types \<Rightarrow> int \<Rightarrow> string \<Rightarrow> routing_rule \<Rightarrow> admin_db \<Rightarrow> unit option \<times> admin_db" where
  "pg_UpdateRoutingRule P now rid r = pg_id P rid (\<lambda>rid. x_table ad_rules ad_rules_update (\<lambda>d t.
     case pg_rule P r of None \<Rightarrow> None | Some r \<Rightarrow> row_update (\<lambda>_. None) (pg_rule_ok d) now rid r t))"

text \<open>\<open>fk_default_route\<close>: a rule that is the default route of an account stays.\<close>

definition pg_DeleteRoutingRule :: "pg_types \<Rightarrow> string \<Rightarrow> admin_db \<Rightarrow> unit option \<times> admin_db" where
  "pg_DeleteRoutingRule P rid = pg_id P rid (\<lambda>rid. x_table ad_rules ad_rules_update (\<lambda>d t.
     if rid \<in> set (row_ids t) \<and> rid \<noteq> [] \<and> (\<exists>a \<in> set (row_vals (ad_accounts d)). sa_DefaultRouteID a = rid) then None
     else Some (row_delete rid t)))"

definition pg_policy :: "pg_types \<Rightarrow> policy_row \<Rightarrow> policy_row" where
  "pg_policy P p = p\<lparr>pol_MaxTTL := pg_duration P (pol_MaxTTL p), pol_VPOverride := map_option (pg_duration P) (pol_VPOverride p)\<rparr>"

definition pg_policy_ok :: "policy_row \<Rightarrow> bool" where
  "pg_policy_ok p \<longleftrightarrow> pg_int4 (pol_MaxRetries p)"

definition pg_ListSFPolicies :: "pg_types \<Rightarrow> admin_db \<Rightarrow> policy_row list option \<times> admin_db" where
  "pg_ListSFPolicies P = q_rows ad_policies (pg_order P pol_Name)"

definition pg_GetPolicyByID :: "pg_types \<Rightarrow> string \<Rightarrow> admin_db \<Rightarrow> policy_row option \<times> admin_db" where
  "pg_GetPolicyByID P rid = pg_id P rid GetPolicyByID"

definition pg_CreateSFPolicy :: "pg_types \<Rightarrow> int \<Rightarrow> string \<Rightarrow> policy_row \<Rightarrow> admin_db \<Rightarrow> unit option \<times> admin_db" where
  "pg_CreateSFPolicy P now uid p = x_table ad_policies ad_policies_update
     (\<lambda>d. row_insert policy_key pg_policy_ok now uid ((pg_policy P p)\<lparr>pol_ID := uid\<rparr>))"

definition pg_UpdateSFPolicy :: "pg_types \<Rightarrow> int \<Rightarrow> policy_row \<Rightarrow> admin_db \<Rightarrow> unit option \<times> admin_db" where
  "pg_UpdateSFPolicy P now p = pg_id P (pol_ID p) (\<lambda>rid. x_table ad_policies ad_policies_update
     (\<lambda>d. row_update policy_key pg_policy_ok now rid ((pg_policy P p)\<lparr>pol_ID := rid\<rparr>)))"

definition pg_DeleteSFPolicy :: "pg_types \<Rightarrow> string \<Rightarrow> admin_db \<Rightarrow> unit option \<times> admin_db" where
  "pg_DeleteSFPolicy P rid = pg_id P rid DeleteSFPolicy"

section \<open>Subscribers and mappings\<close>

definition pg_ListSubscribers :: "pg_types \<Rightarrow> admin_db \<Rightarrow> subscriber list option \<times> admin_db" where
  "pg_ListSubscribers P = q_rows ad_subscribers (pg_order P sub_MSISDN)"

definition pg_GetSubscriberByID :: "pg_types \<Rightarrow> string \<Rightarrow> admin_db \<Rightarrow> subscriber option option \<times> admin_db" where
  "pg_GetSubscriberByID P rid = pg_id P rid (q_row ad_subscribers)"

text \<open>\<open>COALESCE(NULLIF($1,''), gen_random_uuid()::text)::uuid\<close>: the identifier given is parsed even if it is not used.\<close>

definition pg_UpsertSubscriber :: "pg_types \<Rightarrow> int \<Rightarrow> string \<Rightarrow> string \<Rightarrow> subscriber \<Rightarrow> admin_db \<Rightarrow> unit option \<times> admin_db" where
  "pg_UpsertSubscriber P now uid rid s =
     (if rid = [] then UpsertSubscriberRow now uid [] s else pg_id P rid (\<lambda>rid. UpsertSubscriberRow now uid rid s))"

definition pg_DeleteSubscriber :: "pg_types \<Rightarrow> string \<Rightarrow> admin_db \<Rightarrow> unit option \<times> admin_db" where
  "pg_DeleteSubscriber P rid = pg_id P rid DeleteSubscriber"

definition pg_ListSGDMMEMappings :: "pg_types \<Rightarrow> admin_db \<Rightarrow> sgd_mme_mapping list option \<times> admin_db" where
  "pg_ListSGDMMEMappings P = q_rows ad_mappings (pg_order P mm_S6CResult)"

definition pg_GetSGDMMEMappingByID :: "pg_types \<Rightarrow> string \<Rightarrow> admin_db \<Rightarrow> sgd_mme_mapping option option \<times> admin_db" where
  "pg_GetSGDMMEMappingByID P rid = pg_id P rid (q_row ad_mappings)"

definition pg_CreateSGDMMEMapping :: "int \<Rightarrow> string \<Rightarrow> sgd_mme_mapping \<Rightarrow> admin_db \<Rightarrow> unit option \<times> admin_db" where
  "pg_CreateSGDMMEMapping now uid m = x_table ad_mappings ad_mappings_update (\<lambda>d. row_insert mapping_key (\<lambda>_. True) now uid m)"

definition pg_UpdateSGDMMEMapping :: "pg_types \<Rightarrow> int \<Rightarrow> string \<Rightarrow> sgd_mme_mapping \<Rightarrow> admin_db \<Rightarrow> unit option \<times> admin_db" where
  "pg_UpdateSGDMMEMapping P now rid m = pg_id P rid (\<lambda>rid. UpdateSGDMMEMapping now rid m)"

definition pg_DeleteSGDMMEMapping :: "pg_types \<Rightarrow> string \<Rightarrow> admin_db \<Rightarrow> unit option \<times> admin_db" where
  "pg_DeleteSGDMMEMapping P rid = pg_id P rid DeleteSGDMMEMapping"

section \<open>References\<close>

text \<open>
  What the foreign keys are for: the default route of an account is a rule, and the policy of a rule is one. A change is
  one statement that writes.
\<close>

definition pg_refs :: "admin_db \<Rightarrow> bool" where
  "pg_refs d \<longleftrightarrow>
     (\<forall>a \<in> set (row_vals (ad_accounts d)). sa_DefaultRouteID a = [] \<or> sa_DefaultRouteID a \<in> set (row_ids (ad_rules d))) \<and>
     (\<forall>r \<in> set (row_vals (ad_rules d)). rr_SFPolicyID r = [] \<or> rr_SFPolicyID r \<in> set (row_ids (ad_policies d)))"

inductive pg_change :: "pg_types \<Rightarrow> admin_db \<Rightarrow> admin_db \<Rightarrow> bool" for P where
  create_account: "pg_CreateSMPPServerAccount P now uid a d = (r, d') \<Longrightarrow> pg_change P d d'"
| update_account: "pg_UpdateSMPPServerAccount P now a d = (r, d') \<Longrightarrow> pg_change P d d'"
| delete_account: "pg_DeleteSMPPServerAccount P rid d = (r, d') \<Longrightarrow> pg_change P d d'"
| create_rule: "pg_CreateRoutingRule P now uid rule d = (r, d') \<Longrightarrow> pg_change P d d'"
| update_rule: "pg_UpdateRoutingRule P now rid rule d = (r, d') \<Longrightarrow> pg_change P d d'"
| delete_rule: "pg_DeleteRoutingRule P rid d = (r, d') \<Longrightarrow> pg_change P d d'"
| create_policy: "pg_CreateSFPolicy P now uid p d = (r, d') \<Longrightarrow> pg_change P d d'"
| update_policy: "pg_UpdateSFPolicy P now p d = (r, d') \<Longrightarrow> pg_change P d d'"
| delete_policy: "pg_DeleteSFPolicy P rid d = (r, d') \<Longrightarrow> pg_change P d d'"

lemma x_table_pg_refs:
  assumes "x_table rows upd f d = (r, d')" "pg_refs d"
    and "\<And>d t. pg_refs d \<Longrightarrow> f d (rows d) = Some t \<Longrightarrow> pg_refs (upd (\<lambda>_. t) d)"
  shows "pg_refs d'"
proof -
  have f: "pg_refs (d\<lparr>ad_faults := fs\<rparr>)" for fs using assms(2) by (simp add: pg_refs_def)
  show ?thesis
    using assms(1,2) assms(3) [OF assms(2)] assms(3) [OF f]
    by (auto simp: f x_table_def ad_call.simps split: list.splits option.splits if_splits)
qed

lemma pg_id_refs:
  assumes "pg_id P rid f d = (r, d')" "pg_refs d" and "\<And>rid. f rid d = (r, d') \<Longrightarrow> pg_refs d'"
  shows "pg_refs d'"
  using assms by (auto simp: pg_id_def ad_call.simps pg_refs_def split: option.splits list.splits if_splits)

lemma row_insert_Some:
  "row_insert key ok now rid v t = Some t' \<Longrightarrow> ok v \<and> row_ids t' = row_ids t @ [rid] \<and> row_vals t' = row_vals t @ [v]"
  by (auto simp: row_insert_def split: if_splits)

lemma row_update_vals:
  assumes "row_update key ok now rid v t = Some t'" "w \<in> set (row_vals t')"
  shows "w \<in> set (row_vals t) \<or> w = v \<and> ok v"
proof (cases "rid \<in> set (row_ids t)")
  case True
  then have f: "ok v" "t' = map (\<lambda>r. if fst r = rid then (rid, now div Second, v) else r) t"
    using assms(1) by (auto simp: row_update_def split: if_splits)
  then show ?thesis using assms(2) by (auto simp: in_row_vals split: if_splits)
qed (use assms in \<open>simp add: row_update_def\<close>)

lemma row_delete_rows:
  "row_ids (row_delete rid t) = filter (\<lambda>i. i \<noteq> rid) (row_ids t)" "w \<in> set (row_vals (row_delete rid t)) \<Longrightarrow> w \<in> set (row_vals t)"
proof -
  show "row_ids (row_delete rid t) = filter (\<lambda>i. i \<noteq> rid) (row_ids t)"
    by (induction t) (auto simp: row_delete_def)
  show "w \<in> set (row_vals (row_delete rid t)) \<Longrightarrow> w \<in> set (row_vals t)"
    by (auto simp: in_row_vals row_delete_def)
qed

lemma pg_refs_accounts:
  "pg_refs d \<Longrightarrow> (\<And>a. a \<in> set (row_vals t) \<Longrightarrow> a \<in> set (row_vals (ad_accounts d)) \<or> pg_account_refs d a) \<Longrightarrow>
     pg_refs (ad_accounts_update (\<lambda>_. t) d)"
  unfolding pg_refs_def by (simp add: pg_account_refs_def) blast

lemma pg_refs_rules:
  assumes "pg_refs d" "\<And>r. r \<in> set (row_vals t) \<Longrightarrow> r \<in> set (row_vals (ad_rules d)) \<or> pg_rule_ok d r"
    and "\<And>a. a \<in> set (row_vals (ad_accounts d)) \<Longrightarrow> sa_DefaultRouteID a \<in> set (row_ids (ad_rules d)) \<Longrightarrow>
      sa_DefaultRouteID a \<noteq> [] \<Longrightarrow> sa_DefaultRouteID a \<in> set (row_ids t)"
  shows "pg_refs (ad_rules_update (\<lambda>_. t) d)"
  using assms unfolding pg_refs_def by (simp add: pg_rule_ok_def rule_ok_def) blast

lemma pg_refs_policies:
  assumes "pg_refs d" and "\<And>r. r \<in> set (row_vals (ad_rules d)) \<Longrightarrow> rr_SFPolicyID r \<in> set (row_ids (ad_policies d)) \<Longrightarrow>
      rr_SFPolicyID r \<noteq> [] \<Longrightarrow> rr_SFPolicyID r \<in> set (row_ids t)"
  shows "pg_refs (ad_policies_update (\<lambda>_. t) d)"
  using assms unfolding pg_refs_def by simp blast

lemma pg_account_changes:
  assumes "pg_refs d"
  shows "pg_CreateSMPPServerAccount P now uid a d = (r, d') \<Longrightarrow> pg_refs d'"
    "pg_UpdateSMPPServerAccount P now a d = (r, d') \<Longrightarrow> pg_refs d'"
    "pg_DeleteSMPPServerAccount P rid d = (r, d') \<Longrightarrow> pg_refs d'"
proof -
  show "pg_CreateSMPPServerAccount P now uid a d = (r, d') \<Longrightarrow> pg_refs d'"
    unfolding pg_CreateSMPPServerAccount_def
    by (erule x_table_pg_refs [OF _ assms], erule pg_refs_accounts) (auto split: option.splits dest!: row_insert_Some)
  show "pg_UpdateSMPPServerAccount P now a d = (r, d') \<Longrightarrow> pg_refs d'"
    unfolding pg_UpdateSMPPServerAccount_def
    by (erule pg_id_refs [OF _ assms], erule x_table_pg_refs [OF _ assms], erule pg_refs_accounts)
      (auto split: option.splits dest: row_update_vals)
  show "pg_DeleteSMPPServerAccount P rid d = (r, d') \<Longrightarrow> pg_refs d'"
    unfolding pg_DeleteSMPPServerAccount_def DeleteSMPPServerAccount_def
    by (erule pg_id_refs [OF _ assms], erule x_table_pg_refs [OF _ assms], erule pg_refs_accounts)
      (auto dest: row_delete_rows(2))
qed

lemma pg_rule_changes:
  assumes "pg_refs d"
  shows "pg_CreateRoutingRule P now uid rule d = (r, d') \<Longrightarrow> pg_refs d'"
    "pg_UpdateRoutingRule P now rid rule d = (r, d') \<Longrightarrow> pg_refs d'"
    "pg_DeleteRoutingRule P rid d = (r, d') \<Longrightarrow> pg_refs d'"
proof -
  show "pg_CreateRoutingRule P now uid rule d = (r, d') \<Longrightarrow> pg_refs d'"
    unfolding pg_CreateRoutingRule_def
    by (erule x_table_pg_refs [OF _ assms], erule pg_refs_rules) (auto split: option.splits dest!: row_insert_Some)
  show "pg_UpdateRoutingRule P now rid rule d = (r, d') \<Longrightarrow> pg_refs d'"
    unfolding pg_UpdateRoutingRule_def
    by (erule pg_id_refs [OF _ assms], erule x_table_pg_refs [OF _ assms], erule pg_refs_rules)
      (auto split: option.splits dest: row_update_vals row_update_ids)
  show "pg_DeleteRoutingRule P rid d = (r, d') \<Longrightarrow> pg_refs d'"
    unfolding pg_DeleteRoutingRule_def
    by (erule pg_id_refs [OF _ assms], erule x_table_pg_refs [OF _ assms], erule pg_refs_rules)
      (auto simp: row_delete_rows(1) dest: row_delete_rows(2) split: if_splits)
qed

lemma pg_policy_changes:
  assumes "pg_refs d"
  shows "pg_CreateSFPolicy P now uid p d = (r, d') \<Longrightarrow> pg_refs d'"
    "pg_UpdateSFPolicy P now p d = (r, d') \<Longrightarrow> pg_refs d'"
    "pg_DeleteSFPolicy P rid d = (r, d') \<Longrightarrow> pg_refs d'"
proof -
  show "pg_CreateSFPolicy P now uid p d = (r, d') \<Longrightarrow> pg_refs d'"
    unfolding pg_CreateSFPolicy_def
    by (erule x_table_pg_refs [OF _ assms], erule pg_refs_policies) (auto dest!: row_insert_Some)
  show "pg_UpdateSFPolicy P now p d = (r, d') \<Longrightarrow> pg_refs d'"
    unfolding pg_UpdateSFPolicy_def
    by (erule pg_id_refs [OF _ assms], erule x_table_pg_refs [OF _ assms], erule pg_refs_policies) (auto dest: row_update_ids)
  show "pg_DeleteSFPolicy P rid d = (r, d') \<Longrightarrow> pg_refs d'"
    unfolding pg_DeleteSFPolicy_def DeleteSFPolicy_def
    by (erule pg_id_refs [OF _ assms], erule x_table_pg_refs [OF _ assms], erule pg_refs_policies)
      (auto simp: row_delete_rows(1) split: if_splits)
qed

lemma pg_change_refs: "pg_change P d d' \<Longrightarrow> pg_refs d \<Longrightarrow> pg_refs d'"
  by (erule pg_change.cases) (blast dest: pg_account_changes pg_rule_changes pg_policy_changes)+

section \<open>The same answers\<close>

lemma pg_id_canonical: "pg_uuid P rid = Some rid \<Longrightarrow> pg_id P rid f = f rid"
  by (simp add: pg_id_def)

lemma pg_duration_whole:
  assumes "pg_interval_of P (formatInterval d) = \<lparr>iv_Valid = True, iv_Months = 0, iv_Days = 0, iv_Microseconds = n\<rparr>" "d = 1000 * n"
  shows "pg_duration P d = d"
  using assms by (simp add: pg_duration_def intervalToDuration_def)

lemma row_insert_cong:
  "(\<And>v. v = u \<Longrightarrow> ok v = ok' v) \<Longrightarrow> row_insert key ok now rid u t = row_insert key ok' now rid u t"
  "(\<And>v. v = u \<Longrightarrow> ok v = ok' v) \<Longrightarrow> row_update key ok now rid u t = row_update key ok' now rid u t"
  by (simp_all add: row_insert_def row_update_def)

lemma SplitHost_part: "SplitHost s = Ok h \<Longrightarrow> set h \<subseteq> set s"
  by (auto simp: SplitHost_def split: option.splits if_splits dest!: in_set_takeD in_set_dropD)

section \<open>Properties\<close>


text \<open>
  A row is asked for under a text that is not a UUID: SQLite has none, the server of PostgreSQL fails, which the API
  answers with 500 instead of 404.
\<close>

theorem malformed_id_fails:
  assumes "pg_uuid P rid = None" "ad_faults d = []" "rid \<notin> set (row_ids (ad_rules d))"
  shows "pg_GetRoutingRule P rid d = (None, d) \<and> GetRoutingRule rid d = (Some None, d)"
proof -
  have "find (\<lambda>r. fst r = rid) (ad_rules d) = None" using assms(3) by (force simp: find_None_iff row_ids_def)
  then show ?thesis
    using assms(1,2) by (simp add: pg_GetRoutingRule_def pg_id_def GetRoutingRule_def q_row_def ad_call.simps row_get_def)
qed


text \<open>
  C29: An account that may bind from one address alone cannot bind on PostgreSQL: the column of type INET gives the address back
  with the length of its net mask, and that is compared with the address of the connection.
\<close>

theorem allowed_ip_never_binds:
  assumes "pg_inet P ip = Some (ip @ ''/32'')" "ip \<noteq> []" "sa_AllowedIP a = ip" "sa_DefaultRouteID a = []"
    and "pg_CreateSMPPServerAccount P now uid a d = (Some (), d')" "ad_faults d = []"
    and "pg_ListSMPPServerAccounts P d' = (Some rows, d'')" and "CHR ''/'' \<notin> set remote"
  shows "\<exists>reason. Authenticate bcrypt (auth_cache rows Map.empty) (sa_SystemID a) pw remote = Denied reason"
proof -
  let ?a = "a\<lparr>sa_AllowedIP := ip @ ''/32'', sa_DefaultRouteID := [], sa_ID := uid\<rparr>"
  have "d' = d\<lparr>ad_accounts := ad_accounts d @ [(uid, now div Second, ?a)]\<rparr> \<and>
      \<not> conflict account_key (?a) (row_vals (ad_accounts d))"
    using assms(1-6) by (auto simp: pg_CreateSMPPServerAccount_def x_table_def ad_call.simps pg_account_def pg_nullable_def row_insert_def
        split: if_splits)
  then have d': "row_vals (ad_accounts d') = row_vals (ad_accounts d) @ [?a]" "ad_faults d' = []"
    and new: "sa_SystemID a \<notin> sa_SystemID ` set (row_vals (ad_accounts d))"
    using assms(6) by (auto simp: conflict_def account_key_def)
  have rows: "set rows = set (row_vals (ad_accounts d'))"
    using assms(7) d'(2) by (auto simp: pg_ListSMPPServerAccounts_def q_rows_def ad_call.simps pg_order_def)
  have at: "sa_AllowedIP acc = ip @ ''/32''" if "acc \<in> set rows" "sa_SystemID acc = sa_SystemID a" for acc
    using that new unfolding rows d'(1) by auto (metis imageI)
  have ip: "sa_AllowedIP acc = ip @ ''/32''" if "auth_cache rows Map.empty (sa_SystemID a) = Some acc" for acc
  proof -
    from auth_cache_key [OF that] have "acc \<in> set rows" "sa_SystemID acc = sa_SystemID a" by simp_all
    then show ?thesis by (rule at)
  qed
  have no: "CHR ''/'' \<notin> set h" if "SplitHost remote = Ok h" for h
    using SplitHost_part [OF that] assms(8) by blast
  show ?thesis
  proof (rule ccontr)
    assume "\<nexists>reason. Authenticate bcrypt (auth_cache rows Map.empty) (sa_SystemID a) pw remote = Denied reason"
    then obtain acc where "Authenticate bcrypt (auth_cache rows Map.empty) (sa_SystemID a) pw remote = Allowed acc"
      by (metis auth_result.exhaust)
    from Authenticate_allowed [OF this] ip have "(case SplitHost remote of Ok h \<Rightarrow> h | _ \<Rightarrow> remote) = ip @ ''/32''" by auto
    then have "CHR ''/'' \<in> set (case SplitHost remote of Ok h \<Rightarrow> h | _ \<Rightarrow> remote)" by simp
    then show False using no assms(8) by (cases "SplitHost remote") auto
  qed
qed

section \<open>Examples\<close>

definition pg_sample :: pg_types where
  "pg_sample = \<lparr>pg_uuid = (\<lambda>s. if s = ''x'' then None else Some s), pg_inet = (\<lambda>s. Some (s @ ''/32'')),
     pg_interval_of = (\<lambda>s. \<lparr>iv_Valid = True, iv_Months = 0, iv_Days = 0, iv_Microseconds = 1000000\<rparr>), pg_collate = map of_char\<rparr>"

definition pg_empty :: admin_db where
  "pg_empty = \<lparr>ad_accounts = [], ad_clients = [], ad_sip_peers = [], ad_diam_peers = [], ad_rules = [], ad_policies = [],
     ad_subscribers = [], ad_mappings = [], ad_db = example_db Postgres [], ad_faults = []\<rparr>"

definition pg_sample_client :: smpp_client where
  "pg_sample_client = sample_client\<lparr>cl_ID := ''1'', cl_Port := 2775, cl_ThroughputLimit := 0, cl_ReconnectInterval := 1000 * 1000000,
     cl_SourceAddrTON := None, cl_SourceAddrNPI := None, cl_DestAddrTON := None, cl_DestAddrNPI := None\<rparr>"

definition pg_sample_sip_peer :: sip_peer_row where
  "pg_sample_sip_peer = \<lparr>sp_Name = ''b'', sp_Address = ''10.0.0.2'', sp_Port = 5060, sp_Transport = ''udp'', sp_Domain = ''b.example'',
     sp_Enabled = True, sp_AuthUser = [], sp_AuthPass = []\<rparr>"

definition pg_sample_peer :: diameter_peer where
  "pg_sample_peer = \<lparr>dp_Name = ''hss'', dp_Host = ''10.0.0.3'', dp_Realm = ''r'', dp_Port = 3868, dp_Transport = ''tcp'',
     dp_Applications = [''sh''], dp_Enabled = True\<rparr>"


theorem malformed_id_fails_witness:
  "pg_GetRoutingRule pg_sample ''x'' pg_empty = (None, pg_empty) \<and> GetRoutingRule ''x'' pg_empty = (Some None, pg_empty)"
  by (rule malformed_id_fails) (simp_all add: pg_sample_def pg_empty_def)


theorem allowed_ip_never_binds_witness:
  "\<exists>d' rows reason. pg_CreateSMPPServerAccount pg_sample 0 ''1'' sample_account pg_empty = (Some (), d') \<and>
     fst (pg_ListSMPPServerAccounts pg_sample d') = Some rows \<and>
     Authenticate (=) (auth_cache rows Map.empty) ''esme'' ''secret'' ''10.0.0.1:4000'' = Denied reason"
proof -
  obtain d' where d': "pg_CreateSMPPServerAccount pg_sample 0 ''1'' sample_account pg_empty = (Some (), d')"
    by (simp add: pg_CreateSMPPServerAccount_def x_table_def ad_call.simps pg_account_def pg_nullable_def row_insert_def
        pg_sample_def pg_empty_def sample_account_def pg_account_refs_def account_ok_def bind_types_def pg_int4_def conflict_def)
  then have "ad_faults d' = []"
    by (auto simp: pg_CreateSMPPServerAccount_def x_table_def ad_call.simps pg_empty_def split: option.splits)
  then obtain rows where rows: "pg_ListSMPPServerAccounts pg_sample d' = (Some rows, d')"
    by (simp add: pg_ListSMPPServerAccounts_def q_rows_def ad_call.simps)
  have h: "pg_inet pg_sample ''10.0.0.1'' = Some (''10.0.0.1'' @ ''/32'')" "sa_AllowedIP sample_account = ''10.0.0.1''"
    "sa_DefaultRouteID sample_account = []" "ad_faults pg_empty = []"
    by (simp_all add: pg_sample_def sample_account_def pg_empty_def)
  have "\<exists>reason. Authenticate (=) (auth_cache rows Map.empty) (sa_SystemID sample_account) ''secret'' ''10.0.0.1:4000'' = Denied reason"
    by (rule allowed_ip_never_binds [OF h(1) _ h(2,3) d' h(4) rows]) simp_all
  then show ?thesis using d' rows by (auto simp: sample_account_def)
qed

end
