(* ===== verification/PgMessages.thy ===== *)
theory PgMessages
  imports Postgres
begin

text \<open>
  Messages, reports and registrations on PostgreSQL (\<open>internal/store/postgres/messages.go\<close>, \<open>ims_registrations.go\<close>), statement by
  statement with the types of the columns, and that the statements of the theory \<open>MsgStore\<close>, on which the engine is built, are
  these when the backend is PostgreSQL.
\<close>

section \<open>Types of columns\<close>

text \<open>A statement on the row of an identifier: the server parses it, and fails when it is no UUID.\<close>

definition pg_row :: "pg_types \<Rightarrow> string \<Rightarrow> (string \<Rightarrow> db \<Rightarrow> 'a option \<times> db) \<Rightarrow> db \<Rightarrow> 'a option \<times> db" where
  "pg_row P mid f d = (case pg_uuid P mid of None \<Rightarrow> (None, snd (db_call (\<lambda>d. ((), d)) d)) | Some mid \<Rightarrow> f mid d)"

definition pg_int2 :: "int \<Rightarrow> bool" where
  "pg_int2 n \<longleftrightarrow> - (2 ^ 15) \<le> n \<and> n < 2 ^ 15"

definition message_statuses :: "string list" where
  "message_statuses = [MessageStatusQueued, MessageStatusDispatched, MessageStatusWaitTimer, MessageStatusWaitEvent,
     MessageStatusWaitTimerEvent, MessageStatusDelivered, MessageStatusFailed, MessageStatusExpired]"

definition pg_message_ok :: "smsg \<Rightarrow> bool" where
  "pg_message_ok m \<longleftrightarrow> sm_Status m \<in> set message_statuses \<and> pg_int4_opt (sm_TPMR m) \<and> pg_int4 (sm_RouteCursor m) \<and>
     pg_int4 (sm_RetryCount m) \<and> pg_int2 (sm_Encoding m) \<and> pg_int2 (sm_DCS m)"

text \<open>What a column of type \<open>timestamptz\<close> keeps of an instant.\<close>

definition pg_time :: "int \<Rightarrow> int" where
  "pg_time t = t div 1000 * 1000"

section \<open>Messages\<close>

definition pg_SaveMessage :: "pg_types \<Rightarrow> smsg \<Rightarrow> db \<Rightarrow> bool option \<times> db" where
  "pg_SaveMessage P m = db_call (\<lambda>d.
     case pg_uuid P (sm_ID m) of
       None \<Rightarrow> (False, d)
     | Some mid \<Rightarrow>
         if mid \<in> set (map sm_ID (db_messages d)) \<or> \<not> pg_message_ok m then (False, d)
         else (True, d\<lparr>db_messages := db_messages d @ [m\<lparr>sm_ID := mid, sm_NextRetryAt := map_option pg_time (sm_NextRetryAt m),
                sm_SubmittedAt := pg_time (sm_SubmittedAt m), sm_ExpiryAt := map_option pg_time (sm_ExpiryAt m),
                sm_DeliveredAt := None\<rparr>]\<rparr>))"

definition pg_UpdateMessageRouting :: "pg_types \<Rightarrow> string \<Rightarrow> string \<Rightarrow> string \<Rightarrow> db \<Rightarrow> unit option \<times> db" where
  "pg_UpdateMessageRouting P mid egressIface egressPeer = pg_row P mid (\<lambda>mid. db_call (\<lambda>d.
     ((), upd_message mid (\<lambda>m. m\<lparr>sm_EgressIface := egressIface, sm_EgressPeer := egressPeer\<rparr>) d)))"

definition pg_UpdateMessageDeferred ::
  "pg_types \<Rightarrow> string \<Rightarrow> string \<Rightarrow> string \<Rightarrow> string \<Rightarrow> int \<Rightarrow> db \<Rightarrow> unit option \<times> db" where
  "pg_UpdateMessageDeferred P mid reason iface node cursor = pg_row P mid (\<lambda>mid. db_try (\<lambda>d.
     if \<not> pg_int4 cursor then None
     else Some (upd_message mid (\<lambda>m. m\<lparr>sm_DeferredReason := reason, sm_DeferredInterface := iface,
            sm_ServingNodeAtDeferral := node, sm_RouteCursor := cursor\<rparr>) d)))"

definition pg_UpdateMessageStatus :: "pg_types \<Rightarrow> int \<Rightarrow> string \<Rightarrow> string \<Rightarrow> db \<Rightarrow> unit option \<times> db" where
  "pg_UpdateMessageStatus P now mid status = pg_row P mid (\<lambda>mid. db_try (\<lambda>d.
     if status \<notin> set message_statuses \<and> mid \<in> set (map sm_ID (db_messages d)) then None
     else Some (if status = MessageStatusDelivered
       then upd_message mid (\<lambda>m. m\<lparr>sm_Status := status, sm_DeliveredAt := Some (pg_time now)\<rparr>) d
       else upd_message mid (\<lambda>m. m\<lparr>sm_Status := status\<rparr>) d)))"

definition pg_ClaimMessageForDispatch :: "pg_types \<Rightarrow> string \<Rightarrow> string list \<Rightarrow> db \<Rightarrow> bool option \<times> db" where
  "pg_ClaimMessageForDispatch P mid allowed d =
     (if allowed = [] then (Some False, d)
      else pg_row P mid (\<lambda>mid. db_call (\<lambda>d.
        (guarded mid allowed d,
         upd_message mid (\<lambda>m. if sm_Status m \<in> set allowed then m\<lparr>sm_Status := MessageStatusDispatched\<rparr> else m) d))) d)"

definition pg_UpdateMessageRetry :: "pg_types \<Rightarrow> string \<Rightarrow> int \<Rightarrow> int \<Rightarrow> int \<Rightarrow> db \<Rightarrow> unit option \<times> db" where
  "pg_UpdateMessageRetry P mid retryCount nextRetryAt routeCursor = pg_row P mid (\<lambda>mid. db_try (\<lambda>d.
     if \<not> pg_int4 retryCount \<or> \<not> pg_int4 routeCursor then None
     else Some (upd_message mid (\<lambda>m. m\<lparr>sm_Status := MessageStatusWaitTimer, sm_RetryCount := retryCount,
            sm_NextRetryAt := Some (pg_time nextRetryAt), sm_RouteCursor := routeCursor\<rparr>) d)))"

definition pg_UpdateMessageExpiryCap :: "pg_types \<Rightarrow> string \<Rightarrow> int \<Rightarrow> db \<Rightarrow> unit option \<times> db" where
  "pg_UpdateMessageExpiryCap P mid expiryAt = pg_row P mid (\<lambda>mid. db_call (\<lambda>d.
     ((), upd_message mid (\<lambda>m. m\<lparr>sm_ExpiryAt :=
            (case sm_ExpiryAt m of
               None \<Rightarrow> Some (pg_time expiryAt)
             | Some e \<Rightarrow> if e > pg_time expiryAt then Some (pg_time expiryAt) else Some e)\<rparr>) d)))"

definition pg_RequeueMessageForAlert ::
  "pg_types \<Rightarrow> string \<Rightarrow> int \<Rightarrow> int \<Rightarrow> string \<Rightarrow> string list \<Rightarrow> db \<Rightarrow> bool option \<times> db" where
  "pg_RequeueMessageForAlert P mid nextRetryAt routeCursor deferredReason allowed d =
     (if allowed = [] then (Some False, d)
      else pg_row P mid (\<lambda>mid. if \<not> pg_int4 routeCursor then (\<lambda>d. (None, snd (db_call (\<lambda>d. ((), d)) d))) else db_call (\<lambda>d.
        (guarded mid allowed d,
         upd_message mid (\<lambda>m. if sm_Status m \<in> set allowed then m\<lparr>sm_Status := MessageStatusWaitTimer,
             sm_NextRetryAt := Some (pg_time nextRetryAt), sm_RouteCursor := routeCursor,
             sm_DeferredReason := (if deferredReason \<noteq> [] then deferredReason else sm_DeferredReason m)\<rparr> else m) d))) d)"

text \<open>\<open>ORDER BY next_retry_at ASC NULLS FIRST\<close>; instants are compared, not texts.\<close>

definition pg_ListRetryableMessages :: "int \<Rightarrow> db \<Rightarrow> smsg list option \<times> db" where
  "pg_ListRetryableMessages now = db_call (\<lambda>d.
     (take 100 (sort_key sm_NextRetryAt (filter (\<lambda>m. sm_Status m \<in> {''QUEUED'', ''WAIT_TIMER'', ''WAIT_TIMER_EVENT''} \<and>
        (case sm_NextRetryAt m of None \<Rightarrow> True | Some t \<Rightarrow> t \<le> now)) (db_messages d))), d))"

definition pg_ListExpiredMessages :: "int \<Rightarrow> db \<Rightarrow> smsg list option \<times> db" where
  "pg_ListExpiredMessages now = db_call (\<lambda>d.
     (take 100 (filter (\<lambda>m. sm_Status m \<in> {''QUEUED'', ''WAIT_TIMER'', ''WAIT_EVENT'', ''WAIT_TIMER_EVENT''} \<and>
        (case sm_ExpiryAt m of None \<Rightarrow> False | Some t \<Rightarrow> t \<le> now)) (db_messages d)), d))"

definition pg_GetMessage :: "pg_types \<Rightarrow> string \<Rightarrow> db \<Rightarrow> smsg option option \<times> db" where
  "pg_GetMessage P mid = pg_row P mid (\<lambda>mid. db_call (\<lambda>d. (find (\<lambda>m. sm_ID m = mid) (db_messages d), d)))"

definition pg_DeleteMessage :: "pg_types \<Rightarrow> string \<Rightarrow> db \<Rightarrow> unit option \<times> db" where
  "pg_DeleteMessage P mid = pg_row P mid (\<lambda>mid. db_try (\<lambda>d.
     if mid \<in> set (map sm_ID (db_messages d)) \<and> mid \<in> set (map dr_MessageID (db_reports d)) then None
     else Some (d\<lparr>db_messages := filter (\<lambda>m. sm_ID m \<noteq> mid) (db_messages d)\<rparr>)))"

definition pg_ListMessages :: "int \<Rightarrow> db \<Rightarrow> smsg list option \<times> db" where
  "pg_ListMessages limit = db_call (\<lambda>d.
     (take (if limit \<le> 0 then 100 else nat limit) (sort_key (\<lambda>m. - sm_SubmittedAt m) (db_messages d)), d))"

text \<open>
  \<open>ILIKE\<close>: unlike the \<open>LIKE\<close> of SQLite it takes the backslash for an escape, also the one before the closing \<open>%\<close>; a pattern that
  ends with an escape is an error, which the closing \<open>%\<close> excludes.
\<close>

fun pg_ilike :: "string \<Rightarrow> string \<Rightarrow> bool" where
  "pg_ilike [] s = (s = [])"
| "pg_ilike (c # cs) [] = (c = CHR ''%'' \<and> pg_ilike cs [])"
| "pg_ilike (c # cs) (x # xs) =
     (if c = CHR 0x5C then (case cs of [] \<Rightarrow> False | c' # cs' \<Rightarrow> lower_char c' = lower_char x \<and> pg_ilike cs' xs)
      else if c = CHR ''%'' then pg_ilike cs (x # xs) \<or> pg_ilike (c # cs) xs
      else (c = CHR ''_'' \<or> lower_char c = lower_char x) \<and> pg_ilike cs xs)"

definition pg_filter_matches :: "message_filter \<Rightarrow> smsg \<Rightarrow> bool" where
  "pg_filter_matches f m \<longleftrightarrow>
     (let sts = filter (\<lambda>s. s \<noteq> []) (mf_Statuses f) in sts \<noteq> [] \<longrightarrow> sm_Status m \<in> set sts) \<and>
     (mf_SrcMSISDN f \<noteq> [] \<longrightarrow> pg_ilike (''%'' @ mf_SrcMSISDN f @ ''%'') (sm_SrcMSISDN m)) \<and>
     (mf_DstMSISDN f \<noteq> [] \<longrightarrow> pg_ilike (''%'' @ mf_DstMSISDN f @ ''%'') (sm_DstMSISDN m)) \<and>
     (mf_OriginPeer f \<noteq> [] \<longrightarrow> pg_ilike (''%'' @ mf_OriginPeer f @ ''%'') (sm_OriginPeer m)) \<and>
     (mf_AlertCorrelationID f \<noteq> [] \<longrightarrow> sm_AlertCorrelationID m = mf_AlertCorrelationID f) \<and>
     (mf_DeferredInterface f \<noteq> [] \<longrightarrow> sm_DeferredInterface m = mf_DeferredInterface f)"

definition pg_ListFilteredMessages :: "message_filter \<Rightarrow> db \<Rightarrow> smsg list option \<times> db" where
  "pg_ListFilteredMessages f = db_call (\<lambda>d.
     (take (if mf_Limit f \<le> 0 then 100 else nat (mf_Limit f))
        (sort_key (\<lambda>m. case sm_NextRetryAt m of Some t \<Rightarrow> t | None \<Rightarrow> sm_SubmittedAt m)
          (sort_key (\<lambda>m. - sm_SubmittedAt m) (filter (pg_filter_matches f) (db_messages d)))), d))"

section \<open>Reports and registrations\<close>

definition pg_ListDeliveryReports :: "int \<Rightarrow> db \<Rightarrow> delivery_report list option \<times> db" where
  "pg_ListDeliveryReports limit = db_call (\<lambda>d.
     (take (if limit \<le> 0 then 100 else nat limit) (sort_key (\<lambda>r. - dr_ReportedAt r) (db_reports d)), d))"

definition pg_GetDeliveryReport :: "pg_types \<Rightarrow> string \<Rightarrow> db \<Rightarrow> delivery_report option option \<times> db" where
  "pg_GetDeliveryReport P rid = pg_row P rid (\<lambda>rid. db_call (\<lambda>d. (find (\<lambda>r. dr_ID r = rid) (db_reports d), d)))"

definition pg_SaveDeliveryReport :: "pg_types \<Rightarrow> delivery_report \<Rightarrow> db \<Rightarrow> unit option \<times> db" where
  "pg_SaveDeliveryReport P r = pg_row P (dr_ID r) (\<lambda>rid. pg_row P (dr_MessageID r) (\<lambda>mid. db_try (\<lambda>d.
     if rid \<in> set (map dr_ID (db_reports d)) \<or> mid \<notin> set (map sm_ID (db_messages d)) \<or> dr_Status r \<notin> set report_statuses then None
     else Some (d\<lparr>db_reports := db_reports d @ [r\<lparr>dr_ID := rid, dr_MessageID := mid, dr_ReportedAt := pg_time (dr_ReportedAt r)\<rparr>]\<rparr>))))"

definition pg_GetIMSRegistration :: "string \<Rightarrow> db \<Rightarrow> ims_registration option option \<times> db" where
  "pg_GetIMSRegistration msisdn = db_call (\<lambda>d. (find (\<lambda>r. ir_MSISDN r = msisdn) (db_registrations d), d))"

text \<open>There is no column for the IMSI, so reading gives an empty one.\<close>

definition pg_UpsertIMSRegistration :: "ims_registration \<Rightarrow> db \<Rightarrow> unit option \<times> db" where
  "pg_UpsertIMSRegistration r = db_call (\<lambda>d.
     ((), d\<lparr>db_registrations := upsert_row ir_MSISDN (r\<lparr>ir_Expiry := pg_time (ir_Expiry r), ir_IMSI := []\<rparr>) (db_registrations d)\<rparr>))"

definition pg_DeleteIMSRegistration :: "string \<Rightarrow> db \<Rightarrow> unit option \<times> db" where
  "pg_DeleteIMSRegistration msisdn = db_call (\<lambda>d.
     ((), d\<lparr>db_registrations := filter (\<lambda>r. ir_MSISDN r \<noteq> msisdn) (db_registrations d)\<rparr>))"

definition pg_ListIMSRegistrations :: "pg_types \<Rightarrow> db \<Rightarrow> ims_registration list option \<times> db" where
  "pg_ListIMSRegistrations P = db_call (\<lambda>d. (pg_order P ir_MSISDN (db_registrations d), d))"

section \<open>Agreement with the statements of the engine\<close>

lemma pg_row_canonical: "pg_uuid P mid = Some mid \<Longrightarrow> pg_row P mid f = f mid"
  by (simp add: pg_row_def fun_eq_iff)

lemma db_call_same:
  assumes "\<And>d'. db_backend d' = db_backend d \<Longrightarrow> db_accepts d' = db_accepts d \<Longrightarrow> f d' = g d'"
  shows "db_call f d = db_call g d"
  using assms by (simp add: db_call.simps split: list.split)

lemma db_try_Some: "db_try (\<lambda>d. Some (f d)) d = db_call (\<lambda>d. ((), f d)) d"
  by (auto simp: db_try_def db_step_def db_call.simps split: list.split)

lemma db_try_same:
  assumes "\<And>d'. db_backend d' = db_backend d \<Longrightarrow> f d' = g d'"
  shows "db_try f d = db_try g d"
proof -
  have "db_call (db_step f) d = db_call (db_step g) d" by (rule db_call_same) (simp add: db_step_def assms)
  then show ?thesis by (simp add: db_try_def)
qed

lemma db_time_pg [simp]: "db_time Postgres = pg_time"
  by (simp add: fun_eq_iff pg_time_def db_time.simps)

declare db_time.simps(2) [simp del]

lemma pg_ilike_plain: "CHR 0x5C \<notin> set p \<Longrightarrow> pg_ilike p s = like_match p s"
  by (induction p s rule: like_match.induct) auto

lemma pg_filter_plain:
  assumes "CHR 0x5C \<notin> set (mf_SrcMSISDN f) \<union> set (mf_DstMSISDN f) \<union> set (mf_OriginPeer f)"
  shows "pg_filter_matches f = filter_matches f"
  using assms by (intro ext) (simp add: pg_filter_matches_def filter_matches_def like_contains_def pg_ilike_plain)

lemma pg_writes:
  assumes "pg_uuid P mid = Some mid" "db_backend d = Postgres" "pg_int4 cursor" "pg_int4 n" "status \<in> set message_statuses"
  shows "pg_UpdateMessageRouting P mid iface peer d = UpdateMessageRouting mid iface peer d"
    "pg_UpdateMessageDeferred P mid reason iface node cursor d = UpdateMessageDeferred mid reason iface node cursor d"
    "pg_UpdateMessageStatus P now mid status d = UpdateMessageStatus now mid status d"
    "pg_ClaimMessageForDispatch P mid allowed d = ClaimMessageForDispatch mid allowed d"
    "pg_UpdateMessageRetry P mid n t cursor d = UpdateMessageRetry mid n t cursor d"
    "pg_UpdateMessageExpiryCap P mid t d = UpdateMessageExpiryCap mid t d"
    "pg_RequeueMessageForAlert P mid t cursor reason allowed d = RequeueMessageForAlert mid t cursor reason allowed d"
    "pg_DeleteMessage P mid d = DeleteMessage mid d"
proof -
  note canonical = pg_row_canonical [OF assms(1)]
  show "pg_UpdateMessageRouting P mid iface peer d = UpdateMessageRouting mid iface peer d"
    "pg_DeleteMessage P mid d = DeleteMessage mid d"
    by (simp_all add: pg_UpdateMessageRouting_def UpdateMessageRouting_def pg_DeleteMessage_def DeleteMessage_def canonical)
  show "pg_UpdateMessageDeferred P mid reason iface node cursor d = UpdateMessageDeferred mid reason iface node cursor d"
    by (simp add: pg_UpdateMessageDeferred_def UpdateMessageDeferred_def canonical assms(3) db_try_Some)
  show "pg_UpdateMessageStatus P now mid status d = UpdateMessageStatus now mid status d"
    unfolding pg_UpdateMessageStatus_def UpdateMessageStatus_def canonical
    by (simp add: assms(5) db_try_Some) (rule db_call_same, simp add: assms(2))
  show "pg_ClaimMessageForDispatch P mid allowed d = ClaimMessageForDispatch mid allowed d"
    unfolding pg_ClaimMessageForDispatch_def ClaimMessageForDispatch_def canonical
    by simp (intro impI db_call_same, simp add: upd_guarded_def)
  show "pg_UpdateMessageRetry P mid n t cursor d = UpdateMessageRetry mid n t cursor d"
    unfolding pg_UpdateMessageRetry_def UpdateMessageRetry_def canonical
    by (simp add: assms(3,4) db_try_Some) (rule db_call_same, simp add: assms(2))
  show "pg_UpdateMessageExpiryCap P mid t d = UpdateMessageExpiryCap mid t d"
    unfolding pg_UpdateMessageExpiryCap_def UpdateMessageExpiryCap_def canonical
    by (rule db_call_same) (simp add: assms(2) Let_def cong: option.case_cong if_cong)
  show "pg_RequeueMessageForAlert P mid t cursor reason allowed d = RequeueMessageForAlert mid t cursor reason allowed d"
    unfolding pg_RequeueMessageForAlert_def RequeueMessageForAlert_def canonical
    by (simp add: assms(3)) (intro impI db_call_same, simp add: upd_guarded_def assms(2))
qed

lemma pg_reads:
  assumes "pg_uuid P mid = Some mid" "db_backend d = Postgres"
    and "CHR 0x5C \<notin> set (mf_SrcMSISDN f) \<union> set (mf_DstMSISDN f) \<union> set (mf_OriginPeer f)"
  shows "pg_GetMessage P mid d = GetMessage mid d" "pg_ListRetryableMessages now d = ListRetryableMessages now d"
    "pg_ListExpiredMessages now d = ListExpiredMessages now d" "pg_ListMessages limit d = ListMessages limit d"
    "pg_ListFilteredMessages f d = ListFilteredMessages f d"
    "pg_ListDeliveryReports limit d = ListDeliveryReports limit d" "pg_GetDeliveryReport P mid d = GetDeliveryReport mid d"
proof -
  note canonical = pg_row_canonical [OF assms(1)]
  show "pg_GetMessage P mid d = GetMessage mid d" "pg_GetDeliveryReport P mid d = GetDeliveryReport mid d"
    by (simp_all add: pg_GetMessage_def GetMessage_def pg_GetDeliveryReport_def GetDeliveryReport_def canonical)
  show "pg_ListRetryableMessages now d = ListRetryableMessages now d"
    unfolding pg_ListRetryableMessages_def ListRetryableMessages_def
    by (rule db_call_same) (simp add: assms(2) retry_due_def [abs_def] retryable_statuses_def cong: option.case_cong)
  show "pg_ListExpiredMessages now d = ListExpiredMessages now d"
    unfolding pg_ListExpiredMessages_def ListExpiredMessages_def
    by (rule db_call_same) (simp add: assms(2) expiry_due_def [abs_def] waiting_statuses_def cong: option.case_cong)
  show "pg_ListMessages limit d = ListMessages limit d" "pg_ListDeliveryReports limit d = ListDeliveryReports limit d"
    by (simp_all add: pg_ListMessages_def ListMessages_def pg_ListDeliveryReports_def ListDeliveryReports_def list_limit_def)
  show "pg_ListFilteredMessages f d = ListFilteredMessages f d"
    by (simp add: pg_ListFilteredMessages_def ListFilteredMessages_def pg_filter_plain [OF assms(3)] list_limit_def filtered_order_def)
qed

lemma pg_inserts:
  assumes "pg_uuid P (sm_ID m) = Some (sm_ID m)" "db_backend d = Postgres" "db_accepts d (sm_ID m)" "pg_message_ok m"
    and "pg_uuid P (dr_ID r) = Some (dr_ID r)" "pg_uuid P (dr_MessageID r) = Some (dr_MessageID r)"
  shows "pg_SaveMessage P m d = SaveMessage m d" "pg_SaveDeliveryReport P r d = SaveDeliveryReport r d"
    "pg_UpsertIMSRegistration reg d = UpsertIMSRegistration reg d"
proof -
  show "pg_SaveMessage P m d = SaveMessage m d"
    unfolding pg_SaveMessage_def SaveMessage_def
    by (rule db_call_same) (simp add: assms(1-4) store_times_def comp_def cong: map_option_cong)
  show "pg_SaveDeliveryReport P r d = SaveDeliveryReport r d"
    unfolding pg_SaveDeliveryReport_def SaveDeliveryReport_def pg_row_canonical [OF assms(5)] pg_row_canonical [OF assms(6)]
    by (rule db_try_same) (simp add: assms(2))
  show "pg_UpsertIMSRegistration reg d = UpsertIMSRegistration reg d"
    unfolding pg_UpsertIMSRegistration_def UpsertIMSRegistration_def
    by (rule db_call_same) (simp add: assms(2))
qed

section \<open>Properties\<close>

text \<open>
  C27: The statements of the engine are those of PostgreSQL, on identifiers in the server's notation, which is what the rows bear,
  on numbers that fit their columns and filters without a backslash: the same answer, the same tables, and the same failures.
\<close>

theorem pg_messages_agree:
  assumes "db_backend d = Postgres" "pg_uuid P (sm_ID m) = Some (sm_ID m)" "db_accepts d (sm_ID m)" "pg_message_ok m"
    and "pg_int4 cursor" "pg_int4 n" "status \<in> set message_statuses"
    and "pg_uuid P (dr_ID r) = Some (dr_ID r)" "dr_MessageID r = sm_ID m"
    and "CHR 0x5C \<notin> set (mf_SrcMSISDN f) \<union> set (mf_DstMSISDN f) \<union> set (mf_OriginPeer f)"
  shows "pg_SaveMessage P m d = SaveMessage m d \<and>
    pg_UpdateMessageRouting P (sm_ID m) iface peer d = UpdateMessageRouting (sm_ID m) iface peer d \<and>
    pg_UpdateMessageDeferred P (sm_ID m) reason iface node cursor d = UpdateMessageDeferred (sm_ID m) reason iface node cursor d \<and>
    pg_UpdateMessageStatus P now (sm_ID m) status d = UpdateMessageStatus now (sm_ID m) status d \<and>
    pg_ClaimMessageForDispatch P (sm_ID m) allowed d = ClaimMessageForDispatch (sm_ID m) allowed d \<and>
    pg_UpdateMessageRetry P (sm_ID m) n t cursor d = UpdateMessageRetry (sm_ID m) n t cursor d \<and>
    pg_UpdateMessageExpiryCap P (sm_ID m) t d = UpdateMessageExpiryCap (sm_ID m) t d \<and>
    pg_RequeueMessageForAlert P (sm_ID m) t cursor reason allowed d = RequeueMessageForAlert (sm_ID m) t cursor reason allowed d \<and>
    pg_DeleteMessage P (sm_ID m) d = DeleteMessage (sm_ID m) d \<and> pg_GetMessage P (sm_ID m) d = GetMessage (sm_ID m) d \<and>
    pg_ListRetryableMessages now d = ListRetryableMessages now d \<and> pg_ListExpiredMessages now d = ListExpiredMessages now d \<and>
    pg_ListMessages limit d = ListMessages limit d \<and> pg_ListFilteredMessages f d = ListFilteredMessages f d \<and>
    pg_SaveDeliveryReport P r d = SaveDeliveryReport r d \<and> pg_ListDeliveryReports limit d = ListDeliveryReports limit d \<and>
    pg_UpsertIMSRegistration reg d = UpsertIMSRegistration reg d"
proof -
  note writes = pg_writes [OF assms(2,1,5,6,7)]
  note reads = pg_reads [OF assms(2,1,10)]
  have "pg_uuid P (dr_MessageID r) = Some (dr_MessageID r)" using assms(2,9) by simp
  note inserts = pg_inserts [OF assms(2,1,3,4,8) this]
  show ?thesis by (intro conjI inserts writes reads)
qed

text \<open>A backslash in a filter is an escape on PostgreSQL alone: the same filter finds different messages.\<close>

theorem filters_differ:
  "\<exists>f m. pg_filter_matches f m \<noteq> filter_matches f m"
proof -
  let ?f = "\<lparr>mf_Statuses = [], mf_SrcMSISDN = [], mf_DstMSISDN = [], mf_OriginPeer = [CHR ''a'', CHR 0x5C, CHR ''b''],
     mf_AlertCorrelationID = [], mf_DeferredInterface = [], mf_Limit = 0\<rparr>"
  let ?m = "(example_message ''1'' MessageStatusQueued None)\<lparr>sm_OriginPeer := ''ab''\<rparr>"
  have "pg_filter_matches ?f ?m \<noteq> filter_matches ?f ?m"
    by (simp add: pg_filter_matches_def filter_matches_def like_contains_def)
  then show ?thesis by blast
qed

theorem pg_messages_agree_witness:
  "pg_SaveMessage pg_sample (example_message ''1'' MessageStatusQueued None) (example_db Postgres []) =
     SaveMessage (example_message ''1'' MessageStatusQueued None) (example_db Postgres []) \<and>
   pg_ListRetryableMessages 5 (example_db Postgres []) = ListRetryableMessages 5 (example_db Postgres [])"
proof -
  let ?m = "example_message ''1'' MessageStatusQueued None"
  let ?r = "\<lparr>dr_ID = ''2'', dr_MessageID = ''1'', dr_Status = ''DELIVRD'', dr_EgressIface = [], dr_RawReceipt = [], dr_ReportedAt = 0\<rparr>"
  let ?f = "\<lparr>mf_Statuses = [], mf_SrcMSISDN = [], mf_DstMSISDN = ''20'', mf_OriginPeer = [],
     mf_AlertCorrelationID = [], mf_DeferredInterface = [], mf_Limit = 0\<rparr>"
  have h: "db_backend (example_db Postgres []) = Postgres" "pg_uuid pg_sample (sm_ID ?m) = Some (sm_ID ?m)"
    "db_accepts (example_db Postgres []) (sm_ID ?m)" "pg_message_ok ?m" "pg_int4 0" "pg_int4 0"
    "MessageStatusQueued \<in> set message_statuses" "pg_uuid pg_sample (dr_ID ?r) = Some (dr_ID ?r)" "dr_MessageID ?r = sm_ID ?m"
    "CHR 0x5C \<notin> set (mf_SrcMSISDN ?f) \<union> set (mf_DstMSISDN ?f) \<union> set (mf_OriginPeer ?f)"
    by (simp_all add: example_db_def example_message_def pg_sample_def pg_message_ok_def message_statuses_def pg_int4_def
        pg_int4_opt_def pg_int2_def)
  show ?thesis using pg_messages_agree [OF h, of undefined undefined undefined undefined 5] by blast
qed

end
