(* ===== verification/Spec2Isabelle.thy ===== *)
theory Spec2Isabelle
  imports Exhaustion DiamClient SmppClient SipMessages Notify Config Status System Reported PgMessages
begin

text \<open>
  A model of the VectorCore SMSC: the short-message centre of \<open>src/cmd/smsc\<close> and \<open>src/internal\<close>. It takes short messages
  from SMPP clients, from SIP (3GPP IMS terminals and SIP SIMPLE sites) and from MMEs over Diameter SGd, stores each of them,
  finds out where its recipient is, delivers it over one of the same interfaces, tries again when that fails, and reports the
  outcome to the sender. Paths below are those under \<open>src/\<close>; a definition bears the name of the function it models, with the
  package in front where two packages have the same.

  \<^bold>\<open>The parts and how they work together.\<close>
  A message comes in as octets, which a codec turns into the canonical message (\<open>internal/codec/message.go\<close>). \<open>main\<close> hands it to
  the forwarder (\<open>internal/forwarder\<close>), which stores it (\<open>internal/store\<close>), lists the ways to deliver it - first by where the
  recipient is registered (\<open>internal/registry\<close>, which asks the subscriber server over Sh and S6c), then by the rules of the
  operator (\<open>internal/routing\<close>) - and tries them in turn. Delivery goes out through the SMPP clients and server (\<open>internal/smpp\<close>),
  the SIP senders (\<open>internal/sip\<close>) or the SGd server (\<open>internal/diameter/sgd\<close>) over Diameter peers (\<open>internal/diameter\<close>). What
  could not be delivered waits in the store: a scheduler retries it, a sweep expires it, and an alert that its recipient has
  become reachable wakes it up. The correlator (\<open>internal/dr\<close>) stores a report of the outcome and sends a receipt. Operators
  change accounts, peers and rules through an HTTP API (\<open>internal/api\<close>); a change reaches the running parts through the
  notifications of the store.

  \<^bold>\<open>Theories.\<close>
  From the wire to the message:
    \<^item> \<open>Prelude\<close>: octets as 8-bit words, the outcome of a Go call (\<open>Ok\<close>, \<open>Err\<close>, \<open>Panic\<close>), indexing and slicing that panic out of
      range, big-endian integers, functions of the package \<open>strings\<close>. \<open>Utf8\<close>: strings of runes and of octets. \<open>Msg\<close>: the message,
      its address, user data header and alphabet, and times.
    \<^item> \<open>Gsm7\<close> (\<open>codec/tpdu/dcs.go\<close>): the alphabets and the packing of septets. \<open>Tpdu\<close> (\<open>codec/tpdu/decode.go\<close>, \<open>encode.go\<close>):
      SUBMIT, DELIVER and STATUS-REPORT. Decoders never panic, and DELIVER is read back as it was sent.
    \<^item> \<open>SmppPdu\<close> (\<open>smpp/pdu.go\<close>, \<open>codec.go\<close>) and \<open>SmppCodec\<close> (\<open>codec/smpp\<close>): PDUs, their framing, TLVs and receipts; PDUs and short
      messages are read back.
    \<^item> \<open>DiamCodec\<close> (\<open>diameter/codec\<close>): AVPs and messages, with the locale \<open>item_codec\<close> of padded items in a row. \<open>S6cCodec\<close>
      (\<open>diameter/s6c/codec.go\<close>) and \<open>SgdCodec\<close> (\<open>codec/sgd\<close>): numbers, requests and answers of S6c and SGd.
    \<^item> \<open>Sip3gpp\<close> (\<open>codec/sip3gpp\<close>) and \<open>SipSimple\<close> (\<open>codec/sipsimple\<close>): RP messages, plain text, CPIM and IMDN bodies.

  The engine:
    \<^item> \<open>MsgStore\<close>: the tables of \<open>store/store.go\<close> and the statements of both stores on messages and reports, which differ by
      \<open>db_backend\<close> and by the identifiers \<open>db_accepts\<close>. Every statement may fail, as the schedule \<open>db_faults\<close> says.
      Locales: \<open>row_store\<close> (rows under a key, updated one at a time) and \<open>claimable\<close> (a claim that one claimant wins).
    \<^item> \<open>Routing\<close> (\<open>routing\<close>, \<open>numbering\<close>, \<open>sgdmap\<close>): rules by priority, numbers, names of MMEs; the locale \<open>reloading\<close> is shared by
      the tables that are read again as a whole.
    \<^item> \<open>World\<close>: the state of the process, the far ends \<open>env\<close>, the state monad over them, and the calculus of what a process leaves
      alone (\<open>stays\<close>) and keeps true (\<open>keeps\<close>), by the collections \<open>frame\<close> and \<open>kept\<close>.
    \<^item> \<open>Registry\<close> (\<open>registry\<close>): the cache of registrations over its table, as the locale \<open>write_cache\<close>. \<open>Reports\<close>
      (\<open>dr/correlator.go\<close>). \<open>Forwarder\<close> (\<open>forwarder/forwarder.go\<close>): candidates, the routing pass and what it leaves.
      \<open>Retry\<close> (\<open>forwarder/retry.go\<close>, \<open>expiry.go\<close>, \<open>triggerAlertRetry\<close> of \<open>main.go\<close>).
    \<^item> \<open>Lifecycle\<close>, \<open>Redelivery\<close>, \<open>Exhaustion\<close>: what becomes of one message, by triples (\<open>leads\<close>) over the row of a message and
      by the relation \<open>engine_step\<close> of dispatches, retries, sweeps, alerts and restarts in any order: settled is final, a dispatch
      settles, a retry settles, a sweep expires, an alert wakes, and retries end.
    \<^item> \<open>Reported\<close>: what is reported of a message stays true, through any sequence of the same steps.
    \<^item> \<open>System\<close>: the callbacks of \<open>main\<close> and the SMPP server in front of the engine: a submission that was acknowledged is in the
      store, and no activity changes what is stored of it.

  The interfaces:
    \<^item> \<open>Correlation\<close>: the locale of a table of requests, each answered once, interpreted by \<open>SgdServer\<close> and \<open>SmppLink\<close>.
    \<^item> \<open>DiamPeer\<close> (\<open>diameter/peer.go\<close>): a connection as a transition system of its goroutines - reader, writer, watchdog - from the
      exchange of capabilities to the end. \<open>SgdServer\<close> (\<open>diameter/sgd\<close>). \<open>DiamClient\<close> (\<open>diameter/s6c/client.go\<close>,
      \<open>diameter/sh/udr.go\<close>), with the locale \<open>answering\<close>.
    \<^item> \<open>SmppLink\<close> (\<open>smpp/link.go\<close>, \<open>conn.go\<close>), \<open>SmppServer\<close> (\<open>smpp/server\<close>), \<open>SmppClient\<close> (\<open>smpp/client\<close>): links, who may bind,
      sessions, acknowledgements, and the clients that run after a change of their table.
    \<^item> \<open>SipMessages\<close> (\<open>sip/isc\<close>, \<open>sip/simple\<close>, the choice of a handler in \<open>main.go\<close>).

  Operation:
    \<^item> \<open>AdminStore\<close> (\<open>store/sqlite\<close>): the administered tables with the constraints of their schema, as the locale
      \<open>admin_table\<close>, interpreted for each of the eight. \<open>Postgres\<close> (\<open>store/postgres\<close>): the same statements with typed columns and
      foreign keys, and when both stores agree. \<open>PgMessages\<close>: those on messages, reports and registrations, and that the statements
      of \<open>MsgStore\<close> are these.
    \<^item> \<open>Api\<close> (\<open>api/handlers.go\<close>), over the tables of SQLite: every operation keeps the constraints, and one that fails changes nothing.
    \<^item> \<open>Notify\<close> (\<open>notify.go\<close> of both stores): polling, the events and who follows them.
    \<^item> \<open>Config\<close> (\<open>config/config.go\<close>, and what \<open>main\<close> derives from it), \<open>PeerSync\<close> (\<open>syncHSSPeers\<close> and \<open>syncSGdPeers\<close> of \<open>main.go\<close>):
      the peers that run are those of the table. \<open>Status\<close> (\<open>diameter_runtime.go\<close>, \<open>api/server.go\<close>, gauges and cleanup of \<open>main.go\<close>).

  \<^bold>\<open>How code becomes definitions.\<close>
  A struct is a record with a field per field; an integer is a word of its width where it can wrap and an \<open>int\<close> or \<open>nat\<close> where it
  cannot; durations and instants are numbers of nanoseconds. An error that the code returns is \<open>Err\<close>, or \<open>None\<close> where only its
  presence is looked at, and a run-time panic is \<open>Panic\<close>. What is only logged is left out. Mutexes are the atomicity of a step.
  Goroutines that run beside each other are inductive relations whose steps may come in any order. The steps of \<open>engine_step\<close>
  are whole activities; claims of single rows are interleaved in \<open>claims_exclusive\<close>, statement by statement.

  \<^bold>\<open>Bounds.\<close>
  There is no fuel: loops are structural recursion on what they run over, or functions whose measure is the octets, characters
  or days that are left. Loops that need not end - the read loops of connections - run over the list of inputs that arrive, and the
  reconnect loops over the list of attempts. The limits of the code are those of the source: 100 rows for a scheduler and a
  sweep, 1000 for an alert, 16 MiB for a PDU of SMPP, 65535 octets for a TLV.

  \<^bold>\<open>Parameters and what is assumed of them.\<close>
  The clock and the random source are functions of how often they were asked. Far ends answer by functions of all that was sent
  before. The order in which a Go map is run over is an argument, a permutation of its keys. Parameters are the SQL servers'
  notations (UUID, INET, INTERVAL, collation), YAML, keys and certificates, bcrypt, the XML parser, SIP URIs and transactions,
  \<open>time.Parse\<close>, \<open>time.Format\<close> and \<open>time.ParseDuration\<close>. A theorem that relies on one of them says so as a hypothesis, for instance
  that the server reads a number of microseconds as that interval; its witness gives a function with the property.
  \<open>calm\<close> says that no statement is going to fail; theorems without it hold whatever statements fail.

  \<^bold>\<open>Not modelled.\<close>
  Counters for Prometheus (\<open>internal/metrics\<close>), which nothing reads back. The set-up of the SIP library (\<open>internal/sip/server.go\<close>),
  of the HTTP server with its log and embedded pages (\<open>internal/api/server.go\<close>, \<open>web.go\<close>), and of TCP and SCTP sockets
  (\<open>internal/diameter/transport.go\<close>): they only call libraries. Opening a database and migrating its schema (\<open>db.go\<close>), apart from
  the recovery of messages in flight. Session identifiers of Diameter, which are random. In \<open>main\<close>: flags, signals and the
  wiring of the parts. In texts on PostgreSQL: NUL and octets that are not UTF-8, which the server refuses.
\<close>

end
